(* ===== verification/Prelude.thy ===== *)
theory Prelude
  imports Complex_Main "HOL-Library.Sublist"
begin

text \<open>
  Shared vocabulary of the Science Ladder development.

  \<^item> Results: a Go function returning \<open>(T, error)\<close> is a value of \<open>'a res\<close>, a sum whose left side
    carries the error.  A nil dereference or an index out of range is the error \<open>Panic\<close>, so that
    the absence of a run-time panic is a statement about values.
  \<^item> Loops: \<open>res_fold\<close> is a \<open>for ... range\<close> loop with early return that threads a state, and
    \<open>res_each\<close> one that threads none.  \<open>res_fold_seen\<close> is the rule for the many loops of the code
    that keep a set of names already seen.
  \<^item> Maps: a Go map is an association list with distinct keys; the order of the list stands for the
    iteration order of one run, which Go leaves unspecified.
  \<^item> Integers: \<open>int64\<close> wraps a mathematical integer to the two's complement range of 64 bits.

  The collections \<open>res_simps\<close> and \<open>panic_intros\<close> carry the component proofs.
\<close>

named_theorems res_simps "success of a checked computation"
named_theorems panic_intros "absence of run-time panics"

section \<open>Results\<close>

datatype go_error =
    Err string
  | Errf string "string list"
  | Wrapped string go_error
  | Panic string

type_synonym 'a res = "go_error + 'a"

definition res_bind :: "'a res \<Rightarrow> ('a \<Rightarrow> 'b res) \<Rightarrow> 'b res" where
  "res_bind r k = (case r of Inl e \<Rightarrow> Inl e | Inr x \<Rightarrow> k x)"

text \<open>\<open>fail_if c msg k\<close> is the Go idiom \<open>if c { return errors.New(msg) }; k\<close>.\<close>

definition fail_if :: "bool \<Rightarrow> string \<Rightarrow> 'a res \<Rightarrow> 'a res" where
  "fail_if c msg k = (if c then Inl (Err msg) else k)"

text \<open>\<open>or_else r e\<close> is \<open>if err != nil { return e }\<close>: the error of \<open>r\<close> is replaced by \<open>e\<close>, but a panic is
  not an error value and cannot be replaced.\<close>

definition or_else :: "'a res \<Rightarrow> go_error \<Rightarrow> 'a res" where
  "or_else r e = (case r of Inl (Panic m) \<Rightarrow> Inl (Panic m) | Inl _ \<Rightarrow> Inl e | Inr x \<Rightarrow> Inr x)"

definition deref :: "'a option \<Rightarrow> 'a res" where
  "deref p = (case p of None \<Rightarrow> Inl (Panic ''nil pointer dereference'') | Some x \<Rightarrow> Inr x)"

definition index :: "'a list \<Rightarrow> int \<Rightarrow> 'a res" where
  "index xs i = (if 0 \<le> i \<and> i < int (length xs) then Inr (xs ! nat i)
     else Inl (Panic ''index out of range''))"

text \<open>A call whose error is assigned to the blank identifier: on an error the result is nil, and
  using it panics.\<close>

definition ignore_err :: "'a res \<Rightarrow> 'a res" where
  "ignore_err r = (case r of Inl _ \<Rightarrow> Inl (Panic ''nil pointer dereference'') | Inr x \<Rightarrow> Inr x)"

text \<open>\<open>wrap_err msg r\<close> is \<open>if err != nil { return fmt.Errorf(msg + ": %w", err) }\<close>.\<close>

definition wrap_err :: "string \<Rightarrow> 'a res \<Rightarrow> 'a res" where
  "wrap_err msg r = (case r of Inl (Panic m) \<Rightarrow> Inl (Panic m) | Inl e \<Rightarrow> Inl (Wrapped msg e) | Inr x \<Rightarrow> Inr x)"

fun is_ok :: "'a res \<Rightarrow> bool" where
  "is_ok (Inl e) = False"
| "is_ok (Inr x) = True"

fun no_panic :: "'a res \<Rightarrow> bool" where
  "no_panic (Inl (Panic m)) = False"
| "no_panic _ = True"

lemma res_bind_simps [simp]:
  "res_bind (Inl e) k = Inl e" "res_bind (Inr x) k = k x"
  by (simp_all add: res_bind_def)

lemma res_bind_Inr_iff [res_simps]:
  "res_bind r k = Inr y \<longleftrightarrow> (\<exists>x. r = Inr x \<and> k x = Inr y)"
  by (cases r) auto

lemma fail_if_simps [simp]:
  "fail_if True msg k = Inl (Err msg)" "fail_if False msg k = k"
  by (simp_all add: fail_if_def)

lemma fail_if_Inr_iff [res_simps]:
  "fail_if c msg k = Inr y \<longleftrightarrow> \<not> c \<and> k = Inr y"
  by (simp add: fail_if_def)

lemma or_else_Inr_iff [res_simps]: "or_else r e = Inr y \<longleftrightarrow> r = Inr y"
  by (auto simp: or_else_def split: sum.splits go_error.splits)

lemma or_else_simps [simp]:
  "or_else (Inr x) e = Inr x" "or_else (Inl (Err m)) e = Inl e"
  "or_else (Inl (Errf m xs)) e = Inl e" "or_else (Inl (Wrapped m w)) e = Inl e"
  "or_else (Inl (Panic m)) e = Inl (Panic m)"
  by (simp_all add: or_else_def)

lemma wrap_err_Inr_iff [res_simps]: "wrap_err msg r = Inr y \<longleftrightarrow> r = Inr y"
  by (auto simp: wrap_err_def split: sum.splits go_error.splits)

lemma wrap_err_Inr [simp]: "wrap_err msg (Inr x) = Inr x"
  by (simp add: wrap_err_def)

lemma deref_simps [simp]:
  "deref (Some x) = Inr x" "deref None = Inl (Panic ''nil pointer dereference'')"
  by (simp_all add: deref_def)

lemma deref_Inr_iff [res_simps]: "deref p = Inr x \<longleftrightarrow> p = Some x"
  by (cases p) auto

lemma ignore_err_simps [simp]:
  "ignore_err (Inr x) = Inr x" "ignore_err (Inl e) = Inl (Panic ''nil pointer dereference'')"
  by (simp_all add: ignore_err_def)

lemma ignore_err_Inr_iff [res_simps]: "ignore_err r = Inr x \<longleftrightarrow> r = Inr x"
  by (cases r) auto

lemma index_Inr_iff [res_simps]:
  "index xs i = Inr x \<longleftrightarrow> 0 \<le> i \<and> i < int (length xs) \<and> x = xs ! nat i"
  by (auto simp: index_def)

lemma index_in [simp]: "0 \<le> i \<Longrightarrow> i < int (length xs) \<Longrightarrow> index xs i = Inr (xs ! nat i)"
  by (simp add: index_def)

lemma is_ok_iff: "is_ok r \<longleftrightarrow> (\<exists>x. r = Inr x)"
  by (cases r) auto

lemma no_panic_iff: "no_panic r \<longleftrightarrow> (\<forall>m. r \<noteq> Inl (Panic m))"
  by (cases r rule: no_panic.cases) auto

lemma no_panic_bind [panic_intros]:
  assumes "no_panic r" "\<And>x. r = Inr x \<Longrightarrow> no_panic (k x)"
  shows "no_panic (res_bind r k)"
  using assms by (cases r) (auto simp: no_panic_iff)

lemma no_panic_fail_if [panic_intros]:
  assumes "\<not> c \<Longrightarrow> no_panic k"
  shows "no_panic (fail_if c msg k)"
  using assms by (auto simp: fail_if_def)

lemma no_panic_or_else [panic_intros]:
  assumes "no_panic r" "no_panic (Inl e :: 'a res)"
  shows "no_panic (or_else (r :: 'a res) e)"
  using assms by (auto simp: or_else_def no_panic_iff split: sum.splits go_error.splits)

lemma no_panic_wrap_err [panic_intros]: "no_panic r \<Longrightarrow> no_panic (wrap_err msg r)"
  by (auto simp: wrap_err_def no_panic_iff split: sum.splits go_error.splits)

lemma no_panic_if [panic_intros]:
  assumes "c \<Longrightarrow> no_panic a" "\<not> c \<Longrightarrow> no_panic b"
  shows "no_panic (if c then a else b)"
  using assms by simp

lemma no_panic_deref [panic_intros]: "p \<noteq> None \<Longrightarrow> no_panic (deref p)"
  by (cases p) auto

lemma no_panic_index [panic_intros]:
  "0 \<le> i \<Longrightarrow> i < int (length xs) \<Longrightarrow> no_panic (index xs i)"
  by simp

section \<open>Loops with early return\<close>

fun res_fold :: "('s \<Rightarrow> 'a \<Rightarrow> 's res) \<Rightarrow> 's \<Rightarrow> 'a list \<Rightarrow> 's res" where
  "res_fold f s [] = Inr s"
| "res_fold f s (x # xs) = res_bind (f s x) (\<lambda>s'. res_fold f s' xs)"

fun res_each :: "('a \<Rightarrow> unit res) \<Rightarrow> 'a list \<Rightarrow> unit res" where
  "res_each f [] = Inr ()"
| "res_each f (x # xs) = res_bind (f x) (\<lambda>_. res_each f xs)"

lemma res_each_Inr_iff [res_simps]:
  "res_each f xs = Inr u \<longleftrightarrow> (\<forall>x\<in>set xs. f x = Inr ())"
  by (induction xs) (auto simp: res_simps)

lemma no_panic_each [panic_intros]:
  assumes "\<And>x. x \<in> set xs \<Longrightarrow> no_panic (f x)"
  shows "no_panic (res_each f xs)"
  using assms by (induction xs) (auto intro!: panic_intros)

lemma no_panic_fold [panic_intros]:
  assumes "\<And>s x. x \<in> set xs \<Longrightarrow> no_panic (f s x)"
  shows "no_panic (res_fold f s xs)"
  using assms by (induction xs arbitrary: s) (auto intro!: panic_intros)

lemma res_fold_inv:
  assumes "res_fold f s xs = Inr t" "P s"
    and "\<And>s x t. x \<in> set xs \<Longrightarrow> P s \<Longrightarrow> f s x = Inr t \<Longrightarrow> P t"
  shows "P t"
  using assms
proof (induction xs arbitrary: s)
  case Nil
  then show ?case by simp
next
  case (Cons x xs)
  from Cons.prems(1) obtain u where u: "f s x = Inr u" "res_fold f u xs = Inr t"
    by (auto simp: res_simps)
  from Cons.prems(2,3) u(1) have "P u" by auto
  show ?case
    by (rule Cons.IH [OF u(2) \<open>P u\<close>]) (use Cons.prems(3) in auto)
qed

lemma res_fold_append:
  "res_fold f s (xs @ ys) = res_bind (res_fold f s xs) (\<lambda>t. res_fold f t ys)"
proof (induction xs arbitrary: s)
  case (Cons x xs)
  then show ?case by (cases "f s x") auto
qed simp

text \<open>The body of a successful loop succeeded on every element.\<close>

lemma res_fold_each_ok:
  assumes "res_fold f s xs = Inr t" "x \<in> set xs"
  shows "\<exists>u v. f u x = Inr v"
  using assms by (induction xs arbitrary: s) (auto simp: res_simps)

text \<open>A loop that refuses a key it has seen and then records it accepts only lists without
  repeated keys.\<close>

lemma res_fold_seen:
  assumes "res_fold f S xs = Inr T"
    and "\<And>S x T. f S x = Inr T \<Longrightarrow> key x \<notin> S \<and> T = insert (key x) S"
  shows "distinct (map key xs) \<and> key ` set xs \<inter> S = {} \<and> T = S \<union> key ` set xs"
  using assms(1)
proof (induction xs arbitrary: S)
  case Nil
  then show ?case by simp
next
  case (Cons x xs)
  then obtain U where U: "f S x = Inr U" "res_fold f U xs = Inr T"
    by (auto simp: res_simps)
  from assms(2) [OF U(1)] have "key x \<notin> S" "U = insert (key x) S" by auto
  with Cons.IH [OF U(2)] show ?case by auto
qed

section \<open>Prefixes\<close>

lemma prefix_take: "prefix p s \<longleftrightarrow> take (length p) s = p"
  by (metis append_eq_conv_conj prefix_def take_is_prefix)

section \<open>Go maps\<close>

type_synonym ('k, 'v) gomap = "('k \<times> 'v) list"

abbreviation lookup :: "('k, 'v) gomap \<Rightarrow> 'k \<Rightarrow> 'v option" where
  "lookup \<equiv> map_of"

definition gomap_ok :: "('k, 'v) gomap \<Rightarrow> bool" where
  "gomap_ok m = distinct (map fst m)"

text \<open>Assignment \<open>m[k] = v\<close>.\<close>

fun gomap_put :: "'k \<Rightarrow> 'v \<Rightarrow> ('k, 'v) gomap \<Rightarrow> ('k, 'v) gomap" where
  "gomap_put k v [] = [(k, v)]"
| "gomap_put k v ((k', v') # m) = (if k' = k then (k, v) # m else (k', v') # gomap_put k v m)"

lemma lookup_put [simp]: "lookup (gomap_put k v m) k' = (if k' = k then Some v else lookup m k')"
  by (induction m) auto

lemma keys_put [simp]: "fst ` set (gomap_put k v m) = insert k (fst ` set m)"
proof (induction m)
  case (Cons x m)
  then show ?case by (cases x) auto
qed simp

lemma gomap_put_mem: "x \<in> set (gomap_put k v m) \<Longrightarrow> x = (k, v) \<or> x \<in> set m"
  by (induction m) (auto split: if_splits)

lemma gomap_ok_put: "gomap_ok m \<Longrightarrow> gomap_ok (gomap_put k v m)"
proof (induction m)
  case (Cons x m)
  obtain k' v' where x: "x = (k', v')" by (cases x)
  have "k' \<noteq> k \<Longrightarrow> k' \<notin> fst ` set (gomap_put k v m)" using Cons.prems x by (auto simp: gomap_ok_def)
  then show ?case using Cons x by (auto simp: gomap_ok_def)
qed (simp add: gomap_ok_def)

text \<open>A map with as many entries as there are declared names, none of which it lacks, has exactly the
  declared names as its keys.\<close>

lemma gomap_keys_exact:
  assumes "gomap_ok m" "length m = length names" "distinct names" "\<forall>n\<in>set names. lookup m n \<noteq> None"
  shows "fst ` set m = set names"
proof -
  have sub: "set names \<subseteq> fst ` set m" using assms(4) by (auto simp: map_of_eq_None_iff)
  have "card (fst ` set m) = length m"
    using assms(1) distinct_card [of "map fst m"] by (simp add: gomap_ok_def)
  moreover have "card (set names) = length names" using assms(3) by (rule distinct_card)
  ultimately show ?thesis using sub assms(2) card_subset_eq [of "fst ` set m" "set names"] by auto
qed

section \<open>64-bit integers\<close>

definition int64 :: "int \<Rightarrow> int" where
  "int64 x = signed_take_bit 63 x"

lemma int64_id: "- (2 ^ 63) \<le> x \<Longrightarrow> x < 2 ^ 63 \<Longrightarrow> int64 x = x"
  by (simp add: int64_def signed_take_bit_int_eq_self)

lemma int64_bounds: "- (2 ^ 63) \<le> int64 x \<and> int64 x < 2 ^ 63"
  unfolding int64_def
  using signed_take_bit_int_greater_eq_minus_exp [of 63 x] signed_take_bit_int_less_exp [of 63 x]
  by simp

end
