(* ===== verification/GoText.thy ===== *)
theory GoText
  imports Prelude
begin

text \<open>
  The parts of the Go standard library on text that the program uses: decimal integers
  (\<open>math/big\<close>, \<open>strconv\<close>), hexadecimal and base64 (\<open>encoding/hex\<close>, \<open>encoding/base64\<close>), splitting and
  joining (\<open>strings\<close>) and path cleaning (\<open>path\<close>).  A Go string and a byte slice are both lists of
  bytes, the type \<open>string\<close>.
\<close>

text \<open>Byte values and lengths are integers, as in Go, so that every bound of the code is compared
  in binary when a concrete input is evaluated.\<close>

abbreviation code :: "char \<Rightarrow> int" where
  "code c \<equiv> of_char c"

definition len :: "'a list \<Rightarrow> int" where
  "len xs = int (length xs)"

section \<open>Decimal integers\<close>

definition is_digit :: "char \<Rightarrow> bool" where
  "is_digit c = (48 \<le> code c \<and> code c \<le> 57)"

definition digit_val :: "char \<Rightarrow> int" where
  "digit_val c = code c - 48"

definition digit_char :: "int \<Rightarrow> char" where
  "digit_char n = char_of (48 + n)"

definition digits_val :: "string \<Rightarrow> int" where
  "digits_val s = foldl (\<lambda>a c. 10 * a + digit_val c) 0 s"

function show_nat :: "int \<Rightarrow> string" where
  "show_nat n = (if n < 10 then [digit_char n] else show_nat (n div 10) @ [digit_char (n mod 10)])"
  by pat_completeness auto
termination
  by (relation "measure nat") auto

declare show_nat.simps [simp del]

text \<open>\<open>(*big.Int).String\<close> and \<open>strconv.FormatInt(_, 10)\<close>.\<close>

definition show_int :: "int \<Rightarrow> string" where
  "show_int n = (if n < 0 then CHR ''-'' # show_nat (- n) else show_nat n)"

definition all_digits :: "string \<Rightarrow> bool" where
  "all_digits s = (s \<noteq> [] \<and> list_all is_digit s)"

text \<open>The regular expression \<open>(0|[1-9][0-9]*)\<close>.\<close>

definition canon_digits :: "string \<Rightarrow> bool" where
  "canon_digits s = (all_digits s \<and> (s = ''0'' \<or> hd s \<noteq> CHR ''0''))"

text \<open>\<open>new(big.Int).SetString(s, 10)\<close>: an optional sign and at least one digit, nothing else.\<close>

fun big_set_string :: "string \<Rightarrow> int option" where
  "big_set_string (c # cs) =
     (if c = CHR ''-'' then (if all_digits cs then Some (- digits_val cs) else None)
      else if c = CHR ''+'' then (if all_digits cs then Some (digits_val cs) else None)
      else if all_digits (c # cs) then Some (digits_val (c # cs)) else None)"
| "big_set_string [] = None"

text \<open>\<open>strconv.ParseInt(s, 10, 64)\<close>.\<close>

definition parse_int64 :: "string \<Rightarrow> int option" where
  "parse_int64 s = (case big_set_string s of None \<Rightarrow> None
     | Some v \<Rightarrow> if - 9223372036854775808 \<le> v \<and> v \<le> 9223372036854775807 then Some v else None)"

lemma len_simps [simp]:
  "len [] = 0" "len (x # xs) = 1 + len xs" "len (xs @ ys) = len xs + len ys" "len (map f xs) = len xs"
  by (simp_all add: len_def)

lemma len_nonneg [simp]: "0 \<le> len xs"
  by (simp add: len_def)

lemma len_zero [simp]: "len xs = 0 \<longleftrightarrow> xs = []"
  by (simp add: len_def)

lemma code_bounds [simp]: "0 \<le> code c" "code c < 256"
proof -
  have "code c = int (of_char c)" by (rule of_nat_of_char [symmetric])
  moreover have "of_char c < (256 :: nat)" by simp
  ultimately show "0 \<le> code c" "code c < 256" by linarith+
qed

lemma code_digit_char [simp]: "0 \<le> n \<Longrightarrow> n < 10 \<Longrightarrow> code (digit_char n) = 48 + n"
  by (simp add: digit_char_def)

lemma digit_val_char [simp]: "0 \<le> n \<Longrightarrow> n < 10 \<Longrightarrow> digit_val (digit_char n) = n"
  by (simp add: digit_val_def)

lemma is_digit_char [simp]: "0 \<le> n \<Longrightarrow> n < 10 \<Longrightarrow> is_digit (digit_char n)"
  by (simp add: is_digit_def)

lemma digit_val_bounds [simp]: "is_digit c \<Longrightarrow> digit_val c < 10" "is_digit c \<Longrightarrow> 0 \<le> digit_val c"
  by (auto simp: is_digit_def digit_val_def)

lemma digit_char_val [simp]: "is_digit c \<Longrightarrow> digit_char (digit_val c) = c"
  by (simp add: is_digit_def digit_val_def digit_char_def)

lemma digits_val_Nil [simp]: "digits_val [] = 0"
  by (simp add: digits_val_def)

lemma digits_val_snoc [simp]: "digits_val (s @ [c]) = 10 * digits_val s + digit_val c"
  by (simp add: digits_val_def)

lemma digits_val_nonneg: "list_all is_digit s \<Longrightarrow> 0 \<le> digits_val s"
  by (induction s rule: rev_induct) simp_all

lemma show_nat_small: "n < 10 \<Longrightarrow> show_nat n = [digit_char n]"
  by (simp add: show_nat.simps [of n])

lemma show_nat_large:
  "10 \<le> n \<Longrightarrow> show_nat n = show_nat (n div 10) @ [digit_char (n mod 10)]"
  by (simp add: show_nat.simps [of n])

lemma show_nat_nonempty [simp]: "show_nat n \<noteq> []"
  by (subst show_nat.simps) simp

lemma digits_val_show_nat [simp]: "0 \<le> n \<Longrightarrow> digits_val (show_nat n) = n"
proof (induction n rule: show_nat.induct)
  case (1 n)
  show ?case
  proof (cases "n < 10")
    case True
    then show ?thesis using 1 digits_val_snoc [of "[]" "digit_char n"] by (simp add: show_nat_small)
  next
    case False
    with 1 show ?thesis by (simp add: show_nat_large)
  qed
qed

lemma all_digits_show_nat [simp]: "0 \<le> n \<Longrightarrow> all_digits (show_nat n)"
proof (induction n rule: show_nat.induct)
  case (1 n)
  then show ?case
    by (cases "n < 10") (simp_all add: show_nat_small show_nat_large all_digits_def)
qed

lemma zero_char: "digit_char 0 = CHR ''0''"
  by (rule of_char_eq_iff [THEN iffD1, where ?'a1 = int]) (simp add: digit_char_def)

lemma digit_char_eq_zero: "0 \<le> n \<Longrightarrow> n < 10 \<Longrightarrow> digit_char n = CHR ''0'' \<longleftrightarrow> n = 0"
  by (metis digit_val_char zero_char order_refl zero_less_numeral)

lemma is_digit_zero [simp]: "is_digit CHR ''0''"
  by (simp add: is_digit_def)

lemma hd_show_nat: "n > 0 \<Longrightarrow> hd (show_nat n) \<noteq> CHR ''0''"
proof (induction n rule: show_nat.induct)
  case (1 n)
  then show ?case
    by (cases "n < 10") (simp_all add: show_nat_small show_nat_large digit_char_eq_zero)
qed

lemma canon_show_nat [simp]: "0 \<le> n \<Longrightarrow> canon_digits (show_nat n)"
proof (cases "n = 0")
  case True
  then show ?thesis by (simp add: canon_digits_def all_digits_def show_nat_small zero_char)
next
  case False
  moreover assume "0 \<le> n"
  ultimately show ?thesis by (simp add: canon_digits_def hd_show_nat)
qed

lemma digits_val_pos:
  "all_digits s \<Longrightarrow> hd s \<noteq> CHR ''0'' \<Longrightarrow> 0 < digits_val s"
proof (induction s rule: rev_induct)
  case Nil
  then show ?case by (simp add: all_digits_def)
next
  case (snoc c s)
  have "is_digit c" using snoc.prems by (simp add: all_digits_def)
  then have c: "0 \<le> digit_val c" by simp
  show ?case
  proof (cases "s = []")
    case True
    with snoc.prems have "c \<noteq> CHR ''0''" by auto
    then have "digit_val c \<noteq> 0" using \<open>is_digit c\<close> by (metis digit_char_val zero_char)
    with True c show ?thesis using digits_val_snoc [of "[]" c] by simp
  next
    case False
    with snoc have "0 < digits_val s" by (simp add: all_digits_def)
    with c show ?thesis by simp
  qed
qed

text \<open>A canonical digit string is the one that the printer writes.\<close>

lemma show_nat_digits_val: "canon_digits s \<Longrightarrow> show_nat (digits_val s) = s"
proof (induction s rule: rev_induct)
  case Nil
  then show ?case by (simp add: canon_digits_def all_digits_def)
next
  case (snoc c s)
  have dc: "is_digit c" using snoc.prems by (simp add: canon_digits_def all_digits_def)
  show ?case
  proof (cases "s = []")
    case True
    with dc show ?thesis using digits_val_snoc [of "[]" c] by (simp add: show_nat_small)
  next
    case False
    with snoc.prems have s: "canon_digits s" "hd s \<noteq> CHR ''0''"
      by (auto simp: canon_digits_def all_digits_def)
    from s have "0 < digits_val s" by (simp add: canon_digits_def digits_val_pos)
    with dc have "10 \<le> 10 * digits_val s + digit_val c" using digit_val_bounds [OF dc] by linarith
    moreover have "(10 * digits_val s + digit_val c) div 10 = digits_val s"
      "(10 * digits_val s + digit_val c) mod 10 = digit_val c"
      using digit_val_bounds [OF dc] by simp_all
    ultimately show ?thesis using snoc.IH [OF s(1)] dc by (simp add: show_nat_large)
  qed
qed

lemma hd_show_nat_digit: "0 \<le> n \<Longrightarrow> is_digit (hd (show_nat n))"
  using all_digits_show_nat [of n] by (cases "show_nat n") (simp_all add: all_digits_def)

lemma sign_not_digit [simp]: "\<not> is_digit CHR ''-''" "\<not> is_digit CHR ''+''"
  by (simp_all add: is_digit_def)

lemma big_set_string_digits: "all_digits s \<Longrightarrow> big_set_string s = Some (digits_val s)"
  by (cases s) (auto simp: all_digits_def)

lemma big_set_string_show_int [simp]: "big_set_string (show_int n) = Some n"
  by (simp add: show_int_def big_set_string_digits)

lemma show_int_inj: "show_int a = show_int b \<longleftrightarrow> a = b"
  by (metis big_set_string_show_int option.inject)

section \<open>Hexadecimal\<close>

definition hex_val :: "char \<Rightarrow> int option" where
  "hex_val c = (if is_digit c then Some (code c - 48)
     else if 97 \<le> code c \<and> code c \<le> 102 then Some (code c - 87)
     else if 65 \<le> code c \<and> code c \<le> 70 then Some (code c - 55)
     else None)"

definition hex_char :: "int \<Rightarrow> char" where
  "hex_char n = (if n < 10 then char_of (48 + n) else char_of (87 + n))"

text \<open>\<open>hex.DecodeString\<close>: an odd length or a byte outside the alphabet is an error.\<close>

fun hex_decode :: "string \<Rightarrow> string option" where
  "hex_decode [] = Some []"
| "hex_decode [c] = None"
| "hex_decode (a # b # s) = (case hex_val a of None \<Rightarrow> None | Some x \<Rightarrow>
     (case hex_val b of None \<Rightarrow> None | Some y \<Rightarrow>
       (case hex_decode s of None \<Rightarrow> None | Some r \<Rightarrow> Some (char_of (16 * x + y) # r))))"

definition hex_encode :: "string \<Rightarrow> string" where
  "hex_encode s = concat (map (\<lambda>c. [hex_char (code c div 16), hex_char (code c mod 16)]) s)"

text \<open>\<open>strings.ToLower\<close> and \<open>bytes.ToLower\<close> on ASCII bytes.\<close>

definition ascii_lower :: "char \<Rightarrow> char" where
  "ascii_lower c = (if 65 \<le> code c \<and> code c \<le> 90 then char_of (code c + 32) else c)"

lemma hex_val_char [simp]: "0 \<le> n \<Longrightarrow> n < 16 \<Longrightarrow> hex_val (hex_char n) = Some n"
  by (auto simp: hex_val_def hex_char_def is_digit_def)

lemma code_div16 [simp]: "code c div 16 < 16" "0 \<le> code c div 16"
  using code_bounds [of c] by linarith+

lemma hex_decode_encode [simp]: "hex_decode (hex_encode s) = Some s"
proof (induction s)
  case Nil
  then show ?case by (simp add: hex_encode_def)
next
  case (Cons c s)
  with code_div16 [of c] show ?case by (simp add: hex_encode_def)
qed

lemma length_hex_encode [simp]: "length (hex_encode s) = 2 * length s"
  by (induction s) (simp_all add: hex_encode_def)

lemma ascii_lower_hex_char [simp]: "0 \<le> n \<Longrightarrow> n < 16 \<Longrightarrow> ascii_lower (hex_char n) = hex_char n"
  by (auto simp: ascii_lower_def hex_char_def)

lemma ascii_lower_hex_encode [simp]: "map ascii_lower (hex_encode s) = hex_encode s"
proof (induction s)
  case (Cons c s)
  with code_div16 [of c] show ?case by (simp add: hex_encode_def)
qed (simp add: hex_encode_def)

end
