(* ===== verification/Types.thy ===== *)
theory Types
  imports GoText
begin

text \<open>
  The wire types of the protocol: one record per Go struct of \<open>pkg/protocol\<close>, with the fields of the
  source in their order.  A field \<open>F\<close> of a struct is named with the struct's name, or a short form of
  it, in front (\<open>Metric_Direction\<close>, \<open>Run_Outcome\<close>).  A pointer is an \<open>option\<close>, a slice a list, a map an
  association list, and a byte slice a \<open>string\<close>.  Times count nanoseconds from Go's zero time, so the
  zero time is \<open>0\<close>.
\<close>

type_synonym go_time = int

definition APIVersion :: string where
  "APIVersion = ''science-ladder/v1''"

definition ManifestV2 :: string where
  "ManifestV2 = ''science-ladder/v2''"

definition PayloadType :: string where
  "PayloadType = ''application/vnd.science-ladder.v1+json''"

definition ScoutVersion :: string where
  "ScoutVersion = ''1.9.0''"

definition EvaluationVersion :: string where
  "EvaluationVersion = ''science-ladder/evaluation/v1''"

definition FrontierClaimVersion :: string where
  "FrontierClaimVersion = ''science-ladder/frontier-claim/v1''"

definition MaxDocumentBytes :: int where
  "MaxDocumentBytes = 1048576"

record Source =
  Source_PublicationDate :: "string"
  Source_Identifier :: "string"
  Source_URL :: "string"
  Source_Title :: "string"
  Source_Evidence :: "string"
  Source_Location :: "string"
  Source_AccessedAt :: "string"

record Education =
  Education_Frontier :: "string"
  Education_Significance :: "string"

record ExecutorRequirements =
  Executor_OS :: "string"
  Executor_Architecture :: "string"
  Executor_Accelerator :: "string"
  Executor_HardwareClass :: "string"
  Executor_Features :: "string list"

record MeasurementDefinition =
  MeasDef_Name :: "string"
  MeasDef_Type :: "string"
  MeasDef_Unit :: "string"
  MeasDef_Role :: "string"
  MeasDef_Interpretation :: "string"
  MeasDef_Definition :: "string"
  MeasDef_Minimum :: "string"
  MeasDef_Maximum :: "string"

record MetricRationale =
  Rationale_Objective :: "string"
  Rationale_ImprovementMeaning :: "string"
  Rationale_EvidenceURLs :: "string list"
  Rationale_PreservedConditions :: "string list"
  Rationale_BaselineReason :: "string"
  Rationale_MeaningfulDelta :: "string"
  Rationale_ProxyAttacks :: "string list"
  Rationale_PermittedClaim :: "string"
  Rationale_ExcludedClaims :: "string list"

record StageBudget =
  Budget_TimeoutSeconds :: "int"
  Budget_MemoryMB :: "int"
  Budget_MaxOutputBytes :: "int"
  Budget_MaxProcesses :: "int"
  Budget_MaxFileBytes :: "int"

record BuildProduct =
  Product_Path :: "string"
  Product_MaxBytes :: "int"

record CandidateProgram =
  Program_Build :: "string list"
  Program_Run :: "string list"
  Program_BuildBudget :: "StageBudget"
  Program_RunBudget :: "StageBudget"
  Program_MaxRuns :: "int"
  Program_MinRuns :: "int"
  Program_ScratchMB :: "int"
  Program_Products :: "BuildProduct list"

record MeasurementPolicy =
  Policy_Estimator :: "string"
  Policy_Warmups :: "int"
  Policy_Repetitions :: "int"
  Policy_Order :: "string"
  Policy_ConfidencePPM :: "int"
  Policy_MaxRelativeWidth :: "string"
  Policy_MinimumSpeedup :: "string"
  Policy_BaselineDigest :: "string"
  Policy_BaselinePath :: "string"
  Policy_BaselineBuild :: "string list"
  Policy_BaselineRun :: "string list"
  Policy_TimerBoundary :: "string"
  Policy_Population :: "string"

record ProofContract =
  Proof_Format :: "string"
  Proof_StatementPath :: "string"
  Proof_StatementDigest :: "string"
  Proof_CertificatePath :: "string"
  Proof_AllowedAxioms :: "string list"
  Proof_CheckDescription :: "string"

record EvaluationAsset =
  Asset_Domain :: "string"
  Asset_Name :: "string"
  Asset_Digest :: "string"
  Asset_Size :: "int"
  Asset_Visibility :: "string"
  Asset_Purpose :: "string"

record EvaluationContract =
  Evaluation_Version :: "string"
  Evaluation_Mode :: "string"
  Evaluation_ComparisonID :: "string"
  Evaluation_Executor :: "ExecutorRequirements"
  Evaluation_Measurements :: "MeasurementDefinition list"
  Evaluation_Rationale :: "MetricRationale"
  Evaluation_Program :: "CandidateProgram option"
  Evaluation_Measurement :: "MeasurementPolicy option"
  Evaluation_Proof :: "ProofContract option"
  Evaluation_Assets :: "EvaluationAsset list"

record Metric =
  Metric_Name :: "string"
  Metric_Direction :: "string"
  Metric_Unit :: "string"
  Metric_Quantum :: "string"
  Metric_BaselineTicks :: "string"
  Metric_MinimumDeltaTicks :: "string"
  Metric_ToleranceTicks :: "string"
  Metric_DomainMinTicks :: "string"
  Metric_DomainMaxTicks :: "string"

record MeasurementPredicate =
  Predicate_Measurement :: "string"
  Predicate_Operator :: "string"
  Predicate_Value :: "string"

record Milestone =
  Milestone_Requires :: "MeasurementPredicate list"
  Milestone_ID :: "string"
  Milestone_Title :: "string"
  Milestone_ThresholdTicks :: "string"
  Milestone_Rationale :: "string"

record SubmissionContract =
  Submission_Format :: "string"
  Submission_AllowedPaths :: "string list"
  Submission_AllowedExtensions :: "string list"
  Submission_MaxBytes :: "int"
  Submission_MaxFiles :: "int"
  Submission_License :: "string"

record Validator =
  Validator_Profile :: "string"
  Validator_Entrypoint :: "string list"
  Validator_DependencyLock :: "string"
  Validator_RuntimeImageDigest :: "string"

record Suite =
  Suite_Visibility :: "string"
  Suite_Path :: "string"
  Suite_Commitment :: "string"
  Suite_RevealAt :: "go_time option"

record Resources =
  Resources_Class :: "string"
  Resources_VCPU :: "int"
  Resources_MemoryMB :: "int"
  Resources_TimeoutSeconds :: "int"
  Resources_MaxOutputBytes :: "int"

record Fixture =
  Fixture_Name :: "string"
  Fixture_Path :: "string"
  Fixture_ExpectedOutcome :: "string"
  Fixture_ExpectedTicks :: "string"

record Manifest =
  Manifest_Evaluation :: "EvaluationContract option"
  Manifest_VerificationPolicy :: "string"
  Manifest_APIVersion :: "string"
  Manifest_Kind :: "string"
  Manifest_ID :: "string"
  Manifest_CreatedAt :: "go_time"
  Manifest_Producer :: "string"
  Manifest_Slug :: "string"
  Manifest_Title :: "string"
  Manifest_Summary :: "string"
  Manifest_ScientificQuestion :: "string"
  Manifest_Evidence :: "Source list"
  Manifest_Impact :: "string"
  Manifest_Limitations :: "string list"
  Manifest_SafetyClassification :: "string"
  Manifest_EconomicMode :: "string"
  Manifest_Metric :: "Metric"
  Manifest_HardGates :: "string list"
  Manifest_Milestones :: "Milestone list"
  Manifest_Deadline :: "go_time"
  Manifest_Submission :: "SubmissionContract"
  Manifest_Validator :: "Validator"
  Manifest_Suite :: "Suite"
  Manifest_Resources :: "Resources"
  Manifest_Fixtures :: "Fixture list"

record Candidate =
  Candidate_Education :: "Education option"
  Candidate_APIVersion :: "string"
  Candidate_Kind :: "string"
  Candidate_ID :: "string"
  Candidate_CreatedAt :: "go_time"
  Candidate_Producer :: "string"
  Candidate_PromptVersion :: "string"
  Candidate_Model :: "string"
  Candidate_Disposition :: "string"
  Candidate_Sources :: "Source list"
  Candidate_Uncertainties :: "string list"
  Candidate_RejectedAlternatives :: "string list"
  Candidate_RepositoryPlan :: "string list"
  Candidate_Manifest :: "Manifest option"

record Lock =
  Lock_VerificationPolicy :: "string"
  Lock_SuiteDiskDigest :: "string"
  Lock_DeploymentMode :: "string"
  Lock_OfficialAcceptance :: "bool"
  Lock_APIVersion :: "string"
  Lock_Kind :: "string"
  Lock_ID :: "string"
  Lock_CreatedAt :: "go_time"
  Lock_Producer :: "string"
  Lock_ManifestDigest :: "string"
  Lock_SourceSnapshotDigest :: "string"
  Lock_ValidatorImageDigest :: "string"
  Lock_ValidatorDiskDigest :: "string"
  Lock_SuiteDigest :: "string"
  Lock_ExecutionProfileDigest :: "string"
  Lock_ReviewDigests :: "string list"
  Lock_EconomicMode :: "string"
  Lock_Manifest :: "Manifest"

record TimingTrial =
  Trial_BaselineNanos :: "int"
  Trial_CandidateNanos :: "int"
  Trial_BaselineFirst :: "bool"
  Trial_QualityPassed :: "bool"

record TimingSummary =
  Summary_MedianRatio :: "string"
  Summary_LowerRatio :: "string"
  Summary_UpperRatio :: "string"
  Summary_ConfidencePPM :: "int"
  Summary_AcceptedTrials :: "int"
  Summary_Outcome :: "string"
  Summary_PracticalGain :: "bool"

record TimingEvidence =
  Evidence_BaselineDigest :: "string"
  Evidence_Warmups :: "TimingTrial list"
  Evidence_Trials :: "TimingTrial list"
  Evidence_Summary :: "TimingSummary"

record ValidatorResult =
  Result_Timing :: "TimingEvidence option"
  Result_ComparisonID :: "string"
  Result_Measurements :: "(string, string) gomap"
  Result_APIVersion :: "string"
  Result_Kind :: "string"
  Result_Score :: "string"
  Result_Gates :: "(string, bool) gomap"

record ObjectRef =
  Ref_Digest :: "string"
  Ref_Size :: "int"
  Ref_URL :: "string"

record KeyCapsule =
  Capsule_Algorithm :: "string"
  Capsule_EphemeralPublicKey :: "string"
  Capsule_Nonce :: "string"
  Capsule_Ciphertext :: "string"
  Capsule_ContextDigest :: "string"

record HiddenSuiteGrant =
  Grant_Source :: "ObjectRef"
  Grant_Commitment :: "string"
  Grant_KeyCapsule :: "KeyCapsule"

record RunnerJob =
  Job_ParentJobDigest :: "string"
  Job_VerificationPolicy :: "string"
  Job_AdvisorySnapshotDigest :: "string"
  Job_RuntimeInventoryDigest :: "string"
  Job_HiddenSuite :: "HiddenSuiteGrant option"
  Job_AcceptanceReceiptDigest :: "string"
  Job_DeploymentMode :: "string"
  Job_OfficialAcceptance :: "bool"
  Job_APIVersion :: "string"
  Job_Kind :: "string"
  Job_ID :: "string"
  Job_CreatedAt :: "go_time"
  Job_Producer :: "string"
  Job_ExpiresAt :: "go_time"
  Job_Purpose :: "string"
  Job_SubmissionID :: "string"
  Job_ChallengeLockDigest :: "string"
  Job_ArtifactDigest :: "string"
  Job_SuiteDigest :: "string"
  Job_ExecutionProfileDigest :: "string"
  Job_RunnerEpoch :: "string"
  Job_FencingToken :: "int"
  Job_RequiredHostGroup :: "string"
  Job_ExcludedHostIDs :: "string list"
  Job_ValidatorDisk :: "ObjectRef"
  Job_SubmissionDisk :: "ObjectRef"
  Job_SuiteDisk :: "ObjectRef"
  Job_ChallengeDisk :: "ObjectRef"
  Job_Manifest :: "Manifest"
  Job_SourceSnapshot :: "ObjectRef option"

record SuiteKeyMaterial =
  Material_Key :: "string"
  Material_Salt :: "string"
  Material_PlaintextDigest :: "string"
  Material_Commitment :: "string"

record Signature =
  Signature_KeyID :: "string"
  Signature_Sig :: "string"

record Envelope =
  Envelope_PayloadType :: "string"
  Envelope_Payload :: "string"
  Envelope_Signatures :: "Signature list"

record FixtureReport =
  FixtureReport_Stage :: "string"
  FixtureReport_FreshVMRuns :: "int"
  FixtureReport_RunReceipts :: "Envelope list"
  FixtureReport_Name :: "string"
  FixtureReport_ExpectedOutcome :: "string"
  FixtureReport_Outcome :: "string"
  FixtureReport_ScoreTicks :: "string"
  FixtureReport_Passed :: "bool"

record VulnerabilityFinding =
  Finding_Disposition :: "string"
  Finding_Component :: "string"
  Finding_ID :: "string"
  Finding_Severity :: "string"
  Finding_SourceURL :: "string"

record VulnerabilityScan =
  Scan_PolicyVersion :: "string"
  Scan_AdvisorySnapshotDigest :: "string"
  Scan_RuntimeInventoryDigest :: "string"
  Scan_SBOMDigest :: "string"
  Scan_ScannedAt :: "go_time"
  Scan_PackagesChecked :: "int"
  Scan_Status :: "string"
  Scan_Findings :: "VulnerabilityFinding list"

record BuildReport =
  BuildReport_FreshVMRuns :: "int"
  BuildReport_SBOM :: "ObjectRef option"
  BuildReport_VulnerabilityScan :: "VulnerabilityScan option"
  BuildReport_ManifestDigest :: "string"
  BuildReport_SourceSnapshotDigest :: "string"
  BuildReport_ValidatorDiskDigest :: "string"
  BuildReport_RebuiltValidatorDiskDigest :: "string"
  BuildReport_ValidatorImageDigest :: "string"
  BuildReport_SuiteDigest :: "string"
  BuildReport_ExecutionProfileDigest :: "string"
  BuildReport_OfflineRebuild :: "bool"
  BuildReport_Fixtures :: "FixtureReport list"
  BuildReport_HostileCorpusPassed :: "bool"
  BuildReport_ScansPassed :: "bool"
  BuildReport_Passed :: "bool"
  BuildReport_Findings :: "string list"
  BuildReport_ValidatorDisk :: "ObjectRef option"
  BuildReport_ChallengeDisk :: "ObjectRef option"
  BuildReport_SuiteDisk :: "ObjectRef option"
  BuildReport_SubmissionDisk :: "ObjectRef option"

record RunReceipt =
  Run_ValidatorResult :: "ValidatorResult option"
  Run_ParentJobDigest :: "string"
  Run_VerificationPolicy :: "string"
  Run_AcceptanceReceiptDigest :: "string"
  Run_DeploymentMode :: "string"
  Run_OfficialAcceptance :: "bool"
  Run_APIVersion :: "string"
  Run_Kind :: "string"
  Run_ID :: "string"
  Run_CreatedAt :: "go_time"
  Run_Producer :: "string"
  Run_JobID :: "string"
  Run_JobDigest :: "string"
  Run_ChallengeLockDigest :: "string"
  Run_ArtifactDigest :: "string"
  Run_SuiteDigest :: "string"
  Run_ExecutionProfileDigest :: "string"
  Run_RunnerEpoch :: "string"
  Run_FencingToken :: "int"
  Run_HostID :: "string"
  Run_HostGroup :: "string"
  Run_Official :: "bool"
  Run_Outcome :: "string"
  Run_ScoreTicks :: "string"
  Run_Gates :: "(string, bool) gomap"
  Run_DurationMillis :: "int"
  Run_CleanupAttested :: "bool"
  Run_BuildReport :: "BuildReport option"

record ExecutorCapabilities =
  Capabilities_OS :: "string"
  Capabilities_Architecture :: "string"
  Capabilities_Accelerator :: "string"
  Capabilities_HardwareClass :: "string"
  Capabilities_RuntimeImageDigest :: "string"
  Capabilities_Features :: "string list"
  Capabilities_MaxVCPU :: "int"
  Capabilities_MaxMemoryMB :: "int"
  Capabilities_MaxSessionSeconds :: "int"
  Capabilities_MaxJobSeconds :: "int"
  Capabilities_Assets :: "EvaluationAsset list"

record ArtifactEntry =
  Entry_Path :: "string"
  Entry_Type :: "string"
  Entry_Mode :: "string"
  Entry_Size :: "int"
  Entry_Digest :: "string"

record ArtifactTree =
  Tree_Kind :: "string"
  Tree_Version :: "int"
  Tree_Entries :: "ArtifactEntry list"

record LocalQualification =
  Qualification_ChecksPassed :: "bool"
  Qualification_ReportDigest :: "string"
  Qualification_EstimatedScoreTicks :: "string"
  Qualification_Reason :: "string"

record FrontierClaim =
  Claim_APIVersion :: "string"
  Claim_VersionID :: "string"
  Claim_LockDigest :: "string"
  Claim_ArtifactDigest :: "string"
  Claim_Mode :: "string"
  Claim_Result :: "ValidatorResult option"
  Claim_Qualification :: "LocalQualification option"

text \<open>Documents without a fixed structure (\<open>map[string]any\<close> and the values in it).\<close>

datatype json = JNull | JBool bool | JInt int | JStr string | JArr "json list" | JObj "(string \<times> json) list"

record Receipt =
  Receipt_VerificationPolicy :: "string"
  Receipt_VerificationStatus :: "string"
  Receipt_DeploymentMode :: "string"
  Receipt_OfficialAcceptance :: "bool"
  Receipt_APIVersion :: "string"
  Receipt_Kind :: "string"
  Receipt_ID :: "string"
  Receipt_CreatedAt :: "go_time"
  Receipt_Producer :: "string"
  Receipt_SubjectDigest :: "string"
  Receipt_EconomicMode :: "string"
  Receipt_Data :: "(string, json) gomap"

lemma api_versions_differ [simp]: "APIVersion \<noteq> ManifestV2" "ManifestV2 \<noteq> APIVersion"
  by (simp_all add: APIVersion_def ManifestV2_def)

end
