(* ===== verification/Digest.thy ===== *)
theory Digest
  imports Types
begin

text \<open>
  Content digests (\<open>DigestBytes\<close> and \<open>ValidDigest\<close> of \<open>pkg/protocol/canonical.go\<close>, \<open>Hash\<close> and \<open>validDigest\<close>
  of \<open>internal/audit/checkpoint.go\<close>).  SHA-256 is the argument \<open>sha\<close>; where a statement needs more
  than that it is a function, the documented length of its output, 32 bytes, is a named
  hypothesis.
\<close>

definition DigestBytes :: "(string \<Rightarrow> string) \<Rightarrow> string \<Rightarrow> string" where
  "DigestBytes sha data = ''sha256:'' @ hex_encode (sha data)"

definition ValidDigest :: "string \<Rightarrow> bool" where
  "ValidDigest v = (if len v \<noteq> 71 \<or> take 7 v \<noteq> ''sha256:'' then False
     else hex_decode (drop 7 v) \<noteq> None \<and> v = map ascii_lower v)"

definition Genesis :: string where
  "Genesis = ''genesis''"

definition validDigest :: "string \<Rightarrow> bool \<Rightarrow> bool" where
  "validDigest s genesis =
     (if genesis \<and> s = Genesis then True
      else if len s \<noteq> 71 \<or> \<not> prefix ''sha256:'' s then False
      else (case hex_decode (drop 7 s) of None \<Rightarrow> False
            | Some b \<Rightarrow> len b = 32 \<and> map ascii_lower s = s))"

definition sha_ok :: "(string \<Rightarrow> string) \<Rightarrow> bool" where
  "sha_ok sha = (\<forall>x. length (sha x) = 32)"

lemma hex_val_bounds: "hex_val c = Some x \<Longrightarrow> 0 \<le> x \<and> x < 16"
  by (auto simp: hex_val_def is_digit_def split: if_splits)

lemma ascii_lower_fixed: "ascii_lower c = c \<Longrightarrow> \<not> (65 \<le> code c \<and> code c \<le> 90)"
proof
  assume l: "ascii_lower c = c" and r: "65 \<le> code c \<and> code c \<le> 90"
  from r have "code (ascii_lower c) = code c + 32" by (simp add: ascii_lower_def)
  then have "code c = code c + 32" by (simp only: l)
  then show False by simp
qed

lemma hex_char_val: "hex_val c = Some x \<Longrightarrow> ascii_lower c = c \<Longrightarrow> hex_char x = c"
  by (auto simp: hex_val_def hex_char_def is_digit_def dest: ascii_lower_fixed split: if_splits)

lemma hex_decode_length: "hex_decode s = Some b \<Longrightarrow> length s = 2 * length b"
  by (induction s arbitrary: b rule: hex_decode.induct) (auto split: option.splits)

lemma hex_encode_Cons:
  "hex_encode (c # s) = hex_char (code c div 16) # hex_char (code c mod 16) # hex_encode s"
  by (simp add: hex_encode_def)

lemma hex_encode_Nil [simp]: "hex_encode [] = []"
  by (simp add: hex_encode_def)

lemma hex_encode_decode:
  "hex_decode s = Some b \<Longrightarrow> map ascii_lower s = s \<Longrightarrow> hex_encode b = s"
proof (induction s arbitrary: b rule: hex_decode.induct)
  case (3 a c s)
  then obtain x y r where xy: "hex_val a = Some x" "hex_val c = Some y" "hex_decode s = Some r"
    and b: "b = char_of (16 * x + y) # r" by (auto split: option.splits)
  have bd: "0 \<le> x" "x < 16" "0 \<le> y" "y < 16" using hex_val_bounds xy by auto
  then have cd: "code (char_of (16 * x + y)) = 16 * x + y" by (simp only: of_char_of) simp
  have "(16 * x + y) div 16 = x" "(16 * x + y) mod 16 = y" using bd by simp_all
  moreover have "hex_encode r = s" using 3 xy by simp
  ultimately show ?case
    using b xy 3(3) by (simp only: hex_encode_Cons cd) (simp add: hex_char_val)
qed simp_all

lemma ascii_lower_sha_prefix [simp]: "map ascii_lower ''sha256:'' = ''sha256:''"
  by (simp add: ascii_lower_def)

lemma ValidDigest_iff: "ValidDigest v \<longleftrightarrow> (\<exists>b. length b = 32 \<and> v = ''sha256:'' @ hex_encode b)"
proof
  assume v: "ValidDigest v"
  then obtain b where b: "hex_decode (drop 7 v) = Some b" and low: "v = map ascii_lower v"
    and p: "take 7 v = ''sha256:''" and l: "len v = 71"
    by (auto simp: ValidDigest_def split: if_splits)
  have "drop 7 v = map ascii_lower (drop 7 v)" using low by (metis drop_map)
  then have "hex_encode b = drop 7 v" using hex_encode_decode [OF b] by simp
  moreover have "length b = 32" using hex_decode_length [OF b] l by (simp add: len_def)
  ultimately show "\<exists>b. length b = 32 \<and> v = ''sha256:'' @ hex_encode b"
    using p by (metis append_take_drop_id)
next
  assume "\<exists>b. length b = 32 \<and> v = ''sha256:'' @ hex_encode b"
  then obtain b where "length b = 32" "v = ''sha256:'' @ hex_encode b" by blast
  then show "ValidDigest v"
    by (simp add: ValidDigest_def len_def ascii_lower_def)
qed

lemma validDigest_iff: "validDigest s False \<longleftrightarrow> ValidDigest s"
proof -
  have "prefix ''sha256:'' s \<longleftrightarrow> take 7 s = ''sha256:''"
    using prefix_take [of "''sha256:''" s] by (simp add: eval_nat_numeral)
  moreover have "hex_decode (drop 7 s) = Some b \<Longrightarrow> len s = 71 \<Longrightarrow> len b = 32" for b
    using hex_decode_length [of "drop 7 s" b] by (simp add: len_def)
  ultimately show ?thesis by (auto simp: validDigest_def ValidDigest_def split: option.splits)
qed

lemma DigestBytes_valid: "sha_ok sha \<Longrightarrow> ValidDigest (DigestBytes sha x)"
  by (auto simp: ValidDigest_iff DigestBytes_def sha_ok_def)

lemma DigestBytes_inj: "DigestBytes sha x = DigestBytes sha y \<longleftrightarrow> sha x = sha y"
  by (metis DigestBytes_def hex_decode_encode option.inject same_append_eq)

end
