(* ===== verification/GoPath.thy ===== *)
theory GoPath
  imports GoText
begin

text \<open>
  Splitting and joining (\<open>strings.Split\<close>, \<open>strings.TrimSuffix\<close>) and the package \<open>path\<close>: \<open>Clean\<close>, \<open>Ext\<close>
  and \<open>IsAbs\<close>.  The main lemma, \<open>path_clean_fixed\<close>, says what a relative path that \<open>Clean\<close> leaves
  alone looks like.
\<close>

fun split_on :: "char \<Rightarrow> string \<Rightarrow> string list" where
  "split_on c [] = [[]]"
| "split_on c (x # xs) = (if x = c then [] # split_on c xs
     else (case split_on c xs of [] \<Rightarrow> [[x]] | p # ps \<Rightarrow> (x # p) # ps))"

fun join_with :: "char \<Rightarrow> string list \<Rightarrow> string" where
  "join_with c [] = []"
| "join_with c [p] = p"
| "join_with c (p # q # ps) = p @ c # join_with c (q # ps)"

definition trim_suffix :: "string \<Rightarrow> string \<Rightarrow> string" where
  "trim_suffix s suf = (if suffix suf s then take (length s - length suf) s else s)"

text \<open>One element of the scan of \<open>path.Clean\<close>: empty and \<open>.\<close> elements vanish, \<open>..\<close> removes the
  element before it, stays at the front of a relative path and vanishes at a root.\<close>

definition clean_step :: "bool \<Rightarrow> string list \<Rightarrow> string \<Rightarrow> string list" where
  "clean_step rooted out p =
     (if p = [] \<or> p = ''.'' then out
      else if p = ''..'' then
        (if out \<noteq> [] \<and> last out \<noteq> ''..'' then butlast out
         else if rooted then out else out @ [''..''])
      else out @ [p])"

definition path_clean :: "string \<Rightarrow> string" where
  "path_clean s = (if s = [] then ''.'' else
     let rooted = (hd s = CHR ''/'');
         out = foldl (clean_step rooted) [] (split_on CHR ''/'' s);
         body = join_with CHR ''/'' out
     in if rooted then CHR ''/'' # body else if out = [] then ''.'' else body)"

definition path_is_abs :: "string \<Rightarrow> bool" where
  "path_is_abs s = (s \<noteq> [] \<and> hd s = CHR ''/'')"

definition path_ext :: "string \<Rightarrow> string" where
  "path_ext s = (let base = last (split_on CHR ''/'' s) in
     if CHR ''.'' \<in> set base then CHR ''.'' # last (split_on CHR ''.'' base) else [])"

lemma split_on_nonempty [simp]: "split_on c s \<noteq> []"
  by (induction s) (auto split: list.splits)

lemma join_with_Cons: "ps \<noteq> [] \<Longrightarrow> join_with c (p # ps) = p @ c # join_with c ps"
  by (cases ps) simp_all

lemma join_split [simp]: "join_with c (split_on c s) = s"
proof (induction s)
  case (Cons x s)
  show ?case
  proof (cases "x = c")
    case True
    with Cons show ?thesis by (simp add: join_with_Cons)
  next
    case False
    obtain p ps where sp: "split_on c s = p # ps" by (meson list.exhaust split_on_nonempty)
    with False Cons show ?thesis by (cases ps) (simp_all add: join_with_Cons)
  qed
qed simp

lemma split_on_no_sep: "p \<in> set (split_on c s) \<Longrightarrow> c \<notin> set p"
proof (induction s arbitrary: p)
  case (Cons x s)
  then show ?case
    by (cases "split_on c s") (auto split: if_splits)
qed simp

lemma split_on_append:
  "c \<notin> set p \<Longrightarrow> split_on c (p @ c # s) = p # split_on c s"
  by (induction p) auto

lemma split_on_plain: "c \<notin> set p \<Longrightarrow> split_on c p = [p]"
  by (induction p) auto

lemma split_join:
  "ps \<noteq> [] \<Longrightarrow> \<forall>p\<in>set ps. c \<notin> set p \<Longrightarrow> split_on c (join_with c ps) = ps"
  by (induction c ps rule: join_with.induct) (simp_all add: split_on_plain split_on_append)

lemma trim_suffix_append [simp]: "trim_suffix (s @ suf) suf = s"
  by (simp add: trim_suffix_def suffix_def)

text \<open>The elements kept by the scan of a relative path: some \<open>..\<close> and then ordinary names.\<close>

definition plain_name :: "string \<Rightarrow> bool" where
  "plain_name p = (p \<noteq> [] \<and> p \<noteq> ''.'' \<and> p \<noteq> ''..'' \<and> CHR ''/'' \<notin> set p)"

definition clean_shape :: "string list \<Rightarrow> bool" where
  "clean_shape out = (\<exists>n qs. out = replicate n ''..'' @ qs \<and> list_all plain_name qs)"

lemma clean_step_shape:
  assumes "clean_shape out" "CHR ''/'' \<notin> set p"
  shows "clean_shape (clean_step False out p)"
proof -
  obtain n qs where out: "out = replicate n ''..'' @ qs" and qs: "list_all plain_name qs"
    using assms(1) by (auto simp: clean_shape_def)
  consider (skip) "p = [] \<or> p = ''.''" | (up) "p = ''..''" | (name) "plain_name p"
    using assms(2) by (auto simp: plain_name_def)
  then show ?thesis
  proof cases
    case skip
    then show ?thesis using assms(1) by (auto simp: clean_step_def)
  next
    case up
    show ?thesis
    proof (cases "qs = []")
      case True
      then have "out = [] \<or> last out = ''..''" using out by (cases n) simp_all
      then have "clean_step False out p = replicate (Suc n) ''..'' @ []"
        using up out True by (auto simp: clean_step_def replicate_append_same)
      then show ?thesis unfolding clean_shape_def by (metis list.pred_inject(1))
    next
      case False
      then have "plain_name (last qs)" using qs by (simp add: list_all_iff)
      then have "last out \<noteq> ''..''" "out \<noteq> []" using out False by (auto simp: plain_name_def)
      then have "clean_step False out p = replicate n ''..'' @ butlast qs"
        using up out False by (simp add: clean_step_def butlast_append)
      moreover have "list_all plain_name (butlast qs)"
        using qs by (auto simp: list_all_iff dest: in_set_butlastD)
      ultimately show ?thesis unfolding clean_shape_def by blast
    qed
  next
    case name
    then have "clean_step False out p = replicate n ''..'' @ (qs @ [p])"
      using out by (auto simp: clean_step_def plain_name_def)
    moreover have "list_all plain_name (qs @ [p])" using qs name by simp
    ultimately show ?thesis unfolding clean_shape_def by blast
  qed
qed

lemma clean_fold_shape:
  "clean_shape out \<Longrightarrow> \<forall>p\<in>set ps. CHR ''/'' \<notin> set p \<Longrightarrow>
   clean_shape (foldl (clean_step False) out ps)"
  by (induction ps arbitrary: out) (simp_all add: clean_step_shape)

text \<open>A relative path that \<open>Clean\<close> does not change and that neither is \<open>.\<close> nor starts at \<open>..\<close> consists
  of ordinary names only.\<close>

lemma path_clean_fixed:
  assumes stable: "path_clean s = s" and rel: "\<not> prefix ''/'' s"
    and dots: "s \<noteq> ''.''" "s \<noteq> ''..''" "\<not> prefix ''../'' s"
  shows "list_all plain_name (split_on CHR ''/'' s)"
proof -
  have ne: "s \<noteq> []" using stable by (auto simp: path_clean_def)
  then have nr: "hd s \<noteq> CHR ''/''" using rel by (cases s) auto
  define out where "out = foldl (clean_step False) [] (split_on CHR ''/'' s)"
  have "clean_shape []" by (auto simp: clean_shape_def)
  then have "clean_shape out"
    unfolding out_def by (rule clean_fold_shape) (auto dest: split_on_no_sep)
  then obtain n qs where sh: "out = replicate n ''..'' @ qs" "list_all plain_name qs"
    by (auto simp: clean_shape_def)
  have "out \<noteq> []" and js: "join_with CHR ''/'' out = s"
    using stable ne nr dots(1) by (auto simp: path_clean_def Let_def out_def split: if_splits)
  have nosep: "\<forall>p\<in>set out. CHR ''/'' \<notin> set p"
  proof
    fix p assume "p \<in> set out"
    then consider "p = ''..''" | "plain_name p" using sh by (auto simp: list_all_iff)
    then show "CHR ''/'' \<notin> set p" by cases (simp_all add: plain_name_def)
  qed
  have sp: "split_on CHR ''/'' s = out"
    using split_join [OF \<open>out \<noteq> []\<close> nosep] js by simp
  have "n = 0"
  proof (rule ccontr)
    assume "n \<noteq> 0"
    then obtain rest where "out = ''..'' # rest" using sh by (cases n) auto
    then have "s = ''..'' \<or> prefix ''../'' s" using js by (cases rest) auto
    then show False using dots by blast
  qed
  then show ?thesis using sp sh by simp
qed

end
