(* ===== verification/GoUnicode.thy ===== *)
theory GoUnicode
  imports GoText
begin

text \<open>
  The packages \<open>unicode/utf8\<close>, \<open>unicode\<close> and the Unicode-aware functions of \<open>strings\<close> and \<open>bytes\<close> that
  the program calls: decoding, validity, \<open>TrimSpace\<close>, \<open>IsControl\<close>, \<open>ToLower\<close> and the case-insensitive
  comparison with \<open>.git\<close>.  A byte that starts no valid encoding decodes to U+FFFD with width 1, as
  in Go.  The Unicode lower-case table beyond ASCII is the argument \<open>lower\<close> of \<open>to_lower\<close>.
\<close>

definition byte_in :: "int \<Rightarrow> int \<Rightarrow> char \<Rightarrow> bool" where
  "byte_in lo hi c = (lo \<le> code c \<and> code c \<le> hi)"

definition decode2 :: "int \<Rightarrow> string \<Rightarrow> int \<times> nat" where
  "decode2 x s = (case s of
     b # _ \<Rightarrow> if byte_in 128 191 b then (x mod 32 * 64 + code b mod 64, 2) else (65533, 1)
   | _ \<Rightarrow> (65533, 1))"

definition decode3 :: "int \<Rightarrow> string \<Rightarrow> int \<times> nat" where
  "decode3 x s = (case s of
     b # c # _ \<Rightarrow>
       if byte_in (if x = 224 then 160 else 128) (if x = 237 then 159 else 191) b \<and> byte_in 128 191 c
       then (x mod 16 * 4096 + code b mod 64 * 64 + code c mod 64, 3) else (65533, 1)
   | _ \<Rightarrow> (65533, 1))"

definition decode4 :: "int \<Rightarrow> string \<Rightarrow> int \<times> nat" where
  "decode4 x s = (case s of
     b # c # d # _ \<Rightarrow>
       if byte_in (if x = 240 then 144 else 128) (if x = 244 then 143 else 191) b
          \<and> byte_in 128 191 c \<and> byte_in 128 191 d
       then (x mod 8 * 262144 + code b mod 64 * 4096 + code c mod 64 * 64 + code d mod 64, 4)
       else (65533, 1)
   | _ \<Rightarrow> (65533, 1))"

fun decode_rune :: "string \<Rightarrow> int \<times> nat" where
  "decode_rune [] = (65533, 0)"
| "decode_rune (a # s) = (let x = code a in
     if x < 128 then (x, 1)
     else if 194 \<le> x \<and> x \<le> 223 then decode2 x s
     else if 224 \<le> x \<and> x \<le> 239 then decode3 x s
     else if 240 \<le> x \<and> x \<le> 244 then decode4 x s
     else (65533, 1))"

lemma decode_rune_width: "s \<noteq> [] \<Longrightarrow> 1 \<le> snd (decode_rune s)"
  by (cases s) (auto simp: Let_def decode2_def decode3_def decode4_def split: list.splits)

text \<open>Ranging over a string: the runes with their widths.\<close>

function runes :: "string \<Rightarrow> (int \<times> nat) list" where
  "runes s = (if s = [] then [] else decode_rune s # runes (drop (snd (decode_rune s)) s))"
  by pat_completeness auto
termination
proof (relation "measure length")
  fix s :: string
  assume "s \<noteq> []"
  then show "(drop (snd (decode_rune s)) s, s) \<in> measure length"
    using decode_rune_width [of s] by simp
qed simp

declare runes.simps [simp del]

definition utf8_valid :: "string \<Rightarrow> bool" where
  "utf8_valid s = list_all (\<lambda>r. r \<noteq> (65533, 1)) (runes s)"

definition is_space :: "int \<Rightarrow> bool" where
  "is_space r = (9 \<le> r \<and> r \<le> 13 \<or> r \<in> {32, 133, 160, 5760, 8232, 8233, 8239, 8287, 12288}
     \<or> 8192 \<le> r \<and> r \<le> 8202)"

definition is_control :: "int \<Rightarrow> bool" where
  "is_control r = (r < 32 \<or> 127 \<le> r \<and> r < 160)"

text \<open>\<open>utf8.DecodeLastRune\<close>: back up to the last byte that can start a rune, at most four bytes.\<close>

definition rune_start :: "char \<Rightarrow> bool" where
  "rune_start c = (code c div 64 \<noteq> 2)"

definition decode_last :: "string \<Rightarrow> int \<times> nat" where
  "decode_last s = (let n = length s in
     if n = 0 then (65533, 0)
     else if code (s ! (n - 1)) < 128 then (code (s ! (n - 1)), 1)
     else let lim = n - 4;
              start = (case find (\<lambda>i. rune_start (s ! i)) (rev [lim..<n - 1]) of
                         Some i \<Rightarrow> i | None \<Rightarrow> lim - 1);
              rw = decode_rune (drop start s)
          in if start + snd rw = n then rw else (65533, 1))"

function trim_left :: "string \<Rightarrow> string" where
  "trim_left s = (if s = [] then [] else if is_space (fst (decode_rune s))
     then trim_left (drop (snd (decode_rune s)) s) else s)"
  by pat_completeness auto
termination
proof (relation "measure length")
  fix s :: string
  assume "s \<noteq> []"
  then show "(drop (snd (decode_rune s)) s, s) \<in> measure length"
    using decode_rune_width [of s] by simp
qed simp

lemma find_start_less:
  "find p (rev [a..<n - 1]) = Some i \<Longrightarrow> i < n"
  by (auto simp: find_Some_iff rev_nth)

lemma decode_last_width: "s \<noteq> [] \<Longrightarrow> 1 \<le> snd (decode_last s)"
proof -
  assume "s \<noteq> []"
  define start where "start = (case find (\<lambda>i. rune_start (s ! i)) (rev [length s - 4..<length s - 1]) of
    Some i \<Rightarrow> i | None \<Rightarrow> length s - 4 - 1)"
  have "start < length s"
    using \<open>s \<noteq> []\<close> by (auto simp: start_def find_start_less split: option.splits)
  then have "1 \<le> snd (decode_rune (drop start s))" by (intro decode_rune_width) simp
  with \<open>s \<noteq> []\<close> show ?thesis by (simp add: decode_last_def Let_def start_def)
qed

function trim_right :: "string \<Rightarrow> string" where
  "trim_right s = (if s = [] then [] else if is_space (fst (decode_last s))
     then trim_right (take (length s - snd (decode_last s)) s) else s)"
  by pat_completeness auto
termination
proof (relation "measure length")
  fix s :: string
  assume "s \<noteq> []"
  then show "(take (length s - snd (decode_last s)) s, s) \<in> measure length"
    using decode_last_width [of s] by (cases s) auto
qed simp

declare trim_left.simps [simp del]
declare trim_right.simps [simp del]

definition trim_space :: "string \<Rightarrow> string" where
  "trim_space s = trim_right (trim_left s)"

lemma trim_left_suffix: "suffix (trim_left s) s"
proof (induction s rule: trim_left.induct)
  case (1 s)
  then show ?case
    by (subst trim_left.simps) (auto intro: suffix_order.trans suffix_drop)
qed

lemma trim_right_prefix: "prefix (trim_right s) s"
proof (induction s rule: trim_right.induct)
  case (1 s)
  then show ?case
    by (subst trim_right.simps) (auto intro: prefix_order.trans take_is_prefix)
qed

lemma length_trim_space: "length (trim_space s) \<le> length s"
  unfolding trim_space_def
  using prefix_length_le [OF trim_right_prefix [of "trim_left s"]]
    suffix_length_le [OF trim_left_suffix [of s]] by simp

text \<open>\<open>strings.ToLower\<close>.  An ASCII string is mapped byte by byte; any other string rune by rune, with
  the simple lower-case mapping \<open>lower\<close> of Unicode.\<close>

definition encode_rune :: "int \<Rightarrow> string" where
  "encode_rune r = map char_of
     (if r < 128 then [r]
      else if r < 2048 then [192 + r div 64, 128 + r mod 64]
      else if r > 1114111 \<or> 55296 \<le> r \<and> r \<le> 57343 then [239, 191, 189]
      else if r < 65536 then [224 + r div 4096, 128 + r div 64 mod 64, 128 + r mod 64]
      else [240 + r div 262144, 128 + r div 4096 mod 64, 128 + r div 64 mod 64, 128 + r mod 64])"

definition to_lower :: "(int \<Rightarrow> int) \<Rightarrow> string \<Rightarrow> string" where
  "to_lower lower s = (if list_all (\<lambda>c. code c < 128) s then map ascii_lower s
     else concat (map (\<lambda>(r, w). encode_rune
       (if r < 128 then (if 65 \<le> r \<and> r \<le> 90 then r + 32 else r) else lower r)) (runes s)))"

text \<open>\<open>strings.EqualFold(part, ".git")\<close>: none of the letters g, i, t has a simple case folding outside
  ASCII, so the comparison is the ASCII one.\<close>

definition equal_fold_git :: "string \<Rightarrow> bool" where
  "equal_fold_git part = (map ascii_lower part = ''.git'')"

lemma runes_Nil [simp]: "runes [] = []"
  by (simp add: runes.simps)

lemma runes_ascii:
  "list_all (\<lambda>c. code c < 128) s \<Longrightarrow> runes s = map (\<lambda>c. (code c, 1)) s"
proof (induction s)
  case (Cons a s)
  then show ?case by (simp add: runes.simps [of "a # s"])
qed simp

lemma utf8_valid_ascii: "list_all (\<lambda>c. code c < 128) s \<Longrightarrow> utf8_valid s"
  by (auto simp: utf8_valid_def runes_ascii list_all_iff)

lemma runes_decode: "s \<noteq> [] \<Longrightarrow> runes s = decode_rune s # runes (drop (snd (decode_rune s)) s)"
  by (simp add: runes.simps [of s])

text \<open>An ASCII byte of a string is one of its runes.\<close>

lemma decode2_keeps:
  "c \<in> set t \<Longrightarrow> code c < 128 \<Longrightarrow> c \<in> set (drop (snd (decode2 x t)) (a # t))"
  by (cases t) (auto simp: decode2_def byte_in_def)

lemma decode3_keeps:
  "c \<in> set t \<Longrightarrow> code c < 128 \<Longrightarrow> c \<in> set (drop (snd (decode3 x t)) (a # t))"
  by (auto simp: decode3_def byte_in_def split: list.splits if_splits)

lemma decode4_keeps:
  "c \<in> set t \<Longrightarrow> code c < 128 \<Longrightarrow> c \<in> set (drop (snd (decode4 x t)) (a # t))"
  by (auto simp: decode4_def byte_in_def split: list.splits if_splits)

lemma decode_rune_ascii_step:
  assumes "c \<in> set s" "code c < 128" "s \<noteq> []"
  shows "decode_rune s = (code c, 1) \<or> c \<in> set (drop (snd (decode_rune s)) s)"
proof -
  obtain a t where s: "s = a # t" using assms(3) by (cases s) auto
  show ?thesis
  proof (cases "code a < 128")
    case True
    then show ?thesis using assms s by auto
  next
    case False
    then have "c \<noteq> a" using assms(2) by auto
    with assms(1) s have "c \<in> set t" by simp
    then show ?thesis using assms(2) s False
      using decode2_keeps [of c t "code a" a] decode3_keeps [of c t "code a" a]
        decode4_keeps [of c t "code a" a] by (simp add: Let_def)
  qed
qed

lemma ascii_byte_rune: "c \<in> set s \<Longrightarrow> code c < 128 \<Longrightarrow> (code c, 1) \<in> set (runes s)"
proof (induction s rule: runes.induct)
  case (1 s)
  then have "s \<noteq> []" by auto
  with 1 show ?case using decode_rune_ascii_step [of c s] by (auto simp: runes_decode)
qed

end
