(* ===== verification/Paths.thy ===== *)
theory Paths
  imports Digest GoPath GoUnicode
begin

text \<open>
  Names and paths: the identifier and slug patterns of \<open>validate.go\<close>, \<open>boundedText\<close> of
  \<open>evaluation.go\<close>, and \<open>ValidatePath\<close> of \<open>artifacts.go\<close>, through which every path of a manifest, an
  artifact or an archive passes.  Unicode normalisation (\<open>golang.org/x/text/unicode/norm\<close>) is the
  argument \<open>nfc\<close>, the test whether a string is in normal form C.
\<close>

definition alnum :: "char \<Rightarrow> bool" where
  "alnum c = (is_digit c \<or> 97 \<le> code c \<and> code c \<le> 122 \<or> 65 \<le> code c \<and> code c \<le> 90)"

text \<open>\<open>^[a-zA-Z0-9][a-zA-Z0-9._-]{0,127}$\<close>\<close>

definition identifierPattern :: "string \<Rightarrow> bool" where
  "identifierPattern s = (case s of [] \<Rightarrow> False | c # cs \<Rightarrow>
     alnum c \<and> len cs \<le> 127 \<and>
     list_all (\<lambda>x. alnum x \<or> x = CHR ''.'' \<or> x = CHR ''_'' \<or> x = CHR ''-'') cs)"

text \<open>\<open>^[a-z0-9]+(?:-[a-z0-9]+)*$\<close>: the parts between the dashes are nonempty.\<close>

definition slugPattern :: "string \<Rightarrow> bool" where
  "slugPattern s = list_all (\<lambda>p. p \<noteq> [] \<and>
     list_all (\<lambda>c. is_digit c \<or> 97 \<le> code c \<and> code c \<le> 122) p) (split_on CHR ''-'' s)"

definition boundedText :: "string \<Rightarrow> bool" where
  "boundedText s = (len (trim_space s) \<ge> 12 \<and> len s \<le> 8192)"

definition ValidatePath :: "(string \<Rightarrow> bool) \<Rightarrow> string \<Rightarrow> unit res" where
  "ValidatePath nfc v =
     (if v = [] \<or> len v > 240 \<or> \<not> utf8_valid v \<or> \<not> nfc v \<or> CHR 0x5C \<in> set v \<or> prefix ''/'' v
         \<or> suffix ''/'' v \<or> path_clean v \<noteq> v \<or> v = ''.'' \<or> v = ''..'' \<or> prefix ''../'' v
      then Inl (Errf ''unsafe artifact path %q'' [v])
      else res_bind
        (res_each (\<lambda>(r, w). fail_if (is_control r \<or> r = 58 \<or> r = 65533) ''unsafe path character'' (Inr ()))
          (runes v)) (\<lambda>_.
        res_each (\<lambda>part. fail_if (equal_fold_git part \<or> suffix ''.'' part \<or> suffix '' '' part)
            ''reserved path component'' (Inr ())) (split_on CHR ''/'' v)))"

text \<open>What a safe path is, independent of how the code tests it: a short relative path whose parts
  are ordinary names, none of them a Git directory, without bytes that some file system or shell
  treats specially.\<close>

definition safe_part :: "string \<Rightarrow> bool" where
  "safe_part p = (p \<noteq> [] \<and> p \<noteq> ''.'' \<and> p \<noteq> ''..'' \<and> map ascii_lower p \<noteq> ''.git'' \<and>
     last p \<noteq> CHR ''.'' \<and> last p \<noteq> CHR '' '')"

definition safe_byte :: "char \<Rightarrow> bool" where
  "safe_byte c = (code c \<ge> 32 \<and> code c \<noteq> 127 \<and> c \<noteq> CHR 0x5C \<and> c \<noteq> CHR '':'')"

definition safe_path :: "string \<Rightarrow> bool" where
  "safe_path v = (v \<noteq> [] \<and> len v \<le> 240 \<and> hd v \<noteq> CHR ''/'' \<and> list_all safe_byte v \<and>
     list_all safe_part (split_on CHR ''/'' v))"

lemma ValidatePath_no_panic [panic_intros]: "no_panic (ValidatePath nfc v)"
  by (auto simp: ValidatePath_def intro!: panic_intros)

lemma ValidatePath_Inr_iff:
  "ValidatePath nfc v = Inr () \<longleftrightarrow>
     v \<noteq> [] \<and> len v \<le> 240 \<and> utf8_valid v \<and> nfc v \<and> CHR 0x5C \<notin> set v \<and> \<not> prefix ''/'' v
     \<and> \<not> suffix ''/'' v \<and> path_clean v = v \<and> v \<noteq> ''.'' \<and> v \<noteq> ''..'' \<and> \<not> prefix ''../'' v \<and>
     (\<forall>(r, w)\<in>set (runes v). \<not> is_control r \<and> r \<noteq> 58 \<and> r \<noteq> 65533) \<and>
     (\<forall>p\<in>set (split_on CHR ''/'' v). \<not> equal_fold_git p \<and> \<not> suffix ''.'' p \<and> \<not> suffix '' '' p)"
  by (auto simp: ValidatePath_def res_simps not_less)

lemma suffix_single: "suffix [c] p \<longleftrightarrow> p \<noteq> [] \<and> last p = c"
  by (auto simp: suffix_def) (metis append_butlast_last_id)

lemma accepted_path_safe:
  assumes "ValidatePath nfc v = Inr ()"
  shows "safe_path v"
proof -
  note a = assms [unfolded ValidatePath_Inr_iff]
  have plain: "list_all plain_name (split_on CHR ''/'' v)"
    using a by (intro path_clean_fixed) auto
  have parts: "safe_part p" if "p \<in> set (split_on CHR ''/'' v)" for p
    using that plain a
    by (auto simp: safe_part_def plain_name_def list_all_iff equal_fold_git_def suffix_single)
  have bytes: "safe_byte c" if "c \<in> set v" for c
  proof (cases "code c < 128")
    case True
    then have "(code c, 1) \<in> set (runes v)" using that by (rule ascii_byte_rune [rotated])
    then have "\<not> is_control (code c)" "code c \<noteq> 58" using a by auto
    moreover have "c \<noteq> CHR 0x5C" using that a by blast
    moreover have "c \<noteq> CHR '':''" using \<open>code c \<noteq> 58\<close> by auto
    ultimately show ?thesis by (auto simp: safe_byte_def is_control_def)
  qed (auto simp: safe_byte_def)
  have "hd v \<noteq> CHR ''/''" using a by (cases v) auto
  then show ?thesis using a parts bytes by (simp add: safe_path_def list_all_iff)
qed

text \<open>C17: an accepted path is safe.  It is relative, cannot climb out of its directory, names no Git
  directory, and has no control byte, backslash or colon.\<close>

theorem ValidatePath_safe:
  assumes "ValidatePath nfc v = Inr ()"
  shows "safe_path v"
  using assms by (rule accepted_path_safe)

theorem ValidatePath_safe_witness:
  "ValidatePath (\<lambda>_. True) ''data/x.csv'' = Inr () \<and> safe_path ''data/x.csv''"
proof -
  have v: "ValidatePath (\<lambda>_. True) ''data/x.csv'' = Inr ()" by code_simp
  show ?thesis using v ValidatePath_safe [OF v] by simp
qed

end
