(* ===== verification/Signatures.thy ===== *)
theory Signatures
  imports Paths
begin

text \<open>
  Signed envelopes (\<open>pkg/protocol/signatures.go\<close>): the DSSE pre-authentication encoding, signing and
  verification, with the strict base64 codec of the standard library.

  The external code is the record \<open>crypto_env\<close>: SHA-256, \<open>CanonicalJSON\<close> on bytes (the third-party
  RFC 8785 transform behind the checks of \<open>Canonical\<close>), whether a key is a P-256 key, the ECDSA
  verification of an ASN.1 signature over a hash, the DER encoding of a key, the PEM decoder (block
  type, bytes and rest of the input) and the parser of DER public keys.  Keys have an arbitrary type.
\<close>

record 'k crypto_env =
  Sha :: "string \<Rightarrow> string"
  CanonJSON :: "string \<Rightarrow> string res"
  IsP256 :: "'k \<Rightarrow> bool"
  VerifyASN1 :: "'k \<Rightarrow> string \<Rightarrow> string \<Rightarrow> bool"
  MarshalPKIX :: "'k \<Rightarrow> string res"
  PemDecode :: "string \<Rightarrow> (string \<times> string \<times> string) option"
  ParsePKIX :: "string \<Rightarrow> 'k res"

section \<open>Strict base64\<close>

definition b64_char :: "int \<Rightarrow> char" where
  "b64_char v = (if v < 26 then char_of (65 + v) else if v < 52 then char_of (97 + (v - 26))
     else if v < 62 then char_of (48 + (v - 52)) else if v = 62 then CHR ''+'' else CHR ''/'')"

definition b64_val :: "char \<Rightarrow> int option" where
  "b64_val c = (let x = code c in
     if 65 \<le> x \<and> x \<le> 90 then Some (x - 65) else if 97 \<le> x \<and> x \<le> 122 then Some (x - 97 + 26)
     else if 48 \<le> x \<and> x \<le> 57 then Some (x - 48 + 52) else if x = 43 then Some 62 else if x = 47 then Some 63 else None)"

definition byte :: "int \<Rightarrow> char" where
  "byte v = char_of v"

fun b64_encode :: "string \<Rightarrow> string" where
  "b64_encode [] = []"
| "b64_encode [a] = [b64_char (code a div 4), b64_char ((code a mod 4) * 16), CHR ''='', CHR ''='']"
| "b64_encode [a, b] = [b64_char (code a div 4), b64_char ((code a mod 4) * 16 + code b div 16),
     b64_char ((code b mod 16) * 4), CHR ''='']"
| "b64_encode (a # b # c # rest) = b64_char (code a div 4) # b64_char ((code a mod 4) * 16 + code b div 16)
     # b64_char ((code b mod 16) * 4 + code c div 64) # b64_char (code c mod 64) # b64_encode rest"

text \<open>Decoding without line breaks; strict mode asks for zero trailing bits.\<close>

fun b64_quanta :: "string \<Rightarrow> string option" where
  "b64_quanta [] = Some []"
| "b64_quanta (a # b # c # d # rest) =
     (case (b64_val a, b64_val b) of
        (Some x, Some y) \<Rightarrow>
          if c = CHR ''='' then
            if d = CHR ''='' \<and> rest = [] \<and> y mod 16 = 0 then Some [byte (x * 4 + y div 16)] else None
          else (case b64_val c of None \<Rightarrow> None | Some z \<Rightarrow>
            if d = CHR ''='' then
              if rest = [] \<and> z mod 4 = 0 then Some [byte (x * 4 + y div 16), byte ((y mod 16) * 16 + z div 4)] else None
            else (case (b64_val d, b64_quanta rest) of
                (Some w, Some out) \<Rightarrow> Some (byte (x * 4 + y div 16) # byte ((y mod 16) * 16 + z div 4)
                   # byte ((z mod 4) * 64 + w) # out)
              | _ \<Rightarrow> None))
      | _ \<Rightarrow> None)"
| "b64_quanta _ = None"

definition b64_decode :: "string \<Rightarrow> string option" where
  "b64_decode s = b64_quanta (filter (\<lambda>c. c \<noteq> CHR 0x0A \<and> c \<noteq> CHR 0x0D) s)"

section \<open>Envelopes\<close>

definition pae :: "string \<Rightarrow> string \<Rightarrow> string" where
  "pae payloadType payload = ''DSSEv1 '' @ show_int (len payloadType) @ CHR '' '' # payloadType @ CHR '' ''
     # show_int (len payload) @ CHR '' '' # payload"

text \<open>\<open>sign\<close> is the signer: the private key's signature of a hash.\<close>

definition Sign :: "'k crypto_env \<Rightarrow> string \<Rightarrow> 'k \<Rightarrow> (string \<Rightarrow> string res) \<Rightarrow> string res \<Rightarrow> Envelope res" where
  "Sign env keyID key sign marshalled =
     fail_if (\<not> identifierPattern keyID) ''invalid signing key or identifier''
     (fail_if (\<not> IsP256 env key) ''P-256 signer required''
     (res_bind marshalled (\<lambda>raw.
      res_bind (CanonJSON env raw) (\<lambda>data.
      res_bind (sign (Sha env (pae PayloadType data))) (\<lambda>sig.
      Inr \<lparr>Envelope_PayloadType = PayloadType, Envelope_Payload = b64_encode data,
           Envelope_Signatures = [\<lparr>Signature_KeyID = keyID, Signature_Sig = b64_encode sig\<rparr>]\<rparr>)))))"

definition signature_valid :: "'k crypto_env \<Rightarrow> string \<Rightarrow> string \<Rightarrow> 'k \<Rightarrow> string \<Rightarrow> bool" where
  "signature_valid env payloadType payload key sig64 =
     (case b64_decode sig64 of None \<Rightarrow> False
      | Some sig \<Rightarrow> IsP256 env key \<and> VerifyASN1 env key (Sha env (pae payloadType payload)) sig)"

definition verify_step ::
    "'k crypto_env \<Rightarrow> (string, 'k) gomap \<Rightarrow> string \<Rightarrow> string \<Rightarrow> string set \<times> bool \<Rightarrow> Signature \<Rightarrow> (string set \<times> bool) res" where
  "verify_step env keys payloadType payload = (\<lambda>(seen, valid) signature.
     fail_if (Signature_KeyID signature \<in> seen) ''duplicate signature key''
     (Inr (insert (Signature_KeyID signature) seen,
       valid \<or> (case lookup keys (Signature_KeyID signature) of None \<Rightarrow> False
         | Some key \<Rightarrow> signature_valid env payloadType payload key (Signature_Sig signature)))))"

definition Verify :: "'k crypto_env \<Rightarrow> Envelope \<Rightarrow> (string, 'k) gomap \<Rightarrow> string res" where
  "Verify env envelope keys =
     fail_if (Envelope_PayloadType envelope \<noteq> PayloadType \<or> len (Envelope_Payload envelope) > 2 * MaxDocumentBytes
         \<or> len (Envelope_Signatures envelope) < 1 \<or> len (Envelope_Signatures envelope) > 8) ''invalid signed envelope''
     (case b64_decode (Envelope_Payload envelope) of
        None \<Rightarrow> Inl (Err ''invalid envelope payload encoding'')
      | Some payload \<Rightarrow>
        res_bind (or_else (CanonJSON env payload) (Err ''receipt payload must be canonical JSON'')) (\<lambda>canonical.
        fail_if (payload \<noteq> canonical) ''receipt payload must be canonical JSON''
        (res_bind (res_fold (verify_step env keys (Envelope_PayloadType envelope) payload) ({}, False)
            (Envelope_Signatures envelope)) (\<lambda>(_, valid).
         fail_if (\<not> valid) ''no valid trusted receipt signature'' (Inr payload)))))"

section \<open>Base64 round trip\<close>

lemma code_char_of: "0 \<le> v \<Longrightarrow> v < 256 \<Longrightarrow> code (char_of v) = v"
  by simp

lemma byte_code [simp]: "byte (code c) = c"
  by (simp add: byte_def)

lemma b64_val_char [simp]: "0 \<le> v \<Longrightarrow> v < 64 \<Longrightarrow> b64_val (b64_char v) = Some v"
  unfolding b64_val_def b64_char_def Let_def
  by (cases "v < 26"; cases "v < 52"; cases "v < 62"; cases "v = 62") (simp_all add: code_char_of)

lemma b64_char_plain [simp]:
  assumes "0 \<le> v" "v < 64"
  shows "b64_char v \<noteq> CHR ''=''" "b64_char v \<noteq> CHR 0x0A" "b64_char v \<noteq> CHR 0x0D"
proof -
  have "b64_val (b64_char v) \<noteq> None" using b64_val_char [OF assms] by simp
  then show "b64_char v \<noteq> CHR ''=''" "b64_char v \<noteq> CHR 0x0A" "b64_char v \<noteq> CHR 0x0D"
    by (auto simp: b64_val_def)
qed

lemma code_parts [simp]:
  "0 \<le> code c div 4" "code c div 4 < 64" "0 \<le> code c div 16" "code c div 16 < 16" "0 \<le> code c div 64" "code c div 64 < 4"
  using code_bounds [of c] by linarith+

lemma b64_index:
  assumes "0 \<le> x" "x < m" "0 \<le> y" "y < n" "m * n \<le> (64 :: int)"
  shows "0 \<le> x * n + y" "x * n + y < 64"
proof -
  show "0 \<le> x * n + y" using assms by simp
  have "x * n \<le> (m - 1) * n" using assms by (intro mult_right_mono) auto
  then show "x * n + y < 64" using assms by (simp add: algebra_simps)
qed

lemma b64_indices [simp]:
  "0 \<le> (code a mod 4) * 16" "(code a mod 4) * 16 < 64" "0 \<le> (code b mod 16) * 4" "(code b mod 16) * 4 < 64"
  "0 \<le> (code a mod 4) * 16 + code b div 16" "(code a mod 4) * 16 + code b div 16 < 64"
  "0 \<le> (code b mod 16) * 4 + code c div 64" "(code b mod 16) * 4 + code c div 64 < 64"
  "0 \<le> code c mod 64" "code c mod 64 < 64"
  using b64_index [of "code a mod 4" 4 "code b div 16" 16] b64_index [of "code b mod 16" 16 "code c div 64" 4]
    b64_index [of "code a mod 4" 4 0 16] b64_index [of "code b mod 16" 16 0 4]
  by simp_all

lemma b64_join:
  "code a div 4 * 4 + ((code a mod 4) * 16 + code b div 16) div 16 = code a"
  "code a div 4 * 4 + ((code a mod 4) * 16) div 16 = code a"
  "(((code a mod 4) * 16 + code b div 16) mod 16) * 16 + ((code b mod 16) * 4 + code c div 64) div 4 = code b"
  "(((code a mod 4) * 16 + code b div 16) mod 16) * 16 + ((code b mod 16) * 4) div 4 = code b"
  "(((code b mod 16) * 4 + code c div 64) mod 4) * 64 + code c mod 64 = code c"
  using code_parts [of a] code_parts [of b] code_parts [of c] by simp_all

lemma b64_quanta_encode: "b64_quanta (b64_encode s) = Some s"
proof (induction s rule: b64_encode.induct)
  case (2 a)
  show ?case by (simp add: b64_join(2))
next
  case (3 a b)
  show ?case by (simp add: b64_join(1,4))
next
  case (4 a b c rest)
  then show ?case by (simp add: b64_join(1,3,5))
qed simp

lemma b64_encode_plain: "filter (\<lambda>c. c \<noteq> CHR 0x0A \<and> c \<noteq> CHR 0x0D) (b64_encode s) = b64_encode s"
  by (induction s rule: b64_encode.induct) simp_all

lemma b64_decode_encode [simp]: "b64_decode (b64_encode s) = Some s"
  by (simp add: b64_decode_def b64_encode_plain b64_quanta_encode)

lemma len_b64_encode: "3 * len (b64_encode s) \<le> 4 * len s + 8"
  by (induction s rule: b64_encode.induct) simp_all

section \<open>The encoding is unambiguous\<close>

lemma space_show_int: "CHR '' '' \<notin> set (show_int (len xs))"
proof -
  have "all_digits (show_nat (len xs))" by simp
  moreover have "\<not> len xs < 0" by (simp add: not_less)
  then have "show_int (len xs) = show_nat (len xs)" by (simp add: show_int_def)
  ultimately show ?thesis by (auto simp: all_digits_def list_all_iff is_digit_def)
qed

lemma append_sep_eq:
  assumes "c \<notin> set a" "c \<notin> set b" "a @ c # x = b @ c # y"
  shows "a = b \<and> x = y"
  using assms by (induction a arbitrary: b) (auto simp: Cons_eq_append_conv append_eq_Cons_conv)

lemma len_append_eq: "len a = len b \<Longrightarrow> a @ x = b @ y \<Longrightarrow> a = b \<and> x = y"
  by (simp add: len_def)

lemma pae_unambiguous: "pae t p = pae t' p' \<Longrightarrow> t = t' \<and> p = p'"
proof -
  assume "pae t p = pae t' p'"
  then have e: "show_int (len t) @ CHR '' '' # (t @ CHR '' '' # show_int (len p) @ CHR '' '' # p)
      = show_int (len t') @ CHR '' '' # (t' @ CHR '' '' # show_int (len p') @ CHR '' '' # p')" by (simp add: pae_def)
  have "show_int (len t) = show_int (len t') \<and> t @ CHR '' '' # show_int (len p) @ CHR '' '' # p
      = t' @ CHR '' '' # show_int (len p') @ CHR '' '' # p'"
    by (rule append_sep_eq [OF space_show_int space_show_int e])
  then have "t = t'" "CHR '' '' # show_int (len p) @ CHR '' '' # p = CHR '' '' # show_int (len p') @ CHR '' '' # p'"
    using len_append_eq [of t t'] unfolding show_int_inj by blast+
  then have "show_int (len p) @ CHR '' '' # p = show_int (len p') @ CHR '' '' # p'" by simp
  then have "p = p'" using append_sep_eq [OF space_show_int space_show_int] by blast
  with \<open>t = t'\<close> show ?thesis by simp
qed

section \<open>Verification\<close>

lemma verify_fold:
  assumes "res_fold (verify_step env keys pt payload) (S, v) sigs = Inr (S', v')"
  shows "v' \<longleftrightarrow> v \<or> (\<exists>sig\<in>set sigs. \<exists>key. lookup keys (Signature_KeyID sig) = Some key \<and>
      signature_valid env pt payload key (Signature_Sig sig))"
    "distinct (map Signature_KeyID sigs)" "Signature_KeyID ` set sigs \<inter> S = {}"
proof -
  have "(v' \<longleftrightarrow> v \<or> (\<exists>sig\<in>set sigs. \<exists>key. lookup keys (Signature_KeyID sig) = Some key \<and>
      signature_valid env pt payload key (Signature_Sig sig))) \<and> distinct (map Signature_KeyID sigs) \<and>
      Signature_KeyID ` set sigs \<inter> S = {}"
    using assms
  proof (induction sigs arbitrary: S v)
    case (Cons sig sigs)
    let ?v = "case lookup keys (Signature_KeyID sig) of None \<Rightarrow> False
         | Some key \<Rightarrow> signature_valid env pt payload key (Signature_Sig sig)"
    have n: "Signature_KeyID sig \<notin> S"
      and f: "res_fold (verify_step env keys pt payload) (insert (Signature_KeyID sig) S, v \<or> ?v) sigs = Inr (S', v')"
      using Cons.prems by (auto simp: verify_step_def res_simps)
    have "?v \<longleftrightarrow> (\<exists>key. lookup keys (Signature_KeyID sig) = Some key \<and> signature_valid env pt payload key (Signature_Sig sig))"
      by (cases "lookup keys (Signature_KeyID sig)") auto
    then show ?case using Cons.IH [OF f] n by auto
  qed simp
  then show "v' \<longleftrightarrow> v \<or> (\<exists>sig\<in>set sigs. \<exists>key. lookup keys (Signature_KeyID sig) = Some key \<and>
      signature_valid env pt payload key (Signature_Sig sig))"
    "distinct (map Signature_KeyID sigs)" "Signature_KeyID ` set sigs \<inter> S = {}" by blast+
qed

lemma Verify_Inr:
  assumes "Verify env envelope keys = Inr payload"
  shows "b64_decode (Envelope_Payload envelope) = Some payload" "CanonJSON env payload = Inr payload"
    "Envelope_PayloadType envelope = PayloadType" "distinct (map Signature_KeyID (Envelope_Signatures envelope))"
    "\<exists>sig\<in>set (Envelope_Signatures envelope). \<exists>key. lookup keys (Signature_KeyID sig) = Some key \<and>
      signature_valid env PayloadType payload key (Signature_Sig sig)"
proof -
  obtain S where p: "b64_decode (Envelope_Payload envelope) = Some payload" "CanonJSON env payload = Inr payload"
    "Envelope_PayloadType envelope = PayloadType"
    and f: "res_fold (verify_step env keys PayloadType payload) ({}, False) (Envelope_Signatures envelope) = Inr (S, True)"
    using assms by (auto simp: Verify_def res_simps split: option.splits)
  show "b64_decode (Envelope_Payload envelope) = Some payload" "CanonJSON env payload = Inr payload"
    "Envelope_PayloadType envelope = PayloadType" using p by simp_all
  show "distinct (map Signature_KeyID (Envelope_Signatures envelope))"
    "\<exists>sig\<in>set (Envelope_Signatures envelope). \<exists>key. lookup keys (Signature_KeyID sig) = Some key \<and>
      signature_valid env PayloadType payload key (Signature_Sig sig)" using verify_fold [OF f] by auto
qed

section \<open>Properties\<close>

text \<open>The pre-authentication encoding binds type and payload: different pairs never have the same
  encoding, so a signature over one document cannot be presented for another or under another type.\<close>

theorem pae_injective: "pae t p = pae t' p' \<longleftrightarrow> t = t' \<and> p = p'"
  using pae_unambiguous by blast

text \<open>A verified envelope carries a canonical payload, no key twice, and at least one signature over
  the encoding of exactly that payload by a trusted P-256 key.\<close>

theorem Verify_sound:
  assumes "Verify env envelope keys = Inr payload"
  shows "b64_decode (Envelope_Payload envelope) = Some payload \<and> CanonJSON env payload = Inr payload \<and>
    distinct (map Signature_KeyID (Envelope_Signatures envelope)) \<and>
    (\<exists>sig\<in>set (Envelope_Signatures envelope). \<exists>key bytes. lookup keys (Signature_KeyID sig) = Some key \<and>
      IsP256 env key \<and> b64_decode (Signature_Sig sig) = Some bytes \<and>
      VerifyASN1 env key (Sha env (pae PayloadType payload)) bytes)"
  using Verify_Inr [OF assms] by (fastforce simp: signature_valid_def split: option.splits)

definition demo_crypto :: "string crypto_env" where
  "demo_crypto = \<lparr>Sha = (\<lambda>x. x), CanonJSON = (\<lambda>x. Inr x), IsP256 = (\<lambda>_. True),
     VerifyASN1 = (\<lambda>key h sig. sig = key @ h), MarshalPKIX = (\<lambda>k. Inr k), PemDecode = (\<lambda>text. Some (''PUBLIC KEY'', text, [])),
     ParsePKIX = (\<lambda>k. Inr k)\<rparr>"

text \<open>C30: what \<open>Sign\<close> produces verifies under the signer's key, and gives back the canonical bytes.  The
  hypotheses are those of the external code: the signature scheme accepts its own signatures, and the
  canonicaliser leaves canonical documents, which are bounded, unchanged.\<close>

theorem Sign_Verify:
  assumes "Sign env keyID key sign (Inr raw) = Inr envelope" "CanonJSON env raw = Inr data"
    and "\<And>h sig. sign h = Inr sig \<Longrightarrow> VerifyASN1 env key h sig"
    and "CanonJSON env data = Inr data" "len data \<le> MaxDocumentBytes"
  shows "Verify env envelope [(keyID, key)] = Inr data"
proof -
  obtain sig where s: "sign (Sha env (pae PayloadType data)) = Inr sig" "IsP256 env key"
    "envelope = \<lparr>Envelope_PayloadType = PayloadType, Envelope_Payload = b64_encode data,
       Envelope_Signatures = [\<lparr>Signature_KeyID = keyID, Signature_Sig = b64_encode sig\<rparr>]\<rparr>"
    using assms(1,2) by (auto simp: Sign_def res_simps)
  have "signature_valid env PayloadType data key (b64_encode sig)"
    using assms(3) s by (simp add: signature_valid_def)
  moreover have "\<not> 2 * MaxDocumentBytes < len (b64_encode data)"
    using len_b64_encode [of data] assms(5) by (simp add: MaxDocumentBytes_def)
  ultimately show ?thesis by (simp add: Verify_def s(3) assms(4) verify_step_def)
qed

theorem Sign_Verify_witness:
  "\<exists>envelope. Sign demo_crypto ''k1'' ''key'' (\<lambda>h. Inr (''key'' @ h)) (Inr ''{}'') = Inr envelope \<and>
     Verify demo_crypto envelope [(''k1'', ''key'')] = Inr ''{}''"
proof -
  have "is_ok (Sign demo_crypto ''k1'' ''key'' (\<lambda>h. Inr (''key'' @ h)) (Inr ''{}''))" by code_simp
  then obtain envelope where e: "Sign demo_crypto ''k1'' ''key'' (\<lambda>h. Inr (''key'' @ h)) (Inr ''{}'') = Inr envelope"
    by (auto simp: is_ok_iff)
  have "Verify demo_crypto envelope [(''k1'', ''key'')] = Inr ''{}''"
    by (rule Sign_Verify [OF e]) (auto simp: demo_crypto_def MaxDocumentBytes_def)
  with e show ?thesis by blast
qed

theorem Verify_sound_witness:
  "\<exists>envelope. Verify demo_crypto envelope [(''k1'', ''key'')] = Inr ''{}'' \<and> b64_decode (Envelope_Payload envelope) = Some ''{}''"
proof -
  let ?e = "\<lparr>Envelope_PayloadType = PayloadType, Envelope_Payload = ''e30='',
    Envelope_Signatures = [\<lparr>Signature_KeyID = ''k1'', Signature_Sig = b64_encode (''key'' @ pae PayloadType ''{}'')\<rparr>]\<rparr>"
  have "case Verify demo_crypto ?e [(''k1'', ''key'')] of Inl _ \<Rightarrow> False | Inr p \<Rightarrow> p = ''{}''" by code_simp
  then have "Verify demo_crypto ?e [(''k1'', ''key'')] = Inr ''{}''" by (auto split: sum.splits)
  then show ?thesis using Verify_sound by blast
qed

end
