(* ===== verification/Scores.thy ===== *)
theory Scores
  imports Types GoPath
begin

text \<open>
  Exact scores (\<open>pkg/protocol/scores.go\<close>): canonical decimals, integer ticks, conservative
  normalisation of a score to ticks, milestone qualification and confirmation of two runs.
  \<open>big.Int\<close> is \<open>int\<close> and \<open>big.Rat\<close> is \<open>rat\<close>.

  The interface \<open>canonical_codec\<close> states what the tick strings promise to every component that
  compares them as text: a string parses to at most one value and a value has at most one string.
\<close>

section \<open>Canonical decimals\<close>

definition strip_sign :: "string \<Rightarrow> string" where
  "strip_sign s = (case s of [] \<Rightarrow> [] | c # cs \<Rightarrow>
     if c = CHR ''+'' \<or> c = CHR ''-'' then cs else s)"

text \<open>\<open>^[+-]?(0|[1-9][0-9]*)(\.[0-9]+)?$\<close>\<close>

definition decimal_pattern :: "string \<Rightarrow> bool" where
  "decimal_pattern s = (let t = strip_sign s; rest = dropWhile is_digit t in
     canon_digits (takeWhile is_digit t) \<and>
     (rest = [] \<or> hd rest = CHR ''.'' \<and> all_digits (tl rest)))"

text \<open>\<open>^-?(0|[1-9][0-9]*)$\<close>\<close>

definition ticks_pattern :: "string \<Rightarrow> bool" where
  "ticks_pattern s = canon_digits (case s of [] \<Rightarrow> [] | c # cs \<Rightarrow> if c = CHR ''-'' then cs else s)"

text \<open>\<open>new(big.Rat).SetString\<close> on a string that matches the decimal pattern.\<close>

definition rat_of_decimal :: "string \<Rightarrow> rat" where
  "rat_of_decimal s = (let t = strip_sign s;
       ip = takeWhile is_digit t; fp = tl (dropWhile is_digit t);
       v = of_int (digits_val (ip @ fp)) / 10 ^ length fp
     in if prefix ''-'' s then - v else v)"

definition decimal :: "string \<Rightarrow> rat res" where
  "decimal v = (let abs = dropWhile (\<lambda>c. c = CHR ''+'' \<or> c = CHR ''-'') v;
       digits = filter (\<lambda>c. c \<noteq> CHR ''.'') abs;
       significant = dropWhile (\<lambda>c. c = CHR ''0'') digits;
       r = rat_of_decimal v
     in fail_if (\<not> decimal_pattern v) ''score must be a canonical finite decimal string''
       (fail_if (len significant > 100) ''decimal exceeds 100 significant digits''
       (fail_if (CHR ''.'' \<in> set abs \<and> len (tl (dropWhile (\<lambda>c. c \<noteq> CHR ''.'') abs)) > 50)
          ''decimal exceeds 50 fractional digits''
       (fail_if (r = 0 \<and> prefix ''-'' v) ''invalid decimal or negative zero''
       (Inr r)))))"

section \<open>Ticks\<close>

definition ParseTicks :: "string \<Rightarrow> int res" where
  "ParseTicks v = fail_if (len v > 160 \<or> \<not> ticks_pattern v \<or> v = ''-0'') ''invalid integer ticks''
     (case big_set_string v of None \<Rightarrow> Inl (Err ''invalid ticks'') | Some n \<Rightarrow> Inr n)"

definition big_cmp :: "'a::linorder \<Rightarrow> 'a \<Rightarrow> int" where
  "big_cmp x y = (if x < y then - 1 else if x = y then 0 else 1)"

definition CompareTicks :: "string \<Rightarrow> string \<Rightarrow> int res" where
  "CompareTicks a b = res_bind (ParseTicks a) (\<lambda>x. res_bind (ParseTicks b) (\<lambda>y. Inr (big_cmp x y)))"

text \<open>\<open>(*big.Int).QuoRem\<close>: division truncated towards zero.\<close>

definition quo_rem :: "int \<Rightarrow> int \<Rightarrow> int \<times> int" where
  "quo_rem n d = (let q = sgn n * sgn d * (\<bar>n\<bar> div \<bar>d\<bar>) in (q, n - d * q))"

text \<open>The truncated quotient of a score by the quantum, moved one tick against the solver when the
  division leaves a remainder.\<close>

definition tick_quotient :: "string \<Rightarrow> rat \<Rightarrow> int" where
  "tick_quotient direction ratio =
     (let (ticks, remainder) = quo_rem (fst (quotient_of ratio)) (snd (quotient_of ratio));
          ticks = (if remainder \<noteq> 0 \<and> direction = ''maximize'' \<and> ratio < 0 then ticks - 1 else ticks);
          ticks = (if remainder \<noteq> 0 \<and> direction = ''minimize'' \<and> ratio > 0 then ticks + 1 else ticks)
      in ticks)"

definition in_domain :: "int \<Rightarrow> Metric \<Rightarrow> unit res" where
  "in_domain ticks m =
     res_bind (if Metric_DomainMinTicks m \<noteq> [] then
         res_bind (or_else (ParseTicks (Metric_DomainMinTicks m)) (Err ''score below declared domain''))
           (\<lambda>lo. fail_if (ticks < lo) ''score below declared domain'' (Inr ()))
       else Inr ()) (\<lambda>_.
     if Metric_DomainMaxTicks m \<noteq> [] then
         res_bind (or_else (ParseTicks (Metric_DomainMaxTicks m)) (Err ''score above declared domain''))
           (\<lambda>hi. fail_if (ticks > hi) ''score above declared domain'' (Inr ()))
       else Inr ())"

definition normalizeRationalScore :: "rat \<Rightarrow> Metric \<Rightarrow> string res" where
  "normalizeRationalScore v m =
     res_bind (or_else (decimal (Metric_Quantum m)) (Err ''quantum must be a positive decimal'')) (\<lambda>q.
     fail_if (q \<le> 0) ''quantum must be a positive decimal''
     (fail_if (Metric_Direction m \<noteq> ''maximize'' \<and> Metric_Direction m \<noteq> ''minimize'')
        ''unknown metric direction''
     (let ticks = tick_quotient (Metric_Direction m) (v / q); result = show_int ticks
      in res_bind (ParseTicks result) (\<lambda>_. res_bind (in_domain ticks m) (\<lambda>_. Inr result)))))"

definition NormalizeScore :: "string \<Rightarrow> Metric \<Rightarrow> string res" where
  "NormalizeScore score m = res_bind (decimal score) (\<lambda>v. normalizeRationalScore v m)"

section \<open>Qualification and confirmation\<close>

definition Qualifies :: "string \<Rightarrow> string \<Rightarrow> string \<Rightarrow> bool res" where
  "Qualifies score threshold direction = res_bind (CompareTicks score threshold) (\<lambda>cmp.
     if direction = ''maximize'' then Inr (cmp \<ge> 0)
     else if direction = ''minimize'' then Inr (cmp \<le> 0)
     else Inl (Err ''unknown direction''))"

definition ConfirmScores :: "string \<Rightarrow> string \<Rightarrow> Metric \<Rightarrow> string res" where
  "ConfirmScores a b m =
     res_bind (ParseTicks a) (\<lambda>x.
     res_bind (ParseTicks b) (\<lambda>y.
     res_bind (or_else (ParseTicks (Metric_ToleranceTicks m)) (Err ''invalid tolerance'')) (\<lambda>t.
     fail_if (t < 0) ''invalid tolerance''
     (fail_if (\<bar>x - y\<bar> > t) ''nondeterministic scores''
     (if Metric_Direction m = ''maximize'' then (if x < y then Inr a else Inr b)
      else if Metric_Direction m = ''minimize'' then (if x > y then Inr a else Inr b)
      else Inl (Err ''unknown direction''))))))"

section \<open>The tick strings as a canonical codec\<close>

locale canonical_codec =
  fixes parse :: "string \<Rightarrow> 'a res"
    and print :: "'a \<Rightarrow> string"
    and fits :: "string \<Rightarrow> bool"
  assumes parse_iff: "parse s = Inr x \<longleftrightarrow> s = print x \<and> fits s"
begin

lemma parse_print: "fits (print x) \<Longrightarrow> parse (print x) = Inr x"
  by (simp add: parse_iff)

lemma print_parse: "parse s = Inr x \<Longrightarrow> print x = s"
  by (simp add: parse_iff)

lemma parse_unique: "parse s = Inr x \<Longrightarrow> parse t = Inr y \<Longrightarrow> s = t \<longleftrightarrow> x = y"
  using parse_iff by (metis sum.inject(2))

end

lemma ticks_pattern_iff: "ticks_pattern s \<and> s \<noteq> ''-0'' \<longleftrightarrow> (\<exists>n. s = show_int n)"
proof
  assume s: "ticks_pattern s \<and> s \<noteq> ''-0''"
  show "\<exists>n. s = show_int n"
  proof (cases "\<exists>t. s = CHR ''-'' # t")
    case True
    then obtain t where t: "s = CHR ''-'' # t" by blast
    with s have c: "canon_digits t" "t \<noteq> ''0''" by (auto simp: ticks_pattern_def)
    then have "0 < digits_val t" by (auto simp: canon_digits_def digits_val_pos)
    then have "show_int (- digits_val t) = s"
      using c t by (simp add: show_int_def show_nat_digits_val)
    then show ?thesis by metis
  next
    case False
    with s have "canon_digits s" by (auto simp: ticks_pattern_def split: list.splits if_splits)
    moreover from this have "0 \<le> digits_val s"
      by (simp add: canon_digits_def all_digits_def digits_val_nonneg)
    ultimately have "show_int (digits_val s) = s" by (simp add: show_int_def show_nat_digits_val)
    then show ?thesis by metis
  qed
next
  assume "\<exists>n. s = show_int n"
  then obtain n where n: "s = show_int n" by blast
  show "ticks_pattern s \<and> s \<noteq> ''-0''"
  proof (cases "n < 0")
    case True
    then have "show_nat (- n) \<noteq> ''0''" using hd_show_nat [of "- n"] by auto
    with True n show ?thesis by (simp add: show_int_def ticks_pattern_def)
  next
    case False
    obtain c cs where cs: "show_nat n = c # cs"
      using show_nat_nonempty [of n] by (cases "show_nat n") auto
    have "is_digit c" using hd_show_nat_digit [of n] cs False by simp
    then have "c \<noteq> CHR ''-''" by auto
    moreover have "canon_digits (c # cs)" using canon_show_nat [of n] cs False by simp
    ultimately show ?thesis using False n cs by (simp add: show_int_def ticks_pattern_def)
  qed
qed

lemma ParseTicks_iff: "ParseTicks s = Inr n \<longleftrightarrow> s = show_int n \<and> len s \<le> 160"
proof
  assume p: "ParseTicks s = Inr n"
  then have "ticks_pattern s \<and> s \<noteq> ''-0''" and len: "len s \<le> 160"
    by (auto simp: ParseTicks_def res_simps)
  then obtain k where "s = show_int k" using ticks_pattern_iff by blast
  with p len show "s = show_int n \<and> len s \<le> 160"
    by (auto simp: ParseTicks_def res_simps)
next
  assume "s = show_int n \<and> len s \<le> 160"
  moreover from this have "ticks_pattern s \<and> s \<noteq> ''-0''" using ticks_pattern_iff by blast
  ultimately show "ParseTicks s = Inr n" by (auto simp: ParseTicks_def)
qed

interpretation ticks: canonical_codec ParseTicks show_int "\<lambda>s. len s \<le> 160"
  by unfold_locales (rule ParseTicks_iff)

lemma ParseTicks_no_panic [panic_intros]: "no_panic (ParseTicks s)"
  by (auto simp: ParseTicks_def intro!: panic_intros split: option.splits)

lemma decimal_no_panic [panic_intros]: "no_panic (decimal s)"
  by (auto simp: decimal_def Let_def intro!: panic_intros)

lemma big_cmp_iff [simp]:
  "big_cmp x y = 0 \<longleftrightarrow> x = y" "big_cmp x y \<ge> 0 \<longleftrightarrow> x \<ge> y" "big_cmp x y \<le> 0 \<longleftrightarrow> x \<le> y"
  "big_cmp x y < 0 \<longleftrightarrow> x < y" "big_cmp x y > 0 \<longleftrightarrow> x > y"
  by (auto simp: big_cmp_def)

lemma CompareTicks_Inr_iff [res_simps]:
  "CompareTicks a b = Inr c \<longleftrightarrow>
   (\<exists>x y. ParseTicks a = Inr x \<and> ParseTicks b = Inr y \<and> c = big_cmp x y)"
  by (auto simp: CompareTicks_def res_simps)

section \<open>Rounding\<close>

text \<open>The rounding rule in mathematical terms: down when larger is better, up when smaller is.\<close>

definition round_ticks :: "string \<Rightarrow> rat \<Rightarrow> int" where
  "round_ticks direction ratio = (if direction = ''maximize'' then \<lfloor>ratio\<rfloor> else \<lceil>ratio\<rceil>)"

lemma quo_rem_pos: "0 \<le> n \<Longrightarrow> 0 < d \<Longrightarrow> quo_rem n d = (n div d, n mod d)"
  by (cases "n = 0") (simp_all add: quo_rem_def Let_def minus_mult_div_eq_mod)

lemma quo_rem_neg: "n < 0 \<Longrightarrow> 0 < d \<Longrightarrow> quo_rem n d = (- (- n div d), - (- n mod d))"
  by (simp add: quo_rem_def Let_def minus_mult_div_eq_mod [symmetric])

lemma neg_div: "0 < d \<Longrightarrow> (n::int) div d = (if - n mod d = 0 then - (- n div d) else - (- n div d) - 1)"
  using zdiv_zminus1_eq_if [of d "- n"] by simp

lemma quotient_parts:
  assumes "quotient_of r = (n, d)"
  shows "0 < d" "\<lfloor>r\<rfloor> = n div d" "\<lceil>r\<rceil> = - (- n div d)" "r < 0 \<longleftrightarrow> n < 0" "r > 0 \<longleftrightarrow> n > 0"
proof -
  show d: "0 < d" using assms by (rule quotient_of_denom_pos)
  have r: "r = of_int n / of_int d" using assms by (rule quotient_of_div)
  show "\<lfloor>r\<rfloor> = n div d" by (simp add: r floor_divide_of_int_eq)
  have "\<lfloor>- r\<rfloor> = - n div d" using floor_divide_of_int_eq [of "- n" d] by (simp add: r)
  then show "\<lceil>r\<rceil> = - (- n div d)" by (simp add: ceiling_def)
  show "r < 0 \<longleftrightarrow> n < 0" "r > 0 \<longleftrightarrow> n > 0"
    using d by (simp_all add: r divide_less_0_iff zero_less_divide_iff)
qed

lemma tick_quotient_rounds:
  assumes dir: "direction = ''maximize'' \<or> direction = ''minimize''"
  shows "tick_quotient direction ratio = round_ticks direction ratio"
proof -
  obtain n d where nd: "quotient_of ratio = (n, d)" by fastforce
  note q = quotient_parts [OF nd]
  show ?thesis
  proof (cases "n < 0")
    case True
    then show ?thesis using q dir neg_div [OF q(1), of n] quo_rem_neg [OF True q(1)]
      by (auto simp: tick_quotient_def round_ticks_def nd)
  next
    case False
    have "n div d = - (- n div d) - (if n mod d = 0 then 0 else 1)"
      using neg_div [OF q(1), of "- n"] by auto
    moreover have "n mod d \<noteq> 0 \<Longrightarrow> 0 < n" using False by (cases "n = 0") auto
    ultimately show ?thesis using False q dir quo_rem_pos [OF _ q(1), of n]
      by (auto simp: tick_quotient_def round_ticks_def nd)
  qed
qed

lemma normalizeRationalScore_Inr_iff [res_simps]:
  "normalizeRationalScore v m = Inr t \<longleftrightarrow>
   (\<exists>q k. decimal (Metric_Quantum m) = Inr q \<and> 0 < q \<and>
      (Metric_Direction m = ''maximize'' \<or> Metric_Direction m = ''minimize'') \<and>
      k = round_ticks (Metric_Direction m) (v / q) \<and> ParseTicks t = Inr k \<and> in_domain k m = Inr ())"
  by (auto simp: normalizeRationalScore_def res_simps Let_def tick_quotient_rounds not_le ParseTicks_iff)

lemma NormalizeScore_Inr_iff [res_simps]:
  "NormalizeScore s m = Inr t \<longleftrightarrow>
   (\<exists>v. decimal s = Inr v \<and> normalizeRationalScore v m = Inr t)"
  by (simp add: NormalizeScore_def res_simps)

lemma in_domain_Inr_iff:
  "in_domain k m = Inr () \<longleftrightarrow>
   (Metric_DomainMinTicks m \<noteq> [] \<longrightarrow> (\<exists>lo. ParseTicks (Metric_DomainMinTicks m) = Inr lo \<and> lo \<le> k)) \<and>
   (Metric_DomainMaxTicks m \<noteq> [] \<longrightarrow> (\<exists>hi. ParseTicks (Metric_DomainMaxTicks m) = Inr hi \<and> k \<le> hi))"
  by (auto simp: in_domain_def res_simps not_less)

section \<open>Properties\<close>

text \<open>A tick string is accepted exactly when it is the printed form of its value and has at most
  160 bytes.  So a value has one spelling, and comparing accepted tick strings as text, as the
  code does with run scores, is comparing their values.\<close>

theorem ParseTicks_canonical:
  "ParseTicks s = Inr n \<longleftrightarrow> s = show_int n \<and> len s \<le> 160"
  by (rule ticks.parse_iff)

text \<open>C16: an accepted score is normalised against the solver.  With a maximised metric the ticks are
  the largest whole number of quanta not above the score, with a minimised one the smallest not
  below it, and they lie in the declared domain.\<close>

theorem NormalizeScore_conservative:
  assumes "NormalizeScore s m = Inr t"
  shows "\<exists>v q k. decimal s = Inr v \<and> decimal (Metric_Quantum m) = Inr q \<and> 0 < q \<and> ParseTicks t = Inr k \<and>
    in_domain k m = Inr () \<and>
    (Metric_Direction m = ''maximize'' \<and> of_int k * q \<le> v \<and> v < (of_int k + 1) * q \<or>
     Metric_Direction m = ''minimize'' \<and> (of_int k - 1) * q < v \<and> v \<le> of_int k * q)"
proof -
  from assms obtain v q k where
    v: "decimal s = Inr v" "decimal (Metric_Quantum m) = Inr q" "0 < q" "ParseTicks t = Inr k"
      "in_domain k m = Inr ()"
    and dir: "Metric_Direction m = ''maximize'' \<or> Metric_Direction m = ''minimize''"
    and k: "k = round_ticks (Metric_Direction m) (v / q)"
    by (auto simp: res_simps)
  have "of_int \<lfloor>v / q\<rfloor> * q \<le> v" "v < (of_int \<lfloor>v / q\<rfloor> + 1) * q"
    using \<open>0 < q\<close> floor_correct [of "v / q"]
    by (simp_all add: pos_le_divide_eq [symmetric] pos_divide_less_eq)
  moreover have "(of_int \<lceil>v / q\<rceil> - 1) * q < v" "v \<le> of_int \<lceil>v / q\<rceil> * q"
    using \<open>0 < q\<close> ceiling_correct [of "v / q"]
    by (simp_all add: pos_less_divide_eq pos_divide_le_eq [symmetric])
  ultimately show ?thesis using v dir k by (auto simp: round_ticks_def)
qed

definition demo_metric :: Metric where
  "demo_metric = \<lparr>Metric_Name = ''m'', Metric_Direction = ''maximize'', Metric_Unit = ''u'',
     Metric_Quantum = ''0.5'', Metric_BaselineTicks = ''10'', Metric_MinimumDeltaTicks = ''2'',
     Metric_ToleranceTicks = ''1'', Metric_DomainMinTicks = ''-20'', Metric_DomainMaxTicks = []\<rparr>"

theorem NormalizeScore_conservative_witness:
  "NormalizeScore ''-7.3'' demo_metric = Inr ''-15'' \<and>
   (\<exists>v q k. decimal ''-7.3'' = Inr v \<and> decimal ''0.5'' = Inr q \<and> ParseTicks ''-15'' = Inr k \<and>
      of_int k * q \<le> v \<and> v < (of_int k + 1) * q)"
proof -
  have n: "NormalizeScore ''-7.3'' demo_metric = Inr ''-15''" by code_simp
  show ?thesis using n NormalizeScore_conservative [OF n] by (auto simp: demo_metric_def)
qed

text \<open>Normalisation respects the order of the scores, so a better score never gets worse ticks.\<close>

theorem NormalizeScore_mono:
  assumes "NormalizeScore s m = Inr t" "NormalizeScore s' m = Inr t'"
    and "decimal s = Inr v" "decimal s' = Inr v'" "v \<le> v'"
  shows "\<exists>k k'. ParseTicks t = Inr k \<and> ParseTicks t' = Inr k' \<and> k \<le> k'"
proof -
  from assms obtain q where q: "0 < q" "decimal (Metric_Quantum m) = Inr q"
    and t: "ParseTicks t = Inr (round_ticks (Metric_Direction m) (v / q))"
      "ParseTicks t' = Inr (round_ticks (Metric_Direction m) (v' / q))"
    by (auto simp: res_simps)
  have "v / q \<le> v' / q" using assms(5) q(1) by (simp add: divide_right_mono)
  then have "round_ticks (Metric_Direction m) (v / q) \<le> round_ticks (Metric_Direction m) (v' / q)"
    by (auto simp: round_ticks_def intro: floor_mono ceiling_mono)
  with t show ?thesis by blast
qed

theorem NormalizeScore_mono_witness:
  "\<exists>k k'. ParseTicks ''-15'' = Inr k \<and> ParseTicks ''3'' = Inr k' \<and> k \<le> k'"
proof -
  have n1: "NormalizeScore ''-7.3'' demo_metric = Inr ''-15''" by code_simp
  have n2: "NormalizeScore ''1.75'' demo_metric = Inr ''3''" by code_simp
  obtain v where v: "decimal ''-7.3'' = Inr v" using n1 by (auto simp: res_simps)
  obtain w where w: "decimal ''1.75'' = Inr w" using n2 by (auto simp: res_simps)
  have "v = rat_of_decimal ''-7.3''" "w = rat_of_decimal ''1.75''"
    using v w by (auto simp: decimal_def Let_def res_simps)
  moreover have "rat_of_decimal ''-7.3'' \<le> rat_of_decimal ''1.75''" by code_simp
  ultimately show ?thesis using NormalizeScore_mono [OF n1 n2 v w] by simp
qed

text \<open>Two runs confirm a score only when they agree within the tolerance, and the confirmed
  score is the worse of the two, so repeating a run never gains ticks.\<close>

theorem ConfirmScores_worse:
  assumes "ConfirmScores a b m = Inr c"
  shows "\<exists>x y t. ParseTicks a = Inr x \<and> ParseTicks b = Inr y \<and> ParseTicks (Metric_ToleranceTicks m) = Inr t \<and>
    \<bar>x - y\<bar> \<le> t \<and>
    (Metric_Direction m = ''maximize'' \<and> ParseTicks c = Inr (min x y) \<or>
     Metric_Direction m = ''minimize'' \<and> ParseTicks c = Inr (max x y))"
proof -
  from assms obtain x y t where p: "ParseTicks a = Inr x" "ParseTicks b = Inr y"
      "ParseTicks (Metric_ToleranceTicks m) = Inr t" "\<bar>x - y\<bar> \<le> t"
    and c: "Metric_Direction m = ''maximize'' \<and> c = (if x < y then a else b) \<or>
      Metric_Direction m = ''minimize'' \<and> c = (if x > y then a else b)"
    by (auto simp: ConfirmScores_def res_simps not_less split: if_splits)
  from c p(1,2) have "Metric_Direction m = ''maximize'' \<and> ParseTicks c = Inr (min x y) \<or>
     Metric_Direction m = ''minimize'' \<and> ParseTicks c = Inr (max x y)"
    by (auto simp: min_def max_def not_less)
  with p show ?thesis by blast
qed

theorem ConfirmScores_worse_witness:
  "ConfirmScores ''12'' ''11'' demo_metric = Inr ''11'' \<and>
   (\<exists>x y. ParseTicks ''12'' = Inr x \<and> ParseTicks ''11'' = Inr y \<and> ParseTicks ''11'' = Inr (min x y))"
proof -
  have c: "ConfirmScores ''12'' ''11'' demo_metric = Inr ''11''" by code_simp
  show ?thesis using c ConfirmScores_worse [OF c] by (auto simp: demo_metric_def)
qed

text \<open>Two accepted tick strings compare equal exactly when they are the same string.\<close>

theorem CompareTicks_zero:
  "CompareTicks a b = Inr 0 \<longleftrightarrow> is_ok (ParseTicks a) \<and> a = b"
  using ticks.parse_unique by (fastforce simp: res_simps is_ok_iff)

end
