(* ===== verification/Checkpoint.thy ===== *)
theory Checkpoint
  imports Signatures Scores
begin

text \<open>
  The public audit log (\<open>internal/audit/checkpoint.go\<close>): the hash chain of events, the Merkle root of an
  interval, building and verifying checkpoints, and the witness quorum.

  What the chain and the tree bind is stated by extracting collisions: either the two logs agree, or two
  different byte strings that were really hashed have the same SHA-256 value.  The strings hashed are
  given by \<open>merkle_inputs\<close> and \<open>event_input\<close>.
\<close>

definition MaxEvents :: int where
  "MaxEvents = 10000"

record Event =
  Event_Sequence :: string
  Event_Kind :: string
  Event_Payload :: string
  Event_PreviousDigest :: string
  Event_Digest :: string

record Checkpoint =
  CP_APIVersion :: string
  CP_Kind :: string
  CP_LogID :: string
  CP_FromSequence :: string
  CP_ToSequence :: string
  CP_PreviousCheckpointDigest :: string
  CP_PreviousEventDigest :: string
  CP_LastEventDigest :: string
  CP_MerkleRoot :: string
  CP_IssuedAt :: go_time

record Bundle =
  Bundle_Checkpoint :: Envelope
  Bundle_Witnesses :: "Envelope list"
  Bundle_Events :: "Event list"

text \<open>The external code: the cryptography, and the canonical JSON of a checkpoint with its decoder.\<close>

record 'k audit_env =
  Crypto :: "'k crypto_env"
  CheckpointJSON :: "Checkpoint \<Rightarrow> string res"
  DecodeCheckpoint :: "string \<Rightarrow> Checkpoint res"

section \<open>Digests and sequences\<close>

definition Hash :: "'k crypto_env \<Rightarrow> string \<Rightarrow> string" where
  "Hash env data = DigestBytes (Sha env) data"

definition CanonicalDigest :: "'k crypto_env \<Rightarrow> string res \<Rightarrow> string res" where
  "CanonicalDigest env json = res_bind json (\<lambda>b. Inr (Hash env b))"

definition mustDigest :: "'k audit_env \<Rightarrow> Checkpoint \<Rightarrow> string" where
  "mustDigest env cp = (case CanonicalDigest (Crypto env) (CheckpointJSON env cp) of Inl _ \<Rightarrow> [] | Inr d \<Rightarrow> d)"

definition event_input :: "string \<Rightarrow> string \<Rightarrow> string \<Rightarrow> string" where
  "event_input previous kind canonical = previous @ CHR 0x0A # kind @ CHR 0x0A # canonical"

definition EventDigest :: "'k crypto_env \<Rightarrow> string \<Rightarrow> string \<Rightarrow> string \<Rightarrow> string res" where
  "EventDigest env previous kind payload =
     fail_if (\<not> validDigest previous True \<or> kind = [] \<or> len kind > 128 \<or> CHR 0x0D \<in> set kind \<or> CHR 0x0A \<in> set kind)
       ''invalid audit chain fields''
     (res_bind (CanonJSON env payload) (\<lambda>b. Inr (Hash env (event_input previous kind b))))"

definition sequence :: "string \<Rightarrow> int res" where
  "sequence s = (case parse_int64 s of
     None \<Rightarrow> Inl (Err ''sequence must be a canonical nonnegative integer string'')
   | Some n \<Rightarrow> fail_if (n < 0 \<or> show_int n \<noteq> s) ''sequence must be a canonical nonnegative integer string'' (Inr n))"

section \<open>The Merkle tree\<close>

function pow_below :: "nat \<Rightarrow> nat \<Rightarrow> nat" where
  "pow_below k n = (if 0 < k \<and> k * 2 < n then pow_below (k * 2) n else k)"
  by pat_completeness auto
termination by (relation "measure (\<lambda>(k, n). n - k)") auto

declare pow_below.simps [simp del]

lemma pow_below_bounds: "1 \<le> k \<Longrightarrow> k < n \<Longrightarrow> 1 \<le> pow_below k n \<and> pow_below k n < n"
proof (induction k n rule: pow_below.induct)
  case (1 k n)
  then show ?case by (subst (1 2) pow_below.simps) auto
qed

function merkle_tree :: "(string \<Rightarrow> string) \<Rightarrow> string list \<Rightarrow> string" where
  "merkle_tree sha nodes =
     (if nodes = [] then sha [] else if tl nodes = [] then hd nodes else
      let k = pow_below 1 (length nodes) in
      sha (CHR 0x01 # merkle_tree sha (take k nodes) @ merkle_tree sha (drop k nodes)))"
  by pat_completeness auto
termination
proof (relation "measure (\<lambda>(sha, nodes). length nodes)")
  fix nodes :: "string list" and sha :: "string \<Rightarrow> string" and k
  assume "nodes \<noteq> []" "tl nodes \<noteq> []" and k: "k = pow_below 1 (length nodes)"
  then have "1 < length nodes" by (cases nodes) (auto simp: neq_Nil_conv)
  then have "1 \<le> k \<and> k < length nodes" unfolding k by (intro pow_below_bounds) auto
  then show "((sha, take k nodes), (sha, nodes)) \<in> measure (\<lambda>(sha, nodes). length nodes)"
    "((sha, drop k nodes), (sha, nodes)) \<in> measure (\<lambda>(sha, nodes). length nodes)" by auto
qed simp

declare merkle_tree.simps [simp del]

definition leaf_bytes :: "string \<Rightarrow> string" where
  "leaf_bytes d = (case hex_decode (drop 7 d) of None \<Rightarrow> [] | Some b \<Rightarrow> b)"

definition merkle_leaf :: "(string \<Rightarrow> string) \<Rightarrow> string \<Rightarrow> string" where
  "merkle_leaf sha d = sha (CHR 0x00 # leaf_bytes d)"

definition MerkleRoot :: "(string \<Rightarrow> string) \<Rightarrow> string list \<Rightarrow> string res" where
  "MerkleRoot sha digests =
     fail_if (len digests > MaxEvents) ''checkpoint event bound exceeded''
     (res_bind (res_each (\<lambda>d. fail_if (\<not> validDigest d False) ''invalid Merkle leaf digest'' (Inr ())) digests) (\<lambda>_.
      Inr (''sha256:'' @ hex_encode (merkle_tree sha (map (merkle_leaf sha) digests)))))"

section \<open>Checkpoints\<close>

definition build_step ::
    "'k crypto_env \<Rightarrow> int \<Rightarrow> nat \<times> string \<times> string \<times> string list \<Rightarrow> Event \<Rightarrow> (nat \<times> string \<times> string \<times> string list) res" where
  "build_step env from_seq = (\<lambda>(i, lst, to_seq, digests) e.
     res_bind (or_else (sequence (Event_Sequence e)) (Err ''audit sequence gap or overflow'')) (\<lambda>n.
     fail_if (n \<noteq> int64 (from_seq + int i) \<or> n < from_seq) ''audit sequence gap or overflow''
     (res_bind (or_else (EventDigest env lst (Event_Kind e) (Event_Payload e)) (Err ''broken audit event hash chain'')) (\<lambda>d.
      fail_if (Event_PreviousDigest e \<noteq> lst \<or> d \<noteq> Event_Digest e) ''broken audit event hash chain''
      (Inr (Suc i, Event_Digest e, Event_Sequence e, digests @ [Event_Digest e]))))))"

definition build_prior ::
    "'k audit_env \<Rightarrow> string \<Rightarrow> Checkpoint option \<Rightarrow> go_time \<Rightarrow> (int \<times> int \<times> string \<times> string) res" where
  "build_prior env logID previous issued =
     (case previous of
        None \<Rightarrow> Inr (1, 0, Genesis, Genesis)
      | Some p \<Rightarrow>
        res_bind (sequence (CP_ToSequence p)) (\<lambda>lst.
        fail_if (lst = 9223372036854775807) ''sequence exhausted''
        (res_bind (CanonicalDigest (Crypto env) (CheckpointJSON env p)) (\<lambda>d.
         fail_if (CP_LogID p \<noteq> logID \<or> issued < CP_IssuedAt p) ''checkpoint changed log identity or regressed time''
         (Inr (lst + 1, lst, d, CP_LastEventDigest p))))))"

definition Build ::
    "'k audit_env \<Rightarrow> string \<Rightarrow> Event list \<Rightarrow> Checkpoint option \<Rightarrow> go_time \<Rightarrow> Checkpoint res" where
  "Build env logID events previous issued =
     fail_if (logID = [] \<or> len logID > 128 \<or> issued = 0) ''log identity and timestamp required''
     (res_bind (build_prior env logID previous issued) (\<lambda>(from_seq, lst, priorCheckpoint, priorEvent).
      res_bind (res_fold (build_step (Crypto env) from_seq) (0, priorEvent, show_int lst, []) events)
        (\<lambda>(_, lastDigest, to_seq, digests).
      res_bind (MerkleRoot (Sha (Crypto env)) digests) (\<lambda>root.
      Inr \<lparr>CP_APIVersion = APIVersion, CP_Kind = ''AuditCheckpoint'', CP_LogID = logID,
           CP_FromSequence = show_int from_seq, CP_ToSequence = to_seq, CP_PreviousCheckpointDigest = priorCheckpoint,
           CP_PreviousEventDigest = priorEvent, CP_LastEventDigest = lastDigest, CP_MerkleRoot = root,
           CP_IssuedAt = issued\<rparr>))))"

definition VerifyCheckpoint ::
    "'k audit_env \<Rightarrow> Envelope \<Rightarrow> (string, 'k) gomap \<Rightarrow> Event list \<Rightarrow> Checkpoint option \<Rightarrow> go_time \<Rightarrow> Checkpoint res" where
  "VerifyCheckpoint env envelope keys events previous now =
     res_bind (Verify (Crypto env) envelope keys) (\<lambda>b.
     res_bind (DecodeCheckpoint env b) (\<lambda>cp.
     fail_if (CP_APIVersion cp \<noteq> APIVersion \<or> CP_Kind cp \<noteq> ''AuditCheckpoint'' \<or> CP_IssuedAt cp > now + 5 * 60 * 1000000000)
       ''unsupported or future checkpoint''
     (res_bind (Build env (CP_LogID cp) events previous (CP_IssuedAt cp)) (\<lambda>expected.
      fail_if (mustDigest env cp \<noteq> mustDigest env expected)
        ''checkpoint interval, chain link, or Merkle root differs from observed events'' (Inr cp)))))"

section \<open>Quorum\<close>

definition Fingerprint :: "'k crypto_env \<Rightarrow> 'k \<Rightarrow> string res" where
  "Fingerprint env key = fail_if (\<not> IsP256 env key) ''P-256 public key required''
     (res_bind (MarshalPKIX env key) (\<lambda>der. Inr (Hash env der)))"

definition quorum_step ::
    "'k crypto_env \<Rightarrow> (string, 'k) gomap \<Rightarrow> string set \<times> string set \<Rightarrow> string \<times> string \<Rightarrow> (string set \<times> string set) res" where
  "quorum_step env keys = (\<lambda>(allOperators, allKeys) (kid, admin).
     fail_if (kid = [] \<or> admin = [] \<or> admin \<in> allOperators) ''witnesses must have three distinct configured operators''
     (case lookup keys kid of
        None \<Rightarrow> Inr (insert admin allOperators, allKeys)
      | Some key \<Rightarrow>
        res_bind (or_else (Fingerprint env key) (Err ''active witnesses must use distinct valid keys'')) (\<lambda>f.
        fail_if (f \<in> allKeys) ''active witnesses must use distinct valid keys''
        (Inr (insert admin allOperators, insert f allKeys)))))"

definition votes_of ::
    "'k crypto_env \<Rightarrow> (string, 'k) gomap \<Rightarrow> (string, string) gomap \<Rightarrow> Envelope \<Rightarrow> Signature \<Rightarrow> string list" where
  "votes_of env keys operators envelope sig =
     (case lookup keys (Signature_KeyID sig) of
        None \<Rightarrow> []
      | Some key \<Rightarrow>
        if is_ok (Verify env (envelope\<lparr>Envelope_Signatures := [sig]\<rparr>) [(Signature_KeyID sig, key)])
        then (case lookup operators (Signature_KeyID sig) of None \<Rightarrow> [] | Some op \<Rightarrow> if op = [] then [] else [op])
        else [])"

definition quorum_votes ::
    "'k crypto_env \<Rightarrow> Envelope \<Rightarrow> Envelope list \<Rightarrow> (string, 'k) gomap \<Rightarrow> (string, string) gomap \<Rightarrow> string list" where
  "quorum_votes env platform witnesses keys operators =
     remdups (concat (map (\<lambda>envelope.
       if Envelope_PayloadType envelope \<noteq> Envelope_PayloadType platform \<or> Envelope_Payload envelope \<noteq> Envelope_Payload platform
       then [] else concat (map (votes_of env keys operators envelope) (Envelope_Signatures envelope))) witnesses))"

definition VerifyQuorum ::
    "'k crypto_env \<Rightarrow> Envelope \<Rightarrow> Envelope list \<Rightarrow> (string, 'k) gomap \<Rightarrow> (string, string) gomap \<Rightarrow> int \<Rightarrow> unit res" where
  "VerifyQuorum env platform witnesses keys operators quorum =
     fail_if (quorum \<noteq> 2 \<or> len operators \<noteq> 3) ''MVP requires three witnesses and a 2-of-3 quorum''
     (res_bind (res_fold (quorum_step env keys) ({}, {}) operators) (\<lambda>_.
      let seen = quorum_votes env platform witnesses keys operators in
      if len seen < quorum then Inl (Errf ''witness quorum unavailable: %d of %d required'' [show_int (len seen), show_int quorum])
      else Inr ()))"

section \<open>Sequence strings\<close>

definition int64_text :: "string \<Rightarrow> bool" where
  "int64_text s = (case parse_int64 s of None \<Rightarrow> False | Some n \<Rightarrow> 0 \<le> n)"

interpretation seq: canonical_codec sequence show_int int64_text
proof
  fix s n
  show "sequence s = Inr n \<longleftrightarrow> s = show_int n \<and> int64_text s"
  proof
    assume "sequence s = Inr n"
    then show "s = show_int n \<and> int64_text s"
      by (auto simp: sequence_def int64_text_def res_simps split: option.splits)
  next
    assume h: "s = show_int n \<and> int64_text s"
    then have "parse_int64 s = Some n"
      by (auto simp: int64_text_def parse_int64_def split: if_splits)
    with h show "sequence s = Inr n" by (auto simp: sequence_def int64_text_def)
  qed
qed

lemma sequence_bounds: "sequence s = Inr n \<Longrightarrow> 0 \<le> n \<and> n \<le> 9223372036854775807"
  by (auto simp: sequence_def parse_int64_def res_simps split: option.splits if_splits)

section \<open>What the tree binds\<close>

function merkle_inputs :: "(string \<Rightarrow> string) \<Rightarrow> string list \<Rightarrow> string set" where
  "merkle_inputs sha nodes =
     (if nodes = [] then {[]} else if tl nodes = [] then {} else
      let k = pow_below 1 (length nodes) in
      insert (CHR 0x01 # merkle_tree sha (take k nodes) @ merkle_tree sha (drop k nodes))
        (merkle_inputs sha (take k nodes) \<union> merkle_inputs sha (drop k nodes)))"
  by pat_completeness auto
termination
proof (relation "measure (\<lambda>(sha, nodes). length nodes)")
  fix nodes :: "string list" and sha :: "string \<Rightarrow> string" and k
  assume "nodes \<noteq> []" "tl nodes \<noteq> []" and k: "k = pow_below 1 (length nodes)"
  then have "1 < length nodes" by (cases nodes) (auto simp: neq_Nil_conv)
  then have "1 \<le> k \<and> k < length nodes" unfolding k by (intro pow_below_bounds) auto
  then show "((sha, take k nodes), (sha, nodes)) \<in> measure (\<lambda>(sha, nodes). length nodes)"
    "((sha, drop k nodes), (sha, nodes)) \<in> measure (\<lambda>(sha, nodes). length nodes)" by auto
qed simp

declare merkle_inputs.simps [simp del]

lemma two_or_more: "1 < length xs \<Longrightarrow> xs \<noteq> [] \<and> tl xs \<noteq> []"
  by (cases xs; cases "tl xs") auto

lemma few_cases:
  obtains "xs = []" | x where "xs = [x]" | "1 < length xs"
  by (cases xs; cases "tl xs") auto

lemma merkle_tree_Nil: "merkle_tree sha [] = sha []"
  by (subst merkle_tree.simps) simp

lemma merkle_tree_single: "merkle_tree sha [x] = x"
  by (subst merkle_tree.simps) simp

lemma merkle_tree_more:
  "1 < length xs \<Longrightarrow> merkle_tree sha xs = sha (CHR 0x01 # merkle_tree sha (take (pow_below 1 (length xs)) xs)
     @ merkle_tree sha (drop (pow_below 1 (length xs)) xs))"
  using two_or_more [of xs] by (subst merkle_tree.simps) (simp add: Let_def)

lemma merkle_inputs_Nil: "merkle_inputs sha [] = {[]}"
  by (subst merkle_inputs.simps) simp

lemma merkle_inputs_more:
  "1 < length xs \<Longrightarrow> merkle_inputs sha xs = insert (CHR 0x01 # merkle_tree sha (take (pow_below 1 (length xs)) xs)
     @ merkle_tree sha (drop (pow_below 1 (length xs)) xs))
     (merkle_inputs sha (take (pow_below 1 (length xs)) xs) \<union> merkle_inputs sha (drop (pow_below 1 (length xs)) xs))"
  using two_or_more [of xs] by (subst merkle_inputs.simps) (simp add: Let_def)

lemmas merkle_tree_cases = merkle_tree_Nil merkle_tree_single merkle_tree_more
lemmas merkle_inputs_cases = merkle_inputs_Nil merkle_inputs_more

definition leaf_input :: "string \<Rightarrow> string" where
  "leaf_input d = CHR 0x00 # leaf_bytes d"

text \<open>All byte strings hashed to compute the root of a list of leaves.\<close>

definition tree_inputs :: "(string \<Rightarrow> string) \<Rightarrow> string list \<Rightarrow> string set" where
  "tree_inputs sha ds = leaf_input ` set ds \<union> merkle_inputs sha (map (merkle_leaf sha) ds)"

definition collision_between :: "(string \<Rightarrow> string) \<Rightarrow> string set \<Rightarrow> string set \<Rightarrow> bool" where
  "collision_between sha X Y \<longleftrightarrow> (\<exists>x\<in>X. \<exists>y\<in>Y. x \<noteq> y \<and> sha x = sha y)"

lemma no_collisionD: "\<not> collision_between sha X Y \<Longrightarrow> x \<in> X \<Longrightarrow> y \<in> Y \<Longrightarrow> sha x = sha y \<Longrightarrow> x = y"
  by (auto simp: collision_between_def)

lemma no_collision_mono: "\<not> collision_between sha X Y \<Longrightarrow> X' \<subseteq> X \<Longrightarrow> Y' \<subseteq> Y \<Longrightarrow> \<not> collision_between sha X' Y'"
  by (auto simp: collision_between_def)

lemma merkle_leaf_hash: "merkle_leaf sha d = sha (leaf_input d)"
  by (simp add: merkle_leaf_def leaf_input_def)

lemma merkle_tree_length:
  assumes "sha_ok sha" "\<forall>x\<in>set xs. length x = 32"
  shows "length (merkle_tree sha xs) = 32"
proof (cases xs rule: few_cases)
  case (2 x)
  then show ?thesis using assms(2) by (simp add: merkle_tree_cases)
next
  case 3
  then show ?thesis using assms(1) by (simp add: merkle_tree_cases sha_ok_def)
qed (use assms(1) in \<open>simp add: merkle_tree_cases sha_ok_def\<close>)

text \<open>The value of a tree of at least two leaves is the hash of a node, of one leaf the hash of a leaf,
  of none the hash of the empty string, and these inputs differ in their first byte.\<close>

definition top_input :: "(string \<Rightarrow> string) \<Rightarrow> string list \<Rightarrow> string" where
  "top_input sha ds = (if ds = [] then [] else if length ds = 1 then leaf_input (hd ds) else
     let xs = map (merkle_leaf sha) ds; k = pow_below 1 (length ds) in
     CHR 0x01 # merkle_tree sha (take k xs) @ merkle_tree sha (drop k xs))"

lemma top_input_props:
  "merkle_tree sha (map (merkle_leaf sha) ds) = sha (top_input sha ds)"
  "top_input sha ds \<in> tree_inputs sha ds"
proof -
  have "merkle_tree sha (map (merkle_leaf sha) ds) = sha (top_input sha ds) \<and> top_input sha ds \<in> tree_inputs sha ds"
  proof (cases ds rule: few_cases)
    case 3
    then have "ds \<noteq> []" "length ds \<noteq> 1" by auto
    then have "top_input sha ds = CHR 0x01 # merkle_tree sha (take (pow_below 1 (length ds)) (map (merkle_leaf sha) ds))
        @ merkle_tree sha (drop (pow_below 1 (length ds)) (map (merkle_leaf sha) ds))"
      by (simp add: top_input_def Let_def)
    then show ?thesis
      using merkle_tree_more [of "map (merkle_leaf sha) ds" sha] merkle_inputs_more [of "map (merkle_leaf sha) ds" sha] 3
      by (simp add: tree_inputs_def)
  qed (simp_all add: top_input_def tree_inputs_def merkle_tree_cases merkle_inputs_cases merkle_leaf_hash)
  then show "merkle_tree sha (map (merkle_leaf sha) ds) = sha (top_input sha ds)"
    "top_input sha ds \<in> tree_inputs sha ds" by blast+
qed

lemma tree_inputs_parts:
  assumes "1 < length ds" "k = pow_below 1 (length ds)"
  shows "tree_inputs sha (take k ds) \<subseteq> tree_inputs sha ds" "tree_inputs sha (drop k ds) \<subseteq> tree_inputs sha ds"
  using assms set_take_subset [of k ds] set_drop_subset [of k ds]
  by (auto simp: tree_inputs_def merkle_inputs_cases(2) take_map drop_map)

lemma merkle_tree_binds:
  assumes "sha_ok sha" "merkle_tree sha (map (merkle_leaf sha) ds) = merkle_tree sha (map (merkle_leaf sha) es)"
    "\<not> collision_between sha (tree_inputs sha ds) (tree_inputs sha es)"
  shows "map leaf_bytes ds = map leaf_bytes es"
  using assms(2,3)
proof (induction "length ds" arbitrary: ds es rule: less_induct)
  case less
  have top: "top_input sha ds = top_input sha es"
    using no_collisionD [OF less.prems(2) top_input_props(2) top_input_props(2)] less.prems(1)
    by (simp add: top_input_props(1))
  have two: "ds = [] \<longleftrightarrow> es = []" "length ds = 1 \<longleftrightarrow> length es = 1"
    using top by (auto simp: top_input_def leaf_input_def Let_def split: if_splits)
  show ?case
  proof (cases ds rule: few_cases)
    case 1
    then show ?thesis using two by simp
  next
    case (2 d)
    then have "length es = 1" using two by simp
    then obtain e where "es = [e]" by (auto simp: length_Suc_conv)
    with 2 show ?thesis using top by (simp add: top_input_def leaf_input_def)
  next
    case True: 3
    then have es: "1 < length es" using two by (cases es rule: few_cases) auto
    define k where "k = pow_below 1 (length ds)"
    define j where "j = pow_below 1 (length es)"
    have k: "1 \<le> k" "k < length ds" using pow_below_bounds [of 1 "length ds"] True by (auto simp: k_def)
    let ?L = "\<lambda>n xs. merkle_tree sha (map (merkle_leaf sha) (take n xs))"
    let ?R = "\<lambda>n xs. merkle_tree sha (map (merkle_leaf sha) (drop n xs))"
    have "?L k ds @ ?R k ds = ?L j es @ ?R j es"
    proof -
      have "ds \<noteq> []" "length ds \<noteq> 1" "es \<noteq> []" "length es \<noteq> 1" using True es by auto
      then show ?thesis using top by (simp add: top_input_def Let_def k_def j_def take_map drop_map)
    qed
    moreover have "length (?L k ds) = 32" "length (?L j es) = 32"
      using assms(1) by (auto intro!: merkle_tree_length simp: merkle_leaf_def sha_ok_def)
    ultimately have eq: "?L k ds = ?L j es" "?R k ds = ?R j es" by simp_all
    note sub = tree_inputs_parts [OF True k_def, of sha] tree_inputs_parts [OF es j_def, of sha]
    have "map leaf_bytes (take k ds) = map leaf_bytes (take j es)"
      using less.hyps [of "take k ds" "take j es"] eq(1) no_collision_mono [OF less.prems(2) sub(1,3)] k by simp
    moreover have "map leaf_bytes (drop k ds) = map leaf_bytes (drop j es)"
      using less.hyps [of "drop k ds" "drop j es"] eq(2) no_collision_mono [OF less.prems(2) sub(2,4)] k by simp
    ultimately have "map leaf_bytes (take k ds @ drop k ds) = map leaf_bytes (take j es @ drop j es)"
      by (simp only: map_append)
    then show ?thesis by (simp only: append_take_drop_id)
  qed
qed

lemma leaf_bytes_inj: "validDigest d False \<Longrightarrow> validDigest e False \<Longrightarrow> leaf_bytes d = leaf_bytes e \<Longrightarrow> d = e"
  by (auto simp: validDigest_iff ValidDigest_iff leaf_bytes_def)

lemma MerkleRoot_Inr:
  assumes "MerkleRoot sha ds = Inr r"
  shows "r = ''sha256:'' @ hex_encode (merkle_tree sha (map (merkle_leaf sha) ds))" "\<forall>d\<in>set ds. validDigest d False"
    "len ds \<le> MaxEvents"
  using assms by (auto simp: MerkleRoot_def res_simps)

lemma hex_encode_inj: "hex_encode a = hex_encode b \<Longrightarrow> a = b"
  by (metis hex_decode_encode option.inject)

lemma merkle_root_binds:
  assumes "sha_ok sha" "MerkleRoot sha ds = Inr r" "MerkleRoot sha es = Inr r"
    "\<not> collision_between sha (tree_inputs sha ds) (tree_inputs sha es)"
  shows "ds = es"
proof -
  note d = MerkleRoot_Inr [OF assms(2)] and e = MerkleRoot_Inr [OF assms(3)]
  have "merkle_tree sha (map (merkle_leaf sha) ds) = merkle_tree sha (map (merkle_leaf sha) es)"
    using d(1) e(1) hex_encode_inj by auto
  then have m: "map leaf_bytes ds = map leaf_bytes es" using merkle_tree_binds [OF assms(1) _ assms(4)] by blast
  show ?thesis
  proof (rule nth_equalityI)
    show l: "length ds = length es" using arg_cong [OF m, of length] by simp
    fix i assume i: "i < length ds"
    then have "leaf_bytes (ds ! i) = leaf_bytes (es ! i)" using arg_cong [OF m, of "\<lambda>xs. xs ! i"] l by simp
    then show "ds ! i = es ! i" using leaf_bytes_inj d(2) e(2) i l by simp
  qed
qed

section \<open>What the chain binds\<close>

fun chained :: "'k crypto_env \<Rightarrow> int \<Rightarrow> nat \<Rightarrow> string \<Rightarrow> Event list \<Rightarrow> bool" where
  "chained env from_seq i prev [] = True"
| "chained env from_seq i prev (e # es) =
     (sequence (Event_Sequence e) = Inr (int64 (from_seq + int i)) \<and> Event_PreviousDigest e = prev \<and>
      EventDigest env prev (Event_Kind e) (Event_Payload e) = Inr (Event_Digest e) \<and>
      chained env from_seq (Suc i) (Event_Digest e) es)"

lemma build_fold:
  assumes "res_fold (build_step env from_seq) (i, prev, t, ds) es = Inr (i', prev', t', ds')"
  shows "chained env from_seq i prev es \<and> ds' = ds @ map Event_Digest es \<and>
    prev' = (if es = [] then prev else Event_Digest (last es)) \<and> t' = (if es = [] then t else Event_Sequence (last es))"
  using assms
proof (induction es arbitrary: i prev t ds)
  case (Cons e es)
  then obtain n d where s: "sequence (Event_Sequence e) = Inr n" "n = int64 (from_seq + int i)"
    "EventDigest env prev (Event_Kind e) (Event_Payload e) = Inr d" "Event_PreviousDigest e = prev" "d = Event_Digest e"
    "res_fold (build_step env from_seq) (Suc i, Event_Digest e, Event_Sequence e, ds @ [Event_Digest e]) es = Inr (i', prev', t', ds')"
    by (auto simp: build_step_def res_simps)
  from Cons.IH [OF s(6)] s show ?case by auto
qed simp

definition event_inputs :: "'k crypto_env \<Rightarrow> Event list \<Rightarrow> string set" where
  "event_inputs env es = {event_input (Event_PreviousDigest e) (Event_Kind e) b | e b. e \<in> set es \<and> CanonJSON env (Event_Payload e) = Inr b}"

definition log_inputs :: "'k crypto_env \<Rightarrow> Event list \<Rightarrow> string set" where
  "log_inputs env es = tree_inputs (Sha env) (map Event_Digest es) \<union> event_inputs env es"

text \<open>All that an observer sees of an event; the payload up to its canonical form.\<close>

definition event_view :: "'k crypto_env \<Rightarrow> Event \<Rightarrow> string \<times> string \<times> string res \<times> string \<times> string" where
  "event_view env e = (Event_Sequence e, Event_Kind e, CanonJSON env (Event_Payload e), Event_PreviousDigest e, Event_Digest e)"

lemma validDigest_genesis: "validDigest s True \<longleftrightarrow> s = Genesis \<or> ValidDigest s"
  using validDigest_iff [of s] by (simp add: validDigest_def)

lemma hex_encode_chars: "c \<in> set (hex_encode b) \<Longrightarrow> hex_val c \<noteq> None"
  by (induction b) (auto simp: hex_encode_Cons)

lemma newline_digest: "validDigest s True \<Longrightarrow> CHR 0x0A \<notin> set s"
proof -
  assume "validDigest s True"
  then consider "s = Genesis" | b where "s = ''sha256:'' @ hex_encode b"
    unfolding validDigest_genesis ValidDigest_iff by auto
  then show ?thesis
  proof cases
    case 2
    have "hex_val (CHR 0x0A) = None" by code_simp
    then have "CHR 0x0A \<notin> set (hex_encode b)" using hex_encode_chars by fastforce
    then show ?thesis using 2 by simp
  qed (simp add: Genesis_def)
qed

lemma EventDigest_Inr:
  assumes "EventDigest env prev kind payload = Inr d"
  obtains b where "CanonJSON env payload = Inr b" "d = Hash env (event_input prev kind b)"
    "CHR 0x0A \<notin> set prev" "CHR 0x0A \<notin> set kind"
  using assms that newline_digest by (auto simp: EventDigest_def res_simps)

lemma event_input_inj:
  assumes "event_input p k b = event_input p' k' b'" "CHR 0x0A \<notin> set p" "CHR 0x0A \<notin> set p'" "CHR 0x0A \<notin> set k" "CHR 0x0A \<notin> set k'"
  shows "p = p' \<and> k = k' \<and> b = b'"
  using append_sep_eq [OF assms(2,3)] append_sep_eq [OF assms(4,5)] assms(1) unfolding event_input_def by blast

lemma chained_binds:
  assumes "chained env f i prev es" "chained env f i prev es'" "map Event_Digest es = map Event_Digest es'"
    "\<not> collision_between (Sha env) (event_inputs env es) (event_inputs env es')"
  shows "map (event_view env) es = map (event_view env) es'"
  using assms
proof (induction es arbitrary: es' i prev)
  case (Cons e es)
  then obtain e' r where e': "es' = e' # r" by (cases es') auto
  obtain b where b: "CanonJSON env (Event_Payload e) = Inr b" "Event_Digest e = Hash env (event_input prev (Event_Kind e) b)"
    "CHR 0x0A \<notin> set prev" "CHR 0x0A \<notin> set (Event_Kind e)"
    using Cons.prems(1) by (auto elim: EventDigest_Inr)
  obtain b' where b': "CanonJSON env (Event_Payload e') = Inr b'" "Event_Digest e' = Hash env (event_input prev (Event_Kind e') b')"
    "CHR 0x0A \<notin> set (Event_Kind e')"
    using Cons.prems(2) e' by (auto elim: EventDigest_Inr)
  have prev: "Event_PreviousDigest e = prev" "Event_PreviousDigest e' = prev" using Cons.prems(1,2) e' by auto
  have "Sha env (event_input prev (Event_Kind e) b) = Sha env (event_input prev (Event_Kind e') b')"
    using Cons.prems(3) e' b(2) b'(2) by (simp add: Hash_def DigestBytes_inj)
  moreover have "event_input prev (Event_Kind e) b \<in> event_inputs env (e # es)"
    "event_input prev (Event_Kind e') b' \<in> event_inputs env es'"
    using b(1) b'(1) prev unfolding event_inputs_def e' by force+
  ultimately have "event_input prev (Event_Kind e) b = event_input prev (Event_Kind e') b'"
    using no_collisionD [OF Cons.prems(4)] by blast
  then have "Event_Kind e = Event_Kind e'" "b = b'" using event_input_inj b b' by blast+
  moreover have "Event_Sequence e = Event_Sequence e'"
    using Cons.prems(1,2) e' seq.print_parse [of "Event_Sequence e"] seq.print_parse [of "Event_Sequence e'"] by auto
  ultimately have head: "event_view env e = event_view env e'"
    using Cons.prems(3) e' b(1) b'(1) prev by (simp add: event_view_def)
  have "event_inputs env es \<subseteq> event_inputs env (e # es)" "event_inputs env r \<subseteq> event_inputs env es'"
    by (auto simp: event_inputs_def e')
  then have "\<not> collision_between (Sha env) (event_inputs env es) (event_inputs env r)"
    using no_collision_mono [OF Cons.prems(4)] by blast
  then have "map (event_view env) es = map (event_view env) r"
    using Cons.IH [of "Suc i" "Event_Digest e" r] Cons.prems(1-3) e' by auto
  then show ?case using head e' by simp
qed simp

lemma Build_Inr:
  assumes "Build env logID es previous issued = Inr cp"
  obtains from_seq lst priorCheckpoint priorEvent where
    "build_prior env logID previous issued = Inr (from_seq, lst, priorCheckpoint, priorEvent)"
    "chained (Crypto env) from_seq 0 priorEvent es" "MerkleRoot (Sha (Crypto env)) (map Event_Digest es) = Inr (CP_MerkleRoot cp)"
    "CP_PreviousCheckpointDigest cp = priorCheckpoint" "CP_LogID cp = logID" "CP_IssuedAt cp = issued"
    "CP_LastEventDigest cp = (if es = [] then priorEvent else Event_Digest (last es))"
    "CP_FromSequence cp = show_int from_seq"
proof -
  obtain f l pc pe i ld t ds root where p: "build_prior env logID previous issued = Inr (f, l, pc, pe)"
    and fd: "res_fold (build_step (Crypto env) f) (0, pe, show_int l, []) es = Inr (i, ld, t, ds)"
    and r: "MerkleRoot (Sha (Crypto env)) ds = Inr root"
    and cp: "cp = \<lparr>CP_APIVersion = APIVersion, CP_Kind = ''AuditCheckpoint'', CP_LogID = logID,
           CP_FromSequence = show_int f, CP_ToSequence = t, CP_PreviousCheckpointDigest = pc,
           CP_PreviousEventDigest = pe, CP_LastEventDigest = ld, CP_MerkleRoot = root, CP_IssuedAt = issued\<rparr>"
    using assms by (auto simp: Build_def res_simps)
  show ?thesis using that [OF p] build_fold [OF fd] r cp by auto
qed

lemma prior_unique:
  assumes "build_prior env l previous t = Inr (f, a, c, p)" "build_prior env l' previous t' = Inr (f', a', c', p')"
  shows "f = f'" "c = c'" "p = p'"
  using assms by (auto simp: build_prior_def res_simps split: option.splits)

lemma events_bound:
  assumes "sha_ok (Sha (Crypto env))" "Build env l es previous t = Inr cp" "Build env l' es' previous t' = Inr cp'"
    "CP_MerkleRoot cp = CP_MerkleRoot cp'"
    "\<not> collision_between (Sha (Crypto env)) (log_inputs (Crypto env) es) (log_inputs (Crypto env) es')"
  shows "map (event_view (Crypto env)) es = map (event_view (Crypto env)) es'"
proof (rule Build_Inr [OF assms(2)], rule Build_Inr [OF assms(3)])
  fix f a c p f' a' c' p'
  assume p: "build_prior env l previous t = Inr (f, a, c, p)" "build_prior env l' previous t' = Inr (f', a', c', p')"
    and ch: "chained (Crypto env) f 0 p es" "chained (Crypto env) f' 0 p' es'"
    and m: "MerkleRoot (Sha (Crypto env)) (map Event_Digest es) = Inr (CP_MerkleRoot cp)"
      "MerkleRoot (Sha (Crypto env)) (map Event_Digest es') = Inr (CP_MerkleRoot cp')"
  have "map Event_Digest es = map Event_Digest es'"
    using merkle_root_binds [OF assms(1) m(1)] m(2) assms(4) no_collision_mono [OF assms(5)]
    by (simp add: log_inputs_def)
  moreover have "\<not> collision_between (Sha (Crypto env)) (event_inputs (Crypto env) es) (event_inputs (Crypto env) es')"
    by (rule no_collision_mono [OF assms(5)]) (auto simp: log_inputs_def)
  ultimately show ?thesis using chained_binds ch prior_unique [OF p] by metis
qed

section \<open>What an accepted checkpoint says\<close>

definition json_roundtrip :: "'k audit_env \<Rightarrow> bool" where
  "json_roundtrip env \<longleftrightarrow> (\<forall>c b. CheckpointJSON env c = Inr b \<longrightarrow> DecodeCheckpoint env b = Inr c)"

text \<open>The byte strings hashed when a verifier compares \<open>cp\<close> with the checkpoint it expects.\<close>

definition compared_inputs :: "'k audit_env \<Rightarrow> Checkpoint \<Rightarrow> Event list \<Rightarrow> Checkpoint option \<Rightarrow> string set" where
  "compared_inputs env cp events previous =
     {b. CheckpointJSON env cp = Inr b} \<union>
     {b. \<exists>x. Build env (CP_LogID cp) events previous (CP_IssuedAt cp) = Inr x \<and> CheckpointJSON env x = Inr b}"

lemma must_digest_eq:
  assumes "json_roundtrip env" "CheckpointJSON env x = Inr b" "mustDigest env x = mustDigest env y"
    "\<not> collision_between (Sha (Crypto env)) {b} {c. CheckpointJSON env y = Inr c}"
  shows "x = y"
proof -
  have "mustDigest env x = Hash (Crypto env) b" using assms(2) by (simp add: mustDigest_def CanonicalDigest_def)
  moreover have "Hash (Crypto env) b \<noteq> []" by (simp add: Hash_def DigestBytes_def)
  ultimately obtain c where c: "CheckpointJSON env y = Inr c" "Hash (Crypto env) b = Hash (Crypto env) c"
    using assms(3) by (cases "CheckpointJSON env y") (auto simp: mustDigest_def CanonicalDigest_def)
  then have "Sha (Crypto env) b = Sha (Crypto env) c" by (simp add: Hash_def DigestBytes_inj)
  then have "b = c" using assms(4) c(1) unfolding collision_between_def by auto
  then show ?thesis using assms(1,2) c(1) unfolding json_roundtrip_def by (metis Inr_inject)
qed

lemma accepted_is_built:
  assumes "json_roundtrip env" "VerifyCheckpoint env e keys events previous now = Inr cp" "is_ok (CheckpointJSON env cp)"
    "\<not> collision_between (Sha (Crypto env)) (compared_inputs env cp events previous) (compared_inputs env cp events previous)"
  shows "Build env (CP_LogID cp) events previous (CP_IssuedAt cp) = Inr cp"
proof -
  obtain x where x: "Build env (CP_LogID cp) events previous (CP_IssuedAt cp) = Inr x" "mustDigest env cp = mustDigest env x"
    using assms(2) by (auto simp: VerifyCheckpoint_def res_simps)
  obtain b where b: "CheckpointJSON env cp = Inr b" using assms(3) by (auto simp: is_ok_iff)
  have "\<not> collision_between (Sha (Crypto env)) {b} {c. CheckpointJSON env x = Inr c}"
    by (rule no_collision_mono [OF assms(4)]) (use b x(1) in \<open>auto simp: compared_inputs_def\<close>)
  then have "cp = x" by (rule must_digest_eq [OF assms(1) b x(2)])
  then show ?thesis using x(1) by simp
qed

definition verifier_inputs :: "'k audit_env \<Rightarrow> Checkpoint \<Rightarrow> Event list \<Rightarrow> Checkpoint option \<Rightarrow> string set" where
  "verifier_inputs env cp events previous = compared_inputs env cp events previous \<union> log_inputs (Crypto env) events"

lemma same_checkpoint_same_events:
  assumes "json_roundtrip env" "sha_ok (Sha (Crypto env))" "is_ok (CheckpointJSON env cp)"
    "VerifyCheckpoint env e1 keys1 events1 previous now1 = Inr cp" "VerifyCheckpoint env e2 keys2 events2 previous now2 = Inr cp"
    "\<not> collision_between (Sha (Crypto env)) (verifier_inputs env cp events1 previous \<union> verifier_inputs env cp events2 previous)
       (verifier_inputs env cp events1 previous \<union> verifier_inputs env cp events2 previous)"
  shows "map (event_view (Crypto env)) events1 = map (event_view (Crypto env)) events2"
proof (rule events_bound [OF assms(2)])
  have sub: "compared_inputs env cp es previous \<subseteq> verifier_inputs env cp es previous"
    "log_inputs (Crypto env) es \<subseteq> verifier_inputs env cp es previous" for es
    by (auto simp: verifier_inputs_def)
  show "Build env (CP_LogID cp) events1 previous (CP_IssuedAt cp) = Inr cp"
    by (rule accepted_is_built [OF assms(1,4,3) no_collision_mono [OF assms(6)]]) (use sub in blast)+
  show "Build env (CP_LogID cp) events2 previous (CP_IssuedAt cp) = Inr cp"
    by (rule accepted_is_built [OF assms(1,5,3) no_collision_mono [OF assms(6)]]) (use sub in blast)+
  show "\<not> collision_between (Sha (Crypto env)) (log_inputs (Crypto env) events1) (log_inputs (Crypto env) events2)"
    by (rule no_collision_mono [OF assms(6)]) (use sub in blast)+
qed simp

section \<open>What a quorum says\<close>

lemma quorum_fold:
  assumes "res_fold (quorum_step env keys) (A, F) ops = Inr (A', F')"
  shows "distinct (map snd ops) \<and> snd ` set ops \<inter> A = {} \<and>
    (\<forall>(k, a) \<in> set ops. \<forall>key. lookup keys k = Some key \<longrightarrow> (\<exists>f. Fingerprint env key = Inr f \<and> f \<notin> F \<and> f \<in> F')) \<and> F \<subseteq> F' \<and>
    (\<forall>i < length ops. \<forall>j < i. \<forall>x y. lookup keys (fst (ops ! i)) = Some x \<longrightarrow> lookup keys (fst (ops ! j)) = Some y \<longrightarrow>
       Fingerprint env x \<noteq> Fingerprint env y)"
  using assms
proof (induction ops arbitrary: A F)
  case (Cons op ops)
  obtain k a where op: "op = (k, a)" by (cases op)
  obtain B G where s: "quorum_step env keys (A, F) (k, a) = Inr (B, G)" "res_fold (quorum_step env keys) (B, G) ops = Inr (A', F')"
    using Cons.prems op by (auto simp: res_simps)
  note IH = Cons.IH [OF s(2)]
  have step: "a \<notin> A" "B = insert a A" "F \<subseteq> G"
    "lookup keys k = Some key \<Longrightarrow> \<exists>f. Fingerprint env key = Inr f \<and> f \<notin> F \<and> f \<in> G" for key
    using s(1) by (auto simp: quorum_step_def res_simps split: option.splits)
  have nth: "\<forall>i < length (op # ops). \<forall>j < i. \<forall>x y. lookup keys (fst ((op # ops) ! i)) = Some x \<longrightarrow>
      lookup keys (fst ((op # ops) ! j)) = Some y \<longrightarrow> Fingerprint env x \<noteq> Fingerprint env y"
  proof (intro allI impI)
    fix i j x y
    assume i: "i < length (op # ops)" "j < i" and x: "lookup keys (fst ((op # ops) ! i)) = Some x"
      and y: "lookup keys (fst ((op # ops) ! j)) = Some y"
    obtain n where n: "i = Suc n" "n < length ops" using i by (cases i) auto
    show "Fingerprint env x \<noteq> Fingerprint env y"
    proof (cases j)
      case 0
      obtain f where f: "Fingerprint env x = Inr f" "f \<notin> G"
        using IH n x nth_mem [OF n(2)] by (cases "ops ! n") fastforce
      moreover have "\<exists>g. Fingerprint env y = Inr g \<and> g \<in> G" using step(4) [of y] y 0 op by auto
      ultimately show ?thesis by auto
    next
      case (Suc m)
      then show ?thesis using IH n x y i(2) by auto
    qed
  qed
  have "\<forall>(k, a) \<in> set (op # ops). \<forall>key. lookup keys k = Some key \<longrightarrow> (\<exists>f. Fingerprint env key = Inr f \<and> f \<notin> F \<and> f \<in> F')"
    using IH step op by fastforce
  then show ?case using IH step(1,2,3) op nth by auto
qed simp

lemma quorum_fold_distinct:
  assumes "res_fold (quorum_step env keys) (A, F) ops = Inr (A', F')" "i < length ops" "j < i"
    "lookup keys (fst (ops ! i)) = Some x" "lookup keys (fst (ops ! j)) = Some y"
  shows "Fingerprint env x \<noteq> Fingerprint env y"
  using quorum_fold [OF assms(1)] assms(2-5) by blast

definition endorses :: "'k crypto_env \<Rightarrow> Envelope \<Rightarrow> Envelope list \<Rightarrow> string \<Rightarrow> 'k \<Rightarrow> bool" where
  "endorses env platform witnesses kid key \<longleftrightarrow>
     (\<exists>w\<in>set witnesses. \<exists>sig\<in>set (Envelope_Signatures w). \<exists>payload. Signature_KeyID sig = kid \<and>
        Envelope_Payload w = Envelope_Payload platform \<and> b64_decode (Envelope_Payload platform) = Some payload \<and>
        signature_valid env PayloadType payload key (Signature_Sig sig))"

lemma votes_of_iff:
  "op \<in> set (votes_of env keys operators envelope sig) \<longleftrightarrow> op \<noteq> [] \<and> lookup operators (Signature_KeyID sig) = Some op \<and>
     (\<exists>key. lookup keys (Signature_KeyID sig) = Some key \<and>
        is_ok (Verify env (envelope\<lparr>Envelope_Signatures := [sig]\<rparr>) [(Signature_KeyID sig, key)]))"
proof (cases "lookup keys (Signature_KeyID sig)")
  case (Some key)
  then show ?thesis
    unfolding votes_of_def by (simp only: option.case, split option.split, simp, blast)
qed (simp add: votes_of_def)

lemma vote_endorses:
  assumes "op \<in> set (quorum_votes env platform witnesses keys operators)"
  obtains kid key where "lookup operators kid = Some op" "lookup keys kid = Some key" "endorses env platform witnesses kid key"
proof -
  obtain w sig where w: "w \<in> set witnesses" "Envelope_Payload w = Envelope_Payload platform" "sig \<in> set (Envelope_Signatures w)"
    "op \<in> set (votes_of env keys operators w sig)"
    using assms by (auto simp: quorum_votes_def split: if_splits)
  obtain key where k: "lookup keys (Signature_KeyID sig) = Some key" "lookup operators (Signature_KeyID sig) = Some op"
    "is_ok (Verify env (w\<lparr>Envelope_Signatures := [sig]\<rparr>) [(Signature_KeyID sig, key)])"
    using w(4) unfolding votes_of_iff by blast
  then obtain payload where p: "Verify env (w\<lparr>Envelope_Signatures := [sig]\<rparr>) [(Signature_KeyID sig, key)] = Inr payload"
    by (auto simp: is_ok_iff)
  have "endorses env platform witnesses (Signature_KeyID sig) key"
    using Verify_Inr(1,5) [OF p] w unfolding endorses_def by (auto split: if_splits)
  then show thesis using that k by blast
qed

lemma two_of: "distinct xs \<Longrightarrow> 2 \<le> length xs \<Longrightarrow> \<exists>x y. x \<in> set xs \<and> y \<in> set xs \<and> x \<noteq> y"
  by (cases xs; cases "tl xs") auto

lemma quorum_members:
  assumes "VerifyQuorum env platform witnesses keys operators quorum = Inr ()"
  obtains k1 k2 op1 op2 key1 key2 where "op1 \<noteq> op2" "lookup operators k1 = Some op1" "lookup operators k2 = Some op2"
    "lookup keys k1 = Some key1" "lookup keys k2 = Some key2" "Fingerprint env key1 \<noteq> Fingerprint env key2"
    "endorses env platform witnesses k1 key1" "endorses env platform witnesses k2 key2"
proof -
  obtain A F where f: "res_fold (quorum_step env keys) ({}, {}) operators = Inr (A, F)"
    and "2 \<le> len (quorum_votes env platform witnesses keys operators)"
    using assms by (auto simp: VerifyQuorum_def Let_def res_simps not_less split: if_splits)
  then have q: "2 \<le> length (quorum_votes env platform witnesses keys operators)" by (simp add: len_def)
  have "distinct (quorum_votes env platform witnesses keys operators)" by (simp add: quorum_votes_def)
  then obtain op1 op2 where ops: "op1 \<noteq> op2" "op1 \<in> set (quorum_votes env platform witnesses keys operators)"
    "op2 \<in> set (quorum_votes env platform witnesses keys operators)" using two_of [of "quorum_votes env platform witnesses keys operators"] q
    by blast
  show thesis
  proof (rule vote_endorses [OF ops(2)], rule vote_endorses [OF ops(3)])
    fix k1 key1 k2 key2
    assume h: "lookup operators k1 = Some op1" "lookup keys k1 = Some key1" "endorses env platform witnesses k1 key1"
      "lookup operators k2 = Some op2" "lookup keys k2 = Some key2" "endorses env platform witnesses k2 key2"
    obtain i j where ij: "i < length operators" "operators ! i = (k1, op1)" "j < length operators" "operators ! j = (k2, op2)"
      using h(1,4) by (metis in_set_conv_nth map_of_SomeD)
    then consider "j < i" | "i < j" using ops(1) by (cases i j rule: linorder_cases) auto
    then have "Fingerprint env key1 \<noteq> Fingerprint env key2"
    proof cases
      case 1
      then show ?thesis using quorum_fold_distinct [OF f ij(1) 1] ij h(2,5) by simp
    next
      case 2
      then show ?thesis using quorum_fold_distinct [OF f ij(3) 2] ij h(2,5) by (simp add: eq_commute)
    qed
    then show thesis using that ops(1) h by blast
  qed
qed

section \<open>Properties\<close>

text \<open>A Merkle root determines the list of leaves, its order and its length included: two lists with the same
  root are equal, or two different byte strings hashed on the way to the two roots have the same hash.\<close>

theorem MerkleRoot_binds:
  assumes "sha_ok sha" "MerkleRoot sha ds = Inr r" "MerkleRoot sha es = Inr r"
  shows "ds = es \<or> collision_between sha (tree_inputs sha ds) (tree_inputs sha es)"
  using merkle_root_binds [OF assms] by blast

text \<open>C33: a checkpoint commits to its interval.  Two observers who hold the same predecessor and accept the same
  checkpoint have seen the same events, sequence numbers, kinds, canonical payloads and digests, or the byte
  strings they hashed contain a collision.  The JSON codec of checkpoints is assumed to round trip.\<close>

theorem VerifyCheckpoint_binds:
  assumes "json_roundtrip env" "sha_ok (Sha (Crypto env))" "is_ok (CheckpointJSON env cp)"
    and "VerifyCheckpoint env e1 keys1 events1 previous now1 = Inr cp"
    and "VerifyCheckpoint env e2 keys2 events2 previous now2 = Inr cp"
  shows "map (event_view (Crypto env)) events1 = map (event_view (Crypto env)) events2 \<or>
    collision_between (Sha (Crypto env)) (verifier_inputs env cp events1 previous \<union> verifier_inputs env cp events2 previous)
       (verifier_inputs env cp events1 previous \<union> verifier_inputs env cp events2 previous)"
  using same_checkpoint_same_events [OF assms] by blast

text \<open>An accepted quorum contains two witness keys with different operators and different fingerprints, both
  configured, whose signatures verify over the payload of the platform's envelope.\<close>

theorem VerifyQuorum_sound:
  assumes "VerifyQuorum env platform witnesses keys operators quorum = Inr ()"
  shows "\<exists>k1 k2 op1 op2 key1 key2. op1 \<noteq> op2 \<and> lookup operators k1 = Some op1 \<and> lookup operators k2 = Some op2 \<and>
    lookup keys k1 = Some key1 \<and> lookup keys k2 = Some key2 \<and> Fingerprint env key1 \<noteq> Fingerprint env key2 \<and>
    endorses env platform witnesses k1 key1 \<and> endorses env platform witnesses k2 key2"
proof (rule quorum_members [OF assms])
qed blast

definition demo_sha :: "string \<Rightarrow> string" where
  "demo_sha x = take 32 (x @ replicate 32 (CHR 0x00))"

lemma demo_sha_ok: "sha_ok demo_sha"
  by (auto simp: sha_ok_def demo_sha_def min_def)

definition demo_event :: Event where
  "demo_event = \<lparr>Event_Sequence = ''1'', Event_Kind = ''boot'', Event_Payload = ''{}'', Event_PreviousDigest = Genesis,
     Event_Digest = DigestBytes demo_sha (event_input Genesis ''boot'' ''{}'')\<rparr>"

definition demo_checkpoint :: Checkpoint where
  "demo_checkpoint = \<lparr>CP_APIVersion = APIVersion, CP_Kind = ''AuditCheckpoint'', CP_LogID = ''log'',
     CP_FromSequence = ''1'', CP_ToSequence = ''1'', CP_PreviousCheckpointDigest = Genesis, CP_PreviousEventDigest = Genesis,
     CP_LastEventDigest = Event_Digest demo_event,
     CP_MerkleRoot = (case MerkleRoot demo_sha [Event_Digest demo_event] of Inl _ \<Rightarrow> [] | Inr r \<Rightarrow> r), CP_IssuedAt = 1000\<rparr>"

definition demo_audit :: "string audit_env" where
  "demo_audit = \<lparr>Crypto = demo_crypto\<lparr>Sha := demo_sha\<rparr>,
     CheckpointJSON = (\<lambda>c. if c = demo_checkpoint then Inr ''{cp}'' else Inl (Err ''marshal'')),
     DecodeCheckpoint = (\<lambda>b. if b = ''{cp}'' then Inr demo_checkpoint else Inl (Err ''decode''))\<rparr>"

definition demo_sealed :: "string \<Rightarrow> Envelope" where
  "demo_sealed kid = \<lparr>Envelope_PayloadType = PayloadType, Envelope_Payload = b64_encode ''{cp}'',
     Envelope_Signatures = [\<lparr>Signature_KeyID = kid,
       Signature_Sig = b64_encode (kid @ demo_sha (pae PayloadType ''{cp}''))\<rparr>]\<rparr>"

lemma demo_roundtrip: "json_roundtrip demo_audit"
  by (auto simp: json_roundtrip_def demo_audit_def split: if_splits)

theorem MerkleRoot_binds_witness:
  "\<exists>r. MerkleRoot demo_sha [Event_Digest demo_event, Event_Digest demo_event] = Inr r \<and>
     ([Event_Digest demo_event, Event_Digest demo_event] = [Event_Digest demo_event, Event_Digest demo_event] \<or>
      collision_between demo_sha (tree_inputs demo_sha [Event_Digest demo_event, Event_Digest demo_event])
        (tree_inputs demo_sha [Event_Digest demo_event, Event_Digest demo_event])) \<and> sha_ok demo_sha"
proof -
  have "is_ok (MerkleRoot demo_sha [Event_Digest demo_event, Event_Digest demo_event])" by code_simp
  then obtain r where "MerkleRoot demo_sha [Event_Digest demo_event, Event_Digest demo_event] = Inr r"
    by (auto simp: is_ok_iff)
  then show ?thesis using MerkleRoot_binds [OF demo_sha_ok] demo_sha_ok by blast
qed

theorem VerifyCheckpoint_binds_witness:
  "\<exists>now. VerifyCheckpoint demo_audit (demo_sealed ''root'') [(''root'', ''root'')] [demo_event] None now = Inr demo_checkpoint \<and>
     sha_ok (Sha (Crypto demo_audit)) \<and> json_roundtrip demo_audit"
proof -
  have "case VerifyCheckpoint demo_audit (demo_sealed ''root'') [(''root'', ''root'')] [demo_event] None 2000 of
      Inl _ \<Rightarrow> False | Inr c \<Rightarrow> c = demo_checkpoint" by code_simp
  then have v: "VerifyCheckpoint demo_audit (demo_sealed ''root'') [(''root'', ''root'')] [demo_event] None 2000 = Inr demo_checkpoint"
    by (auto split: sum.splits)
  have s: "sha_ok (Sha (Crypto demo_audit))" by (simp add: demo_audit_def demo_sha_ok)
  have "is_ok (CheckpointJSON demo_audit demo_checkpoint)" by (simp add: demo_audit_def)
  from VerifyCheckpoint_binds [OF demo_roundtrip s this v v] show ?thesis using v s demo_roundtrip by blast
qed

theorem VerifyQuorum_sound_witness:
  "VerifyQuorum (Crypto demo_audit) (demo_sealed ''root'') [demo_sealed ''w1'', demo_sealed ''w2'']
     [(''w1'', ''w1''), (''w2'', ''w2'')] [(''w1'', ''alice''), (''w2'', ''bob''), (''w3'', ''carol'')] 2 = Inr () \<and>
   (\<exists>k key. endorses (Crypto demo_audit) (demo_sealed ''root'') [demo_sealed ''w1'', demo_sealed ''w2''] k key)"
proof -
  have "is_ok (VerifyQuorum (Crypto demo_audit) (demo_sealed ''root'') [demo_sealed ''w1'', demo_sealed ''w2'']
     [(''w1'', ''w1''), (''w2'', ''w2'')] [(''w1'', ''alice''), (''w2'', ''bob''), (''w3'', ''carol'')] 2)" by code_simp
  then have "VerifyQuorum (Crypto demo_audit) (demo_sealed ''root'') [demo_sealed ''w1'', demo_sealed ''w2'']
     [(''w1'', ''w1''), (''w2'', ''w2'')] [(''w1'', ''alice''), (''w2'', ''bob''), (''w3'', ''carol'')] 2 = Inr ()"
    by (auto simp: is_ok_iff)
  with VerifyQuorum_sound [OF this] show ?thesis by blast
qed

end
