(* ===== verification/History.thy ===== *)
theory History
  imports Checkpoint
begin

text \<open>
  The root-signed key history (\<open>internal/audit/history.go\<close>): delegations, witness membership, the
  verification of one history against its predecessor, the keys and operators in force at a time, the
  chain loaded by the platform (\<open>loadTrust\<close> in \<open>internal/platform/audit.go\<close>), and the release attestation
  (\<open>internal/audit/release.go\<close>).

  The linked list of \<open>witnessMembership\<close> is a list.  \<open>priorWitnesses\<close> is not exported, so it is not part of
  the JSON: the decoder leaves it empty and the digest of a history ignores it.
\<close>

record Delegation =
  Del_KeyID :: string
  Del_PublicKeyPEM :: string
  Del_Roles :: "string list"
  Del_NotBefore :: go_time
  Del_NotAfter :: go_time
  Del_RevokedAt :: "go_time option"
  Del_HostID :: string
  Del_Custody :: string

record WitnessIdentity =
  WI_KeyID :: string
  WI_Operator :: string

record witnessMembership =
  WM_issuedAt :: go_time
  WM_witnesses :: "WitnessIdentity list"
  WM_genesis :: bool

record History =
  H_APIVersion :: string
  H_Kind :: string
  H_RootFingerprint :: string
  H_PreviousDigest :: string
  H_GenesisCheckpointDigest :: string
  H_IssuedAt :: go_time
  H_Delegations :: "Delegation list"
  H_Witnesses :: "WitnessIdentity list"
  H_WitnessQuorum :: int
  H_OutageGraceSeconds :: int
  H_priorWitnesses :: "witnessMembership list"

text \<open>The external code: cryptography and the JSON codecs of the two document types.\<close>

record 'k history_env =
  HCrypto :: "'k crypto_env"
  HistoryJSON :: "History \<Rightarrow> string res"
  DecodeHistory :: "string \<Rightarrow> History res"
  DelegationJSON :: "Delegation \<Rightarrow> string res"

section \<open>Keys\<close>

definition ParsePublicKey :: "'k crypto_env \<Rightarrow> string \<Rightarrow> 'k res" where
  "ParsePublicKey env text =
     (case PemDecode env text of
        None \<Rightarrow> Inl (Err ''exactly one public-key PEM is required'')
      | Some (kind, bytes, rest) \<Rightarrow>
        fail_if (kind \<noteq> ''PUBLIC KEY'' \<or> trim_space rest \<noteq> []) ''exactly one public-key PEM is required''
        (res_bind (or_else (ParsePKIX env bytes) (Err ''P-256 public key required'')) (\<lambda>key.
         fail_if (\<not> IsP256 env key) ''P-256 public key required'' (Inr key))))"

text \<open>A digest whose error is dropped is the empty string.\<close>

definition digest_or_empty :: "'k crypto_env \<Rightarrow> string res \<Rightarrow> string" where
  "digest_or_empty env json = (case CanonicalDigest env json of Inl _ \<Rightarrow> [] | Inr d \<Rightarrow> d)"

definition fingerprint_or_empty :: "'k crypto_env \<Rightarrow> 'k \<Rightarrow> string" where
  "fingerprint_or_empty env key = (case Fingerprint env key of Inl _ \<Rightarrow> [] | Inr f \<Rightarrow> f)"

definition HistoryDigest :: "'k history_env \<Rightarrow> History \<Rightarrow> string" where
  "HistoryDigest env h = digest_or_empty (HCrypto env) (HistoryJSON env (h\<lparr>H_priorWitnesses := []\<rparr>))"

section \<open>Verification\<close>

definition delegable_roles :: "string list" where
  "delegable_roles = [''control-plane-receipt'', ''audit-checkpoint'', ''validation-run'', ''audit-witness'']"

definition role_step :: "string set \<Rightarrow> string \<Rightarrow> string set res" where
  "role_step seen role =
     fail_if (\<not> List.member delegable_roles role) ''unsupported delegated role''
     (fail_if (role \<in> seen) ''duplicate key role'' (Inr (insert role seen)))"

record delegation_state =
  DS_keys :: "string set"
  DS_fingerprints :: "string set"
  DS_roles :: "(string, string set) gomap"

definition delegation_step ::
    "'k crypto_env \<Rightarrow> go_time \<Rightarrow> delegation_state \<Rightarrow> Delegation \<Rightarrow> delegation_state res" where
  "delegation_step env issuedAt st d =
     res_bind (ParsePublicKey env (Del_PublicKeyPEM d)) (\<lambda>key.
     let f = fingerprint_or_empty env key in
     fail_if (Del_KeyID d = [] \<or> Del_KeyID d \<in> DS_keys st \<or> f \<in> DS_fingerprints st
         \<or> \<not> Del_NotBefore d < Del_NotAfter d \<or> Del_Custody d = [] \<or> Del_Roles d = [])
       ''invalid or duplicate key delegation''
     (fail_if (case Del_RevokedAt d of None \<Rightarrow> False | Some r \<Rightarrow> r < Del_NotBefore d \<or> r > issuedAt)
       ''invalid revocation effective time''
     (res_bind (res_fold role_step {} (Del_Roles d)) (\<lambda>roles.
      fail_if (''validation-run'' \<in> roles \<and> (Del_HostID d = [] \<or> len (Del_Roles d) \<noteq> 1))
        ''runner key must be bound to one host and validation-run role''
      (fail_if (''audit-witness'' \<in> roles \<and> len (Del_Roles d) \<noteq> 1)
        ''witness keys must have only the witness role''
      (Inr (st\<lparr>DS_keys := insert (Del_KeyID d) (DS_keys st), DS_fingerprints := insert f (DS_fingerprints st),
          DS_roles := gomap_put (Del_KeyID d) roles (DS_roles st)\<rparr>)))))))"

definition has_role :: "(string, string set) gomap \<Rightarrow> string \<Rightarrow> string \<Rightarrow> bool" where
  "has_role roles kid role = (case lookup roles kid of None \<Rightarrow> False | Some r \<Rightarrow> role \<in> r)"

definition witness_step ::
    "(string, string set) gomap \<Rightarrow> string set \<times> string set \<Rightarrow> WitnessIdentity \<Rightarrow> (string set \<times> string set) res" where
  "witness_step roles = (\<lambda>(operators, ids) w.
     fail_if (WI_Operator w = [] \<or> WI_Operator w \<in> operators \<or> WI_KeyID w \<in> ids \<or> \<not> has_role roles (WI_KeyID w) ''audit-witness'')
       ''three distinct independently operated witness keys required''
     (Inr (insert (WI_Operator w) operators, insert (WI_KeyID w) ids)))"

text \<open>\<open>current\<close> is the map filled in a loop, so a later delegation of the same key would win.\<close>

definition current_delegations :: "Delegation list \<Rightarrow> (string, Delegation) gomap" where
  "current_delegations ds = foldl (\<lambda>m d. gomap_put (Del_KeyID d) d m) [] ds"

definition retained :: "'k history_env \<Rightarrow> (string, Delegation) gomap \<Rightarrow> Delegation \<Rightarrow> unit res" where
  "retained env current old =
     (case lookup current (Del_KeyID old) of
        None \<Rightarrow> Inl (Err ''key history cannot discard historical delegations'')
      | Some d \<Rightarrow>
        fail_if (digest_or_empty (HCrypto env) (DelegationJSON env (old\<lparr>Del_RevokedAt := None\<rparr>))
            \<noteq> digest_or_empty (HCrypto env) (DelegationJSON env (d\<lparr>Del_RevokedAt := None\<rparr>)))
          ''existing delegation cannot be rewritten''
        (fail_if (Del_RevokedAt old \<noteq> None \<and> Del_RevokedAt d \<noteq> Del_RevokedAt old)
          ''a revocation cannot be withdrawn or rewritten'' (Inr ())))"

definition check_chain :: "'k history_env \<Rightarrow> History \<Rightarrow> History option \<Rightarrow> unit res" where
  "check_chain env h previous =
     (case previous of
        None \<Rightarrow> fail_if (H_PreviousDigest h \<noteq> Genesis) ''key-history bootstrap gap'' (Inr ())
      | Some p \<Rightarrow>
        fail_if (H_PreviousDigest h \<noteq> HistoryDigest env p \<or> H_IssuedAt h < H_IssuedAt p
            \<or> H_GenesisCheckpointDigest h \<noteq> H_GenesisCheckpointDigest p \<or> H_RootFingerprint h \<noteq> H_RootFingerprint p)
          ''broken key-history chain'' (Inr ()))"

definition link_previous :: "'k history_env \<Rightarrow> History \<Rightarrow> History option \<Rightarrow> History res" where
  "link_previous env h previous =
     (case previous of
        None \<Rightarrow> Inr h
      | Some p \<Rightarrow>
        res_bind (res_each (retained env (current_delegations (H_Delegations h))) (H_Delegations p)) (\<lambda>_.
        Inr (h\<lparr>H_priorWitnesses := \<lparr>WM_issuedAt = H_IssuedAt p, WM_witnesses = H_Witnesses p,
            WM_genesis = (H_PreviousDigest p = Genesis)\<rparr> # H_priorWitnesses p\<rparr>)))"

definition VerifyHistory ::
    "'k history_env \<Rightarrow> Envelope \<Rightarrow> string \<Rightarrow> 'k \<Rightarrow> History option \<Rightarrow> go_time \<Rightarrow> History res" where
  "VerifyHistory env envelope rootID rootKey previous now =
     res_bind (Verify (HCrypto env) envelope [(rootID, rootKey)]) (\<lambda>b.
     res_bind (DecodeHistory env b) (\<lambda>decoded.
     let h = decoded\<lparr>H_priorWitnesses := []\<rparr> in
     res_bind (Fingerprint (HCrypto env) rootKey) (\<lambda>fingerprint.
     fail_if (H_APIVersion h \<noteq> APIVersion \<or> H_Kind h \<noteq> ''KeyHistory'' \<or> H_RootFingerprint h \<noteq> fingerprint
         \<or> H_IssuedAt h = 0 \<or> H_IssuedAt h > now + 5 * 60 * 1000000000 \<or> \<not> validDigest (H_GenesisCheckpointDigest h) False
         \<or> H_WitnessQuorum h \<noteq> 2 \<or> H_OutageGraceSeconds h \<noteq> 3600 \<or> len (H_Witnesses h) \<noteq> 3)
       ''key history violates pinned MVP bootstrap policy''
     (res_bind (check_chain env h previous) (\<lambda>_.
      res_bind (res_fold (delegation_step (HCrypto env) (H_IssuedAt h))
        \<lparr>DS_keys = {}, DS_fingerprints = {fingerprint}, DS_roles = []\<rparr> (H_Delegations h)) (\<lambda>st.
      res_bind (res_fold (witness_step (DS_roles st)) ({}, {}) (H_Witnesses h)) (\<lambda>_.
      link_previous env h previous)))))))"

section \<open>What is in force at a time\<close>

definition active_at :: "go_time \<Rightarrow> Delegation \<Rightarrow> bool" where
  "active_at t d = (\<not> (t < Del_NotBefore d \<or> \<not> t < Del_NotAfter d
     \<or> (case Del_RevokedAt d of None \<Rightarrow> False | Some r \<Rightarrow> \<not> t < r)))"

definition keys_step ::
    "'k crypto_env \<Rightarrow> string \<Rightarrow> go_time \<Rightarrow> (string, 'k) gomap \<Rightarrow> Delegation \<Rightarrow> (string, 'k) gomap" where
  "keys_step env role t keys d =
     (if \<not> active_at t d then keys else
      foldl (\<lambda>keys r. if r = role then
          (case ParsePublicKey env (Del_PublicKeyPEM d) of Inl _ \<Rightarrow> keys | Inr key \<Rightarrow> gomap_put (Del_KeyID d) key keys)
        else keys) keys (Del_Roles d))"

definition KeysAt :: "'k crypto_env \<Rightarrow> History \<Rightarrow> string \<Rightarrow> go_time \<Rightarrow> (string, 'k) gomap" where
  "KeysAt env h role t = foldl (keys_step env role t) [] (H_Delegations h)"

definition operators_of :: "WitnessIdentity list \<Rightarrow> (string, string) gomap" where
  "operators_of ws = foldl (\<lambda>m w. gomap_put (WI_KeyID w) (WI_Operator w) m) [] ws"

definition WitnessOperators :: "History \<Rightarrow> (string, string) gomap" where
  "WitnessOperators h = operators_of (H_Witnesses h)"

text \<open>The loop walks back to the epoch in force.\<close>

fun epoch_at :: "go_time \<Rightarrow> go_time \<times> WitnessIdentity list \<times> bool \<Rightarrow> witnessMembership list \<Rightarrow> go_time \<times> WitnessIdentity list \<times> bool" where
  "epoch_at t (issuedAt, ws, genesis) [] = (issuedAt, ws, genesis)"
| "epoch_at t (issuedAt, ws, genesis) (p # ps) =
     (if t < issuedAt then epoch_at t (WM_issuedAt p, WM_witnesses p, WM_genesis p) ps else (issuedAt, ws, genesis))"

definition WitnessOperatorsAt :: "History \<Rightarrow> go_time \<Rightarrow> (string, string) gomap" where
  "WitnessOperatorsAt h t =
     (case epoch_at t (H_IssuedAt h, H_Witnesses h, H_PreviousDigest h = Genesis) (H_priorWitnesses h) of
        (issuedAt, ws, genesis) \<Rightarrow> if t < issuedAt \<and> \<not> genesis then [] else operators_of ws)"

definition IntakeAllowed :: "go_time \<Rightarrow> go_time \<Rightarrow> bool" where
  "IntakeAllowed lastQuorum now =
     (lastQuorum \<noteq> 0 \<and> \<not> lastQuorum > now + 5 * 60 * 1000000000 \<and> now - lastQuorum \<le> 3600 * 1000000000)"

section \<open>The chain loaded by the platform\<close>

text \<open>\<open>times\<close> are the readings of the clock, one per envelope.\<close>

definition load_step ::
    "'k history_env \<Rightarrow> string \<Rightarrow> 'k \<Rightarrow> History option \<Rightarrow> Envelope \<times> go_time \<Rightarrow> History option res" where
  "load_step env rootID rootKey previous = (\<lambda>(envelope, now).
     res_bind (VerifyHistory env envelope rootID rootKey previous now) (\<lambda>h. Inr (Some h)))"

definition load_history ::
    "'k history_env \<Rightarrow> string \<Rightarrow> 'k \<Rightarrow> (Envelope \<times> go_time) list \<Rightarrow> History option res" where
  "load_history env rootID rootKey envelopes =
     fail_if (len envelopes = 0 \<or> len envelopes > 100) ''key history chain length invalid''
     (res_fold (load_step env rootID rootKey) None envelopes)"

section \<open>Release attestations\<close>

record ReleaseEvidence =
  RE_Kind :: string
  RE_Digest :: string
  RE_URL :: string
  RE_Assessor :: string
  RE_CompletedAt :: go_time

record ReleaseAttestation =
  RA_APIVersion :: string
  RA_Kind :: string
  RA_SourceCommit :: string
  RA_IssuedAt :: go_time
  RA_ExpiresAt :: go_time
  RA_KeyHistoryDigest :: string
  RA_Evidence :: "ReleaseEvidence list"

definition required_evidence :: "string list" where
  "required_evidence = [''independent-security-review'', ''database-restore-drill'', ''key-rotation-drill'',
     ''runner-isolation-drill'', ''witness-outage-and-fork-drill'', ''external-invitation-pilot'']"

definition evidence_step ::
    "(string \<Rightarrow> (string \<times> string \<times> bool) option) \<Rightarrow> go_time \<Rightarrow> string set \<Rightarrow> ReleaseEvidence \<Rightarrow> string set res" where
  "evidence_step parse_url issuedAt seen ev =
     fail_if (\<not> List.member required_evidence (RE_Kind ev) \<or> RE_Kind ev \<in> seen) ''unknown or duplicate release evidence''
     (case parse_url (RE_URL ev) of
        None \<Rightarrow> Inl (Err ''incomplete release evidence'')
      | Some (scheme, host, user) \<Rightarrow>
        fail_if (scheme \<noteq> ''https'' \<or> host = [] \<or> user \<or> \<not> validDigest (RE_Digest ev) False \<or> RE_Assessor ev = []
            \<or> RE_CompletedAt ev = 0 \<or> RE_CompletedAt ev > issuedAt) ''incomplete release evidence''
        (Inr (insert (RE_Kind ev) seen)))"

definition VerifyRelease ::
    "'k crypto_env \<Rightarrow> (string \<Rightarrow> ReleaseAttestation res) \<Rightarrow> (string \<Rightarrow> (string \<times> string \<times> bool) option) \<Rightarrow> Envelope \<Rightarrow>
     string \<Rightarrow> 'k \<Rightarrow> string \<Rightarrow> string \<Rightarrow> go_time \<Rightarrow> ReleaseAttestation res" where
  "VerifyRelease env decode parse_url envelope rootID rootKey historyDigest sourceCommit now =
     res_bind (Verify env envelope [(rootID, rootKey)]) (\<lambda>b.
     res_bind (decode b) (\<lambda>r.
     fail_if (RA_APIVersion r \<noteq> APIVersion \<or> RA_Kind r \<noteq> ''OfficialReleaseAttestation'' \<or> RA_SourceCommit r \<noteq> sourceCommit
         \<or> len sourceCommit \<noteq> 40 \<or> RA_KeyHistoryDigest r \<noteq> historyDigest \<or> RA_IssuedAt r = 0 \<or> RA_IssuedAt r > now
         \<or> \<not> now < RA_ExpiresAt r) ''release attestation does not authorize this source, key history, or time''
     (res_bind (res_fold (evidence_step parse_url (RA_IssuedAt r)) {} (RA_Evidence r)) (\<lambda>seen.
      fail_if (\<not> list_all (\<lambda>k. k \<in> seen) required_evidence) ''required independent release evidence missing'' (Inr r)))))"

section \<open>What a verified history contains\<close>

definition key_print :: "'k crypto_env \<Rightarrow> Delegation \<Rightarrow> string" where
  "key_print env d = (case ParsePublicKey env (Del_PublicKeyPEM d) of Inl _ \<Rightarrow> [] | Inr key \<Rightarrow> fingerprint_or_empty env key)"

definition delegation_ok :: "'k crypto_env \<Rightarrow> go_time \<Rightarrow> Delegation \<Rightarrow> bool" where
  "delegation_ok env issuedAt d \<longleftrightarrow> is_ok (ParsePublicKey env (Del_PublicKeyPEM d)) \<and> Del_KeyID d \<noteq> [] \<and>
     Del_NotBefore d < Del_NotAfter d \<and> distinct (Del_Roles d) \<and> set (Del_Roles d) \<subseteq> set delegable_roles \<and>
     (''validation-run'' \<in> set (Del_Roles d) \<longrightarrow> Del_Roles d = [''validation-run''] \<and> Del_HostID d \<noteq> []) \<and>
     (''audit-witness'' \<in> set (Del_Roles d) \<longrightarrow> Del_Roles d = [''audit-witness'']) \<and>
     (\<forall>r. Del_RevokedAt d = Some r \<longrightarrow> Del_NotBefore d \<le> r \<and> r \<le> issuedAt)"

lemma role_fold:
  assumes "res_fold role_step {} rs = Inr S"
  shows "distinct rs \<and> S = set rs \<and> set rs \<subseteq> set delegable_roles"
proof -
  have "distinct (map id rs) \<and> id ` set rs \<inter> {} = {} \<and> S = {} \<union> id ` set rs"
    by (rule res_fold_seen [OF assms]) (auto simp: role_step_def res_simps)
  moreover have "r \<in> set delegable_roles" if "r \<in> set rs" for r
    using res_fold_each_ok [OF assms that] by (auto simp: role_step_def res_simps)
  ultimately show ?thesis by auto
qed

lemma single_role: "x \<in> set xs \<Longrightarrow> len xs = 1 \<Longrightarrow> xs = [x]"
  by (cases xs; cases "tl xs") (auto simp: len_def)

lemma delegation_step_Inr:
  assumes "delegation_step env t st d = Inr st'"
  shows "delegation_ok env t d" "Del_KeyID d \<notin> DS_keys st" "key_print env d \<notin> DS_fingerprints st"
    "st' = st\<lparr>DS_keys := insert (Del_KeyID d) (DS_keys st), DS_fingerprints := insert (key_print env d) (DS_fingerprints st),
          DS_roles := gomap_put (Del_KeyID d) (set (Del_Roles d)) (DS_roles st)\<rparr>"
proof -
  obtain key roles where k: "ParsePublicKey env (Del_PublicKeyPEM d) = Inr key" "res_fold role_step {} (Del_Roles d) = Inr roles"
    and c: "\<not> (Del_KeyID d = [] \<or> Del_KeyID d \<in> DS_keys st \<or> fingerprint_or_empty env key \<in> DS_fingerprints st
         \<or> \<not> Del_NotBefore d < Del_NotAfter d \<or> Del_Custody d = [] \<or> Del_Roles d = [])"
      "\<not> (case Del_RevokedAt d of None \<Rightarrow> False | Some r \<Rightarrow> r < Del_NotBefore d \<or> r > t)"
      "\<not> (''validation-run'' \<in> roles \<and> (Del_HostID d = [] \<or> len (Del_Roles d) \<noteq> 1))"
      "\<not> (''audit-witness'' \<in> roles \<and> len (Del_Roles d) \<noteq> 1)"
    and st': "st' = st\<lparr>DS_keys := insert (Del_KeyID d) (DS_keys st), DS_fingerprints := insert (fingerprint_or_empty env key) (DS_fingerprints st),
          DS_roles := gomap_put (Del_KeyID d) roles (DS_roles st)\<rparr>"
    using assms unfolding delegation_step_def Let_def by (auto simp only: res_simps sum.inject)
  have r: "distinct (Del_Roles d)" "roles = set (Del_Roles d)" "set (Del_Roles d) \<subseteq> set delegable_roles"
    using role_fold [OF k(2)] by auto
  have p: "key_print env d = fingerprint_or_empty env key" using k(1) by (simp add: key_print_def)
  show "delegation_ok env t d"
    unfolding delegation_ok_def using k(1) c r single_role [of _ "Del_Roles d"] by (auto split: option.splits)
  show "Del_KeyID d \<notin> DS_keys st" "key_print env d \<notin> DS_fingerprints st" using c p by auto
  show "st' = st\<lparr>DS_keys := insert (Del_KeyID d) (DS_keys st), DS_fingerprints := insert (key_print env d) (DS_fingerprints st),
          DS_roles := gomap_put (Del_KeyID d) (set (Del_Roles d)) (DS_roles st)\<rparr>" using st' p r(2) by simp
qed

lemma delegation_fold:
  assumes "res_fold (delegation_step env t) st ds = Inr st'"
  shows "(\<forall>d\<in>set ds. delegation_ok env t d) \<and> distinct (map Del_KeyID ds) \<and> Del_KeyID ` set ds \<inter> DS_keys st = {} \<and>
    distinct (map (key_print env) ds) \<and> key_print env ` set ds \<inter> DS_fingerprints st = {} \<and>
    (\<forall>k. lookup (DS_roles st') k = (case find (\<lambda>d. Del_KeyID d = k) ds of None \<Rightarrow> lookup (DS_roles st) k | Some d \<Rightarrow> Some (set (Del_Roles d))))"
  using assms
proof (induction ds arbitrary: st)
  case (Cons d ds)
  then obtain u where u: "delegation_step env t st d = Inr u" "res_fold (delegation_step env t) u ds = Inr st'"
    by (auto simp: res_simps)
  note s = delegation_step_Inr [OF u(1)] and IH = Cons.IH [OF u(2)]
  have "Del_KeyID d \<notin> Del_KeyID ` set ds" using IH s(4) by simp
  then have "find (\<lambda>d'. Del_KeyID d' = Del_KeyID d) ds = None" by (auto simp: find_None_iff image_iff)
  then have "\<forall>k. lookup (DS_roles st') k =
      (case find (\<lambda>d. Del_KeyID d = k) (d # ds) of None \<Rightarrow> lookup (DS_roles st) k | Some d \<Rightarrow> Some (set (Del_Roles d)))"
    using IH s(4) by (auto split: option.splits)
  then show ?case using IH s by auto
qed simp

lemma witness_fold:
  assumes "res_fold (witness_step roles) (A, I) ws = Inr (A', I')"
  shows "distinct (map WI_Operator ws) \<and> WI_Operator ` set ws \<inter> A = {} \<and> distinct (map WI_KeyID ws) \<and> WI_KeyID ` set ws \<inter> I = {} \<and>
    (\<forall>w\<in>set ws. WI_Operator w \<noteq> [] \<and> has_role roles (WI_KeyID w) ''audit-witness'')"
  using assms
proof (induction ws arbitrary: A I)
  case (Cons w ws)
  have f: "res_fold (witness_step roles) (insert (WI_Operator w) A, insert (WI_KeyID w) I) ws = Inr (A', I')"
    and w: "WI_Operator w \<noteq> []" "WI_Operator w \<notin> A" "WI_KeyID w \<notin> I" "has_role roles (WI_KeyID w) ''audit-witness''"
    using Cons.prems by (auto simp: witness_step_def res_simps)
  from Cons.IH [OF f] w show ?case by simp
qed simp

text \<open>The contents of an accepted history, apart from its link to the predecessor.\<close>

lemma VerifyHistory_Inr:
  assumes "VerifyHistory env envelope rootID rootKey previous now = Inr h"
  obtains h0 f st b where "H_priorWitnesses h0 = []" "Fingerprint (HCrypto env) rootKey = Inr f" "H_RootFingerprint h0 = f"
    "Verify (HCrypto env) envelope [(rootID, rootKey)] = Inr b" "len (H_Witnesses h0) = 3"
    "check_chain env h0 previous = Inr ()" "link_previous env h0 previous = Inr h"
    "res_fold (delegation_step (HCrypto env) (H_IssuedAt h0)) \<lparr>DS_keys = {}, DS_fingerprints = {f}, DS_roles = []\<rparr> (H_Delegations h0) = Inr st"
    "\<exists>z. res_fold (witness_step (DS_roles st)) ({}, {}) (H_Witnesses h0) = Inr z"
    "H_IssuedAt h0 \<le> now + 5 * 60 * 1000000000"
proof -
  obtain b d f st z where "Verify (HCrypto env) envelope [(rootID, rootKey)] = Inr b" "Fingerprint (HCrypto env) rootKey = Inr f"
    "check_chain env (d\<lparr>H_priorWitnesses := []\<rparr>) previous = Inr ()" "link_previous env (d\<lparr>H_priorWitnesses := []\<rparr>) previous = Inr h"
    "res_fold (delegation_step (HCrypto env) (H_IssuedAt (d\<lparr>H_priorWitnesses := []\<rparr>)))
       \<lparr>DS_keys = {}, DS_fingerprints = {f}, DS_roles = []\<rparr> (H_Delegations (d\<lparr>H_priorWitnesses := []\<rparr>)) = Inr st"
    "res_fold (witness_step (DS_roles st)) ({}, {}) (H_Witnesses (d\<lparr>H_priorWitnesses := []\<rparr>)) = Inr z"
    "H_RootFingerprint (d\<lparr>H_priorWitnesses := []\<rparr>) = f" "len (H_Witnesses (d\<lparr>H_priorWitnesses := []\<rparr>)) = 3"
    "H_IssuedAt (d\<lparr>H_priorWitnesses := []\<rparr>) \<le> now + 5 * 60 * 1000000000"
    using assms unfolding VerifyHistory_def Let_def by (auto simp only: res_simps not_less de_Morgan_disj not_not)
  then show thesis by (intro that [of "d\<lparr>H_priorWitnesses := []\<rparr>" f b st]) auto
qed

lemma link_previous_fields:
  assumes "link_previous env h0 previous = Inr h"
  shows "H_Delegations h = H_Delegations h0" "H_Witnesses h = H_Witnesses h0" "H_IssuedAt h = H_IssuedAt h0"
    "H_PreviousDigest h = H_PreviousDigest h0" "H_RootFingerprint h = H_RootFingerprint h0"
    "H_GenesisCheckpointDigest h = H_GenesisCheckpointDigest h0"
  using assms by (auto simp: link_previous_def res_simps split: option.splits)

definition history_ok :: "'k crypto_env \<Rightarrow> 'k \<Rightarrow> History \<Rightarrow> bool" where
  "history_ok env rootKey h \<longleftrightarrow>
     Fingerprint env rootKey = Inr (H_RootFingerprint h) \<and>
     (\<forall>d\<in>set (H_Delegations h). delegation_ok env (H_IssuedAt h) d) \<and>
     distinct (map Del_KeyID (H_Delegations h)) \<and>
     distinct (H_RootFingerprint h # map (key_print env) (H_Delegations h)) \<and>
     length (H_Witnesses h) = 3 \<and> distinct (map WI_Operator (H_Witnesses h)) \<and> distinct (map WI_KeyID (H_Witnesses h)) \<and>
     (\<forall>w\<in>set (H_Witnesses h). WI_Operator w \<noteq> [] \<and>
        (\<exists>d\<in>set (H_Delegations h). Del_KeyID d = WI_KeyID w \<and> Del_Roles d = [''audit-witness'']))"

lemma accepted_history_ok:
  assumes "VerifyHistory env envelope rootID rootKey previous now = Inr h"
  shows "history_ok (HCrypto env) rootKey h"
proof (rule VerifyHistory_Inr [OF assms])
  fix h0 f st b
  assume f: "Fingerprint (HCrypto env) rootKey = Inr f" "H_RootFingerprint h0 = f" and three: "len (H_Witnesses h0) = 3"
    and link: "link_previous env h0 previous = Inr h"
    and d: "res_fold (delegation_step (HCrypto env) (H_IssuedAt h0)) \<lparr>DS_keys = {}, DS_fingerprints = {f}, DS_roles = []\<rparr> (H_Delegations h0) = Inr st"
    and w: "\<exists>z. res_fold (witness_step (DS_roles st)) ({}, {}) (H_Witnesses h0) = Inr z"
  note D = delegation_fold [OF d]
  obtain A I where w': "res_fold (witness_step (DS_roles st)) ({}, {}) (H_Witnesses h0) = Inr (A, I)" using w by auto
  note W = witness_fold [OF w']
  have "\<exists>d\<in>set (H_Delegations h0). Del_KeyID d = k \<and> Del_Roles d = [''audit-witness'']"
    if role: "has_role (DS_roles st) k ''audit-witness''" for k
  proof -
    have "lookup (DS_roles st) k = (case find (\<lambda>d. Del_KeyID d = k) (H_Delegations h0) of None \<Rightarrow>
        lookup (DS_roles \<lparr>DS_keys = {}, DS_fingerprints = {f}, DS_roles = []\<rparr>) k | Some d \<Rightarrow> Some (set (Del_Roles d)))"
      using D by blast
    then obtain d where d: "find (\<lambda>d. Del_KeyID d = k) (H_Delegations h0) = Some d" "''audit-witness'' \<in> set (Del_Roles d)"
      using role by (cases "find (\<lambda>d. Del_KeyID d = k) (H_Delegations h0)") (auto simp: has_role_def)
    then have "d \<in> set (H_Delegations h0)" "Del_KeyID d = k" by (auto simp: find_Some_iff)
    then show ?thesis using D d(2) by (auto simp: delegation_ok_def)
  qed
  then show ?thesis
    unfolding history_ok_def using link_previous_fields [OF link] f three D W by (simp add: len_def)
qed

section \<open>Keys in force\<close>

lemma keys_step_lookup:
  "lookup (keys_step env role t keys d) k =
     (if k = Del_KeyID d \<and> active_at t d \<and> role \<in> set (Del_Roles d) \<and> is_ok (ParsePublicKey env (Del_PublicKeyPEM d))
      then (case ParsePublicKey env (Del_PublicKeyPEM d) of Inl _ \<Rightarrow> None | Inr key \<Rightarrow> Some key) else lookup keys k)"
proof -
  have "lookup (foldl (\<lambda>keys r. if r = role then
        (case ParsePublicKey env (Del_PublicKeyPEM d) of Inl _ \<Rightarrow> keys | Inr key \<Rightarrow> gomap_put (Del_KeyID d) key keys) else keys) keys rs) k
      = (if k = Del_KeyID d \<and> role \<in> set rs \<and> is_ok (ParsePublicKey env (Del_PublicKeyPEM d))
         then (case ParsePublicKey env (Del_PublicKeyPEM d) of Inl _ \<Rightarrow> None | Inr key \<Rightarrow> Some key) else lookup keys k)" for rs
    by (induction rs arbitrary: keys) (auto split: sum.splits)
  from this [of "Del_Roles d"] show ?thesis by (cases "active_at t d") (simp_all only: keys_step_def if_False if_True simp_thms)
qed

lemma keys_fold_other: "k \<notin> Del_KeyID ` set ds \<Longrightarrow> lookup (foldl (keys_step env role t) keys ds) k = lookup keys k"
  by (induction ds arbitrary: keys) (auto simp: keys_step_lookup)

definition key_of :: "'k crypto_env \<Rightarrow> string \<Rightarrow> go_time \<Rightarrow> Delegation \<Rightarrow> 'k option" where
  "key_of env role t d = (if active_at t d \<and> role \<in> set (Del_Roles d) then
     (case ParsePublicKey env (Del_PublicKeyPEM d) of Inl _ \<Rightarrow> None | Inr key \<Rightarrow> Some key) else None)"

lemma keys_fold_lookup:
  assumes "distinct (map Del_KeyID ds)" "d \<in> set ds" "lookup keys (Del_KeyID d) = None"
  shows "lookup (foldl (keys_step env role t) keys ds) (Del_KeyID d) = key_of env role t d"
  using assms
proof (induction ds arbitrary: keys)
  case (Cons x ds)
  show ?case
  proof (cases "x = d")
    case True
    then have "Del_KeyID d \<notin> Del_KeyID ` set ds" using Cons.prems(1) by simp
    then have "lookup (foldl (keys_step env role t) keys (x # ds)) (Del_KeyID d) = lookup (keys_step env role t keys d) (Del_KeyID d)"
      using True keys_fold_other [of "Del_KeyID d" ds env role t] by simp
    then show ?thesis using Cons.prems(3) by (auto simp: keys_step_lookup key_of_def split: sum.splits)
  next
    case False
    then have "d \<in> set ds" "Del_KeyID x \<noteq> Del_KeyID d" using Cons.prems(1,2) by auto
    then show ?thesis using Cons.IH [of "keys_step env role t keys x"] Cons.prems by (simp add: keys_step_lookup)
  qed
qed simp

lemma KeysAt_lookup:
  assumes "distinct (map Del_KeyID (H_Delegations h))" "d \<in> set (H_Delegations h)"
  shows "lookup (KeysAt env h role t) (Del_KeyID d) = key_of env role t d"
  unfolding KeysAt_def by (rule keys_fold_lookup [OF assms]) simp

lemma KeysAt_Some:
  assumes "distinct (map Del_KeyID (H_Delegations h))" "lookup (KeysAt env h role t) k = Some key"
  obtains d where "d \<in> set (H_Delegations h)" "Del_KeyID d = k" "key_of env role t d = Some key"
proof (cases "k \<in> Del_KeyID ` set (H_Delegations h)")
  case True
  then obtain d where d: "d \<in> set (H_Delegations h)" "Del_KeyID d = k" by blast
  then have "key_of env role t d = Some key" using KeysAt_lookup [OF assms(1) d(1), of env role t] assms(2) by simp
  then show ?thesis using that d by blast
next
  case False
  then show ?thesis using assms(2) keys_fold_other [OF False, of env role t "[]"] by (simp add: KeysAt_def)
qed

section \<open>Nothing is withdrawn\<close>

definition delegation_inputs :: "'k history_env \<Rightarrow> History \<Rightarrow> string set" where
  "delegation_inputs env h = {b. \<exists>d\<in>set (H_Delegations h). DelegationJSON env (d\<lparr>Del_RevokedAt := None\<rparr>) = Inr b}"

text \<open>What is relied on of the JSON encoding: the delegations of a verified history can be encoded, and
  different delegations have different encodings.\<close>

definition delegation_codec :: "'k history_env \<Rightarrow> History \<Rightarrow> bool" where
  "delegation_codec env h \<longleftrightarrow> (\<forall>d\<in>set (H_Delegations h). is_ok (DelegationJSON env (d\<lparr>Del_RevokedAt := None\<rparr>))) \<and>
     (\<forall>c d b. DelegationJSON env c = Inr b \<longrightarrow> DelegationJSON env d = Inr b \<longrightarrow> c = d)"

lemma current_lookup:
  assumes "lookup (current_delegations ds) k = Some d"
  shows "d \<in> set ds \<and> Del_KeyID d = k"
proof -
  have "lookup (foldl (\<lambda>m d. gomap_put (Del_KeyID d) d m) m ds) k = Some d \<Longrightarrow>
      d \<in> set ds \<and> Del_KeyID d = k \<or> lookup m k = Some d" for m
    by (induction ds arbitrary: m) (fastforce split: if_splits)+
  from this [of "[]"] assms show ?thesis by (simp add: current_delegations_def)
qed

lemma digest_or_empty_eq:
  assumes "digest_or_empty env a = digest_or_empty env b" "a = Inr x" "is_ok b"
  shows "\<exists>y. b = Inr y \<and> Sha env x = Sha env y"
  using assms by (cases b) (auto simp: digest_or_empty_def CanonicalDigest_def Hash_def DigestBytes_inj)

lemma retained_same:
  assumes "retained env (current_delegations ds) old = Inr ()" "delegation_codec env h" "set ds = set (H_Delegations h)"
    "is_ok (DelegationJSON env (old\<lparr>Del_RevokedAt := None\<rparr>))" "old \<in> set (H_Delegations p)"
    "\<not> collision_between (Sha (HCrypto env)) (delegation_inputs env p) (delegation_inputs env h)"
  obtains d where "d \<in> set ds" "Del_KeyID d = Del_KeyID old" "d\<lparr>Del_RevokedAt := None\<rparr> = old\<lparr>Del_RevokedAt := None\<rparr>"
    "Del_RevokedAt old \<noteq> None \<Longrightarrow> Del_RevokedAt d = Del_RevokedAt old"
proof -
  obtain d where d: "lookup (current_delegations ds) (Del_KeyID old) = Some d"
    "digest_or_empty (HCrypto env) (DelegationJSON env (old\<lparr>Del_RevokedAt := None\<rparr>))
       = digest_or_empty (HCrypto env) (DelegationJSON env (d\<lparr>Del_RevokedAt := None\<rparr>))"
    "Del_RevokedAt old \<noteq> None \<longrightarrow> Del_RevokedAt d = Del_RevokedAt old"
    using assms(1) by (auto simp: retained_def res_simps split: option.splits)
  obtain x where x: "DelegationJSON env (old\<lparr>Del_RevokedAt := None\<rparr>) = Inr x" using assms(4) by (auto simp: is_ok_iff)
  have m: "d \<in> set ds" "Del_KeyID d = Del_KeyID old" using current_lookup [OF d(1)] by auto
  have ok: "is_ok (DelegationJSON env (d\<lparr>Del_RevokedAt := None\<rparr>))" using m(1) assms(2,3) by (auto simp: delegation_codec_def)
  obtain y where y: "DelegationJSON env (d\<lparr>Del_RevokedAt := None\<rparr>) = Inr y" "Sha (HCrypto env) x = Sha (HCrypto env) y"
    using digest_or_empty_eq [OF d(2) x ok] by blast
  have "x \<in> delegation_inputs env p" "y \<in> delegation_inputs env h"
    using x y(1) m(1) assms(3,5) by (auto simp: delegation_inputs_def)
  then have "x = y" using no_collisionD [OF assms(6)] y(2) by blast
  then have "d\<lparr>Del_RevokedAt := None\<rparr> = old\<lparr>Del_RevokedAt := None\<rparr>"
    using x y(1) assms(2) unfolding delegation_codec_def by blast
  then show thesis using that m d(3) by blast
qed

definition revoked_by :: "History \<Rightarrow> go_time \<Rightarrow> string \<Rightarrow> bool" where
  "revoked_by h t kid \<longleftrightarrow> (\<exists>d\<in>set (H_Delegations h). Del_KeyID d = kid \<and> (case Del_RevokedAt d of None \<Rightarrow> False | Some r \<Rightarrow> r \<le> t))"

lemma same_but_revocation:
  assumes "d\<lparr>Del_RevokedAt := None\<rparr> = old\<lparr>Del_RevokedAt := None\<rparr>"
  shows "Del_PublicKeyPEM d = Del_PublicKeyPEM old" "Del_Roles d = Del_Roles old" "Del_NotBefore d = Del_NotBefore old"
    "Del_NotAfter d = Del_NotAfter old"
  using arg_cong [OF assms, of Del_PublicKeyPEM] arg_cong [OF assms, of Del_Roles] arg_cong [OF assms, of Del_NotBefore]
    arg_cong [OF assms, of Del_NotAfter] by simp_all

lemma keys_never_return:
  assumes p: "VerifyHistory env e0 rootID rootKey pp now0 = Inr p" and h: "VerifyHistory env e rootID rootKey (Some p) now = Inr h"
    and codec: "delegation_codec env p" "delegation_codec env h"
    and nc: "\<not> collision_between (Sha (HCrypto env)) (delegation_inputs env p) (delegation_inputs env h)"
    and old: "old \<in> set (H_Delegations p)"
  shows "lookup (KeysAt (HCrypto env) h role t) (Del_KeyID old) =
    (if revoked_by h t (Del_KeyID old) then None else lookup (KeysAt (HCrypto env) p role t) (Del_KeyID old))"
proof -
  have dist: "distinct (map Del_KeyID (H_Delegations p))" "distinct (map Del_KeyID (H_Delegations h))"
    using accepted_history_ok [OF p] accepted_history_ok [OF h] by (simp_all add: history_ok_def)
  have "retained env (current_delegations (H_Delegations h)) old = Inr ()"
  proof (rule VerifyHistory_Inr [OF h])
    fix h0 assume l: "link_previous env h0 (Some p) = Inr h"
    then show ?thesis using old link_previous_fields(1) [OF l] by (auto simp: link_previous_def res_simps)
  qed
  moreover have "is_ok (DelegationJSON env (old\<lparr>Del_RevokedAt := None\<rparr>))" using codec(1) old by (auto simp: delegation_codec_def)
  ultimately obtain d where d: "d \<in> set (H_Delegations h)" "Del_KeyID d = Del_KeyID old"
    "d\<lparr>Del_RevokedAt := None\<rparr> = old\<lparr>Del_RevokedAt := None\<rparr>" "Del_RevokedAt old \<noteq> None \<Longrightarrow> Del_RevokedAt d = Del_RevokedAt old"
    using retained_same [OF _ codec(2) refl _ old nc] by metis
  note same = same_but_revocation [OF d(3)]
  have "revoked_by h t (Del_KeyID old) \<longleftrightarrow> (case Del_RevokedAt d of None \<Rightarrow> False | Some r \<Rightarrow> r \<le> t)"
    using dist(2) d(1,2) unfolding revoked_by_def by (metis distinct_map inj_onD)
  moreover have "key_of (HCrypto env) role t d =
      (if (case Del_RevokedAt d of None \<Rightarrow> False | Some r \<Rightarrow> r \<le> t) then None else key_of (HCrypto env) role t old)"
    using same d(4) by (cases "Del_RevokedAt old") (auto simp: key_of_def active_at_def split: option.splits)
  ultimately show ?thesis
    using KeysAt_lookup [OF dist(2) d(1), of "HCrypto env" role t] KeysAt_lookup [OF dist(1) old, of "HCrypto env" role t] d(2) by simp
qed

section \<open>Epochs of membership\<close>

definition membership_of :: "History \<Rightarrow> witnessMembership" where
  "membership_of h = \<lparr>WM_issuedAt = H_IssuedAt h, WM_witnesses = H_Witnesses h, WM_genesis = (H_PreviousDigest h = Genesis)\<rparr>"

fun verified_chain :: "'k history_env \<Rightarrow> string \<Rightarrow> 'k \<Rightarrow> History option \<Rightarrow> (Envelope \<times> go_time) list \<Rightarrow> History list" where
  "verified_chain env rootID rootKey previous [] = []"
| "verified_chain env rootID rootKey previous ((envelope, now) # rest) =
     (case VerifyHistory env envelope rootID rootKey previous now of
        Inl _ \<Rightarrow> [] | Inr h \<Rightarrow> h # verified_chain env rootID rootKey (Some h) rest)"

text \<open>The reference definition: the latest history issued no later than \<open>t\<close>, and the bootstrap before that.\<close>

definition in_force :: "History list \<Rightarrow> go_time \<Rightarrow> History" where
  "in_force hs t = (case find (\<lambda>h. H_IssuedAt h \<le> t) (rev hs) of None \<Rightarrow> hd hs | Some h \<Rightarrow> h)"

definition lineage :: "History option \<Rightarrow> witnessMembership list" where
  "lineage previous = (case previous of None \<Rightarrow> [] | Some p \<Rightarrow> membership_of p # H_priorWitnesses p)"

lemma VerifyHistory_lineage:
  assumes "VerifyHistory env e rootID rootKey previous now = Inr h"
  shows "H_priorWitnesses h = lineage previous" "previous = None \<Longrightarrow> H_PreviousDigest h = Genesis"
    "previous = Some p \<Longrightarrow> H_IssuedAt p \<le> H_IssuedAt h"
proof -
  have "H_priorWitnesses h = lineage previous \<and> (previous = None \<longrightarrow> H_PreviousDigest h = Genesis) \<and>
      (\<forall>p. previous = Some p \<longrightarrow> H_IssuedAt p \<le> H_IssuedAt h)"
  proof (rule VerifyHistory_Inr [OF assms])
    fix h0 assume h0: "H_priorWitnesses h0 = []" and c: "check_chain env h0 previous = Inr ()" and l: "link_previous env h0 previous = Inr h"
    show ?thesis
    proof (cases previous)
      case None
      then show ?thesis using h0 c l by (auto simp: link_previous_def lineage_def check_chain_def res_simps)
    next
      case (Some p)
      then have "H_IssuedAt p \<le> H_IssuedAt h" using c link_previous_fields(3) [OF l] by (auto simp: check_chain_def res_simps)
      then show ?thesis using Some l by (auto simp: link_previous_def lineage_def membership_of_def res_simps)
    qed
  qed
  then show "H_priorWitnesses h = lineage previous" "previous = None \<Longrightarrow> H_PreviousDigest h = Genesis"
    "previous = Some p \<Longrightarrow> H_IssuedAt p \<le> H_IssuedAt h" by auto
qed

lemma load_step_pair: "load_step env rootID rootKey previous (e, now) =
    res_bind (VerifyHistory env e rootID rootKey previous now) (\<lambda>h. Inr (Some h))"
  by (simp add: load_step_def)

lemma chain_lineage:
  assumes "res_fold (load_step env rootID rootKey) previous es = Inr (Some h)" "es \<noteq> [] \<or> previous \<noteq> None"
  shows "lineage (Some h) = map membership_of (rev (verified_chain env rootID rootKey previous es)) @ lineage previous"
  using assms
proof (induction es arbitrary: previous)
  case (Cons x es)
  obtain e now where x: "x = (e, now)" by (cases x)
  obtain g where g: "VerifyHistory env e rootID rootKey previous now = Inr g"
    "res_fold (load_step env rootID rootKey) (Some g) es = Inr (Some h)"
    using Cons.prems(1) x by (auto simp: load_step_pair res_simps)
  have "lineage (Some g) = membership_of g # lineage previous" using VerifyHistory_lineage(1) [OF g(1)] by (simp add: lineage_def)
  then show ?case using Cons.IH [OF g(2)] g(1) x by simp
qed simp

lemma epoch_at_find:
  "epoch_at t (WM_issuedAt m, WM_witnesses m, WM_genesis m) ps =
     (let x = (case find (\<lambda>m. WM_issuedAt m \<le> t) (m # ps) of None \<Rightarrow> last (m # ps) | Some x \<Rightarrow> x)
      in (WM_issuedAt x, WM_witnesses x, WM_genesis x))"
  by (induction ps arbitrary: m) (auto simp: Let_def not_le split: option.splits)

lemma find_map_eq: "find P (map f xs) = map_option f (find (\<lambda>x. P (f x)) xs)"
  by (induction xs) auto

lemma loaded_membership:
  assumes "res_fold (load_step env rootID rootKey) None es = Inr (Some h)" "es \<noteq> []"
  shows "WitnessOperatorsAt h t = operators_of (H_Witnesses (in_force (verified_chain env rootID rootKey None es) t))"
proof -
  let ?hs = "verified_chain env rootID rootKey None es"
  have l: "membership_of h # H_priorWitnesses h = map membership_of (rev ?hs)"
    using chain_lineage [OF assms(1)] assms(2) by (simp add: lineage_def)
  then have ne: "?hs \<noteq> []" by auto
  have g: "H_PreviousDigest (hd ?hs) = Genesis"
  proof (cases es)
    case (Cons x r)
    obtain e now where x: "x = (e, now)" by (cases x)
    obtain k where k: "VerifyHistory env e rootID rootKey None now = Inr k"
      using ne Cons x by (cases "VerifyHistory env e rootID rootKey None now") auto
    then show ?thesis using VerifyHistory_lineage(2) [OF k refl] Cons x by simp
  qed (use assms(2) in simp)
  have "epoch_at t (H_IssuedAt h, H_Witnesses h, H_PreviousDigest h = Genesis) (H_priorWitnesses h)
      = epoch_at t (WM_issuedAt (membership_of h), WM_witnesses (membership_of h), WM_genesis (membership_of h)) (H_priorWitnesses h)"
    by (simp add: membership_of_def)
  also have "\<dots> = (let x = (case find (\<lambda>m. WM_issuedAt m \<le> t) (map membership_of (rev ?hs)) of
        None \<Rightarrow> last (map membership_of (rev ?hs)) | Some x \<Rightarrow> x) in (WM_issuedAt x, WM_witnesses x, WM_genesis x))"
    by (simp only: epoch_at_find l)
  also have "(case find (\<lambda>m. WM_issuedAt m \<le> t) (map membership_of (rev ?hs)) of
        None \<Rightarrow> last (map membership_of (rev ?hs)) | Some x \<Rightarrow> x) = membership_of (in_force ?hs t)"
    using ne by (simp add: find_map_eq in_force_def last_map last_rev membership_of_def split: option.splits)
  finally have e: "epoch_at t (H_IssuedAt h, H_Witnesses h, H_PreviousDigest h = Genesis) (H_priorWitnesses h)
      = (H_IssuedAt (in_force ?hs t), H_Witnesses (in_force ?hs t), H_PreviousDigest (in_force ?hs t) = Genesis)"
    by (simp add: membership_of_def Let_def)
  have "t < H_IssuedAt (in_force ?hs t) \<Longrightarrow> H_PreviousDigest (in_force ?hs t) = Genesis"
  proof (cases "find (\<lambda>h. H_IssuedAt h \<le> t) (rev ?hs)")
    case (Some x)
    then have "H_IssuedAt x \<le> t" by (auto simp: find_Some_iff)
    then show "t < H_IssuedAt (in_force ?hs t) \<Longrightarrow> ?thesis" using Some by (simp add: in_force_def)
  qed (simp add: in_force_def g)
  then show ?thesis by (auto simp: WitnessOperatorsAt_def e)
qed

section \<open>Properties\<close>

text \<open>C34: an accepted key history separates duties: key identifiers and key fingerprints are distinct and differ
  from the root's, every delegation is well formed, a runner or witness key has no other role, a revocation lies
  between the start of the delegation and the issue of the history, and three different operators hold three
  different keys that are delegated for witnessing only.\<close>

theorem VerifyHistory_separates:
  assumes "VerifyHistory env envelope rootID rootKey previous now = Inr h"
  shows "history_ok (HCrypto env) rootKey h"
  by (rule accepted_history_ok [OF assms])

text \<open>C35: rotations retain old keys and never bring a key back.  Under a successor history every key delegated
  before has exactly the validity it had, unless the successor revokes it, from the revocation on; or the two
  delegations hashed in the comparison collide.\<close>

theorem VerifyHistory_append_only:
  assumes "VerifyHistory env e0 rootID rootKey pp now0 = Inr p" "VerifyHistory env e rootID rootKey (Some p) now = Inr h"
    and "delegation_codec env p" "delegation_codec env h" "old \<in> set (H_Delegations p)"
  shows "lookup (KeysAt (HCrypto env) h role t) (Del_KeyID old) =
      (if revoked_by h t (Del_KeyID old) then None else lookup (KeysAt (HCrypto env) p role t) (Del_KeyID old)) \<or>
    collision_between (Sha (HCrypto env)) (delegation_inputs env p) (delegation_inputs env h)"
  using keys_never_return [OF assms(1-4) _ assms(5)] by blast

text \<open>The backward walk over the lineage finds the membership in force: for every chain of histories the
  platform loads and every time, the operators returned are those of the latest history issued no later than
  that time, and those of the bootstrap history before it.\<close>

theorem WitnessOperatorsAt_in_force:
  assumes "load_history env rootID rootKey es = Inr (Some h)"
  shows "WitnessOperatorsAt h t = operators_of (H_Witnesses (in_force (verified_chain env rootID rootKey None es) t))"
  using assms by (auto simp: load_history_def res_simps len_def intro!: loaded_membership)

definition demo_delegation :: "string \<Rightarrow> go_time option \<Rightarrow> Delegation" where
  "demo_delegation kid revoked = \<lparr>Del_KeyID = kid, Del_PublicKeyPEM = kid, Del_Roles = [''audit-witness''], Del_NotBefore = 10,
     Del_NotAfter = 1000, Del_RevokedAt = revoked, Del_HostID = [], Del_Custody = ''hsm''\<rparr>"

definition demo_members :: "WitnessIdentity list" where
  "demo_members = [\<lparr>WI_KeyID = ''w1'', WI_Operator = ''alice''\<rparr>, \<lparr>WI_KeyID = ''w2'', WI_Operator = ''bob''\<rparr>,
     \<lparr>WI_KeyID = ''w3'', WI_Operator = ''carol''\<rparr>]"

definition demo_history :: "string \<Rightarrow> go_time \<Rightarrow> go_time option \<Rightarrow> History" where
  "demo_history prev issued revoked = \<lparr>H_APIVersion = APIVersion, H_Kind = ''KeyHistory'', H_RootFingerprint = DigestBytes demo_sha ''root'',
     H_PreviousDigest = prev, H_GenesisCheckpointDigest = DigestBytes demo_sha ''cp'', H_IssuedAt = issued,
     H_Delegations = [demo_delegation ''w1'' revoked, demo_delegation ''w2'' None, demo_delegation ''w3'' None],
     H_Witnesses = demo_members, H_WitnessQuorum = 2, H_OutageGraceSeconds = 3600, H_priorWitnesses = []\<rparr>"

definition demo_second :: History where
  "demo_second = demo_history (DigestBytes demo_sha ''h1'') 200 (Some 150)"

definition demo_histories :: "string history_env" where
  "demo_histories = \<lparr>HCrypto = demo_crypto\<lparr>Sha := demo_sha\<rparr>,
     HistoryJSON = (\<lambda>h. if h = demo_history Genesis 100 None then Inr ''h1'' else Inl (Err ''marshal'')),
     DecodeHistory = (\<lambda>b. if b = ''h1'' then Inr (demo_history Genesis 100 None)
       else if b = ''h2'' then Inr demo_second else Inl (Err ''decode'')),
     DelegationJSON = (\<lambda>d. if d = demo_delegation (Del_KeyID d) None then Inr (Del_KeyID d) else Inl (Err ''marshal''))\<rparr>"

definition demo_root_signed :: "string \<Rightarrow> Envelope" where
  "demo_root_signed body = \<lparr>Envelope_PayloadType = PayloadType, Envelope_Payload = b64_encode body,
     Envelope_Signatures = [\<lparr>Signature_KeyID = ''root'', Signature_Sig = b64_encode (''root'' @ demo_sha (pae PayloadType body))\<rparr>]\<rparr>"

lemma demo_first_ok: "VerifyHistory demo_histories (demo_root_signed ''h1'') ''root'' ''root'' None 300 = Inr (demo_history Genesis 100 None)"
proof -
  have "case VerifyHistory demo_histories (demo_root_signed ''h1'') ''root'' ''root'' None 300 of
      Inl _ \<Rightarrow> False | Inr h \<Rightarrow> h = demo_history Genesis 100 None" by code_simp
  then show ?thesis by (auto split: sum.splits)
qed

definition demo_linked :: History where
  "demo_linked = demo_second\<lparr>H_priorWitnesses := [membership_of (demo_history Genesis 100 None)]\<rparr>"

lemma demo_second_ok:
  "VerifyHistory demo_histories (demo_root_signed ''h2'') ''root'' ''root'' (Some (demo_history Genesis 100 None)) 300 = Inr demo_linked"
proof -
  have "case VerifyHistory demo_histories (demo_root_signed ''h2'') ''root'' ''root'' (Some (demo_history Genesis 100 None)) 300 of
      Inl _ \<Rightarrow> False | Inr h \<Rightarrow> h = demo_linked" by code_simp
  then show ?thesis by (auto split: sum.splits)
qed

lemma demo_history_codec: "delegation_codec demo_histories (demo_history prev issued revoked)" "delegation_codec demo_histories demo_linked"
  by (auto simp: delegation_codec_def demo_histories_def demo_history_def demo_linked_def demo_second_def demo_delegation_def split: if_splits)

theorem VerifyHistory_separates_witness: "history_ok (HCrypto demo_histories) ''root'' (demo_history Genesis 100 None)"
  by (rule VerifyHistory_separates [OF demo_first_ok])

theorem VerifyHistory_append_only_witness:
  "lookup (KeysAt (HCrypto demo_histories) demo_linked ''audit-witness'' 160) ''w1'' =
      (if revoked_by demo_linked 160 ''w1'' then None
       else lookup (KeysAt (HCrypto demo_histories) (demo_history Genesis 100 None) ''audit-witness'' 160) ''w1'') \<or>
    collision_between (Sha (HCrypto demo_histories)) (delegation_inputs demo_histories (demo_history Genesis 100 None))
      (delegation_inputs demo_histories demo_linked)"
proof -
  have m: "demo_delegation ''w1'' None \<in> set (H_Delegations (demo_history Genesis 100 None))"
    and k: "Del_KeyID (demo_delegation ''w1'' None) = ''w1''"
    by (simp_all add: demo_history_def demo_delegation_def)
  show ?thesis
    using VerifyHistory_append_only [OF demo_first_ok demo_second_ok demo_history_codec m, of "''audit-witness''" 160] unfolding k .
qed

theorem WitnessOperatorsAt_in_force_witness:
  "WitnessOperatorsAt demo_linked 50 = operators_of (H_Witnesses (in_force (verified_chain demo_histories ''root'' ''root'' None
     [(demo_root_signed ''h1'', 300), (demo_root_signed ''h2'', 300)]) 50))"
proof (rule WitnessOperatorsAt_in_force)
  show "load_history demo_histories ''root'' ''root'' [(demo_root_signed ''h1'', 300), (demo_root_signed ''h2'', 300)] = Inr (Some demo_linked)"
    by (simp add: load_history_def load_step_pair demo_first_ok demo_second_ok len_def)
qed

end
