(* ===== verification/Transition.thy ===== *)
theory Transition
  imports Prelude
begin

text \<open>
  Reachability for the stateful components.  A component is a predicate on initial states and a step
  relation; an invariant is established once per component by interpreting \<open>invariant_system\<close>, and
  \<open>monotone_system\<close> adds facts about single entries that no step takes back.
\<close>

inductive reachable :: "('s \<Rightarrow> bool) \<Rightarrow> ('s \<Rightarrow> 's \<Rightarrow> bool) \<Rightarrow> 's \<Rightarrow> bool"
  for init :: "'s \<Rightarrow> bool" and step :: "'s \<Rightarrow> 's \<Rightarrow> bool"
where
  reachable_init: "init s \<Longrightarrow> reachable init step s"
| reachable_step: "reachable init step s \<Longrightarrow> step s t \<Longrightarrow> reachable init step t"

inductive steps :: "('s \<Rightarrow> 's \<Rightarrow> bool) \<Rightarrow> 's \<Rightarrow> 's \<Rightarrow> bool"
  for step :: "'s \<Rightarrow> 's \<Rightarrow> bool"
where
  steps_refl: "steps step s s"
| steps_step: "steps step s t \<Longrightarrow> step t u \<Longrightarrow> steps step s u"

lemma reachable_steps: "steps step s t \<Longrightarrow> reachable init step s \<Longrightarrow> reachable init step t"
  by (induction rule: steps.induct) (auto intro: reachable_step)

locale invariant_system =
  fixes init :: "'s \<Rightarrow> bool"
    and step :: "'s \<Rightarrow> 's \<Rightarrow> bool"
    and inv :: "'s \<Rightarrow> bool"
  assumes inv_init: "init s \<Longrightarrow> inv s"
    and inv_step: "inv s \<Longrightarrow> step s t \<Longrightarrow> inv t"
begin

lemma reachable_inv: "reachable init step s \<Longrightarrow> inv s"
  by (induction rule: reachable.induct) (auto intro: inv_init inv_step)

end

locale monotone_system = invariant_system +
  fixes holds :: "'s \<Rightarrow> 'f \<Rightarrow> bool"
  assumes holds_step: "inv s \<Longrightarrow> step s t \<Longrightarrow> holds s f \<Longrightarrow> holds t f"
begin

lemma steps_inv: "steps step s t \<Longrightarrow> inv s \<Longrightarrow> inv t"
  by (induction rule: steps.induct) (auto intro: inv_step)

lemma steps_holds: "steps step s t \<Longrightarrow> inv s \<Longrightarrow> holds s f \<Longrightarrow> holds t f"
proof (induction rule: steps.induct)
  case (steps_step s t u)
  then show ?case using steps_inv holds_step by blast
qed

lemma reachable_holds:
  "reachable init step s \<Longrightarrow> steps step s t \<Longrightarrow> holds s f \<Longrightarrow> holds t f"
  using reachable_inv steps_holds by blast

end

end
