(* ===== verification/Witness.thy ===== *)
theory Witness
  imports History Transition
begin

text \<open>
  The independent witness (\<open>internal/audit/witness.go\<close>): its journal, the replay of the journal on start, and
  \<open>Observe\<close>, which retains a verified successor before it releases a signature.

  The journal is the byte content of a file.  What the operating system does with one append is given by
  the argument \<open>io\<close>: how many bytes were written and whether the write or the sync reported an error.  The
  calls of \<open>openWitness\<close> before the journal is read (directories, file modes, locking, syncing) are the
  argument \<open>ready\<close>.  The JSON codecs, the cryptography and the signer are arguments as well.
\<close>

definition MaxBundleBytes :: int where
  "MaxBundleBytes = 8388608"

record witnessedRecord =
  WR_Bundle :: Bundle
  WR_Signature :: "Envelope option"
  WR_Historical :: bool

record 'k Witness =
  W_journal :: bool
  W_keyID :: string
  W_key :: 'k
  W_history :: History
  W_last :: "Checkpoint option"
  W_lastRecord :: "witnessedRecord option"
  W_poisoned :: bool

record 'k witness_env =
  WAudit :: "'k audit_env"
  MarshalCheckpoint :: "Checkpoint \<Rightarrow> string res"
  RecordJSON :: "witnessedRecord \<Rightarrow> string res"
  DecodeRecord :: "string \<Rightarrow> witnessedRecord res"

record journal_io =
  IO_written :: nat
  IO_writeErr :: bool
  IO_syncErr :: bool

abbreviation wcrypto :: "'k witness_env \<Rightarrow> 'k crypto_env" where
  "wcrypto env \<equiv> Crypto (WAudit env)"

definition no_envelope :: Envelope where
  "no_envelope = \<lparr>Envelope_PayloadType = [], Envelope_Payload = [], Envelope_Signatures = []\<rparr>"

text \<open>Reading a Go map of strings: a missing key gives the empty string.\<close>

definition map_text :: "(string, string) gomap \<Rightarrow> string \<Rightarrow> string" where
  "map_text m k = (case lookup m k of None \<Rightarrow> [] | Some v \<Rightarrow> v)"

section \<open>Observing\<close>

definition validate :: "'k witness_env \<Rightarrow> 'k Witness \<Rightarrow> Bundle \<Rightarrow> go_time \<Rightarrow> Checkpoint res" where
  "validate env w bundle now =
     (case b64_decode (Envelope_Payload (Bundle_Checkpoint bundle)) of
        None \<Rightarrow> Inl (Err ''illegal base64 data'')
      | Some payload \<Rightarrow>
        res_bind (DecodeCheckpoint (WAudit env) payload) (\<lambda>untrusted.
        res_bind (VerifyCheckpoint (WAudit env) (Bundle_Checkpoint bundle)
            (KeysAt (wcrypto env) (W_history w) ''audit-checkpoint'' (CP_IssuedAt untrusted))
            (Bundle_Events bundle) (W_last w) now) (\<lambda>cp.
        fail_if (W_last w = None \<and> mustDigest (WAudit env) cp \<noteq> H_GenesisCheckpointDigest (W_history w))
          ''first checkpoint does not match externally pinned genesis'' (Inr cp))))"

fun sameAuditEvents :: "'k crypto_env \<Rightarrow> Event list \<Rightarrow> Event list \<Rightarrow> bool" where
  "sameAuditEvents env [] [] = True"
| "sameAuditEvents env (l # ls) (r # rs) =
     (Event_Sequence l = Event_Sequence r \<and> Event_Kind l = Event_Kind r \<and> Event_PreviousDigest l = Event_PreviousDigest r
      \<and> Event_Digest l = Event_Digest r
      \<and> EventDigest env (Event_PreviousDigest l) (Event_Kind l) (Event_Payload l) = Inr (Event_Digest l)
      \<and> EventDigest env (Event_PreviousDigest r) (Event_Kind r) (Event_Payload r) = Inr (Event_Digest r)
      \<and> sameAuditEvents env ls rs)"
| "sameAuditEvents env _ _ = False"

definition encodeWitnessRecord :: "'k witness_env \<Rightarrow> witnessedRecord \<Rightarrow> string res" where
  "encodeWitnessRecord env r =
     res_bind (or_else (RecordJSON env r) (Err ''witness journal entry exceeds bound'')) (\<lambda>b.
     fail_if (len b + 1 > MaxBundleBytes) ''witness journal entry exceeds bound'' (Inr (b @ [CHR 0x0A])))"

definition eligible :: "'k witness_env \<Rightarrow> 'k Witness \<Rightarrow> go_time \<Rightarrow> bool" where
  "eligible env w t = (lookup (KeysAt (wcrypto env) (W_history w) ''audit-witness'' t) (W_keyID w) \<noteq> None
     \<and> map_text (WitnessOperatorsAt (W_history w) t) (W_keyID w) \<noteq> [])"

definition retry ::
    "'k witness_env \<Rightarrow> 'k Witness \<Rightarrow> witnessedRecord \<Rightarrow> Bundle \<Rightarrow> Envelope res" where
  "retry env w r bundle =
     fail_if (\<not> sameAuditEvents (wcrypto env) (Bundle_Events bundle) (Bundle_Events (WR_Bundle r)))
       ''checkpoint retry changed its interval events''
     (res_bind (deref (W_last w)) (\<lambda>lst.
      res_bind (Verify (wcrypto env) (Bundle_Checkpoint bundle)
        (KeysAt (wcrypto env) (W_history w) ''audit-checkpoint'' (CP_IssuedAt lst))) (\<lambda>_.
      Inr (case WR_Signature r of None \<Rightarrow> no_envelope | Some e \<Rightarrow> e))))"

definition estimate :: "'k Witness \<Rightarrow> witnessedRecord \<Rightarrow> witnessedRecord" where
  "estimate w r = r\<lparr>WR_Signature := Some \<lparr>Envelope_PayloadType = PayloadType,
     Envelope_Payload = Envelope_Payload (Bundle_Checkpoint (WR_Bundle r)),
     Envelope_Signatures = [\<lparr>Signature_KeyID = W_keyID w, Signature_Sig = replicate 96 (CHR ''A'')\<rparr>]\<rparr>\<rparr>"

text \<open>The new record with its encoding, before anything is written.\<close>

definition prepare ::
    "'k witness_env \<Rightarrow> (string \<Rightarrow> string res) \<Rightarrow> 'k Witness \<Rightarrow> Bundle \<Rightarrow> go_time \<Rightarrow> (Checkpoint \<times> witnessedRecord \<times> string) res" where
  "prepare env sign w bundle now =
     res_bind (validate env w bundle now) (\<lambda>cp.
     fail_if (\<not> eligible env w now) ''witness delegation is not active at observation time''
     (let historical = (\<not> eligible env w (CP_IssuedAt cp)) in
      fail_if (historical \<and> \<not> CP_IssuedAt cp < now) ''unsigned catch-up is permitted only for historical checkpoints''
      (let r = \<lparr>WR_Bundle = bundle\<lparr>Bundle_Witnesses := []\<rparr>, WR_Signature = None, WR_Historical = historical\<rparr> in
       res_bind (if historical then Inr r else
         res_bind (encodeWitnessRecord env (estimate w r)) (\<lambda>_.
         res_bind (Sign (wcrypto env) (W_keyID w) (W_key w) sign (MarshalCheckpoint env cp)) (\<lambda>signature.
         Inr (r\<lparr>WR_Signature := Some signature\<rparr>)))) (\<lambda>r.
       res_bind (encodeWitnessRecord env r) (\<lambda>encoded. Inr (cp, r, encoded))))))"

text \<open>The answer, the witness and the journal after one call.\<close>

definition append_record ::
    "journal_io \<Rightarrow> 'k Witness \<Rightarrow> string \<Rightarrow> Checkpoint \<times> witnessedRecord \<times> string \<Rightarrow> Envelope res \<times> 'k Witness \<times> string" where
  "append_record io w file = (\<lambda>(cp, r, encoded).
     let file' = file @ take (IO_written io) encoded in
     if IO_writeErr io \<or> IO_written io \<noteq> length encoded then
       (Inl (Err ''durable witness journal write failed; signing paused''), w\<lparr>W_poisoned := True\<rparr>, file')
     else if IO_syncErr io then
       (Inl (Err ''durable witness journal sync failed; signing paused''), w\<lparr>W_poisoned := True\<rparr>, file')
     else (Inr (case WR_Signature r of None \<Rightarrow> no_envelope | Some e \<Rightarrow> e),
       w\<lparr>W_last := Some cp, W_lastRecord := Some r\<rparr>, file'))"

definition is_retry :: "'k Witness \<Rightarrow> Bundle \<Rightarrow> bool" where
  "is_retry w bundle = (case W_lastRecord w of None \<Rightarrow> False
     | Some r \<Rightarrow> Envelope_Payload (Bundle_Checkpoint bundle) = Envelope_Payload (Bundle_Checkpoint (WR_Bundle r)))"

definition Observe ::
    "'k witness_env \<Rightarrow> (string \<Rightarrow> string res) \<Rightarrow> journal_io \<Rightarrow> 'k Witness \<Rightarrow> string \<Rightarrow> Bundle \<Rightarrow> go_time \<Rightarrow>
     Envelope res \<times> 'k Witness \<times> string" where
  "Observe env sign io w file bundle now =
     (if W_poisoned w \<or> \<not> W_journal w then (Inl (Err ''witness journal unavailable; signing paused''), w, file)
      else if is_retry w bundle then
        (res_bind (deref (W_lastRecord w)) (\<lambda>r. retry env w r bundle), w, file)
      else (case prepare env sign w bundle now of
          Inl e \<Rightarrow> (Inl e, w, file)
        | Inr prepared \<Rightarrow> append_record io w file prepared))"

definition Close :: "'k Witness \<Rightarrow> 'k Witness" where
  "Close w = w\<lparr>W_journal := False\<rparr>"

definition Latest :: "'k Witness \<Rightarrow> Bundle option" where
  "Latest w = map_option (\<lambda>r. (WR_Bundle r)\<lparr>Bundle_Witnesses := (case WR_Signature r of None \<Rightarrow> [] | Some e \<Rightarrow> [e])\<rparr>) (W_lastRecord w)"

section \<open>Opening\<close>

definition drop_cr :: "string \<Rightarrow> string" where
  "drop_cr l = (if l \<noteq> [] \<and> last l = CHR 0x0D then butlast l else l)"

definition check_signature :: "'k witness_env \<Rightarrow> 'k Witness \<Rightarrow> witnessedRecord \<Rightarrow> Checkpoint \<Rightarrow> Envelope \<Rightarrow> unit res" where
  "check_signature env w r cp e =
     res_bind (or_else (Verify (wcrypto env) e (KeysAt (wcrypto env) (W_history w) ''audit-witness'' (CP_IssuedAt cp)))
       (Err ''witness journal signature does not match checkpoint'')) (\<lambda>payload.
     fail_if (map_text (WitnessOperatorsAt (W_history w) (CP_IssuedAt cp)) (Signature_KeyID (hd (Envelope_Signatures e))) = []
         \<or> Hash (wcrypto env) payload \<noteq> mustDigest (WAudit env) cp
         \<or> Envelope_Payload e \<noteq> Envelope_Payload (Bundle_Checkpoint (WR_Bundle r)))
       ''witness journal signature does not match checkpoint'' (Inr ()))"

definition replay_step :: "'k witness_env \<Rightarrow> 'k Witness \<Rightarrow> string \<times> go_time \<Rightarrow> 'k Witness res" where
  "replay_step env w = (\<lambda>(line, now).
     fail_if (len line + 1 > MaxBundleBytes) ''bufio.Scanner: token too long''
     (res_bind (or_else (DecodeRecord env (drop_cr line)) (Err ''invalid witness journal record'')) (\<lambda>r.
      res_bind (validate env w (WR_Bundle r) now) (\<lambda>cp.
      res_bind (if WR_Historical r then
          fail_if (WR_Signature r \<noteq> None) ''historical observation cannot claim a witness signature'' (Inr ())
        else (case WR_Signature r of
            None \<Rightarrow> Inl (Err ''witness journal signature missing'')
          | Some e \<Rightarrow> fail_if (len (Envelope_Signatures e) \<noteq> 1) ''witness journal signature missing''
              (check_signature env w r cp e))) (\<lambda>_.
      Inr (w\<lparr>W_last := Some cp, W_lastRecord := Some r\<rparr>))))))"

text \<open>The lines of a journal that ends in a line break.\<close>

definition journal_lines :: "string \<Rightarrow> string list" where
  "journal_lines file = (if file = [] then [] else butlast (split_on (CHR 0x0A) file))"

definition check_tail :: "string \<Rightarrow> unit res" where
  "check_tail file = fail_if (file \<noteq> [] \<and> last file \<noteq> CHR 0x0A)
     ''partial witness journal tail; recover from externally retained checkpoint before restarting'' (Inr ())"

definition openWitness ::
    "'k witness_env \<Rightarrow> string \<Rightarrow> 'k \<Rightarrow> History \<Rightarrow> go_time \<Rightarrow> unit res \<Rightarrow> string \<Rightarrow> (nat \<Rightarrow> go_time) \<Rightarrow> 'k Witness res" where
  "openWitness env keyID key history now ready file clock =
     fail_if (map_text (WitnessOperatorsAt history now) keyID = []) ''active registered witness identity required''
     (case lookup (KeysAt (wcrypto env) history ''audit-witness'' now) keyID of
        None \<Rightarrow> Inl (Err ''active witness delegation required'')
      | Some expected \<Rightarrow>
        res_bind (or_else (Fingerprint (wcrypto env) expected) (Err ''active witness delegation required'')) (\<lambda>a.
        res_bind (or_else (Fingerprint (wcrypto env) key) (Err ''witness key does not match root delegation'')) (\<lambda>b.
        fail_if (a \<noteq> b) ''witness key does not match root delegation''
        (res_bind ready (\<lambda>_.
         res_bind (check_tail file) (\<lambda>_.
         let lines = journal_lines file in
         res_fold (replay_step env) \<lparr>W_journal = True, W_keyID = keyID, W_key = key, W_history = history, W_last = None,
           W_lastRecord = None, W_poisoned = False\<rparr> (zip lines (map clock [0..<length lines]))))))))"

section \<open>What the journal contains\<close>

text \<open>The checkpoint in an envelope, without regard to its signatures.\<close>

definition checkpoint_in :: "'k witness_env \<Rightarrow> Envelope \<Rightarrow> Checkpoint res" where
  "checkpoint_in env e = (case b64_decode (Envelope_Payload e) of
     None \<Rightarrow> Inl (Err ''illegal base64 data'') | Some b \<Rightarrow> DecodeCheckpoint (WAudit env) b)"

definition entry_ok :: "'k witness_env \<Rightarrow> Checkpoint option \<Rightarrow> witnessedRecord \<Rightarrow> Checkpoint \<Rightarrow> bool" where
  "entry_ok env prev r c \<longleftrightarrow>
     checkpoint_in env (Bundle_Checkpoint (WR_Bundle r)) = Inr c \<and>
     (\<exists>x. Build (WAudit env) (CP_LogID c) (Bundle_Events (WR_Bundle r)) prev (CP_IssuedAt c) = Inr x \<and>
          mustDigest (WAudit env) c = mustDigest (WAudit env) x) \<and>
     (\<forall>e. WR_Signature r = Some e \<longrightarrow> checkpoint_in env e = Inr c)"

fun journal_ok :: "'k witness_env \<Rightarrow> Checkpoint option \<Rightarrow> witnessedRecord list \<Rightarrow> Checkpoint list \<Rightarrow> bool" where
  "journal_ok env prev [] [] = True"
| "journal_ok env prev (r # rs) (c # cs) = (entry_ok env prev r c \<and> journal_ok env (Some c) rs cs)"
| "journal_ok env prev _ _ = False"

lemma journal_ok_Nil [simp]: "journal_ok env prev [] cs \<longleftrightarrow> cs = []"
  by (cases cs) auto

definition last_or :: "'a option \<Rightarrow> 'a list \<Rightarrow> 'a option" where
  "last_or d xs = (if xs = [] then d else Some (last xs))"

lemma last_or_simps [simp]: "last_or d [] = d" "last_or d (x # xs) = last_or (Some x) xs" "last_or d (xs @ [x]) = Some x"
  by (auto simp: last_or_def)

lemma journal_ok_snoc:
  "journal_ok env prev rs cs \<Longrightarrow> entry_ok env (last_or prev cs) r c \<Longrightarrow> journal_ok env prev (rs @ [r]) (cs @ [c])"
  by (induction env prev rs cs rule: journal_ok.induct) auto

lemma journal_ok_length: "journal_ok env prev rs cs \<Longrightarrow> length rs = length cs"
  by (induction env prev rs cs rule: journal_ok.induct) auto

text \<open>A record that went through the JSON codec keeps everything but the spelling of the event payloads.\<close>

definition record_eq :: "'k witness_env \<Rightarrow> witnessedRecord \<Rightarrow> witnessedRecord \<Rightarrow> bool" where
  "record_eq env r r' \<longleftrightarrow> Bundle_Checkpoint (WR_Bundle r) = Bundle_Checkpoint (WR_Bundle r') \<and>
     map (event_view (wcrypto env)) (Bundle_Events (WR_Bundle r)) = map (event_view (wcrypto env)) (Bundle_Events (WR_Bundle r')) \<and>
     WR_Signature r = WR_Signature r' \<and> WR_Historical r = WR_Historical r'"

lemma build_step_view: "event_view env e = event_view env e' \<Longrightarrow> build_step env f st e = build_step env f st e'"
  by (cases st) (simp add: build_step_def event_view_def EventDigest_def)

lemma build_fold_view:
  assumes "map (event_view env) es = map (event_view env) es'"
  shows "res_fold (build_step env f) st es = res_fold (build_step env f) st es'"
  using assms
proof (induction es arbitrary: es' st)
  case (Cons e es)
  then obtain e' r where e': "es' = e' # r" "event_view env e = event_view env e'" "map (event_view env) es = map (event_view env) r"
    by (cases es') auto
  have "build_step env f st e = build_step env f st e'" by (rule build_step_view [OF e'(2)])
  then show ?case using Cons.IH [OF e'(3)] by (simp add: e'(1))
qed simp

lemma Build_view:
  assumes "map (event_view (Crypto env)) es = map (event_view (Crypto env)) es'"
  shows "Build env l es p t = Build env l es' p t"
  unfolding Build_def by (simp only: build_fold_view [OF assms])

lemma entry_ok_eq: "record_eq env r r' \<Longrightarrow> entry_ok env prev r c \<Longrightarrow> entry_ok env prev r' c"
  unfolding entry_ok_def record_eq_def
  using Build_view [of "WAudit env" "Bundle_Events (WR_Bundle r)" "Bundle_Events (WR_Bundle r')"] by simp

lemma validate_entry:
  assumes "validate env w b now = Inr cp"
  shows "checkpoint_in env (Bundle_Checkpoint b) = Inr cp"
    "\<exists>x. Build (WAudit env) (CP_LogID cp) (Bundle_Events b) (W_last w) (CP_IssuedAt cp) = Inr x \<and>
       mustDigest (WAudit env) cp = mustDigest (WAudit env) x"
proof -
  obtain keys where "VerifyCheckpoint (WAudit env) (Bundle_Checkpoint b) keys (Bundle_Events b) (W_last w) now = Inr cp"
    using assms unfolding validate_def by (auto simp only: res_simps split: option.splits)
  then obtain b' where b': "Verify (wcrypto env) (Bundle_Checkpoint b) keys = Inr b'" "DecodeCheckpoint (WAudit env) b' = Inr cp"
    and x: "\<exists>x. Build (WAudit env) (CP_LogID cp) (Bundle_Events b) (W_last w) (CP_IssuedAt cp) = Inr x \<and>
       mustDigest (WAudit env) cp = mustDigest (WAudit env) x"
    by (auto simp: VerifyCheckpoint_def res_simps)
  show "checkpoint_in env (Bundle_Checkpoint b) = Inr cp" using Verify_Inr(1) [OF b'(1)] b'(2) by (simp add: checkpoint_in_def)
  show "\<exists>x. Build (WAudit env) (CP_LogID cp) (Bundle_Events b) (W_last w) (CP_IssuedAt cp) = Inr x \<and>
       mustDigest (WAudit env) cp = mustDigest (WAudit env) x" by (rule x)
qed

lemma replay_step_entry:
  assumes "replay_step env w (line, now) = Inr w'"
  obtains r cp where "DecodeRecord env (drop_cr line) = Inr r" "entry_ok env (W_last w) r cp"
    "w' = w\<lparr>W_last := Some cp, W_lastRecord := Some r\<rparr>"
proof -
  obtain r cp where r: "DecodeRecord env (drop_cr line) = Inr r" "validate env w (WR_Bundle r) now = Inr cp"
    and sig: "WR_Signature r = None \<or> (\<exists>e. WR_Signature r = Some e \<and> check_signature env w r cp e = Inr ())"
    and w': "w' = w\<lparr>W_last := Some cp, W_lastRecord := Some r\<rparr>"
    using assms by (auto simp: replay_step_def res_simps split: if_splits option.splits)
  have "checkpoint_in env e = Inr cp" if "WR_Signature r = Some e" for e
  proof -
    have "Envelope_Payload e = Envelope_Payload (Bundle_Checkpoint (WR_Bundle r))"
      using sig that by (auto simp: check_signature_def res_simps)
    then show ?thesis using validate_entry(1) [OF r(2)] by (simp add: checkpoint_in_def)
  qed
  then have "entry_ok env (W_last w) r cp" using validate_entry [OF r(2)] by (simp add: entry_ok_def)
  then show thesis using that r(1) w' by blast
qed

section \<open>Journals as text\<close>

definition encodes :: "'k witness_env \<Rightarrow> string \<Rightarrow> witnessedRecord list \<Rightarrow> bool" where
  "encodes env file rs \<longleftrightarrow> (\<exists>ls. file = concat (map (\<lambda>l. l @ [CHR 0x0A]) ls) \<and>
     list_all2 (\<lambda>l r. CHR 0x0A \<notin> set l \<and> DecodeRecord env (drop_cr l) = Inr r) ls rs)"

lemma split_on_line: "c \<notin> set l \<Longrightarrow> split_on c (l @ c # s) = l # split_on c s"
  by (induction l) auto

lemma split_on_lines:
  "\<forall>l\<in>set ls. c \<notin> set l \<Longrightarrow> split_on c (concat (map (\<lambda>l. l @ [c]) ls)) = ls @ [[]]"
  by (induction ls) (auto simp: split_on_line)

lemma journal_lines_concat:
  assumes "\<forall>l\<in>set ls. CHR 0x0A \<notin> set l"
  shows "journal_lines (concat (map (\<lambda>l. l @ [CHR 0x0A]) ls)) = ls"
proof (cases ls)
  case (Cons a list)
  then show ?thesis using split_on_lines [OF assms] by (simp add: journal_lines_def)
qed (simp add: journal_lines_def)

lemma encodes_snoc:
  assumes "encodes env file rs" "CHR 0x0A \<notin> set l" "DecodeRecord env (drop_cr l) = Inr r"
  shows "encodes env (file @ l @ [CHR 0x0A]) (rs @ [r])"
proof -
  obtain ls where ls: "file = concat (map (\<lambda>l. l @ [CHR 0x0A]) ls)"
    "list_all2 (\<lambda>l r. CHR 0x0A \<notin> set l \<and> DecodeRecord env (drop_cr l) = Inr r) ls rs" using assms(1) by (auto simp: encodes_def)
  have "list_all2 (\<lambda>l r. CHR 0x0A \<notin> set l \<and> DecodeRecord env (drop_cr l) = Inr r) (ls @ [l]) (rs @ [r])"
    using ls(2) assms(2,3) by (simp add: list_all2_appendI)
  then show ?thesis unfolding encodes_def using ls(1) by (intro exI [of _ "ls @ [l]"]) simp
qed

lemma replay_journal:
  assumes "res_fold (replay_step env) w (zip ls ts) = Inr w'" "length ts = length ls"
    "list_all2 (\<lambda>l r. CHR 0x0A \<notin> set l \<and> DecodeRecord env (drop_cr l) = Inr r) ls rs" "journal_ok env (W_last w) rs cs"
  shows "W_last w' = last_or (W_last w) cs \<and> W_lastRecord w' = last_or (W_lastRecord w) rs \<and>
    W_poisoned w' = W_poisoned w \<and> W_journal w' = W_journal w"
  using assms
proof (induction ls arbitrary: w ts rs cs)
  case (Cons l ls)
  obtain t ts' where ts: "ts = t # ts'" using Cons.prems(2) by (cases ts) auto
  obtain r rs' where rs: "rs = r # rs'" "DecodeRecord env (drop_cr l) = Inr r"
    "list_all2 (\<lambda>l r. CHR 0x0A \<notin> set l \<and> DecodeRecord env (drop_cr l) = Inr r) ls rs'"
    using Cons.prems(3) by (auto simp: list_all2_Cons1)
  obtain c cs' where cs: "cs = c # cs'" "entry_ok env (W_last w) r c" "journal_ok env (Some c) rs' cs'"
    using Cons.prems(4) rs(1) by (cases cs) auto
  obtain u where u: "replay_step env w (l, t) = Inr u" "res_fold (replay_step env) u (zip ls ts') = Inr w'"
    using Cons.prems(1) ts by (auto simp: res_simps)
  obtain cp where cp: "entry_ok env (W_last w) r cp" "u = w\<lparr>W_last := Some cp, W_lastRecord := Some r\<rparr>"
    using replay_step_entry [OF u(1)] rs(2) by auto
  have "cp = c" using cp(1) cs(2) by (simp add: entry_ok_def)
  then show ?case using Cons.IH [OF u(2) _ rs(3)] Cons.prems(2) ts rs(1) cs cp(2) by simp
qed simp

section \<open>The witness as a process\<close>

text \<open>\<open>WS_file\<close> is what the process sees, \<open>WS_synced\<close> the part known to be durable.  \<open>WS_released\<close> lists the
  envelopes that left the witness.  A crash keeps at least the synced part and at most the file.  A restart may
  use another history, key and clock.\<close>

record 'k witness_system =
  WS_file :: string
  WS_synced :: string
  WS_process :: "'k Witness option"
  WS_released :: "Envelope list"

definition codec_bundle :: "'k witness_env \<Rightarrow> Bundle \<Rightarrow> bool" where
  "codec_bundle env bundle \<longleftrightarrow> (\<forall>r b. WR_Bundle r = bundle\<lparr>Bundle_Witnesses := []\<rparr> \<longrightarrow> RecordJSON env r = Inr b \<longrightarrow>
     CHR 0x0A \<notin> set b \<and> (\<exists>r'. DecodeRecord env (drop_cr b) = Inr r' \<and> record_eq env r r'))"

definition released_by :: "Envelope res \<Rightarrow> Envelope list" where
  "released_by answer = (case answer of Inl _ \<Rightarrow> [] | Inr e \<Rightarrow> if e = no_envelope then [] else [e])"

inductive process_step :: "'k witness_env \<Rightarrow> 'k witness_system \<Rightarrow> 'k witness_system \<Rightarrow> bool"
  for env :: "'k witness_env"
where
  observe: "WS_process s = Some w \<Longrightarrow> codec_bundle env bundle \<Longrightarrow>
    Observe env sign io w (WS_file s) bundle now = (answer, w', file') \<Longrightarrow>
    process_step env s \<lparr>WS_file = file', WS_synced = (if is_ok answer then file' else WS_synced s), WS_process = Some w',
      WS_released = WS_released s @ released_by answer\<rparr>"
| latest: "WS_process s = Some w \<Longrightarrow> Latest w = Some b \<Longrightarrow>
    process_step env s (s\<lparr>WS_released := WS_released s @ Bundle_Witnesses b\<rparr>)"
| close: "WS_process s = Some w \<Longrightarrow> process_step env s (s\<lparr>WS_process := Some (Close w)\<rparr>)"
| crash: "prefix (WS_synced s) t \<Longrightarrow> prefix t (WS_file s) \<Longrightarrow>
    process_step env s (s\<lparr>WS_file := t, WS_process := None\<rparr>)"
| restart: "WS_process s = None \<Longrightarrow> openWitness env keyID key history now ready (WS_file s) clock = Inr w \<Longrightarrow>
    process_step env s (s\<lparr>WS_synced := WS_file s, WS_process := Some w\<rparr>)"

definition witness_start :: "'k witness_system \<Rightarrow> bool" where
  "witness_start s \<longleftrightarrow> s = \<lparr>WS_file = [], WS_synced = [], WS_process = None, WS_released = []\<rparr>"

text \<open>What is relied on of the JSON encoding of checkpoints.\<close>

definition checkpoint_codec :: "'k witness_env \<Rightarrow> bool" where
  "checkpoint_codec env \<longleftrightarrow> json_roundtrip (WAudit env) \<and>
     (\<forall>c raw. MarshalCheckpoint env c = Inr raw \<longrightarrow> CanonJSON (wcrypto env) raw = CheckpointJSON (WAudit env) c) \<and>
     (\<forall>b c. DecodeCheckpoint (WAudit env) b = Inr c \<longrightarrow> is_ok (CheckpointJSON (WAudit env) c))"

text \<open>At most one record is pending: written in part or in full, but not known to be durable.\<close>

definition pending :: "'k witness_env \<Rightarrow> witnessedRecord list \<Rightarrow> Checkpoint list \<Rightarrow> string \<Rightarrow> bool" where
  "pending env rs cs tail \<longleftrightarrow> tail = [] \<or> (\<exists>l r c. prefix tail (l @ [CHR 0x0A]) \<and> CHR 0x0A \<notin> set l \<and>
     DecodeRecord env (drop_cr l) = Inr r \<and> entry_ok env (last_or None cs) r c)"

definition process_ok :: "'k witness_env \<Rightarrow> witnessedRecord list \<Rightarrow> Checkpoint list \<Rightarrow> string \<Rightarrow> 'k Witness \<Rightarrow> bool" where
  "process_ok env rs cs tail w \<longleftrightarrow>
     (\<forall>r e. W_lastRecord w = Some r \<longrightarrow> WR_Signature r = Some e \<longrightarrow> Some e \<in> WR_Signature ` set rs) \<and>
     (\<not> W_poisoned w \<longrightarrow> tail = [] \<and> W_last w = last_or None cs)"

definition witness_inv :: "'k witness_env \<Rightarrow> 'k witness_system \<Rightarrow> bool" where
  "witness_inv env s \<longleftrightarrow> (\<exists>rs cs tail. encodes env (WS_synced s) rs \<and> journal_ok env None rs cs \<and>
     WS_file s = WS_synced s @ tail \<and> pending env rs cs tail \<and>
     (\<forall>w. WS_process s = Some w \<longrightarrow> process_ok env rs cs tail w) \<and>
     Some ` set (WS_released s) \<subseteq> WR_Signature ` set rs)"

lemma prepare_entry:
  assumes "prepare env sign w bundle now = Inr (cp, r, encoded)" "checkpoint_codec env" "codec_bundle env bundle"
  obtains b r' where "encoded = b @ [CHR 0x0A]" "CHR 0x0A \<notin> set b" "DecodeRecord env (drop_cr b) = Inr r'"
    "record_eq env r r'" "entry_ok env (W_last w) r' cp"
proof -
  have v: "validate env w bundle now = Inr cp" and enc: "encodeWitnessRecord env r = Inr encoded"
    and rb: "WR_Bundle r = bundle\<lparr>Bundle_Witnesses := []\<rparr>"
    and sig: "WR_Signature r = None \<or> (\<exists>e. WR_Signature r = Some e \<and>
      Sign (wcrypto env) (W_keyID w) (W_key w) sign (MarshalCheckpoint env cp) = Inr e)"
    using assms(1) by (auto simp: prepare_def Let_def res_simps split: if_splits)
  obtain b where b: "RecordJSON env r = Inr b" "encoded = b @ [CHR 0x0A]"
    using enc by (auto simp: encodeWitnessRecord_def res_simps)
  obtain r' where r': "CHR 0x0A \<notin> set b" "DecodeRecord env (drop_cr b) = Inr r'" "record_eq env r r'"
    using assms(3) rb b(1) unfolding codec_bundle_def by blast
  have "checkpoint_in env e = Inr cp" if e: "WR_Signature r = Some e" for e
  proof -
    obtain raw data where "MarshalCheckpoint env cp = Inr raw" "CanonJSON (wcrypto env) raw = Inr data" "Envelope_Payload e = b64_encode data"
      using sig e by (auto simp: Sign_def res_simps)
    then have "CheckpointJSON (WAudit env) cp = Inr data" "Envelope_Payload e = b64_encode data"
      using assms(2) by (auto simp: checkpoint_codec_def)
    then show ?thesis using assms(2) by (simp add: checkpoint_in_def checkpoint_codec_def json_roundtrip_def)
  qed
  then have "entry_ok env (W_last w) r cp" unfolding entry_ok_def rb using validate_entry [OF v] by simp
  then show thesis using that b(2) r' entry_ok_eq by blast
qed

section \<open>The invariant\<close>

lemma Observe_cases:
  assumes "Observe env sign io w file bundle now = (answer, w', file')"
  obtains (refused) e where "answer = Inl e" "w' = w" "file' = file"
  | (repeated) r where "W_lastRecord w = Some r" "answer = Inr (case WR_Signature r of None \<Rightarrow> no_envelope | Some e \<Rightarrow> e)" "w' = w" "file' = file"
      "\<not> W_poisoned w"
  | (failed) cp r encoded e where "prepare env sign w bundle now = Inr (cp, r, encoded)" "\<not> W_poisoned w" "answer = Inl e"
      "w' = w\<lparr>W_poisoned := True\<rparr>" "prefix file' (file @ encoded)" "prefix file file'"
  | (recorded) cp r encoded where "prepare env sign w bundle now = Inr (cp, r, encoded)" "\<not> W_poisoned w"
      "answer = Inr (case WR_Signature r of None \<Rightarrow> no_envelope | Some e \<Rightarrow> e)"
      "w' = w\<lparr>W_last := Some cp, W_lastRecord := Some r\<rparr>" "file' = file @ encoded"
proof (cases "W_poisoned w \<or> \<not> W_journal w")
  case True
  then show thesis using assms refused by (auto simp: Observe_def)
next
  case alive: False
  show thesis
  proof (cases "is_retry w bundle")
    case True
    then obtain r where r: "W_lastRecord w = Some r" by (auto simp: is_retry_def split: option.splits)
    have o: "answer = retry env w r bundle" "w' = w" "file' = file" using assms alive True r by (auto simp: Observe_def)
    show thesis
    proof (cases answer)
      case (Inr e)
      then have "e = (case WR_Signature r of None \<Rightarrow> no_envelope | Some e \<Rightarrow> e)"
        using o(1) by (auto simp: retry_def res_simps)
      then show thesis using repeated [OF r] Inr o alive by simp
    qed (use refused o in simp)
  next
    case False
    show thesis
    proof (cases "prepare env sign w bundle now")
      case (Inl e)
      then show thesis using assms alive False refused by (auto simp: Observe_def)
    next
      case (Inr p)
      obtain cp r encoded where p: "p = (cp, r, encoded)" by (cases p)
      have o: "append_record io w file (cp, r, encoded) = (answer, w', file')"
        using assms alive False Inr p by (simp add: Observe_def)
      show thesis
      proof (cases "IO_writeErr io \<or> IO_written io \<noteq> length encoded \<or> IO_syncErr io")
        case True
        have "prefix (file @ take (IO_written io) encoded) (file @ encoded)" by (simp add: take_is_prefix)
        then show thesis using o True failed [of cp r encoded] Inr p alive
          by (auto simp: append_record_def Let_def split: if_splits)
      next
        case False
        then show thesis using o recorded [of cp r encoded] Inr p alive by (simp add: append_record_def)
      qed
    qed
  qed
qed

lemma encodes_last: "encodes env file rs \<Longrightarrow> file = [] \<or> last file = CHR 0x0A"
  by (cases "rs" rule: rev_cases) (auto simp: encodes_def list_all2_append2 list_all2_Cons2)

lemma pending_take: "pending env rs cs tail \<Longrightarrow> prefix tail' tail \<Longrightarrow> pending env rs cs tail'"
  unfolding pending_def by (metis prefix_order.trans prefix_Nil)

lemma released_by_signature: "set (released_by (Inr (case s of None \<Rightarrow> no_envelope | Some e \<Rightarrow> e))) \<subseteq> {e. s = Some e}"
  by (auto simp: released_by_def split: option.splits if_splits)

text \<open>A file that ends in a line break has no partial record.\<close>

lemma pending_complete:
  assumes "encodes env synced rs" "journal_ok env None rs cs" "pending env rs cs tail" "tail = [] \<or> last tail = CHR 0x0A"
  obtains rs' cs' where "encodes env (synced @ tail) rs'" "journal_ok env None rs' cs'" "set rs \<subseteq> set rs'"
proof (cases "tail = []")
  case True
  then show thesis using that assms by auto
next
  case False
  then obtain l r c where p: "prefix tail (l @ [CHR 0x0A])" "CHR 0x0A \<notin> set l" "DecodeRecord env (drop_cr l) = Inr r"
    "entry_ok env (last_or None cs) r c" using assms(3) by (auto simp: pending_def)
  have nl: "last tail = CHR 0x0A" using False assms(4) by simp
  have "tail = l @ [CHR 0x0A]"
  proof (rule ccontr)
    assume "tail \<noteq> l @ [CHR 0x0A]"
    then have "prefix tail l" using p(1) by (simp add: prefix_snoc)
    then have "CHR 0x0A \<in> set l" using nl False by (metis last_in_set set_mono_prefix subsetD)
    then show False using p(2) by simp
  qed
  then have "encodes env (synced @ tail) (rs @ [r])" using encodes_snoc [OF assms(1) p(2,3)] by simp
  then show thesis using that [of "rs @ [r]" "cs @ [c]"] journal_ok_snoc [OF assms(2) p(4)] by auto
qed

lemma released_subset:
  "Some ` set rel \<subseteq> S \<Longrightarrow> (\<And>e. sig = Some e \<Longrightarrow> Some e \<in> S) \<Longrightarrow>
   Some ` set (rel @ released_by (Inr (case sig of None \<Rightarrow> no_envelope | Some e \<Rightarrow> e))) \<subseteq> S"
  using released_by_signature [of sig] by auto

lemma observe_inv:
  assumes "checkpoint_codec env" "witness_inv env s" "WS_process s = Some w" "codec_bundle env bundle"
    "Observe env sign io w (WS_file s) bundle now = (answer, w', file')"
  shows "witness_inv env \<lparr>WS_file = file', WS_synced = (if is_ok answer then file' else WS_synced s), WS_process = Some w',
      WS_released = WS_released s @ released_by answer\<rparr>"
proof -
  obtain rs cs tail where i: "encodes env (WS_synced s) rs" "journal_ok env None rs cs" "WS_file s = WS_synced s @ tail"
    "pending env rs cs tail" "process_ok env rs cs tail w" "Some ` set (WS_released s) \<subseteq> WR_Signature ` set rs"
    using assms(2,3) by (auto simp: witness_inv_def)
  from assms(5) show ?thesis
  proof (cases rule: Observe_cases)
    case (refused e)
    then show ?thesis using i by (auto simp: witness_inv_def released_by_def)
  next
    case (repeated r)
    then have t: "tail = []" and sig: "WR_Signature r = Some e \<Longrightarrow> Some e \<in> WR_Signature ` set rs" for e
      using i(5) by (auto simp: process_ok_def)
    show ?thesis unfolding witness_inv_def
      using i repeated t released_subset [OF i(6) sig] by (intro exI [of _ rs] exI [of _ cs] exI [of _ tail]) simp
  next
    case (failed cp r encoded e)
    obtain b r' where b: "encoded = b @ [CHR 0x0A]" "CHR 0x0A \<notin> set b" "DecodeRecord env (drop_cr b) = Inr r'"
      "entry_ok env (W_last w) r' cp"
      by (rule prepare_entry [OF failed(1) assms(1,4)]) auto
    have w: "tail = []" "W_last w = last_or None cs" using i(5) failed(2) by (auto simp: process_ok_def)
    obtain z where z: "file' = WS_synced s @ z" "prefix z encoded"
      using failed(5,6) i(3) w(1) by (auto simp: prefix_def)
    have "pending env rs cs z" using z(2) b w(2) unfolding pending_def by auto
    then show ?thesis unfolding witness_inv_def
      using i failed(3,4) z(1) by (intro exI [of _ rs] exI [of _ cs] exI [of _ z]) (auto simp: process_ok_def released_by_def)
  next
    case (recorded cp r encoded)
    obtain b r' where b: "encoded = b @ [CHR 0x0A]" "CHR 0x0A \<notin> set b" "DecodeRecord env (drop_cr b) = Inr r'"
      "record_eq env r r'" "entry_ok env (W_last w) r' cp"
      by (rule prepare_entry [OF recorded(1) assms(1,4)]) auto
    have w: "tail = []" "W_last w = last_or None cs" using i(5) recorded(2) by (auto simp: process_ok_def)
    have sig: "WR_Signature r = WR_Signature r'" using b(4) by (simp add: record_eq_def)
    have "encodes env file' (rs @ [r'])" using encodes_snoc [OF i(1) b(2,3)] recorded(5) i(3) w(1) b(1) by simp
    moreover have "journal_ok env None (rs @ [r']) (cs @ [cp])" using journal_ok_snoc [OF i(2)] b(5) w(2) by simp
    moreover have "Some ` set (WS_released s @ released_by answer) \<subseteq> WR_Signature ` set (rs @ [r'])"
      unfolding recorded(3) by (rule released_subset) (use i(6) sig in \<open>auto simp: image_iff\<close>)
    ultimately show ?thesis unfolding witness_inv_def
      using recorded sig by (intro exI [of _ "rs @ [r']"] exI [of _ "cs @ [cp]"] exI [of _ "[]"]) (auto simp: process_ok_def pending_def image_iff)
  qed
qed

lemma openWitness_replay:
  assumes "openWitness env keyID key history now ready file clock = Inr w" "encodes env file rs" "journal_ok env None rs cs"
  shows "W_last w = last_or None cs" "W_lastRecord w = last_or None rs"
proof -
  obtain ls where ls: "file = concat (map (\<lambda>l. l @ [CHR 0x0A]) ls)"
    "list_all2 (\<lambda>l r. CHR 0x0A \<notin> set l \<and> DecodeRecord env (drop_cr l) = Inr r) ls rs" using assms(2) by (auto simp: encodes_def)
  have "\<forall>l\<in>set ls. CHR 0x0A \<notin> set l" using ls(2) by (auto simp: list_all2_conv_all_nth in_set_conv_nth)
  then have jl: "journal_lines file = ls" using journal_lines_concat ls(1) by simp
  obtain w0 where "res_fold (replay_step env) w0 (zip ls (map clock [0..<length ls])) = Inr w" "W_last w0 = None" "W_lastRecord w0 = None"
    using assms(1) unfolding openWitness_def Let_def jl by (auto simp: res_simps split: option.splits)
  from replay_journal [OF this(1) _ ls(2)] this(2,3) assms(3)
  show "W_last w = last_or None cs" "W_lastRecord w = last_or None rs" by simp_all
qed

lemma openWitness_tail:
  "openWitness env keyID key history now ready file clock = Inr w \<Longrightarrow> file = [] \<or> last file = CHR 0x0A"
  by (auto simp: openWitness_def check_tail_def Let_def res_simps split: option.splits)

lemma restart_inv:
  assumes "witness_inv env s" "openWitness env keyID key history now ready (WS_file s) clock = Inr w"
  shows "witness_inv env (s\<lparr>WS_synced := WS_file s, WS_process := Some w\<rparr>)"
proof -
  obtain rs cs tail where i: "encodes env (WS_synced s) rs" "journal_ok env None rs cs" "WS_file s = WS_synced s @ tail"
    "pending env rs cs tail" "Some ` set (WS_released s) \<subseteq> WR_Signature ` set rs"
    using assms(1) by (auto simp: witness_inv_def)
  have "tail = [] \<or> last tail = CHR 0x0A" using openWitness_tail [OF assms(2)] i(3) by (auto simp: last_append split: if_splits)
  then obtain rs' cs' where r: "encodes env (WS_file s) rs'" "journal_ok env None rs' cs'" "set rs \<subseteq> set rs'"
    using pending_complete [OF i(1,2,4)] i(3) by metis
  note o = openWitness_replay [OF assms(2) r(1,2)]
  have "r \<in> set rs'" if "W_lastRecord w = Some r" for r using o(2) that by (auto simp: last_or_def split: if_splits)
  then have "process_ok env rs' cs' [] w" using o(1) by (force simp: process_ok_def)
  moreover have "Some ` set (WS_released s) \<subseteq> WR_Signature ` set rs'" using i(5) image_mono [OF r(3)] by (rule subset_trans)
  ultimately show ?thesis unfolding witness_inv_def
    using r by (intro exI [of _ rs'] exI [of _ cs'] exI [of _ "[]"]) (auto simp: pending_def)
qed

lemma crash_inv:
  assumes "witness_inv env s" "prefix (WS_synced s) t" "prefix t (WS_file s)"
  shows "witness_inv env (s\<lparr>WS_file := t, WS_process := None\<rparr>)"
proof -
  obtain rs cs tail where i: "encodes env (WS_synced s) rs" "journal_ok env None rs cs" "WS_file s = WS_synced s @ tail"
    "pending env rs cs tail" "Some ` set (WS_released s) \<subseteq> WR_Signature ` set rs"
    using assms(1) by (auto simp: witness_inv_def)
  obtain z where z: "t = WS_synced s @ z" "prefix z tail" using assms(2,3) i(3) by (auto simp: prefix_def)
  then show ?thesis unfolding witness_inv_def
    using i pending_take [OF i(4) z(2)] by (intro exI [of _ rs] exI [of _ cs] exI [of _ z]) auto
qed

lemma latest_inv:
  assumes "witness_inv env s" "WS_process s = Some w" "Latest w = Some b"
  shows "witness_inv env (s\<lparr>WS_released := WS_released s @ Bundle_Witnesses b\<rparr>)"
proof -
  obtain r where r: "W_lastRecord w = Some r" "Bundle_Witnesses b = (case WR_Signature r of None \<Rightarrow> [] | Some e \<Rightarrow> [e])"
    using assms(3) by (auto simp: Latest_def)
  obtain rs cs tail where i: "encodes env (WS_synced s) rs" "journal_ok env None rs cs" "WS_file s = WS_synced s @ tail"
    "pending env rs cs tail" "process_ok env rs cs tail w" "Some ` set (WS_released s) \<subseteq> WR_Signature ` set rs"
    using assms(1,2) by (auto simp: witness_inv_def)
  have "Some ` set (Bundle_Witnesses b) \<subseteq> WR_Signature ` set rs"
    using i(5) r by (auto simp: process_ok_def split: option.splits)
  then show ?thesis unfolding witness_inv_def
    using i assms(2) by (intro exI [of _ rs] exI [of _ cs] exI [of _ tail]) auto
qed

interpretation witness: invariant_system witness_start "process_step env" "\<lambda>s. checkpoint_codec env \<longrightarrow> witness_inv env s"
  for env :: "'k witness_env"
proof
  show "checkpoint_codec env \<longrightarrow> witness_inv env s" if "witness_start s" for s
    using that by (auto simp: witness_start_def witness_inv_def encodes_def pending_def)
  show "checkpoint_codec env \<longrightarrow> witness_inv env t"
    if "checkpoint_codec env \<longrightarrow> witness_inv env s" "process_step env s t" for s t
    using that(2,1)
  proof cases
    case (observe w b sign io now answer w' file')
    then show ?thesis using that(1) observe_inv by blast
  next
    case (close w)
    then show ?thesis using that(1) by (auto simp: witness_inv_def process_ok_def Close_def)
  next
    case (latest w b)
    then show ?thesis using that(1) latest_inv by blast
  next
    case (crash t)
    then show ?thesis using that(1) crash_inv by blast
  next
    case (restart keyID key history now ready clock w)
    then show ?thesis using that(1) restart_inv [of env s keyID key history now ready clock w] by simp
  qed
qed

section \<open>No fork\<close>

fun journal_inputs :: "'k witness_env \<Rightarrow> Checkpoint option \<Rightarrow> witnessedRecord list \<Rightarrow> string set" where
  "journal_inputs env prev [] = {}"
| "journal_inputs env prev (r # rs) = (case checkpoint_in env (Bundle_Checkpoint (WR_Bundle r)) of Inl _ \<Rightarrow> {}
     | Inr c \<Rightarrow> compared_inputs (WAudit env) c (Bundle_Events (WR_Bundle r)) prev \<union> journal_inputs env (Some c) rs)"

definition predecessor_digest :: "'k witness_env \<Rightarrow> Checkpoint option \<Rightarrow> string" where
  "predecessor_digest env prev = (case prev of None \<Rightarrow> Genesis | Some p \<Rightarrow> mustDigest (WAudit env) p)"

lemma Build_predecessor:
  "Build env l es prev t = Inr x \<Longrightarrow> CP_PreviousCheckpointDigest x = (case prev of None \<Rightarrow> Genesis | Some p \<Rightarrow> mustDigest env p)"
  by (auto simp: Build_def build_prior_def mustDigest_def res_simps split: option.splits)

lemma entry_predecessor:
  assumes "checkpoint_codec env" "entry_ok env prev r c"
    "\<not> collision_between (Sha (wcrypto env)) (compared_inputs (WAudit env) c (Bundle_Events (WR_Bundle r)) prev)
        (compared_inputs (WAudit env) c (Bundle_Events (WR_Bundle r)) prev)"
  shows "CP_PreviousCheckpointDigest c = predecessor_digest env prev"
    "\<exists>b \<in> compared_inputs (WAudit env) c (Bundle_Events (WR_Bundle r)) prev. CheckpointJSON (WAudit env) c = Inr b"
proof -
  obtain x where x: "Build (WAudit env) (CP_LogID c) (Bundle_Events (WR_Bundle r)) prev (CP_IssuedAt c) = Inr x"
    "mustDigest (WAudit env) c = mustDigest (WAudit env) x" using assms(2) by (auto simp: entry_ok_def)
  obtain b0 where "DecodeCheckpoint (WAudit env) b0 = Inr c"
    using assms(2) by (auto simp: entry_ok_def checkpoint_in_def split: option.splits)
  then obtain b where b: "CheckpointJSON (WAudit env) c = Inr b"
    using assms(1) unfolding checkpoint_codec_def is_ok_iff by blast
  have "\<not> collision_between (Sha (wcrypto env)) {b} {z. CheckpointJSON (WAudit env) x = Inr z}"
    by (rule no_collision_mono [OF assms(3)]) (use b x(1) in \<open>auto simp: compared_inputs_def\<close>)
  moreover have "json_roundtrip (WAudit env)" using assms(1) by (simp add: checkpoint_codec_def)
  ultimately have "c = x" using must_digest_eq [OF _ b x(2)] by blast
  then show "CP_PreviousCheckpointDigest c = predecessor_digest env prev"
    using Build_predecessor [OF x(1)] by (simp add: predecessor_digest_def)
  show "\<exists>b \<in> compared_inputs (WAudit env) c (Bundle_Events (WR_Bundle r)) prev. CheckpointJSON (WAudit env) c = Inr b"
    using b by (auto simp: compared_inputs_def)
qed

text \<open>In a journal without collisions each entry names its position's predecessor and was hashed.\<close>

lemma journal_positions:
  assumes "checkpoint_codec env" "journal_ok env prev rs cs"
    "\<not> collision_between (Sha (wcrypto env)) (journal_inputs env prev rs) (journal_inputs env prev rs)" "i < length cs"
  shows "CP_PreviousCheckpointDigest (cs ! i) = predecessor_digest env (if i = 0 then prev else Some (cs ! (i - 1))) \<and>
    (\<exists>b \<in> journal_inputs env prev rs. CheckpointJSON (WAudit env) (cs ! i) = Inr b)"
  using assms
proof (induction env prev rs cs arbitrary: i rule: journal_ok.induct)
  case (2 env prev r rs c cs)
  have e: "entry_ok env prev r c" and j: "journal_ok env (Some c) rs cs" using 2(3) by auto
  have c: "checkpoint_in env (Bundle_Checkpoint (WR_Bundle r)) = Inr c" using e by (simp add: entry_ok_def)
  show ?case
  proof (cases i)
    case 0
    have "\<not> collision_between (Sha (wcrypto env)) (compared_inputs (WAudit env) c (Bundle_Events (WR_Bundle r)) prev)
        (compared_inputs (WAudit env) c (Bundle_Events (WR_Bundle r)) prev)"
      by (rule no_collision_mono [OF 2(4)]) (simp_all add: c)
    from entry_predecessor [OF 2(2) e this] show ?thesis using 0 c by auto
  next
    case (Suc k)
    have "\<not> collision_between (Sha (wcrypto env)) (journal_inputs env (Some c) rs) (journal_inputs env (Some c) rs)"
      by (rule no_collision_mono [OF 2(4)]) (simp_all add: c)
    from 2(1) [OF 2(2) j this, of k] show ?thesis using Suc c 2(5) by (cases k) auto
  qed
qed auto

lemma mustDigest_inj:
  assumes "json_roundtrip (WAudit env)" "CheckpointJSON (WAudit env) a = Inr x" "CheckpointJSON (WAudit env) b = Inr y"
    "mustDigest (WAudit env) a = mustDigest (WAudit env) b" "x \<in> X" "y \<in> X" "\<not> collision_between (Sha (wcrypto env)) X X"
  shows "a = b"
  by (rule must_digest_eq [OF assms(1,2,4)], rule no_collision_mono [OF assms(7)]) (use assms in auto)

lemma predecessors_differ:
  assumes "checkpoint_codec env" "journal_ok env None rs cs" "j < length cs" "i < j"
    and nc: "\<not> collision_between (Sha (wcrypto env)) (journal_inputs env None rs) (journal_inputs env None rs)"
  shows "CP_PreviousCheckpointDigest (cs ! i) \<noteq> CP_PreviousCheckpointDigest (cs ! j)"
  using assms(3,4)
proof (induction i arbitrary: j)
  case 0
  have "CP_PreviousCheckpointDigest (cs ! j) = mustDigest (WAudit env) (cs ! (j - 1))"
    "CP_PreviousCheckpointDigest (cs ! 0) = Genesis"
    using journal_positions [OF assms(1,2) nc, of j] journal_positions [OF assms(1,2) nc, of 0] 0
    by (auto simp: predecessor_digest_def simp del: length_greater_0_conv)
  moreover have "mustDigest (WAudit env) c \<noteq> Genesis" for c
    by (auto simp: mustDigest_def CanonicalDigest_def Hash_def DigestBytes_def Genesis_def res_simps split: sum.splits)
  ultimately show ?case by metis
next
  case (Suc i)
  have p: "CP_PreviousCheckpointDigest (cs ! j) = mustDigest (WAudit env) (cs ! (j - 1))"
    "CP_PreviousCheckpointDigest (cs ! Suc i) = mustDigest (WAudit env) (cs ! i)"
    using journal_positions [OF assms(1,2) nc, of j] journal_positions [OF assms(1,2) nc, of "Suc i"] Suc.prems
    by (auto simp: predecessor_digest_def)
  have k: "j - 1 < length cs" "i < j - 1" using Suc.prems by auto
  obtain x y where x: "x \<in> journal_inputs env None rs" "CheckpointJSON (WAudit env) (cs ! i) = Inr x"
    and y: "y \<in> journal_inputs env None rs" "CheckpointJSON (WAudit env) (cs ! (j - 1)) = Inr y"
    using journal_positions [OF assms(1,2) nc, of i] journal_positions [OF assms(1,2) nc, of "j - 1"] k by auto
  have "cs ! i \<noteq> cs ! (j - 1)" using Suc.IH [OF k] by auto
  then have "mustDigest (WAudit env) (cs ! i) \<noteq> mustDigest (WAudit env) (cs ! (j - 1))"
    using mustDigest_inj [OF _ x(2) y(2) _ x(1) y(1) nc] assms(1) by (auto simp: checkpoint_codec_def)
  then show ?case using p by simp
qed

definition journal_records :: "'k witness_env \<Rightarrow> string \<Rightarrow> witnessedRecord list" where
  "journal_records env file = concat (map (\<lambda>l. case DecodeRecord env (drop_cr l) of Inl _ \<Rightarrow> [] | Inr r \<Rightarrow> [r]) (journal_lines file))"

lemma journal_records_encodes:
  assumes "encodes env file rs" shows "journal_records env file = rs"
proof -
  obtain ls where ls: "file = concat (map (\<lambda>l. l @ [CHR 0x0A]) ls)"
    "list_all2 (\<lambda>l r. CHR 0x0A \<notin> set l \<and> DecodeRecord env (drop_cr l) = Inr r) ls rs" using assms by (auto simp: encodes_def)
  have "\<forall>l\<in>set ls. CHR 0x0A \<notin> set l" using ls(2) by (auto simp: list_all2_conv_all_nth in_set_conv_nth)
  then have "journal_lines file = ls" using journal_lines_concat ls(1) by simp
  moreover have "concat (map (\<lambda>l. case DecodeRecord env (drop_cr l) of Inl _ \<Rightarrow> [] | Inr r \<Rightarrow> [r]) ls) = rs"
    using ls(2) by (induction rule: list_all2_induct) auto
  ultimately show ?thesis by (simp add: journal_records_def)
qed

lemma journal_ok_nth:
  "journal_ok env prev rs cs \<Longrightarrow> i < length rs \<Longrightarrow> WR_Signature (rs ! i) = Some e \<Longrightarrow> checkpoint_in env e = Inr (cs ! i)"
proof (induction env prev rs cs arbitrary: i rule: journal_ok.induct)
  case (2 env prev r rs c cs)
  then show ?case by (cases i) (auto simp: entry_ok_def)
qed auto

lemma released_no_fork:
  assumes "checkpoint_codec env" "witness_inv env s" "e1 \<in> set (WS_released s)" "e2 \<in> set (WS_released s)"
    "checkpoint_in env e1 = Inr c1" "checkpoint_in env e2 = Inr c2" "CP_PreviousCheckpointDigest c1 = CP_PreviousCheckpointDigest c2"
    and nc: "\<not> collision_between (Sha (wcrypto env)) (journal_inputs env None (journal_records env (WS_synced s)))
      (journal_inputs env None (journal_records env (WS_synced s)))"
  shows "c1 = c2"
proof -
  obtain rs cs where i: "encodes env (WS_synced s) rs" "journal_ok env None rs cs" "Some ` set (WS_released s) \<subseteq> WR_Signature ` set rs"
    using assms(2) by (auto simp: witness_inv_def)
  have "Some e1 \<in> WR_Signature ` set rs" "Some e2 \<in> WR_Signature ` set rs" using i(3) assms(3,4) by auto
  then obtain a b where ab: "a < length rs" "WR_Signature (rs ! a) = Some e1" "b < length rs" "WR_Signature (rs ! b) = Some e2"
    by (metis (no_types, opaque_lifting) imageE in_set_conv_nth)
  have c: "c1 = cs ! a" "c2 = cs ! b"
    using journal_ok_nth [OF i(2) ab(1,2)] journal_ok_nth [OF i(2) ab(3,4)] assms(5,6) by auto
  have nc': "\<not> collision_between (Sha (wcrypto env)) (journal_inputs env None rs) (journal_inputs env None rs)"
    using nc journal_records_encodes [OF i(1)] by simp
  note d = predecessors_differ [OF assms(1) i(2) _ _ nc']
  have "a = b"
    using d [of b a] d [of a b] ab(1,3) c assms(7) journal_ok_length [OF i(2)] by (metis linorder_neqE_nat)
  then show ?thesis using c by simp
qed

section \<open>Replay of an observation\<close>

lemma VerifyCheckpoint_later:
  assumes "VerifyCheckpoint env e keys es prev now = Inr cp" "now \<le> now'"
    "map (event_view (Crypto env)) es = map (event_view (Crypto env)) es'"
  shows "VerifyCheckpoint env e keys es' prev now' = Inr cp"
  using assms(1,2) by (auto simp: VerifyCheckpoint_def Build_view [OF assms(3)] res_simps)

lemma validate_later:
  assumes "validate env w b now = Inr cp" "now \<le> now'" "Bundle_Checkpoint b' = Bundle_Checkpoint b"
    "map (event_view (wcrypto env)) (Bundle_Events b) = map (event_view (wcrypto env)) (Bundle_Events b')"
  shows "validate env w b' now' = Inr cp"
proof (cases "b64_decode (Envelope_Payload (Bundle_Checkpoint b))")
  case (Some payload)
  then obtain u where "DecodeCheckpoint (WAudit env) payload = Inr u"
    "VerifyCheckpoint (WAudit env) (Bundle_Checkpoint b) (KeysAt (wcrypto env) (W_history w) ''audit-checkpoint'' (CP_IssuedAt u))
       (Bundle_Events b) (W_last w) now = Inr cp"
    "\<not> (W_last w = None \<and> mustDigest (WAudit env) cp \<noteq> H_GenesisCheckpointDigest (W_history w))"
    using assms(1) by (auto simp: validate_def res_simps)
  then show ?thesis using VerifyCheckpoint_later [OF _ assms(2,4)] Some assms(3) by (simp add: validate_def fail_if_def)
qed (use assms(1) in \<open>simp add: validate_def\<close>)

definition clean_payload :: "'k witness_env \<Rightarrow> Bundle \<Rightarrow> Checkpoint \<Rightarrow> bool" where
  "clean_payload env b cp \<longleftrightarrow> (\<exists>data. CheckpointJSON (WAudit env) cp = Inr data \<and>
     Envelope_Payload (Bundle_Checkpoint b) = b64_encode data)"

lemma signature_replays:
  assumes codec: "checkpoint_codec env" and v: "validate env w b now = Inr cp" and clean: "clean_payload env b cp"
    and sig: "Sign (wcrypto env) (W_keyID w) (W_key w) sign (MarshalCheckpoint env cp) = Inr e"
    and el: "eligible env w (CP_IssuedAt cp)"
    and signer: "\<And>key h s. lookup (KeysAt (wcrypto env) (W_history w) ''audit-witness'' (CP_IssuedAt cp)) (W_keyID w) = Some key \<Longrightarrow>
      sign h = Inr s \<Longrightarrow> IsP256 (wcrypto env) key \<and> VerifyASN1 (wcrypto env) key h s"
    and r: "Bundle_Checkpoint (WR_Bundle r) = Bundle_Checkpoint b"
  shows "check_signature env w r cp e = Inr () \<and> len (Envelope_Signatures e) = 1"
proof -
  obtain data where d: "CheckpointJSON (WAudit env) cp = Inr data" "Envelope_Payload (Bundle_Checkpoint b) = b64_encode data"
    using clean by (auto simp: clean_payload_def)
  obtain raw data' s where "MarshalCheckpoint env cp = Inr raw" "CanonJSON (wcrypto env) raw = Inr data'"
    and s: "sign (Sha (wcrypto env) (pae PayloadType data')) = Inr s"
    "e = \<lparr>Envelope_PayloadType = PayloadType, Envelope_Payload = b64_encode data',
       Envelope_Signatures = [\<lparr>Signature_KeyID = W_keyID w, Signature_Sig = b64_encode s\<rparr>]\<rparr>"
    using sig by (auto simp: Sign_def res_simps)
  then have data': "data' = data" using codec d(1) by (auto simp: checkpoint_codec_def)
  obtain keys where "VerifyCheckpoint (WAudit env) (Bundle_Checkpoint b) keys (Bundle_Events b) (W_last w) now = Inr cp"
    using v unfolding validate_def by (auto simp only: res_simps split: option.splits)
  then obtain p where p: "Verify (wcrypto env) (Bundle_Checkpoint b) keys = Inr p" by (auto simp: VerifyCheckpoint_def res_simps)
  have canon: "CanonJSON (wcrypto env) data = Inr data" using Verify_Inr(1,2) [OF p] d(2) by simp
  have size: "len (b64_encode data) \<le> 2 * MaxDocumentBytes" using p d(2) by (auto simp: Verify_def res_simps)
  obtain key where key: "lookup (KeysAt (wcrypto env) (W_history w) ''audit-witness'' (CP_IssuedAt cp)) (W_keyID w) = Some key"
    "map_text (WitnessOperatorsAt (W_history w) (CP_IssuedAt cp)) (W_keyID w) \<noteq> []" using el by (auto simp: eligible_def)
  have "signature_valid (wcrypto env) PayloadType data key (b64_encode s)"
    using signer [OF key(1) s(1)] data' by (simp add: signature_valid_def)
  then have "Verify (wcrypto env) e (KeysAt (wcrypto env) (W_history w) ''audit-witness'' (CP_IssuedAt cp)) = Inr data"
    using canon size key(1) by (simp add: Verify_def s(2) data' verify_step_def len_def)
  then show ?thesis using key(2) d r
    by (simp add: check_signature_def s(2) data' mustDigest_def CanonicalDigest_def len_def)
qed

lemma prepared_replays:
  assumes codec: "checkpoint_codec env" "codec_bundle env b" and p: "prepare env sign w b now = Inr (cp, r, encoded)"
    and clean: "clean_payload env b cp" and later: "now \<le> now'"
    and signer: "\<And>key h s. lookup (KeysAt (wcrypto env) (W_history w) ''audit-witness'' (CP_IssuedAt cp)) (W_keyID w) = Some key \<Longrightarrow>
      sign h = Inr s \<Longrightarrow> IsP256 (wcrypto env) key \<and> VerifyASN1 (wcrypto env) key h s"
  shows "\<exists>line r'. encoded = line @ [CHR 0x0A] \<and> CHR 0x0A \<notin> set line \<and> record_eq env r r' \<and>
    replay_step env w (line, now') = Inr (w\<lparr>W_last := Some cp, W_lastRecord := Some r'\<rparr>)"
proof -
  have v: "validate env w b now = Inr cp" and enc: "encodeWitnessRecord env r = Inr encoded"
    and rb: "WR_Bundle r = b\<lparr>Bundle_Witnesses := []\<rparr>"
    and sig: "WR_Historical r \<and> WR_Signature r = None \<or> \<not> WR_Historical r \<and> eligible env w (CP_IssuedAt cp) \<and>
      (\<exists>e. WR_Signature r = Some e \<and> Sign (wcrypto env) (W_keyID w) (W_key w) sign (MarshalCheckpoint env cp) = Inr e)"
    using p by (auto simp: prepare_def Let_def res_simps split: if_splits)
  obtain line where l: "encoded = line @ [CHR 0x0A]" "RecordJSON env r = Inr line" "len line + 1 \<le> MaxBundleBytes"
    using enc by (auto simp: encodeWitnessRecord_def res_simps)
  obtain r' where r': "CHR 0x0A \<notin> set line" "DecodeRecord env (drop_cr line) = Inr r'" "record_eq env r r'"
    using codec(2) rb l(2) unfolding codec_bundle_def by blast
  have eq: "Bundle_Checkpoint (WR_Bundle r') = Bundle_Checkpoint b" "WR_Signature r' = WR_Signature r" "WR_Historical r' = WR_Historical r"
    "map (event_view (wcrypto env)) (Bundle_Events b) = map (event_view (wcrypto env)) (Bundle_Events (WR_Bundle r'))"
    using r'(3) rb by (simp_all add: record_eq_def)
  have v': "validate env w (WR_Bundle r') now' = Inr cp" by (rule validate_later [OF v later eq(1,4)])
  have "check_signature env w r' cp e = Inr () \<and> len (Envelope_Signatures e) = 1"
    if "eligible env w (CP_IssuedAt cp)" "Sign (wcrypto env) (W_keyID w) (W_key w) sign (MarshalCheckpoint env cp) = Inr e" for e
    by (rule signature_replays [OF codec(1) v clean that(2,1) signer eq(1)])
  then have "replay_step env w (line, now') = Inr (w\<lparr>W_last := Some cp, W_lastRecord := Some r'\<rparr>)"
    using sig v' l(3) r'(2) eq(2,3) by (auto simp: replay_step_def fail_if_def)
  then show ?thesis using l(1) r'(1,3) by blast
qed

text \<open>A signed observation whose platform payload is spelled differently from the re-encoded checkpoint, for
  instance with a line break inside the base64 text, which the strict decoder skips, is signed and retained, but
  no later replay accepts the record.\<close>

lemma respelled_payload_not_replayed:
  assumes "checkpoint_codec env" "codec_bundle env b" "prepare env sign w b now = Inr (cp, r, encoded)"
    and "WR_Signature r = Some e" "Envelope_Payload e \<noteq> Envelope_Payload (Bundle_Checkpoint b)"
  shows "\<exists>line. encoded = line @ [CHR 0x0A] \<and> (\<forall>w' now'. \<not> is_ok (replay_step env w' (line, now')))"
proof -
  obtain line r' where l: "encoded = line @ [CHR 0x0A]" "DecodeRecord env (drop_cr line) = Inr r'" "record_eq env r r'"
    by (rule prepare_entry [OF assms(3,1,2)]) auto
  have rb: "WR_Bundle r = b\<lparr>Bundle_Witnesses := []\<rparr>" using assms(3) by (auto simp: prepare_def Let_def res_simps split: if_splits)
  have "Envelope_Payload e \<noteq> Envelope_Payload (Bundle_Checkpoint (WR_Bundle r'))" "WR_Signature r' = Some e"
    using l(3) rb assms(4,5) by (auto simp: record_eq_def)
  then have "\<not> is_ok (replay_step env w' (line, now'))" for w' now'
    using l(2) by (auto simp: replay_step_def check_signature_def is_ok_iff res_simps split: if_splits)
  then show ?thesis using l(1) by blast
qed

section \<open>Properties\<close>

text \<open>C36: a witness never countersigns two competing successors.  Over any sequence of observations, partial
  writes, failed syncs, crashes and restarts, with any histories and keys, two envelopes that left the witness and
  name the same predecessor carry the same checkpoint, or the checkpoint encodings hashed along the journal
  contain a collision.\<close>

theorem witness_no_fork:
  assumes "checkpoint_codec env" "reachable witness_start (process_step env) s"
    and "e1 \<in> set (WS_released s)" "e2 \<in> set (WS_released s)"
    and "checkpoint_in env e1 = Inr c1" "checkpoint_in env e2 = Inr c2"
    and "CP_PreviousCheckpointDigest c1 = CP_PreviousCheckpointDigest c2"
  shows "c1 = c2 \<or> collision_between (Sha (wcrypto env)) (journal_inputs env None (journal_records env (WS_synced s)))
      (journal_inputs env None (journal_records env (WS_synced s)))"
  using released_no_fork [OF assms(1) _ assms(3-7)] witness.reachable_inv [OF assms(2)] assms(1) by blast

text \<open>C37: what \<open>Observe\<close> writes, a restart reads back.  After a recorded observation the journal has one line
  more, and replaying that line from the state before, at any later time, gives the same checkpoint as
  predecessor and the same signature to return on a retry.  The platform's payload is the encoding of the
  checkpoint, and the signer is the key delegated for that time.\<close>

theorem Observe_replays:
  assumes "checkpoint_codec env" "codec_bundle env b" "\<not> is_retry w b"
    and "Observe env sign io w file b now = (Inr answer, w', file')" "W_last w' = Some cp" "clean_payload env b cp" "now \<le> now'"
    and "\<And>key h s. lookup (KeysAt (wcrypto env) (W_history w) ''audit-witness'' (CP_IssuedAt cp)) (W_keyID w) = Some key \<Longrightarrow>
      sign h = Inr s \<Longrightarrow> IsP256 (wcrypto env) key \<and> VerifyASN1 (wcrypto env) key h s"
  shows "\<exists>line w''. file' = file @ line @ [CHR 0x0A] \<and> CHR 0x0A \<notin> set line \<and> replay_step env w (line, now') = Inr w'' \<and>
    W_last w'' = W_last w' \<and> map_option WR_Signature (W_lastRecord w'') = map_option WR_Signature (W_lastRecord w')"
proof -
  obtain cp' r encoded where p: "prepare env sign w b now = Inr (cp', r, encoded)" "file' = file @ encoded"
    "w' = w\<lparr>W_last := Some cp', W_lastRecord := Some r\<rparr>"
    using assms(3,4) by (auto simp: Observe_def append_record_def Let_def split: if_splits sum.splits prod.splits)
  then have "cp' = cp" using assms(5) by simp
  with p(1) have "prepare env sign w b now = Inr (cp, r, encoded)" by simp
  from prepared_replays [OF assms(1,2) this assms(6,7,8)]
  show ?thesis using p(2,3) \<open>cp' = cp\<close> by (fastforce simp: record_eq_def)
qed

definition demo_grant :: "string \<Rightarrow> string \<Rightarrow> Delegation" where
  "demo_grant kid role = \<lparr>Del_KeyID = kid, Del_PublicKeyPEM = kid, Del_Roles = [role], Del_NotBefore = 10, Del_NotAfter = 100000,
     Del_RevokedAt = None, Del_HostID = [], Del_Custody = ''hsm''\<rparr>"

definition demo_trust :: History where
  "demo_trust = (demo_history Genesis 100 None)\<lparr>H_GenesisCheckpointDigest := mustDigest demo_audit demo_checkpoint,
     H_Delegations := [demo_grant ''root'' ''audit-checkpoint'', demo_grant ''w1'' ''audit-witness'']\<rparr>"

definition demo_bundle :: Bundle where
  "demo_bundle = \<lparr>Bundle_Checkpoint = demo_sealed ''root'', Bundle_Witnesses = [], Bundle_Events = [demo_event]\<rparr>"

definition demo_record :: witnessedRecord where
  "demo_record = \<lparr>WR_Bundle = demo_bundle, WR_Signature = Some (demo_sealed ''w1''), WR_Historical = False\<rparr>"

definition demo_witness :: "string Witness" where
  "demo_witness = \<lparr>W_journal = True, W_keyID = ''w1'', W_key = ''w1'', W_history = demo_trust, W_last = None, W_lastRecord = None,
     W_poisoned = False\<rparr>"

definition demo_world :: "string witness_env" where
  "demo_world = \<lparr>WAudit = demo_audit, MarshalCheckpoint = CheckpointJSON demo_audit,
     RecordJSON = (\<lambda>r. if r = demo_record then Inr ''rec'' else if r = estimate demo_witness demo_record then Inr ''est'' else Inl (Err ''marshal'')),
     DecodeRecord = (\<lambda>b. if b = ''rec'' then Inr demo_record else if b = ''est'' then Inr (estimate demo_witness demo_record)
       else Inl (Err ''decode''))\<rparr>"

definition demo_io :: journal_io where
  "demo_io = \<lparr>IO_written = 4, IO_writeErr = False, IO_syncErr = False\<rparr>"

definition demo_after :: "string Witness" where
  "demo_after = demo_witness\<lparr>W_last := Some demo_checkpoint, W_lastRecord := Some demo_record\<rparr>"

lemma demo_world_codec: "checkpoint_codec demo_world" "codec_bundle demo_world b"
proof -
  show "checkpoint_codec demo_world"
    using demo_roundtrip by (auto simp: checkpoint_codec_def demo_world_def demo_audit_def demo_crypto_def split: if_splits)
  show "codec_bundle demo_world b"
    by (auto simp: codec_bundle_def demo_world_def drop_cr_def record_eq_def split: if_splits)
qed

lemma demo_observe:
  "Observe demo_world (\<lambda>h. Inr (''w1'' @ h)) demo_io demo_witness [] demo_bundle 2000 = (Inr (demo_sealed ''w1''), demo_after, ''rec'' @ [CHR 0x0A])"
proof -
  have "case Observe demo_world (\<lambda>h. Inr (''w1'' @ h)) demo_io demo_witness [] demo_bundle 2000 of
      (Inl _, _, _) \<Rightarrow> False | (Inr e, w, f) \<Rightarrow> e = demo_sealed ''w1'' \<and> w = demo_after \<and> f = ''rec'' @ [CHR 0x0A]" by code_simp
  then show ?thesis by (cases "fst (Observe demo_world (\<lambda>h. Inr (''w1'' @ h)) demo_io demo_witness [] demo_bundle 2000)")
      (auto split: sum.splits prod.splits)
qed

lemma demo_open:
  "openWitness demo_world ''w1'' ''w1'' demo_trust 1500 (Inr ()) [] (\<lambda>_. 0) = Inr demo_witness"
proof -
  have "case openWitness demo_world ''w1'' ''w1'' demo_trust 1500 (Inr ()) [] (\<lambda>_. 0) of Inl _ \<Rightarrow> False | Inr w \<Rightarrow> w = demo_witness"
    by code_simp
  then show ?thesis by (auto split: sum.splits)
qed

text \<open>A line break appended to the base64 payload of the bundle above: observed, signed and recorded, then refused
  by every replay.\<close>

definition respelled_record :: witnessedRecord where
  "respelled_record = demo_record\<lparr>WR_Bundle := demo_bundle\<lparr>Bundle_Checkpoint := (demo_sealed ''root'')\<lparr>Envelope_Payload :=
     Envelope_Payload (demo_sealed ''root'') @ [CHR 0x0A]\<rparr>\<rparr>\<rparr>"

definition respelled_world :: "string witness_env" where
  "respelled_world = demo_world\<lparr>
     RecordJSON := (\<lambda>r. if r = respelled_record then Inr ''rec'' else if r = estimate demo_witness respelled_record then Inr ''est'' else Inl (Err ''marshal'')),
     DecodeRecord := (\<lambda>b. if b = ''rec'' then Inr respelled_record else if b = ''est'' then Inr (estimate demo_witness respelled_record)
       else Inl (Err ''decode''))\<rparr>"

lemma respelled_payload_observed:
  "case Observe respelled_world (\<lambda>h. Inr (''w1'' @ h)) demo_io demo_witness [] (WR_Bundle respelled_record) 2000 of
     (answer, w, file) \<Rightarrow> is_ok answer \<and> file = ''rec'' @ [CHR 0x0A] \<and> \<not> is_ok (replay_step respelled_world demo_witness (''rec'', 3000))"
  by code_simp

theorem Observe_replays_witness:
  "\<exists>line w''. ''rec'' @ [CHR 0x0A] = [] @ line @ [CHR 0x0A] \<and> CHR 0x0A \<notin> set line \<and> replay_step demo_world demo_witness (line, 3000) = Inr w'' \<and>
    W_last w'' = W_last demo_after \<and> map_option WR_Signature (W_lastRecord w'') = map_option WR_Signature (W_lastRecord demo_after)"
proof (rule Observe_replays [OF demo_world_codec _ demo_observe])
  show "\<not> is_retry demo_witness demo_bundle" by (simp add: is_retry_def demo_witness_def)
  show "W_last demo_after = Some demo_checkpoint" by (simp add: demo_after_def)
  show "clean_payload demo_world demo_bundle demo_checkpoint"
    by (simp add: clean_payload_def demo_world_def demo_audit_def demo_bundle_def demo_sealed_def)
  fix key h s
  assume k: "lookup (KeysAt (wcrypto demo_world) (W_history demo_witness) ''audit-witness'' (CP_IssuedAt demo_checkpoint)) (W_keyID demo_witness) = Some key"
    and s: "Inr (''w1'' @ h) = (Inr s :: string res)"
  have "lookup (KeysAt (wcrypto demo_world) (W_history demo_witness) ''audit-witness'' (CP_IssuedAt demo_checkpoint)) (W_keyID demo_witness) = Some ''w1''"
    by code_simp
  then show "IsP256 (wcrypto demo_world) key \<and> VerifyASN1 (wcrypto demo_world) key h s"
    using k s by (simp add: demo_world_def demo_audit_def demo_crypto_def)
qed simp

theorem witness_no_fork_witness:
  "\<exists>s. reachable witness_start (process_step demo_world) s \<and> demo_sealed ''w1'' \<in> set (WS_released s) \<and>
    checkpoint_in demo_world (demo_sealed ''w1'') = Inr demo_checkpoint"
proof -
  let ?s0 = "\<lparr>WS_file = [], WS_synced = [], WS_process = None, WS_released = []\<rparr> :: string witness_system"
  let ?s1 = "?s0\<lparr>WS_synced := WS_file ?s0, WS_process := Some demo_witness\<rparr>"
  let ?s2 = "\<lparr>WS_file = ''rec'' @ [CHR 0x0A], WS_synced = (if is_ok (Inr (demo_sealed ''w1'') :: Envelope res) then ''rec'' @ [CHR 0x0A] else WS_synced ?s1),
    WS_process = Some demo_after, WS_released = WS_released ?s1 @ released_by (Inr (demo_sealed ''w1''))\<rparr>"
  have r0: "reachable witness_start (process_step demo_world) ?s0" by (rule reachable_init) (simp add: witness_start_def)
  have "process_step demo_world ?s0 ?s1" by (rule restart [of _ _ "''w1''" "''w1''" demo_trust 1500 "Inr ()" "\<lambda>_. 0"]) (simp_all only: demo_open witness_system.simps)
  with r0 have r1: "reachable witness_start (process_step demo_world) ?s1" by (rule reachable_step)
  have "process_step demo_world ?s1 ?s2"
  proof (rule observe [OF _ demo_world_codec(2) [of demo_bundle]])
    show "WS_process ?s1 = Some demo_witness" by simp
    show "Observe demo_world (\<lambda>h. Inr (''w1'' @ h)) demo_io demo_witness (WS_file ?s1) demo_bundle 2000
        = (Inr (demo_sealed ''w1''), demo_after, ''rec'' @ [CHR 0x0A])" using demo_observe by simp
  qed
  with r1 have r2: "reachable witness_start (process_step demo_world) ?s2" by (rule reachable_step)
  have m: "demo_sealed ''w1'' \<in> set (WS_released ?s2)" by (simp add: released_by_def no_envelope_def demo_sealed_def)
  have "case checkpoint_in demo_world (demo_sealed ''w1'') of Inl _ \<Rightarrow> False | Inr c \<Rightarrow> c = demo_checkpoint" by code_simp
  then have c: "checkpoint_in demo_world (demo_sealed ''w1'') = Inr demo_checkpoint" by (auto split: sum.splits)
  from witness_no_fork [OF demo_world_codec(1) r2 m m c c refl] show ?thesis using r2 m c by blast
qed

end
