(* ===== verification/Measurement.thy ===== *)
theory Measurement
  imports Scores Paths
begin

text \<open>
  Paired timing measurements (\<open>pkg/protocol/measurement.go\<close>, with \<open>MeasurementNumber\<close> and
  \<open>validateStageArgv\<close> of \<open>evaluation.go\<close>): typed numbers, the measurement policy, the exact
  confidence interval for a median, and the summary of a series of trials.

  \<open>SummarizeTimings\<close> reads slices by computed indices and divides rationals; both panic in Go when
  they go wrong.  The lemmas show that after \<open>ValidateMeasurementPolicy\<close> they never do.
\<close>

section \<open>Typed numbers\<close>

definition MeasurementNumber :: "string \<Rightarrow> string \<Rightarrow> rat res" where
  "MeasurementNumber v kind =
     (if kind = ''integer'' then res_bind (ParseTicks v) (\<lambda>n. Inr (of_int n))
      else if kind = ''decimal'' then decimal v
      else if kind = ''rational'' then
        (case split_on CHR ''/'' v of
           [a, b] \<Rightarrow> res_bind (ParseTicks a) (\<lambda>n.
             res_bind (or_else (ParseTicks b) (Err ''rational denominator must be positive'')) (\<lambda>d.
             fail_if (d \<le> 0) ''rational denominator must be positive''
             (fail_if (gcd n d \<noteq> 1) ''rational must be reduced'' (Inr (of_int n / of_int d)))))
         | _ \<Rightarrow> Inl (Err ''rational measurement requires reduced numerator/denominator''))
      else Inl (Err ''unknown measurement type''))"

definition rationalString :: "rat \<Rightarrow> string" where
  "rationalString r = show_int (fst (quotient_of r)) @ CHR ''/'' # show_int (snd (quotient_of r))"

section \<open>The measurement policy\<close>

definition validateStageArgv :: "string list \<Rightarrow> unit res" where
  "validateStageArgv argv =
     fail_if (len argv < 1 \<or> len argv > 64 \<or> \<not> path_is_abs (hd argv) \<or> path_clean (hd argv) \<noteq> hd argv)
       ''stage requires an absolute direct command''
     (res_each (\<lambda>s. fail_if (len s > 4096 \<or> CHR 0x00 \<in> set s) ''invalid stage argument'' (Inr ())) argv)"

function median_scan :: "nat \<Rightarrow> int \<Rightarrow> nat \<Rightarrow> int \<Rightarrow> nat \<Rightarrow> nat" where
  "median_scan n target k s answer =
     (if k \<le> (n + 1) div 2 then
        let s' = s + int (n choose (k - 1)) in
        if s' * 2000000 \<le> target then median_scan n target (k + 1) s' k else answer
      else answer)"
  by pat_completeness auto
termination
  by (relation "measure (\<lambda>(n, t, k, s, a). Suc ((n + 1) div 2) - k)") auto

declare median_scan.simps [simp del]

definition medianIntervalIndex :: "nat \<Rightarrow> int \<Rightarrow> nat" where
  "medianIntervalIndex n confidencePPM =
     median_scan n (2 ^ n * (1000000 - confidencePPM)) 1 0 0"

definition ValidateMeasurementPolicy :: "(string \<Rightarrow> bool) \<Rightarrow> MeasurementPolicy \<Rightarrow> unit res" where
  "ValidateMeasurementPolicy nfc p =
     fail_if (Policy_Estimator p \<noteq> ''paired-median-ratio'' \<or> Policy_Order p \<noteq> ''alternating''
         \<or> Policy_Warmups p < 1 \<or> Policy_Warmups p > 100 \<or> Policy_Repetitions p < 9
         \<or> Policy_Repetitions p > 255 \<or> Policy_ConfidencePPM p < 900000 \<or> Policy_ConfidencePPM p > 999999)
       ''unsupported or insufficient paired measurement schedule''
     (fail_if (\<not> is_ok (ValidatePath nfc (trim_suffix (Policy_BaselinePath p) ''/''))
         \<or> \<not> prefix ''baseline/'' (Policy_BaselinePath p) \<or> \<not> is_ok (validateStageArgv (Policy_BaselineBuild p))
         \<or> \<not> is_ok (validateStageArgv (Policy_BaselineRun p)))
       ''frozen baseline source path and commands required''
     (fail_if (\<not> ValidDigest (Policy_BaselineDigest p) \<or> \<not> boundedText (Policy_TimerBoundary p)
         \<or> \<not> boundedText (Policy_Population p))
       ''baseline bytes, timer boundary and target population must be frozen''
     (res_bind (or_else (decimal (Policy_MaxRelativeWidth p)) (Err ''relative interval width must be in (0,1]''))
       (\<lambda>width. fail_if (width \<le> 0 \<or> width > 1) ''relative interval width must be in (0,1]''
     (res_bind (or_else (decimal (Policy_MinimumSpeedup p)) (Err ''practical speedup must exceed one''))
       (\<lambda>gain. fail_if (gain \<le> 1) ''practical speedup must exceed one''
     (fail_if (medianIntervalIndex (nat (Policy_Repetitions p)) (Policy_ConfidencePPM p) < 1)
       ''too few trials for the requested median confidence'' (Inr ()))))))))"

section \<open>Summaries\<close>

definition trial_duration_ok :: "TimingTrial \<Rightarrow> bool" where
  "trial_duration_ok t = (\<not> (Trial_BaselineNanos t \<le> 0 \<or> Trial_CandidateNanos t \<le> 0
     \<or> Trial_BaselineNanos t > 86400000000000 \<or> Trial_CandidateNanos t > 86400000000000))"

definition check_trial :: "nat \<times> TimingTrial \<Rightarrow> unit res" where
  "check_trial = (\<lambda>(i, t).
     fail_if (\<not> Trial_QualityPassed t) ''quality failure cannot be excluded from measured trials''
     (fail_if (\<not> trial_duration_ok t) ''invalid trusted duration''
     (fail_if (Trial_BaselineFirst t \<noteq> even i) ''measured order differs from locked alternation'' (Inr ()))))"

definition trial_ratio :: "TimingTrial \<Rightarrow> rat" where
  "trial_ratio t = of_int (Trial_BaselineNanos t) / of_int (Trial_CandidateNanos t)"

definition sorted_median :: "rat list \<Rightarrow> rat res" where
  "sorted_median ratios =
     (let n = length ratios in
      res_bind (index ratios (int (n div 2))) (\<lambda>mid.
      if even n then res_bind (index ratios (int (n div 2) - 1)) (\<lambda>b. Inr ((mid + b) / 2)) else Inr mid))"

definition SummarizeTimings :: "(string \<Rightarrow> bool) \<Rightarrow> TimingTrial list \<Rightarrow> MeasurementPolicy \<Rightarrow> TimingSummary res" where
  "SummarizeTimings nfc trials p =
     res_bind (ValidateMeasurementPolicy nfc p) (\<lambda>_.
     fail_if (len trials \<noteq> Policy_Repetitions p) ''missing or extra measured trials''
     (res_bind (res_each check_trial (List.enumerate 0 trials)) (\<lambda>_.
      let ratios = sort (map trial_ratio trials); n = length trials;
          k = medianIntervalIndex n (Policy_ConfidencePPM p) in
      res_bind (sorted_median ratios) (\<lambda>median.
      res_bind (index ratios (int k - 1)) (\<lambda>lower.
      res_bind (index ratios (int n - int k)) (\<lambda>upper.
      if median = 0 then Inl (Panic ''division by zero'') else
      res_bind (ignore_err (decimal (Policy_MaxRelativeWidth p))) (\<lambda>maxWidth.
      res_bind (ignore_err (decimal (Policy_MinimumSpeedup p))) (\<lambda>minimum.
      let wide = ((upper - lower) / median > maxWidth) in
      Inr \<lparr>Summary_MedianRatio = rationalString median, Summary_LowerRatio = rationalString lower,
           Summary_UpperRatio = rationalString upper, Summary_ConfidencePPM = Policy_ConfidencePPM p,
           Summary_AcceptedTrials = int n,
           Summary_Outcome = (if wide then ''inconclusive'' else ''valid''),
           Summary_PracticalGain = (if wide then False else lower \<ge> minimum)\<rparr>))))))))"

definition check_warmup :: "nat \<times> TimingTrial \<Rightarrow> unit res" where
  "check_warmup = (\<lambda>(i, t).
     fail_if (\<not> Trial_QualityPassed t \<or> \<not> trial_duration_ok t \<or> Trial_BaselineFirst t \<noteq> even i)
       ''warmup failed or order changed'' (Inr ()))"

definition ValidateTimingEvidence :: "(string \<Rightarrow> bool) \<Rightarrow> TimingEvidence \<Rightarrow> MeasurementPolicy \<Rightarrow> TimingSummary res" where
  "ValidateTimingEvidence nfc e p =
     fail_if (Evidence_BaselineDigest e \<noteq> Policy_BaselineDigest p \<or> len (Evidence_Warmups e) \<noteq> Policy_Warmups p)
       ''baseline or warmup schedule mismatch''
     (res_bind (res_each check_warmup (List.enumerate 0 (Evidence_Warmups e))) (\<lambda>_.
      res_bind (SummarizeTimings nfc (Evidence_Trials e) p) (\<lambda>summary.
      fail_if (summary \<noteq> Evidence_Summary e)
        ''reported timing summary differs from raw paired evidence'' (Inr summary))))"

section \<open>The confidence interval\<close>

text \<open>\<open>covers n c k\<close>: the two tails cut off by the \<open>k\<close>-th order statistics of \<open>n\<close> trials have together
  probability at most \<open>1 - c / 10^6\<close>.\<close>

definition tail_sum :: "nat \<Rightarrow> nat \<Rightarrow> int" where
  "tail_sum n k = (\<Sum>i<k. int (n choose i))"

definition covers :: "nat \<Rightarrow> int \<Rightarrow> nat \<Rightarrow> bool" where
  "covers n c k = (2000000 * tail_sum n k \<le> 2 ^ n * (1000000 - c))"

lemma tail_sum_mono: "j \<le> k \<Longrightarrow> tail_sum n j \<le> tail_sum n k"
  unfolding tail_sum_def by (rule sum_mono2) auto

lemma covers_antimono: "j \<le> k \<Longrightarrow> covers n c k \<Longrightarrow> covers n c j"
  using tail_sum_mono [of j k n] by (simp add: covers_def)

lemma median_scan_spec:
  assumes "1 \<le> k" "k \<le> Suc ((n + 1) div 2)" "s = tail_sum n (k - 1)"
    and "target = 2 ^ n * (1000000 - c)" "\<And>j. 1 \<le> j \<Longrightarrow> j < k \<Longrightarrow> covers n c j"
    and "answer = k - 1"
  shows "median_scan n target k s answer \<le> (n + 1) div 2 \<and>
    (\<forall>j. 1 \<le> j \<and> j \<le> (n + 1) div 2 \<longrightarrow> (covers n c j \<longleftrightarrow> j \<le> median_scan n target k s answer))"
  using assms
proof (induction n target k s answer rule: median_scan.induct)
  case (1 n target k s answer)
  have step: "s + int (n choose (k - 1)) = tail_sum n k"
    using 1(2,4) by (cases k) (simp_all add: tail_sum_def)
  show ?case
  proof (cases "k \<le> (n + 1) div 2")
    case False
    then have "median_scan n target k s answer = k - 1"
      using "1.prems"(6) by (subst median_scan.simps) simp
    then show ?thesis using False "1.prems"(1,2,5) by auto
  next
    case inside: True
    show ?thesis
    proof (cases "(s + int (n choose (k - 1))) * 2000000 \<le> target")
      case True
      have ck: "covers n c k" using True step "1.prems"(4) by (simp add: covers_def mult.commute)
      have "median_scan n target k s answer
          = median_scan n target (k + 1) (s + int (n choose (k - 1))) k"
        using inside True by (subst median_scan.simps) (simp add: Let_def)
      moreover have "\<And>j. 1 \<le> j \<Longrightarrow> j < k + 1 \<Longrightarrow> covers n c j"
        using "1.prems"(5) ck by (metis less_Suc_eq Suc_eq_plus1)
      ultimately show ?thesis
        using "1.IH" [OF inside refl True] inside "1.prems"(1,4) step by simp
    next
      case False
      then have nk: "\<not> covers n c k" using step "1.prems"(4) by (simp add: covers_def mult.commute)
      have "median_scan n target k s answer = k - 1"
        using inside False "1.prems"(6) by (subst median_scan.simps) (simp add: Let_def)
      moreover have "covers n c j \<longleftrightarrow> j \<le> k - 1" if "1 \<le> j" for j
      proof (cases "j < k")
        case True
        then show ?thesis using "1.prems"(5) that by auto
      next
        case False
        then show ?thesis using nk covers_antimono [of k j n c] "1.prems"(1) by auto
      qed
      ultimately show ?thesis using inside by auto
    qed
  qed
qed

lemma median_index_spec:
  "medianIntervalIndex n c \<le> (n + 1) div 2 \<and>
   (\<forall>j. 1 \<le> j \<and> j \<le> (n + 1) div 2 \<longrightarrow> (covers n c j \<longleftrightarrow> j \<le> medianIntervalIndex n c))"
  unfolding medianIntervalIndex_def
  by (rule median_scan_spec) (auto simp: tail_sum_def)

section \<open>Rationals as text\<close>

lemma length_show_nat: "0 \<le> n \<Longrightarrow> n < 10 ^ m \<Longrightarrow> 1 \<le> m \<Longrightarrow> length (show_nat n) \<le> m"
proof (induction m arbitrary: n)
  case (Suc m)
  show ?case
  proof (cases "n < 10")
    case True
    then show ?thesis by (simp add: show_nat_small)
  next
    case False
    then have "1 \<le> m" using Suc.prems(2) by (cases m) auto
    moreover have "n div 10 < 10 ^ m" using Suc.prems(2) by simp
    ultimately have "length (show_nat (n div 10)) \<le> m" using Suc.IH [of "n div 10"] Suc.prems(1) by simp
    then show ?thesis using False by (simp add: show_nat_large)
  qed
qed simp

lemma len_show_int_160: "0 \<le> n \<Longrightarrow> n < 10 ^ 160 \<Longrightarrow> len (show_int n) \<le> 160"
  using length_show_nat [of n 160] by (simp add: show_int_def len_def)

lemma slash_show_int: "CHR ''/'' \<notin> set (show_int n)"
proof -
  have "CHR ''/'' \<notin> set (show_nat m)" if "0 \<le> m" for m
    using all_digits_show_nat [OF that] by (auto simp: all_digits_def list_all_iff is_digit_def)
  then show ?thesis by (simp add: show_int_def)
qed

lemma quotient_bounds:
  assumes "quotient_of (of_int a / of_int b) = (n, d)" "0 < a" "0 < b"
  shows "0 < n \<and> n \<le> a \<and> 0 < d \<and> d \<le> b"
proof -
  have d: "0 < d" using assms(1) by (rule quotient_of_denom_pos)
  have "(of_int a / of_int b :: rat) = of_int n / of_int d" using assms(1) by (rule quotient_of_div)
  then have "(of_int (a * d) :: rat) = of_int (n * b)" using d assms(3) by (simp add: field_simps)
  then have e: "a * d = n * b" by (simp only: of_int_eq_iff)
  have n: "0 < n" using e assms(2,3) d by (metis mult_pos_pos zero_less_mult_pos2)
  have "coprime n d" using assms(1) by (rule quotient_of_coprime)
  then have "n dvd a" "d dvd b"
    using e by (metis coprime_dvd_mult_left_iff dvd_triv_left,
        metis coprime_commute coprime_dvd_mult_right_iff dvd_triv_right)
  then show ?thesis using assms(2,3) n d by (simp add: zdvd_imp_le)
qed

lemma MeasurementNumber_rationalString:
  assumes "r = of_int a / of_int b" "0 < a" "0 < b" "a < 10 ^ 160" "b < 10 ^ 160"
  shows "MeasurementNumber (rationalString r) ''rational'' = Inr r"
proof -
  obtain n d where nd: "quotient_of r = (n, d)" by fastforce
  have bd: "0 < n" "n \<le> a" "0 < d" "d \<le> b" using quotient_bounds [of a b n d] nd assms by auto
  have "ParseTicks (show_int n) = Inr n" "ParseTicks (show_int d) = Inr d"
    using bd assms(4,5) by (simp_all add: ParseTicks_iff len_show_int_160)
  moreover have "gcd n d = 1" using quotient_of_coprime [OF nd] by simp
  moreover have "split_on CHR ''/'' (rationalString r) = [show_int n, show_int d]"
    by (simp add: rationalString_def nd split_on_append split_on_plain slash_show_int)
  ultimately show ?thesis using bd(3) quotient_of_div [OF nd] by (simp add: MeasurementNumber_def)
qed

section \<open>What a summary contains\<close>

lemma policy_facts:
  assumes "ValidateMeasurementPolicy nfc p = Inr ()"
  shows "9 \<le> Policy_Repetitions p" "Policy_Repetitions p \<le> 255"
    "1 \<le> medianIntervalIndex (nat (Policy_Repetitions p)) (Policy_ConfidencePPM p)"
    "\<exists>w. decimal (Policy_MaxRelativeWidth p) = Inr w \<and> 0 < w \<and> w \<le> 1"
    "\<exists>g. decimal (Policy_MinimumSpeedup p) = Inr g \<and> 1 < g"
  using assms by (auto simp: ValidateMeasurementPolicy_def res_simps not_le not_less)

lemma validateStageArgv_no_panic [panic_intros]: "no_panic (validateStageArgv argv)"
  by (auto simp: validateStageArgv_def intro!: panic_intros)

lemma policy_no_panic [panic_intros]: "no_panic (ValidateMeasurementPolicy nfc p)"
  by (auto simp: ValidateMeasurementPolicy_def intro!: panic_intros)

lemma check_trials_facts:
  assumes "res_each check_trial (List.enumerate 0 trials) = Inr ()" "t \<in> set trials"
  shows "Trial_QualityPassed t \<and> trial_duration_ok t"
proof -
  obtain i where "i < length trials" "t = trials ! i"
    using assms(2) by (auto simp: in_set_conv_nth)
  then have "(i, t) \<in> set (List.enumerate 0 trials)" by (simp add: in_set_enumerate_eq)
  then show ?thesis using assms(1) by (auto simp: res_simps check_trial_def)
qed

definition trial_rank :: "TimingTrial list \<Rightarrow> nat \<Rightarrow> rat" where
  "trial_rank trials i = sort (map trial_ratio trials) ! i"

definition trial_median :: "TimingTrial list \<Rightarrow> rat" where
  "trial_median trials = (let n = length trials in
     if even n then (trial_rank trials (n div 2) + trial_rank trials (n div 2 - 1)) / 2
     else trial_rank trials (n div 2))"

lemma trial_rank_mono:
  "i \<le> j \<Longrightarrow> j < length trials \<Longrightarrow> trial_rank trials i \<le> trial_rank trials j"
  by (simp add: trial_rank_def sorted_nth_mono)

lemma trial_rank_in: "i < length trials \<Longrightarrow> \<exists>t\<in>set trials. trial_rank trials i = trial_ratio t"
  using nth_mem [of i "sort (map trial_ratio trials)"] by (auto simp: trial_rank_def)

lemma trial_ratio_pos: "trial_duration_ok t \<Longrightarrow> 0 < trial_ratio t"
  by (simp add: trial_ratio_def trial_duration_ok_def)

lemma trial_rank_pos:
  "\<forall>t\<in>set trials. trial_duration_ok t \<Longrightarrow> i < length trials \<Longrightarrow> 0 < trial_rank trials i"
  using trial_rank_in [of i trials] trial_ratio_pos by auto

lemma trial_median_bounds:
  assumes "1 \<le> k" "k \<le> (length trials + 1) div 2" "trials \<noteq> []"
  shows "trial_rank trials (k - 1) \<le> trial_median trials"
    "trial_median trials \<le> trial_rank trials (length trials - k)"
proof -
  let ?n = "length trials"
  have n: "0 < ?n" using assms(3) by simp
  have r: "k - 1 \<le> ?n div 2" "?n div 2 \<le> ?n - k" "?n - k < ?n" "?n div 2 - 1 < ?n"
    using assms n by linarith+
  have m: "trial_rank trials (k - 1) \<le> trial_rank trials (?n div 2)"
    "trial_rank trials (?n div 2) \<le> trial_rank trials (?n - k)"
    using r n by (auto intro!: trial_rank_mono)
  show "trial_rank trials (k - 1) \<le> trial_median trials"
    "trial_median trials \<le> trial_rank trials (?n - k)"
  proof (atomize (full), cases "even ?n")
    case True
    then have "k - 1 \<le> ?n div 2 - 1" using assms(2) by auto
    then have "trial_rank trials (k - 1) \<le> trial_rank trials (?n div 2 - 1)"
      "trial_rank trials (?n div 2 - 1) \<le> trial_rank trials (?n div 2)"
      using n r by (auto intro!: trial_rank_mono)
    with m True show "trial_rank trials (k - 1) \<le> trial_median trials \<and>
        trial_median trials \<le> trial_rank trials (?n - k)"
      by (simp add: trial_median_def Let_def)
  next
    case False
    with m show "trial_rank trials (k - 1) \<le> trial_median trials \<and>
        trial_median trials \<le> trial_rank trials (?n - k)"
      by (simp add: trial_median_def)
  qed
qed

lemma sorted_median_trials:
  assumes "trials \<noteq> []"
  shows "sorted_median (sort (map trial_ratio trials)) = Inr (trial_median trials)"
proof -
  let ?n = "length trials"
  have n: "0 < ?n" using assms by simp
  have a: "index (sort (map trial_ratio trials)) (int (?n div 2)) = Inr (trial_rank trials (?n div 2))"
    using n by (simp add: index_def trial_rank_def)
  show ?thesis
  proof (cases "even ?n")
    case True
    then have "1 \<le> ?n div 2" using n by presburger
    then have "index (sort (map trial_ratio trials)) (int (?n div 2) - 1) = Inr (trial_rank trials (?n div 2 - 1))"
      using n by (simp add: index_def trial_rank_def nat_diff_distrib')
    with a True show ?thesis by (simp add: sorted_median_def Let_def trial_median_def)
  next
    case False
    with a show ?thesis by (simp add: sorted_median_def Let_def trial_median_def)
  qed
qed

text \<open>With an accepted policy the summary is computed without a panic, and this is its value.\<close>

lemma SummarizeTimings_eq:
  assumes pol: "ValidateMeasurementPolicy nfc p = Inr ()" and n: "len trials = Policy_Repetitions p"
    and each: "res_each check_trial (List.enumerate 0 trials) = Inr ()"
    and w: "decimal (Policy_MaxRelativeWidth p) = Inr w" and g: "decimal (Policy_MinimumSpeedup p) = Inr g"
    and k: "k = medianIntervalIndex (length trials) (Policy_ConfidencePPM p)"
    and lo: "lo = trial_rank trials (k - 1)" and hi: "hi = trial_rank trials (length trials - k)"
    and md: "md = trial_median trials"
  shows "SummarizeTimings nfc trials p = Inr
     \<lparr>Summary_MedianRatio = rationalString md, Summary_LowerRatio = rationalString lo,
      Summary_UpperRatio = rationalString hi, Summary_ConfidencePPM = Policy_ConfidencePPM p,
      Summary_AcceptedTrials = len trials,
      Summary_Outcome = (if (hi - lo) / md > w then ''inconclusive'' else ''valid''),
      Summary_PracticalGain = (\<not> (hi - lo) / md > w \<and> lo \<ge> g)\<rparr>"
proof -
  have rep: "nat (Policy_Repetitions p) = length trials" using n by (simp add: len_def)
  have k1: "1 \<le> k" "k \<le> (length trials + 1) div 2"
    using policy_facts(3) [OF pol] median_index_spec [of "length trials" "Policy_ConfidencePPM p"] k rep by auto
  have n9: "9 \<le> length trials" using policy_facts(1) [OF pol] n by (simp add: len_def)
  have kn: "k \<le> length trials" using k1(2) n9 by linarith
  have "\<forall>t\<in>set trials. trial_duration_ok t" using check_trials_facts [OF each] by blast
  then have "0 < lo" unfolding lo using trial_rank_pos k1 kn by simp
  then have "0 < md" using trial_median_bounds(1) [of k trials] k1 n9 lo md by force
  have mid: "sorted_median (sort (map trial_ratio trials)) = Inr md"
    unfolding md using n9 by (intro sorted_median_trials) auto
  have ix: "index (sort (map trial_ratio trials)) (int k - 1) = Inr lo"
    "index (sort (map trial_ratio trials)) (int (length trials) - int k) = Inr hi"
    using n9 k1 kn lo hi
    by (simp_all add: index_def trial_rank_def nat_diff_distrib' of_nat_diff)
  have rp: "Policy_Repetitions p = int (length trials)" using n by (simp add: len_def)
  show ?thesis
    using \<open>0 < md\<close> by (simp add: SummarizeTimings_def Let_def pol rp each w g k [symmetric] ix mid len_def)
qed

lemma SummarizeTimings_Inr:
  assumes "SummarizeTimings nfc trials p = Inr sm"
  shows "ValidateMeasurementPolicy nfc p = Inr ()" "len trials = Policy_Repetitions p"
    "res_each check_trial (List.enumerate 0 trials) = Inr ()"
  using assms by (auto simp: SummarizeTimings_def res_simps)

lemma trial_rank_fraction:
  assumes "\<forall>t\<in>set trials. trial_duration_ok t" "i < length trials"
  obtains a b where "trial_rank trials i = of_int a / of_int b" "0 < a" "0 < b"
    "a \<le> 86400000000000" "b \<le> 86400000000000"
proof -
  obtain t where t: "t \<in> set trials" "trial_rank trials i = trial_ratio t"
    using trial_rank_in [OF assms(2)] by blast
  have "trial_duration_ok t" using assms(1) t(1) by blast
  then show ?thesis
    by (intro that [of "Trial_BaselineNanos t" "Trial_CandidateNanos t"])
      (auto simp: t(2) trial_ratio_def trial_duration_ok_def)
qed

lemma count_below_rank:
  assumes "i < length trials"
  shows "length (filter (\<lambda>t. trial_ratio t < trial_rank trials i) trials) \<le> i"
proof -
  let ?rs = "sort (map trial_ratio trials)"
  have c: "length (filter (\<lambda>t. trial_ratio t < c) trials) = length (filter (\<lambda>x. x < c) ?rs)" for c
  proof -
    have "length (filter (\<lambda>x. x < c) ?rs) = length (sort (filter (\<lambda>x. x < c) (map trial_ratio trials)))"
      by (simp only: filter_sort)
    also have "\<dots> = length (filter (\<lambda>t. trial_ratio t < c) trials)" by (simp add: filter_map comp_def)
    finally show ?thesis by simp
  qed
  have "length (filter (\<lambda>t. trial_ratio t < ?rs ! i) trials) = length (filter (\<lambda>x. x < ?rs ! i) ?rs)" by (rule c)
  also have "filter (\<lambda>x. x < ?rs ! i) ?rs = filter (\<lambda>x. x < ?rs ! i) (take i ?rs @ drop i ?rs)" by simp
  also have "\<dots> = filter (\<lambda>x. x < ?rs ! i) (take i ?rs)"
  proof -
    have "\<not> x < ?rs ! i" if "x \<in> set (drop i ?rs)" for x
    proof -
      have "\<exists>j<length (drop i ?rs). drop i ?rs ! j = x" using that by (simp only: in_set_conv_nth)
      then obtain j where "j < length ?rs - i" "x = ?rs ! (i + j)" by auto
      then show ?thesis by (simp add: sorted_nth_mono not_less)
    qed
    then have "filter (\<lambda>x. x < ?rs ! i) (drop i ?rs) = []" by (simp only: filter_empty_conv) blast
    then show ?thesis by (simp only: filter_append append_Nil2)
  qed
  also have "length \<dots> \<le> length (take i ?rs)" by (rule length_filter_le)
  also have "\<dots> \<le> i" by simp
  finally show ?thesis by (simp add: trial_rank_def)
qed

lemma summaries_no_panic [panic_intros]: "no_panic (SummarizeTimings nfc trials p)"
proof (cases "ValidateMeasurementPolicy nfc p = Inr () \<and> len trials = Policy_Repetitions p \<and>
    res_each check_trial (List.enumerate 0 trials) = Inr ()")
  case True
  then obtain w g where "decimal (Policy_MaxRelativeWidth p) = Inr w" "decimal (Policy_MinimumSpeedup p) = Inr g"
    using policy_facts by blast
  with True show ?thesis by (simp add: SummarizeTimings_eq)
next
  case False
  have "no_panic (check_trial it)" for it
    by (cases it) (auto simp: check_trial_def intro!: panic_intros)
  then have "no_panic (res_each check_trial (List.enumerate 0 trials))" by (intro panic_intros)
  with False show ?thesis
    by (auto simp: SummarizeTimings_def intro!: panic_intros)
qed

lemma summary_interval:
  assumes "SummarizeTimings nfc trials p = Inr sm"
  shows "\<exists>lo md hi g. MeasurementNumber (Summary_LowerRatio sm) ''rational'' = Inr lo \<and>
    MeasurementNumber (Summary_UpperRatio sm) ''rational'' = Inr hi \<and>
    Summary_MedianRatio sm = rationalString md \<and> 0 < lo \<and> lo \<le> md \<and> md \<le> hi \<and>
    decimal (Policy_MinimumSpeedup p) = Inr g \<and>
    (Summary_PracticalGain sm \<longrightarrow> 1 < g \<and> g \<le> lo \<and> Summary_Outcome sm = ''valid'') \<and>
    list_all Trial_QualityPassed trials \<and>
    length (filter (\<lambda>t. trial_ratio t < lo) trials) < medianIntervalIndex (length trials) (Policy_ConfidencePPM p)"
proof -
  note pol = SummarizeTimings_Inr [OF assms]
  obtain w g where w: "decimal (Policy_MaxRelativeWidth p) = Inr w" "decimal (Policy_MinimumSpeedup p) = Inr g" "1 < g"
    using policy_facts(4,5) [OF pol(1)] by blast
  define k where "k = medianIntervalIndex (length trials) (Policy_ConfidencePPM p)"
  note eq = SummarizeTimings_eq [OF pol w(1,2) k_def refl refl refl]
  have rep: "nat (Policy_Repetitions p) = length trials" using pol(2) by (simp add: len_def)
  have k1: "1 \<le> k" "k \<le> (length trials + 1) div 2"
    using policy_facts(3) [OF pol(1)] median_index_spec [of "length trials" "Policy_ConfidencePPM p"]
    by (auto simp: k_def rep)
  have n9: "9 \<le> length trials" using policy_facts(1) [OF pol(1)] pol(2) by (simp add: len_def)
  then have ne: "trials \<noteq> []" "k - 1 < length trials" "length trials - k < length trials" using k1 by auto
  have d: "\<forall>t\<in>set trials. trial_duration_ok t" using check_trials_facts [OF pol(3)] by blast
  have num: "MeasurementNumber (rationalString (trial_rank trials i)) ''rational'' = Inr (trial_rank trials i)"
    if ilt: "i < length trials" for i
  proof -
    obtain a b where ab: "trial_rank trials i = of_int a / of_int b" "0 < a" "0 < b"
      "a \<le> 86400000000000" "b \<le> 86400000000000"
      using trial_rank_fraction [OF d ilt] by blast
    show ?thesis by (rule MeasurementNumber_rationalString [OF ab(1-3)]) (use ab(4,5) in simp_all)
  qed
  have "length (filter (\<lambda>t. trial_ratio t < trial_rank trials (k - 1)) trials) < k"
    using count_below_rank [OF ne(2)] k1(1) by simp
  moreover have "list_all Trial_QualityPassed trials" using check_trials_facts [OF pol(3)] by (simp add: list_all_iff)
  moreover have "sm = \<lparr>Summary_MedianRatio = rationalString (trial_median trials),
      Summary_LowerRatio = rationalString (trial_rank trials (k - 1)),
      Summary_UpperRatio = rationalString (trial_rank trials (length trials - k)),
      Summary_ConfidencePPM = Policy_ConfidencePPM p, Summary_AcceptedTrials = len trials,
      Summary_Outcome = Summary_Outcome sm, Summary_PracticalGain = Summary_PracticalGain sm\<rparr> \<and>
      (Summary_PracticalGain sm \<longrightarrow> g \<le> trial_rank trials (k - 1) \<and> Summary_Outcome sm = ''valid'')"
    using assms unfolding eq by auto
  ultimately show ?thesis
    using num [OF ne(2)] num [OF ne(3)] w(2,3) trial_rank_pos [OF d ne(2)] trial_median_bounds [OF k1 ne(1)]
    unfolding k_def [symmetric] by (metis TimingSummary.select_convs(1-3))
qed

section \<open>Properties\<close>

text \<open>C26: the confidence index is the best possible.  Among the order statistics up to the middle one
  it is the last whose two binomial tails together stay within the error that the policy allows, so the
  interval is the narrowest with the requested coverage.\<close>

theorem medianIntervalIndex_greatest:
  "medianIntervalIndex n c \<le> (n + 1) div 2 \<and>
   (\<forall>j. 1 \<le> j \<and> j \<le> (n + 1) div 2 \<longrightarrow>
     (2000000 * (\<Sum>i<j. int (n choose i)) \<le> 2 ^ n * (1000000 - c) \<longleftrightarrow> j \<le> medianIntervalIndex n c))"
  using median_index_spec [of n c] by (simp add: covers_def tail_sum_def)

theorem medianIntervalIndex_greatest_witness:
  "medianIntervalIndex 9 950000 = 2 \<and> 2000000 * (\<Sum>i<2. int (9 choose i)) \<le> 2 ^ 9 * (1000000 - 950000)"
proof -
  have "medianIntervalIndex 9 950000 = 2" by code_simp
  then show ?thesis using medianIntervalIndex_greatest [of 9 950000] by simp
qed

text \<open>C13: \<open>SummarizeTimings\<close> never panics, whatever trials and policy it is given: the computed
  indices are in range and no rational is divided by zero.\<close>

theorem SummarizeTimings_no_panic: "no_panic (SummarizeTimings nfc trials p)"
  by (rule summaries_no_panic)

text \<open>C12: the reported interval is what the policy promises.  Its ends and the median parse back as the
  exact rationals \<open>lo \<le> md \<le> hi\<close>, all trials passed the quality check, fewer than \<open>k\<close> of them lie below
  the lower end, and a practical gain is reported only when the lower end reaches the required speedup.\<close>

theorem SummarizeTimings_interval:
  assumes "SummarizeTimings nfc trials p = Inr sm"
  shows "\<exists>lo md hi g. MeasurementNumber (Summary_LowerRatio sm) ''rational'' = Inr lo \<and>
    MeasurementNumber (Summary_UpperRatio sm) ''rational'' = Inr hi \<and>
    Summary_MedianRatio sm = rationalString md \<and> 0 < lo \<and> lo \<le> md \<and> md \<le> hi \<and>
    decimal (Policy_MinimumSpeedup p) = Inr g \<and>
    (Summary_PracticalGain sm \<longrightarrow> 1 < g \<and> g \<le> lo \<and> Summary_Outcome sm = ''valid'') \<and>
    list_all Trial_QualityPassed trials \<and>
    length (filter (\<lambda>t. trial_ratio t < lo) trials) < medianIntervalIndex (length trials) (Policy_ConfidencePPM p)"
  by (rule summary_interval [OF assms])

definition demo_policy :: MeasurementPolicy where
  "demo_policy = \<lparr>Policy_Estimator = ''paired-median-ratio'', Policy_Warmups = 1,
     Policy_Repetitions = 9, Policy_Order = ''alternating'', Policy_ConfidencePPM = 950000,
     Policy_MaxRelativeWidth = ''0.5'', Policy_MinimumSpeedup = ''1.1'',
     Policy_BaselineDigest = ''sha256:'' @ replicate 64 CHR ''0'', Policy_BaselinePath = ''baseline/'',
     Policy_BaselineBuild = [''/bin/true''], Policy_BaselineRun = [''/bin/true''],
     Policy_TimerBoundary = ''whole process'', Policy_Population = ''all inputs of the task''\<rparr>"

definition demo_trials :: "TimingTrial list" where
  "demo_trials = map (\<lambda>i. \<lparr>Trial_BaselineNanos = 1200 + int i, Trial_CandidateNanos = 1000,
     Trial_BaselineFirst = even i, Trial_QualityPassed = True\<rparr>) [0..<9]"

theorem SummarizeTimings_interval_witness:
  "\<exists>sm lo. SummarizeTimings (\<lambda>_. True) demo_trials demo_policy = Inr sm \<and>
    MeasurementNumber (Summary_LowerRatio sm) ''rational'' = Inr lo \<and> 0 < lo"
proof -
  have "is_ok (SummarizeTimings (\<lambda>_. True) demo_trials demo_policy)" by code_simp
  then obtain sm where sm: "SummarizeTimings (\<lambda>_. True) demo_trials demo_policy = Inr sm"
    by (auto simp: is_ok_iff)
  then show ?thesis using SummarizeTimings_interval [OF sm] by blast
qed

end
