(* ===== verification/Evaluation.thy ===== *)
theory Evaluation
  imports Measurement "HOL-Library.Char_ord" "HOL-Library.List_Lexorder"
begin

text \<open>
  The evaluation contract (\<open>pkg/protocol/evaluation.go\<close>, \<open>proof.go\<close>): validation of the scientific
  rationale, the executor requirements, the declared measurements, the candidate program with its build
  products, the timing policy, the proof contract and the assets; matching of a contract against the
  capabilities of an executor; and the typed measurements and achievement predicates of a result.

  A Go map used as a set of names already seen is a set; \<open>int\<close> and \<open>int64\<close> arithmetic is wrapped by
  \<open>int64\<close> where the operands are not yet bounded.
\<close>

section \<open>Rationale\<close>

definition rationale_url_step :: "Source list \<Rightarrow> string set \<Rightarrow> string \<Rightarrow> string set res" where
  "rationale_url_step sources seen u =
     fail_if (\<not> list_ex (\<lambda>s. Source_URL s = u) sources \<or> u \<in> seen)
       ''metric rationale references absent or duplicate evidence'' (Inr (insert u seen))"

definition ValidateMetricRationale :: "MetricRationale \<Rightarrow> Source list \<Rightarrow> unit res" where
  "ValidateMetricRationale r sources =
     res_bind (res_each (\<lambda>s. fail_if (\<not> boundedText s)
         ''metric rationale requires substantive objective, interpretation, baseline, delta and bounded claim'' (Inr ()))
       [Rationale_Objective r, Rationale_ImprovementMeaning r, Rationale_BaselineReason r,
        Rationale_MeaningfulDelta r, Rationale_PermittedClaim r]) (\<lambda>_.
     res_bind (res_each (\<lambda>list. fail_if (len list < 1 \<or> len list > 32)
         ''metric rationale requires preserved conditions, proxy attacks and excluded claims''
         (res_each (\<lambda>s. fail_if (\<not> boundedText s)
            ''metric rationale contains an empty or oversized argument'' (Inr ())) list))
       [Rationale_PreservedConditions r, Rationale_ProxyAttacks r, Rationale_ExcludedClaims r]) (\<lambda>_.
     fail_if (len (Rationale_EvidenceURLs r) < 1 \<or> len (Rationale_EvidenceURLs r) > 30)
       ''metric rationale must cite supporting evidence''
     (res_bind (res_fold (rationale_url_step sources) {} (Rationale_EvidenceURLs r)) (\<lambda>_. Inr ()))))"

section \<open>Build products and proofs\<close>

definition product_step :: "(string \<Rightarrow> bool) \<Rightarrow> string set \<times> int \<Rightarrow> BuildProduct \<Rightarrow> (string set \<times> int) res" where
  "product_step nfc = (\<lambda>(seen, tot) product.
     fail_if (\<not> is_ok (ValidatePath nfc (Product_Path product)) \<or> Product_Path product \<in> seen
         \<or> Product_MaxBytes product < 1 \<or> Product_MaxBytes product > 16 * 2 ^ 30)
       ''invalid frozen build product''
     (Inr (insert (Product_Path product) seen, int64 (tot + Product_MaxBytes product))))"

definition validateBuildProducts :: "(string \<Rightarrow> bool) \<Rightarrow> CandidateProgram \<Rightarrow> unit res" where
  "validateBuildProducts nfc p =
     fail_if (len (Program_Products p) > 64) ''too many declared build products''
     (res_bind (res_fold (product_step nfc) ({}, 0) (Program_Products p)) (\<lambda>(_, tot).
      fail_if (tot > int64 (Program_ScratchMB p * 2 ^ 20)) ''build products exceed candidate scratch budget''
      (Inr ())))"

definition axiom_step :: "string set \<Rightarrow> string \<Rightarrow> string set res" where
  "axiom_step seen name =
     fail_if (name = [] \<or> len name > 256 \<or> CHR 0x0A \<in> set name \<or> CHR 0x0D \<in> set name
         \<or> CHR 0x00 \<in> set name \<or> name \<in> seen)
       ''invalid or repeated allowed axiom'' (Inr (insert name seen))"

definition validateProofContract :: "(string \<Rightarrow> bool) \<Rightarrow> EvaluationContract \<Rightarrow> unit res" where
  "validateProofContract nfc e =
     (if Evaluation_Proof e = None \<and> Evaluation_Mode e \<noteq> ''proof'' then Inr () else
      fail_if (Evaluation_Mode e \<noteq> ''proof'' \<and> Evaluation_Mode e \<noteq> ''performance'')
        ''proof contract requires proof or proof-checked performance evaluation''
      (case Evaluation_Proof e of
         None \<Rightarrow> Inl (Err ''proof requires a frozen statement, certificate and replay description'')
       | Some p \<Rightarrow>
      fail_if (\<not> is_ok (ValidatePath nfc (Proof_StatementPath p)) \<or> \<not> prefix ''statements/'' (Proof_StatementPath p)
          \<or> \<not> ValidDigest (Proof_StatementDigest p) \<or> \<not> is_ok (ValidatePath nfc (Proof_CertificatePath p))
          \<or> len (trim_space (Proof_CheckDescription p)) < 20 \<or> len (Proof_CheckDescription p) > 8192)
        ''proof requires a frozen statement, certificate and replay description''
      (fail_if (Proof_Format p \<noteq> ''drat'' \<and> Proof_Format p \<noteq> ''lean'' \<and> Proof_Format p \<noteq> ''other'')
        ''unknown proof format''
      (fail_if (len (Proof_AllowedAxioms p) > 128
          \<or> (Proof_Format p = ''drat'' \<and> len (Proof_AllowedAxioms p) \<noteq> 0)) ''invalid axiom policy''
      (res_bind (res_fold axiom_step {} (Proof_AllowedAxioms p)) (\<lambda>_.
       (case Evaluation_Program e of None \<Rightarrow> Inr ()
        | Some prog \<Rightarrow>
          fail_if (\<not> list_ex (\<lambda>product. Product_Path product = Proof_CertificatePath p) (Program_Products prog))
            ''compiled proof certificate must be a declared sealed product'' (Inr ()))))))))"

section \<open>The contract\<close>

definition feature_step :: "string set \<Rightarrow> string \<Rightarrow> string set res" where
  "feature_step features f =
     fail_if (\<not> identifierPattern f \<or> f \<in> features) ''invalid or repeated capability'' (Inr (insert f features))"

definition validate_executor :: "ExecutorRequirements \<Rightarrow> string set res" where
  "validate_executor r =
     fail_if ((Executor_OS r \<noteq> ''linux'' \<and> Executor_OS r \<noteq> ''darwin'')
         \<or> (Executor_Architecture r \<noteq> ''amd64'' \<and> Executor_Architecture r \<noteq> ''arm64''))
       ''unsupported executor architecture or OS''
     (fail_if (Executor_Accelerator r \<noteq> ''none'' \<and> Executor_Accelerator r \<noteq> ''metal''
         \<and> Executor_Accelerator r \<noteq> ''cuda'') ''unknown accelerator''
     (fail_if (Executor_Accelerator r = ''metal''
         \<and> (Executor_OS r \<noteq> ''darwin'' \<or> Executor_Architecture r \<noteq> ''arm64'')) ''Metal requires macOS arm64''
     (fail_if (Executor_Accelerator r = ''cuda'' \<and> Executor_OS r \<noteq> ''linux'') ''CUDA requires a Linux executor''
     (fail_if (len (Executor_Features r) = 0 \<or> len (Executor_Features r) > 32)
       ''explicit executor capabilities required''
     (res_bind (res_fold feature_step {} (Executor_Features r)) (\<lambda>features.
      fail_if (''isolated-checker'' \<notin> features) ''isolated checker capability required'' (Inr features)))))))"

definition optional_number :: "string \<Rightarrow> string \<Rightarrow> rat option res" where
  "optional_number v kind =
     (if v = [] then Inr None else res_bind (MeasurementNumber v kind) (\<lambda>x. Inr (Some x)))"

definition measurement_step ::
    "Metric \<Rightarrow> int \<times> string set \<Rightarrow> MeasurementDefinition \<Rightarrow> (int \<times> string set) res" where
  "measurement_step m = (\<lambda>(primary, names) d.
     fail_if (\<not> identifierPattern (MeasDef_Name d) \<or> MeasDef_Name d \<in> names \<or> MeasDef_Unit d = []
         \<or> \<not> boundedText (MeasDef_Definition d)) ''invalid measurement definition''
     (fail_if (MeasDef_Type d \<noteq> ''integer'' \<and> MeasDef_Type d \<noteq> ''decimal'' \<and> MeasDef_Type d \<noteq> ''rational'')
       ''unknown measurement type''
     (res_bind
       (if MeasDef_Role d = ''primary'' then
          fail_if (MeasDef_Name d \<noteq> Metric_Name m \<or> MeasDef_Unit d \<noteq> Metric_Unit m)
            ''primary measurement must match ranking metric'' (Inr (primary + 1))
        else if MeasDef_Role d = ''constraint'' \<or> MeasDef_Role d = ''diagnostic'' then Inr primary
        else Inl (Err ''unknown measurement role'')) (\<lambda>primary'.
      fail_if (MeasDef_Interpretation d \<notin> {''direct'', ''bound'', ''proxy'', ''search-gradient''})
        ''unknown scientific metric interpretation''
      (res_bind (optional_number (MeasDef_Minimum d) (MeasDef_Type d)) (\<lambda>lo.
       res_bind (optional_number (MeasDef_Maximum d) (MeasDef_Type d)) (\<lambda>hi.
       fail_if (case (lo, hi) of (Some a, Some b) \<Rightarrow> a > b | _ \<Rightarrow> False) ''measurement bounds reversed''
       (Inr (primary', insert (MeasDef_Name d) names)))))))))"

definition check_stage_budget :: "CandidateProgram \<Rightarrow> Resources \<Rightarrow> StageBudget \<Rightarrow> unit res" where
  "check_stage_budget p resources b =
     fail_if (Budget_MaxFileBytes b < 0 \<or> Budget_MaxFileBytes b > int64 (Program_ScratchMB p * 2 ^ 20))
       ''file budget exceeds bounded candidate work space''
     (fail_if (Budget_TimeoutSeconds b < 1 \<or> Budget_TimeoutSeconds b > Resources_TimeoutSeconds resources
         \<or> Budget_MemoryMB b < 32 \<or> Budget_MemoryMB b > int64 (Resources_MemoryMB resources - 256)
         \<or> Budget_MaxOutputBytes b < 1 \<or> Budget_MaxOutputBytes b > 2 ^ 30 \<or> Budget_MaxProcesses b < 1
         \<or> Budget_MaxProcesses b > 256) ''stage budget exceeds session envelope'' (Inr ()))"

definition validate_program ::
    "(string \<Rightarrow> bool) \<Rightarrow> string \<Rightarrow> string set \<Rightarrow> Resources \<Rightarrow> CandidateProgram \<Rightarrow> unit res" where
  "validate_program nfc mode features resources p =
     res_bind (validateStageArgv (Program_Build p)) (\<lambda>_.
     res_bind (validateStageArgv (Program_Run p)) (\<lambda>_.
     let minimumRuns = (if mode = ''proof'' \<and> len (Program_Products p) > 0 then 0 else 1) in
     fail_if (Program_MaxRuns p < 1 \<or> Program_MaxRuns p > 10000 \<or> Program_MinRuns p < minimumRuns
         \<or> Program_MinRuns p > Program_MaxRuns p \<or> Program_ScratchMB p < 16
         \<or> Program_ScratchMB p > Resources_MemoryMB resources)
       ''invalid candidate run count or scratch budget''
     (fail_if (len (Program_Products p) > 0 \<and> ''sealed-products'' \<notin> features)
       ''build products require an enrolled sealed-products capability''
     (res_bind (validateBuildProducts nfc p) (\<lambda>_.
      res_each (check_stage_budget p resources) [Program_BuildBudget p, Program_RunBudget p])))))"

definition validate_performance ::
    "(string \<Rightarrow> bool) \<Rightarrow> EvaluationContract \<Rightarrow> Metric \<Rightarrow> string set \<Rightarrow> unit res" where
  "validate_performance nfc e m features =
     (if Evaluation_Mode e = ''performance'' then
        (case Evaluation_Measurement e of
           None \<Rightarrow> Inl (Err ''performance evaluation requires locked hardware and trusted measurement policy'')
         | Some policy \<Rightarrow>
        fail_if (''trusted-timing'' \<notin> features \<or> Executor_HardwareClass (Evaluation_Executor e) = [])
          ''performance evaluation requires locked hardware and trusted measurement policy''
        (fail_if (Metric_Direction m \<noteq> ''maximize'') ''paired speedup must be maximized''
        (res_bind (or_else (NormalizeScore ''1'' m)
            (Err ''paired speedup baseline must represent a ratio of exactly one'')) (\<lambda>baselineTicks.
         fail_if (baselineTicks \<noteq> Metric_BaselineTicks m)
           ''paired speedup baseline must represent a ratio of exactly one''
         (res_bind (res_each (\<lambda>d. fail_if (MeasDef_Role d = ''primary'' \<and> MeasDef_Type d \<noteq> ''rational'')
             ''paired timing primary is the exact rational lower confidence bound'' (Inr ()))
             (Evaluation_Measurements e)) (\<lambda>_.
          res_bind (ValidateMeasurementPolicy nfc policy) (\<lambda>_.
          res_bind (deref (Evaluation_Program e)) (\<lambda>prog.
          fail_if (Program_MaxRuns prog < int64 (2 * (Policy_Warmups policy + Policy_Repetitions policy)))
            ''candidate run budget cannot complete paired measurement schedule'' (Inr ())))))))))
      else fail_if (Evaluation_Measurement e \<noteq> None) ''timing policy requires performance mode'' (Inr ()))"

definition asset_step :: "string set \<Rightarrow> string set \<Rightarrow> EvaluationAsset \<Rightarrow> string set res" where
  "asset_step features names a =
     fail_if (\<not> identifierPattern (Asset_Name a) \<or> Asset_Name a \<in> names \<or> \<not> ValidDigest (Asset_Digest a)
         \<or> Asset_Size a < 1 \<or> Asset_Size a > 2 ^ 40) ''invalid immutable asset binding''
     (fail_if (Asset_Domain a \<noteq> [] \<and> Asset_Domain a \<noteq> ''candidate'' \<and> Asset_Domain a \<noteq> ''checker'')
       ''unknown asset execution domain''
     (fail_if (Asset_Purpose a = ''toolchain'' \<and> (Asset_Domain a \<noteq> ''candidate'' \<or> Asset_Visibility a \<noteq> ''public''))
       ''toolchain assets must be isolated candidate-only public inputs''
     (fail_if (Asset_Domain a = ''checker'' \<and> Asset_Purpose a \<noteq> ''proof'')
       ''executable checker assets require reviewed proof-tool purpose''
     (fail_if (Asset_Domain a \<noteq> [] \<and> ''asset-domains'' \<notin> features)
       ''asset domains require an enrolled capability''
     (fail_if (Asset_Visibility a \<noteq> ''public'' \<and> Asset_Visibility a \<noteq> ''hidden'')
       ''asset disclosure policy required''
     (fail_if (Asset_Purpose a \<notin> {''toolchain'', ''weights'', ''dataset'', ''proof''}) ''unknown asset purpose''
     (Inr (insert (Asset_Name a) names))))))))"

definition ValidateEvaluation ::
    "(string \<Rightarrow> bool) \<Rightarrow> EvaluationContract \<Rightarrow> Metric \<Rightarrow> Source list \<Rightarrow> Resources \<Rightarrow> unit res" where
  "ValidateEvaluation nfc e m sources resources =
     (let mode = Evaluation_Mode e in
      fail_if (Evaluation_Version e \<noteq> EvaluationVersion \<or> \<not> identifierPattern (Evaluation_ComparisonID e))
        ''unsupported evaluation version or comparison identity''
      (fail_if (mode \<notin> {''artifact'', ''proof'', ''program'', ''performance''}) ''unknown evaluation mode''
      (res_bind (ValidateMetricRationale (Evaluation_Rationale e) sources) (\<lambda>_.
       res_bind (validate_executor (Evaluation_Executor e)) (\<lambda>features.
       fail_if (len (Evaluation_Measurements e) = 0 \<or> len (Evaluation_Measurements e) > 32)
         ''one to thirty-two declared public measurements required''
       (res_bind (res_fold (measurement_step m) (0, {}) (Evaluation_Measurements e)) (\<lambda>(primary, _).
        fail_if (primary \<noteq> 1)
          ''exactly one primary measurement required; use separate tracks for incomparable objectives''
        (res_bind
          (if mode = ''program'' \<or> mode = ''performance'' \<or> (mode = ''proof'' \<and> Evaluation_Program e \<noteq> None)
           then fail_if (Evaluation_Program e = None \<or> ''isolated-candidate'' \<notin> features)
             ''program evaluation requires an isolated candidate and frozen program contract'' (Inr ())
           else fail_if (Evaluation_Program e \<noteq> None)
             ''artifact mode cannot silently execute submitted programs'' (Inr ())) (\<lambda>_.
         res_bind (case Evaluation_Program e of None \<Rightarrow> Inr ()
             | Some p \<Rightarrow> validate_program nfc mode features resources p) (\<lambda>_.
         res_bind (validate_performance nfc e m features) (\<lambda>_.
         fail_if ((mode = ''proof'' \<or> Evaluation_Proof e \<noteq> None) \<and> ''native-proof-checker'' \<notin> features)
           ''proof evaluation requires a proof-checker capability''
         (fail_if (mode = ''performance'' \<and> Evaluation_Proof e \<noteq> None
             \<and> ''proof-timing-composition'' \<notin> features)
           ''proof-checked timing requires an enrolled composed pipeline''
         (res_bind (validateProofContract nfc e) (\<lambda>_.
          fail_if (len (Evaluation_Assets e) > 16) ''too many immutable assets''
          (res_bind (res_fold (asset_step features) {} (Evaluation_Assets e)) (\<lambda>_. Inr ()))))))))))))))))"

section \<open>Executors\<close>

definition MatchExecutor ::
    "EvaluationContract \<Rightarrow> Resources \<Rightarrow> string \<Rightarrow> ExecutorCapabilities \<Rightarrow> unit res" where
  "MatchExecutor e resources runtimeDigest c =
     (let r = Evaluation_Executor e in
      fail_if (Executor_OS r \<noteq> Capabilities_OS c \<or> Executor_Architecture r \<noteq> Capabilities_Architecture c
          \<or> Executor_Accelerator r \<noteq> Capabilities_Accelerator c
          \<or> Executor_HardwareClass r \<noteq> [] \<and> Executor_HardwareClass r \<noteq> Capabilities_HardwareClass c)
        ''no matching operating system, architecture, accelerator or hardware class''
      (fail_if (\<not> ValidDigest runtimeDigest \<or> runtimeDigest \<noteq> Capabilities_RuntimeImageDigest c)
        ''executor runtime differs from locked toolchain''
      (fail_if (Resources_VCPU resources > Capabilities_MaxVCPU c
          \<or> Resources_MemoryMB resources > Capabilities_MaxMemoryMB c
          \<or> Resources_TimeoutSeconds resources > Capabilities_MaxSessionSeconds c)
        ''executor has insufficient resources''
      (res_bind (res_each (\<lambda>asset. if list_ex (\<lambda>available. asset = available) (Capabilities_Assets c)
          then Inr () else Inl (Errf ''executor lacks immutable asset %s'' [Asset_Name asset]))
          (Evaluation_Assets e)) (\<lambda>_.
       res_each (\<lambda>required. if list_ex (\<lambda>available. required = available) (Capabilities_Features c)
          then Inr () else Inl (Errf ''executor lacks capability %s'' [required])) (Executor_Features r))))))"

section \<open>Measurements and predicates\<close>

definition check_bound :: "string \<Rightarrow> string \<Rightarrow> (rat \<Rightarrow> bool) \<Rightarrow> string \<Rightarrow> unit res" where
  "check_bound v kind bad msg =
     (if v = [] then Inr () else
      res_bind (or_else (MeasurementNumber v kind) (Err msg)) (\<lambda>bound. fail_if (bad bound) msg (Inr ())))"

definition check_measurement :: "(string, string) gomap \<Rightarrow> MeasurementDefinition \<Rightarrow> unit res" where
  "check_measurement vals d =
     (case lookup vals (MeasDef_Name d) of
        None \<Rightarrow> Inl (Errf ''missing measurement %s'' [MeasDef_Name d])
      | Some v \<Rightarrow>
        res_bind (wrap_err (''measurement '' @ MeasDef_Name d) (MeasurementNumber v (MeasDef_Type d))) (\<lambda>x.
        res_bind (check_bound (MeasDef_Minimum d) (MeasDef_Type d) (\<lambda>bound. x < bound)
          ''measurement below declared domain'') (\<lambda>_.
        check_bound (MeasDef_Maximum d) (MeasDef_Type d) (\<lambda>bound. x > bound)
          ''measurement above declared domain'')))"

definition ValidateMeasurements :: "(string, string) gomap \<Rightarrow> EvaluationContract \<Rightarrow> unit res" where
  "ValidateMeasurements vals e =
     fail_if (len vals \<noteq> len (Evaluation_Measurements e))
       ''missing or undeclared measurement; arbitrary diagnostics are forbidden''
     (res_each (check_measurement vals) (Evaluation_Measurements e))"

definition check_predicate :: "EvaluationContract \<Rightarrow> MeasurementPredicate \<Rightarrow> unit res" where
  "check_predicate e p =
     fail_if (Predicate_Operator p \<noteq> ''eq'' \<and> Predicate_Operator p \<noteq> ''ge'' \<and> Predicate_Operator p \<noteq> ''le'')
       ''invalid achievement comparison''
     (res_bind (res_fold (\<lambda>found d. if MeasDef_Name d = Predicate_Measurement p
          then res_bind (MeasurementNumber (Predicate_Value p) (MeasDef_Type d)) (\<lambda>_. Inr True)
          else Inr found) False (Evaluation_Measurements e)) (\<lambda>found.
      fail_if (\<not> found) ''achievement references undeclared measurement'' (Inr ())))"

definition ValidatePredicates :: "MeasurementPredicate list \<Rightarrow> EvaluationContract \<Rightarrow> unit res" where
  "ValidatePredicates predicates e =
     fail_if (len predicates > 32) ''too many achievement predicates''
     (res_each (check_predicate e) predicates)"

text \<open>The result of one comparison; \<open>lookup\<close> of an absent key gives the zero value, the empty string.\<close>

definition predicate_fails ::
    "(string, string) gomap \<Rightarrow> MeasurementPredicate \<Rightarrow> MeasurementDefinition \<Rightarrow> bool res" where
  "predicate_fails vals p d =
     (let v = (case lookup vals (MeasDef_Name d) of None \<Rightarrow> [] | Some v \<Rightarrow> v) in
      res_bind (ignore_err (MeasurementNumber v (MeasDef_Type d))) (\<lambda>x.
      res_bind (ignore_err (MeasurementNumber (Predicate_Value p) (MeasDef_Type d))) (\<lambda>y.
      Inr (Predicate_Operator p = ''eq'' \<and> x \<noteq> y \<or> Predicate_Operator p = ''ge'' \<and> x < y
         \<or> Predicate_Operator p = ''le'' \<and> x > y))))"

fun meets_definitions ::
    "(string, string) gomap \<Rightarrow> MeasurementPredicate \<Rightarrow> MeasurementDefinition list \<Rightarrow> bool res" where
  "meets_definitions vals p [] = Inr True"
| "meets_definitions vals p (d # ds) =
     (if MeasDef_Name d = Predicate_Measurement p
      then res_bind (predicate_fails vals p d) (\<lambda>bad. if bad then Inr False else meets_definitions vals p ds)
      else meets_definitions vals p ds)"

fun meets_all ::
    "(string, string) gomap \<Rightarrow> MeasurementPredicate list \<Rightarrow> MeasurementDefinition list \<Rightarrow> bool res" where
  "meets_all vals [] ds = Inr True"
| "meets_all vals (p # ps) ds =
     res_bind (meets_definitions vals p ds) (\<lambda>ok. if ok then meets_all vals ps ds else Inr False)"

definition MeetsPredicates ::
    "(string, string) gomap \<Rightarrow> MeasurementPredicate list \<Rightarrow> EvaluationContract \<Rightarrow> bool res" where
  "MeetsPredicates vals predicates e =
     res_bind (ValidateMeasurements vals e) (\<lambda>_.
     res_bind (ValidatePredicates predicates e) (\<lambda>_.
     meets_all vals predicates (Evaluation_Measurements e)))"

definition SortedMeasurementNames :: "(string, string) gomap \<Rightarrow> string list" where
  "SortedMeasurementNames vals = sort (map fst vals)"

section \<open>No step panics\<close>

lemma no_panic_pair [panic_intros]:
  assumes "\<And>a b. no_panic (f a b)"
  shows "no_panic (case xs of [a, b] \<Rightarrow> f a b | _ \<Rightarrow> Inl (Err msg))"
  using assms by (simp split: list.split)

lemma MeasurementNumber_no_panic [panic_intros]: "no_panic (MeasurementNumber v kind)"
  unfolding MeasurementNumber_def by (intro panic_intros) simp_all

lemma optional_number_no_panic [panic_intros]: "no_panic (optional_number v kind)"
  by (auto simp: optional_number_def intro!: panic_intros)

lemma in_domain_no_panic [panic_intros]: "no_panic (in_domain ticks m)"
  unfolding in_domain_def by (intro panic_intros) simp_all

lemma NormalizeScore_no_panic [panic_intros]: "no_panic (NormalizeScore s m)"
  unfolding NormalizeScore_def normalizeRationalScore_def Let_def by (intro panic_intros) simp_all

lemma ValidateMetricRationale_no_panic [panic_intros]: "no_panic (ValidateMetricRationale r sources)"
  unfolding ValidateMetricRationale_def rationale_url_step_def by (intro panic_intros) simp_all

lemma validateBuildProducts_no_panic [panic_intros]: "no_panic (validateBuildProducts nfc p)"
  unfolding validateBuildProducts_def product_step_def
  by (intro panic_intros) (auto intro!: panic_intros)

lemma validateProofContract_no_panic [panic_intros]: "no_panic (validateProofContract nfc e)"
  unfolding validateProofContract_def axiom_step_def
  by (cases "Evaluation_Proof e"; cases "Evaluation_Program e") (auto intro!: panic_intros)

lemma validate_executor_no_panic [panic_intros]: "no_panic (validate_executor r)"
  unfolding validate_executor_def feature_step_def by (intro panic_intros) simp_all

lemma measurement_step_no_panic [panic_intros]: "no_panic (measurement_step m s d)"
  by (cases s) (auto simp: measurement_step_def intro!: panic_intros)

lemma validate_program_no_panic [panic_intros]: "no_panic (validate_program nfc mode features resources p)"
  unfolding validate_program_def check_stage_budget_def Let_def by (intro panic_intros) simp_all

lemma asset_step_no_panic [panic_intros]: "no_panic (asset_step features names a)"
  unfolding asset_step_def by (intro panic_intros) simp_all

lemma validate_performance_no_panic [panic_intros]:
  assumes "Evaluation_Mode e = ''performance'' \<Longrightarrow> Evaluation_Program e \<noteq> None"
  shows "no_panic (validate_performance nfc e m features)"
  using assms by (cases "Evaluation_Measurement e")
    (auto simp: validate_performance_def intro!: panic_intros)

lemma evaluation_no_panic [panic_intros]: "no_panic (ValidateEvaluation nfc e m sources resources)"
  unfolding ValidateEvaluation_def Let_def
  by (intro panic_intros) (auto split: option.splits intro!: panic_intros)

section \<open>What an accepted contract satisfies\<close>

definition is_primary :: "MeasurementDefinition \<Rightarrow> bool" where
  "is_primary d = (MeasDef_Role d = ''primary'')"

lemma measurement_step_Inr:
  assumes "measurement_step m (pr, ns) d = Inr (pr', ns')"
  shows "MeasDef_Name d \<notin> ns" "ns' = insert (MeasDef_Name d) ns"
    "pr' = pr + of_bool (is_primary d)"
    "is_primary d \<Longrightarrow> MeasDef_Name d = Metric_Name m \<and> MeasDef_Unit d = Metric_Unit m"
  using assms by (auto simp: measurement_step_def res_simps is_primary_def split: if_splits)

lemma measurement_fold:
  assumes "res_fold (measurement_step m) (pr, ns) ds = Inr (pr', ns')"
  shows "pr' = pr + int (length (filter is_primary ds)) \<and> distinct (map MeasDef_Name ds) \<and>
    MeasDef_Name ` set ds \<inter> ns = {} \<and>
    (\<forall>d\<in>set ds. is_primary d \<longrightarrow> MeasDef_Name d = Metric_Name m \<and> MeasDef_Unit d = Metric_Unit m)"
  using assms
proof (induction ds arbitrary: pr ns)
  case (Cons d ds)
  then obtain p1 n1 where s: "measurement_step m (pr, ns) d = Inr (p1, n1)"
    "res_fold (measurement_step m) (p1, n1) ds = Inr (pr', ns')"
    by (auto simp: res_simps)
  note st = measurement_step_Inr [OF s(1)]
  show ?case using Cons.IH [OF s(2)] st by auto
qed simp

lemma feature_fold: "res_fold feature_step S fs = Inr T \<Longrightarrow> T = S \<union> set fs"
  using res_fold_seen [of feature_step S fs T id] by (auto simp: feature_step_def res_simps)

lemma validate_executor_features: "validate_executor r = Inr fs \<Longrightarrow> fs = set (Executor_Features r)"
  by (auto simp: validate_executor_def res_simps dest: feature_fold)

text \<open>The stages that acceptance of a contract passed.\<close>

lemma ValidateEvaluation_Inr:
  assumes "ValidateEvaluation nfc e m sources resources = Inr ()"
  shows "Evaluation_Mode e \<in> {''artifact'', ''proof'', ''program'', ''performance''}"
    "\<exists>ns. res_fold (measurement_step m) (0, {}) (Evaluation_Measurements e) = Inr (1, ns)"
    "Evaluation_Mode e = ''program'' \<or> Evaluation_Mode e = ''performance'' \<Longrightarrow> Evaluation_Program e \<noteq> None"
    "Evaluation_Program e \<noteq> None \<Longrightarrow> Evaluation_Mode e \<noteq> ''artifact'' \<and>
       ''isolated-candidate'' \<in> set (Executor_Features (Evaluation_Executor e))"
    "Evaluation_Program e = Some p \<Longrightarrow> validate_program nfc (Evaluation_Mode e)
       (set (Executor_Features (Evaluation_Executor e))) resources p = Inr ()"
    "validate_performance nfc e m (set (Executor_Features (Evaluation_Executor e))) = Inr ()"
    "validateProofContract nfc e = Inr ()"
    "validate_executor (Evaluation_Executor e) = Inr (set (Executor_Features (Evaluation_Executor e)))"
proof -
  obtain fs where fs: "validate_executor (Evaluation_Executor e) = Inr fs"
    using assms by (auto simp: ValidateEvaluation_def Let_def res_simps)
  note fs' = fs [unfolded validate_executor_features [OF fs]]
  note acc = assms [unfolded ValidateEvaluation_def Let_def fs' res_bind_simps]
  show "Evaluation_Mode e \<in> {''artifact'', ''proof'', ''program'', ''performance''}"
    using acc by (simp add: res_simps)
  show "\<exists>ns. res_fold (measurement_step m) (0, {}) (Evaluation_Measurements e) = Inr (1, ns)"
    using acc by (force simp: res_simps)
  show "Evaluation_Mode e = ''program'' \<or> Evaluation_Mode e = ''performance'' \<Longrightarrow> Evaluation_Program e \<noteq> None"
    using acc by (auto simp: res_simps)
  show "Evaluation_Program e \<noteq> None \<Longrightarrow> Evaluation_Mode e \<noteq> ''artifact'' \<and>
      ''isolated-candidate'' \<in> set (Executor_Features (Evaluation_Executor e))"
    using acc by (auto simp: res_simps split: if_splits)
  show "Evaluation_Program e = Some p \<Longrightarrow> validate_program nfc (Evaluation_Mode e)
      (set (Executor_Features (Evaluation_Executor e))) resources p = Inr ()"
    using acc by (auto simp: res_simps)
  show "validate_performance nfc e m (set (Executor_Features (Evaluation_Executor e))) = Inr ()"
    using acc by (auto simp: res_simps)
  show "validateProofContract nfc e = Inr ()"
    using acc by (auto simp: res_simps)
  show "validate_executor (Evaluation_Executor e) = Inr (set (Executor_Features (Evaluation_Executor e)))"
    by (rule fs')
qed

lemma names_distinct:
  assumes "ValidateEvaluation nfc e m sources resources = Inr ()"
  shows "distinct (map MeasDef_Name (Evaluation_Measurements e))"
  using ValidateEvaluation_Inr(2) [OF assms] measurement_fold by blast

lemma single_primary:
  assumes "ValidateEvaluation nfc e m sources resources = Inr ()"
  shows "\<exists>d. filter is_primary (Evaluation_Measurements e) = [d] \<and> MeasDef_Name d = Metric_Name m
    \<and> MeasDef_Unit d = Metric_Unit m"
proof -
  obtain ns where "res_fold (measurement_step m) (0, {}) (Evaluation_Measurements e) = Inr (1, ns)"
    using ValidateEvaluation_Inr(2) [OF assms] by blast
  note mf = measurement_fold [OF this]
  then obtain d where d: "filter is_primary (Evaluation_Measurements e) = [d]"
    by (auto simp: length_Suc_conv)
  then have "d \<in> set (filter is_primary (Evaluation_Measurements e))" by simp
  then have "d \<in> set (Evaluation_Measurements e)" "is_primary d" by auto
  then show ?thesis using mf d by blast
qed

lemma validate_performance_Inr:
  assumes "validate_performance nfc e m features = Inr ()" "Evaluation_Mode e = ''performance''"
  shows "\<exists>policy prog. Evaluation_Measurement e = Some policy \<and> Evaluation_Program e = Some prog \<and>
    ValidateMeasurementPolicy nfc policy = Inr () \<and>
    2 * (Policy_Warmups policy + Policy_Repetitions policy) \<le> Program_MaxRuns prog \<and>
    NormalizeScore ''1'' m = Inr (Metric_BaselineTicks m) \<and> Metric_Direction m = ''maximize'' \<and>
    (\<forall>d\<in>set (Evaluation_Measurements e). is_primary d \<longrightarrow> MeasDef_Type d = ''rational'')"
proof -
  obtain policy prog where p: "Evaluation_Measurement e = Some policy" "Evaluation_Program e = Some prog"
    "ValidateMeasurementPolicy nfc policy = Inr ()"
    "int64 (2 * (Policy_Warmups policy + Policy_Repetitions policy)) \<le> Program_MaxRuns prog"
    "NormalizeScore ''1'' m = Inr (Metric_BaselineTicks m)" "Metric_Direction m = ''maximize''"
    "\<forall>d\<in>set (Evaluation_Measurements e). is_primary d \<longrightarrow> MeasDef_Type d = ''rational''"
    using assms by (cases "Evaluation_Measurement e")
      (auto simp: validate_performance_def res_simps is_primary_def)
  have "1 \<le> Policy_Warmups policy \<and> Policy_Warmups policy \<le> 100 \<and> 9 \<le> Policy_Repetitions policy
      \<and> Policy_Repetitions policy \<le> 255"
    using p(3) by (auto simp: ValidateMeasurementPolicy_def res_simps)
  then have "int64 (2 * (Policy_Warmups policy + Policy_Repetitions policy))
      = 2 * (Policy_Warmups policy + Policy_Repetitions policy)"
    by (intro int64_id) simp_all
  with p show ?thesis by auto
qed

lemma certificate_is_product:
  assumes "validateProofContract nfc e = Inr ()" "Evaluation_Proof e = Some c" "Evaluation_Program e = Some p"
  shows "Proof_CertificatePath c \<in> Product_Path ` set (Program_Products p)"
proof -
  have "list_ex (\<lambda>product. Product_Path product = Proof_CertificatePath c) (Program_Products p)"
    using assms(1) by (simp add: validateProofContract_def res_simps assms(2,3))
  then show ?thesis by (force simp: list_ex_iff)
qed

section \<open>Build products\<close>

lemma product_fold:
  assumes "res_fold (product_step nfc) (S, t) ps = Inr (S', t')" "0 \<le> t" "t + 2 ^ 34 * len ps < 2 ^ 63"
  shows "t' = t + (\<Sum>p\<leftarrow>ps. Product_MaxBytes p) \<and> distinct (map Product_Path ps) \<and>
    Product_Path ` set ps \<inter> S = {} \<and> (\<forall>p\<in>set ps. 1 \<le> Product_MaxBytes p)"
  using assms
proof (induction ps arbitrary: S t)
  case (Cons p ps)
  then obtain s1 t1 where s: "product_step nfc (S, t) p = Inr (s1, t1)"
    "res_fold (product_step nfc) (s1, t1) ps = Inr (S', t')"
    by (auto simp: res_simps)
  then have f: "Product_Path p \<notin> S" "s1 = insert (Product_Path p) S" "1 \<le> Product_MaxBytes p"
    "Product_MaxBytes p \<le> 2 ^ 34" "t1 = int64 (t + Product_MaxBytes p)"
    by (auto simp: product_step_def res_simps)
  have n: "len (p # ps) = len ps + 1" "0 \<le> len ps" by (simp_all add: len_def)
  have t1: "t1 = t + Product_MaxBytes p"
  proof -
    have "2 ^ 34 * len (p # ps) = 2 ^ 34 * len ps + 2 ^ 34" "0 \<le> 2 ^ 34 * len ps"
      using n by (simp_all add: n(1))
    then have "t + Product_MaxBytes p \<le> t + 2 ^ 34 * len (p # ps)" using f(4) by linarith
    then show ?thesis
      unfolding f(5) using Cons.prems(2,3) f(3) by (intro int64_id) linarith+
  qed
  have "0 \<le> t1" "t1 + 2 ^ 34 * len ps < 2 ^ 63" using t1 f(3,4) Cons.prems(2,3) n by simp_all
  from Cons.IH [OF s(2) this] show ?case using f t1 by auto
qed simp

lemma build_products_fit:
  assumes "validateBuildProducts nfc p = Inr ()" "0 \<le> Program_ScratchMB p" "Program_ScratchMB p < 2 ^ 43"
  shows "(\<Sum>x\<leftarrow>Program_Products p. Product_MaxBytes x) \<le> Program_ScratchMB p * 2 ^ 20"
    "distinct (map Product_Path (Program_Products p))"
proof -
  obtain S t where f: "res_fold (product_step nfc) ({}, 0) (Program_Products p) = Inr (S, t)"
    "t \<le> int64 (Program_ScratchMB p * 2 ^ 20)" "len (Program_Products p) \<le> 64"
    using assms(1) by (auto simp: validateBuildProducts_def res_simps)
  have "int64 (Program_ScratchMB p * 2 ^ 20) = Program_ScratchMB p * 2 ^ 20"
    using assms(2,3) by (intro int64_id) simp_all
  then show "(\<Sum>x\<leftarrow>Program_Products p. Product_MaxBytes x) \<le> Program_ScratchMB p * 2 ^ 20"
    "distinct (map Product_Path (Program_Products p))"
    using product_fold [OF f(1)] f(2,3) by simp_all
qed

section \<open>Predicates\<close>

text \<open>The exact meaning of one predicate on the measured values.\<close>

definition compare_holds :: "string \<Rightarrow> rat \<Rightarrow> rat \<Rightarrow> bool" where
  "compare_holds operator x y =
     (operator = ''eq'' \<and> x = y \<or> operator = ''ge'' \<and> x \<ge> y \<or> operator = ''le'' \<and> x \<le> y)"

definition predicate_holds ::
    "(string, string) gomap \<Rightarrow> EvaluationContract \<Rightarrow> MeasurementPredicate \<Rightarrow> bool" where
  "predicate_holds vals e p \<longleftrightarrow> (\<exists>d\<in>set (Evaluation_Measurements e). \<exists>v x y.
     MeasDef_Name d = Predicate_Measurement p \<and> lookup vals (MeasDef_Name d) = Some v \<and>
     MeasurementNumber v (MeasDef_Type d) = Inr x \<and>
     MeasurementNumber (Predicate_Value p) (MeasDef_Type d) = Inr y \<and>
     compare_holds (Predicate_Operator p) x y)"

lemma check_bound_no_panic [panic_intros]: "no_panic (check_bound v kind bad msg)"
  unfolding check_bound_def by (intro panic_intros) simp_all

lemma check_measurement_no_panic [panic_intros]: "no_panic (check_measurement vals d)"
  unfolding check_measurement_def
  by (cases "lookup vals (MeasDef_Name d)") (auto intro!: panic_intros)

lemma ValidateMeasurements_no_panic [panic_intros]: "no_panic (ValidateMeasurements vals e)"
  unfolding ValidateMeasurements_def by (intro panic_intros)

lemma ValidatePredicates_no_panic [panic_intros]: "no_panic (ValidatePredicates ps e)"
  unfolding ValidatePredicates_def check_predicate_def by (intro panic_intros) simp_all

lemma measured_value:
  assumes "ValidateMeasurements vals e = Inr ()" "d \<in> set (Evaluation_Measurements e)"
  obtains v x where "lookup vals (MeasDef_Name d) = Some v" "MeasurementNumber v (MeasDef_Type d) = Inr x"
  using assms by (fastforce simp: ValidateMeasurements_def check_measurement_def res_simps split: option.splits)

lemma predicate_search:
  assumes "res_fold (\<lambda>found d. if MeasDef_Name d = n
      then res_bind (MeasurementNumber v (MeasDef_Type d)) (\<lambda>_. Inr True) else Inr found) b ds = Inr b'"
  shows "(\<forall>d\<in>set ds. MeasDef_Name d = n \<longrightarrow> is_ok (MeasurementNumber v (MeasDef_Type d))) \<and>
    b' = (b \<or> n \<in> MeasDef_Name ` set ds)"
  using assms
proof (induction ds arbitrary: b)
  case (Cons d ds)
  show ?case
  proof (cases "MeasDef_Name d = n")
    case True
    then obtain x where x: "MeasurementNumber v (MeasDef_Type d) = Inr x" using Cons.prems by (auto simp: res_simps)
    with True Cons.prems have "res_fold (\<lambda>found d. if MeasDef_Name d = n
      then res_bind (MeasurementNumber v (MeasDef_Type d)) (\<lambda>_. Inr True) else Inr found) True ds = Inr b'" by simp
    from Cons.IH [OF this] show ?thesis using x True by auto
  next
    case False
    with Cons.prems have "res_fold (\<lambda>found d. if MeasDef_Name d = n
      then res_bind (MeasurementNumber v (MeasDef_Type d)) (\<lambda>_. Inr True) else Inr found) b ds = Inr b'" by simp
    from Cons.IH [OF this] show ?thesis using False by auto
  qed
qed simp

lemma check_predicate_Inr:
  assumes "check_predicate e p = Inr ()"
  shows "Predicate_Operator p \<in> {''eq'', ''ge'', ''le''}"
    "Predicate_Measurement p \<in> MeasDef_Name ` set (Evaluation_Measurements e)"
    "d \<in> set (Evaluation_Measurements e) \<Longrightarrow> MeasDef_Name d = Predicate_Measurement p \<Longrightarrow>
      is_ok (MeasurementNumber (Predicate_Value p) (MeasDef_Type d))"
  using assms predicate_search [of "Predicate_Measurement p" "Predicate_Value p" False "Evaluation_Measurements e" True]
  by (auto simp: check_predicate_def res_simps)

lemma predicate_fails_eq:
  assumes "lookup vals (MeasDef_Name d) = Some v" "MeasurementNumber v (MeasDef_Type d) = Inr x"
    "MeasurementNumber (Predicate_Value p) (MeasDef_Type d) = Inr y" "Predicate_Operator p \<in> {''eq'', ''ge'', ''le''}"
  shows "predicate_fails vals p d = Inr (\<not> compare_holds (Predicate_Operator p) x y)"
  using assms by (auto simp: predicate_fails_def compare_holds_def)

definition definition_holds :: "(string, string) gomap \<Rightarrow> MeasurementPredicate \<Rightarrow> MeasurementDefinition \<Rightarrow> bool" where
  "definition_holds vals p d \<longleftrightarrow> predicate_fails vals p d = Inr False"

lemma predicate_total:
  assumes "ValidateMeasurements vals e = Inr ()" "check_predicate e p = Inr ()"
    "d \<in> set (Evaluation_Measurements e)" "MeasDef_Name d = Predicate_Measurement p"
  obtains v x y where "lookup vals (MeasDef_Name d) = Some v" "MeasurementNumber v (MeasDef_Type d) = Inr x"
    "MeasurementNumber (Predicate_Value p) (MeasDef_Type d) = Inr y"
    "predicate_fails vals p d = Inr (\<not> compare_holds (Predicate_Operator p) x y)"
proof -
  obtain v x where v: "lookup vals (MeasDef_Name d) = Some v" "MeasurementNumber v (MeasDef_Type d) = Inr x"
    using measured_value [OF assms(1,3)] by blast
  obtain y where y: "MeasurementNumber (Predicate_Value p) (MeasDef_Type d) = Inr y"
    using check_predicate_Inr(3) [OF assms(2-4)] by (auto simp: is_ok_iff)
  show ?thesis by (rule that [OF v y predicate_fails_eq [OF v y check_predicate_Inr(1) [OF assms(2)]]])
qed

lemma meets_definitions_eq:
  assumes "\<forall>d\<in>set ds. MeasDef_Name d = Predicate_Measurement p \<longrightarrow> is_ok (predicate_fails vals p d)"
  shows "meets_definitions vals p ds =
    Inr (\<forall>d\<in>set ds. MeasDef_Name d = Predicate_Measurement p \<longrightarrow> definition_holds vals p d)"
  using assms by (induction ds) (auto simp: is_ok_iff definition_holds_def)

lemma meets_all_eq:
  assumes "ValidateMeasurements vals e = Inr ()" "\<forall>p\<in>set ps. check_predicate e p = Inr ()"
  shows "meets_all vals ps (Evaluation_Measurements e) =
    Inr (\<forall>p\<in>set ps. \<forall>d\<in>set (Evaluation_Measurements e).
      MeasDef_Name d = Predicate_Measurement p \<longrightarrow> definition_holds vals p d)"
  using assms(2)
proof (induction ps)
  case (Cons p ps)
  have "meets_definitions vals p (Evaluation_Measurements e) =
      Inr (\<forall>d\<in>set (Evaluation_Measurements e). MeasDef_Name d = Predicate_Measurement p \<longrightarrow> definition_holds vals p d)"
  proof (rule meets_definitions_eq, intro ballI impI)
    fix d assume "d \<in> set (Evaluation_Measurements e)" "MeasDef_Name d = Predicate_Measurement p"
    moreover have "check_predicate e p = Inr ()" using Cons.prems by simp
    ultimately show "is_ok (predicate_fails vals p d)"
      using predicate_total [OF assms(1)] by (metis is_ok.simps(2))
  qed
  then show ?case using Cons by auto
qed simp

lemma predicate_holds_unique:
  assumes "ValidateMeasurements vals e = Inr ()" "check_predicate e p = Inr ()"
    "distinct (map MeasDef_Name (Evaluation_Measurements e))"
  shows "predicate_holds vals e p \<longleftrightarrow> (\<forall>d\<in>set (Evaluation_Measurements e).
    MeasDef_Name d = Predicate_Measurement p \<longrightarrow> definition_holds vals p d)"
proof -
  obtain d where d: "d \<in> set (Evaluation_Measurements e)" "MeasDef_Name d = Predicate_Measurement p"
    using check_predicate_Inr(2) [OF assms(2)] by auto
  have uniq: "d' = d" if "d' \<in> set (Evaluation_Measurements e)" "MeasDef_Name d' = Predicate_Measurement p" for d'
    using assms(3) that d unfolding distinct_map by (metis inj_onD)
  obtain v x y where v: "lookup vals (MeasDef_Name d) = Some v" "MeasurementNumber v (MeasDef_Type d) = Inr x"
    "MeasurementNumber (Predicate_Value p) (MeasDef_Type d) = Inr y"
    and f: "predicate_fails vals p d = Inr (\<not> compare_holds (Predicate_Operator p) x y)"
    using predicate_total [OF assms(1,2) d] by blast
  have "predicate_holds vals e p \<longleftrightarrow> compare_holds (Predicate_Operator p) x y"
  proof
    assume "predicate_holds vals e p"
    then obtain d' v' x' y' where h: "d' \<in> set (Evaluation_Measurements e)" "MeasDef_Name d' = Predicate_Measurement p"
      "lookup vals (MeasDef_Name d') = Some v'" "MeasurementNumber v' (MeasDef_Type d') = Inr x'"
      "MeasurementNumber (Predicate_Value p) (MeasDef_Type d') = Inr y'" "compare_holds (Predicate_Operator p) x' y'"
      unfolding predicate_holds_def by blast
    have "d' = d" using uniq [OF h(1,2)] .
    with h(3-6) v show "compare_holds (Predicate_Operator p) x y" by simp
  next
    assume "compare_holds (Predicate_Operator p) x y"
    then show "predicate_holds vals e p" unfolding predicate_holds_def using d v by blast
  qed
  moreover have "definition_holds vals p d \<longleftrightarrow> compare_holds (Predicate_Operator p) x y"
    by (simp add: definition_holds_def f)
  ultimately show ?thesis using d uniq by blast
qed

lemma MeetsPredicates_eq:
  assumes "ValidateMeasurements vals e = Inr ()" "ValidatePredicates ps e = Inr ()"
    "distinct (map MeasDef_Name (Evaluation_Measurements e))"
  shows "MeetsPredicates vals ps e = Inr (list_all (predicate_holds vals e) ps)"
proof -
  have c: "\<forall>p\<in>set ps. check_predicate e p = Inr ()" using assms(2) by (auto simp: ValidatePredicates_def res_simps)
  have "(\<forall>p\<in>set ps. \<forall>d\<in>set (Evaluation_Measurements e).
      MeasDef_Name d = Predicate_Measurement p \<longrightarrow> definition_holds vals p d) = list_all (predicate_holds vals e) ps"
    using predicate_holds_unique [OF assms(1) _ assms(3)] c by (simp add: list_all_iff)
  then show ?thesis using meets_all_eq [OF assms(1) c] by (simp add: MeetsPredicates_def assms(1,2))
qed

lemma MeetsPredicates_no_panic [panic_intros]: "no_panic (MeetsPredicates vals ps e)"
proof (cases "ValidateMeasurements vals e = Inr () \<and> ValidatePredicates ps e = Inr ()")
  case True
  then have "\<forall>p\<in>set ps. check_predicate e p = Inr ()" by (auto simp: ValidatePredicates_def res_simps)
  with True show ?thesis using meets_all_eq [of vals e ps] by (simp add: MeetsPredicates_def)
next
  case False
  then show ?thesis unfolding MeetsPredicates_def by (intro panic_intros) auto
qed

lemma measurement_keys:
  assumes "ValidateMeasurements vals e = Inr ()" "gomap_ok vals"
    "distinct (map MeasDef_Name (Evaluation_Measurements e))"
  shows "fst ` set vals = MeasDef_Name ` set (Evaluation_Measurements e)"
proof -
  have "\<forall>n\<in>set (map MeasDef_Name (Evaluation_Measurements e)). lookup vals n \<noteq> None"
  proof
    fix n assume "n \<in> set (map MeasDef_Name (Evaluation_Measurements e))"
    then obtain d where d: "d \<in> set (Evaluation_Measurements e)" "n = MeasDef_Name d" by auto
    show "lookup vals n \<noteq> None" by (rule measured_value [OF assms(1) d(1)]) (simp add: d(2))
  qed
  moreover have "length vals = length (map MeasDef_Name (Evaluation_Measurements e))"
    using assms(1) by (simp add: ValidateMeasurements_def res_simps len_def)
  ultimately show ?thesis using gomap_keys_exact [OF assms(2) _ assms(3)] by simp
qed

section \<open>Properties\<close>

text \<open>Validation of an evaluation contract never panics, whatever the decoded contract: the candidate
  program is dereferenced only where the mode has made sure that it is present.\<close>

theorem ValidateEvaluation_no_panic: "no_panic (ValidateEvaluation nfc e m sources resources)"
  by (rule evaluation_no_panic)

text \<open>C28: an accepted contract ranks by exactly one measurement, which is the metric of the manifest; it
  runs submitted code only in a mode and on an executor with an isolated candidate; in performance mode
  a ratio of one is exactly the baseline and the run budget covers the paired schedule; and the
  certificate of a compiled proof is one of the sealed build products.\<close>

theorem ValidateEvaluation_sound:
  assumes "ValidateEvaluation nfc e m sources resources = Inr ()"
  shows "distinct (map MeasDef_Name (Evaluation_Measurements e)) \<and>
    (\<exists>d. filter is_primary (Evaluation_Measurements e) = [d] \<and> MeasDef_Name d = Metric_Name m) \<and>
    (\<forall>prog. Evaluation_Program e = Some prog \<longrightarrow> Evaluation_Mode e \<noteq> ''artifact'' \<and>
      ''isolated-candidate'' \<in> set (Executor_Features (Evaluation_Executor e))) \<and>
    (Evaluation_Mode e = ''performance'' \<longrightarrow> (\<exists>policy prog. Evaluation_Measurement e = Some policy \<and>
      Evaluation_Program e = Some prog \<and> NormalizeScore ''1'' m = Inr (Metric_BaselineTicks m) \<and>
      2 * (Policy_Warmups policy + Policy_Repetitions policy) \<le> Program_MaxRuns prog)) \<and>
    (\<forall>c prog. Evaluation_Proof e = Some c \<and> Evaluation_Program e = Some prog \<longrightarrow>
      Proof_CertificatePath c \<in> Product_Path ` set (Program_Products prog))"
  using names_distinct [OF assms] single_primary [OF assms] ValidateEvaluation_Inr(4) [OF assms]
    validate_performance_Inr [OF ValidateEvaluation_Inr(6) [OF assms]]
    certificate_is_product [OF ValidateEvaluation_Inr(7) [OF assms]]
  by (intro conjI) blast+

definition demo_text :: string where
  "demo_text = ''a substantive statement''"

definition demo_speedup :: Metric where
  "demo_speedup = \<lparr>Metric_Name = ''speedup'', Metric_Direction = ''maximize'', Metric_Unit = ''ratio'',
     Metric_Quantum = ''0.001'', Metric_BaselineTicks = ''1000'', Metric_MinimumDeltaTicks = ''10'',
     Metric_ToleranceTicks = ''0'', Metric_DomainMinTicks = ''0'', Metric_DomainMaxTicks = []\<rparr>"

definition demo_source :: Source where
  "demo_source = \<lparr>Source_PublicationDate = [], Source_Identifier = [], Source_URL = ''https://example.org/a'',
     Source_Title = ''t'', Source_Evidence = ''e'', Source_Location = ''l'', Source_AccessedAt = []\<rparr>"

definition demo_resources :: Resources where
  "demo_resources = \<lparr>Resources_Class = ''cpu-small'', Resources_VCPU = 2, Resources_MemoryMB = 1024,
     Resources_TimeoutSeconds = 60, Resources_MaxOutputBytes = 4096\<rparr>"

definition demo_budget :: StageBudget where
  "demo_budget = \<lparr>Budget_TimeoutSeconds = 30, Budget_MemoryMB = 64, Budget_MaxOutputBytes = 1024,
     Budget_MaxProcesses = 4, Budget_MaxFileBytes = 0\<rparr>"

definition demo_evaluation :: EvaluationContract where
  "demo_evaluation = \<lparr>Evaluation_Version = EvaluationVersion, Evaluation_Mode = ''performance'',
     Evaluation_ComparisonID = ''cmp'',
     Evaluation_Executor = \<lparr>Executor_OS = ''linux'', Executor_Architecture = ''amd64'', Executor_Accelerator = ''none'',
       Executor_HardwareClass = ''hw'', Executor_Features = [''isolated-checker'', ''isolated-candidate'', ''trusted-timing'']\<rparr>,
     Evaluation_Measurements = [\<lparr>MeasDef_Name = ''speedup'', MeasDef_Type = ''rational'', MeasDef_Unit = ''ratio'',
       MeasDef_Role = ''primary'', MeasDef_Interpretation = ''direct'', MeasDef_Definition = demo_text,
       MeasDef_Minimum = ''0/1'', MeasDef_Maximum = []\<rparr>],
     Evaluation_Rationale = \<lparr>Rationale_Objective = demo_text, Rationale_ImprovementMeaning = demo_text,
       Rationale_EvidenceURLs = [''https://example.org/a''], Rationale_PreservedConditions = [demo_text],
       Rationale_BaselineReason = demo_text, Rationale_MeaningfulDelta = demo_text,
       Rationale_ProxyAttacks = [demo_text], Rationale_PermittedClaim = demo_text,
       Rationale_ExcludedClaims = [demo_text]\<rparr>,
     Evaluation_Program = Some \<lparr>Program_Build = [''/bin/true''], Program_Run = [''/bin/true''],
       Program_BuildBudget = demo_budget, Program_RunBudget = demo_budget, Program_MaxRuns = 20,
       Program_MinRuns = 1, Program_ScratchMB = 16, Program_Products = []\<rparr>,
     Evaluation_Measurement = Some demo_policy, Evaluation_Proof = None, Evaluation_Assets = []\<rparr>"

theorem ValidateEvaluation_sound_witness:
  "ValidateEvaluation (\<lambda>_. True) demo_evaluation demo_speedup [demo_source] demo_resources = Inr () \<and>
   (\<exists>d. filter is_primary (Evaluation_Measurements demo_evaluation) = [d])"
proof -
  have "is_ok (ValidateEvaluation (\<lambda>_. True) demo_evaluation demo_speedup [demo_source] demo_resources)"
    by code_simp
  then have "ValidateEvaluation (\<lambda>_. True) demo_evaluation demo_speedup [demo_source] demo_resources = Inr ()"
    by (auto simp: is_ok_iff)
  then show ?thesis using ValidateEvaluation_sound by blast
qed

text \<open>C17: achievement predicates are decided exactly.  On measurements and predicates that pass their
  checks, \<open>MeetsPredicates\<close> returns without a panic, says yes precisely when every predicate holds of
  the exact rational values, and the measured names are precisely the declared ones.\<close>

theorem MeetsPredicates_exact:
  assumes "ValidateMeasurements vals e = Inr ()" "ValidatePredicates ps e = Inr ()"
    "distinct (map MeasDef_Name (Evaluation_Measurements e))" "gomap_ok vals"
  shows "MeetsPredicates vals ps e = Inr (list_all (predicate_holds vals e) ps) \<and>
    fst ` set vals = MeasDef_Name ` set (Evaluation_Measurements e)"
  using MeetsPredicates_eq [OF assms(1-3)] measurement_keys [OF assms(1,4,3)] by simp

theorem MeetsPredicates_exact_witness:
  "MeetsPredicates [(''speedup'', ''3/2'')] [\<lparr>Predicate_Measurement = ''speedup'', Predicate_Operator = ''ge'',
     Predicate_Value = ''5/4''\<rparr>] demo_evaluation = Inr (list_all (predicate_holds [(''speedup'', ''3/2'')] demo_evaluation)
     [\<lparr>Predicate_Measurement = ''speedup'', Predicate_Operator = ''ge'', Predicate_Value = ''5/4''\<rparr>])"
proof -
  let ?v = "[(''speedup'', ''3/2'')]"
  let ?p = "[\<lparr>Predicate_Measurement = ''speedup'', Predicate_Operator = ''ge'', Predicate_Value = ''5/4''\<rparr>]"
  have "is_ok (ValidateMeasurements ?v demo_evaluation)" "is_ok (ValidatePredicates ?p demo_evaluation)" by code_simp+
  moreover have "distinct (map MeasDef_Name (Evaluation_Measurements demo_evaluation))" "gomap_ok ?v" by code_simp+
  ultimately show ?thesis using MeetsPredicates_exact [of ?v demo_evaluation ?p] by (auto simp: is_ok_iff)
qed

end
