(* ===== verification/Artifacts.thy ===== *)
theory Artifacts
  imports Paths "HOL-Library.Char_ord" "HOL-Library.List_Lexorder" "HOL-Library.Multiset"
begin

unbundle bit_operations_syntax

text \<open>
  Submitted artifacts (\<open>pkg/protocol/artifacts.go\<close> and \<open>ValidateSubmissionContract\<close> of \<open>validate.go\<close>):
  the contract, the filter on file names and contents, the canonical tree with its digest, and the
  reader of tar archives.

  Arguments that stand for code outside the repository: \<open>nfc\<close> and \<open>cfold\<close> (Unicode normal form and
  case folding, \<open>golang.org/x/text\<close>), \<open>lower\<close> (the Unicode lower-case table), \<open>sha\<close> (SHA-256) and
  \<open>canon\<close> (the canonical JSON bytes of a tree).  The archive reader sees the stream that \<open>archive/tar\<close>
  and \<open>compress/gzip\<close> deliver, as the record \<open>ArchiveStream\<close>.
\<close>

section \<open>The submission contract\<close>

text \<open>\<open>^\.[a-z0-9]{1,16}$\<close>\<close>

definition source_extension :: "string \<Rightarrow> bool" where
  "source_extension e = (case e of [] \<Rightarrow> False | c # cs \<Rightarrow> c = CHR ''.'' \<and> 1 \<le> len cs \<and> len cs \<le> 16 \<and>
     list_all (\<lambda>x. is_digit x \<or> 97 \<le> code x \<and> code x \<le> 122) cs)"

definition data_extensions :: "string list" where
  "data_extensions = [''.json'', ''.csv'', ''.tsv'', ''.txt'', ''.dat'', ''.npy'', ''.bin'']"

definition ValidateSubmissionContract :: "(string \<Rightarrow> bool) \<Rightarrow> SubmissionContract \<Rightarrow> unit res" where
  "ValidateSubmissionContract nfc c =
     fail_if (Submission_Format c \<noteq> [] \<and> Submission_Format c \<noteq> ''source-v2'')
       ''unknown artifact content format''
     (fail_if (Submission_MaxBytes c < 1 \<or> Submission_MaxBytes c > 67108864 \<or> Submission_MaxFiles c < 1
         \<or> Submission_MaxFiles c > 4096 \<or> Submission_License c = [] \<or> Submission_AllowedPaths c = []
         \<or> len (Submission_AllowedPaths c) > 32 \<or> Submission_AllowedExtensions c = [])
       ''invalid submission limits/license/paths''
     (res_bind (res_each (\<lambda>p. ValidatePath nfc (trim_suffix p ''/'')) (Submission_AllowedPaths c)) (\<lambda>_.
      res_each (\<lambda>e.
        if Submission_Format c = ''source-v2'' then
          fail_if (len e > 17 \<or> e \<noteq> [] \<and> \<not> source_extension e) ''invalid source extension'' (Inr ())
        else if e \<in> set data_extensions then Inr ()
        else Inl (Errf ''unsupported data artifact extension %s'' [e]))
       (Submission_AllowedExtensions c))))"

section \<open>Names and contents\<close>

definition allowedFile :: "(int \<Rightarrow> int) \<Rightarrow> string \<Rightarrow> SubmissionContract \<Rightarrow> bool" where
  "allowedFile lower name c =
     ((\<exists>p\<in>set (Submission_AllowedPaths c).
         p = ''*'' \<or> p = name \<or> suffix ''/'' p \<and> prefix p name) \<and>
      to_lower lower (path_ext name) \<in> set (Submission_AllowedExtensions c))"

definition lfs_pointer :: string where
  "lfs_pointer = ''version https://git-lfs.github.com/spec/v1''"

definition rejectActive :: "(int \<Rightarrow> int) \<Rightarrow> string \<Rightarrow> unit res" where
  "rejectActive lower data = (let trimmed = trim_space data; low = to_lower lower (take 512 trimmed) in
     fail_if (prefix (CHR 0x7F # ''ELF'') data \<or> prefix ''MZ'' data \<or> prefix ''#!'' trimmed
       \<or> prefix ''<svg'' low \<or> prefix ''<!doctype html'' low \<or> prefix ''<html'' low
       \<or> prefix ''<script'' low \<or> prefix lfs_pointer data)
     ''active content or unresolved Git LFS pointer forbidden'' (Inr ()))"

definition check_content :: "(int \<Rightarrow> int) \<Rightarrow> SubmissionContract \<Rightarrow> string \<Rightarrow> unit res" where
  "check_content lower c data = (if Submission_Format c = ''source-v2''
     then fail_if (prefix lfs_pointer data) ''unresolved Git LFS pointer'' (Inr ())
     else rejectActive lower data)"

section \<open>The canonical tree\<close>

text \<open>One round of the loop of \<open>treeFor\<close> over the map of files.  The state holds the case-folded names
  seen, the total size and the names.\<close>

fun tree_step :: "(string \<Rightarrow> bool) \<Rightarrow> (string \<Rightarrow> string) \<Rightarrow> (int \<Rightarrow> int) \<Rightarrow> SubmissionContract \<Rightarrow>
    string set \<times> int \<times> string list \<Rightarrow> string \<times> string \<Rightarrow> (string set \<times> int \<times> string list) res" where
  "tree_step nfc cfold lower c (seen, tot, names) (name, data) =
     res_bind (ValidatePath nfc name) (\<lambda>_.
     fail_if (cfold name \<in> seen) ''case-colliding artifact paths''
     (if \<not> allowedFile lower name c then Inl (Errf ''file outside submission contract: %s'' [name])
      else fail_if (tot + len data > Submission_MaxBytes c) ''artifact exceeds expanded limit''
     (res_bind (check_content lower c data) (\<lambda>_.
      Inr (insert (cfold name) seen, tot + len data, names @ [name])))))"

definition file_at :: "(string, string) gomap \<Rightarrow> string \<Rightarrow> string" where
  "file_at files name = (case map_of files name of None \<Rightarrow> [] | Some d \<Rightarrow> d)"

definition tree_entry :: "(string \<Rightarrow> string) \<Rightarrow> string \<Rightarrow> string \<Rightarrow> ArtifactEntry" where
  "tree_entry sha name data = \<lparr>Entry_Path = name, Entry_Type = ''file'', Entry_Mode = ''0644'',
     Entry_Size = len data, Entry_Digest = DigestBytes sha data\<rparr>"

definition treeFor :: "(string \<Rightarrow> bool) \<Rightarrow> (string \<Rightarrow> string) \<Rightarrow> (int \<Rightarrow> int) \<Rightarrow> (string \<Rightarrow> string) \<Rightarrow>
    (ArtifactTree \<Rightarrow> string res) \<Rightarrow> (string, string) gomap \<Rightarrow> SubmissionContract \<Rightarrow>
    (ArtifactTree \<times> string) res" where
  "treeFor nfc cfold lower sha canon files c =
     res_bind (ValidateSubmissionContract nfc c) (\<lambda>_.
     fail_if (files = [] \<or> len files > Submission_MaxFiles c) ''artifact file count outside bounds''
     (res_bind (res_fold (tree_step nfc cfold lower c) ({}, 0, []) files) (\<lambda>(_, _, names).
      let tree = \<lparr>Tree_Kind = ''ScienceLadderArtifactTree'', Tree_Version = 1,
            Tree_Entries = map (\<lambda>n. tree_entry sha n (file_at files n)) (sort names)\<rparr>
      in res_bind (canon tree) (\<lambda>canonical.
         Inr (tree, DigestBytes sha (''science-ladder-artifact-v1'' @ CHR 0x00 # canonical))))))"

definition ArtifactFromFiles where
  "ArtifactFromFiles = treeFor"

section \<open>Archives\<close>

text \<open>What one call of \<open>tar.Reader.Next\<close> returns, the bytes that reading the member yields, and the
  number of input bytes consumed once it has been read.\<close>

record TarHeader =
  Tar_Name :: string
  Tar_Typeflag :: char
  Tar_Mode :: int
  Tar_Size :: int
  Tar_PAXRecords :: "(string, string) gomap"
  Tar_Xattrs :: "(string, string) gomap"
  Tar_Data :: "string res"
  Tar_Counted :: int

record ArchiveStream =
  Stream_Compressed :: bool
  Stream_GzipError :: "go_error option"
  Stream_Headers :: "TarHeader list"
  Stream_NextError :: "go_error option"
  Stream_Padding :: string
  Stream_PaddingError :: "go_error option"
  Stream_DecodedLeft :: int
  Stream_Counted :: int

definition archiveBudget :: "SubmissionContract \<Rightarrow> int" where
  "archiveBudget c = Submission_MaxBytes c + Submission_MaxFiles c * 4096 + 1024"

text \<open>\<open>io.ReadAll(io.LimitReader(t, header.Size+1))\<close>: at most one byte more than declared is read.\<close>

definition read_member :: "TarHeader \<Rightarrow> string res" where
  "read_member h = or_else (res_bind (Tar_Data h) (\<lambda>d.
       let data = take (nat (Tar_Size h + 1)) d in
       fail_if (len data \<noteq> Tar_Size h) ''truncated archive member'' (Inr data)))
     (Err ''truncated archive member'')"

type_synonym archive_state = "string set \<times> int \<times> (string, string) gomap"

fun archive_step :: "(string \<Rightarrow> bool) \<Rightarrow> (string \<Rightarrow> string) \<Rightarrow> (int \<Rightarrow> int) \<Rightarrow> SubmissionContract \<Rightarrow> bool \<Rightarrow>
    archive_state \<Rightarrow> TarHeader \<Rightarrow> archive_state res" where
  "archive_step nfc cfold lower c compressed (seen, tot, files) h =
     (let name = trim_suffix (Tar_Name h) ''/''; seen' = insert (cfold name) seen in
      res_bind (ValidatePath nfc name) (\<lambda>_.
      fail_if (cfold name \<in> seen) ''duplicate or case-colliding archive path''
      (fail_if (int (card seen') > Submission_MaxFiles c * 4) ''archive entry limit exceeded''
      (if Tar_Typeflag h = CHR ''5'' then Inr (seen', tot, files)
       else fail_if (Tar_Typeflag h \<noteq> CHR ''0'' \<and> Tar_Typeflag h \<noteq> CHR 0x00)
           ''archive links/special files forbidden''
       (fail_if (Tar_Mode h AND 73 \<noteq> 0 \<or> Tar_Size h < 0 \<or> Tar_Size h > Submission_MaxBytes c - tot
           \<or> len files \<ge> Submission_MaxFiles c) ''archive mode/size limit exceeded''
       (fail_if (Tar_PAXRecords h \<noteq> [] \<or> Tar_Xattrs h \<noteq> []) ''archive extended metadata forbidden''
       (fail_if (\<not> allowedFile lower name c) ''archive file outside contract''
       (res_bind (read_member h) (\<lambda>data.
        fail_if (compressed \<and> tot + len data > 1048576 \<and> tot + len data > Tar_Counted h * 100)
          ''archive decompression ratio exceeds 100''
        (Inr (seen', tot + len data, files @ [(name, data)])))))))))))"

definition err_of :: "go_error option \<Rightarrow> unit res" where
  "err_of e = (case e of None \<Rightarrow> Inr () | Some x \<Rightarrow> Inl x)"

definition ReadArtifactArchive :: "(string \<Rightarrow> bool) \<Rightarrow> (string \<Rightarrow> string) \<Rightarrow> (int \<Rightarrow> int) \<Rightarrow> (string \<Rightarrow> string) \<Rightarrow>
    (ArtifactTree \<Rightarrow> string res) \<Rightarrow> ArchiveStream \<Rightarrow> SubmissionContract \<Rightarrow>
    ((string, string) gomap \<times> ArtifactTree \<times> string) res" where
  "ReadArtifactArchive nfc cfold lower sha canon st c =
     res_bind (ValidateSubmissionContract nfc c) (\<lambda>_.
     res_bind (if Stream_Compressed st then err_of (Stream_GzipError st) else Inr ()) (\<lambda>_.
     res_bind (res_fold (archive_step nfc cfold lower c (Stream_Compressed st)) ({}, 0, [])
        (Stream_Headers st)) (\<lambda>(_, _, files).
     res_bind (err_of (Stream_NextError st)) (\<lambda>_.
     fail_if (\<exists>b\<in>set (Stream_Padding st). b \<noteq> CHR 0x00) ''nonzero data after tar end marker''
     (res_bind (err_of (Stream_PaddingError st)) (\<lambda>_.
     fail_if (Stream_DecodedLeft st = 0 \<or> Stream_Counted st > archiveBudget c)
       ''compressed archive exceeds limit''
     (res_bind (treeFor nfc cfold lower sha canon files c) (\<lambda>(tree, digest).
      Inr (files, tree, digest)))))))))"

section \<open>Lemmas\<close>

lemma check_content_no_panic [panic_intros]: "no_panic (check_content lower c d)"
  by (auto simp: check_content_def rejectActive_def Let_def intro!: panic_intros)

lemma ValidateSubmissionContract_no_panic [panic_intros]:
  "no_panic (ValidateSubmissionContract nfc c)"
  by (auto simp: ValidateSubmissionContract_def intro!: panic_intros)

definition file_ok :: "(string \<Rightarrow> bool) \<Rightarrow> (int \<Rightarrow> int) \<Rightarrow> SubmissionContract \<Rightarrow> string \<times> string \<Rightarrow> bool" where
  "file_ok nfc lower c f = (ValidatePath nfc (fst f) = Inr () \<and> allowedFile lower (fst f) c \<and>
     check_content lower c (snd f) = Inr ())"

definition total_bytes :: "(string, string) gomap \<Rightarrow> int" where
  "total_bytes files = (\<Sum>f\<leftarrow>files. len (snd f))"

lemma total_bytes_simps [simp]:
  "total_bytes [] = 0" "total_bytes (f # fs) = len (snd f) + total_bytes fs"
  "total_bytes (fs @ gs) = total_bytes fs + total_bytes gs"
  by (simp_all add: total_bytes_def)

lemma total_bytes_nonneg: "0 \<le> total_bytes fs"
  by (induction fs) simp_all

text \<open>The loop of \<open>treeFor\<close>, characterised without its order.\<close>

lemma tree_fold_iff:
  "res_fold (tree_step nfc cfold lower c) (seen, tot, names) files = Inr (seen', tot', names') \<longleftrightarrow>
     (\<forall>f\<in>set files. file_ok nfc lower c f) \<and> distinct (map (\<lambda>f. cfold (fst f)) files) \<and>
     (\<lambda>f. cfold (fst f)) ` set files \<inter> seen = {} \<and>
     (files \<noteq> [] \<longrightarrow> tot + total_bytes files \<le> Submission_MaxBytes c) \<and>
     seen' = seen \<union> (\<lambda>f. cfold (fst f)) ` set files \<and> tot' = tot + total_bytes files \<and>
     names' = names @ map fst files"
proof (induction files arbitrary: seen tot names)
  case Nil
  then show ?case by auto
next
  case (Cons f files)
  obtain n d where f: "f = (n, d)" by fastforce
  have step: "res_fold (tree_step nfc cfold lower c) (seen, tot, names) (f # files) = Inr (seen', tot', names') \<longleftrightarrow>
    file_ok nfc lower c f \<and> cfold n \<notin> seen \<and> tot + len d \<le> Submission_MaxBytes c \<and>
    res_fold (tree_step nfc cfold lower c) (insert (cfold n) seen, tot + len d, names @ [n]) files
      = Inr (seen', tot', names')"
    by (auto simp: f file_ok_def res_simps not_less split: if_splits)
  have sums: "total_bytes files \<ge> 0" by (rule total_bytes_nonneg)
  show ?case
    unfolding step Cons.IH using sums by (auto simp: f algebra_simps)
qed

lemma treeFor_Inr_iff:
  "treeFor nfc cfold lower sha canon files c = Inr (tree, digest) \<longleftrightarrow>
     ValidateSubmissionContract nfc c = Inr () \<and> files \<noteq> [] \<and> len files \<le> Submission_MaxFiles c \<and>
     (\<forall>f\<in>set files. file_ok nfc lower c f) \<and> distinct (map (\<lambda>f. cfold (fst f)) files) \<and>
     total_bytes files \<le> Submission_MaxBytes c \<and>
     tree = \<lparr>Tree_Kind = ''ScienceLadderArtifactTree'', Tree_Version = 1,
       Tree_Entries = map (\<lambda>n. tree_entry sha n (file_at files n)) (sort (map fst files))\<rparr> \<and>
     (\<exists>canonical. canon tree = Inr canonical \<and>
        digest = DigestBytes sha (''science-ladder-artifact-v1'' @ CHR 0x00 # canonical))"
  by (auto simp: treeFor_def res_simps tree_fold_iff Let_def not_less split: prod.splits)

lemma distinct_cfold_keys: "distinct (map (\<lambda>f. cfold (fst f)) files) \<Longrightarrow> gomap_ok files"
  using distinct_map [of cfold "map fst files"] by (simp add: gomap_ok_def comp_def)

lemma file_at_permuted:
  assumes "gomap_ok files" "mset files' = mset files"
  shows "file_at files' n = file_at files n"
proof -
  have "mset (map fst files') = mset (map fst files)" by (simp add: assms(2))
  then have "distinct (map fst files')"
    using assms(1) mset_eq_imp_distinct_iff unfolding gomap_ok_def by blast
  then have "map_of files' = map_of files"
    using assms(1) map_of_inject_set [of files' files] mset_eq_setD [OF assms(2)]
    by (simp add: gomap_ok_def)
  then show ?thesis by (simp add: file_at_def)
qed

lemma sort_permuted: "mset xs = mset ys \<Longrightarrow> sort xs = sort (ys :: string list)"
  by (metis mset_sort properties_for_sort sorted_sort)

lemma archive_fold_inv:
  assumes "res_fold (archive_step nfc cfold lower c z) ({}, 0, []) hs = Inr (seen, tot, files)"
    and "1 \<le> Submission_MaxBytes c" "1 \<le> Submission_MaxFiles c"
  shows "tot = total_bytes files \<and> tot \<le> Submission_MaxBytes c \<and> len files \<le> Submission_MaxFiles c \<and>
    (\<forall>f\<in>set files. ValidatePath nfc (fst f) = Inr () \<and> allowedFile lower (fst f) c)"
proof -
  define P where "P = (\<lambda>(seen :: string set, tot, files). tot = total_bytes files \<and>
    tot \<le> Submission_MaxBytes c \<and> len files \<le> Submission_MaxFiles c \<and>
    (\<forall>f\<in>set files. ValidatePath nfc (fst f) = Inr () \<and> allowedFile lower (fst f) c))"
  have "P (seen, tot, files)"
  proof (rule res_fold_inv [OF assms(1)])
    show "P ({}, 0, [])" using assms(2,3) by (simp add: P_def)
  next
    fix s h t assume "P s" "archive_step nfc cfold lower c z s h = Inr t"
    then show "P t"
      by (cases s) (auto simp: P_def Let_def res_simps read_member_def not_less split: if_splits)
  qed
  then show ?thesis by (simp add: P_def)
qed

section \<open>Properties\<close>

text \<open>The tree and the digest of an artifact do not depend on the order in which Go happens to
  iterate over the map of files.\<close>

theorem treeFor_order_independent:
  assumes "mset files' = mset files"
    and "treeFor nfc cfold lower sha canon files c = Inr r"
  shows "treeFor nfc cfold lower sha canon files' c = Inr r"
proof -
  obtain tree digest where r: "r = (tree, digest)" by fastforce
  note ok = assms(2) [unfolded r treeFor_Inr_iff]
  have "gomap_ok files" using ok distinct_cfold_keys by blast
  then have at: "file_at files' = file_at files" using file_at_permuted [OF _ assms(1)] by blast
  have names: "sort (map fst files') = sort (map fst files)"
    by (rule sort_permuted) (simp add: assms(1))
  have "mset (map (\<lambda>f. cfold (fst f)) files') = mset (map (\<lambda>f. cfold (fst f)) files)"
    by (simp add: assms(1))
  then have "distinct (map (\<lambda>f. cfold (fst f)) files')" using ok mset_eq_imp_distinct_iff by blast
  moreover have "total_bytes files' = total_bytes files"
    using assms(1) by (simp add: total_bytes_def flip: sum_mset_sum_list)
  moreover have "set files' = set files" "length files' = length files"
    using assms(1) by (auto dest: mset_eq_setD mset_eq_length)
  ultimately show ?thesis using ok unfolding r treeFor_Inr_iff by (auto simp: at names len_def)
qed

definition demo_contract :: SubmissionContract where
  "demo_contract = \<lparr>Submission_Format = [], Submission_AllowedPaths = [''data/''],
     Submission_AllowedExtensions = [''.csv''], Submission_MaxBytes = 10, Submission_MaxFiles = 3,
     Submission_License = ''MIT''\<rparr>"

lemma demo_tree:
  "treeFor (\<lambda>_. True) id id (\<lambda>x. x) (\<lambda>_. Inr ''t'') [(''data/b.csv'', ''1''), (''data/a.csv'', ''22'')] demo_contract
   = Inr (\<lparr>Tree_Kind = ''ScienceLadderArtifactTree'', Tree_Version = 1, Tree_Entries =
       [\<lparr>Entry_Path = ''data/a.csv'', Entry_Type = ''file'', Entry_Mode = ''0644'', Entry_Size = 2,
          Entry_Digest = ''sha256:3232''\<rparr>,
        \<lparr>Entry_Path = ''data/b.csv'', Entry_Type = ''file'', Entry_Mode = ''0644'', Entry_Size = 1,
          Entry_Digest = ''sha256:31''\<rparr>]\<rparr>,
      ''sha256:736369656e63652d6c61646465722d61727469666163742d76310074'')"
  by code_simp

theorem treeFor_order_independent_witness:
  "is_ok (treeFor (\<lambda>_. True) id id (\<lambda>x. x) (\<lambda>_. Inr ''t'') [(''data/a.csv'', ''22''), (''data/b.csv'', ''1'')]
     demo_contract)"
proof -
  have "treeFor (\<lambda>_. True) id id (\<lambda>x. x) (\<lambda>_. Inr ''t'') [(''data/a.csv'', ''22''), (''data/b.csv'', ''1'')]
     demo_contract = treeFor (\<lambda>_. True) id id (\<lambda>x. x) (\<lambda>_. Inr ''t'')
       [(''data/b.csv'', ''1''), (''data/a.csv'', ''22'')] demo_contract"
    unfolding demo_tree by (rule treeFor_order_independent [OF _ demo_tree]) simp
  then show ?thesis by (simp add: demo_tree)
qed

text \<open>C27: whatever the archive claims about itself, the files read from it are bounded by the
  contract in number and total size and all have safe, allowed names.\<close>

theorem ReadArtifactArchive_bounded:
  assumes "ReadArtifactArchive nfc cfold lower sha canon st c = Inr (files, tree, digest)"
  shows "total_bytes files \<le> Submission_MaxBytes c \<and> total_bytes files \<le> 67108864 \<and>
    len files \<le> Submission_MaxFiles c \<and> gomap_ok files \<and>
    (\<forall>f\<in>set files. safe_path (fst f) \<and> allowedFile lower (fst f) c)"
proof -
  from assms obtain seen tot where
    v: "ValidateSubmissionContract nfc c = Inr ()"
    and f: "res_fold (archive_step nfc cfold lower c (Stream_Compressed st)) ({}, 0, []) (Stream_Headers st)
        = Inr (seen, tot, files)"
    and t: "treeFor nfc cfold lower sha canon files c = Inr (tree, digest)"
    by (auto simp: ReadArtifactArchive_def res_simps split: prod.splits)
  have lim: "1 \<le> Submission_MaxBytes c" "1 \<le> Submission_MaxFiles c" "Submission_MaxBytes c \<le> 67108864"
    using v by (auto simp: ValidateSubmissionContract_def res_simps)
  note inv = archive_fold_inv [OF f lim(1,2)]
  have "gomap_ok files" using t unfolding treeFor_Inr_iff by (auto intro: distinct_cfold_keys)
  then show ?thesis using inv lim accepted_path_safe by auto
qed

definition demo_stream :: ArchiveStream where
  "demo_stream = \<lparr>Stream_Compressed = False, Stream_GzipError = None, Stream_Headers =
     [\<lparr>Tar_Name = ''data/'', Tar_Typeflag = CHR ''5'', Tar_Mode = 493, Tar_Size = 0, Tar_PAXRecords = [],
        Tar_Xattrs = [], Tar_Data = Inr [], Tar_Counted = 512\<rparr>,
      \<lparr>Tar_Name = ''data/a.csv'', Tar_Typeflag = CHR ''0'', Tar_Mode = 420, Tar_Size = 2, Tar_PAXRecords = [],
        Tar_Xattrs = [], Tar_Data = Inr ''22'', Tar_Counted = 1536\<rparr>],
     Stream_NextError = None, Stream_Padding = [CHR 0x00], Stream_PaddingError = None,
     Stream_DecodedLeft = 100, Stream_Counted = 3072\<rparr>"

theorem ReadArtifactArchive_bounded_witness:
  "\<exists>files. total_bytes files \<le> Submission_MaxBytes demo_contract \<and> len files = 1"
proof -
  let ?r = "ReadArtifactArchive (\<lambda>_. True) id id (\<lambda>x. x) (\<lambda>_. Inr ''t'') demo_stream demo_contract"
  have "case ?r of Inl _ \<Rightarrow> False | Inr (fs, _, _) \<Rightarrow> fs = [(''data/a.csv'', ''22'')]" by code_simp
  then obtain tree digest where "?r = Inr ([(''data/a.csv'', ''22'')], tree, digest)"
    by (auto split: sum.splits)
  from ReadArtifactArchive_bounded [OF this] show ?thesis by (intro exI [of _ "[(''data/a.csv'', ''22'')]"]) simp
qed

end
