(* ===== verification/Manifest.thy ===== *)
theory Manifest
  imports Evaluation Artifacts
begin

text \<open>
  Manifests and candidates (\<open>pkg/protocol/validate.go\<close>), verification policies (\<open>assurance.go\<close>) and
  authorization leases (\<open>lease.go\<close>).  \<open>ValidateManifest\<close> is one long Go function; here it is the
  composition of one definition per stage, in the order of the source.

  \<open>net/url.Parse\<close> is the argument \<open>parse_url\<close>: it gives the scheme, the host and whether user
  information is present, or \<open>None\<close> on an error.
\<close>

type_synonym url_parser = "string \<Rightarrow> (string \<times> string \<times> bool) option"

section \<open>Policies\<close>

definition VerificationPlatform :: string where
  "VerificationPlatform = ''platform''"

definition VerificationIndependent :: string where
  "VerificationIndependent = ''independent''"

definition StatusPlatformVerified :: string where
  "StatusPlatformVerified = ''platform_verified''"

definition StatusIndependentlyReplicated :: string where
  "StatusIndependentlyReplicated = ''independently_replicated''"

definition ValidVerificationPolicy :: "string \<Rightarrow> bool" where
  "ValidVerificationPolicy policy = (policy = VerificationPlatform \<or> policy = VerificationIndependent)"

definition ManifestVerificationPolicy :: "Manifest \<Rightarrow> string" where
  "ManifestVerificationPolicy m =
     (if Manifest_VerificationPolicy m = [] then VerificationPlatform else Manifest_VerificationPolicy m)"

definition LockVerificationPolicy :: "Lock \<Rightarrow> string" where
  "LockVerificationPolicy lock =
     (if Lock_VerificationPolicy lock = [] then VerificationIndependent else Lock_VerificationPolicy lock)"

definition JobVerificationPolicy :: "RunnerJob \<Rightarrow> string" where
  "JobVerificationPolicy job =
     (if Job_VerificationPolicy job = [] then VerificationIndependent else Job_VerificationPolicy job)"

section \<open>Sources and education\<close>

definition check_source :: "url_parser \<Rightarrow> Source \<Rightarrow> unit res" where
  "check_source parse_url source =
     (case parse_url (Source_URL source) of
        None \<Rightarrow> Inl (Err ''source requires an HTTPS URL'')
      | Some (scheme, host, user) \<Rightarrow>
        fail_if (scheme \<noteq> ''https'' \<or> host = [] \<or> user) ''source requires an HTTPS URL''
        (fail_if (trim_space (Source_Title source) = [] \<or> trim_space (Source_Evidence source) = []
            \<or> trim_space (Source_Location source) = [])
          ''source title, evidence and exact location required'' (Inr ())))"

definition validateSources :: "url_parser \<Rightarrow> Source list \<Rightarrow> unit res" where
  "validateSources parse_url sources =
     fail_if (len sources = 0 \<or> len sources > 30) ''one to thirty evidence sources required''
     (res_each (check_source parse_url) sources)"

definition ValidateEducation :: "Education option \<Rightarrow> unit res" where
  "ValidateEducation education =
     (case education of
        None \<Rightarrow> Inl (Err ''education.frontier and education.significance are required: explain the research frontier and why metric progress matters'')
      | Some e \<Rightarrow>
        fail_if (trim_space (Education_Frontier e) = [] \<or> trim_space (Education_Significance e) = [])
          ''education.frontier and education.significance are required: explain the research frontier and why metric progress matters''
        (fail_if (len (Education_Frontier e) > 12000 \<or> len (Education_Significance e) > 12000)
          ''each education section must be at most 12,000 bytes'' (Inr ())))"

section \<open>The stages of manifest validation\<close>

definition validate_extension :: "(string \<Rightarrow> bool) \<Rightarrow> Manifest \<Rightarrow> unit res" where
  "validate_extension nfc m =
     (if Manifest_APIVersion m = APIVersion then
        fail_if (Submission_Format (Manifest_Submission m) \<noteq> [])
          ''versioned source submissions require a v2 manifest''
        (fail_if (Manifest_Evaluation m \<noteq> None) ''evaluation extensions require an explicit v2 manifest''
        (res_each (\<lambda>milestone. fail_if (len (Milestone_Requires milestone) \<noteq> 0)
            ''achievement predicates require an explicit v2 manifest'' (Inr ())) (Manifest_Milestones m)))
      else case Manifest_Evaluation m of
        None \<Rightarrow> Inl (Err ''v2 requires a frozen evaluation contract and scientific metric rationale'')
      | Some e \<Rightarrow>
        res_bind (ValidateEvaluation nfc e (Manifest_Metric m) (Manifest_Evidence m) (Manifest_Resources m)) (\<lambda>_.
        res_each (\<lambda>milestone. ValidatePredicates (Milestone_Requires milestone) e) (Manifest_Milestones m)))"

definition validate_metric :: "Metric \<Rightarrow> (int \<times> int) res" where
  "validate_metric m =
     fail_if (Metric_Name m = [] \<or> Metric_Unit m = []) ''metric name and unit required''
     (res_bind (or_else (decimal (Metric_Quantum m)) (Err ''invalid quantum'')) (\<lambda>q.
      fail_if (q \<le> 0) ''invalid quantum''
     (fail_if (Metric_Direction m \<noteq> ''maximize'' \<and> Metric_Direction m \<noteq> ''minimize'')
       ''metric direction must be maximize or minimize''
     (res_bind (wrap_err ''baseline'' (ParseTicks (Metric_BaselineTicks m))) (\<lambda>baseline.
      res_bind (or_else (ParseTicks (Metric_MinimumDeltaTicks m))
          (Err ''minimum delta must be positive integer ticks'')) (\<lambda>minimum.
      fail_if (minimum \<le> 0) ''minimum delta must be positive integer ticks''
     (res_bind (or_else (ParseTicks (Metric_ToleranceTicks m)) (Err ''tolerance must be nonnegative ticks''))
        (\<lambda>tolerance.
      fail_if (tolerance < 0) ''tolerance must be nonnegative ticks''
     (res_bind (res_each (\<lambda>bound. if bound \<noteq> []
          then res_bind (or_else (ParseTicks bound) (Err ''invalid metric domain'')) (\<lambda>_. Inr ()) else Inr ())
          [Metric_DomainMinTicks m, Metric_DomainMaxTicks m]) (\<lambda>_.
      fail_if (Metric_DomainMinTicks m \<noteq> [] \<and> Metric_DomainMaxTicks m \<noteq> []
          \<and> (case CompareTicks (Metric_DomainMinTicks m) (Metric_DomainMaxTicks m) of Inl _ \<Rightarrow> 0 | Inr c \<Rightarrow> c) \<ge> 0)
        ''metric domain must increase''
      (Inr (baseline, minimum))))))))))))"

definition signed_delta :: "string \<Rightarrow> int \<Rightarrow> int" where
  "signed_delta direction d = (if direction = ''minimize'' then - d else d)"

definition milestone_step ::
    "string \<Rightarrow> int \<Rightarrow> int \<Rightarrow> string set \<times> int \<Rightarrow> Milestone \<Rightarrow> (string set \<times> int) res" where
  "milestone_step direction baseline minimum = (\<lambda>(ids, previous) milestone.
     fail_if (\<not> identifierPattern (Milestone_ID milestone) \<or> Milestone_ID milestone \<in> ids
         \<or> Milestone_Title milestone = [] \<or> Milestone_Rationale milestone = [])
       ''invalid or duplicate milestone''
     (res_bind (ParseTicks (Milestone_ThresholdTicks milestone)) (\<lambda>ticks.
      fail_if (signed_delta direction (ticks - previous) \<le> 0) ''milestone thresholds must strictly improve''
      (fail_if (signed_delta direction (ticks - baseline) < minimum) ''milestone below meaningful delta''
      (Inr (insert (Milestone_ID milestone) ids, ticks))))))"

definition gate_step :: "string set \<Rightarrow> string \<Rightarrow> string set res" where
  "gate_step gates gate =
     fail_if (\<not> identifierPattern gate \<or> gate \<in> gates) ''invalid or duplicate hard gate'' (Inr (insert gate gates))"

definition validate_validator :: "(string \<Rightarrow> bool) \<Rightarrow> Manifest \<Rightarrow> unit res" where
  "validate_validator nfc m =
     (let v = Manifest_Validator m;
          native = (Manifest_APIVersion m = ManifestV2 \<and> Validator_Profile v = ''native-evaluator-v2'') in
      fail_if ((\<not> native \<and> Validator_Profile v \<noteq> ''artifact-checker-v1'') \<or> Validator_DependencyLock v = []
          \<or> \<not> ValidDigest (Validator_RuntimeImageDigest v))
        ''locked, supported runtime profile and dependency lock required''
      (fail_if (Submission_Format (Manifest_Submission m) = ''source-v2'' \<and> \<not> native)
        ''executable source requires the native evaluation profile''
      (res_bind (if native then res_bind (deref (Manifest_Evaluation m)) (\<lambda>e.
           fail_if ((Evaluation_Mode e = ''program'' \<or> Evaluation_Mode e = ''performance'')
               \<and> Submission_Format (Manifest_Submission m) \<noteq> ''source-v2'')
             ''submitted programs require source-v2 artifact semantics'' (Inr ()))
         else Inr ()) (\<lambda>_.
       fail_if (case Manifest_Evaluation m of None \<Rightarrow> False
           | Some e \<Rightarrow> Evaluation_Mode e \<noteq> ''artifact'' \<and> Validator_Profile v = ''artifact-checker-v1'')
         ''proof, program and performance evaluation require a separately enrolled native execution profile''
       (res_bind (or_else (ValidatePath nfc (Validator_DependencyLock v))
           (Err ''dependency lock must be a safe relative source path'')) (\<lambda>_.
        let entry = Validator_Entrypoint v in
        fail_if (len entry < 2 \<or> len entry > 16) ''validator entrypoint must be a direct Python argv''
        (res_bind (index entry 0) (\<lambda>interpreter.
         fail_if (interpreter \<noteq> ''/usr/local/bin/python3'') ''validator entrypoint must be a direct Python argv''
         (res_bind (index entry 1) (\<lambda>script.
          fail_if (\<not> prefix ''/sl/challenge/'' script \<or> path_clean script \<noteq> script \<or> \<not> suffix ''.py'' script)
            ''validator entrypoint must name a locked Python checker''
          (res_each (\<lambda>arg. fail_if (len arg > 1024 \<or> CHR 0x00 \<in> set arg) ''invalid argv'' (Inr ())) entry)))))))))))"

definition validate_suite :: "(string \<Rightarrow> bool) \<Rightarrow> Suite \<Rightarrow> unit res" where
  "validate_suite nfc s =
     fail_if (Suite_Visibility s \<noteq> ''public'' \<and> Suite_Visibility s \<noteq> ''hidden'') ''suite visibility required''
     (res_bind (or_else (ValidatePath nfc (trim_suffix (Suite_Path s) ''/'')) (Err ''invalid suite path'')) (\<lambda>_.
      fail_if (Suite_Visibility s = ''hidden'' \<and> \<not> ValidDigest (Suite_Commitment s))
        ''hidden suite requires precommitment'' (Inr ())))"

text \<open>The schedule test multiplies and adds in 64 bits.\<close>

definition validate_resources :: "Manifest \<Rightarrow> unit res" where
  "validate_resources m =
     (let r = Manifest_Resources m; v2 = (Manifest_APIVersion m = ManifestV2);
          (maxCPU, maxMemory, maxSeconds) = (if v2 then (64, 524288, 7200) else (4, 8192, 600)) in
      fail_if (Resources_Class r \<noteq> ''cpu-small'' \<and> Resources_Class r \<noteq> ''cpu-medium''
          \<and> \<not> (v2 \<and> (Resources_Class r = ''cpu-large'' \<or> Resources_Class r = ''accelerator'')))
        ''unsupported resource class''
      (fail_if (Resources_VCPU r < 1 \<or> Resources_VCPU r > maxCPU \<or> Resources_MemoryMB r < 128
          \<or> Resources_MemoryMB r > maxMemory \<or> Resources_TimeoutSeconds r < 1
          \<or> Resources_TimeoutSeconds r > maxSeconds \<or> Resources_MaxOutputBytes r < 1024
          \<or> Resources_MaxOutputBytes r > 65536) ''resource class bounds exceeded''
      (fail_if (len (Manifest_Fixtures m) < 4 \<or> len (Manifest_Fixtures m) > 100)
        ''at least baseline, valid, invalid and malformed fixtures required''
      (fail_if (v2 \<and> int64 (int64 (2 * len (Manifest_Fixtures m)) * int64 (Resources_TimeoutSeconds r + 60) + 600)
          > 18 * 3600)
        ''declared preflight schedule exceeds the 18-hour authorization envelope'' (Inr ())))))"

definition measured_manifest :: "Manifest \<Rightarrow> bool" where
  "measured_manifest m = (case Manifest_Evaluation m of None \<Rightarrow> False | Some e \<Rightarrow> Evaluation_Mode e = ''performance'')"

definition fixture_step :: "(string \<Rightarrow> bool) \<Rightarrow> Manifest \<Rightarrow> string set \<Rightarrow> Fixture \<Rightarrow> string set res" where
  "fixture_step nfc m names f =
     fail_if (\<not> identifierPattern (Fixture_Name f) \<or> Fixture_Name f \<in> names) ''invalid or duplicate fixture''
     (res_bind (ValidatePath nfc (Fixture_Path f)) (\<lambda>_.
      fail_if (Fixture_ExpectedOutcome f \<notin> {''valid'', ''hard_gate_failed'', ''invalid_output'', ''resource_limit''})
        ''unsupported fixture outcome''
     (fail_if (measured_manifest m \<and> Fixture_ExpectedTicks f \<noteq> [])
        ''measured fixtures use timing evidence, not predeclared exact ticks''
     (res_bind (if Fixture_ExpectedTicks f \<noteq> [] then ParseTicks (Fixture_ExpectedTicks f) else Inr 0) (\<lambda>_.
      fail_if (Fixture_Name f = ''baseline'' \<and> (Fixture_ExpectedOutcome f \<noteq> ''valid''
          \<or> \<not> measured_manifest m \<and> Fixture_ExpectedTicks f \<noteq> Metric_BaselineTicks (Manifest_Metric m)))
        ''baseline fixture must declare the valid baseline ticks''
     (fail_if (Fixture_Name f = ''valid'' \<and> Fixture_ExpectedOutcome f \<noteq> ''valid'') ''valid fixture must pass''
     (fail_if (Fixture_Name f = ''invalid'' \<and> Fixture_ExpectedOutcome f \<noteq> ''hard_gate_failed''
          \<and> Fixture_ExpectedOutcome f \<noteq> ''invalid_output'')
        ''invalid fixture must fail a hard gate or parsing''
     (fail_if (Fixture_Name f = ''malformed'' \<and> Fixture_ExpectedOutcome f \<noteq> ''invalid_output'')
        ''malformed fixture must fail parsing''
     (Inr (insert (Fixture_Name f) names))))))))))"

section \<open>Manifests and candidates\<close>

definition ValidateManifest :: "(string \<Rightarrow> bool) \<Rightarrow> url_parser \<Rightarrow> Manifest \<Rightarrow> unit res" where
  "ValidateManifest nfc parse_url m =
     fail_if (\<not> ValidVerificationPolicy (ManifestVerificationPolicy m))
       ''verification policy must be platform or independent''
     (fail_if ((Manifest_APIVersion m \<noteq> APIVersion \<and> Manifest_APIVersion m \<noteq> ManifestV2)
         \<or> Manifest_Kind m \<noteq> ''ChallengeManifest'' \<or> \<not> identifierPattern (Manifest_ID m)
         \<or> Manifest_Producer m = [] \<or> Manifest_CreatedAt m = 0) ''invalid manifest identity/version''
     (res_bind (validate_extension nfc m) (\<lambda>_.
      fail_if (len (Manifest_Slug m) > 100 \<or> \<not> slugPattern (Manifest_Slug m) \<or> len (Manifest_Title m) < 5
         \<or> len (Manifest_Title m) > 160 \<or> Manifest_Summary m = [] \<or> Manifest_ScientificQuestion m = []
         \<or> Manifest_Impact m = []) ''scientific question, impact, title, summary and slug required''
     (res_bind (validateSources parse_url (Manifest_Evidence m)) (\<lambda>_.
      fail_if (len (Manifest_Limitations m) = 0) ''explicit scientific limitations required''
     (fail_if (Manifest_EconomicMode m \<noteq> ''none'') ''only economicMode none is supported''
     (fail_if (Manifest_SafetyClassification m \<noteq> ''low-risk-computational''
         \<and> Manifest_SafetyClassification m \<noteq> ''review-required'') ''unsupported safety classification''
     (fail_if (\<not> Manifest_Deadline m > Manifest_CreatedAt m) ''deadline must follow creation''
     (res_bind (validate_metric (Manifest_Metric m)) (\<lambda>(baseline, minimum).
      fail_if (len (Manifest_Milestones m) = 0 \<or> len (Manifest_Milestones m) > 50)
        ''one to fifty milestones required''
     (res_bind (res_fold (milestone_step (Metric_Direction (Manifest_Metric m)) baseline minimum)
         ({}, baseline) (Manifest_Milestones m)) (\<lambda>_.
      fail_if (len (Manifest_HardGates m) = 0 \<or> len (Manifest_HardGates m) > 32)
        ''one to thirty-two hard gates required''
     (res_bind (res_fold gate_step {} (Manifest_HardGates m)) (\<lambda>_.
      res_bind (ValidateSubmissionContract nfc (Manifest_Submission m)) (\<lambda>_.
      res_bind (validate_validator nfc m) (\<lambda>_.
      res_bind (validate_suite nfc (Manifest_Suite m)) (\<lambda>_.
      res_bind (validate_resources m) (\<lambda>_.
      res_bind (res_fold (fixture_step nfc m) {} (Manifest_Fixtures m)) (\<lambda>names.
      res_each (\<lambda>required. if required \<in> names then Inr ()
          else Inl (Errf ''required fixture %s missing'' [required]))
        [''baseline'', ''valid'', ''invalid'', ''malformed''])))))))))))))))))))"

definition prompt_versions :: "string list" where
  "prompt_versions = [ScoutVersion, ''1.8.0'', ''1.7.0'', ''1.6.0'', ''1.5.0'', ''1.4.0'', ''1.3.0'', ''1.2.0'',
     ''1.1.0'', ''1.0.0'']"

definition ValidateCandidate :: "(string \<Rightarrow> bool) \<Rightarrow> url_parser \<Rightarrow> Candidate \<Rightarrow> unit res" where
  "ValidateCandidate nfc parse_url c =
     fail_if (Candidate_APIVersion c \<noteq> APIVersion \<or> Candidate_Kind c \<noteq> ''ChallengeCandidate''
         \<or> \<not> identifierPattern (Candidate_ID c) \<or> Candidate_Producer c = [] \<or> Candidate_CreatedAt c = 0
         \<or> Candidate_PromptVersion c \<notin> set prompt_versions) ''invalid candidate identity/version''
     (fail_if (Candidate_Disposition c \<noteq> ''viable'' \<and> Candidate_Disposition c \<noteq> ''needs_work''
         \<and> Candidate_Disposition c \<noteq> ''rejected'') ''invalid candidate disposition''
     (res_bind (if len (Candidate_Sources c) > 0 \<or> Candidate_Disposition c = ''viable''
          then validateSources parse_url (Candidate_Sources c) else Inr ()) (\<lambda>_.
      fail_if (Candidate_Disposition c = ''viable'' \<and> Candidate_Manifest c = None)
        ''viable candidate requires manifest''
     (fail_if (Candidate_Disposition c = ''rejected'' \<and> len (Candidate_Uncertainties c) = 0)
        ''rejected candidate requires explicit reasons''
     (res_bind (if Candidate_Education c \<noteq> None \<or> Candidate_PromptVersion c \<in> set (take 7 prompt_versions)
            \<and> Candidate_Disposition c = ''viable''
          then ValidateEducation (Candidate_Education c) else Inr ()) (\<lambda>_.
      case Candidate_Manifest c of None \<Rightarrow> Inr () | Some m \<Rightarrow> ValidateManifest nfc parse_url m))))))"

section \<open>Leases\<close>

text \<open>Durations are \<open>int64\<close> nanoseconds; every operation wraps.\<close>

definition go_second :: int where
  "go_second = 1000000000"

definition MaximumJobLease :: int where
  "MaximumJobLease = 18 * 3600 * go_second"

definition JobLeaseDuration :: "Manifest \<Rightarrow> string \<Rightarrow> int" where
  "JobLeaseDuration m purpose =
     (if Manifest_APIVersion m \<noteq> ManifestV2 then 15 * 60 * go_second else
      let seconds = int64 (Resources_TimeoutSeconds (Manifest_Resources m) + 60);
          seconds = (if purpose = ''preflight'' then int64 (seconds * int64 (2 * len (Manifest_Fixtures m))) else seconds);
          seconds = (if purpose = ''artifact_prepare'' then 300 else seconds);
          duration = int64 (int64 (seconds + 600) * go_second);
          duration = (if duration < 15 * 60 * go_second then 15 * 60 * go_second else duration)
      in if duration > MaximumJobLease \<or> duration < 0 then MaximumJobLease else duration)"

definition MatchJobLease :: "Manifest \<Rightarrow> string \<Rightarrow> ExecutorCapabilities \<Rightarrow> bool" where
  "MatchJobLease m purpose c =
     (let limit = (if Capabilities_MaxJobSeconds c = 0 then 900 else Capabilities_MaxJobSeconds c)
      in JobLeaseDuration m purpose \<le> int64 (limit * go_second))"

section \<open>No stage panics\<close>

lemma check_source_no_panic [panic_intros]: "no_panic (check_source parse_url s)"
  unfolding check_source_def
  by (cases "parse_url (Source_URL s)") (auto split: prod.split intro!: panic_intros)

lemma validateSources_no_panic [panic_intros]: "no_panic (validateSources parse_url sources)"
  unfolding validateSources_def by (intro panic_intros)

lemma ValidateEducation_no_panic [panic_intros]: "no_panic (ValidateEducation e)"
  unfolding ValidateEducation_def by (cases e) (auto intro!: panic_intros)

lemma validate_extension_no_panic [panic_intros]: "no_panic (validate_extension nfc m)"
  unfolding validate_extension_def by (cases "Manifest_Evaluation m") (auto intro!: panic_intros)

lemma validate_metric_no_panic [panic_intros]: "no_panic (validate_metric m)"
  unfolding validate_metric_def by (intro panic_intros) simp_all

lemma milestone_step_no_panic [panic_intros]: "no_panic (milestone_step d b mn s ml)"
  by (cases s) (auto simp: milestone_step_def intro!: panic_intros)

lemma gate_step_no_panic [panic_intros]: "no_panic (gate_step gs g)"
  unfolding gate_step_def by (intro panic_intros) simp

lemma validate_extension_v2:
  "validate_extension nfc m = Inr () \<Longrightarrow> Manifest_APIVersion m = ManifestV2 \<Longrightarrow> Manifest_Evaluation m \<noteq> None"
  by (auto simp: validate_extension_def split: option.splits)

lemma validate_validator_no_panic [panic_intros]:
  assumes "Manifest_APIVersion m = ManifestV2 \<Longrightarrow> Manifest_Evaluation m \<noteq> None"
  shows "no_panic (validate_validator nfc m)"
  unfolding validate_validator_def Let_def
  using assms by (intro panic_intros) (auto simp: len_def)

lemma validate_suite_no_panic [panic_intros]: "no_panic (validate_suite nfc s)"
  unfolding validate_suite_def by (intro panic_intros) simp_all

lemma validate_resources_no_panic [panic_intros]: "no_panic (validate_resources m)"
  unfolding validate_resources_def Let_def by (auto intro!: panic_intros)

lemma fixture_step_no_panic [panic_intros]: "no_panic (fixture_step nfc m names f)"
  unfolding fixture_step_def by (intro panic_intros) simp_all

lemma accepted_manifest_no_panic [panic_intros]: "no_panic (ValidateManifest nfc parse_url m)"
  unfolding ValidateManifest_def
  by (intro panic_intros) (auto split: prod.split dest: validate_extension_v2 intro!: panic_intros)

section \<open>What an accepted manifest satisfies\<close>

lemma ValidateManifest_Inr:
  assumes "ValidateManifest nfc parse_url m = Inr ()"
  shows "Manifest_APIVersion m = APIVersion \<or> Manifest_APIVersion m = ManifestV2"
    "validate_extension nfc m = Inr ()"
    "\<exists>baseline minimum s. validate_metric (Manifest_Metric m) = Inr (baseline, minimum) \<and>
      res_fold (milestone_step (Metric_Direction (Manifest_Metric m)) baseline minimum)
        ({}, baseline) (Manifest_Milestones m) = Inr s"
    "validate_validator nfc m = Inr ()" "validate_resources m = Inr ()"
    "\<exists>names. res_fold (fixture_step nfc m) {} (Manifest_Fixtures m) = Inr names \<and>
      {''baseline'', ''valid'', ''invalid'', ''malformed''} \<subseteq> names"
    "\<exists>G. res_fold gate_step {} (Manifest_HardGates m) = Inr G"
  using assms by (auto simp: ValidateManifest_def res_simps split: if_splits)

lemma validate_metric_Inr:
  assumes "validate_metric m = Inr (baseline, minimum)"
  shows "ParseTicks (Metric_BaselineTicks m) = Inr baseline" "ParseTicks (Metric_MinimumDeltaTicks m) = Inr minimum"
    "0 < minimum" "Metric_Direction m = ''maximize'' \<or> Metric_Direction m = ''minimize''"
  using assms by (auto simp: validate_metric_def res_simps)

text \<open>Thresholds after the loop: strictly improving from the baseline on, each at least the minimum
  delta better than the baseline.\<close>

lemma milestone_fold:
  assumes "res_fold (milestone_step dir b mn) (ids, prev) ms = Inr s"
  shows "\<exists>ts. map (\<lambda>x. ParseTicks (Milestone_ThresholdTicks x)) ms = map Inr ts \<and>
    sorted_wrt (\<lambda>x y. 0 < signed_delta dir (y - x)) (prev # ts) \<and>
    (\<forall>t\<in>set ts. mn \<le> signed_delta dir (t - b)) \<and> distinct (map Milestone_ID ms) \<and>
    Milestone_ID ` set ms \<inter> ids = {}"
  using assms
proof (induction ms arbitrary: ids prev)
  case Nil
  then show ?case by simp
next
  case (Cons x ms)
  then obtain ids1 t where st: "milestone_step dir b mn (ids, prev) x = Inr (ids1, t)"
    "res_fold (milestone_step dir b mn) (ids1, t) ms = Inr s"
    by (auto simp: res_simps)
  then have f: "ParseTicks (Milestone_ThresholdTicks x) = Inr t" "Milestone_ID x \<notin> ids"
    "ids1 = insert (Milestone_ID x) ids" "0 < signed_delta dir (t - prev)" "mn \<le> signed_delta dir (t - b)"
    by (auto simp: milestone_step_def res_simps)
  obtain ts where ts: "map (\<lambda>x. ParseTicks (Milestone_ThresholdTicks x)) ms = map Inr ts"
    "sorted_wrt (\<lambda>x y. 0 < signed_delta dir (y - x)) (t # ts)"
    "\<forall>t\<in>set ts. mn \<le> signed_delta dir (t - b)" "distinct (map Milestone_ID ms)" "Milestone_ID ` set ms \<inter> ids1 = {}"
    using Cons.IH [OF st(2)] by blast
  have "0 < signed_delta dir (u - prev)" if "u \<in> set ts" for u
    using ts(2) f(4) that by (auto simp: signed_delta_def split: if_splits)
  then have "sorted_wrt (\<lambda>x y. 0 < signed_delta dir (y - x)) (prev # t # ts)" using ts(2) f(4) by simp
  with ts f show ?case by (intro exI [of _ "t # ts"]) auto
qed

lemma Qualifies_iff:
  assumes "dir = ''maximize'' \<or> dir = ''minimize''"
  shows "Qualifies score threshold dir = Inr True \<longleftrightarrow>
    (\<exists>s t. ParseTicks score = Inr s \<and> ParseTicks threshold = Inr t \<and> 0 \<le> signed_delta dir (s - t))"
proof (cases "\<exists>s t. ParseTicks score = Inr s \<and> ParseTicks threshold = Inr t")
  case True
  then obtain s t where p: "ParseTicks score = Inr s" "ParseTicks threshold = Inr t" by blast
  then have "CompareTicks score threshold = Inr (big_cmp s t)" by (simp add: CompareTicks_def)
  then show ?thesis using assms p by (auto simp: Qualifies_def signed_delta_def)
next
  case False
  then show ?thesis by (auto simp: Qualifies_def CompareTicks_def res_simps)
qed

lemma accepted_milestones:
  assumes "ValidateManifest nfc parse_url m = Inr ()"
  obtains b mn ts where "ParseTicks (Metric_BaselineTicks (Manifest_Metric m)) = Inr b"
    "ParseTicks (Metric_MinimumDeltaTicks (Manifest_Metric m)) = Inr mn" "0 < mn"
    "length ts = length (Manifest_Milestones m)"
    "\<And>i. i < length ts \<Longrightarrow> ParseTicks (Milestone_ThresholdTicks (Manifest_Milestones m ! i)) = Inr (ts ! i)"
    "\<And>i j. i < j \<Longrightarrow> j < length ts \<Longrightarrow> 0 < signed_delta (Metric_Direction (Manifest_Metric m)) (ts ! j - ts ! i)"
    "\<And>i. i < length ts \<Longrightarrow> mn \<le> signed_delta (Metric_Direction (Manifest_Metric m)) (ts ! i - b)"
    "distinct (map Milestone_ID (Manifest_Milestones m))"
    "Metric_Direction (Manifest_Metric m) = ''maximize'' \<or> Metric_Direction (Manifest_Metric m) = ''minimize''"
proof -
  let ?dir = "Metric_Direction (Manifest_Metric m)"
  obtain b mn s where v: "validate_metric (Manifest_Metric m) = Inr (b, mn)"
    "res_fold (milestone_step ?dir b mn) ({}, b) (Manifest_Milestones m) = Inr s"
    using ValidateManifest_Inr(3) [OF assms] by blast
  obtain ts where ts: "map (\<lambda>x. ParseTicks (Milestone_ThresholdTicks x)) (Manifest_Milestones m) = map Inr ts"
    "sorted_wrt (\<lambda>x y. 0 < signed_delta ?dir (y - x)) (b # ts)"
    "\<forall>t\<in>set ts. mn \<le> signed_delta ?dir (t - b)" "distinct (map Milestone_ID (Manifest_Milestones m))"
    using milestone_fold [OF v(2)] by blast
  have l: "length ts = length (Manifest_Milestones m)" using arg_cong [OF ts(1), of length] by simp
  show ?thesis
  proof (rule that [OF validate_metric_Inr(1-3) [OF v(1)] l])
    show "ParseTicks (Milestone_ThresholdTicks (Manifest_Milestones m ! i)) = Inr (ts ! i)" if "i < length ts" for i
      using arg_cong [OF ts(1), of "\<lambda>xs. xs ! i"] that l by simp
    show "0 < signed_delta ?dir (ts ! j - ts ! i)" if "i < j" "j < length ts" for i j
    proof -
      have "sorted_wrt (\<lambda>x y. 0 < signed_delta ?dir (y - x)) ts" using ts(2) by simp
      then show ?thesis using sorted_wrt_nth_less that by fast
    qed
    show "mn \<le> signed_delta ?dir (ts ! i - b)" if "i < length ts" for i using ts(3) that by simp
  qed (use ts(4) validate_metric_Inr(4) [OF v(1)] in auto)
qed

lemma accepted_resources:
  assumes "validate_resources m = Inr ()"
  shows "128 \<le> Resources_MemoryMB (Manifest_Resources m)" "Resources_MemoryMB (Manifest_Resources m) \<le> 524288"
    "1 \<le> Resources_TimeoutSeconds (Manifest_Resources m)" "Resources_TimeoutSeconds (Manifest_Resources m) \<le> 7200"
    "4 \<le> len (Manifest_Fixtures m)" "len (Manifest_Fixtures m) \<le> 100"
  using assms by (auto simp: validate_resources_def Let_def res_simps split: if_splits prod.splits)

lemma accepted_schedule:
  assumes "validate_resources m = Inr ()" "Manifest_APIVersion m = ManifestV2"
  shows "2 * len (Manifest_Fixtures m) * (Resources_TimeoutSeconds (Manifest_Resources m) + 60) + 600 \<le> 18 * 3600"
proof -
  let ?n = "len (Manifest_Fixtures m)" and ?t = "Resources_TimeoutSeconds (Manifest_Resources m)"
  note r = accepted_resources [OF assms(1)]
  have "2 * ?n * (?t + 60) \<le> 200 * 7260" using r by (intro mult_mono) auto
  moreover have "0 \<le> 2 * ?n * (?t + 60)" using r by simp
  ultimately have "int64 (int64 (2 * ?n) * int64 (?t + 60) + 600) = 2 * ?n * (?t + 60) + 600"
    using r by (simp add: int64_id)
  then show ?thesis
    using assms by (auto simp: validate_resources_def Let_def res_simps split: if_splits prod.splits)
qed

lemma accepted_evaluation:
  assumes "ValidateManifest nfc parse_url m = Inr ()" "Manifest_Evaluation m = Some e"
  shows "ValidateEvaluation nfc e (Manifest_Metric m) (Manifest_Evidence m) (Manifest_Resources m) = Inr ()"
    "Manifest_APIVersion m = ManifestV2"
    "\<forall>milestone\<in>set (Manifest_Milestones m). ValidatePredicates (Milestone_Requires milestone) e = Inr ()"
  using ValidateManifest_Inr(1,2) [OF assms(1)] assms(2)
  by (auto simp: validate_extension_def res_simps split: if_splits)

lemma accepted_gates:
  assumes "ValidateManifest nfc parse_url m = Inr ()"
  shows "distinct (Manifest_HardGates m)"
proof -
  obtain G where "res_fold gate_step {} (Manifest_HardGates m) = Inr G"
    using ValidateManifest_Inr(7) [OF assms] by blast
  then show ?thesis using res_fold_seen [of gate_step "{}" _ G id] by (auto simp: gate_step_def res_simps)
qed

lemma accepted_program:
  assumes "ValidateManifest nfc parse_url m = Inr ()" "Manifest_Evaluation m = Some e" "Evaluation_Program e = Some p"
  shows "validate_program nfc (Evaluation_Mode e) (set (Executor_Features (Evaluation_Executor e)))
    (Manifest_Resources m) p = Inr ()"
  using ValidateEvaluation_Inr(5) [OF accepted_evaluation(1) [OF assms(1,2)] assms(3)] .

lemma lease_bounds: "15 * 60 * go_second \<le> JobLeaseDuration m purpose \<and> JobLeaseDuration m purpose \<le> MaximumJobLease"
  by (simp add: JobLeaseDuration_def Let_def MaximumJobLease_def go_second_def)

lemma int64_small: "0 \<le> x \<Longrightarrow> x \<le> 1000000000000000 \<Longrightarrow> int64 x = x"
  by (rule int64_id) simp_all

lemma lease_exact:
  assumes "Manifest_APIVersion m = ManifestV2" "purpose \<noteq> ''artifact_prepare''"
    and "secs = (if purpose = ''preflight'' then 2 * len (Manifest_Fixtures m) else 1)
        * (Resources_TimeoutSeconds (Manifest_Resources m) + 60) + 600"
    and "0 \<le> Resources_TimeoutSeconds (Manifest_Resources m)" "secs \<le> 18 * 3600"
    and "1 \<le> len (Manifest_Fixtures m)" "len (Manifest_Fixtures m) \<le> 100"
  shows "JobLeaseDuration m purpose = max (15 * 60 * go_second) (secs * go_second)"
proof -
  let ?n = "len (Manifest_Fixtures m)" and ?t = "Resources_TimeoutSeconds (Manifest_Resources m)"
  define k where "k = (if purpose = ''preflight'' then 2 * ?n else 1)"
  have k: "1 \<le> k" using assms(6) by (simp add: k_def)
  then have "1 * (?t + 60) \<le> k * (?t + 60)" using assms(4) by (intro mult_right_mono) auto
  then have b: "?t + 60 \<le> k * (?t + 60)" by simp
  have s: "secs = k * (?t + 60) + 600" using assms(3) by (simp add: k_def)
  have w1: "int64 (?t + 60) = ?t + 60" by (rule int64_small) (use assms(4,5) b s in linarith)+
  have w2: "int64 (2 * ?n) = 2 * ?n" by (rule int64_small) (use assms(6,7) in linarith)+
  have w3: "int64 (k * (?t + 60)) = k * (?t + 60)" by (rule int64_small) (use assms(4,5) b s in linarith)+
  have w4: "int64 (k * (?t + 60) + 600) = secs"
    unfolding s by (rule int64_small) (use assms(4,5) b s in linarith)+
  have w5: "int64 (secs * go_second) = secs * go_second"
    unfolding go_second_def by (rule int64_small) (use assms(4,5) b s in linarith)+
  have "(if purpose = ''preflight'' then int64 (int64 (?t + 60) * int64 (2 * ?n)) else int64 (?t + 60)) = k * (?t + 60)"
    using w1 w2 w3 by (cases "purpose = ''preflight''") (simp_all add: k_def mult.commute [of "?t + 60"])
  then have "JobLeaseDuration m purpose = (let duration = secs * go_second;
      duration = (if duration < 15 * 60 * go_second then 15 * 60 * go_second else duration)
      in if duration > MaximumJobLease \<or> duration < 0 then MaximumJobLease else duration)"
    using assms(1,2) w4 w5 by (simp add: JobLeaseDuration_def Let_def)
  then show ?thesis using assms(5) by (auto simp: Let_def MaximumJobLease_def go_second_def max_def)
qed

section \<open>Properties\<close>

text \<open>Manifest validation never panics.  The evaluation contract is dereferenced only for a v2
  manifest, where its presence has been checked, and the entry point is indexed only after its length
  has been checked.\<close>

theorem ValidateManifest_no_panic: "no_panic (ValidateManifest nfc parse_url m)"
  by (rule accepted_manifest_no_panic)

text \<open>C18: the milestones of an accepted manifest form a ladder.  A score that reaches a milestone, the first
  one included, improves on the baseline by at least the declared minimum, which is positive; it reaches every
  earlier milestone, and the identifiers of the milestones differ.\<close>

theorem ValidateManifest_ladder:
  assumes "ValidateManifest nfc parse_url m = Inr ()" "j < length (Manifest_Milestones m)"
    "Qualifies score (Milestone_ThresholdTicks (Manifest_Milestones m ! j)) (Metric_Direction (Manifest_Metric m)) = Inr True"
  shows "(\<exists>s b mn. ParseTicks score = Inr s \<and> ParseTicks (Metric_BaselineTicks (Manifest_Metric m)) = Inr b \<and>
      ParseTicks (Metric_MinimumDeltaTicks (Manifest_Metric m)) = Inr mn \<and> 0 < mn \<and>
      mn \<le> signed_delta (Metric_Direction (Manifest_Metric m)) (s - b)) \<and>
    (\<forall>i<j. Qualifies score (Milestone_ThresholdTicks (Manifest_Milestones m ! i)) (Metric_Direction (Manifest_Metric m)) = Inr True \<and>
      Milestone_ID (Manifest_Milestones m ! i) \<noteq> Milestone_ID (Manifest_Milestones m ! j))"
proof -
  let ?dir = "Metric_Direction (Manifest_Metric m)"
  obtain b mn ts where a: "ParseTicks (Metric_BaselineTicks (Manifest_Metric m)) = Inr b"
    "ParseTicks (Metric_MinimumDeltaTicks (Manifest_Metric m)) = Inr mn" "0 < mn"
    "length ts = length (Manifest_Milestones m)"
    and t: "\<And>i. i < length ts \<Longrightarrow> ParseTicks (Milestone_ThresholdTicks (Manifest_Milestones m ! i)) = Inr (ts ! i)"
    and up: "\<And>i j. i < j \<Longrightarrow> j < length ts \<Longrightarrow> 0 < signed_delta ?dir (ts ! j - ts ! i)"
    and far: "\<And>i. i < length ts \<Longrightarrow> mn \<le> signed_delta ?dir (ts ! i - b)"
    and d: "distinct (map Milestone_ID (Manifest_Milestones m))" and dir: "?dir = ''maximize'' \<or> ?dir = ''minimize''"
    using accepted_milestones [OF assms(1)] by blast
  have j: "j < length ts" using assms(2) a(4) by simp
  obtain s where s: "ParseTicks score = Inr s" "0 \<le> signed_delta ?dir (s - ts ! j)"
    using assms(3) t [OF j] by (auto simp: Qualifies_iff [OF dir])
  have far_enough: "mn \<le> signed_delta ?dir (s - b)" using s(2) far [OF j] by (auto simp: signed_delta_def split: if_splits)
  have "Qualifies score (Milestone_ThresholdTicks (Manifest_Milestones m ! i)) ?dir = Inr True \<and>
      Milestone_ID (Manifest_Milestones m ! i) \<noteq> Milestone_ID (Manifest_Milestones m ! j)" if i: "i < j" for i
  proof -
    have "i < length ts" using i j by simp
    moreover have "0 \<le> signed_delta ?dir (s - ts ! i)" using s(2) up [OF i j] by (auto simp: signed_delta_def split: if_splits)
    ultimately show ?thesis using s(1) t [of i] d i assms(2) by (auto simp: Qualifies_iff [OF dir] distinct_conv_nth)
  qed
  with far_enough s(1) a show ?thesis by blast
qed

definition demo_milestone :: "string \<Rightarrow> string \<Rightarrow> Milestone" where
  "demo_milestone i ticks = \<lparr>Milestone_Requires = [], Milestone_ID = i, Milestone_Title = ''t'',
     Milestone_ThresholdTicks = ticks, Milestone_Rationale = ''r''\<rparr>"

definition demo_fixture :: "string \<Rightarrow> string \<Rightarrow> Fixture" where
  "demo_fixture name outcome = \<lparr>Fixture_Name = name, Fixture_Path = ''fixtures/'' @ name,
     Fixture_ExpectedOutcome = outcome, Fixture_ExpectedTicks = []\<rparr>"

definition demo_manifest :: Manifest where
  "demo_manifest = \<lparr>Manifest_Evaluation = Some demo_evaluation, Manifest_VerificationPolicy = [],
     Manifest_APIVersion = ManifestV2, Manifest_Kind = ''ChallengeManifest'', Manifest_ID = ''m1'',
     Manifest_CreatedAt = 1, Manifest_Producer = ''p'', Manifest_Slug = ''a-b'', Manifest_Title = ''Title'',
     Manifest_Summary = ''s'', Manifest_ScientificQuestion = ''q'', Manifest_Evidence = [demo_source],
     Manifest_Impact = ''i'', Manifest_Limitations = [''l''], Manifest_SafetyClassification = ''review-required'',
     Manifest_EconomicMode = ''none'', Manifest_Metric = demo_speedup, Manifest_HardGates = [''g''],
     Manifest_Milestones = [demo_milestone ''a'' ''1100'', demo_milestone ''b'' ''1200''], Manifest_Deadline = 2,
     Manifest_Submission = demo_contract\<lparr>Submission_Format := ''source-v2''\<rparr>,
     Manifest_Validator = \<lparr>Validator_Profile = ''native-evaluator-v2'',
       Validator_Entrypoint = [''/usr/local/bin/python3'', ''/sl/challenge/check.py''],
       Validator_DependencyLock = ''lock'', Validator_RuntimeImageDigest = ''sha256:'' @ replicate 64 CHR ''0''\<rparr>,
     Manifest_Suite = \<lparr>Suite_Visibility = ''public'', Suite_Path = ''suite/'', Suite_Commitment = [], Suite_RevealAt = None\<rparr>,
     Manifest_Resources = demo_resources,
     Manifest_Fixtures = [demo_fixture ''baseline'' ''valid'', demo_fixture ''valid'' ''valid'',
       demo_fixture ''invalid'' ''invalid_output'', demo_fixture ''malformed'' ''invalid_output'']\<rparr>"

definition demo_url :: url_parser where
  "demo_url u = (if prefix ''https://'' u then Some (''https'', ''example.org'', False) else None)"

lemma demo_manifest_valid: "ValidateManifest (\<lambda>_. True) demo_url demo_manifest = Inr ()"
proof -
  have "is_ok (ValidateManifest (\<lambda>_. True) demo_url demo_manifest)" by code_simp
  then show ?thesis by (auto simp: is_ok_iff)
qed

theorem ValidateManifest_ladder_witness:
  "Qualifies ''1250'' (Milestone_ThresholdTicks (Manifest_Milestones demo_manifest ! 0))
     (Metric_Direction (Manifest_Metric demo_manifest)) = Inr True"
proof -
  have "Qualifies ''1250'' (Milestone_ThresholdTicks (Manifest_Milestones demo_manifest ! 1))
     (Metric_Direction (Manifest_Metric demo_manifest)) = Inr True" by code_simp
  moreover have "1 < length (Manifest_Milestones demo_manifest)" by (simp add: demo_manifest_def)
  ultimately show ?thesis using ValidateManifest_ladder [OF demo_manifest_valid, of 1 "''1250''"] by simp
qed

text \<open>The candidate program of an accepted manifest fits its envelope in exact integers, so none of
  the 64-bit computations of the validation wrapped: the declared build products together fit the
  scratch space, the scratch space fits the memory, and each stage leaves 256 MB of it free.\<close>

theorem ValidateManifest_program_fits:
  assumes "ValidateManifest nfc parse_url m = Inr ()" "Manifest_Evaluation m = Some e" "Evaluation_Program e = Some p"
  shows "(\<Sum>x\<leftarrow>Program_Products p. Product_MaxBytes x) \<le> Program_ScratchMB p * 2 ^ 20 \<and>
    Program_ScratchMB p \<le> Resources_MemoryMB (Manifest_Resources m) \<and>
    (\<forall>b\<in>{Program_BuildBudget p, Program_RunBudget p}.
      Budget_MemoryMB b + 256 \<le> Resources_MemoryMB (Manifest_Resources m) \<and>
      Budget_MaxFileBytes b \<le> Program_ScratchMB p * 2 ^ 20 \<and>
      Budget_TimeoutSeconds b \<le> Resources_TimeoutSeconds (Manifest_Resources m))"
proof -
  note r = accepted_resources [OF ValidateManifest_Inr(5) [OF assms(1)]]
  have v: "Program_ScratchMB p \<le> Resources_MemoryMB (Manifest_Resources m)" "16 \<le> Program_ScratchMB p"
    "validateBuildProducts nfc p = Inr ()"
    "\<forall>b\<in>{Program_BuildBudget p, Program_RunBudget p}. check_stage_budget p (Manifest_Resources m) b = Inr ()"
    using accepted_program [OF assms] by (auto simp: validate_program_def Let_def res_simps)
  have "int64 (Program_ScratchMB p * 2 ^ 20) = Program_ScratchMB p * 2 ^ 20"
    "int64 (Resources_MemoryMB (Manifest_Resources m) - 256) = Resources_MemoryMB (Manifest_Resources m) - 256"
    using v(1,2) r by (auto intro!: int64_id)
  then show ?thesis
    using v build_products_fit [OF v(3)] r by (auto simp: check_stage_budget_def res_simps)
qed

theorem ValidateManifest_program_fits_witness:
  "\<exists>e p. Manifest_Evaluation demo_manifest = Some e \<and> Evaluation_Program e = Some p \<and>
     Program_ScratchMB p \<le> Resources_MemoryMB (Manifest_Resources demo_manifest)"
proof -
  obtain e p where ep: "Manifest_Evaluation demo_manifest = Some e" "Evaluation_Program e = Some p"
    by (simp add: demo_manifest_def demo_evaluation_def)
  then show ?thesis using ValidateManifest_program_fits [OF demo_manifest_valid ep] by blast
qed

text \<open>The lease of a job for an accepted v2 manifest covers all the work it authorizes: for a
  preflight both runs of every fixture with a minute of overhead each and ten minutes of slack, for any
  other run one session, and never more than eighteen hours.\<close>

theorem JobLeaseDuration_covers:
  assumes "ValidateManifest nfc parse_url m = Inr ()" "Manifest_APIVersion m = ManifestV2"
    "purpose \<noteq> ''artifact_prepare''"
  shows "((if purpose = ''preflight'' then 2 * len (Manifest_Fixtures m) else 1)
      * (Resources_TimeoutSeconds (Manifest_Resources m) + 60) + 600) * go_second \<le> JobLeaseDuration m purpose \<and>
    JobLeaseDuration m purpose \<le> MaximumJobLease"
proof -
  let ?n = "len (Manifest_Fixtures m)" and ?t = "Resources_TimeoutSeconds (Manifest_Resources m)"
  note r = accepted_resources [OF ValidateManifest_Inr(5) [OF assms(1)]]
  have "(if purpose = ''preflight'' then 2 * ?n else 1) * (?t + 60) + 600 \<le> 18 * 3600"
    using accepted_schedule [OF ValidateManifest_Inr(5) [OF assms(1)] assms(2)] r by simp
  then show ?thesis
    using lease_exact [OF assms(2,3) refl] r lease_bounds [of m purpose] by auto
qed

theorem JobLeaseDuration_covers_witness:
  "(8 * 120 + 600) * go_second \<le> JobLeaseDuration demo_manifest ''preflight''"
proof -
  have "Manifest_APIVersion demo_manifest = ManifestV2" "len (Manifest_Fixtures demo_manifest) = 4"
    "Resources_TimeoutSeconds (Manifest_Resources demo_manifest) = 60"
    by (simp_all add: demo_manifest_def demo_resources_def len_def)
  then show ?thesis using JobLeaseDuration_covers [OF demo_manifest_valid, of "''preflight''"] by simp
qed

text \<open>Without validation the multiplication by \<open>time.Second\<close> can wrap, and then the test
  \<open>duration < 0\<close> comes too late: the lower clamp has already turned the negative duration into fifteen
  minutes.\<close>

lemma JobLeaseDuration_overflow:
  "JobLeaseDuration (demo_manifest\<lparr>Manifest_Resources := demo_resources\<lparr>Resources_TimeoutSeconds := 9223372036\<rparr>\<rparr>) ''run''
     = 15 * 60 * go_second"
  by code_simp

end
