(* ===== verification/Results.thy ===== *)
theory Results
  imports Manifest
begin

text \<open>
  Results and run receipts: \<open>ValidateResult\<close> and \<open>ValidatorOutcome\<close> of \<open>scores.go\<close>,
  \<open>ValidateRunMeasurementEvidence\<close> and \<open>ConfirmedAchievement\<close> of \<open>evaluation.go\<close>, \<open>ConfirmMeasuredRuns\<close>
  and \<open>ValidateMeasuredFixture\<close> of \<open>measurement.go\<close>.

  The JSON codec is an argument: \<open>decode\<close> is \<open>DecodeStrict\<close> into a \<open>ValidatorResult\<close> (which passes
  through a third-party canonicaliser), \<open>marshal\<close> is \<open>json.Marshal\<close> of one.  \<open>faithful_codec\<close> names what
  the code relies on: both return errors rather than panic, and a result that was itself read from a
  document survives being written and read again.
\<close>

type_synonym result_decoder = "string \<Rightarrow> ValidatorResult res"
type_synonym result_marshal = "ValidatorResult \<Rightarrow> string res"

section \<open>Results\<close>

definition check_comparison :: "ValidatorResult \<Rightarrow> Manifest \<Rightarrow> unit res" where
  "check_comparison result m =
     (if Manifest_APIVersion m = APIVersion then
        fail_if (Result_Timing result \<noteq> None \<or> Result_ComparisonID result \<noteq> []
            \<or> len (Result_Measurements result) \<noteq> 0 \<or> Manifest_Evaluation m \<noteq> None)
          ''v1 results cannot contain v2 measurement semantics'' (Inr ())
      else if Manifest_APIVersion m = ManifestV2 then
        (case Manifest_Evaluation m of
           None \<Rightarrow> Inl (Err ''result belongs to a different comparison series'')
         | Some e \<Rightarrow>
           fail_if (Result_ComparisonID result \<noteq> Evaluation_ComparisonID e)
             ''result belongs to a different comparison series''
           (ValidateMeasurements (Result_Measurements result) e))
      else Inl (Err ''unsupported manifest version''))"

definition check_timing :: "(string \<Rightarrow> bool) \<Rightarrow> ValidatorResult \<Rightarrow> Manifest \<Rightarrow> unit res" where
  "check_timing nfc result m =
     (if measured_manifest m then
        (case (Result_Timing result, Option.bind (Manifest_Evaluation m) Evaluation_Measurement) of
           (Some timing, Some policy) \<Rightarrow>
             res_bind (ValidateTimingEvidence nfc timing policy) (\<lambda>summary.
             fail_if (Result_Score result \<noteq> Summary_LowerRatio summary)
               ''timing score must equal the conservative confidence bound'' (Inr ()))
         | _ \<Rightarrow> Inl (Err ''trusted paired timing evidence required''))
      else fail_if (Result_Timing result \<noteq> None) ''timing evidence is outside this evaluation contract'' (Inr ()))"

fun primary_ticks :: "string \<Rightarrow> Metric \<Rightarrow> MeasurementDefinition list \<Rightarrow> string res" where
  "primary_ticks v m [] = Inl (Err ''primary measurement is undeclared'')"
| "primary_ticks v m (d # ds) =
     (if MeasDef_Name d = Metric_Name m
      then res_bind (MeasurementNumber v (MeasDef_Type d)) (\<lambda>x. normalizeRationalScore x m)
      else primary_ticks v m ds)"

definition result_ticks :: "ValidatorResult \<Rightarrow> Manifest \<Rightarrow> string res" where
  "result_ticks result m =
     (case Manifest_Evaluation m of
        None \<Rightarrow> NormalizeScore (Result_Score result) (Manifest_Metric m)
      | Some e \<Rightarrow>
        let v = (case lookup (Result_Measurements result) (Metric_Name (Manifest_Metric m)) of None \<Rightarrow> [] | Some v \<Rightarrow> v) in
        fail_if (Result_Score result \<noteq> v) ''score differs from primary measurement''
        (primary_ticks v (Manifest_Metric m) (Evaluation_Measurements e)))"

definition ValidateResult ::
    "(string \<Rightarrow> bool) \<Rightarrow> result_decoder \<Rightarrow> string \<Rightarrow> Manifest \<Rightarrow> (ValidatorResult \<times> string) res" where
  "ValidateResult nfc decode data m =
     fail_if (len data > 65536) ''result exceeds 64 KiB''
     (res_bind (decode data) (\<lambda>result.
      fail_if (Result_APIVersion result \<noteq> Manifest_APIVersion m \<or> Result_Kind result \<noteq> ''ValidatorResult'')
        ''unsupported result version/kind''
      (res_bind (check_comparison result m) (\<lambda>_.
       res_bind (check_timing nfc result m) (\<lambda>_.
       fail_if (len (Result_Gates result) \<noteq> len (Manifest_HardGates m)) ''missing or unknown hard gate''
       (res_bind (res_each (\<lambda>gate. fail_if (lookup (Result_Gates result) gate = None) ''missing hard gate'' (Inr ()))
           (Manifest_HardGates m)) (\<lambda>_.
        res_bind (result_ticks result m) (\<lambda>ticks. Inr (result, ticks))))))))) "

definition ValidatorOutcome :: "ValidatorResult \<Rightarrow> string" where
  "ValidatorOutcome result =
     (if list_ex (\<lambda>(_, pass). \<not> pass) (Result_Gates result) then ''hard_gate_failed''
      else case Result_Timing result of
        Some timing \<Rightarrow> if Summary_Outcome (Evidence_Summary timing) = ''inconclusive''
          then ''measurement_inconclusive'' else ''valid''
      | None \<Rightarrow> ''valid'')"

section \<open>Run receipts\<close>

definition ValidateRunMeasurementEvidence ::
    "(string \<Rightarrow> bool) \<Rightarrow> result_marshal \<Rightarrow> result_decoder \<Rightarrow> RunReceipt \<Rightarrow> Manifest \<Rightarrow> unit res" where
  "ValidateRunMeasurementEvidence nfc marshal decode run m =
     (if Manifest_APIVersion m \<noteq> ManifestV2 then
        fail_if (Run_ValidatorResult run \<noteq> None) ''legacy run contains unbound measurement evidence'' (Inr ())
      else if Run_Outcome run \<noteq> ''valid'' \<and> Run_Outcome run \<noteq> ''hard_gate_failed''
          \<and> Run_Outcome run \<noteq> ''measurement_inconclusive'' then Inr ()
      else case Run_ValidatorResult run of
        None \<Rightarrow> Inl (Err ''v2 run is missing its typed measurement evidence'')
      | Some vr \<Rightarrow>
        res_bind (marshal vr) (\<lambda>data.
        res_bind (ValidateResult nfc decode data m) (\<lambda>(result, ticks).
        fail_if (ticks \<noteq> Run_ScoreTicks run \<or> len (Result_Gates result) \<noteq> len (Run_Gates run))
          ''run score or gates differ from typed evidence''
        (res_bind (res_fold (\<lambda>failed (name, v).
            fail_if (lookup (Run_Gates run) name \<noteq> Some v) ''run gate differs from typed evidence''
            (Inr (failed \<or> \<not> v))) False (Result_Gates result)) (\<lambda>failed.
         fail_if (failed \<noteq> (Run_Outcome run = ''hard_gate_failed'') \<or> ValidatorOutcome result \<noteq> Run_Outcome run)
           ''run outcome differs from measurement gates'' (Inr ()))))))"

fun achieved_by ::
    "(RunReceipt \<Rightarrow> unit res) \<Rightarrow> MeasurementPredicate list \<Rightarrow> EvaluationContract \<Rightarrow> RunReceipt list \<Rightarrow> bool res" where
  "achieved_by check ps e [] = Inr True"
| "achieved_by check ps e (run # runs) =
     (if Run_Outcome run \<noteq> ''valid'' then Inr False else
      res_bind (check run) (\<lambda>_.
      res_bind (deref (Run_ValidatorResult run)) (\<lambda>vr.
      res_bind (MeetsPredicates (Result_Measurements vr) ps e) (\<lambda>ok.
      if \<not> ok then Inr False else achieved_by check ps e runs))))"

definition ConfirmedAchievement ::
    "(string \<Rightarrow> bool) \<Rightarrow> result_marshal \<Rightarrow> result_decoder \<Rightarrow> Manifest \<Rightarrow> Milestone \<Rightarrow> RunReceipt list \<Rightarrow> bool res" where
  "ConfirmedAchievement nfc marshal decode m milestone runs =
     (if len (Milestone_Requires milestone) = 0 then Inr True else
      case Manifest_Evaluation m of
        None \<Rightarrow> Inl (Err ''achievement lacks two complete measurement records'')
      | Some e \<Rightarrow>
        fail_if (len runs \<noteq> 2) ''achievement lacks two complete measurement records''
        (res_bind (index runs 0) (\<lambda>r0. res_bind (index runs 1) (\<lambda>r1.
         fail_if (Run_JobID r0 = [] \<or> Run_JobID r0 = Run_JobID r1)
           ''achievement confirmation must be a different run''
         (achieved_by (\<lambda>run. ValidateRunMeasurementEvidence nfc marshal decode run m)
           (Milestone_Requires milestone) e runs)))))"

section \<open>Measured repeats\<close>

definition run_summary :: "RunReceipt \<Rightarrow> TimingSummary res" where
  "run_summary run =
     res_bind (deref (Run_ValidatorResult run)) (\<lambda>vr.
     res_bind (deref (Result_Timing vr)) (\<lambda>timing. Inr (Evidence_Summary timing)))"

definition ratio_of :: "string \<Rightarrow> rat res" where
  "ratio_of s = ignore_err (MeasurementNumber s ''rational'')"

definition ConfirmMeasuredRuns ::
    "(string \<Rightarrow> bool) \<Rightarrow> result_marshal \<Rightarrow> result_decoder \<Rightarrow> RunReceipt \<Rightarrow> RunReceipt \<Rightarrow> Manifest \<Rightarrow> string res" where
  "ConfirmMeasuredRuns nfc marshal decode a b m =
     (if Manifest_APIVersion m \<noteq> ManifestV2
         \<or> (case Manifest_Evaluation m of None \<Rightarrow> True
            | Some e \<Rightarrow> Evaluation_Measurement e = None \<or> Evaluation_Mode e \<noteq> ''performance'')
         \<or> Run_Outcome a \<noteq> ''valid'' \<or> Run_Outcome b \<noteq> ''valid''
      then Inl (Err ''valid measured repeats required'') else
      res_bind (res_each (\<lambda>r. ValidateRunMeasurementEvidence nfc marshal decode r m) [a, b]) (\<lambda>_.
      res_bind (run_summary a) (\<lambda>x.
      res_bind (run_summary b) (\<lambda>y.
      res_bind (ratio_of (Summary_LowerRatio x)) (\<lambda>xl.
      res_bind (ratio_of (Summary_UpperRatio x)) (\<lambda>xu.
      res_bind (ratio_of (Summary_LowerRatio y)) (\<lambda>yl.
      res_bind (ratio_of (Summary_UpperRatio y)) (\<lambda>yu.
      fail_if (xl > yu \<or> yl > xu) ''fresh timing intervals do not overlap''
      (let c = (case CompareTicks (Run_ScoreTicks a) (Run_ScoreTicks b) of Inl _ \<Rightarrow> 0 | Inr c \<Rightarrow> c)
       in if c < 0 then Inr (Run_ScoreTicks a) else Inr (Run_ScoreTicks b))))))))))"

definition check_self_comparison :: "RunReceipt \<Rightarrow> unit res" where
  "check_self_comparison r =
     res_bind (run_summary r) (\<lambda>s.
     res_bind (ratio_of (Summary_LowerRatio s)) (\<lambda>lo.
     res_bind (ratio_of (Summary_UpperRatio s)) (\<lambda>hi.
     fail_if (lo > 1 \<or> hi < 1) ''baseline self-comparison shows measurement bias'' (Inr ()))))"

definition ValidateMeasuredFixture ::
    "(string \<Rightarrow> bool) \<Rightarrow> result_marshal \<Rightarrow> result_decoder \<Rightarrow> RunReceipt \<Rightarrow> RunReceipt \<Rightarrow> Manifest \<Rightarrow> Fixture \<Rightarrow> string res" where
  "ValidateMeasuredFixture nfc marshal decode a b m f =
     fail_if (Run_Outcome a \<noteq> Fixture_ExpectedOutcome f \<or> Run_Outcome b \<noteq> Run_Outcome a
         \<or> Run_ArtifactDigest a \<noteq> Run_ArtifactDigest b) ''fixture outcome or artifact changed''
     (if Run_Outcome a \<noteq> ''valid'' then Inr [] else
      res_bind (ConfirmMeasuredRuns nfc marshal decode a b m) (\<lambda>score.
      if Fixture_Name f = ''baseline'' then
        res_bind (deref (Manifest_Evaluation m)) (\<lambda>e.
        res_bind (deref (Evaluation_Measurement e)) (\<lambda>policy.
        fail_if (Run_ArtifactDigest a \<noteq> Policy_BaselineDigest policy)
          ''baseline fixture is not the frozen reference program''
        (res_bind (res_each check_self_comparison [a, b]) (\<lambda>_. Inr score))))
      else Inr score))"

section \<open>The codec\<close>

definition faithful_codec :: "result_marshal \<Rightarrow> result_decoder \<Rightarrow> RunReceipt list \<Rightarrow> bool" where
  "faithful_codec marshal decode runs \<longleftrightarrow>
     (\<forall>r. no_panic (marshal r)) \<and> (\<forall>d. no_panic (decode d)) \<and>
     (\<forall>run\<in>set runs. \<forall>r d r'. Run_ValidatorResult run = Some r \<longrightarrow> marshal r = Inr d \<longrightarrow> decode d = Inr r' \<longrightarrow> r' = r)"

section \<open>Accepted results\<close>

lemma check_timing_Inr:
  assumes "check_timing nfc result m = Inr ()" "measured_manifest m"
  obtains e timing policy where "Manifest_Evaluation m = Some e" "Result_Timing result = Some timing"
    "Evaluation_Measurement e = Some policy"
    "ValidateTimingEvidence nfc timing policy = Inr (Evidence_Summary timing)"
    "Result_Score result = Summary_LowerRatio (Evidence_Summary timing)"
proof -
  obtain e where e: "Manifest_Evaluation m = Some e" using assms(2) by (auto simp: measured_manifest_def split: option.splits)
  obtain timing policy summary where t: "Result_Timing result = Some timing" "Evaluation_Measurement e = Some policy"
    "ValidateTimingEvidence nfc timing policy = Inr summary" "Result_Score result = Summary_LowerRatio summary"
    using assms e by (auto simp: check_timing_def res_simps split: option.splits)
  have "summary = Evidence_Summary timing" using t(3) by (auto simp: ValidateTimingEvidence_def res_simps)
  with t show ?thesis using that e by simp
qed

lemma ValidateResult_Inr:
  assumes "ValidateResult nfc decode data m = Inr (result, ticks)"
  shows "decode data = Inr result" "check_comparison result m = Inr ()" "check_timing nfc result m = Inr ()"
    "len (Result_Gates result) = len (Manifest_HardGates m)"
    "\<forall>g\<in>set (Manifest_HardGates m). lookup (Result_Gates result) g \<noteq> None"
    "result_ticks result m = Inr ticks"
  using assms by (auto simp: ValidateResult_def res_simps)

lemma gate_fold:
  assumes "res_fold (\<lambda>failed (name, v). fail_if (lookup gs name \<noteq> Some v) msg (Inr (failed \<or> \<not> v))) b xs = Inr b'"
  shows "(\<forall>(name, v)\<in>set xs. lookup gs name = Some v) \<and> b' = (b \<or> list_ex (\<lambda>(_, v). \<not> v) xs)"
  using assms
proof (induction xs arbitrary: b)
  case (Cons x xs)
  obtain n v where x: "x = (n, v)" by fastforce
  with Cons.prems have l: "lookup gs n = Some v"
    and f: "res_fold (\<lambda>failed (name, v). fail_if (lookup gs name \<noteq> Some v) msg (Inr (failed \<or> \<not> v))) (b \<or> \<not> v) xs = Inr b'"
    by (auto simp: res_simps)
  show ?case using Cons.IH [OF f] l x by auto
qed simp

lemma evidence_Inr:
  assumes "ValidateRunMeasurementEvidence nfc marshal decode run m = Inr ()" "Manifest_APIVersion m = ManifestV2"
    "Run_Outcome run \<in> {''valid'', ''hard_gate_failed'', ''measurement_inconclusive''}"
  obtains vr data result where "Run_ValidatorResult run = Some vr" "marshal vr = Inr data"
    "ValidateResult nfc decode data m = Inr (result, Run_ScoreTicks run)"
    "len (Result_Gates result) = len (Run_Gates run)"
    "\<forall>(name, v)\<in>set (Result_Gates result). lookup (Run_Gates run) name = Some v"
    "ValidatorOutcome result = Run_Outcome run"
proof -
  obtain vr where vr: "Run_ValidatorResult run = Some vr"
    using assms by (auto simp: ValidateRunMeasurementEvidence_def split: option.splits)
  obtain data result b where d: "marshal vr = Inr data" "ValidateResult nfc decode data m = Inr (result, Run_ScoreTicks run)"
    "len (Result_Gates result) = len (Run_Gates run)" "ValidatorOutcome result = Run_Outcome run"
    and f: "res_fold (\<lambda>failed (name, v). fail_if (lookup (Run_Gates run) name \<noteq> Some v)
        ''run gate differs from typed evidence'' (Inr (failed \<or> \<not> v))) False (Result_Gates result) = Inr b"
    using assms vr by (auto simp: ValidateRunMeasurementEvidence_def res_simps)
  show ?thesis using that [OF vr d(1-3) _ d(4)] gate_fold [OF f] by blast
qed

lemma ValidateTimingEvidence_no_panic [panic_intros]: "no_panic (ValidateTimingEvidence nfc e p)"
  unfolding ValidateTimingEvidence_def check_warmup_def
  by (intro panic_intros) (auto split: prod.split intro!: panic_intros)

lemma check_comparison_no_panic [panic_intros]: "no_panic (check_comparison r m)"
  unfolding check_comparison_def by (cases "Manifest_Evaluation m") (auto intro!: panic_intros)

lemma check_timing_no_panic [panic_intros]: "no_panic (check_timing nfc r m)"
  unfolding check_timing_def by (auto split: option.split intro!: panic_intros)

lemma normalizeRationalScore_no_panic [panic_intros]: "no_panic (normalizeRationalScore v m)"
  unfolding normalizeRationalScore_def Let_def by (intro panic_intros) simp_all

lemma primary_ticks_no_panic [panic_intros]: "no_panic (primary_ticks v m ds)"
  by (induction ds) (auto intro!: panic_intros)

lemma result_ticks_no_panic [panic_intros]: "no_panic (result_ticks r m)"
  unfolding result_ticks_def Let_def by (cases "Manifest_Evaluation m") (auto intro!: panic_intros)

lemma ValidateResult_no_panic [panic_intros]:
  "(\<And>d. no_panic (decode d)) \<Longrightarrow> no_panic (ValidateResult nfc decode data m)"
  unfolding ValidateResult_def by (intro panic_intros) simp_all

lemma evidence_no_panic [panic_intros]:
  assumes "\<And>d. no_panic (decode d)" "\<And>r. no_panic (marshal r)"
  shows "no_panic (ValidateRunMeasurementEvidence nfc marshal decode run m)"
  unfolding ValidateRunMeasurementEvidence_def using assms
  by (cases "Run_ValidatorResult run") (auto split: prod.split intro!: panic_intros)

text \<open>The timing summary of a valid measured run, once its evidence has been accepted.\<close>

lemma run_summary_ok:
  assumes "faithful_codec marshal decode runs" "run \<in> set runs" "Run_Outcome run = ''valid''"
    "Manifest_APIVersion m = ManifestV2" "measured_manifest m"
    "ValidateRunMeasurementEvidence nfc marshal decode run m = Inr ()"
  obtains sm lo hi where "run_summary run = Inr sm" "ratio_of (Summary_LowerRatio sm) = Inr lo"
    "ratio_of (Summary_UpperRatio sm) = Inr hi" "0 < lo" "lo \<le> hi"
proof -
  have o: "Run_Outcome run \<in> {''valid'', ''hard_gate_failed'', ''measurement_inconclusive''}" using assms(3) by simp
  obtain vr data result where v: "Run_ValidatorResult run = Some vr" "marshal vr = Inr data"
    "ValidateResult nfc decode data m = Inr (result, Run_ScoreTicks run)"
    by (rule evidence_Inr [OF assms(6,4) o])
  have r: "result = vr" using assms(1,2) v(1,2) ValidateResult_Inr(1) [OF v(3)] by (auto simp: faithful_codec_def)
  obtain timing policy where t: "Result_Timing vr = Some timing"
    "ValidateTimingEvidence nfc timing policy = Inr (Evidence_Summary timing)"
    using check_timing_Inr [OF ValidateResult_Inr(3) [OF v(3)] assms(5)] r by metis
  have s: "SummarizeTimings nfc (Evidence_Trials timing) policy = Inr (Evidence_Summary timing)"
    using t(2) by (auto simp: ValidateTimingEvidence_def res_simps)
  obtain lo md hi where "MeasurementNumber (Summary_LowerRatio (Evidence_Summary timing)) ''rational'' = Inr lo"
    "MeasurementNumber (Summary_UpperRatio (Evidence_Summary timing)) ''rational'' = Inr hi" "0 < lo" "lo \<le> md" "md \<le> hi"
    using summary_interval [OF s] by blast
  then show ?thesis
    using that [of "Evidence_Summary timing" lo hi] v(1) t(1) by (simp add: run_summary_def ratio_of_def)
qed

lemma run_scores_parse:
  assumes "Run_Outcome run = ''valid''" "Manifest_APIVersion m = ManifestV2"
    "ValidateRunMeasurementEvidence nfc marshal decode run m = Inr ()"
  obtains k where "ParseTicks (Run_ScoreTicks run) = Inr k"
proof -
  have o: "Run_Outcome run \<in> {''valid'', ''hard_gate_failed'', ''measurement_inconclusive''}" using assms(1) by simp
  obtain vr data result where "Run_ValidatorResult run = Some vr"
    "ValidateResult nfc decode data m = Inr (result, Run_ScoreTicks run)"
    by (rule evidence_Inr [OF assms(3,2) o])
  note t = ValidateResult_Inr(6) [OF this(2)]
  have n: "\<exists>k. ParseTicks t = Inr k" if "normalizeRationalScore x mm = Inr t" for x mm t
    using that by (auto simp: normalizeRationalScore_def Let_def res_simps)
  have p: "\<exists>x. normalizeRationalScore x mm = Inr t" if "primary_ticks v mm ds = Inr t" for v mm ds t
    using that by (induction ds) (auto simp: res_simps split: if_splits)
  have "\<exists>x. normalizeRationalScore x (Manifest_Metric m) = Inr (Run_ScoreTicks run)"
  proof (cases "Manifest_Evaluation m")
    case None
    then show ?thesis using t by (auto simp: result_ticks_def NormalizeScore_def res_simps)
  next
    case (Some e)
    then obtain v where "primary_ticks v (Manifest_Metric m) (Evaluation_Measurements e) = Inr (Run_ScoreTicks run)"
      using t by (auto simp: result_ticks_def Let_def res_simps)
    then show ?thesis by (rule p)
  qed
  then show ?thesis using n that by blast
qed

lemma primary_ticks_unique:
  assumes "distinct (map MeasDef_Name ds)" "d \<in> set ds" "MeasDef_Name d = Metric_Name m"
  shows "primary_ticks v m ds = res_bind (MeasurementNumber v (MeasDef_Type d)) (\<lambda>x. normalizeRationalScore x m)"
  using assms by (induction ds) (auto simp: image_iff)

lemma gate_keys:
  assumes "ValidateManifest nfc parse_url m = Inr ()" "ValidateResult nfc decode data m = Inr (r, ticks)"
    "gomap_ok (Result_Gates r)"
  shows "fst ` set (Result_Gates r) = set (Manifest_HardGates m)"
  using gomap_keys_exact [OF assms(3) _ accepted_gates [OF assms(1)] ValidateResult_Inr(5) [OF assms(2)]]
    ValidateResult_Inr(4) [OF assms(2)] by (simp add: len_def)

lemma result_primary:
  assumes "ValidateManifest nfc parse_url m = Inr ()" "ValidateResult nfc decode data m = Inr (r, ticks)"
    "Manifest_Evaluation m = Some e"
  obtains d x where "filter is_primary (Evaluation_Measurements e) = [d]"
    "lookup (Result_Measurements r) (MeasDef_Name d) = Some (Result_Score r)"
    "MeasurementNumber (Result_Score r) (MeasDef_Type d) = Inr x"
    "normalizeRationalScore x (Manifest_Metric m) = Inr ticks"
proof -
  note ev = accepted_evaluation(1) [OF assms(1,3)]
  obtain d where d: "filter is_primary (Evaluation_Measurements e) = [d]" "MeasDef_Name d = Metric_Name (Manifest_Metric m)"
    using single_primary [OF ev] by blast
  have "d \<in> set (filter is_primary (Evaluation_Measurements e))" using d(1) by simp
  then have din: "d \<in> set (Evaluation_Measurements e)" by simp
  have vm: "ValidateMeasurements (Result_Measurements r) e = Inr ()"
    using ValidateResult_Inr(2) [OF assms(2)] accepted_evaluation(2) [OF assms(1,3)] assms(3)
    by (simp add: check_comparison_def res_simps)
  obtain v y where v: "lookup (Result_Measurements r) (MeasDef_Name d) = Some v" "MeasurementNumber v (MeasDef_Type d) = Inr y"
    by (rule measured_value [OF vm din])
  have s: "Result_Score r = v" "primary_ticks v (Manifest_Metric m) (Evaluation_Measurements e) = Inr ticks"
    using ValidateResult_Inr(6) [OF assms(2)] assms(3) v(1) d(2) by (auto simp: result_ticks_def Let_def res_simps)
  have "normalizeRationalScore y (Manifest_Metric m) = Inr ticks"
    using s(2) primary_ticks_unique [OF names_distinct [OF ev] din d(2)] v(2) by simp
  then show ?thesis using that d v s by simp
qed

lemma outcome_valid_gates:
  assumes "ValidatorOutcome r = ''valid''" "lookup (Result_Gates r) g = Some v"
  shows "v"
proof -
  have "\<not> list_ex (\<lambda>(_, pass). \<not> pass) (Result_Gates r)" using assms(1) by (auto simp: ValidatorOutcome_def)
  then show ?thesis using map_of_SomeD [OF assms(2)] by (auto simp: list_ex_iff)
qed

section \<open>A concrete run\<close>

definition demo_summary :: TimingSummary where
  "demo_summary = \<lparr>Summary_MedianRatio = ''301/250'', Summary_LowerRatio = ''1201/1000'',
     Summary_UpperRatio = ''1207/1000'', Summary_ConfidencePPM = 950000, Summary_AcceptedTrials = 9,
     Summary_Outcome = ''valid'', Summary_PracticalGain = True\<rparr>"

definition demo_timing :: TimingEvidence where
  "demo_timing = \<lparr>Evidence_BaselineDigest = Policy_BaselineDigest demo_policy,
     Evidence_Warmups = [\<lparr>Trial_BaselineNanos = 1, Trial_CandidateNanos = 1, Trial_BaselineFirst = True, Trial_QualityPassed = True\<rparr>],
     Evidence_Trials = demo_trials, Evidence_Summary = demo_summary\<rparr>"

definition demo_result :: ValidatorResult where
  "demo_result = \<lparr>Result_Timing = Some demo_timing, Result_ComparisonID = ''cmp'',
     Result_Measurements = [(''speedup'', ''1201/1000'')], Result_APIVersion = ManifestV2,
     Result_Kind = ''ValidatorResult'', Result_Score = ''1201/1000'', Result_Gates = [(''g'', True)]\<rparr>"

definition demo_run :: "string \<Rightarrow> RunReceipt" where
  "demo_run job = \<lparr>Run_ValidatorResult = Some demo_result, Run_ParentJobDigest = [], Run_VerificationPolicy = [],
     Run_AcceptanceReceiptDigest = [], Run_DeploymentMode = [], Run_OfficialAcceptance = False, Run_APIVersion = [],
     Run_Kind = [], Run_ID = [], Run_CreatedAt = 1, Run_Producer = [], Run_JobID = job, Run_JobDigest = [],
     Run_ChallengeLockDigest = [], Run_ArtifactDigest = [], Run_SuiteDigest = [], Run_ExecutionProfileDigest = [],
     Run_RunnerEpoch = [], Run_FencingToken = 0, Run_HostID = [], Run_HostGroup = [], Run_Official = True,
     Run_Outcome = ''valid'', Run_ScoreTicks = ''1201'', Run_Gates = [(''g'', True)], Run_DurationMillis = 1,
     Run_CleanupAttested = True, Run_BuildReport = None\<rparr>"

text \<open>A codec for one result: it writes a fixed text and reads it back.\<close>

definition demo_marshal :: result_marshal where
  "demo_marshal r = Inr ''{}''"

definition demo_decode :: result_decoder where
  "demo_decode d = (if d = ''{}'' then Inr demo_result else Inl (Err ''syntax''))"

lemma demo_codec: "faithful_codec demo_marshal demo_decode [demo_run i, demo_run j]"
  by (auto simp: faithful_codec_def demo_marshal_def demo_decode_def demo_run_def)

lemma demo_manifest_v2: "Manifest_APIVersion demo_manifest = ManifestV2" "Manifest_Evaluation demo_manifest = Some demo_evaluation"
  "Manifest_HardGates demo_manifest = [''g'']"
  by (simp_all add: demo_manifest_def)

lemma demo_result_valid: "ValidateResult (\<lambda>_. True) demo_decode ''{}'' demo_manifest = Inr (demo_result, ''1201'')"
proof -
  have "case ValidateResult (\<lambda>_. True) demo_decode ''{}'' demo_manifest of Inl _ \<Rightarrow> False | Inr (_, t) \<Rightarrow> t = ''1201''"
    by code_simp
  then obtain r where r: "ValidateResult (\<lambda>_. True) demo_decode ''{}'' demo_manifest = Inr (r, ''1201'')"
    by (auto split: sum.splits)
  have "r = demo_result" using ValidateResult_Inr(1) [OF r] by (simp add: demo_decode_def)
  with r show ?thesis by simp
qed

lemma demo_evidence: "ValidateRunMeasurementEvidence (\<lambda>_. True) demo_marshal demo_decode (demo_run j) demo_manifest = Inr ()"
proof -
  have v: "Run_ValidatorResult (demo_run j) = Some demo_result" "Run_Outcome (demo_run j) = ''valid''"
    "Run_ScoreTicks (demo_run j) = ''1201''" "Run_Gates (demo_run j) = [(''g'', True)]"
    "Result_Gates demo_result = [(''g'', True)]" by (simp_all add: demo_run_def demo_result_def)
  have "ValidatorOutcome demo_result = ''valid''" by code_simp
  then show ?thesis
    by (simp add: ValidateRunMeasurementEvidence_def demo_manifest_v2 v demo_marshal_def demo_result_valid)
qed

section \<open>Properties\<close>

text \<open>C19: an accepted result answers exactly the gates of the manifest, and its score is not an independent
  assertion: it is the text of the primary measurement, and the ticks are the rounding of that exact
  number.  With a timing policy the score is the lower confidence bound recomputed from the raw trials.\<close>

theorem ValidateResult_authoritative:
  assumes "ValidateManifest nfc parse_url m = Inr ()" "ValidateResult nfc decode data m = Inr (r, ticks)"
    "gomap_ok (Result_Gates r)" "Manifest_Evaluation m = Some e"
  shows "fst ` set (Result_Gates r) = set (Manifest_HardGates m) \<and>
    (\<exists>d x. filter is_primary (Evaluation_Measurements e) = [d] \<and>
      lookup (Result_Measurements r) (MeasDef_Name d) = Some (Result_Score r) \<and>
      MeasurementNumber (Result_Score r) (MeasDef_Type d) = Inr x \<and>
      normalizeRationalScore x (Manifest_Metric m) = Inr ticks) \<and>
    (Evaluation_Mode e = ''performance'' \<longrightarrow> (\<exists>timing policy. Result_Timing r = Some timing \<and>
      Evaluation_Measurement e = Some policy \<and>
      SummarizeTimings nfc (Evidence_Trials timing) policy = Inr (Evidence_Summary timing) \<and>
      Result_Score r = Summary_LowerRatio (Evidence_Summary timing)))"
proof (intro conjI impI)
  show "fst ` set (Result_Gates r) = set (Manifest_HardGates m)" by (rule gate_keys [OF assms(1-3)])
  show "\<exists>d x. filter is_primary (Evaluation_Measurements e) = [d] \<and>
      lookup (Result_Measurements r) (MeasDef_Name d) = Some (Result_Score r) \<and>
      MeasurementNumber (Result_Score r) (MeasDef_Type d) = Inr x \<and>
      normalizeRationalScore x (Manifest_Metric m) = Inr ticks"
    by (rule result_primary [OF assms(1,2,4)]) blast
  assume "Evaluation_Mode e = ''performance''"
  then have mm: "measured_manifest m" using assms(4) by (simp add: measured_manifest_def)
  obtain e' timing policy where t: "Manifest_Evaluation m = Some e'" "Result_Timing r = Some timing"
    "Evaluation_Measurement e' = Some policy"
    "ValidateTimingEvidence nfc timing policy = Inr (Evidence_Summary timing)"
    "Result_Score r = Summary_LowerRatio (Evidence_Summary timing)"
    by (rule check_timing_Inr [OF ValidateResult_Inr(3) [OF assms(2)] mm])
  then show "\<exists>timing policy. Result_Timing r = Some timing \<and> Evaluation_Measurement e = Some policy \<and>
      SummarizeTimings nfc (Evidence_Trials timing) policy = Inr (Evidence_Summary timing) \<and>
      Result_Score r = Summary_LowerRatio (Evidence_Summary timing)"
    using assms(4) by (auto simp: ValidateTimingEvidence_def res_simps)
qed

theorem ValidateResult_authoritative_witness:
  "\<exists>timing. Result_Timing demo_result = Some timing \<and> Result_Score demo_result = Summary_LowerRatio (Evidence_Summary timing)"
proof -
  have "gomap_ok (Result_Gates demo_result)" "Evaluation_Mode demo_evaluation = ''performance''" by code_simp+
  then show ?thesis
    using ValidateResult_authoritative [OF demo_manifest_valid demo_result_valid _ demo_manifest_v2(2)] by blast
qed

text \<open>C19: a run receipt whose evidence is accepted for a v2 manifest and that claims the outcome \<open>valid\<close>
  passes every hard gate, and its score is the one recomputed from the embedded result.\<close>

theorem valid_run_passes_gates:
  assumes "ValidateRunMeasurementEvidence nfc marshal decode run m = Inr ()" "Manifest_APIVersion m = ManifestV2"
    "Run_Outcome run = ''valid''" "g \<in> set (Manifest_HardGates m)"
  shows "lookup (Run_Gates run) g = Some True \<and>
    (\<exists>vr data r. Run_ValidatorResult run = Some vr \<and> marshal vr = Inr data \<and>
      ValidateResult nfc decode data m = Inr (r, Run_ScoreTicks run))"
proof -
  have o: "Run_Outcome run \<in> {''valid'', ''hard_gate_failed'', ''measurement_inconclusive''}" using assms(3) by simp
  obtain vr data r where v: "Run_ValidatorResult run = Some vr" "marshal vr = Inr data"
    "ValidateResult nfc decode data m = Inr (r, Run_ScoreTicks run)" "len (Result_Gates r) = len (Run_Gates run)"
    "\<forall>(name, v)\<in>set (Result_Gates r). lookup (Run_Gates run) name = Some v" "ValidatorOutcome r = Run_Outcome run"
    by (rule evidence_Inr [OF assms(1,2) o])
  obtain w where w: "lookup (Result_Gates r) g = Some w" using ValidateResult_Inr(5) [OF v(3)] assms(4) by blast
  have "ValidatorOutcome r = ''valid''" using v(6) assms(3) by simp
  then have "w" using w by (rule outcome_valid_gates)
  moreover have "lookup (Run_Gates run) g = Some w" using v(5) map_of_SomeD [OF w] by auto
  ultimately show ?thesis using v(1-3) by simp
qed

theorem valid_run_passes_gates_witness: "lookup (Run_Gates (demo_run ''j'')) ''g'' = Some True"
proof -
  have "Run_Outcome (demo_run ''j'') = ''valid''" "''g'' \<in> set (Manifest_HardGates demo_manifest)"
    by (simp_all add: demo_run_def demo_manifest_v2)
  then show ?thesis using valid_run_passes_gates [OF demo_evidence demo_manifest_v2(1)] by blast
qed

text \<open>Confirmation of a measured result never panics, neither on a missing result or timing record nor
  on the ignored errors of the number parser: the evidence check has established all of them.\<close>

theorem ConfirmMeasuredRuns_no_panic:
  assumes "faithful_codec marshal decode [a, b]"
  shows "no_panic (ConfirmMeasuredRuns nfc marshal decode a b m)"
proof (cases "Manifest_APIVersion m = ManifestV2 \<and> measured_manifest m \<and> Run_Outcome a = ''valid'' \<and> Run_Outcome b = ''valid''
    \<and> ValidateRunMeasurementEvidence nfc marshal decode a m = Inr () \<and> ValidateRunMeasurementEvidence nfc marshal decode b m = Inr ()")
  case True
  obtain x xl xu where x: "run_summary a = Inr x" "ratio_of (Summary_LowerRatio x) = Inr xl" "ratio_of (Summary_UpperRatio x) = Inr xu"
    by (rule run_summary_ok [OF assms, of a m nfc]) (use True in auto)
  obtain y yl yu where y: "run_summary b = Inr y" "ratio_of (Summary_LowerRatio y) = Inr yl" "ratio_of (Summary_UpperRatio y) = Inr yu"
    by (rule run_summary_ok [OF assms, of b m nfc]) (use True in auto)
  show ?thesis
    unfolding ConfirmMeasuredRuns_def by (simp add: True x y Let_def fail_if_def)
next
  case False
  have codec: "\<And>d. no_panic (decode d)" "\<And>r. no_panic (marshal r)" using assms by (simp_all add: faithful_codec_def)
  show ?thesis
    using False unfolding ConfirmMeasuredRuns_def
    by (intro panic_intros codec) (auto simp: measured_manifest_def res_simps split: option.splits)
qed

theorem ConfirmMeasuredRuns_no_panic_witness:
  "no_panic (ConfirmMeasuredRuns (\<lambda>_. True) demo_marshal demo_decode (demo_run ''i'') (demo_run ''j'') demo_manifest)"
  by (rule ConfirmMeasuredRuns_no_panic [OF demo_codec])

text \<open>A confirmed measured score is the worse of the two, and it is confirmed only when the exact
  confidence intervals of the two runs overlap.\<close>

theorem ConfirmMeasuredRuns_conservative:
  assumes "ConfirmMeasuredRuns nfc marshal decode a b m = Inr t"
  shows "\<exists>x y xl xu yl yu ka kb. run_summary a = Inr x \<and> run_summary b = Inr y \<and>
    ratio_of (Summary_LowerRatio x) = Inr xl \<and> ratio_of (Summary_UpperRatio x) = Inr xu \<and>
    ratio_of (Summary_LowerRatio y) = Inr yl \<and> ratio_of (Summary_UpperRatio y) = Inr yu \<and>
    xl \<le> yu \<and> yl \<le> xu \<and> ParseTicks (Run_ScoreTicks a) = Inr ka \<and> ParseTicks (Run_ScoreTicks b) = Inr kb \<and>
    ParseTicks t = Inr (min ka kb)"
proof -
  have c: "Manifest_APIVersion m = ManifestV2" "Run_Outcome a = ''valid''" "Run_Outcome b = ''valid''"
    "ValidateRunMeasurementEvidence nfc marshal decode a m = Inr ()" "ValidateRunMeasurementEvidence nfc marshal decode b m = Inr ()"
    using assms by (auto simp: ConfirmMeasuredRuns_def res_simps split: if_splits)
  obtain ka where ka: "ParseTicks (Run_ScoreTicks a) = Inr ka" by (rule run_scores_parse [OF c(2,1,4)])
  obtain kb where kb: "ParseTicks (Run_ScoreTicks b) = Inr kb" by (rule run_scores_parse [OF c(3,1,5)])
  have cmp: "CompareTicks (Run_ScoreTicks a) (Run_ScoreTicks b) = Inr (big_cmp ka kb)"
    by (simp add: CompareTicks_def ka kb)
  have t: "t = (if ka < kb then Run_ScoreTicks a else Run_ScoreTicks b)"
    using assms by (auto simp: ConfirmMeasuredRuns_def res_simps Let_def cmp split: if_splits)
  obtain x y xl xu yl yu where "run_summary a = Inr x" "run_summary b = Inr y"
    "ratio_of (Summary_LowerRatio x) = Inr xl" "ratio_of (Summary_UpperRatio x) = Inr xu"
    "ratio_of (Summary_LowerRatio y) = Inr yl" "ratio_of (Summary_UpperRatio y) = Inr yu" "xl \<le> yu" "yl \<le> xu"
    using assms by (auto simp: ConfirmMeasuredRuns_def res_simps not_less split: if_splits)
  moreover have "ParseTicks t = Inr (min ka kb)" using ka kb by (simp add: t)
  ultimately show ?thesis using ka kb by blast
qed

theorem ConfirmMeasuredRuns_conservative_witness:
  "\<exists>t k. ConfirmMeasuredRuns (\<lambda>_. True) demo_marshal demo_decode (demo_run ''i'') (demo_run ''j'') demo_manifest = Inr t \<and>
    ParseTicks t = Inr k"
proof -
  have "is_ok (ConfirmMeasuredRuns (\<lambda>_. True) demo_marshal demo_decode (demo_run ''i'') (demo_run ''j'') demo_manifest)"
    by code_simp
  then show ?thesis using ConfirmMeasuredRuns_conservative by (metis is_ok_iff)
qed

text \<open>C20: a milestone with predicates is confirmed only by two different runs, both valid with accepted
  evidence, on each of which every predicate holds of the exact measured values.\<close>

theorem ConfirmedAchievement_sound:
  assumes "ValidateManifest nfc parse_url m = Inr ()" "milestone \<in> set (Manifest_Milestones m)"
    "ConfirmedAchievement nfc marshal decode m milestone runs = Inr True" "Milestone_Requires milestone \<noteq> []"
  shows "\<exists>e a b. Manifest_Evaluation m = Some e \<and> runs = [a, b] \<and> Run_JobID a \<noteq> Run_JobID b \<and>
    (\<forall>run\<in>set runs. Run_Outcome run = ''valid'' \<and>
      ValidateRunMeasurementEvidence nfc marshal decode run m = Inr () \<and>
      (\<exists>vr. Run_ValidatorResult run = Some vr \<and>
        list_all (predicate_holds (Result_Measurements vr) e) (Milestone_Requires milestone)))"
proof -
  obtain e a b where e: "Manifest_Evaluation m = Some e" and r: "runs = [a, b]" "Run_JobID a \<noteq> Run_JobID b"
    and ach: "achieved_by (\<lambda>run. ValidateRunMeasurementEvidence nfc marshal decode run m)
      (Milestone_Requires milestone) e runs = Inr True"
    using assms(3,4) by (auto simp: ConfirmedAchievement_def len_def res_simps length_Suc_conv numeral_2_eq_2
        split: option.splits)
  note dist = names_distinct [OF accepted_evaluation(1) [OF assms(1) e]]
  have step: "Run_Outcome run = ''valid'' \<and> ValidateRunMeasurementEvidence nfc marshal decode run m = Inr () \<and>
      (\<exists>vr. Run_ValidatorResult run = Some vr \<and>
        MeetsPredicates (Result_Measurements vr) (Milestone_Requires milestone) e = Inr True)"
    if "run \<in> set rs" "achieved_by (\<lambda>run. ValidateRunMeasurementEvidence nfc marshal decode run m)
      (Milestone_Requires milestone) e rs = Inr True" for run rs
    using that by (induction rs) (auto simp: res_simps split: if_splits)
  have "list_all (predicate_holds (Result_Measurements vr) e) (Milestone_Requires milestone)"
    if "MeetsPredicates (Result_Measurements vr) (Milestone_Requires milestone) e = Inr True" for vr
  proof -
    have "ValidateMeasurements (Result_Measurements vr) e = Inr ()" "ValidatePredicates (Milestone_Requires milestone) e = Inr ()"
      using that by (auto simp: MeetsPredicates_def res_simps)
    from MeetsPredicates_eq [OF this dist] that show ?thesis by simp
  qed
  then show ?thesis using e r step [OF _ ach] by blast
qed

definition demo_goal :: Milestone where
  "demo_goal = (demo_milestone ''a'' ''1100'')\<lparr>Milestone_Requires :=
     [\<lparr>Predicate_Measurement = ''speedup'', Predicate_Operator = ''ge'', Predicate_Value = ''6/5''\<rparr>]\<rparr>"

theorem ConfirmedAchievement_sound_witness:
  "\<exists>e. Manifest_Evaluation (demo_manifest\<lparr>Manifest_Milestones := [demo_goal]\<rparr>) = Some e \<and>
    list_all (predicate_holds (Result_Measurements demo_result) e) (Milestone_Requires demo_goal)"
proof -
  let ?m = "demo_manifest\<lparr>Manifest_Milestones := [demo_goal]\<rparr>"
  have "is_ok (ValidateManifest (\<lambda>_. True) demo_url ?m)" by code_simp
  then have v: "ValidateManifest (\<lambda>_. True) demo_url ?m = Inr ()" by (auto simp: is_ok_iff)
  have "case ConfirmedAchievement (\<lambda>_. True) demo_marshal demo_decode ?m demo_goal [demo_run ''i'', demo_run ''j''] of
      Inl _ \<Rightarrow> False | Inr b \<Rightarrow> b" by code_simp
  then have c: "ConfirmedAchievement (\<lambda>_. True) demo_marshal demo_decode ?m demo_goal [demo_run ''i'', demo_run ''j''] = Inr True"
    by (auto split: sum.splits)
  have "demo_goal \<in> set (Manifest_Milestones ?m)" "Milestone_Requires demo_goal \<noteq> []"
    by (simp_all add: demo_goal_def)
  from ConfirmedAchievement_sound [OF v this(1) c this(2)] show ?thesis
    by (auto simp: demo_run_def)
qed

end
