(* ===== verification/Frontier.thy ===== *)
theory Frontier
  imports Results
begin

text \<open>
  Frontier claims (\<open>pkg/protocol/frontier_claim.go\<close>): the admission mode of a manifest, the comparison
  with the public frontier, and the validation of a claim that was produced locally and is not trusted.
\<close>

definition AdmissionMode :: "Manifest \<Rightarrow> string" where
  "AdmissionMode m =
     (if Suite_Visibility (Manifest_Suite m) = ''hidden'' \<or> measured_manifest m then ''qualification'' else ''frontier'')"

definition FrontierImprovement :: "string \<Rightarrow> string \<Rightarrow> Metric \<Rightarrow> bool" where
  "FrontierImprovement score prior m =
     (case ParseTicks score of Inl _ \<Rightarrow> False | Inr x \<Rightarrow>
      (case ParseTicks prior of Inl _ \<Rightarrow> False | Inr y \<Rightarrow>
       (case ParseTicks (Metric_MinimumDeltaTicks m) of Inl _ \<Rightarrow> False | Inr d \<Rightarrow>
        if d \<le> 0 then False
        else if Metric_Direction m = ''minimize'' then - (x - y) \<ge> d
        else if Metric_Direction m \<noteq> ''maximize'' then False
        else x - y \<ge> d)))"

definition check_estimate :: "int \<Rightarrow> string \<times> bool \<Rightarrow> unit res" where
  "check_estimate x = (\<lambda>(v, is_min).
     if v = [] then Inr () else
     res_bind (or_else (ParseTicks v) (Err ''estimate outside metric domain'')) (\<lambda>b.
     fail_if (is_min \<and> x < b \<or> \<not> is_min \<and> x > b) ''estimate outside metric domain'' (Inr ())))"

definition validate_qualification :: "FrontierClaim \<Rightarrow> Metric \<Rightarrow> string res" where
  "validate_qualification c m =
     (case Claim_Qualification c of
        None \<Rightarrow> Inl (Err ''successful local qualification, report digest and measurement rationale required'')
      | Some q \<Rightarrow>
        fail_if (Claim_Result c \<noteq> None \<or> \<not> Qualification_ChecksPassed q \<or> \<not> ValidDigest (Qualification_ReportDigest q)
            \<or> len (Qualification_Reason q) < 20 \<or> len (Qualification_Reason q) > 2000)
          ''successful local qualification, report digest and measurement rationale required''
        (res_bind (ParseTicks (Qualification_EstimatedScoreTicks q)) (\<lambda>x.
         res_bind (res_each (check_estimate x) [(Metric_DomainMinTicks m, True), (Metric_DomainMaxTicks m, False)]) (\<lambda>_.
         Inr (Qualification_EstimatedScoreTicks q)))))"

definition FrontierClaim_Validate ::
    "(string \<Rightarrow> bool) \<Rightarrow> result_marshal \<Rightarrow> result_decoder \<Rightarrow> FrontierClaim \<Rightarrow> Manifest \<Rightarrow> string res" where
  "FrontierClaim_Validate nfc marshal decode c m =
     fail_if (Claim_APIVersion c \<noteq> FrontierClaimVersion \<or> Claim_VersionID c = [] \<or> \<not> ValidDigest (Claim_LockDigest c)
         \<or> \<not> ValidDigest (Claim_ArtifactDigest c) \<or> Claim_Mode c \<noteq> AdmissionMode m)
       ''claim version, digests or admission mode invalid''
     (if Claim_Mode c = ''qualification'' then validate_qualification c (Manifest_Metric m)
      else case Claim_Result c of
        None \<Rightarrow> Inl (Err ''local validator result required'')
      | Some vr \<Rightarrow>
        fail_if (Claim_Qualification c \<noteq> None) ''local validator result required''
        (res_bind (marshal vr) (\<lambda>data.
         res_bind (ValidateResult nfc decode data m) (\<lambda>(r, ticks).
         fail_if (ValidatorOutcome r \<noteq> ''valid'') ''all local correctness gates must pass'' (Inr ticks)))))"

definition AdmissionFrontier :: "Metric \<Rightarrow> string \<Rightarrow> string" where
  "AdmissionFrontier m public =
     (case ParseTicks public of Inl _ \<Rightarrow> Metric_BaselineTicks m | Inr a \<Rightarrow>
      (case ParseTicks (Metric_BaselineTicks m) of Inl _ \<Rightarrow> [] | Inr b \<Rightarrow>
       if Metric_Direction m = ''maximize'' \<and> a - b > 0 \<or> Metric_Direction m = ''minimize'' \<and> a - b < 0
       then public else Metric_BaselineTicks m))"

section \<open>Lemmas\<close>

lemma FrontierImprovement_iff:
  "FrontierImprovement score prior m \<longleftrightarrow> (\<exists>x y d. ParseTicks score = Inr x \<and> ParseTicks prior = Inr y \<and>
     ParseTicks (Metric_MinimumDeltaTicks m) = Inr d \<and> 0 < d \<and>
     (Metric_Direction m = ''maximize'' \<or> Metric_Direction m = ''minimize'') \<and>
     d \<le> signed_delta (Metric_Direction m) (x - y))"
  by (auto simp: FrontierImprovement_def signed_delta_def split: sum.splits)

lemma FrontierImprovement_trans:
  assumes "FrontierImprovement a b m" "FrontierImprovement b c m"
  shows "FrontierImprovement a c m"
  using assms by (auto simp: FrontierImprovement_iff signed_delta_def split: if_splits)

lemma FrontierImprovement_asym: "FrontierImprovement a b m \<Longrightarrow> \<not> FrontierImprovement b a m"
  by (auto simp: FrontierImprovement_iff signed_delta_def split: if_splits)

text \<open>The frontier used for admission is at least as good as the baseline and as the public frontier.\<close>

lemma AdmissionFrontier_improved:
  assumes "FrontierImprovement ticks (AdmissionFrontier m public) m"
  shows "FrontierImprovement ticks (Metric_BaselineTicks m) m \<and>
    (is_ok (ParseTicks public) \<longrightarrow> FrontierImprovement ticks public m)"
proof (cases "ParseTicks public")
  case (Inl e)
  then show ?thesis using assms by (simp add: AdmissionFrontier_def)
next
  case pub: (Inr a)
  obtain x y d where f: "ParseTicks ticks = Inr x" "ParseTicks (AdmissionFrontier m public) = Inr y"
    "ParseTicks (Metric_MinimumDeltaTicks m) = Inr d" "0 < d"
    "Metric_Direction m = ''maximize'' \<or> Metric_Direction m = ''minimize''"
    "d \<le> signed_delta (Metric_Direction m) (x - y)"
    using assms by (auto simp: FrontierImprovement_iff)
  have "\<not> ParseTicks [] = Inr y" using not_sym [OF show_nat_nonempty [of y]] by (simp add: ParseTicks_iff show_int_def)
  then obtain b where b: "ParseTicks (Metric_BaselineTicks m) = Inr b"
    using f(2) pub by (auto simp: AdmissionFrontier_def split: sum.splits)
  have "d \<le> signed_delta (Metric_Direction m) (x - b)" "d \<le> signed_delta (Metric_Direction m) (x - a)"
    using f(2,5,6) pub b by (auto simp: AdmissionFrontier_def signed_delta_def split: if_splits)
  then show ?thesis using f b pub by (auto simp: FrontierImprovement_iff)
qed

section \<open>Properties\<close>

text \<open>Admission compares against a frontier that never falls below the frozen baseline: a score that
  improves meaningfully on it improves meaningfully on the baseline and on the published frontier, and
  improvement is a strict partial order, so two scores never both improve on each other.\<close>

theorem AdmissionFrontier_sound:
  assumes "FrontierImprovement ticks (AdmissionFrontier m public) m"
  shows "FrontierImprovement ticks (Metric_BaselineTicks m) m \<and>
    (is_ok (ParseTicks public) \<longrightarrow> FrontierImprovement ticks public m) \<and>
    \<not> FrontierImprovement (AdmissionFrontier m public) ticks m"
  using AdmissionFrontier_improved [OF assms] FrontierImprovement_asym [OF assms] by blast

theorem AdmissionFrontier_sound_witness:
  "FrontierImprovement ''1250'' ''1000'' demo_speedup \<and> FrontierImprovement ''1250'' ''1100'' demo_speedup"
proof -
  have "FrontierImprovement ''1250'' (AdmissionFrontier demo_speedup ''1100'') demo_speedup"
    "is_ok (ParseTicks ''1100'')" by code_simp+
  then show ?thesis using AdmissionFrontier_sound [of "''1250''" demo_speedup "''1100''"]
    by (simp add: demo_speedup_def)
qed

end
