(* ===== verification/Admission.thy ===== *)
theory Admission
  imports Frontier Transition
begin

text \<open>
  Admission to verification (\<open>internal/platform/frontier_admission.go\<close>, \<open>admission.go\<close>, the regular
  expressions of \<open>github.go\<close>, and \<open>mutate\<close> of \<open>server.go\<close>).

  The database tables that the handlers read and write are lists of rows; each SQL statement of the
  source is the corresponding operation on them.  A handler runs in one transaction: on an error the
  transaction is rolled back, so the caller keeps the old state.  \<open>now\<close> is the timestamp of the
  transaction; timestamps of successive transactions are arbitrary, since PostgreSQL fixes \<open>now()\<close> when a
  transaction starts and not when it obtains the lock.  Two claims stored as \<open>jsonb\<close> are equal when they
  are equal as values.
\<close>

definition http_fail :: "string \<Rightarrow> 'a res" where
  "http_fail kind = Inl (Errf kind [])"

section \<open>Requests\<close>

definition repo_char :: "char \<Rightarrow> bool" where
  "repo_char c = (alnum c \<or> c = CHR ''_'' \<or> c = CHR ''.'' \<or> c = CHR ''-'')"

definition repoRE :: "string \<Rightarrow> bool" where
  "repoRE s = (case split_on CHR ''/'' s of
     [a, b] \<Rightarrow> a \<noteq> [] \<and> b \<noteq> [] \<and> list_all repo_char a \<and> list_all repo_char b | _ \<Rightarrow> False)"

definition commitRE :: "string \<Rightarrow> bool" where
  "commitRE s = (len s = 40 \<and> list_all (\<lambda>c. is_digit c \<or> 97 \<le> code c \<and> code c \<le> 102) s)"

definition idemRE :: "string \<Rightarrow> bool" where
  "idemRE s = (8 \<le> len s \<and> len s \<le> 128 \<and> list_all (\<lambda>c. repo_char c \<or> c = CHR '':'') s)"

record claimRequest =
  ClaimReq_Repository :: string
  ClaimReq_Ref :: string
  ClaimReq_Claim :: FrontierClaim

record IntentRequest =
  Intent_AdmissionTicket :: string
  Intent_VersionID :: string
  Intent_Repository :: string
  Intent_Ref :: string
  Intent_PreviewDigest :: string
  Intent_ParentFrontierDigest :: string
  Intent_License :: string
  Intent_Attribution :: "(string, json) gomap option"
  Intent_Publish :: bool

section \<open>The tables\<close>

record version_row =
  Version_ID :: string
  Version_Manifest :: "Manifest res"
  Version_LockDigest :: string
  Version_Public :: string
  Version_IntakeStatus :: string
  Version_Deadline :: go_time
  Version_Status :: string

record ticket =
  Ticket_ID :: string
  Ticket_Owner :: string
  Ticket_Version :: string
  Ticket_Repository :: string
  Ticket_Ref :: string
  Ticket_Artifact :: string
  Ticket_Claim :: FrontierClaim
  Ticket_Frontier :: string
  Ticket_Created :: go_time
  Ticket_Expires :: go_time
  Ticket_Consumed :: "go_time option"
  Ticket_Intent :: "string option"

record admission_db =
  DB_Versions :: "version_row list"
  DB_Submissions :: "(string \<times> string) list"
  DB_Tickets :: "ticket list"

record frontierPolicy =
  FPolicy_Manifest :: Manifest
  FPolicy_LockDigest :: string
  FPolicy_FrontierTicks :: string
  FPolicy_Mode :: string

record ticket_response =
  Resp_Status :: int
  Resp_TicketID :: string
  Resp_Expires :: go_time
  Resp_Mode :: string
  Resp_ResumeOnly :: bool

text \<open>The codec and the other code outside the handlers, bundled.\<close>

record claim_env =
  Env_NFC :: "string \<Rightarrow> bool"
  Env_Marshal :: result_marshal
  Env_Decode :: result_decoder

definition ticket_lifetime :: int where
  "ticket_lifetime = 15 * 60 * go_second"

definition day_window :: int where
  "day_window = 24 * 3600 * go_second"

section \<open>Policy\<close>

definition loadFrontierPolicy :: "admission_db \<Rightarrow> go_time \<Rightarrow> string \<Rightarrow> frontierPolicy res" where
  "loadFrontierPolicy db now version =
     (case find (\<lambda>v. Version_ID v = version \<and> Version_Status v = ''published'') (DB_Versions db) of
        None \<Rightarrow> Inl (Err ''no rows in result set'')
      | Some v \<Rightarrow>
        if \<not> (Version_IntakeStatus v = ''open'' \<and> Version_Deadline v > now) then http_fail ''intake_closed''
        else res_bind (Version_Manifest v) (\<lambda>m.
          Inr \<lparr>FPolicy_Manifest = m, FPolicy_LockDigest = Version_LockDigest v,
               FPolicy_FrontierTicks = AdmissionFrontier (Manifest_Metric m) (Version_Public v),
               FPolicy_Mode = AdmissionMode m\<rparr>))"

definition checkFrontierClaim :: "claim_env \<Rightarrow> FrontierClaim \<Rightarrow> frontierPolicy \<Rightarrow> unit res" where
  "checkFrontierClaim env c p =
     (if Claim_LockDigest c \<noteq> FPolicy_LockDigest p then http_fail ''claim_lock_mismatch'' else
      res_bind (or_else (FrontierClaim_Validate (Env_NFC env) (Env_Marshal env) (Env_Decode env) c (FPolicy_Manifest p))
        (Errf ''local_claim_invalid'' [])) (\<lambda>ticks.
      if \<not> FrontierImprovement ticks (FPolicy_FrontierTicks p) (Manifest_Metric (FPolicy_Manifest p))
      then http_fail ''not_frontier_potential'' else Inr ()))"

section \<open>Tickets\<close>

text \<open>\<open>ORDER BY created_at DESC LIMIT 1\<close>\<close>

definition latest :: "ticket list \<Rightarrow> ticket option" where
  "latest ts = (case ts of [] \<Rightarrow> None | t # ts \<Rightarrow>
     Some (foldl (\<lambda>a b. if Ticket_Created b > Ticket_Created a then b else a) t ts))"

definition same_claim :: "string \<Rightarrow> claimRequest \<Rightarrow> ticket \<Rightarrow> bool" where
  "same_claim owner r t = (Ticket_Owner t = owner \<and> Ticket_Version t = Claim_VersionID (ClaimReq_Claim r)
     \<and> Ticket_Repository t = ClaimReq_Repository r \<and> Ticket_Ref t = ClaimReq_Ref r
     \<and> Ticket_Claim t = ClaimReq_Claim r)"

definition recent :: "go_time \<Rightarrow> admission_db \<Rightarrow> ticket list" where
  "recent now db = filter (\<lambda>t. Ticket_Created t > now - day_window) (DB_Tickets db)"

definition live :: "go_time \<Rightarrow> ticket \<Rightarrow> bool" where
  "live now t = (Ticket_Consumed t = None \<and> Ticket_Expires t > now)"

definition tally :: "('a \<Rightarrow> bool) \<Rightarrow> 'a list \<Rightarrow> int" where
  "tally P xs = len (filter P xs)"

definition over_budget :: "go_time \<Rightarrow> string \<Rightarrow> string \<Rightarrow> admission_db \<Rightarrow> bool" where
  "over_budget now owner mode db =
     (let rows = recent now db;
          daily = tally (\<lambda>t. Ticket_Owner t = owner) rows; global = len rows;
          qualification = tally (\<lambda>t. Ticket_Owner t = owner \<and> Claim_Mode (Ticket_Claim t) = ''qualification'') rows;
          active = tally (\<lambda>t. Ticket_Owner t = owner \<and> live now t) rows
      in daily \<ge> 5 \<or> global \<ge> 100 \<or> active \<ge> 3 \<or> mode = ''qualification'' \<and> qualification \<ge> 2)"

definition new_ticket :: "go_time \<Rightarrow> string \<Rightarrow> string \<Rightarrow> claimRequest \<Rightarrow> string \<Rightarrow> ticket" where
  "new_ticket now fresh owner r frontier = \<lparr>Ticket_ID = fresh, Ticket_Owner = owner,
     Ticket_Version = Claim_VersionID (ClaimReq_Claim r), Ticket_Repository = ClaimReq_Repository r,
     Ticket_Ref = ClaimReq_Ref r, Ticket_Artifact = Claim_ArtifactDigest (ClaimReq_Claim r),
     Ticket_Claim = ClaimReq_Claim r, Ticket_Frontier = frontier, Ticket_Created = now,
     Ticket_Expires = now + ticket_lifetime, Ticket_Consumed = None, Ticket_Intent = None\<rparr>"

definition duplicate_artifact :: "string \<Rightarrow> FrontierClaim \<Rightarrow> admission_db \<Rightarrow> bool" where
  "duplicate_artifact owner c db =
     (list_ex (\<lambda>(v, a). v = Claim_VersionID c \<and> a = Claim_ArtifactDigest c) (DB_Submissions db) \<or>
      list_ex (\<lambda>t. Ticket_Owner t = owner \<and> Ticket_Version t = Claim_VersionID c
         \<and> Ticket_Artifact t = Claim_ArtifactDigest c \<and> Ticket_Consumed t \<noteq> None) (DB_Tickets db))"

text \<open>\<open>fresh\<close> is the value of \<open>ID()\<close>; a collision violates the primary key.\<close>

definition createFrontierTicket ::
    "claim_env \<Rightarrow> go_time \<Rightarrow> string \<Rightarrow> string \<Rightarrow> claimRequest \<Rightarrow> admission_db \<Rightarrow> (ticket_response \<times> admission_db) res" where
  "createFrontierTicket env now fresh owner r db =
     (let c = ClaimReq_Claim r in
      if \<not> repoRE (ClaimReq_Repository r) \<or> \<not> commitRE (ClaimReq_Ref r) then http_fail ''exact_commit_required'' else
      case latest (filter (\<lambda>t. same_claim owner r t \<and> Ticket_Consumed t \<noteq> None \<and> Ticket_Intent t \<noteq> None) (DB_Tickets db)) of
        Some t \<Rightarrow> Inr (\<lparr>Resp_Status = 200, Resp_TicketID = Ticket_ID t, Resp_Expires = Ticket_Expires t,
            Resp_Mode = Claim_Mode (Ticket_Claim t), Resp_ResumeOnly = True\<rparr>, db)
      | None \<Rightarrow>
        res_bind (loadFrontierPolicy db now (Claim_VersionID c)) (\<lambda>p.
        res_bind (checkFrontierClaim env c p) (\<lambda>_.
        if duplicate_artifact owner c db then http_fail ''artifact_duplicate'' else
        case latest (filter (\<lambda>t. same_claim owner r t \<and> live now t) (DB_Tickets db)) of
          Some t \<Rightarrow> Inr (\<lparr>Resp_Status = 200, Resp_TicketID = Ticket_ID t, Resp_Expires = Ticket_Expires t,
              Resp_Mode = FPolicy_Mode p, Resp_ResumeOnly = False\<rparr>, db)
        | None \<Rightarrow>
          if over_budget now owner (FPolicy_Mode p) db then http_fail ''frontier_admission_budget'' else
          if list_ex (\<lambda>t. Ticket_ID t = fresh) (DB_Tickets db) then Inl (Err ''duplicate key value'') else
          Inr (\<lparr>Resp_Status = 201, Resp_TicketID = fresh, Resp_Expires = now + ticket_lifetime,
              Resp_Mode = FPolicy_Mode p, Resp_ResumeOnly = False\<rparr>,
            db\<lparr>DB_Tickets := DB_Tickets db @ [new_ticket now fresh owner r (FPolicy_FrontierTicks p)]\<rparr>))))"

definition consume_row :: "go_time \<Rightarrow> string \<Rightarrow> string \<Rightarrow> string \<Rightarrow> ticket \<Rightarrow> ticket" where
  "consume_row now tid intent frontier t =
     (if Ticket_ID t = tid then t\<lparr>Ticket_Consumed := Some now, Ticket_Intent := Some intent, Ticket_Frontier := frontier\<rparr> else t)"

definition consumeFrontierTicket ::
    "claim_env \<Rightarrow> go_time \<Rightarrow> string \<Rightarrow> IntentRequest \<Rightarrow> string \<Rightarrow> admission_db \<Rightarrow> admission_db res" where
  "consumeFrontierTicket env now owner r intent db =
     (if Intent_AdmissionTicket r = [] then http_fail ''frontier_claim_required'' else
      case find (\<lambda>t. Ticket_ID t = Intent_AdmissionTicket r \<and> Ticket_Owner t = owner
          \<and> Ticket_Version t = Intent_VersionID r \<and> Ticket_Repository t = Intent_Repository r
          \<and> Ticket_Ref t = Intent_Ref r \<and> Ticket_Artifact t = Intent_PreviewDigest r \<and> live now t) (DB_Tickets db) of
        None \<Rightarrow> http_fail ''admission_ticket_invalid''
      | Some t \<Rightarrow>
        res_bind (loadFrontierPolicy db now (Intent_VersionID r)) (\<lambda>p.
        res_bind (checkFrontierClaim env (Ticket_Claim t) p) (\<lambda>_.
        if list_ex (\<lambda>t. Ticket_Intent t = Some intent) (DB_Tickets db) then Inl (Err ''duplicate key value'')
        else Inr (db\<lparr>DB_Tickets := map (consume_row now (Intent_AdmissionTicket r) intent (FPolicy_FrontierTicks p)) (DB_Tickets db)\<rparr>))))"

section \<open>Runs of the handlers\<close>

text \<open>Between two transactions the rest of the platform may change the versions and submissions in any
  way; only the two handlers touch the tickets.\<close>

inductive admission_step :: "admission_db \<Rightarrow> admission_db \<Rightarrow> bool" where
  step_create: "createFrontierTicket env now fresh owner r db = Inr (resp, db') \<Longrightarrow> admission_step db db'"
| step_consume: "consumeFrontierTicket env now owner r intent db = Inr db' \<Longrightarrow> admission_step db db'"
| step_other: "DB_Tickets db' = DB_Tickets db \<Longrightarrow> admission_step db db'"

definition admission_init :: "admission_db \<Rightarrow> bool" where
  "admission_init db = (DB_Tickets db = [])"

definition in_window :: "go_time \<Rightarrow> ticket \<Rightarrow> bool" where
  "in_window t k = (t - day_window < Ticket_Created k \<and> Ticket_Created k \<le> t)"

definition tickets_inv :: "ticket list \<Rightarrow> bool" where
  "tickets_inv ts \<longleftrightarrow>
     distinct (map Ticket_ID ts) \<and>
     (\<forall>k\<in>set ts. Ticket_Expires k = Ticket_Created k + ticket_lifetime) \<and>
     (\<forall>k\<in>set ts. \<forall>k'\<in>set ts.
       Ticket_Intent k \<noteq> None \<and> Ticket_Intent k = Ticket_Intent k' \<longrightarrow> Ticket_ID k = Ticket_ID k') \<and>
     (\<forall>t owner. tally (\<lambda>k. Ticket_Owner k = owner \<and> in_window t k) ts \<le> 5) \<and>
     (\<forall>t. tally (in_window t) ts \<le> 100) \<and>
     (\<forall>t owner. tally (\<lambda>k. Ticket_Owner k = owner \<and> Ticket_Created k \<le> t \<and> live t k) ts \<le> 3)"

definition admission_inv :: "admission_db \<Rightarrow> bool" where
  "admission_inv db = tickets_inv (DB_Tickets db)"

lemma tickets_invD:
  assumes "tickets_inv ts"
  shows "distinct (map Ticket_ID ts)" "\<forall>k\<in>set ts. Ticket_Expires k = Ticket_Created k + ticket_lifetime"
    "\<And>k k'. k \<in> set ts \<Longrightarrow> k' \<in> set ts \<Longrightarrow> Ticket_Intent k \<noteq> None \<Longrightarrow> Ticket_Intent k = Ticket_Intent k' \<Longrightarrow> Ticket_ID k = Ticket_ID k'"
    "\<And>t u. tally (\<lambda>k. Ticket_Owner k = u \<and> in_window t k) ts \<le> 5" "\<And>t. tally (in_window t) ts \<le> 100"
    "\<And>t u. tally (\<lambda>k. Ticket_Owner k = u \<and> Ticket_Created k \<le> t \<and> live t k) ts \<le> 3"
  using assms unfolding tickets_inv_def by blast+

section \<open>Counting\<close>

lemma tally_simps [simp]:
  "tally P [] = 0" "tally P (xs @ ys) = tally P xs + tally P ys" "tally P [x] = of_bool (P x)"
  by (simp_all add: tally_def len_def)

lemma tally_mono: "(\<And>x. x \<in> set xs \<Longrightarrow> P x \<Longrightarrow> Q x) \<Longrightarrow> tally P xs \<le> tally Q xs"
  by (induction xs) (auto simp: tally_def len_def)

lemma tally_map: "tally P (map f xs) = tally (\<lambda>x. P (f x)) xs"
  by (simp add: tally_def len_def filter_map comp_def)

lemma tally_filter: "tally P (filter Q xs) = tally (\<lambda>x. P x \<and> Q x) xs"
  by (simp add: tally_def conj_commute)

text \<open>One more row: the bound is kept when the row counts only if there was still room.\<close>

lemma tally_insert:
  assumes "tally P xs \<le> n" "P k \<Longrightarrow> tally P xs < n"
  shows "tally P (xs @ [k]) \<le> n"
  using assms by (cases "P k") auto

section \<open>The budgets are kept\<close>

lemma windows [simp]: "0 < ticket_lifetime" "ticket_lifetime \<le> day_window"
  by (simp_all add: ticket_lifetime_def day_window_def go_second_def)

lemma under_budget:
  assumes "\<not> over_budget now owner mode db"
  shows "tally (\<lambda>k. Ticket_Owner k = owner \<and> Ticket_Created k > now - day_window) (DB_Tickets db) < 5"
    "tally (\<lambda>k. Ticket_Created k > now - day_window) (DB_Tickets db) < 100"
    "tally (\<lambda>k. (Ticket_Owner k = owner \<and> live now k) \<and> Ticket_Created k > now - day_window) (DB_Tickets db) < 3"
  using assms by (auto simp: over_budget_def Let_def recent_def tally_filter) (simp_all add: tally_def)

lemma create_cases:
  assumes "createFrontierTicket env now fresh owner r db = Inr (resp, db')"
  shows "db' = db \<or> (\<exists>mode frontier. \<not> over_budget now owner mode db \<and> fresh \<notin> Ticket_ID ` set (DB_Tickets db) \<and>
    db' = db\<lparr>DB_Tickets := DB_Tickets db @ [new_ticket now fresh owner r frontier]\<rparr>)"
  using assms
  by (auto simp: createFrontierTicket_def Let_def http_fail_def res_simps list_ex_iff
      split: if_splits option.splits)

lemma new_ticket_simps [simp]:
  "Ticket_ID (new_ticket now fresh owner r frontier) = fresh"
  "Ticket_Owner (new_ticket now fresh owner r frontier) = owner"
  "Ticket_Created (new_ticket now fresh owner r frontier) = now"
  "Ticket_Expires (new_ticket now fresh owner r frontier) = now + ticket_lifetime"
  "Ticket_Consumed (new_ticket now fresh owner r frontier) = None"
  "Ticket_Intent (new_ticket now fresh owner r frontier) = None"
  by (simp_all add: new_ticket_def)

lemma live_recent:
  assumes "Ticket_Expires k = Ticket_Created k + ticket_lifetime" "live t k" "now \<le> t"
  shows "live now k \<and> now - day_window < Ticket_Created k"
proof -
  have "now < Ticket_Expires k" "Ticket_Consumed k = None" using assms(2,3) by (simp_all add: live_def)
  then show ?thesis unfolding live_def using assms(1) windows by linarith
qed

lemma insert_keeps_inv:
  assumes inv: "tickets_inv (DB_Tickets db)" and room: "\<not> over_budget now owner mode db" and new: "fresh \<notin> Ticket_ID ` set (DB_Tickets db)"
  shows "tickets_inv (DB_Tickets db @ [new_ticket now fresh owner r frontier])"
proof -
  let ?k = "new_ticket now fresh owner r frontier" and ?ts = "DB_Tickets db"
  note b = under_budget [OF room]
  note i = tickets_invD [OF inv]
  have "tally (\<lambda>k. Ticket_Owner k = u \<and> in_window t k) (?ts @ [?k]) \<le> 5" for t u
  proof (rule tally_insert [OF i(4)])
    assume "Ticket_Owner ?k = u \<and> in_window t ?k"
    then have "tally (\<lambda>k. Ticket_Owner k = u \<and> in_window t k) ?ts
        \<le> tally (\<lambda>k. Ticket_Owner k = owner \<and> Ticket_Created k > now - day_window) ?ts"
      by (intro tally_mono) (auto simp: in_window_def)
    with b(1) show "tally (\<lambda>k. Ticket_Owner k = u \<and> in_window t k) ?ts < 5" by simp
  qed
  moreover have "tally (in_window t) (?ts @ [?k]) \<le> 100" for t
  proof (rule tally_insert [OF i(5)])
    assume "in_window t ?k"
    then have "tally (in_window t) ?ts \<le> tally (\<lambda>k. Ticket_Created k > now - day_window) ?ts"
      by (intro tally_mono) (auto simp: in_window_def)
    with b(2) show "tally (in_window t) ?ts < 100" by simp
  qed
  moreover have "tally (\<lambda>k. Ticket_Owner k = u \<and> Ticket_Created k \<le> t \<and> live t k) (?ts @ [?k]) \<le> 3" for t u
  proof (rule tally_insert [OF i(6)])
    assume "Ticket_Owner ?k = u \<and> Ticket_Created ?k \<le> t \<and> live t ?k"
    then have "owner = u" "now \<le> t" by simp_all
    then have "tally (\<lambda>k. Ticket_Owner k = u \<and> Ticket_Created k \<le> t \<and> live t k) ?ts
        \<le> tally (\<lambda>k. (Ticket_Owner k = owner \<and> live now k) \<and> Ticket_Created k > now - day_window) ?ts"
      using i(2) live_recent [of _ t now] by (intro tally_mono) auto
    with b(3) show "tally (\<lambda>k. Ticket_Owner k = u \<and> Ticket_Created k \<le> t \<and> live t k) ?ts < 3" by simp
  qed
  moreover have "distinct (map Ticket_ID (?ts @ [?k]))"
    "\<forall>k\<in>set (?ts @ [?k]). Ticket_Expires k = Ticket_Created k + ticket_lifetime"
    using i(1,2) new by auto
  moreover have "Ticket_ID k = Ticket_ID k'" if "k \<in> set (?ts @ [?k])" "k' \<in> set (?ts @ [?k])"
    "Ticket_Intent k \<noteq> None \<and> Ticket_Intent k = Ticket_Intent k'" for k k'
  proof -
    have "k \<in> set ?ts" "k' \<in> set ?ts" using that by auto
    then show ?thesis using i(3) that(3) by blast
  qed
  ultimately show ?thesis unfolding tickets_inv_def by blast
qed

lemma consume_row_simps [simp]:
  "Ticket_ID (consume_row now tid intent frontier k) = Ticket_ID k"
  "Ticket_Owner (consume_row now tid intent frontier k) = Ticket_Owner k"
  "Ticket_Created (consume_row now tid intent frontier k) = Ticket_Created k"
  "Ticket_Expires (consume_row now tid intent frontier k) = Ticket_Expires k"
  "in_window t (consume_row now tid intent frontier k) = in_window t k"
  by (simp_all add: consume_row_def in_window_def)

lemma consume_row_live: "live t (consume_row now tid intent frontier k) \<Longrightarrow> live t k"
  by (auto simp: consume_row_def live_def split: if_splits)

lemma consume_cases:
  assumes "consumeFrontierTicket env now owner r intent db = Inr db'"
  obtains k p where "k \<in> set (DB_Tickets db)" "Ticket_ID k = Intent_AdmissionTicket r" "Ticket_Owner k = owner"
    "Ticket_Version k = Intent_VersionID r" "Ticket_Repository k = Intent_Repository r" "Ticket_Ref k = Intent_Ref r"
    "Ticket_Artifact k = Intent_PreviewDigest r" "live now k" "loadFrontierPolicy db now (Intent_VersionID r) = Inr p"
    "checkFrontierClaim env (Ticket_Claim k) p = Inr ()" "\<forall>j\<in>set (DB_Tickets db). Ticket_Intent j \<noteq> Some intent"
    "db' = db\<lparr>DB_Tickets := map (consume_row now (Ticket_ID k) intent (FPolicy_FrontierTicks p)) (DB_Tickets db)\<rparr>"
proof -
  obtain k where k: "find (\<lambda>t. Ticket_ID t = Intent_AdmissionTicket r \<and> Ticket_Owner t = owner
      \<and> Ticket_Version t = Intent_VersionID r \<and> Ticket_Repository t = Intent_Repository r
      \<and> Ticket_Ref t = Intent_Ref r \<and> Ticket_Artifact t = Intent_PreviewDigest r \<and> live now t) (DB_Tickets db) = Some k"
    using assms by (auto simp: consumeFrontierTicket_def http_fail_def split: if_splits option.splits)
  obtain p where p: "loadFrontierPolicy db now (Intent_VersionID r) = Inr p" "checkFrontierClaim env (Ticket_Claim k) p = Inr ()"
    "\<not> list_ex (\<lambda>t. Ticket_Intent t = Some intent) (DB_Tickets db)"
    "db' = db\<lparr>DB_Tickets := map (consume_row now (Intent_AdmissionTicket r) intent (FPolicy_FrontierTicks p)) (DB_Tickets db)\<rparr>"
    using assms k by (auto simp: consumeFrontierTicket_def http_fail_def res_simps split: if_splits)
  show ?thesis
    using find_Some_iff [THEN iffD1, OF k] p
    by (intro that [of k p]) (auto simp: list_ex_iff in_set_conv_nth)
qed

lemma consume_keeps_inv:
  assumes inv: "tickets_inv ts" and un: "\<forall>j\<in>set ts. Ticket_Intent j \<noteq> Some intent"
  shows "tickets_inv (map (consume_row now tid intent frontier) ts)"
proof -
  let ?f = "consume_row now tid intent frontier"
  note i = tickets_invD [OF inv]
  have int: "Ticket_Intent (?f k) = (if Ticket_ID k = tid then Some intent else Ticket_Intent k)" for k
    by (simp add: consume_row_def)
  have "map Ticket_ID (map ?f ts) = map Ticket_ID ts" by simp
  then have "distinct (map Ticket_ID (map ?f ts))" using i(1) by (simp only:)
  moreover have "\<forall>k\<in>set (map ?f ts). Ticket_Expires k = Ticket_Created k + ticket_lifetime" using i(2) by simp
  moreover have "Ticket_ID k = Ticket_ID k'" if h: "k \<in> set (map ?f ts)" "k' \<in> set (map ?f ts)"
    "Ticket_Intent k \<noteq> None \<and> Ticket_Intent k = Ticket_Intent k'" for k k'
  proof -
    obtain j j' where j: "j \<in> set ts" "k = ?f j" "j' \<in> set ts" "k' = ?f j'" using h(1,2) by auto
    have "Ticket_Intent j \<noteq> Some intent" "Ticket_Intent j' \<noteq> Some intent" using un j(1,3) by blast+
    then have "Ticket_ID j = tid \<and> Ticket_ID j' = tid \<or> Ticket_Intent j \<noteq> None \<and> Ticket_Intent j = Ticket_Intent j'"
      using h(3) unfolding j(2,4) int by (metis (full_types))
    then show ?thesis using i(3) [OF j(1,3)] unfolding j(2,4) consume_row_simps by metis
  qed
  moreover have "tally (\<lambda>k. Ticket_Owner k = u \<and> Ticket_Created k \<le> t \<and> live t k) (map ?f ts) \<le> 3" for t u
  proof -
    have "tally (\<lambda>k. Ticket_Owner k = u \<and> Ticket_Created k \<le> t \<and> live t k) (map ?f ts)
        \<le> tally (\<lambda>k. Ticket_Owner k = u \<and> Ticket_Created k \<le> t \<and> live t k) ts"
      unfolding tally_map by (rule tally_mono) (auto dest: consume_row_live)
    also have "\<dots> \<le> 3" by (rule i(6))
    finally show ?thesis .
  qed
  moreover have "tally (\<lambda>k. Ticket_Owner k = u \<and> in_window t k) (map ?f ts) \<le> 5"
    "tally (in_window t) (map ?f ts) \<le> 100" for t u
    using i(4,5) by (simp_all add: tally_map)
  ultimately show ?thesis unfolding tickets_inv_def by blast
qed

lemma admission_step_inv:
  assumes "admission_inv db" "admission_step db db'"
  shows "admission_inv db'"
  using assms(2)
proof cases
  case (step_create env now fresh owner r resp)
  show ?thesis using create_cases [OF step_create] insert_keeps_inv assms(1) by (auto simp: admission_inv_def)
next
  case (step_consume env now owner r intent)
  show ?thesis
    by (rule consume_cases [OF step_consume]) (use assms(1) in \<open>auto simp: admission_inv_def intro: consume_keeps_inv\<close>)
next
  case step_other
  then show ?thesis using assms(1) by (simp add: admission_inv_def)
qed

text \<open>A consumption, once recorded, is never undone or redirected to another intent.\<close>

definition consumed_as :: "admission_db \<Rightarrow> string \<times> string \<Rightarrow> bool" where
  "consumed_as db = (\<lambda>(tid, intent). \<exists>k\<in>set (DB_Tickets db).
     Ticket_ID k = tid \<and> Ticket_Consumed k \<noteq> None \<and> Ticket_Intent k = Some intent)"

lemma admission_step_consumed:
  assumes "admission_inv db" "admission_step db db'" "consumed_as db f"
  shows "consumed_as db' f"
proof -
  obtain tid intent where f: "f = (tid, intent)" by fastforce
  obtain c where c: "c \<in> set (DB_Tickets db)" "Ticket_ID c = tid" "Ticket_Consumed c \<noteq> None" "Ticket_Intent c = Some intent"
    using assms(3) by (auto simp: consumed_as_def f)
  from assms(2) show ?thesis
  proof cases
    case (step_create env now fresh owner r resp)
    show ?thesis using create_cases [OF step_create] c by (auto simp: consumed_as_def f)
  next
    case (step_consume env now owner r i)
    obtain k and p :: frontierPolicy where k: "k \<in> set (DB_Tickets db)" "live now k"
      "db' = db\<lparr>DB_Tickets := map (consume_row now (Ticket_ID k) i (FPolicy_FrontierTicks p)) (DB_Tickets db)\<rparr>"
    proof (rule consume_cases [OF step_consume])
      fix k and p :: frontierPolicy assume "k \<in> set (DB_Tickets db)" "live now k"
        "db' = db\<lparr>DB_Tickets := map (consume_row now (Ticket_ID k) i (FPolicy_FrontierTicks p)) (DB_Tickets db)\<rparr>"
      then show thesis by (rule that)
    qed
    have "Ticket_ID c \<noteq> Ticket_ID k"
    proof
      assume "Ticket_ID c = Ticket_ID k"
      then have "c = k" using tickets_invD(1) assms(1) c(1) k(1) by (auto simp: admission_inv_def distinct_map inj_on_def)
      then show False using c(3) k(2) by (simp add: live_def)
    qed
    then have "consume_row now (Ticket_ID k) i (FPolicy_FrontierTicks p) c = c" by (simp add: consume_row_def)
    then show ?thesis using c k(3) by (force simp: consumed_as_def f)
  next
    case step_other
    then show ?thesis using c by (auto simp: consumed_as_def f)
  qed
qed

interpretation admission: monotone_system admission_init admission_step admission_inv consumed_as
proof
  fix db db' :: admission_db and f :: "string \<times> string"
  show "admission_init db \<Longrightarrow> admission_inv db"
    by (simp add: admission_init_def admission_inv_def tickets_inv_def)
  show "admission_inv db \<Longrightarrow> admission_step db db' \<Longrightarrow> admission_inv db'" by (rule admission_step_inv)
  show "admission_inv db \<Longrightarrow> admission_step db db' \<Longrightarrow> consumed_as db f \<Longrightarrow> consumed_as db' f"
    by (rule admission_step_consumed)
qed

section \<open>Idempotent mutations\<close>

text \<open>\<open>mutate\<close> keeps, per user and key, the hash of the request and, once the handler has finished, its
  response.  \<open>hash\<close> is the hash of a string; the handler \<open>fn\<close> works on the rest of the database.\<close>

record 'b idem_db =
  Idem_Rows :: "(string \<times> string, string \<times> (int \<times> string) option) gomap"
  Idem_Business :: 'b

definition request_hash :: "(string \<Rightarrow> string) \<Rightarrow> string \<Rightarrow> string \<Rightarrow> string \<Rightarrow> string" where
  "request_hash hash verb path body = hash (verb @ '' '' @ path @ CHR 0x0A # body)"

definition mutate ::
    "(string \<Rightarrow> string) \<Rightarrow> string \<Rightarrow> string \<Rightarrow> string \<Rightarrow> string \<Rightarrow> string \<Rightarrow>
     ('b \<Rightarrow> (int \<times> string \<times> 'b) res) \<Rightarrow> 'b idem_db \<Rightarrow> ((int \<times> string) \<times> 'b idem_db) res" where
  "mutate hash user key verb path body fn db =
     (if \<not> idemRE key then http_fail ''idempotency_required'' else
      let reqHash = request_hash hash verb path body in
      case lookup (Idem_Rows db) (user, key) of
        Some (oldHash, old) \<Rightarrow>
          if oldHash \<noteq> reqHash then http_fail ''idempotency_conflict''
          else (case old of None \<Rightarrow> http_fail ''request_pending'' | Some resp \<Rightarrow> Inr (resp, db))
      | None \<Rightarrow>
        res_bind (fn (Idem_Business db)) (\<lambda>(status, response, b).
        Inr ((status, response), db\<lparr>Idem_Rows := ((user, key), (reqHash, Some (status, response))) # Idem_Rows db,
          Idem_Business := b\<rparr>)))"

inductive mutate_step :: "(string \<Rightarrow> string) \<Rightarrow> 'b idem_db \<Rightarrow> 'b idem_db \<Rightarrow> bool"
  for hash :: "string \<Rightarrow> string"
where
  step_mutate: "mutate hash user key verb path body fn db = Inr (resp, db') \<Longrightarrow> mutate_step hash db db'"
| step_business: "Idem_Rows db' = Idem_Rows db \<Longrightarrow> mutate_step hash db db'"

definition idem_init :: "'b idem_db \<Rightarrow> bool" where
  "idem_init db = (Idem_Rows db = [])"

definition idem_holds :: "'b idem_db \<Rightarrow> (string \<times> string) \<times> string \<times> int \<times> string \<Rightarrow> bool" where
  "idem_holds db = (\<lambda>(key, h, resp). lookup (Idem_Rows db) key = Some (h, Some resp))"

lemma mutate_cases:
  assumes "mutate hash user key verb path body fn db = Inr (resp, db')"
  shows "idemRE key \<and> (db' = db \<or> lookup (Idem_Rows db) (user, key) = None) \<and>
    lookup (Idem_Rows db') (user, key) = Some (request_hash hash verb path body, Some resp) \<and>
    (\<forall>k. k \<noteq> (user, key) \<longrightarrow> lookup (Idem_Rows db') k = lookup (Idem_Rows db) k)"
  using assms by (auto simp: mutate_def Let_def http_fail_def res_simps split: if_splits option.splits)

interpretation idempotency: monotone_system idem_init "mutate_step hash" "\<lambda>_. True" idem_holds
  for hash :: "string \<Rightarrow> string"
proof
  fix db db' :: "'b idem_db" and f :: "(string \<times> string) \<times> string \<times> int \<times> string"
  assume "mutate_step hash db db'" "idem_holds db f"
  then show "idem_holds db' f"
  proof cases
    case (step_mutate user key verb path body fn resp)
    obtain k h r where f: "f = (k, h, r)" by (metis surj_pair)
    have l: "lookup (Idem_Rows db) k = Some (h, Some r)" using \<open>idem_holds db f\<close> by (simp add: idem_holds_def f)
    have "lookup (Idem_Rows db') k = lookup (Idem_Rows db) k"
      using mutate_cases [OF step_mutate] l by (metis option.distinct(1))
    then show ?thesis using l by (simp add: idem_holds_def f)
  qed (simp add: idem_holds_def \<open>idem_holds db f\<close> split: prod.splits)
qed simp_all

section \<open>Preparation budgets\<close>

text \<open>\<open>reservePreparation\<close> with the table \<open>preparation_budgets\<close> as an association list from an owner and a
  day to the number of requests used.  \<open>role\<close> and \<open>active\<close> are the results of its first two queries.\<close>

definition preparationDailyLimit :: "string \<Rightarrow> int \<Rightarrow> int" where
  "preparationDailyLimit role configured =
     (if role \<noteq> ''operator'' \<or> configured < 20 then 20 else if configured > 1000 then 1000 else configured)"

type_synonym budgets = "(string \<times> int, int) gomap"

definition used_on :: "int \<Rightarrow> budgets \<Rightarrow> int" where
  "used_on day b = sum_list (map snd (filter (\<lambda>((_, d), _). d = day) b))"

definition reservePreparation ::
    "int \<Rightarrow> int \<Rightarrow> string \<Rightarrow> string \<Rightarrow> int \<Rightarrow> budgets \<Rightarrow> budgets res" where
  "reservePreparation configured day owner role active b =
     (if active \<ge> 5 then http_fail ''preparation_active_limit''
      else if used_on day b \<ge> 1000 then http_fail ''preparation_capacity_exhausted''
      else let limit = preparationDailyLimit role configured in
      case lookup b (owner, day) of
        None \<Rightarrow> Inr (gomap_put (owner, day) 1 b)
      | Some used \<Rightarrow> if used < limit then Inr (gomap_put (owner, day) (used + 1) b)
          else http_fail ''preparation_daily_limit'')"

inductive preparation_step :: "budgets \<Rightarrow> budgets \<Rightarrow> bool" where
  step_reserve: "reservePreparation configured day owner role active b = Inr b' \<Longrightarrow> preparation_step b b'"

definition preparation_inv :: "budgets \<Rightarrow> bool" where
  "preparation_inv b \<longleftrightarrow> gomap_ok b \<and> (\<forall>day. used_on day b \<le> 1000) \<and> (\<forall>(k, n)\<in>set b. 1 \<le> n \<and> n \<le> 1000)"

lemma used_on_Cons: "used_on day (((u, d), n) # b) = of_bool (d = day) * n + used_on day b"
  by (simp add: used_on_def)

lemma used_on_put:
  assumes "gomap_ok b"
  shows "used_on day (gomap_put (u, d) n b) = used_on day b
    + of_bool (d = day) * (n - (case lookup b (u, d) of None \<Rightarrow> 0 | Some m \<Rightarrow> m))"
  using assms
proof (induction b)
  case Nil
  then show ?case by (simp add: used_on_def)
next
  case (Cons x b)
  obtain u' d' m where x: "x = ((u', d'), m)" by (metis surj_pair)
  have "gomap_ok b" using Cons.prems by (simp add: gomap_ok_def)
  then show ?case using Cons.IH by (auto simp: x used_on_Cons)
qed

lemma limit_bounds: "20 \<le> preparationDailyLimit role configured \<and> preparationDailyLimit role configured \<le> 1000"
  by (simp add: preparationDailyLimit_def)

lemma reserve_cases:
  assumes "reservePreparation configured day owner role active b = Inr b'"
  obtains n where "b' = gomap_put (owner, day) (n + 1) b" "n = (case lookup b (owner, day) of None \<Rightarrow> 0 | Some m \<Rightarrow> m)"
    "used_on day b < 1000" "n < preparationDailyLimit role configured" "active < 5"
proof -
  have "0 < preparationDailyLimit role configured" using limit_bounds [of role configured] by simp
  then show ?thesis using assms that
    by (auto simp: reservePreparation_def Let_def http_fail_def split: if_splits option.splits)
qed

interpretation preparation: invariant_system "\<lambda>b. b = []" preparation_step preparation_inv
proof
  show "b = [] \<Longrightarrow> preparation_inv b" for b by (simp add: preparation_inv_def gomap_ok_def used_on_def)
  fix b b' assume inv: "preparation_inv b" and "preparation_step b b'"
  from this(2) show "preparation_inv b'"
  proof cases
    case (step_reserve configured day owner role active)
    obtain n where n: "b' = gomap_put (owner, day) (n + 1) b" "n = (case lookup b (owner, day) of None \<Rightarrow> 0 | Some m \<Rightarrow> m)"
      "used_on day b < 1000" "n < preparationDailyLimit role configured" "active < 5"
      by (rule reserve_cases [OF step_reserve])
    have ok: "gomap_ok b" "\<And>day. used_on day b \<le> 1000" "\<And>x. x \<in> set b \<Longrightarrow> 1 \<le> snd x \<and> snd x \<le> 1000"
      using inv by (auto simp: preparation_inv_def)
    have "0 \<le> n"
    proof (cases "lookup b (owner, day)")
      case (Some u)
      then show ?thesis using n(2) ok(3) [OF map_of_SomeD [OF Some]] by simp
    qed (simp add: n(2))
    then have nb: "1 \<le> n + 1" "n + 1 \<le> 1000" using n(4) limit_bounds [of role configured] by auto
    have "used_on d b' \<le> 1000" for d
      using used_on_put [OF ok(1), of d owner day "n + 1"] ok(2) [of d] n by (cases "day = d") auto
    then show ?thesis
      unfolding preparation_inv_def n(1)
      using gomap_ok_put [OF ok(1)] n(1) nb ok(3) by (auto dest!: gomap_put_mem)
  qed
qed

section \<open>Properties\<close>

definition demo_env :: claim_env where
  "demo_env = \<lparr>Env_NFC = (\<lambda>_. True), Env_Marshal = demo_marshal, Env_Decode = demo_decode\<rparr>"

definition demo_lock :: string where
  "demo_lock = ''sha256:'' @ replicate 64 CHR ''0''"

definition demo_claim :: FrontierClaim where
  "demo_claim = \<lparr>Claim_APIVersion = FrontierClaimVersion, Claim_VersionID = ''v'', Claim_LockDigest = demo_lock,
     Claim_ArtifactDigest = demo_lock, Claim_Mode = ''qualification'', Claim_Result = None,
     Claim_Qualification = Some \<lparr>Qualification_ChecksPassed = True, Qualification_ReportDigest = demo_lock,
       Qualification_EstimatedScoreTicks = ''1250'', Qualification_Reason = ''measured on the local machine''\<rparr>\<rparr>"

definition demo_request :: claimRequest where
  "demo_request = \<lparr>ClaimReq_Repository = ''o/r'', ClaimReq_Ref = replicate 40 CHR ''a'', ClaimReq_Claim = demo_claim\<rparr>"

definition demo_intent :: IntentRequest where
  "demo_intent = \<lparr>Intent_AdmissionTicket = ''t1'', Intent_VersionID = ''v'', Intent_Repository = ''o/r'',
     Intent_Ref = replicate 40 CHR ''a'', Intent_PreviewDigest = demo_lock,
     Intent_ParentFrontierDigest = [], Intent_License = ''MIT'', Intent_Attribution = None, Intent_Publish = False\<rparr>"

definition demo_db0 :: admission_db where
  "demo_db0 = \<lparr>DB_Versions = [\<lparr>Version_ID = ''v'', Version_Manifest = Inr demo_manifest, Version_LockDigest = demo_lock,
     Version_Public = ''1100'', Version_IntakeStatus = ''open'', Version_Deadline = 100000, Version_Status = ''published''\<rparr>],
     DB_Submissions = [], DB_Tickets = []\<rparr>"

definition demo_db1 :: admission_db where
  "demo_db1 = demo_db0\<lparr>DB_Tickets := [new_ticket 7 ''t1'' ''u'' demo_request ''1100'']\<rparr>"

definition demo_db2 :: admission_db where
  "demo_db2 = demo_db0\<lparr>DB_Tickets := [consume_row 8 ''t1'' ''i1'' ''1100'' (new_ticket 7 ''t1'' ''u'' demo_request ''1100'')]\<rparr>"

lemma demo_create: "\<exists>resp. createFrontierTicket demo_env 7 ''t1'' ''u'' demo_request demo_db0 = Inr (resp, demo_db1)"
proof -
  have "case createFrontierTicket demo_env 7 ''t1'' ''u'' demo_request demo_db0 of Inl _ \<Rightarrow> False
      | Inr (resp, db) \<Rightarrow> map Ticket_Frontier (DB_Tickets db) = [''1100'']" by code_simp
  then obtain resp db where c: "createFrontierTicket demo_env 7 ''t1'' ''u'' demo_request demo_db0 = Inr (resp, db)"
    "map Ticket_Frontier (DB_Tickets db) = [''1100'']" by (auto split: sum.splits)
  then have "db = demo_db1"
    using create_cases [OF c(1)] by (auto simp: demo_db0_def demo_db1_def new_ticket_def)
  with c show ?thesis by blast
qed

lemma demo_consume: "consumeFrontierTicket demo_env 8 ''u'' demo_intent ''i1'' demo_db1 = Inr demo_db2"
proof -
  have "case consumeFrontierTicket demo_env 8 ''u'' demo_intent ''i1'' demo_db1 of Inl _ \<Rightarrow> False
      | Inr db \<Rightarrow> map Ticket_Frontier (DB_Tickets db) = [''1100'']" by code_simp
  then obtain db where c: "consumeFrontierTicket demo_env 8 ''u'' demo_intent ''i1'' demo_db1 = Inr db"
    "map Ticket_Frontier (DB_Tickets db) = [''1100'']" by (auto split: sum.splits)
  have "db = demo_db2"
    by (rule consume_cases [OF c(1)]) (use c(2) in \<open>auto simp: demo_db1_def demo_db2_def consume_row_def demo_intent_def\<close>)
  with c show ?thesis by blast
qed

lemma demo_reachable: "reachable admission_init admission_step demo_db1" "reachable admission_init admission_step demo_db2"
proof -
  have r0: "reachable admission_init admission_step demo_db0"
    by (rule reachable_init) (simp add: admission_init_def demo_db0_def)
  obtain resp where c: "createFrontierTicket demo_env 7 ''t1'' ''u'' demo_request demo_db0 = Inr (resp, demo_db1)"
    using demo_create by (rule exE)
  show r1: "reachable admission_init admission_step demo_db1" by (rule reachable_step [OF r0 step_create [OF c]])
  show "reachable admission_init admission_step demo_db2"
    by (rule reachable_step [OF r1 step_consume [OF demo_consume]])
qed

text \<open>C30: whatever the clients do and however the transactions are interleaved, the admission budgets
  hold: in every window of 24 hours at most five tickets per account and a hundred in all are issued, and
  at no time does an account hold more than three usable ones.\<close>

theorem admission_budget:
  assumes "reachable admission_init admission_step db"
  shows "len (filter (\<lambda>k. Ticket_Owner k = owner \<and> t - day_window < Ticket_Created k \<and> Ticket_Created k \<le> t) (DB_Tickets db)) \<le> 5 \<and>
    len (filter (\<lambda>k. t - day_window < Ticket_Created k \<and> Ticket_Created k \<le> t) (DB_Tickets db)) \<le> 100 \<and>
    len (filter (\<lambda>k. Ticket_Owner k = owner \<and> Ticket_Created k \<le> t \<and> live t k) (DB_Tickets db)) \<le> 3"
proof -
  have "tickets_inv (DB_Tickets db)" using admission.reachable_inv [OF assms] by (simp add: admission_inv_def)
  note i = tickets_invD(4-6) [OF this]
  show ?thesis using i(1) [of owner t] i(2) [of t] i(3) [of owner t] by (simp add: tally_def in_window_def [abs_def])
qed

theorem admission_budget_witness:
  "len (filter (\<lambda>k. Ticket_Owner k = ''u'' \<and> 8 - day_window < Ticket_Created k \<and> Ticket_Created k \<le> 8) (DB_Tickets demo_db2)) \<le> 5"
  using admission_budget [OF demo_reachable(2), of "''u''" 8] by blast

text \<open>C31: a ticket pays for one intent only.  Once it is consumed for an intent, in every later state it is
  consumed for the same intent, and no other ticket is consumed for that intent.\<close>

theorem ticket_single_use:
  assumes "reachable admission_init admission_step db" "steps admission_step db db'"
    "consumed_as db (tid, intent)" "consumed_as db' (tid', intent')"
  shows "consumed_as db' (tid, intent) \<and> (tid = tid' \<longleftrightarrow> intent = intent')"
proof -
  have h: "consumed_as db' (tid, intent)" using admission.reachable_holds [OF assms(1-3)] .
  have "tickets_inv (DB_Tickets db')"
    using admission.reachable_inv [OF reachable_steps [OF assms(2,1)]] by (simp add: admission_inv_def)
  note i = tickets_invD [OF this]
  obtain k where k: "k \<in> set (DB_Tickets db')" "Ticket_ID k = tid" "Ticket_Intent k = Some intent"
    using h by (auto simp: consumed_as_def)
  obtain k' where k': "k' \<in> set (DB_Tickets db')" "Ticket_ID k' = tid'" "Ticket_Intent k' = Some intent'"
    using assms(4) by (auto simp: consumed_as_def)
  have "tid = tid' \<Longrightarrow> k = k'" using i(1) k k' by (auto simp: distinct_map inj_on_def)
  moreover have "intent = intent' \<Longrightarrow> tid = tid'" using i(3) [OF k(1) k'(1)] k k' by auto
  ultimately show ?thesis using h k(3) k'(3) by auto
qed

theorem ticket_single_use_witness: "consumed_as demo_db2 (''t1'', ''i1'')"
proof -
  have c: "consumed_as demo_db2 (''t1'', ''i1'')" by (simp add: consumed_as_def demo_db2_def consume_row_def)
  show ?thesis using ticket_single_use [OF demo_reachable(2) steps_refl c c] by blast
qed

text \<open>A ticket is consumed only by its owner, for the version, commit and artifact it was issued for,
  before it expires, and only while its claim still improves meaningfully on the current frontier and on
  the baseline of the locked manifest.  All other tickets are left alone.\<close>

theorem consumeFrontierTicket_sound:
  assumes "consumeFrontierTicket env now owner r intent db = Inr db'"
  shows "\<exists>k p ticks. k \<in> set (DB_Tickets db) \<and> Ticket_ID k = Intent_AdmissionTicket r \<and> Ticket_Owner k = owner \<and>
    Ticket_Version k = Intent_VersionID r \<and> Ticket_Ref k = Intent_Ref r \<and> Ticket_Artifact k = Intent_PreviewDigest r \<and>
    live now k \<and> loadFrontierPolicy db now (Ticket_Version k) = Inr p \<and>
    FrontierClaim_Validate (Env_NFC env) (Env_Marshal env) (Env_Decode env) (Ticket_Claim k) (FPolicy_Manifest p) = Inr ticks \<and>
    FrontierImprovement ticks (FPolicy_FrontierTicks p) (Manifest_Metric (FPolicy_Manifest p)) \<and>
    FrontierImprovement ticks (Metric_BaselineTicks (Manifest_Metric (FPolicy_Manifest p))) (Manifest_Metric (FPolicy_Manifest p)) \<and>
    (\<forall>j\<in>set (DB_Tickets db). Ticket_ID j \<noteq> Ticket_ID k \<longrightarrow> j \<in> set (DB_Tickets db'))"
proof (rule consume_cases [OF assms])
  fix k and p :: frontierPolicy
  assume k: "k \<in> set (DB_Tickets db)" "Ticket_ID k = Intent_AdmissionTicket r" "Ticket_Owner k = owner"
    "Ticket_Version k = Intent_VersionID r" "Ticket_Ref k = Intent_Ref r" "Ticket_Artifact k = Intent_PreviewDigest r"
    "live now k" and p: "loadFrontierPolicy db now (Intent_VersionID r) = Inr p" "checkFrontierClaim env (Ticket_Claim k) p = Inr ()"
    and d: "db' = db\<lparr>DB_Tickets := map (consume_row now (Ticket_ID k) intent (FPolicy_FrontierTicks p)) (DB_Tickets db)\<rparr>"
  obtain ticks where t: "FrontierClaim_Validate (Env_NFC env) (Env_Marshal env) (Env_Decode env) (Ticket_Claim k) (FPolicy_Manifest p) = Inr ticks"
    "FrontierImprovement ticks (FPolicy_FrontierTicks p) (Manifest_Metric (FPolicy_Manifest p))"
    using p(2) by (auto simp: checkFrontierClaim_def http_fail_def res_simps split: if_splits)
  obtain public where "FPolicy_FrontierTicks p = AdmissionFrontier (Manifest_Metric (FPolicy_Manifest p)) public"
    using p(1) by (auto simp: loadFrontierPolicy_def http_fail_def res_simps split: option.splits if_splits)
  then have b: "FrontierImprovement ticks (Metric_BaselineTicks (Manifest_Metric (FPolicy_Manifest p))) (Manifest_Metric (FPolicy_Manifest p))"
    using AdmissionFrontier_improved t(2) by metis
  have "j \<in> set (DB_Tickets db')" if "j \<in> set (DB_Tickets db)" "Ticket_ID j \<noteq> Ticket_ID k" for j
    using that by (auto simp: d consume_row_def image_iff intro!: bexI [of _ j])
  then show ?thesis using k p(1) t b by (intro exI [of _ k] exI [of _ p] exI [of _ ticks]) simp
qed

theorem consumeFrontierTicket_sound_witness:
  "\<exists>k ticks. k \<in> set (DB_Tickets demo_db1) \<and> Ticket_ID k = ''t1'' \<and>
     FrontierClaim_Validate (\<lambda>_. True) demo_marshal demo_decode (Ticket_Claim k) demo_manifest = Inr ticks"
proof -
  have "loadFrontierPolicy demo_db1 8 ''v'' = Inr p \<Longrightarrow> FPolicy_Manifest p = demo_manifest" for p
    by (auto simp: loadFrontierPolicy_def demo_db1_def demo_db0_def res_simps http_fail_def split: if_splits)
  moreover have "Ticket_Version k = ''v''" if "k \<in> set (DB_Tickets demo_db1)" for k
    using that by (simp add: demo_db1_def new_ticket_def demo_request_def demo_claim_def)
  ultimately show ?thesis
    using consumeFrontierTicket_sound [OF demo_consume] by (fastforce simp: demo_env_def demo_intent_def)
qed

text \<open>C32: a mutation takes effect exactly once.  After a request has been answered, every later request of the
  same user with the same key, at any later time and in any later state, leaves the state as it is and does
  not run its handler: a repetition of the request gets the same answer, and a request with another verb, path
  or body is refused, unless its hash is that of the first.\<close>

theorem mutate_exactly_once:
  assumes "mutate hash user key verb path body fn db = Inr (resp, db1)" "steps (mutate_step hash) db1 db2"
  shows "mutate hash user key verb' path' body' fn' db2 =
    (if request_hash hash verb' path' body' = request_hash hash verb path body then Inr (resp, db2) else http_fail ''idempotency_conflict'')"
proof -
  have "idem_holds db1 ((user, key), request_hash hash verb path body, resp)" and k: "idemRE key"
    using mutate_cases [OF assms(1)] by (auto simp: idem_holds_def)
  then have "idem_holds db2 ((user, key), request_hash hash verb path body, resp)"
    using idempotency.steps_holds [OF assms(2)] by simp
  then show ?thesis using k by (auto simp: mutate_def idem_holds_def)
qed

theorem mutate_exactly_once_witness:
  "\<exists>db :: int idem_db. mutate id ''u'' ''key-0001'' ''POST'' ''/p'' ''b'' (\<lambda>n. Inr (500, ''no'', n + 1)) db = Inr ((201, ''ok''), db) \<and>
    mutate id ''u'' ''key-0001'' ''POST'' ''/p'' ''c'' (\<lambda>n. Inr (201, ''ok'', n + 1)) db = http_fail ''idempotency_conflict''"
proof -
  have "idemRE ''key-0001''" by code_simp
  then have m: "mutate id ''u'' ''key-0001'' ''POST'' ''/p'' ''b'' (\<lambda>n :: int. Inr (201, ''ok'', n + 1)) \<lparr>Idem_Rows = [], Idem_Business = 0\<rparr>
    = Inr ((201, ''ok''), \<lparr>Idem_Rows = [((''u'', ''key-0001''), (''POST /p'' @ CHR 0x0A # ''b'', Some (201, ''ok'')))], Idem_Business = 1\<rparr>)"
    by (simp add: mutate_def request_hash_def)
  note once = mutate_exactly_once [OF m steps_refl]
  from once [of "''POST''" "''/p''" "''b''" "\<lambda>n. Inr (500, ''no'', n + 1)"] once [of "''POST''" "''/p''" "''c''" "\<lambda>n. Inr (201, ''ok'', n + 1)"]
  show ?thesis by (auto simp: request_hash_def)
qed

text \<open>Remote preparation is metered.  Each accepted request adds exactly one to the day's total and to
  the account's count, which stays within the account's limit; the platform never serves more than a
  thousand requests a day.\<close>

theorem preparation_budget:
  assumes "reachable (\<lambda>b. b = []) preparation_step b" "reservePreparation configured day owner role active b = Inr b'"
  shows "used_on day b' = used_on day b + 1 \<and> used_on day b' \<le> 1000 \<and>
    (\<exists>n. lookup b' (owner, day) = Some n \<and> n \<le> preparationDailyLimit role configured)"
proof -
  have ok: "gomap_ok b" using preparation.reachable_inv [OF assms(1)] by (simp add: preparation_inv_def)
  obtain n where n: "b' = gomap_put (owner, day) (n + 1) b" "n = (case lookup b (owner, day) of None \<Rightarrow> 0 | Some m \<Rightarrow> m)"
    "used_on day b < 1000" "n < preparationDailyLimit role configured" "active < 5"
    by (rule reserve_cases [OF assms(2)])
  have "lookup (gomap_put k m b) k = Some m" for k m by (induction b) auto
  then show ?thesis using used_on_put [OF ok, of day owner day "n + 1"] n by simp
qed

theorem preparation_budget_witness:
  "used_on 3 [((''u'', 3), 1)] = used_on 3 [] + 1"
proof -
  have "reservePreparation 50 3 ''u'' ''user'' 0 [] = Inr [((''u'', 3), 1)]" by (simp add: reservePreparation_def used_on_def)
  then show ?thesis using preparation_budget [OF reachable_init] by blast
qed

end
