(* ===== verification/AuditLog.thy ===== *)
theory AuditLog
  imports Witness Admission
begin

text \<open>
  The platform's side of the audit log (\<open>audit\<close> of \<open>internal/platform/server.go\<close> and
  \<open>internal/platform/audit.go\<close>): appending events, issuing and signing checkpoints, recording witness receipts
  and the production admission check.

  Tables are lists of rows.  A \<open>jsonb\<close> column returns its document in PostgreSQL's own spelling, the argument
  \<open>jsonb\<close>; checkpoints and envelopes, which are read back into the structures they were written from, are stored as
  values.  Times stored in a \<open>timestamptz\<close> column lose what is below a microsecond.
\<close>

record audit_row =
  AR_sequence :: int
  AR_kind :: string
  AR_payload :: string
  AR_previous :: string
  AR_digest :: string

record checkpoint_row =
  CR_digest :: string
  CR_payload :: Checkpoint
  CR_envelope :: "Envelope option"
  CR_from :: int
  CR_to :: int
  CR_issued :: go_time
  CR_quorum :: "go_time option"

record receipt_row =
  WRR_checkpoint :: string
  WRR_keyID :: string
  WRR_envelope :: Envelope

record audit_db =
  AD_events :: "audit_row list"
  AD_checkpoints :: "checkpoint_row list"
  AD_receipts :: "receipt_row list"

definition pg_time :: "go_time \<Rightarrow> go_time" where
  "pg_time t = t div 1000 * 1000"

text \<open>\<open>ORDER BY f DESC LIMIT 1\<close>\<close>

definition top_row :: "('a \<Rightarrow> int) \<Rightarrow> 'a list \<Rightarrow> 'a option" where
  "top_row f xs = (case xs of [] \<Rightarrow> None | x # xs \<Rightarrow> Some (foldl (\<lambda>a b. if f b > f a then b else a) x xs))"

section \<open>Events\<close>

definition audit ::
    "'k crypto_env \<Rightarrow> (string \<Rightarrow> string) \<Rightarrow> string \<Rightarrow> string \<Rightarrow> audit_row list \<Rightarrow> audit_row list res" where
  "audit env jsonb kind payload rows =
     (let (previous, seq) = (case top_row AR_sequence rows of None \<Rightarrow> (Genesis, 0) | Some r \<Rightarrow> (AR_digest r, AR_sequence r)) in
      res_bind (CanonJSON env payload) (\<lambda>canonical.
      let digest = DigestBytes (Sha env) (event_input previous kind canonical); next = int64 (seq + 1) in
      if list_ex (\<lambda>r. AR_sequence r = next \<or> AR_digest r = digest) rows then Inl (Err ''duplicate key value'')
      else Inr (rows @ [\<lparr>AR_sequence = next, AR_kind = kind, AR_payload = jsonb canonical, AR_previous = previous, AR_digest = digest\<rparr>])))"

definition event_of :: "audit_row \<Rightarrow> Event" where
  "event_of r = \<lparr>Event_Sequence = show_int (AR_sequence r), Event_Kind = AR_kind r, Event_Payload = AR_payload r,
     Event_PreviousDigest = AR_previous r, Event_Digest = AR_digest r\<rparr>"

definition readAuditEvents :: "audit_row list \<Rightarrow> int \<Rightarrow> int \<Rightarrow> Event list" where
  "readAuditEvents rows after limit =
     map event_of (take (nat limit) (sort_key AR_sequence (filter (\<lambda>r. AR_sequence r > after) rows)))"

section \<open>Checkpoints\<close>

text \<open>Rows have increasing identifiers, so the newest row is the last one.\<close>

definition newest_checkpoint :: "audit_db \<Rightarrow> checkpoint_row option" where
  "newest_checkpoint db = (if AD_checkpoints db = [] then None else Some (last (AD_checkpoints db)))"

record 'k platform_env =
  PE_audit :: "'k audit_env"
  PE_history :: "'k history_env"
  PE_marshal :: "Checkpoint \<Rightarrow> string res"
  PE_release :: "string \<Rightarrow> ReleaseAttestation res"
  PE_url :: "string \<Rightarrow> (string \<times> string \<times> bool) option"

abbreviation pcrypto :: "'k platform_env \<Rightarrow> 'k crypto_env" where
  "pcrypto env \<equiv> Crypto (PE_audit env)"

record 'k server =
  S_DeploymentMode :: string
  S_PublicOrigin :: string
  S_ReceiptKeyID :: string
  S_ReceiptKMSKeyID :: string
  S_RootKeyID :: string
  S_SourceCommit :: string
  S_TrustHistory :: "History option"
  S_TrustedRootKey :: 'k
  S_ReleaseEnvelope :: "Envelope option"
  S_ReceiptSigner :: "'k option"

definition parsed_or_zero :: "string \<Rightarrow> int" where
  "parsed_or_zero s = (case parse_int64 s of None \<Rightarrow> 0 | Some n \<Rightarrow> n)"

definition issue_checkpoint ::
    "'k audit_env \<Rightarrow> string \<Rightarrow> go_time \<Rightarrow> go_time \<Rightarrow> audit_db \<Rightarrow> checkpoint_row option \<Rightarrow> ((Checkpoint \<times> string) option \<times> audit_db) res" where
  "issue_checkpoint env origin now issuedAt db row =
     (let previous = map_option CR_payload row in
      res_bind (case previous of None \<Rightarrow> Inr 0 | Some p \<Rightarrow>
          (case parse_int64 (CP_ToSequence p) of None \<Rightarrow> Inl (Err ''strconv.ParseInt: parsing'') | Some n \<Rightarrow> Inr n)) (\<lambda>after.
      let events = readAuditEvents (AD_events db) after 1000 in
      if (case row of None \<Rightarrow> False | Some r \<Rightarrow> now - CR_issued r < 60 * go_second) \<and> len events < 100 then Inr (None, db)
      else res_bind (Build env origin events previous issuedAt) (\<lambda>cp.
        res_bind (CanonicalDigest (Crypto env) (CheckpointJSON env cp)) (\<lambda>digest.
        if list_ex (\<lambda>r. CR_digest r = digest) (AD_checkpoints db) then Inl (Err ''duplicate key value'')
        else Inr (Some (cp, digest), db\<lparr>AD_checkpoints := AD_checkpoints db @ [\<lparr>CR_digest = digest, CR_payload = cp,
            CR_envelope = None, CR_from = parsed_or_zero (CP_FromSequence cp), CR_to = parsed_or_zero (CP_ToSequence cp),
            CR_issued = pg_time (CP_IssuedAt cp), CR_quorum = None\<rparr>]\<rparr>)))))"

text \<open>The first transaction of \<open>checkpointTick\<close>: the checkpoint to sign with its digest, or nothing to do.  A row
  without an envelope is a checkpoint that was committed but not signed.\<close>

definition choose_checkpoint ::
    "'k audit_env \<Rightarrow> string \<Rightarrow> go_time \<Rightarrow> go_time \<Rightarrow> audit_db \<Rightarrow> ((Checkpoint \<times> string) option \<times> audit_db) res" where
  "choose_checkpoint env origin now issuedAt db =
     (case newest_checkpoint db of
        Some r \<Rightarrow> if CR_envelope r = None then Inr (Some (CR_payload r, CR_digest r), db)
          else issue_checkpoint env origin now issuedAt db (Some r)
      | None \<Rightarrow> issue_checkpoint env origin now issuedAt db None)"

definition sign_row :: "string \<Rightarrow> Envelope \<Rightarrow> checkpoint_row \<Rightarrow> checkpoint_row" where
  "sign_row digest e r = (if CR_digest r = digest \<and> CR_envelope r = None then r\<lparr>CR_envelope := Some e\<rparr> else r)"

definition check_delegation :: "'k platform_env \<Rightarrow> 'k server \<Rightarrow> 'k \<Rightarrow> Checkpoint \<Rightarrow> unit res" where
  "check_delegation env srv key cp =
     (if S_DeploymentMode srv \<noteq> ''production'' then Inr () else
      case S_TrustHistory srv of
        None \<Rightarrow> Inl (Err ''production checkpoints require root-signed key delegation'')
      | Some h \<Rightarrow>
        res_bind (Fingerprint (pcrypto env) key) (\<lambda>configured.
        case lookup (KeysAt (pcrypto env) h ''audit-checkpoint'' (CP_IssuedAt cp)) (S_ReceiptKeyID srv) of
          None \<Rightarrow> Inl (Err ''checkpoint signer has no valid root delegation'')
        | Some k \<Rightarrow> res_bind (or_else (Fingerprint (pcrypto env) k) (Err ''checkpoint signer has no valid root delegation'')) (\<lambda>delegated.
            fail_if (configured \<noteq> delegated) ''checkpoint signer has no valid root delegation'' (Inr ()))))"

text \<open>\<open>stored\<close> is the outcome of the final \<open>UPDATE\<close>.\<close>

definition checkpointTick ::
    "'k platform_env \<Rightarrow> 'k server \<Rightarrow> (string \<Rightarrow> string res) \<Rightarrow> unit res \<Rightarrow> go_time \<Rightarrow> go_time \<Rightarrow> audit_db \<Rightarrow> unit res \<times> audit_db" where
  "checkpointTick env srv sign stored now issuedAt db =
     (case S_ReceiptSigner srv of None \<Rightarrow> (Inr (), db) | Some key \<Rightarrow>
      case choose_checkpoint (PE_audit env) (S_PublicOrigin srv) now issuedAt db of
        Inl e \<Rightarrow> (Inl e, db)
      | Inr (None, db') \<Rightarrow> (Inr (), db')
      | Inr (Some (cp, digest), db') \<Rightarrow>
        (case res_bind (check_delegation env srv key cp) (\<lambda>_.
            res_bind (Sign (pcrypto env) (S_ReceiptKeyID srv) key sign (PE_marshal env cp)) (\<lambda>e.
            res_bind stored (\<lambda>_. Inr e))) of
           Inl e \<Rightarrow> (Inl e, db')
         | Inr e \<Rightarrow> (Inr (), db'\<lparr>AD_checkpoints := map (sign_row digest e) (AD_checkpoints db')\<rparr>)))"

text \<open>The events \<open>publicCheckpoints\<close> serves with a checkpoint.\<close>

definition served_events :: "audit_row list \<Rightarrow> checkpoint_row \<Rightarrow> Event list" where
  "served_events rows r = (if CR_to r \<ge> CR_from r then readAuditEvents rows (CR_from r - 1) (CR_to r - CR_from r + 1) else [])"

section \<open>Witness receipts\<close>

definition quorum_row :: "string \<Rightarrow> go_time \<Rightarrow> checkpoint_row \<Rightarrow> checkpoint_row" where
  "quorum_row digest now r = (if CR_digest r = digest then
     r\<lparr>CR_quorum := Some (case CR_quorum r of None \<Rightarrow> pg_time now | Some t \<Rightarrow> t)\<rparr> else r)"

definition store_receipt :: "string \<Rightarrow> Envelope \<Rightarrow> receipt_row list \<Rightarrow> receipt_row list" where
  "store_receipt digest e rows =
     (let kid = Signature_KeyID (hd (Envelope_Signatures e)) in
      if list_ex (\<lambda>r. WRR_checkpoint r = digest \<and> WRR_keyID r = kid) rows then rows
      else rows @ [\<lparr>WRR_checkpoint = digest, WRR_keyID = kid, WRR_envelope = e\<rparr>])"

definition receipts_for :: "string \<Rightarrow> receipt_row list \<Rightarrow> Envelope list" where
  "receipts_for digest rows = map WRR_envelope (filter (\<lambda>r. WRR_checkpoint r = digest) rows)"

definition witnessReceipt ::
    "'k platform_env \<Rightarrow> 'k server \<Rightarrow> string \<Rightarrow> Envelope \<Rightarrow> go_time \<Rightarrow> audit_db \<Rightarrow> (bool \<times> audit_db) res" where
  "witnessReceipt env srv digest e now db =
     (case S_TrustHistory srv of None \<Rightarrow> http_fail ''witness_trust_unconfigured'' | Some h \<Rightarrow>
      case find (\<lambda>r. CR_digest r = digest \<and> CR_envelope r \<noteq> None) (AD_checkpoints db) of
        None \<Rightarrow> Inl (Err ''no rows in result set'')
      | Some row \<Rightarrow>
        res_bind (deref (CR_envelope row)) (\<lambda>platform.
        if Envelope_Payload e \<noteq> Envelope_Payload platform \<or> Envelope_PayloadType e \<noteq> Envelope_PayloadType platform
            \<or> len (Envelope_Signatures e) \<noteq> 1 then http_fail ''checkpoint_mismatch'' else
        let keys = KeysAt (pcrypto env) h ''audit-witness'' (CR_issued row); operators = WitnessOperatorsAt h (CR_issued row) in
        res_bind (or_else (Verify (pcrypto env) e keys) (Errf ''witness_signature_invalid'' [])) (\<lambda>_.
        if map_text operators (Signature_KeyID (hd (Envelope_Signatures e))) = [] then http_fail ''witness_not_registered'' else
        let receipts = store_receipt digest e (AD_receipts db);
            quorum = is_ok (VerifyQuorum (pcrypto env) platform (receipts_for digest receipts) keys operators 2)
        in Inr (quorum, db\<lparr>AD_receipts := receipts,
             AD_checkpoints := (if quorum then map (quorum_row digest now) (AD_checkpoints db) else AD_checkpoints db)\<rparr>))))"

section \<open>Production admission\<close>

definition last_quorum :: "audit_db \<Rightarrow> go_time option" where
  "last_quorum db = (case map CR_issued (filter (\<lambda>r. CR_quorum r \<noteq> None) (AD_checkpoints db)) of
     [] \<Rightarrow> None | t # ts \<Rightarrow> Some (foldl max t ts))"

text \<open>The three readings of the clock are separate arguments.\<close>

definition checkProductionAdmission ::
    "'k platform_env \<Rightarrow> 'k server \<Rightarrow> go_time \<Rightarrow> go_time \<Rightarrow> go_time \<Rightarrow> audit_db \<Rightarrow> unit res" where
  "checkProductionAdmission env srv now1 now2 now3 db =
     (if S_DeploymentMode srv \<noteq> ''production'' then Inr () else
      case (if S_ReceiptKMSKeyID srv = [] then None else S_TrustHistory srv) of
        None \<Rightarrow> http_fail ''production_trust_incomplete''
      | Some h \<Rightarrow>
      case S_ReleaseEnvelope srv of None \<Rightarrow> http_fail ''external_release_gates_incomplete'' | Some release \<Rightarrow>
      res_bind (CanonicalDigest (pcrypto env) (HistoryJSON (PE_history env) (h\<lparr>H_priorWitnesses := []\<rparr>))) (\<lambda>historyDigest.
      res_bind (or_else (VerifyRelease (pcrypto env) (PE_release env) (PE_url env) release (S_RootKeyID srv) (S_TrustedRootKey srv)
          historyDigest (S_SourceCommit srv) now1) (Errf ''release_attestation_invalid'' [])) (\<lambda>_.
      case (lookup (KeysAt (pcrypto env) h ''control-plane-receipt'' now2) (S_ReceiptKeyID srv), S_ReceiptSigner srv) of
        (Some expected, Some signer) \<Rightarrow>
          if fingerprint_or_empty (pcrypto env) expected \<noteq> fingerprint_or_empty (pcrypto env) signer
          then http_fail ''receipt_delegation_invalid'' else
          (case AD_checkpoints db of
             [] \<Rightarrow> http_fail ''audit_genesis_missing''
           | first # _ \<Rightarrow>
             if CR_digest first \<noteq> H_GenesisCheckpointDigest h then http_fail ''audit_genesis_mismatch'' else
             (case last_quorum db of
                None \<Rightarrow> http_fail ''witness_quorum_stale''
              | Some t \<Rightarrow> if IntakeAllowed t now3 then Inr () else http_fail ''witness_quorum_stale''))
      | _ \<Rightarrow> http_fail ''receipt_delegation_invalid'')))"

section \<open>The table of events\<close>

definition kind_ok :: "string \<Rightarrow> bool" where
  "kind_ok kind = (kind \<noteq> [] \<and> len kind \<le> 128 \<and> CHR 0x0D \<notin> set kind \<and> CHR 0x0A \<notin> set kind)"

definition rows_ok :: "'k crypto_env \<Rightarrow> audit_row list \<Rightarrow> bool" where
  "rows_ok env rows \<longleftrightarrow> (\<forall>i<length rows. AR_sequence (rows ! i) = int i + 1) \<and> chained env 1 0 Genesis (map event_of rows) \<and>
     int (length rows) \<le> 9223372036854775807"

definition digest_after :: "string \<Rightarrow> Event list \<Rightarrow> string" where
  "digest_after prev es = (if es = [] then prev else Event_Digest (last es))"

definition jsonb_ok :: "'k crypto_env \<Rightarrow> (string \<Rightarrow> string) \<Rightarrow> bool" where
  "jsonb_ok env jsonb \<longleftrightarrow> (\<forall>x c. CanonJSON env x = Inr c \<longrightarrow> CanonJSON env (jsonb c) = Inr c)"

lemma digest_after_Cons: "digest_after prev (e # es) = digest_after (Event_Digest e) es"
  by (simp add: digest_after_def)

lemma chained_append:
  "chained env f i prev (xs @ ys) \<longleftrightarrow> chained env f i prev xs \<and> chained env f (i + length xs) (digest_after prev xs) ys"
  by (induction xs arbitrary: i prev) (auto simp: digest_after_def)

lemma chained_shift: "chained env f (i + k) prev es = chained env (f + int k) i prev es"
proof (induction es arbitrary: i prev)
  case (Cons e es)
  have "f + int (i + k) = f + int k + int i" by simp
  then show ?case using Cons.IH [of "Suc i"] by (simp only: chained.simps add_Suc)
qed simp

lemma top_row_snoc:
  "top_row f (xs @ [x]) = Some (case top_row f xs of None \<Rightarrow> x | Some y \<Rightarrow> if f x > f y then x else y)"
  by (cases xs) (auto simp: top_row_def)

lemma last_by_index:
  assumes "\<And>i. i < length xs \<Longrightarrow> f (xs ! i) = int i + 1" "xs \<noteq> []"
  shows "f (last xs) = int (length xs)"
proof -
  have "int (length xs - 1) + 1 = int (length xs)" using assms(2) by (cases xs) auto
  then show ?thesis using assms(1) [of "length xs - 1"] assms(2) by (simp add: last_conv_nth)
qed

lemma top_row_last:
  assumes "\<forall>i<length xs. f (xs ! i) = int i + 1"
  shows "top_row f xs = (if xs = [] then None else Some (last xs))"
  using assms
proof (induction xs rule: rev_induct)
  case (snoc x xs)
  have "f (xs ! i) = int i + 1" if "i < length xs" for i using snoc.prems [rule_format, of i] that by (simp add: nth_append)
  moreover have "f x = int (length xs) + 1" using snoc.prems [rule_format, of "length xs"] by simp
  moreover have "xs \<noteq> [] \<Longrightarrow> f (last xs) = int (length xs)"
    using calculation(1) by (rule last_by_index)
  ultimately show ?case using snoc.IH by (simp add: top_row_snoc)
qed (simp add: top_row_def)

lemma show_int_sequence: "0 \<le> n \<Longrightarrow> n \<le> 9223372036854775807 \<Longrightarrow> sequence (show_int n) = Inr n"
  by (simp add: sequence_def parse_int64_def)

lemma audit_keeps_rows:
  assumes "sha_ok (Sha env)" "jsonb_ok env jsonb" "rows_ok env rows" "kind_ok kind" "int (length rows) < 9223372036854775807"
    "audit env jsonb kind payload rows = Inr rows'"
  shows "rows_ok env rows' \<and> (\<exists>r. rows' = rows @ [r])"
proof -
  let ?prev = "digest_after Genesis (map event_of rows)"
  have top: "top_row AR_sequence rows = (if rows = [] then None else Some (last rows))"
    using top_row_last [of rows AR_sequence] assms(3) by (simp add: rows_ok_def)
  have seq: "rows \<noteq> [] \<Longrightarrow> AR_sequence (last rows) = int (length rows)"
    by (rule last_by_index) (use assms(3) in \<open>auto simp: rows_ok_def\<close>)
  have st: "(case top_row AR_sequence rows of None \<Rightarrow> (Genesis, 0) | Some r \<Rightarrow> (AR_digest r, AR_sequence r)) = (?prev, int (length rows))"
    using seq by (simp add: top digest_after_def last_map event_of_def)
  have i64: "int64 (int (length rows) + 1) = int (length rows) + 1" using assms(5) by (intro int64_id) simp_all
  obtain c where c: "CanonJSON env payload = Inr c" and r: "rows' = rows @ [\<lparr>AR_sequence = int (length rows) + 1, AR_kind = kind,
      AR_payload = jsonb c, AR_previous = ?prev, AR_digest = DigestBytes (Sha env) (event_input ?prev kind c)\<rparr>]"
    using assms(6) unfolding audit_def st by (auto simp: res_simps i64 Let_def split: if_splits)
  have "validDigest ?prev True"
  proof (cases rows rule: rev_cases)
    case (snoc xs x)
    then have "EventDigest env (digest_after Genesis (map event_of xs)) (AR_kind x) (AR_payload x) = Inr (AR_digest x)"
      using assms(3) by (simp add: rows_ok_def chained_append event_of_def)
    then show ?thesis using snoc DigestBytes_valid [OF assms(1)]
      by (auto elim!: EventDigest_Inr simp: digest_after_def event_of_def validDigest_genesis Hash_def)
  qed (simp add: digest_after_def validDigest_genesis)
  then have "EventDigest env ?prev kind (jsonb c) = Inr (DigestBytes (Sha env) (event_input ?prev kind c))"
    using assms(2,4) c by (simp add: EventDigest_def kind_ok_def jsonb_ok_def Hash_def fail_if_def)
  moreover have "sequence (show_int (int (length rows) + 1)) = Inr (int64 (1 + int (length rows)))"
    using assms(5) i64 by (simp add: show_int_sequence add.commute)
  ultimately show ?thesis using assms(3,5) r
    by (auto simp: rows_ok_def chained_append event_of_def nth_append less_Suc_eq)
qed

lemma rows_after:
  assumes "rows_ok env rows" "n \<le> length rows"
  shows "sort_key AR_sequence (filter (\<lambda>r. AR_sequence r > int n) rows) = drop n rows"
proof -
  have seq: "AR_sequence (rows ! i) = int i + 1" if "i < length rows" for i using assms(1) that by (simp add: rows_ok_def)
  have "filter (\<lambda>r. AR_sequence r > int n) (take n rows) = []"
    using seq assms(2) by (auto simp: filter_empty_conv in_set_conv_nth)
  moreover have "filter (\<lambda>r. AR_sequence r > int n) (drop n rows) = drop n rows"
    using seq by (auto simp: filter_id_conv in_set_conv_nth)
  ultimately have "filter (\<lambda>r. AR_sequence r > int n) rows = drop n rows"
    by (metis append_Nil append_take_drop_id filter_append)
  moreover have "sorted (map AR_sequence (drop n rows))"
    using seq by (auto simp: sorted_iff_nth_mono)
  ultimately show ?thesis by (simp add: sorted_sort_id sort_key_id_if_sorted)
qed

lemma readAuditEvents_rows:
  "rows_ok env rows \<Longrightarrow> n \<le> length rows \<Longrightarrow> readAuditEvents rows (int n) limit = map event_of (take (nat limit) (drop n rows))"
  by (simp add: readAuditEvents_def rows_after)

section \<open>Building over the table\<close>

lemma chained_build:
  assumes "chained env f i prev es" "0 \<le> f" "f + int (i + length es) \<le> 9223372036854775808"
  shows "res_fold (build_step env f) (i, prev, t, ds) es =
    Inr (i + length es, digest_after prev es, if es = [] then t else Event_Sequence (last es), ds @ map Event_Digest es)"
  using assms
proof (induction es arbitrary: i prev t ds)
  case (Cons e es)
  have i64: "int64 (f + int i) = f + int i" using Cons.prems(2,3) by (intro int64_id) simp_all
  have "build_step env f (i, prev, t, ds) e = Inr (Suc i, Event_Digest e, Event_Sequence e, ds @ [Event_Digest e])"
    using Cons.prems(1) i64 by (simp add: build_step_def fail_if_def)
  then show ?case using Cons.IH [of "Suc i" "Event_Digest e"] Cons.prems by (simp add: digest_after_Cons)
qed (simp add: digest_after_def)

lemma chained_digests:
  "sha_ok (Sha env) \<Longrightarrow> chained env f i prev es \<Longrightarrow> e \<in> set es \<Longrightarrow> validDigest (Event_Digest e) False"
  by (induction es arbitrary: i prev)
    (auto elim!: EventDigest_Inr simp: Hash_def validDigest_iff DigestBytes_valid)

lemma MerkleRoot_total:
  "\<forall>d\<in>set ds. validDigest d False \<Longrightarrow> len ds \<le> MaxEvents \<Longrightarrow> is_ok (MerkleRoot sha ds)"
  by (auto simp: MerkleRoot_def is_ok_iff res_simps fail_if_def)

text \<open>An interval of the table, from a predecessor that ends where the interval starts, can be built.\<close>

lemma interval_builds:
  assumes ok: "sha_ok (Sha (Crypto env))" "rows_ok (Crypto env) rows" and n: "n \<le> length rows"
    and prior: "build_prior env origin previous issued = Inr (int n + 1, int n, c, digest_after Genesis (map event_of (take n rows)))"
    and b: "origin \<noteq> []" "len origin \<le> 128" "issued \<noteq> 0"
  shows "is_ok (Build env origin (map event_of (take 1000 (drop n rows))) previous issued)"
proof -
  let ?es = "map event_of (take 1000 (drop n rows))"
  have "chained (Crypto env) 1 0 Genesis (map event_of (take n rows @ drop n rows))" using ok(2) by (simp add: rows_ok_def)
  then have "chained (Crypto env) 1 (0 + length (map event_of (take n rows))) (digest_after Genesis (map event_of (take n rows))) (map event_of (drop n rows))"
    unfolding map_append chained_append by blast
  then have "chained (Crypto env) (1 + int n) 0 (digest_after Genesis (map event_of (take n rows))) (map event_of (drop n rows))"
    using n chained_shift [of "Crypto env" 1 0 n] by simp
  then have "chained (Crypto env) (int n + 1) 0 (digest_after Genesis (map event_of (take n rows))) (?es @ map event_of (drop 1000 (drop n rows)))"
    by (simp only: map_append [symmetric] append_take_drop_id add.commute)
  then have ch: "chained (Crypto env) (int n + 1) 0 (digest_after Genesis (map event_of (take n rows))) ?es"
    unfolding chained_append by blast
  have "n + length ?es \<le> length rows" using n by simp
  moreover have "int (length rows) \<le> 9223372036854775807" using ok(2) unfolding rows_ok_def by blast
  ultimately have "int n + 1 + int (length ?es) \<le> 9223372036854775808" by linarith
  note f = chained_build [OF ch, of "show_int (int n)" "[]"]
  have "is_ok (MerkleRoot (Sha (Crypto env)) (map Event_Digest ?es))"
    by (rule MerkleRoot_total) (use chained_digests [OF ok(1) ch] in \<open>auto simp: len_def MaxEvents_def\<close>)
  then show ?thesis using f b prior \<open>int n + 1 + int (length ?es) \<le> 9223372036854775808\<close>
    by (auto simp: Build_def is_ok_iff fail_if_def)
qed

section \<open>The table of checkpoints\<close>

definition interval :: "audit_row list \<Rightarrow> nat \<Rightarrow> nat \<Rightarrow> Event list" where
  "interval rows n k = map event_of (take (k - n) (drop n rows))"

text \<open>The checkpoints cover consecutive intervals of the events, and each is what \<open>Build\<close> gives for its
  interval and its predecessor.\<close>

fun covered :: "'k audit_env \<Rightarrow> string \<Rightarrow> audit_row list \<Rightarrow> Checkpoint option \<Rightarrow> nat \<Rightarrow> checkpoint_row list \<Rightarrow> bool" where
  "covered env origin rows prev n [] = True"
| "covered env origin rows prev n (r # rs) =
     (\<exists>k. n \<le> k \<and> k \<le> length rows \<and> k \<le> n + 1000 \<and> CR_from r = int n + 1 \<and> CR_to r = int k \<and>
        Build env origin (interval rows n k) prev (CP_IssuedAt (CR_payload r)) = Inr (CR_payload r) \<and>
        covered env origin rows (Some (CR_payload r)) k rs)"

definition end_of :: "nat \<Rightarrow> checkpoint_row list \<Rightarrow> nat" where
  "end_of n rs = (if rs = [] then n else nat (CR_to (last rs)))"

lemma covered_grow: "covered env origin rows prev n rs \<Longrightarrow> covered env origin (rows @ [x]) prev n rs"
proof (induction rs arbitrary: prev n)
  case (Cons r rs)
  then obtain k where k: "n \<le> k" "k \<le> length rows" "k \<le> n + 1000" "CR_from r = int n + 1" "CR_to r = int k"
    "Build env origin (interval rows n k) prev (CP_IssuedAt (CR_payload r)) = Inr (CR_payload r)"
    "covered env origin rows (Some (CR_payload r)) k rs" by auto
  moreover have "interval (rows @ [x]) n k = interval rows n k" using k(1,2) by (simp add: interval_def)
  ultimately show ?case using Cons.IH by auto
qed simp

lemma covered_map:
  assumes "\<And>r. CR_payload (g r) = CR_payload r" "\<And>r. CR_from (g r) = CR_from r" "\<And>r. CR_to (g r) = CR_to r"
  shows "covered env origin rows prev n (map g rs) = covered env origin rows prev n rs"
  by (induction rs arbitrary: prev n) (auto simp: assms)

lemma covered_end: "covered env origin rows prev n rs \<Longrightarrow> n \<le> length rows \<Longrightarrow> end_of n rs \<le> length rows"
proof (induction rs arbitrary: prev n)
  case (Cons r rs)
  then show ?case by (cases rs) (auto simp: end_of_def)
qed (simp add: end_of_def)

lemma covered_snoc:
  assumes "covered env origin rows prev n rs" "end_of n rs \<le> k" "k \<le> length rows" "k \<le> end_of n rs + 1000"
    "CR_from r = int (end_of n rs) + 1" "CR_to r = int k"
    "Build env origin (interval rows (end_of n rs) k) (last_or prev (map CR_payload rs)) (CP_IssuedAt (CR_payload r)) = Inr (CR_payload r)"
  shows "covered env origin rows prev n (rs @ [r])"
  using assms
proof (induction rs arbitrary: prev n)
  case Nil
  then show ?case by (auto simp: end_of_def)
next
  case (Cons x rs)
  then obtain m where m: "n \<le> m" "m \<le> length rows" "m \<le> n + 1000" "CR_from x = int n + 1" "CR_to x = int m"
    "Build env origin (interval rows n m) prev (CP_IssuedAt (CR_payload x)) = Inr (CR_payload x)"
    "covered env origin rows (Some (CR_payload x)) m rs" by auto
  have "end_of n (x # rs) = end_of m rs" using m(5) by (simp add: end_of_def)
  then have "covered env origin rows (Some (CR_payload x)) m (rs @ [r])" using Cons.IH [OF m(7)] Cons.prems by simp
  then show ?case using m by auto
qed

text \<open>Where the newest checkpoint ends.\<close>

lemma Build_ends:
  assumes "Build env origin es prev t = Inr cp"
  obtains f l c p where "build_prior env origin prev t = Inr (f, l, c, p)" "f = l + 1" "CP_FromSequence cp = show_int f"
    "CP_ToSequence cp = (if es = [] then show_int l else Event_Sequence (last es))" "CP_LastEventDigest cp = digest_after p es"
    "CP_LogID cp = origin" "CP_IssuedAt cp = t" "origin \<noteq> []" "len origin \<le> 128"
proof -
  obtain f l c p i ld ts ds root where p: "build_prior env origin prev t = Inr (f, l, c, p)" "origin \<noteq> []" "len origin \<le> 128"
    and fd: "res_fold (build_step (Crypto env) f) (0, p, show_int l, []) es = Inr (i, ld, ts, ds)"
    and cp: "cp = \<lparr>CP_APIVersion = APIVersion, CP_Kind = ''AuditCheckpoint'', CP_LogID = origin,
           CP_FromSequence = show_int f, CP_ToSequence = ts, CP_PreviousCheckpointDigest = c,
           CP_PreviousEventDigest = p, CP_LastEventDigest = ld, CP_MerkleRoot = root, CP_IssuedAt = t\<rparr>"
    using assms by (auto simp: Build_def res_simps)
  have "f = l + 1" using p(1) by (auto simp: build_prior_def res_simps split: option.splits)
  then show thesis using that [OF p(1)] build_fold [OF fd] cp p(2,3) by (simp add: digest_after_def)
qed

definition ends_at :: "string \<Rightarrow> audit_row list \<Rightarrow> nat \<Rightarrow> Checkpoint option \<Rightarrow> bool" where
  "ends_at origin rows n prev = (case prev of None \<Rightarrow> n = 0 | Some p \<Rightarrow> CP_ToSequence p = show_int (int n) \<and>
     CP_LastEventDigest p = digest_after Genesis (map event_of (take n rows)) \<and> CP_LogID p = origin)"

lemma prior_at:
  assumes "ends_at origin rows n prev" "n \<le> length rows" "rows_ok env rows"
    "build_prior e origin prev t = Inr (f, l, c, p)"
  shows "l = int n \<and> p = digest_after Genesis (map event_of (take n rows))"
proof -
  have "int n \<le> 9223372036854775807" using assms(2,3) by (simp add: rows_ok_def)
  then have "sequence (show_int (int n)) = Inr (int n)" by (simp add: show_int_sequence)
  then show ?thesis using assms(1,4)
    by (auto simp: ends_at_def build_prior_def digest_after_def res_simps split: option.splits)
qed

lemma built_ends_at:
  assumes "ends_at origin rows n prev" "rows_ok env rows" "n \<le> k" "k \<le> length rows"
    "Build e origin (interval rows n k) prev t = Inr cp"
  shows "ends_at origin rows k (Some cp)"
proof (rule Build_ends [OF assms(5)])
  fix f l c p
  assume b: "build_prior e origin prev t = Inr (f, l, c, p)" "f = l + 1" "CP_ToSequence cp = (if interval rows n k = [] then show_int l else Event_Sequence (last (interval rows n k)))"
    "CP_LastEventDigest cp = digest_after p (interval rows n k)" "CP_LogID cp = origin"
  have l: "l = int n" "p = digest_after Genesis (map event_of (take n rows))"
    using prior_at [OF assms(1) _ assms(2) b(1)] assms(3,4) by auto
  have split: "take k rows = take n rows @ take (k - n) (drop n rows)" using assms(3) by (metis le_add_diff_inverse take_add)
  have "digest_after Genesis (map event_of (take k rows)) = digest_after p (interval rows n k)"
    by (auto simp: split l(2) digest_after_def interval_def)
  moreover have "CP_ToSequence cp = show_int (int k)"
  proof (cases "k = n")
    case False
    then have ne: "take (k - n) (drop n rows) \<noteq> []" using assms(3,4) by simp
    have "last (take (k - n) (drop n rows)) = rows ! (k - 1)"
      using False assms(3,4) ne by (simp add: last_conv_nth)
    moreover have "AR_sequence (rows ! (k - 1)) = int k" using assms(2,3,4) False by (simp add: rows_ok_def)
    ultimately show ?thesis using ne b(3) by (simp add: interval_def last_map event_of_def)
  qed (use b(3) l in \<open>simp add: interval_def\<close>)
  ultimately show ?thesis using b(4,5) by (simp add: ends_at_def)
qed

lemma covered_ends:
  assumes "covered env origin rows prev n rs" "ends_at origin rows n prev" "rows_ok c rows"
  shows "ends_at origin rows (end_of n rs) (last_or prev (map CR_payload rs))"
  using assms
proof (induction rs arbitrary: prev n)
  case (Cons x rs)
  then obtain m where m: "n \<le> m" "m \<le> length rows" "CR_to x = int m"
    "Build env origin (interval rows n m) prev (CP_IssuedAt (CR_payload x)) = Inr (CR_payload x)"
    "covered env origin rows (Some (CR_payload x)) m rs" by auto
  have "ends_at origin rows m (Some (CR_payload x))" by (rule built_ends_at [OF Cons.prems(2,3) m(1,2,4)])
  moreover have "end_of n (x # rs) = end_of m rs" using m(3) by (simp add: end_of_def)
  ultimately show ?case using Cons.IH [OF m(5) _ Cons.prems(3)] by simp
qed (simp add: end_of_def)

section \<open>The log as a system\<close>

definition key_scheme :: "'k crypto_env \<Rightarrow> 'k \<Rightarrow> (string \<Rightarrow> string res) \<Rightarrow> bool" where
  "key_scheme env key sign \<longleftrightarrow> (\<forall>h s. sign h = Inr s \<longrightarrow> VerifyASN1 env key h s)"

text \<open>Events are appended by many handlers, with kinds of their own; the sequence column is a \<open>bigint\<close>.\<close>

inductive log_step :: "'k platform_env \<Rightarrow> 'k server \<Rightarrow> (string \<Rightarrow> string) \<Rightarrow> audit_db \<Rightarrow> audit_db \<Rightarrow> bool"
  for env :: "'k platform_env" and srv :: "'k server" and jsonb :: "string \<Rightarrow> string"
where
  append_event: "audit (pcrypto env) jsonb kind payload (AD_events db) = Inr rows \<Longrightarrow> kind_ok kind \<Longrightarrow>
    int (length (AD_events db)) < 9223372036854775807 \<Longrightarrow> log_step env srv jsonb db (db\<lparr>AD_events := rows\<rparr>)"
| tick: "checkpointTick env srv sign stored now issuedAt db = (out, db') \<Longrightarrow>
    (\<And>key. S_ReceiptSigner srv = Some key \<Longrightarrow> key_scheme (pcrypto env) key sign) \<Longrightarrow> log_step env srv jsonb db db'"
| receipt: "witnessReceipt env srv digest e now db = Inr (quorum, db') \<Longrightarrow> log_step env srv jsonb db db'"

definition log_start :: "audit_db \<Rightarrow> bool" where
  "log_start db \<longleftrightarrow> db = \<lparr>AD_events = [], AD_checkpoints = [], AD_receipts = []\<rparr>"

definition signed_ok :: "'k platform_env \<Rightarrow> 'k server \<Rightarrow> checkpoint_row \<Rightarrow> bool" where
  "signed_ok env srv r \<longleftrightarrow> (\<forall>e. CR_envelope r = Some e \<longrightarrow> (\<exists>key sign. S_ReceiptSigner srv = Some key \<and>
     key_scheme (pcrypto env) key sign \<and> Sign (pcrypto env) (S_ReceiptKeyID srv) key sign (PE_marshal env (CR_payload r)) = Inr e))"

definition quorum_ok :: "'k platform_env \<Rightarrow> 'k server \<Rightarrow> receipt_row list \<Rightarrow> checkpoint_row \<Rightarrow> bool" where
  "quorum_ok env srv receipts r \<longleftrightarrow> (CR_quorum r \<noteq> None \<longrightarrow> (\<exists>h e. S_TrustHistory srv = Some h \<and> CR_envelope r = Some e \<and>
     VerifyQuorum (pcrypto env) e (receipts_for (CR_digest r) receipts) (KeysAt (pcrypto env) h ''audit-witness'' (CR_issued r))
       (WitnessOperatorsAt h (CR_issued r)) 2 = Inr ()))"

definition log_inv :: "'k platform_env \<Rightarrow> 'k server \<Rightarrow> audit_db \<Rightarrow> bool" where
  "log_inv env srv db \<longleftrightarrow> rows_ok (pcrypto env) (AD_events db) \<and>
     covered (PE_audit env) (S_PublicOrigin srv) (AD_events db) None 0 (AD_checkpoints db) \<and>
     distinct (map CR_digest (AD_checkpoints db)) \<and>
     (\<forall>r\<in>set (AD_checkpoints db). signed_ok env srv r \<and> quorum_ok env srv (AD_receipts db) r)"

lemma parse_show: "0 \<le> n \<Longrightarrow> n \<le> 9223372036854775807 \<Longrightarrow> parse_int64 (show_int n) = Some n"
  by (simp add: parse_int64_def)

lemma newest_payload: "map_option CR_payload (newest_checkpoint db) = last_or None (map CR_payload (AD_checkpoints db))"
  by (simp add: newest_checkpoint_def last_or_def last_map)

text \<open>The next interval.\<close>

definition next_events :: "audit_db \<Rightarrow> Event list" where
  "next_events db = interval (AD_events db) (end_of 0 (AD_checkpoints db)) (min (end_of 0 (AD_checkpoints db) + 1000) (length (AD_events db)))"

lemma log_inv_ends:
  assumes "log_inv env srv db"
  shows "end_of 0 (AD_checkpoints db) \<le> length (AD_events db)"
    "ends_at (S_PublicOrigin srv) (AD_events db) (end_of 0 (AD_checkpoints db)) (map_option CR_payload (newest_checkpoint db))"
proof -
  have c: "covered (PE_audit env) (S_PublicOrigin srv) (AD_events db) None 0 (AD_checkpoints db)"
    and r: "rows_ok (pcrypto env) (AD_events db)" using assms by (auto simp: log_inv_def)
  show "end_of 0 (AD_checkpoints db) \<le> length (AD_events db)" using covered_end [OF c] by simp
  show "ends_at (S_PublicOrigin srv) (AD_events db) (end_of 0 (AD_checkpoints db)) (map_option CR_payload (newest_checkpoint db))"
    using covered_ends [OF c _ r] unfolding newest_payload by (simp add: ends_at_def)
qed

lemma next_interval: "n \<le> length rows \<Longrightarrow> interval rows n (min (n + 1000) (length rows)) = map event_of (take 1000 (drop n rows))"
  by (simp add: interval_def min_def)

lemma read_next:
  assumes "log_inv env srv db" "row = newest_checkpoint db"
    "(case map_option CR_payload row of None \<Rightarrow> Inr 0 | Some p \<Rightarrow>
        (case parse_int64 (CP_ToSequence p) of None \<Rightarrow> Inl (Err ''strconv.ParseInt: parsing'') | Some n \<Rightarrow> Inr n)) = Inr after"
  shows "readAuditEvents (AD_events db) after 1000 = next_events db"
proof -
  let ?n = "end_of 0 (AD_checkpoints db)"
  have ok: "rows_ok (pcrypto env) (AD_events db)" using assms(1) by (simp add: log_inv_def)
  note n = log_inv_ends [OF assms(1)]
  have "int (length (AD_events db)) \<le> 9223372036854775807" using ok unfolding rows_ok_def by blast
  then have "int ?n \<le> 9223372036854775807" using n(1) by linarith
  then have "after = int ?n"
    using n(2) assms(2,3) parse_show [of "int ?n"] by (cases "newest_checkpoint db") (auto simp: ends_at_def)
  then show ?thesis using readAuditEvents_rows [OF ok n(1), of 1000] next_interval [OF n(1)] by (simp add: next_events_def)
qed

lemma issue_cases:
  assumes inv: "log_inv env srv db" and "issue_checkpoint (PE_audit env) (S_PublicOrigin srv) now issuedAt db (newest_checkpoint db) = Inr (out, db')"
  shows "out = None \<and> db' = db \<or> (\<exists>r. out = Some (CR_payload r, CR_digest r) \<and> CR_envelope r = None \<and>
    db' = db\<lparr>AD_checkpoints := AD_checkpoints db @ [r]\<rparr> \<and> log_inv env srv db')"
proof -
  let ?n = "end_of 0 (AD_checkpoints db)" and ?rows = "AD_events db" and ?prev = "map_option CR_payload (newest_checkpoint db)"
  let ?k = "min (?n + 1000) (length ?rows)"
  have ok: "rows_ok (pcrypto env) ?rows" using inv by (simp add: log_inv_def)
  note n = log_inv_ends [OF inv]
  have bound: "int (length ?rows) \<le> 9223372036854775807" using ok unfolding rows_ok_def by blast
  consider "out = None" "db' = db" | cp digest where "Build (PE_audit env) (S_PublicOrigin srv) (next_events db) ?prev issuedAt = Inr cp"
    "\<forall>r\<in>set (AD_checkpoints db). CR_digest r \<noteq> digest" "out = Some (cp, digest)"
    "db' = db\<lparr>AD_checkpoints := AD_checkpoints db @ [\<lparr>CR_digest = digest, CR_payload = cp,
            CR_envelope = None, CR_from = parsed_or_zero (CP_FromSequence cp), CR_to = parsed_or_zero (CP_ToSequence cp),
            CR_issued = pg_time (CP_IssuedAt cp), CR_quorum = None\<rparr>]\<rparr>"
    using assms(2) read_next [OF inv refl] unfolding issue_checkpoint_def Let_def
    by (auto simp: res_simps list_ex_iff split: if_splits)
  then show ?thesis
  proof cases
    case (2 cp digest)
    have b: "Build (PE_audit env) (S_PublicOrigin srv) (interval ?rows ?n ?k) ?prev issuedAt = Inr cp" using 2(1) by (simp add: next_events_def)
    have e: "ends_at (S_PublicOrigin srv) ?rows ?k (Some cp)" by (rule built_ends_at [OF n(2) ok _ _ b]) (use n(1) in auto)
    have f: "parsed_or_zero (CP_FromSequence cp) = int ?n + 1"
    proof (rule Build_ends [OF b])
      fix f l c p
      assume p: "build_prior (PE_audit env) (S_PublicOrigin srv) ?prev issuedAt = Inr (f, l, c, p)" "f = l + 1" "CP_FromSequence cp = show_int f"
      have "l = int ?n" using prior_at [OF n(2,1) ok p(1)] by simp
      moreover have "l \<noteq> 9223372036854775807" using p(1) by (auto simp: build_prior_def res_simps split: option.splits)
      ultimately have "int ?n + 1 \<le> 9223372036854775807" "f = int ?n + 1" using p(2) n(1) bound by auto
      then show ?thesis using p(3) parse_show [of "int ?n + 1"] by (simp add: parsed_or_zero_def)
    qed
    have "int ?k \<le> 9223372036854775807" using bound by linarith
    then have t: "parsed_or_zero (CP_ToSequence cp) = int ?k" using e parse_show [of "int ?k"] by (simp add: ends_at_def parsed_or_zero_def)
    let ?r = "\<lparr>CR_digest = digest, CR_payload = cp, CR_envelope = None, CR_from = parsed_or_zero (CP_FromSequence cp),
      CR_to = parsed_or_zero (CP_ToSequence cp), CR_issued = pg_time (CP_IssuedAt cp), CR_quorum = None\<rparr>"
    have iss: "CP_IssuedAt cp = issuedAt" by (rule Build_ends [OF b])
    have "covered (PE_audit env) (S_PublicOrigin srv) ?rows None 0 (AD_checkpoints db @ [?r])"
    proof (rule covered_snoc)
      show "covered (PE_audit env) (S_PublicOrigin srv) ?rows None 0 (AD_checkpoints db)" using inv by (simp add: log_inv_def)
      show "Build (PE_audit env) (S_PublicOrigin srv) (interval ?rows ?n ?k) (last_or None (map CR_payload (AD_checkpoints db)))
          (CP_IssuedAt (CR_payload ?r)) = Inr (CR_payload ?r)" using b iss by (simp add: newest_payload)
    qed (use f t n(1) in auto)
    then have "log_inv env srv (db\<lparr>AD_checkpoints := AD_checkpoints db @ [?r]\<rparr>)"
      using inv 2(2) by (auto simp: log_inv_def signed_ok_def quorum_ok_def)
    then show ?thesis using 2(3,4) by (intro disjI2 exI [of _ ?r]) simp
  qed blast
qed

lemma choose_cases:
  assumes "log_inv env srv db" "choose_checkpoint (PE_audit env) (S_PublicOrigin srv) now issuedAt db = Inr (out, db')"
  shows "log_inv env srv db'" "out = Some (cp, digest) \<Longrightarrow> \<exists>r\<in>set (AD_checkpoints db'). CR_payload r = cp \<and> CR_digest r = digest"
proof -
  have "log_inv env srv db' \<and> (\<forall>cp digest. out = Some (cp, digest) \<longrightarrow>
      (\<exists>r\<in>set (AD_checkpoints db'). CR_payload r = cp \<and> CR_digest r = digest))"
  proof (cases "\<exists>r. newest_checkpoint db = Some r \<and> CR_envelope r = None")
    case True
    then obtain r where r: "newest_checkpoint db = Some r" "CR_envelope r = None" by blast
    then have "r \<in> set (AD_checkpoints db)" by (auto simp: newest_checkpoint_def split: if_splits)
    then show ?thesis using assms r by (auto simp: choose_checkpoint_def)
  next
    case False
    then have "issue_checkpoint (PE_audit env) (S_PublicOrigin srv) now issuedAt db (newest_checkpoint db) = Inr (out, db')"
      using assms(2) by (auto simp: choose_checkpoint_def split: option.splits if_splits)
    from issue_cases [OF assms(1) this] assms(1) show ?thesis by auto
  qed
  then show "log_inv env srv db'" "out = Some (cp, digest) \<Longrightarrow> \<exists>r\<in>set (AD_checkpoints db'). CR_payload r = cp \<and> CR_digest r = digest"
    by auto
qed

lemma sign_row_simps [simp]:
  "CR_digest (sign_row d e r) = CR_digest r" "CR_payload (sign_row d e r) = CR_payload r" "CR_from (sign_row d e r) = CR_from r"
  "CR_to (sign_row d e r) = CR_to r" "CR_quorum (sign_row d e r) = CR_quorum r" "CR_issued (sign_row d e r) = CR_issued r"
  by (simp_all add: sign_row_def)

lemma quorum_row_simps [simp]:
  "CR_digest (quorum_row d t r) = CR_digest r" "CR_payload (quorum_row d t r) = CR_payload r" "CR_from (quorum_row d t r) = CR_from r"
  "CR_to (quorum_row d t r) = CR_to r" "CR_envelope (quorum_row d t r) = CR_envelope r" "CR_issued (quorum_row d t r) = CR_issued r"
  by (simp_all add: quorum_row_def)

lemma tick_inv:
  assumes inv: "log_inv env srv db" and t: "checkpointTick env srv sign stored now issuedAt db = (out, db')"
    and scheme: "\<And>key. S_ReceiptSigner srv = Some key \<Longrightarrow> key_scheme (pcrypto env) key sign"
  shows "log_inv env srv db'"
proof (cases "S_ReceiptSigner srv")
  case (Some key)
  show ?thesis
  proof (cases "choose_checkpoint (PE_audit env) (S_PublicOrigin srv) now issuedAt db")
    case (Inr x)
    obtain chosen db1 where x: "x = (chosen, db1)" by (cases x)
    note c = choose_cases [OF inv Inr [unfolded x]]
    show ?thesis
    proof (cases chosen)
      case (Some y)
      obtain cp digest where y: "chosen = Some (cp, digest)" using Some by (cases y) auto
      obtain r where r: "r \<in> set (AD_checkpoints db1)" "CR_payload r = cp" "CR_digest r = digest" using c(2) [OF y] by blast
      consider "db' = db1" | e where "Sign (pcrypto env) (S_ReceiptKeyID srv) key sign (PE_marshal env cp) = Inr e"
        "db' = db1\<lparr>AD_checkpoints := map (sign_row digest e) (AD_checkpoints db1)\<rparr>"
        using t Inr x y \<open>S_ReceiptSigner srv = Some key\<close>
        by (auto simp: checkpointTick_def res_simps split: sum.splits)
      then show ?thesis
      proof cases
        case (2 e)
        have same: "CR_payload q = cp" if "q \<in> set (AD_checkpoints db1)" "CR_digest q = digest" for q
          using c(1) r that by (metis log_inv_def distinct_map inj_onD)
        have "signed_ok env srv (sign_row digest e q) \<and> quorum_ok env srv (AD_receipts db1) (sign_row digest e q)"
          if "q \<in> set (AD_checkpoints db1)" for q
        proof -
          have "signed_ok env srv q" "quorum_ok env srv (AD_receipts db1) q" using c(1) that by (auto simp: log_inv_def)
          then show ?thesis using same [OF that] 2(1) scheme \<open>S_ReceiptSigner srv = Some key\<close>
            by (auto simp: sign_row_def signed_ok_def quorum_ok_def)
        qed
        then show ?thesis using c(1) unfolding 2(2) log_inv_def by (simp add: covered_map comp_def)
      qed (use c(1) in simp)
    qed (use t Inr x c(1) \<open>S_ReceiptSigner srv = Some key\<close> in \<open>simp add: checkpointTick_def\<close>)
  qed (use t inv Some in \<open>simp add: checkpointTick_def\<close>)
qed (use t inv in \<open>simp add: checkpointTick_def\<close>)

section \<open>More receipts keep a quorum\<close>

lemma quorum_votes_mono: "set ws \<subseteq> set ws' \<Longrightarrow> len (quorum_votes env p ws keys ops) \<le> len (quorum_votes env p ws' keys ops)"
proof -
  assume "set ws \<subseteq> set ws'"
  then have "set (quorum_votes env p ws keys ops) \<subseteq> set (quorum_votes env p ws' keys ops)" by (auto simp: quorum_votes_def)
  then have "card (set (quorum_votes env p ws keys ops)) \<le> card (set (quorum_votes env p ws' keys ops))" by (rule card_mono [OF finite_set])
  moreover have "distinct (quorum_votes env p ws keys ops)" "distinct (quorum_votes env p ws' keys ops)" by (simp_all add: quorum_votes_def)
  ultimately show ?thesis by (simp add: distinct_card len_def)
qed

lemma VerifyQuorum_mono:
  assumes "VerifyQuorum env p ws keys ops q = Inr ()" "set ws \<subseteq> set ws'"
  shows "VerifyQuorum env p ws' keys ops q = Inr ()"
  using assms(1) quorum_votes_mono [OF assms(2), of env p keys ops]
  by (auto simp: VerifyQuorum_def Let_def res_simps split: if_splits)

lemma receipts_grow: "set (receipts_for d rows) \<subseteq> set (receipts_for d (store_receipt digest e rows))"
  by (auto simp: receipts_for_def store_receipt_def Let_def)

lemma quorum_ok_grow: "quorum_ok env srv rows r \<Longrightarrow> quorum_ok env srv (store_receipt digest e rows) r"
  unfolding quorum_ok_def using VerifyQuorum_mono [OF _ receipts_grow] by blast

lemma receipt_inv:
  assumes inv: "log_inv env srv db" and w: "witnessReceipt env srv digest e now db = Inr (quorum, db')"
  shows "log_inv env srv db'"
proof -
  obtain h row p where h: "S_TrustHistory srv = Some h" and row: "find (\<lambda>r. CR_digest r = digest \<and> CR_envelope r \<noteq> None) (AD_checkpoints db) = Some row"
    "CR_envelope row = Some p"
    and q: "quorum = is_ok (VerifyQuorum (pcrypto env) p (receipts_for digest (store_receipt digest e (AD_receipts db)))
        (KeysAt (pcrypto env) h ''audit-witness'' (CR_issued row)) (WitnessOperatorsAt h (CR_issued row)) 2)"
    and db': "db' = db\<lparr>AD_receipts := store_receipt digest e (AD_receipts db),
             AD_checkpoints := (if quorum then map (quorum_row digest now) (AD_checkpoints db) else AD_checkpoints db)\<rparr>"
    using w by (auto simp: witnessReceipt_def http_fail_def Let_def res_simps split: option.splits if_splits)
  have m: "row \<in> set (AD_checkpoints db)" "CR_digest row = digest" using row(1) by (auto simp: find_Some_iff)
  have rows: "signed_ok env srv r \<and> quorum_ok env srv (store_receipt digest e (AD_receipts db)) r" if "r \<in> set (AD_checkpoints db)" for r
    using inv that quorum_ok_grow unfolding log_inv_def by blast
  have "quorum_ok env srv (store_receipt digest e (AD_receipts db)) (quorum_row digest now r) \<and> signed_ok env srv (quorum_row digest now r)"
    if r: "r \<in> set (AD_checkpoints db)" and quorum for r
  proof (cases "CR_digest r = digest")
    case True
    then have "r = row" using inv r m by (metis log_inv_def distinct_map inj_onD)
    then show ?thesis using \<open>quorum\<close> q h row(2) m rows [OF r] True by (auto simp: quorum_ok_def signed_ok_def is_ok_iff)
  next
    case False
    then show ?thesis using rows [OF r] by (simp add: quorum_row_def)
  qed
  then show ?thesis using inv rows unfolding db' log_inv_def by (auto simp: covered_map comp_def)
qed

definition log_env_ok :: "'k platform_env \<Rightarrow> (string \<Rightarrow> string) \<Rightarrow> bool" where
  "log_env_ok env jsonb \<longleftrightarrow> sha_ok (Sha (pcrypto env)) \<and> jsonb_ok (pcrypto env) jsonb"

interpretation audit_log: invariant_system log_start "log_step env srv jsonb" "\<lambda>db. log_env_ok env jsonb \<longrightarrow> log_inv env srv db"
  for env :: "'k platform_env" and srv jsonb
proof
  show "log_env_ok env jsonb \<longrightarrow> log_inv env srv db" if "log_start db" for db
    using that by (auto simp: log_start_def log_inv_def rows_ok_def)
  show "log_env_ok env jsonb \<longrightarrow> log_inv env srv t"
    if "log_env_ok env jsonb \<longrightarrow> log_inv env srv db" "log_step env srv jsonb db t" for db t
    using that(2)
  proof cases
    case (append_event kind payload rows)
    show ?thesis
    proof
      assume ok: "log_env_ok env jsonb"
      then have inv: "log_inv env srv db" using that(1) by blast
      have a: "rows_ok (pcrypto env) rows \<and> (\<exists>r. rows = AD_events db @ [r])"
        by (rule audit_keeps_rows [OF _ _ _ append_event(3,4,2)]) (use ok inv in \<open>auto simp: log_env_ok_def log_inv_def\<close>)
      then show "log_inv env srv t" using inv append_event(1) covered_grow by (auto simp: log_inv_def)
    qed
  next
    case (tick sign stored now issuedAt out)
    then show ?thesis using that(1) tick_inv by blast
  next
    case (receipt digest e now quorum)
    then show ?thesis using that(1) receipt_inv by blast
  qed
qed

section \<open>What is served verifies\<close>

lemma Build_kind: "Build env l es p t = Inr cp \<Longrightarrow> CP_APIVersion cp = APIVersion \<and> CP_Kind cp = ''AuditCheckpoint''"
  by (auto simp: Build_def res_simps)

lemma covered_split:
  assumes "covered env origin rows prev n (xs @ r # ys)"
  shows "\<exists>m k. m \<le> k \<and> k \<le> length rows \<and> CR_from r = int m + 1 \<and> CR_to r = int k \<and>
    Build env origin (interval rows m k) (last_or prev (map CR_payload xs)) (CP_IssuedAt (CR_payload r)) = Inr (CR_payload r)"
  using assms
proof (induction xs arbitrary: prev n)
  case (Cons x xs)
  then show ?case by auto
qed auto

lemma served_interval:
  assumes "rows_ok env rows" "m \<le> k" "k \<le> length rows" "CR_from r = int m + 1" "CR_to r = int k"
  shows "served_events rows r = interval rows m k"
proof (cases "m = k")
  case False
  have "nat (int k - int m) = k - m" using assms(2) by simp
  then show ?thesis using False assms readAuditEvents_rows [OF assms(1), of m "int k - int m"]
    by (simp add: served_events_def interval_def)
qed (use assms in \<open>simp add: served_events_def interval_def\<close>)

definition publisher_codec :: "'k platform_env \<Rightarrow> bool" where
  "publisher_codec env \<longleftrightarrow> json_roundtrip (PE_audit env) \<and>
     (\<forall>c raw. PE_marshal env c = Inr raw \<longrightarrow> CanonJSON (pcrypto env) raw = CheckpointJSON (PE_audit env) c) \<and>
     (\<forall>c d. CheckpointJSON (PE_audit env) c = Inr d \<longrightarrow> CanonJSON (pcrypto env) d = Inr d \<and> len d \<le> MaxDocumentBytes)"

lemma signed_row_verifies:
  assumes "publisher_codec env" "key_scheme (pcrypto env) key sign" "lookup keys kid = Some key"
    "Sign (pcrypto env) kid key sign (PE_marshal env cp) = Inr e"
  shows "\<exists>d. CheckpointJSON (PE_audit env) cp = Inr d \<and> Verify (pcrypto env) e keys = Inr d"
proof -
  obtain raw d s where "PE_marshal env cp = Inr raw" "CanonJSON (pcrypto env) raw = Inr d" "sign (Sha (pcrypto env) (pae PayloadType d)) = Inr s"
    "IsP256 (pcrypto env) key"
    and e: "e = \<lparr>Envelope_PayloadType = PayloadType, Envelope_Payload = b64_encode d,
       Envelope_Signatures = [\<lparr>Signature_KeyID = kid, Signature_Sig = b64_encode s\<rparr>]\<rparr>"
    using assms(4) by (auto simp: Sign_def res_simps)
  then have d: "CheckpointJSON (PE_audit env) cp = Inr d" and "signature_valid (pcrypto env) PayloadType d key (b64_encode s)"
    using assms(1,2) by (auto simp: publisher_codec_def signature_valid_def key_scheme_def)
  moreover have "CanonJSON (pcrypto env) d = Inr d" "len d \<le> MaxDocumentBytes" using assms(1) d by (auto simp: publisher_codec_def)
  moreover have "len (b64_encode d) \<le> 2 * MaxDocumentBytes"
    using len_b64_encode [of d] calculation(4) by (simp add: MaxDocumentBytes_def)
  ultimately show ?thesis using assms(3) by (simp add: e Verify_def verify_step_def len_def)
qed

lemma served_verifies:
  assumes "log_inv env srv db" "publisher_codec env" "AD_checkpoints db = xs @ r # ys" "CR_envelope r = Some e"
    "\<And>key. S_ReceiptSigner srv = Some key \<Longrightarrow> lookup keys (S_ReceiptKeyID srv) = Some key"
    "CP_IssuedAt (CR_payload r) \<le> now + 5 * 60 * 1000000000"
  shows "VerifyCheckpoint (PE_audit env) e keys (served_events (AD_events db) r) (last_or None (map CR_payload xs)) now = Inr (CR_payload r)"
proof -
  have rows: "rows_ok (pcrypto env) (AD_events db)" and "signed_ok env srv r"
    and c: "covered (PE_audit env) (S_PublicOrigin srv) (AD_events db) None 0 (xs @ r # ys)"
    using assms(1,3) by (auto simp: log_inv_def)
  then obtain key sign where k: "S_ReceiptSigner srv = Some key" "key_scheme (pcrypto env) key sign"
    "Sign (pcrypto env) (S_ReceiptKeyID srv) key sign (PE_marshal env (CR_payload r)) = Inr e" using assms(4) by (auto simp: signed_ok_def)
  obtain d where d: "CheckpointJSON (PE_audit env) (CR_payload r) = Inr d" "Verify (pcrypto env) e keys = Inr d"
    using signed_row_verifies [OF assms(2) k(2) assms(5) [OF k(1)] k(3)] by blast
  obtain m n where mn: "m \<le> n" "n \<le> length (AD_events db)" "CR_from r = int m + 1" "CR_to r = int n"
    "Build (PE_audit env) (S_PublicOrigin srv) (interval (AD_events db) m n) (last_or None (map CR_payload xs)) (CP_IssuedAt (CR_payload r)) = Inr (CR_payload r)"
    using covered_split [OF c] by blast
  have "CP_LogID (CR_payload r) = S_PublicOrigin srv" by (rule Build_ends [OF mn(5)])
  moreover have "CP_APIVersion (CR_payload r) = APIVersion" "CP_Kind (CR_payload r) = ''AuditCheckpoint''"
    using Build_kind [OF mn(5)] by simp_all
  moreover have "DecodeCheckpoint (PE_audit env) d = Inr (CR_payload r)" using assms(2) d(1) by (simp add: publisher_codec_def json_roundtrip_def)
  ultimately show ?thesis using d(2) mn(5) assms(6) served_interval [OF rows mn(1-4)]
    by (simp add: VerifyCheckpoint_def)
qed

lemma next_builds:
  assumes ok: "sha_ok (Sha (pcrypto env))" and inv: "log_inv env srv db"
    and prev: "\<And>r. newest_checkpoint db = Some r \<Longrightarrow> is_ok (CheckpointJSON (PE_audit env) (CR_payload r)) \<and> CP_IssuedAt (CR_payload r) \<le> issuedAt \<and>
      CR_to r < 9223372036854775807"
    and origin: "S_PublicOrigin srv \<noteq> []" "len (S_PublicOrigin srv) \<le> 128" "issuedAt \<noteq> 0"
  shows "is_ok (Build (PE_audit env) (S_PublicOrigin srv) (next_events db) (map_option CR_payload (newest_checkpoint db)) issuedAt)"
proof -
  let ?n = "end_of 0 (AD_checkpoints db)"
  have rows: "rows_ok (pcrypto env) (AD_events db)" using inv by (simp add: log_inv_def)
  note n = log_inv_ends [OF inv]
  have "\<exists>c. build_prior (PE_audit env) (S_PublicOrigin srv) (map_option CR_payload (newest_checkpoint db)) issuedAt
      = Inr (int ?n + 1, int ?n, c, digest_after Genesis (map event_of (take ?n (AD_events db))))"
  proof (cases "newest_checkpoint db")
    case None
    then show ?thesis using n(2) by (auto simp: ends_at_def build_prior_def digest_after_def)
  next
    case (Some r)
    have "int (length (AD_events db)) \<le> 9223372036854775807" using rows unfolding rows_ok_def by blast
    then have seq: "sequence (show_int (int ?n)) = Inr (int ?n)" using n(1) by (intro show_int_sequence) auto
    have r: "AD_checkpoints db \<noteq> []" "r = last (AD_checkpoints db)" using Some by (auto simp: newest_checkpoint_def split: if_splits)
    have "int ?n \<noteq> 9223372036854775807"
      using prev [OF Some] r by (auto simp: end_of_def)
    moreover obtain d where "CheckpointJSON (PE_audit env) (CR_payload r) = Inr d" using prev [OF Some] by (auto simp: is_ok_iff)
    ultimately show ?thesis using Some n(2) seq prev [OF Some]
      by (auto simp: ends_at_def build_prior_def CanonicalDigest_def fail_if_def)
  qed
  then obtain c where "build_prior (PE_audit env) (S_PublicOrigin srv) (map_option CR_payload (newest_checkpoint db)) issuedAt
      = Inr (int ?n + 1, int ?n, c, digest_after Genesis (map event_of (take ?n (AD_events db))))" by blast
  from interval_builds [OF ok rows n(1) this origin] show ?thesis
    by (simp add: next_events_def next_interval [OF n(1)])
qed

section \<open>Properties\<close>

text \<open>C38: the platform never gets stuck on its own log.  In every reachable state of the tables the events that
  follow the newest checkpoint, as \<open>checkpointTick\<close> reads them, can be built into the next checkpoint, if the
  newest one can be encoded, time has not gone back and the sequence is not exhausted.\<close>

theorem next_checkpoint_builds:
  assumes "log_env_ok env jsonb" "reachable log_start (log_step env srv jsonb) db"
    and "\<And>r. newest_checkpoint db = Some r \<Longrightarrow> is_ok (CheckpointJSON (PE_audit env) (CR_payload r)) \<and>
      CP_IssuedAt (CR_payload r) \<le> issuedAt \<and> CR_to r < 9223372036854775807"
    and "S_PublicOrigin srv \<noteq> []" "len (S_PublicOrigin srv) \<le> 128" "issuedAt \<noteq> 0"
  shows "is_ok (Build (PE_audit env) (S_PublicOrigin srv)
    (readAuditEvents (AD_events db) (case newest_checkpoint db of None \<Rightarrow> 0 | Some r \<Rightarrow> CR_to r) 1000)
    (map_option CR_payload (newest_checkpoint db)) issuedAt)"
proof -
  have inv: "log_inv env srv db" using audit_log.reachable_inv [OF assms(2)] assms(1) by blast
  have rows: "rows_ok (pcrypto env) (AD_events db)" using inv by (simp add: log_inv_def)
  note n = log_inv_ends(1) [OF inv]
  have "(case newest_checkpoint db of None \<Rightarrow> 0 | Some r \<Rightarrow> CR_to r) = int (end_of 0 (AD_checkpoints db))"
  proof (cases "AD_checkpoints db" rule: rev_cases)
    case (snoc xs x)
    then have "covered (PE_audit env) (S_PublicOrigin srv) (AD_events db) None 0 (xs @ [x])" using inv by (simp add: log_inv_def)
    from covered_split [OF this] show ?thesis using snoc by (auto simp: newest_checkpoint_def end_of_def)
  qed (simp add: newest_checkpoint_def end_of_def)
  then have "readAuditEvents (AD_events db) (case newest_checkpoint db of None \<Rightarrow> 0 | Some r \<Rightarrow> CR_to r) 1000 = next_events db"
    using readAuditEvents_rows [OF rows n, of 1000] next_interval [OF n] by (simp add: next_events_def)
  moreover have "sha_ok (Sha (pcrypto env))" using assms(1) by (simp add: log_env_ok_def)
  ultimately show ?thesis using next_builds [OF _ inv assms(3-6)] by simp
qed

text \<open>C39: what the platform publishes is what witnesses accept.  In every reachable state each signed checkpoint,
  with the events that \<open>publicCheckpoints\<close> serves for it and the preceding row as predecessor, passes
  \<open>VerifyCheckpoint\<close> for every observer whose keys contain the platform's.\<close>

theorem served_checkpoints_verify:
  assumes "log_env_ok env jsonb" "publisher_codec env" "reachable log_start (log_step env srv jsonb) db"
    and "AD_checkpoints db = xs @ r # ys" "CR_envelope r = Some e"
    and "\<And>key. S_ReceiptSigner srv = Some key \<Longrightarrow> lookup keys (S_ReceiptKeyID srv) = Some key"
    and "CP_IssuedAt (CR_payload r) \<le> now + 5 * 60 * 1000000000"
  shows "VerifyCheckpoint (PE_audit env) e keys (served_events (AD_events db) r) (last_or None (map CR_payload xs)) now = Inr (CR_payload r)"
  by (rule served_verifies [OF _ assms(2,4-7)]) (use audit_log.reachable_inv [OF assms(3)] assms(1) in blast)

text \<open>C40: a checkpoint counts as witnessed only with a quorum: two registered keys of different operators and
  different fingerprints, in force when it was issued, have receipts stored whose signatures cover the platform's
  payload.  Receipts that arrive later do not undo it.\<close>

theorem witnessed_checkpoint_sound:
  assumes "log_env_ok env jsonb" "reachable log_start (log_step env srv jsonb) db" "r \<in> set (AD_checkpoints db)" "CR_quorum r \<noteq> None"
  shows "\<exists>h e k1 k2 op1 op2 key1 key2. S_TrustHistory srv = Some h \<and> CR_envelope r = Some e \<and> op1 \<noteq> op2 \<and>
    lookup (WitnessOperatorsAt h (CR_issued r)) k1 = Some op1 \<and> lookup (WitnessOperatorsAt h (CR_issued r)) k2 = Some op2 \<and>
    lookup (KeysAt (pcrypto env) h ''audit-witness'' (CR_issued r)) k1 = Some key1 \<and>
    lookup (KeysAt (pcrypto env) h ''audit-witness'' (CR_issued r)) k2 = Some key2 \<and>
    Fingerprint (pcrypto env) key1 \<noteq> Fingerprint (pcrypto env) key2 \<and>
    endorses (pcrypto env) e (receipts_for (CR_digest r) (AD_receipts db)) k1 key1 \<and>
    endorses (pcrypto env) e (receipts_for (CR_digest r) (AD_receipts db)) k2 key2"
proof -
  have "log_inv env srv db" using audit_log.reachable_inv [OF assms(2)] assms(1) by blast
  then obtain h e where he: "S_TrustHistory srv = Some h" "CR_envelope r = Some e"
    and q: "VerifyQuorum (pcrypto env) e (receipts_for (CR_digest r) (AD_receipts db)) (KeysAt (pcrypto env) h ''audit-witness'' (CR_issued r))
       (WitnessOperatorsAt h (CR_issued r)) 2 = Inr ()" using assms(3,4) by (auto simp: log_inv_def quorum_ok_def)
  show ?thesis
  proof (rule quorum_members [OF q])
  qed (use he in blast)
qed

section \<open>A run\<close>

definition demo_platform :: "string platform_env" where
  "demo_platform = \<lparr>PE_audit = demo_audit, PE_history = demo_histories, PE_marshal = CheckpointJSON demo_audit,
     PE_release = (\<lambda>_. Inl (Err ''decode'')), PE_url = (\<lambda>_. None)\<rparr>"

definition demo_server :: "string server" where
  "demo_server = \<lparr>S_DeploymentMode = ''staging'', S_PublicOrigin = ''log'', S_ReceiptKeyID = ''root'', S_ReceiptKMSKeyID = [],
     S_RootKeyID = ''root'', S_SourceCommit = [], S_TrustHistory = Some (demo_trust\<lparr>H_Delegations :=
       [demo_grant ''w1'' ''audit-witness'', demo_grant ''w2'' ''audit-witness'']\<rparr>), S_TrustedRootKey = ''root'',
     S_ReleaseEnvelope = None, S_ReceiptSigner = Some ''root''\<rparr>"

definition demo_log0 :: audit_db where
  "demo_log0 = \<lparr>AD_events = [], AD_checkpoints = [], AD_receipts = []\<rparr>"

definition demo_log1 :: audit_db where
  "demo_log1 = demo_log0\<lparr>AD_events := [\<lparr>AR_sequence = 1, AR_kind = ''boot'', AR_payload = ''{}'', AR_previous = Genesis,
     AR_digest = Event_Digest demo_event\<rparr>]\<rparr>"

definition demo_row :: "go_time option \<Rightarrow> checkpoint_row" where
  "demo_row quorum = \<lparr>CR_digest = DigestBytes demo_sha ''{cp}'', CR_payload = demo_checkpoint, CR_envelope = Some (demo_sealed ''root''),
     CR_from = 1, CR_to = 1, CR_issued = 1000, CR_quorum = quorum\<rparr>"

definition demo_log2 :: audit_db where
  "demo_log2 = demo_log1\<lparr>AD_checkpoints := [demo_row None]\<rparr>"

definition demo_log3 :: audit_db where
  "demo_log3 = demo_log2\<lparr>AD_receipts := [\<lparr>WRR_checkpoint = DigestBytes demo_sha ''{cp}'', WRR_keyID = ''w1'', WRR_envelope = demo_sealed ''w1''\<rparr>]\<rparr>"

definition demo_log4 :: audit_db where
  "demo_log4 = demo_log3\<lparr>AD_checkpoints := [demo_row (Some 5000)], AD_receipts := AD_receipts demo_log3 @
     [\<lparr>WRR_checkpoint = DigestBytes demo_sha ''{cp}'', WRR_keyID = ''w2'', WRR_envelope = demo_sealed ''w2''\<rparr>]\<rparr>"

lemma demo_audit_step: "audit (pcrypto demo_platform) (\<lambda>x. x) ''boot'' ''{}'' (AD_events demo_log0) = Inr (AD_events demo_log1)"
proof -
  have "case audit (pcrypto demo_platform) (\<lambda>x. x) ''boot'' ''{}'' (AD_events demo_log0) of Inl _ \<Rightarrow> False | Inr rows \<Rightarrow> rows = AD_events demo_log1"
    by code_simp
  then show ?thesis by (auto split: sum.splits)
qed

lemma demo_tick_step:
  "checkpointTick demo_platform demo_server (\<lambda>h. Inr (''root'' @ h)) (Inr ()) 1000 1000 demo_log1 = (Inr (), demo_log2)"
proof -
  have "case checkpointTick demo_platform demo_server (\<lambda>h. Inr (''root'' @ h)) (Inr ()) 1000 1000 demo_log1 of
      (Inl _, _) \<Rightarrow> False | (Inr _, db) \<Rightarrow> db = demo_log2" by code_simp
  then show ?thesis
    by (cases "fst (checkpointTick demo_platform demo_server (\<lambda>h. Inr (''root'' @ h)) (Inr ()) 1000 1000 demo_log1)")
      (auto split: sum.splits prod.splits)
qed

lemma demo_receipt_steps:
  "witnessReceipt demo_platform demo_server (DigestBytes demo_sha ''{cp}'') (demo_sealed ''w1'') 4000 demo_log2 = Inr (False, demo_log3)"
  "witnessReceipt demo_platform demo_server (DigestBytes demo_sha ''{cp}'') (demo_sealed ''w2'') 5000 demo_log3 = Inr (True, demo_log4)"
proof -
  have "case witnessReceipt demo_platform demo_server (DigestBytes demo_sha ''{cp}'') (demo_sealed ''w1'') 4000 demo_log2 of
      Inl _ \<Rightarrow> False | Inr (q, db) \<Rightarrow> \<not> q \<and> db = demo_log3" by code_simp
  then show "witnessReceipt demo_platform demo_server (DigestBytes demo_sha ''{cp}'') (demo_sealed ''w1'') 4000 demo_log2 = Inr (False, demo_log3)"
    by (auto split: sum.splits)
  have "case witnessReceipt demo_platform demo_server (DigestBytes demo_sha ''{cp}'') (demo_sealed ''w2'') 5000 demo_log3 of
      Inl _ \<Rightarrow> False | Inr (q, db) \<Rightarrow> q \<and> db = demo_log4" by code_simp
  then show "witnessReceipt demo_platform demo_server (DigestBytes demo_sha ''{cp}'') (demo_sealed ''w2'') 5000 demo_log3 = Inr (True, demo_log4)"
    by (auto split: sum.splits)
qed

lemma demo_log_env: "log_env_ok demo_platform (\<lambda>x. x)" "publisher_codec demo_platform"
proof -
  show "log_env_ok demo_platform (\<lambda>x. x)"
    using demo_sha_ok by (simp add: log_env_ok_def jsonb_ok_def demo_platform_def demo_audit_def demo_crypto_def)
  show "publisher_codec demo_platform"
    using demo_roundtrip
    by (auto simp: publisher_codec_def demo_platform_def demo_audit_def demo_crypto_def len_def MaxDocumentBytes_def split: if_splits)
qed

lemma demo_log_reachable:
  "reachable log_start (log_step demo_platform demo_server (\<lambda>x. x)) demo_log2"
  "reachable log_start (log_step demo_platform demo_server (\<lambda>x. x)) demo_log4"
proof -
  let ?R = "reachable log_start (log_step demo_platform demo_server (\<lambda>x. x))"
  have r0: "?R demo_log0" by (rule reachable_init) (simp add: log_start_def demo_log0_def)
  have "log_step demo_platform demo_server (\<lambda>x. x) demo_log0 (demo_log0\<lparr>AD_events := AD_events demo_log1\<rparr>)"
    by (rule append_event [OF demo_audit_step]) (simp_all add: kind_ok_def len_def demo_log0_def)
  moreover have "demo_log0\<lparr>AD_events := AD_events demo_log1\<rparr> = demo_log1" by (simp add: demo_log1_def)
  ultimately have r1: "?R demo_log1" using reachable_step [OF r0] by metis
  have "log_step demo_platform demo_server (\<lambda>x. x) demo_log1 demo_log2"
    by (rule tick [OF demo_tick_step]) (simp add: key_scheme_def demo_server_def demo_platform_def demo_audit_def demo_crypto_def)
  with r1 show r2: "?R demo_log2" by (rule reachable_step)
  have "log_step demo_platform demo_server (\<lambda>x. x) demo_log2 demo_log3" by (rule receipt [OF demo_receipt_steps(1)])
  with r2 have r3: "?R demo_log3" by (rule reachable_step)
  have "log_step demo_platform demo_server (\<lambda>x. x) demo_log3 demo_log4" by (rule receipt [OF demo_receipt_steps(2)])
  with r3 show "?R demo_log4" by (rule reachable_step)
qed

theorem next_checkpoint_builds_witness:
  "is_ok (Build (PE_audit demo_platform) (S_PublicOrigin demo_server)
    (readAuditEvents (AD_events demo_log4) (case newest_checkpoint demo_log4 of None \<Rightarrow> 0 | Some r \<Rightarrow> CR_to r) 1000)
    (map_option CR_payload (newest_checkpoint demo_log4)) 9000)"
  by (rule next_checkpoint_builds [OF demo_log_env(1) demo_log_reachable(2)])
    (auto simp: newest_checkpoint_def demo_log4_def demo_row_def demo_platform_def demo_audit_def demo_server_def demo_checkpoint_def len_def)

theorem served_checkpoints_verify_witness:
  "VerifyCheckpoint (PE_audit demo_platform) (demo_sealed ''root'') [(''root'', ''root'')] (served_events (AD_events demo_log2) (demo_row None))
     (last_or None (map CR_payload ([] :: checkpoint_row list))) 2000 = Inr (CR_payload (demo_row None))"
  by (rule served_checkpoints_verify [OF demo_log_env demo_log_reachable(1)])
    (auto simp: demo_log2_def demo_row_def demo_server_def demo_checkpoint_def)

theorem witnessed_checkpoint_sound_witness:
  "\<exists>h op1 op2 k1 k2. S_TrustHistory demo_server = Some h \<and> op1 \<noteq> op2 \<and>
    lookup (WitnessOperatorsAt h 1000) k1 = Some op1 \<and> lookup (WitnessOperatorsAt h 1000) k2 = Some op2"
proof -
  have "demo_row (Some 5000) \<in> set (AD_checkpoints demo_log4)" "CR_quorum (demo_row (Some 5000)) \<noteq> None"
    "CR_issued (demo_row (Some 5000)) = 1000" by (simp_all add: demo_log4_def demo_row_def)
  with witnessed_checkpoint_sound [OF demo_log_env(1) demo_log_reachable(2) this(1,2)] show ?thesis by metis
qed

end
