(* ===== verification/Judging.thy ===== *)
theory Judging
  imports Results
begin

text \<open>
  Comparisons of stored scores (\<open>better\<close>, \<open>crosses\<close>, \<open>meaningful\<close>, \<open>ConfirmedScore\<close> and
  \<open>verifiedStatus\<close> of \<open>internal/platform/adjudication.go\<close>).  They read ticks with \<open>big.Int.SetString\<close>, which accepts
  more spellings than \<open>ParseTicks\<close>, and take every direction but one for the other; the lemmas show that on the
  values that reach them they agree with the protocol's own definitions.
\<close>

definition better :: "string \<Rightarrow> string \<Rightarrow> string \<Rightarrow> bool" where
  "better a b direction =
     (case big_set_string a of None \<Rightarrow> False | Some x \<Rightarrow>
      case big_set_string b of None \<Rightarrow> False | Some y \<Rightarrow>
      if direction = ''maximize'' then x > y else x < y)"

definition crosses :: "string \<Rightarrow> string \<Rightarrow> string \<Rightarrow> bool" where
  "crosses score threshold direction =
     (case big_set_string score of None \<Rightarrow> False | Some x \<Rightarrow>
      case big_set_string threshold of None \<Rightarrow> False | Some y \<Rightarrow>
      if direction = ''maximize'' then x \<ge> y else x \<le> y)"

definition meaningful :: "string \<Rightarrow> string \<Rightarrow> Metric \<Rightarrow> bool" where
  "meaningful score prior m =
     (case big_set_string score of None \<Rightarrow> False | Some x \<Rightarrow>
      case big_set_string prior of None \<Rightarrow> False | Some y \<Rightarrow>
      case big_set_string (Metric_MinimumDeltaTicks m) of None \<Rightarrow> False | Some d \<Rightarrow>
      (if Metric_Direction m = ''minimize'' then - (x - y) else x - y) \<ge> d)"

definition ConfirmedScore :: "string \<Rightarrow> string \<Rightarrow> Metric \<Rightarrow> string res" where
  "ConfirmedScore a b m =
     (case big_set_string a of None \<Rightarrow> Inl (Err ''invalid primary ticks'') | Some x \<Rightarrow>
      case big_set_string b of None \<Rightarrow> Inl (Err ''invalid confirmation ticks'') | Some y \<Rightarrow>
      case big_set_string (Metric_ToleranceTicks m) of None \<Rightarrow> Inl (Err ''invalid tolerance ticks'') | Some t \<Rightarrow>
      if \<bar>x - y\<bar> > t then Inl (Err ''independent runs disagree beyond tolerance'')
      else if better a b (Metric_Direction m) then Inr b else Inr a)"

definition verifiedStatus :: "string \<Rightarrow> string \<Rightarrow> string" where
  "verifiedStatus policy outcome =
     (if outcome \<noteq> ''valid'' \<or> \<not> ValidVerificationPolicy policy then []
      else if policy = VerificationIndependent then ''independently_replicated''
      else ''platform_verified'')"

section \<open>Agreement with the protocol\<close>

lemma ParseTicks_text:
  assumes "ParseTicks s = Inr n"
  shows "big_set_string s = Some n"
  using assms by (auto simp: ParseTicks_def res_simps split: option.splits)

text \<open>On canonical ticks the comparisons are those of the protocol.\<close>

lemma crosses_Qualifies:
  assumes "Qualifies score threshold direction = Inr q"
  shows "crosses score threshold direction = q"
  using assms
  by (auto simp: Qualifies_def CompareTicks_def crosses_def big_cmp_def res_simps ParseTicks_text split: if_splits)

lemma better_order:
  assumes "ParseTicks a = Inr x" "ParseTicks b = Inr y"
  shows "better a b d = (if d = ''maximize'' then x > y else x < y)"
  using assms by (simp add: better_def ParseTicks_text)

text \<open>C15: Confirmation on the platform agrees with the protocol: whenever the protocol's own
  \<open>ConfirmScores\<close> accepts two runs, the platform stores the same score for them, and whenever the platform
  confirms two canonical tick strings under a metric that a manifest may declare, so does the protocol.\<close>

theorem ConfirmedScore_agrees:
  assumes "ParseTicks a = Inr x" "ParseTicks b = Inr y" "ParseTicks (Metric_ToleranceTicks m) = Inr t" "0 \<le> t"
    and "Metric_Direction m \<in> {''maximize'', ''minimize''}"
  shows "ConfirmedScore a b m = Inr s \<longleftrightarrow> ConfirmScores a b m = Inr s"
proof -
  have "a = b" if "x = y"
    using assms(1,2) that unfolding ticks.parse_iff by simp
  then show ?thesis
    using assms by (auto simp: ConfirmedScore_def ConfirmScores_def better_order ParseTicks_text res_simps split: if_splits)
qed

theorem ConfirmedScore_agrees_witness:
  "ConfirmedScore ''12'' ''10'' (demo_metric\<lparr>Metric_ToleranceTicks := ''3''\<rparr>) = Inr ''10'' \<longleftrightarrow>
   ConfirmScores ''12'' ''10'' (demo_metric\<lparr>Metric_ToleranceTicks := ''3''\<rparr>) = Inr ''10''"
  by (rule ConfirmedScore_agrees [of _ 12 _ 10 _ 3]) code_simp+

end
