(* ===== verification/Tables.thy ===== *)
theory Tables
  imports AuditLog Judging
begin

text \<open>
  The tables of the platform's database that the life of a submission passes through
  (\<open>migrations/*.sql\<close>), the statements that many handlers share (\<open>enqueue\<close>, \<open>saveReceipt\<close>), and the code outside
  the handlers they use, bundled as the record \<open>service\<close>.

  A table is a list of rows.  Each statement of the source is the corresponding operation on it: a \<open>SELECT\<close> of one
  row is \<open>find\<close>, an \<open>UPDATE\<close> is \<open>update_where\<close>, an \<open>INSERT\<close> that violates a unique key is an error.  A \<open>jsonb\<close>
  column that is read back into the structure it was written from holds that structure.  A transaction is one
  step: on an error it is rolled back and the caller keeps the old tables.  Identifiers that \<open>ID()\<close> or
  \<open>secret()\<close> draw are arguments.  The identifiers of rows in the work queue and the outbox, which nothing reads, are left out.
\<close>

section \<open>Rows\<close>

type_synonym finding = "string \<times> string \<times> string \<times> string"

record candidate_row =
  CA_ID :: string
  CA_Owner :: string
  CA_Digest :: string
  CA_Document :: Candidate
  CA_Status :: string
  CA_Findings :: "finding list"

record challenge_row =
  CH_ID :: string
  CH_Slug :: string
  CH_Owner :: string
  CH_Candidate :: string
  CH_Adoption :: string

text \<open>\<open>CV_Owner\<close> is the owner of the version's challenge, which never changes.\<close>

record challenge_version =
  CV_ID :: string
  CV_Challenge :: string
  CV_Owner :: string
  CV_Repository :: string
  CV_Commit :: string
  CV_Manifest :: "Manifest res"
  CV_SourceDigest :: string
  CV_Status :: string
  CV_Review :: string
  CV_Intake :: string
  CV_Badges :: "string list"
  CV_LockDigest :: "string option"
  CV_Deadline :: go_time
  CV_NextSequence :: int
  CV_Watermark :: int
  CV_Best :: "string option"
  CV_Frontier :: "string option"
  CV_Predecessor :: "string option"
  CV_Transition :: string
  CV_PriorFrontier :: "string option"
  CV_Migration :: "string option"
  CV_Created :: go_time

record submission_intent =
  SI_ID :: string
  SI_Version :: string
  SI_Owner :: string
  SI_Repository :: string
  SI_Ref :: string
  SI_Artifact :: "string option"
  SI_Disk :: "string option"
  SI_Status :: string
  SI_Request :: IntentRequest
  SI_Findings :: "finding list"
  SI_Submission :: "string option"

record submission =
  Sub_ID :: string
  Sub_Version :: string
  Sub_Owner :: string
  Sub_Intent :: string
  Sub_Artifact :: string
  Sub_Disk :: string
  Sub_Sequence :: int
  Sub_Status :: string
  Sub_Outcome :: string
  Sub_Score :: "string option"
  Sub_Public :: bool
  Sub_PublishRequested :: bool
  Sub_Attribution :: "(string, json) gomap"
  Sub_Receipt :: string
  Sub_Adjudication :: "string option"
  Sub_Commitment :: string
  Sub_Salt :: string
  Sub_Grant :: string
  Sub_Created :: go_time

record runner_job =
  RJ_ID :: string
  RJ_Purpose :: string
  RJ_Version :: string
  RJ_Submission :: "string option"
  RJ_Preflight :: "string option"
  RJ_Intent :: "string option"
  RJ_Payload :: RunnerJob
  RJ_Envelope :: "Envelope option"
  RJ_Status :: string
  RJ_Host :: "string option"
  RJ_ExcludedGroup :: "string option"
  RJ_Token :: "string option"
  RJ_Fence :: int
  RJ_Lease :: "go_time option"
  RJ_Attempts :: int
  RJ_Created :: go_time

record runner_result =
  RR_Job :: string
  RR_Host :: string
  RR_Digest :: string
  RR_Envelope :: Envelope
  RR_Result :: RunReceipt

text \<open>The Go values that are put into canonical form and hashed.\<close>

datatype document =
    DocReceipt Receipt
  | DocRun RunReceipt
  | DocJob RunnerJob
  | DocManifest Manifest
  | DocLock Lock
  | DocCandidate Candidate
  | DocReport json
  | DocClaim FrontierClaim
  | DocCapabilities ExecutorCapabilities

record receipt_record =
  RC_Digest :: string
  RC_Payload :: document
  RC_Envelope :: "Envelope option"
  RC_Owner :: "string option"
  RC_Public :: bool

record validation_grant =
  VG_ID :: string
  VG_Owner :: string
  VG_Version :: string
  VG_Artifact :: string
  VG_Status :: string

record milestone_tier =
  MT_ID :: string
  MT_Version :: string
  MT_Title :: string
  MT_Threshold :: string

record milestone_mapping =
  MM_Milestone :: string
  MM_Version :: string
  MM_Threshold :: string

record milestone_claim =
  MC_ID :: string
  MC_Milestone :: string
  MC_Submission :: string
  MC_Receipt :: string

record artifact_row =
  AF_Digest :: string
  AF_Blob :: string
  AF_Size :: int
  AF_MediaType :: string
  AF_Owner :: string
  AF_Public :: "go_time option"

record runner_upload =
  UP_Job :: string
  UP_Role :: string
  UP_Digest :: string
  UP_Size :: int
  UP_Verified :: bool

record preflight_row =
  PF_ID :: string
  PF_Version :: string
  PF_Status :: string
  PF_Findings :: "finding list"
  PF_Report :: "BuildReport option"
  PF_Receipt :: "string option"
  PF_Created :: go_time

record review_run =
  RV_ID :: string
  RV_Version :: string
  RV_Kind :: string
  RV_Status :: string
  RV_Report :: json
  RV_Digest :: string
  RV_Created :: go_time

record editorial_decision =
  ED_ID :: string
  ED_Version :: string
  ED_Editor :: string
  ED_Action :: string
  ED_Reason :: string

record suite_row =
  HS_ID :: string
  HS_Owner :: string
  HS_Commitment :: string
  HS_Ciphertext :: string
  HS_Material :: string
  HS_Revealed :: "go_time option"
  HS_Receipt :: "string option"

record lock_row =
  LK_Digest :: string
  LK_Version :: string
  LK_Document :: Lock

record runner_host =
  HR_ID :: string
  HR_Group :: string
  HR_PublicKey :: string
  HR_Certificate :: string
  HR_Enabled :: bool
  HR_Profile :: string
  HR_Purposes :: "string list"
  HR_EncryptionKey :: string
  HR_Advisory :: string
  HR_Inventory :: string

record runner_profile =
  RP_Host :: string
  RP_Profile :: string
  RP_Config :: string
  RP_Capabilities :: string
  RP_Advisory :: string
  RP_Inventory :: string
  RP_Enabled :: bool

record enrollment =
  EN_Host :: string
  EN_Config :: string
  EN_Template :: string
  EN_Enabled :: bool

text \<open>\<open>capacity_reservations\<close> as pairs of a submission and whether its units were released; the work queue and the
  outbox as pairs of a kind and the resource.\<close>

record platform_db =
  PD_candidates :: "candidate_row list"
  PD_challenges :: "challenge_row list"
  PD_versions :: "challenge_version list"
  PD_intents :: "submission_intent list"
  PD_submissions :: "submission list"
  PD_jobs :: "runner_job list"
  PD_results :: "runner_result list"
  PD_receipts :: "receipt_record list"
  PD_grants :: "validation_grant list"
  PD_maximum :: int
  PD_reserved :: int
  PD_reservations :: "(string \<times> bool) list"
  PD_tiers :: "milestone_tier list"
  PD_mappings :: "milestone_mapping list"
  PD_claims :: "milestone_claim list"
  PD_queue :: "(string \<times> string) list"
  PD_outbox :: "(string \<times> string \<times> json) list"
  PD_artifacts :: "artifact_row list"
  PD_uploads :: "runner_upload list"
  PD_preflights :: "preflight_row list"
  PD_reviews :: "review_run list"
  PD_decisions :: "editorial_decision list"
  PD_suites :: "suite_row list"
  PD_locks :: "lock_row list"
  PD_hosts :: "runner_host list"
  PD_profiles :: "runner_profile list"
  PD_enrollments :: "enrollment list"
  PD_tickets :: "ticket list"
  PD_budgets :: budgets
  PD_audit :: audit_db

section \<open>The service\<close>

text \<open>What \<open>selectRunnerProfile\<close> and \<open>requireExecutor\<close> read of an approved host template.\<close>

record host_template =
  HT_Profile :: string
  HT_Capabilities :: "ExecutorCapabilities option"

record 'k service =
  SE_platform :: "'k platform_env"
  SE_server :: "'k server"
  SE_claims :: claim_env
  SE_canonical :: "document \<Rightarrow> string res"
  SE_marshal :: "json \<Rightarrow> string"
  SE_jsonb :: "string \<Rightarrow> string"
  SE_run :: "string \<Rightarrow> RunReceipt res"
  SE_capabilities :: "string \<Rightarrow> ExecutorCapabilities res"
  SE_template :: "string \<Rightarrow> host_template res"
  SE_activeLimit :: int
  SE_operatorLimit :: int

abbreviation scrypto :: "'k service \<Rightarrow> 'k crypto_env" where
  "scrypto sv \<equiv> pcrypto (SE_platform sv)"

abbreviation deployment :: "'k service \<Rightarrow> string" where
  "deployment sv \<equiv> S_DeploymentMode (SE_server sv)"

definition Digest :: "'k service \<Rightarrow> document \<Rightarrow> string res" where
  "Digest sv d = res_bind (SE_canonical sv d) (\<lambda>b. Inr (DigestBytes (Sha (scrypto sv)) b))"

text \<open>\<open>hash\<close> of \<open>server.go\<close>: the hexadecimal digest without a prefix.\<close>

definition hash_hex :: "'k service \<Rightarrow> string \<Rightarrow> string" where
  "hash_hex sv s = hex_encode (Sha (scrypto sv) s)"

section \<open>Statements\<close>

definition update_where :: "('a \<Rightarrow> bool) \<Rightarrow> ('a \<Rightarrow> 'a) \<Rightarrow> 'a list \<Rightarrow> 'a list" where
  "update_where P f rows = map (\<lambda>r. if P r then f r else r) rows"

definition select_row :: "('a \<Rightarrow> bool) \<Rightarrow> 'a list \<Rightarrow> 'a res" where
  "select_row P rows = (case find P rows of None \<Rightarrow> Inl (Err ''no rows in result set'') | Some r \<Rightarrow> Inr r)"

text \<open>An \<open>INSERT\<close> of a row some unique key of which is taken fails.\<close>

definition insert_row :: "('a \<Rightarrow> bool) \<Rightarrow> 'a \<Rightarrow> 'a list \<Rightarrow> 'a list res" where
  "insert_row clash row rows = (if list_ex clash rows then Inl (Err ''duplicate key value'') else Inr (rows @ [row]))"

definition enqueue :: "string \<Rightarrow> string \<Rightarrow> platform_db \<Rightarrow> platform_db" where
  "enqueue kind resource db =
     (if (kind, resource) \<in> set (PD_queue db) then db else db\<lparr>PD_queue := PD_queue db @ [(kind, resource)]\<rparr>)"

definition new_receipt :: "string \<Rightarrow> document \<Rightarrow> string option \<Rightarrow> bool \<Rightarrow> receipt_record" where
  "new_receipt digest d owner pub = \<lparr>RC_Digest = digest, RC_Payload = d, RC_Envelope = None, RC_Owner = owner, RC_Public = pub\<rparr>"

definition saveReceipt :: "string \<Rightarrow> document \<Rightarrow> string \<Rightarrow> bool \<Rightarrow> platform_db \<Rightarrow> platform_db" where
  "saveReceipt digest d owner pub db =
     enqueue ''sign_receipt'' digest
      (if list_ex (\<lambda>r. RC_Digest r = digest) (PD_receipts db) then db
       else db\<lparr>PD_receipts := PD_receipts db @ [new_receipt digest d (if owner = [] then None else Some owner) pub]\<rparr>)"

definition publish_receipts :: "(string \<Rightarrow> bool) \<Rightarrow> platform_db \<Rightarrow> platform_db" where
  "publish_receipts P db = db\<lparr>PD_receipts := update_where (\<lambda>r. P (RC_Digest r)) (\<lambda>r. r\<lparr>RC_Public := True\<rparr>) (PD_receipts db)\<rparr>"

definition publish_artifacts :: "go_time \<Rightarrow> (string \<Rightarrow> bool) \<Rightarrow> platform_db \<Rightarrow> platform_db" where
  "publish_artifacts now P db = db\<lparr>PD_artifacts := update_where (\<lambda>a. P (AF_Digest a))
     (\<lambda>a. a\<lparr>AF_Public := Some (case AF_Public a of None \<Rightarrow> now | Some t \<Rightarrow> t)\<rparr>) (PD_artifacts db)\<rparr>"

definition audit_event :: "'k service \<Rightarrow> string \<Rightarrow> (string \<times> json) list \<Rightarrow> platform_db \<Rightarrow> platform_db res" where
  "audit_event sv kind payload db =
     res_bind (audit (scrypto sv) (SE_jsonb sv) kind (SE_marshal sv (JObj payload)) (AD_events (PD_audit db))) (\<lambda>rows.
     Inr (db\<lparr>PD_audit := (PD_audit db)\<lparr>AD_events := rows\<rparr>\<rparr>))"

text \<open>The columns \<open>score_ticks\<close> and \<open>threshold_ticks\<close> are \<open>numeric(160,0)\<close>; the code reads them back as text.\<close>

definition numeric_column :: "string \<Rightarrow> string res" where
  "numeric_column s = (case big_set_string s of
     None \<Rightarrow> Inl (Err ''invalid input syntax for type numeric'')
   | Some n \<Rightarrow> if len (show_int \<bar>n\<bar>) > 160 then Inl (Err ''numeric field overflow'') else Inr (show_int n))"

text \<open>What the handlers read of the acceptance receipt of a submission: the deployment mode, whether it was
  official, and the policy, which counts as independent when it is absent.\<close>

definition acceptance_of :: "document \<Rightarrow> (string \<times> bool \<times> string) res" where
  "acceptance_of d =
     (let policy = (\<lambda>p. if p = [] then VerificationIndependent else p) in
      case d of
        DocReceipt r \<Rightarrow> Inr (Receipt_DeploymentMode r, Receipt_OfficialAcceptance r, policy (Receipt_VerificationPolicy r))
      | DocRun r \<Rightarrow> Inr (Run_DeploymentMode r, Run_OfficialAcceptance r, policy (Run_VerificationPolicy r))
      | DocLock l \<Rightarrow> Inr (Lock_DeploymentMode l, Lock_OfficialAcceptance l, policy (Lock_VerificationPolicy l))
      | _ \<Rightarrow> Inl (Err ''cannot scan NULL into *string''))"

section \<open>Facts about the statements\<close>

lemma select_row_Inr [res_simps]: "select_row P rows = Inr r \<longleftrightarrow> find P rows = Some r"
  by (simp add: select_row_def split: option.splits)

lemma insert_row_Inr [res_simps]: "insert_row clash row rows = Inr rows' \<longleftrightarrow> \<not> list_ex clash rows \<and> rows' = rows @ [row]"
  by (auto simp: insert_row_def)

lemma if_Inr: "(if c then Inl e else Inr x) = Inr y \<longleftrightarrow> \<not> c \<and> y = x"
  by auto

lemma find_set: "find P xs = Some x \<Longrightarrow> x \<in> set xs \<and> P x"
  by (auto simp: find_Some_iff)

lemma set_update_where: "set (update_where P f rows) = (\<lambda>r. if P r then f r else r) ` set rows"
  by (simp add: update_where_def)

lemma map_update_where:
  assumes "\<And>r. P r \<Longrightarrow> g (f r) = g r"
  shows "map g (update_where P f rows) = map g rows"
  using assms by (simp add: update_where_def)

lemma length_update_where [simp]: "length (update_where P f rows) = length rows"
  by (simp add: update_where_def)

lemma numeric_column_ticks:
  assumes "ParseTicks s = Inr n"
  shows "numeric_column s = Inr s"
proof -
  have s: "s = show_int n" "len s \<le> 160" using assms by (auto simp: ticks.parse_iff)
  have "len (show_int \<bar>n\<bar>) \<le> len (show_int n)"
    by (cases "n < 0") (auto simp: show_int_def)
  then show ?thesis using s by (simp add: numeric_column_def)
qed

lemma update_where_tally:
  assumes "\<And>r. P r \<Longrightarrow> Q (f r) = Q r"
  shows "tally Q (update_where P f rows) = tally Q rows"
  using assms by (induction rows) (auto simp: update_where_def tally_def)

section \<open>An example\<close>

text \<open>A service whose external code is given by small functions: documents are written as their identifiers.\<close>

definition demo_service :: "string service" where
  "demo_service = \<lparr>SE_platform = demo_platform, SE_server = demo_server, SE_claims = demo_env,
     SE_canonical = (\<lambda>d. case d of DocReceipt r \<Rightarrow> Inr (Receipt_ID r) | DocRun r \<Rightarrow> Inr (Run_ID r) | DocJob j \<Rightarrow> Inr (Job_ID j)
       | DocManifest m \<Rightarrow> Inr (Manifest_ID m) | DocLock l \<Rightarrow> Inr (Lock_ID l) | DocCandidate c \<Rightarrow> Inr (Candidate_ID c) | DocReport _ \<Rightarrow> Inr ''{}'' | DocClaim c \<Rightarrow> Inr (Claim_VersionID c) | DocCapabilities c \<Rightarrow> Inr (Capabilities_OS c)),
     SE_marshal = (\<lambda>_. ''{}''), SE_jsonb = (\<lambda>x. x), SE_run = (\<lambda>x. Inr (demo_run x)),
     SE_capabilities = (\<lambda>_. Inl (Err ''decode'')), SE_template = (\<lambda>_. Inl (Err ''decode'')),
     SE_activeLimit = 2, SE_operatorLimit = 50\<rparr>"

end
