(* ===== verification/Hosts.thy ===== *)
theory Hosts
  imports Tables
begin

text \<open>
  The runner inventory (\<open>internal/platform/runner_profiles.go\<close>, \<open>requestedRunnerPurposes\<close> of
  \<open>runner_authorization.go\<close>, and the identity checks of \<open>runners.go\<close>): which host a client certificate stands for, which
  execution profile it may use, whether its signing key is delegated by the offline root, and whether some host can run a
  challenge at all.
\<close>

record runnerIdentity =
  Host_ID :: string
  Host_Group :: string
  Host_PublicKey :: string
  Host_ExecutionProfile :: string
  Host_EncryptionKey :: string
  Host_AdvisorySnapshotDigest :: string
  Host_RuntimeInventoryDigest :: string
  Host_Purposes :: "string list"
  Host_Capabilities :: "ExecutorCapabilities option"

section \<open>Definitions\<close>

definition identity_of :: "runner_host \<Rightarrow> runnerIdentity" where
  "identity_of h = \<lparr>Host_ID = HR_ID h, Host_Group = HR_Group h, Host_PublicKey = HR_PublicKey h, Host_ExecutionProfile = HR_Profile h,
     Host_EncryptionKey = HR_EncryptionKey h, Host_AdvisorySnapshotDigest = HR_Advisory h, Host_RuntimeInventoryDigest = HR_Inventory h,
     Host_Purposes = HR_Purposes h, Host_Capabilities = None\<rparr>"

text \<open>\<open>certificate\<close> is the verified client certificate of the connection, if there is one.\<close>

definition runner_identity :: "'k service \<Rightarrow> string option \<Rightarrow> platform_db \<Rightarrow> runnerIdentity res" where
  "runner_identity sv certificate db =
     (case certificate of None \<Rightarrow> http_fail ''runner_mtls_required'' | Some c \<Rightarrow>
      case find (\<lambda>h. HR_Certificate h = hash_hex sv c \<and> HR_Enabled h) (PD_hosts db) of
        None \<Rightarrow> http_fail ''runner_untrusted'' | Some h \<Rightarrow> Inr (identity_of h))"

definition parseRunnerKey :: "'k service \<Rightarrow> string \<Rightarrow> 'k res" where
  "parseRunnerKey sv text = (case PemDecode (scrypto sv) text of
     None \<Rightarrow> Inl (Err ''runner public key invalid'') | Some (_, bytes, _) \<Rightarrow> ParsePKIX (scrypto sv) bytes)"

definition verifyHostDelegation :: "'k service \<Rightarrow> runnerIdentity \<Rightarrow> go_time \<Rightarrow> unit res" where
  "verifyHostDelegation sv host t =
     (if deployment sv \<noteq> ''production'' then Inr () else
      case S_TrustHistory (SE_server sv) of None \<Rightarrow> http_fail ''runner_delegation_missing'' | Some h \<Rightarrow>
      res_bind (parseRunnerKey sv (Host_PublicKey host)) (\<lambda>key.
      res_bind (Fingerprint (scrypto sv) key) (\<lambda>actual.
      case lookup (KeysAt (scrypto sv) h ''validation-run'' t) (Host_ID host) of
        None \<Rightarrow> http_fail ''runner_delegation_invalid''
      | Some permitted \<Rightarrow>
        res_bind (or_else (Fingerprint (scrypto sv) permitted) (Errf ''runner_delegation_invalid'' [])) (\<lambda>want.
        if want \<noteq> actual then http_fail ''runner_delegation_invalid''
        else if list_ex (\<lambda>d. Del_KeyID d = Host_ID host \<and> Del_HostID d = Host_ID host) (H_Delegations h) then Inr ()
        else http_fail ''runner_host_binding_invalid''))))"

definition enrollment_of :: "platform_db \<Rightarrow> runner_profile \<Rightarrow> enrollment option" where
  "enrollment_of db p = find (\<lambda>e. EN_Host e = RP_Host p \<and> EN_Config e = RP_Config p \<and> EN_Enabled e) (PD_enrollments db)"

definition digest_or_none :: "'k service \<Rightarrow> ExecutorCapabilities \<Rightarrow> string" where
  "digest_or_none sv c = (case Digest sv (DocCapabilities c) of Inl _ \<Rightarrow> [] | Inr d \<Rightarrow> d)"

definition selectRunnerProfile :: "'k service \<Rightarrow> platform_db \<Rightarrow> runnerIdentity \<Rightarrow> string \<Rightarrow> runnerIdentity res" where
  "selectRunnerProfile sv db host profile =
     (if profile = [] \<or> profile = Host_ExecutionProfile host then Inr host
      else if \<not> ValidDigest profile then http_fail ''runner_profile_invalid'' else
      case find (\<lambda>p. RP_Host p = Host_ID host \<and> RP_Profile p = profile \<and> RP_Enabled p \<and> enrollment_of db p \<noteq> None) (PD_profiles db) of
        None \<Rightarrow> http_fail ''runner_profile_unenrolled''
      | Some p \<Rightarrow>
        (case (Option.bind (enrollment_of db p) (\<lambda>e. case SE_template sv (EN_Template e) of Inl _ \<Rightarrow> None | Inr a \<Rightarrow> Some a),
            SE_capabilities sv (RP_Capabilities p)) of
           (Some a, Inr c) \<Rightarrow>
             (case HT_Capabilities a of None \<Rightarrow> http_fail ''runner_profile_mismatch'' | Some approved \<Rightarrow>
              if HT_Profile a \<noteq> profile \<or> digest_or_none sv approved \<noteq> digest_or_none sv c then http_fail ''runner_profile_mismatch''
              else Inr (host\<lparr>Host_AdvisorySnapshotDigest := RP_Advisory p, Host_RuntimeInventoryDigest := RP_Inventory p,
                Host_ExecutionProfile := profile, Host_Capabilities := Some c\<rparr>))
         | _ \<Rightarrow> http_fail ''runner_profile_mismatch''))"

text \<open>One row of the query of \<open>requireExecutor\<close>: a profile with its host and its approved template.\<close>

definition executor_rows :: "platform_db \<Rightarrow> string \<Rightarrow> bool \<Rightarrow> (runner_profile \<times> runner_host \<times> enrollment) list" where
  "executor_rows db profile open_suite = concat (map (\<lambda>p.
     if \<not> RP_Enabled p \<or> \<not> (profile = [] \<or> RP_Profile p = profile) then [] else
     (case (find (\<lambda>h. HR_ID h = RP_Host p) (PD_hosts db), enrollment_of db p) of
        (Some h, Some e) \<Rightarrow> if HR_Enabled h \<and> ''submission'' \<in> set (HR_Purposes h) \<and> ''confirmation'' \<in> set (HR_Purposes h)
            \<and> (open_suite \<or> HR_EncryptionKey h \<noteq> []) then [(p, h, e)] else []
      | _ \<Rightarrow> [])) (PD_profiles db))"

definition executor_fits :: "'k service \<Rightarrow> go_time \<Rightarrow> Manifest \<Rightarrow> EvaluationContract \<Rightarrow> string \<Rightarrow> runner_profile \<times> runner_host \<times> enrollment \<Rightarrow> bool" where
  "executor_fits sv now m e profile = (\<lambda>(p, h, en).
     case (SE_capabilities sv (RP_Capabilities p), SE_template sv (EN_Template en)) of
       (Inr c, Inr a) \<Rightarrow>
         (case HT_Capabilities a of None \<Rightarrow> False | Some approved \<Rightarrow>
          HT_Profile a = RP_Profile p \<and> digest_or_none sv c = digest_or_none sv approved
          \<and> MatchJobLease m (if profile = [] then ''preflight'' else ''submission'') c
          \<and> is_ok (MatchExecutor e (Manifest_Resources m) (Validator_RuntimeImageDigest (Manifest_Validator m)) c)
          \<and> is_ok (verifyHostDelegation sv ((identity_of h)\<lparr>Host_ExecutionProfile := RP_Profile p\<rparr>) now))
     | _ \<Rightarrow> False)"

definition requireExecutor :: "'k service \<Rightarrow> go_time \<Rightarrow> platform_db \<Rightarrow> Manifest \<Rightarrow> string \<Rightarrow> unit res" where
  "requireExecutor sv now db m profile =
     (case Manifest_Evaluation m of None \<Rightarrow> Inr () | Some e \<Rightarrow>
      if list_ex (executor_fits sv now m e profile) (executor_rows db profile (Suite_Visibility (Manifest_Suite m) \<noteq> ''hidden''))
      then Inr () else http_fail ''executor_unavailable'')"

definition runner_purposes :: "string list" where
  "runner_purposes = [''preflight'', ''artifact_prepare'', ''submission'', ''confirmation'']"

definition purpose_step :: "string list \<Rightarrow> string list \<times> string list \<Rightarrow> string \<Rightarrow> (string list \<times> string list) res" where
  "purpose_step allowed = (\<lambda>(seen, filtered) purpose.
     if purpose \<notin> set runner_purposes \<or> purpose \<in> set seen then http_fail ''invalid_runner_purposes''
     else Inr (purpose # seen, if purpose \<in> set allowed then filtered @ [purpose] else filtered))"

text \<open>\<open>body\<close> is the decoded request, nothing for the JSON value null, with the raw text of its member \<open>purposes\<close>, empty when
  the member is absent; \<open>decode\<close> reads an array of strings.\<close>

definition requestedRunnerPurposes ::
    "(string \<Rightarrow> string list res) \<Rightarrow> string option res \<Rightarrow> string list \<Rightarrow> string list res" where
  "requestedRunnerPurposes decode body enrolled =
     res_bind body (\<lambda>request.
     case request of None \<Rightarrow> http_fail ''invalid_runner_purposes'' | Some raw \<Rightarrow>
     if len raw = 0 then Inr enrolled
     else if trim_space raw = ''null'' then http_fail ''invalid_runner_purposes'' else
     res_bind (or_else (decode raw) (Errf ''invalid_runner_purposes'' [])) (\<lambda>requested.
     if len requested > 4 then http_fail ''invalid_runner_purposes'' else
     res_bind (res_fold (purpose_step enrolled) ([], []) requested) (\<lambda>(_, filtered). Inr filtered)))"

section \<open>Properties\<close>

text \<open>Requesting purposes only narrows what the host is enrolled for.\<close>

lemma purposes_narrow:
  assumes "requestedRunnerPurposes decode body enrolled = Inr ps"
  shows "set ps \<subseteq> set enrolled"
proof -
  have "set (snd t) \<subseteq> set enrolled" if "res_fold (purpose_step enrolled) ([], []) requested = Inr t" for requested t
    using that by (rule res_fold_inv [where P = "\<lambda>t. set (snd t) \<subseteq> set enrolled"])
      (auto simp: purpose_step_def http_fail_def split: if_splits)
  then show ?thesis using assms
    by (fastforce simp: requestedRunnerPurposes_def res_simps http_fail_def split: if_splits option.splits)
qed

text \<open>In production a host passes only with a key that the root delegated to that very host for validation runs and that
  is in force at the time.\<close>

lemma delegated_host:
  assumes "verifyHostDelegation sv host t = Inr ()" "deployment sv = ''production''"
  shows "\<exists>h key permitted f. S_TrustHistory (SE_server sv) = Some h \<and> parseRunnerKey sv (Host_PublicKey host) = Inr key \<and>
    lookup (KeysAt (scrypto sv) h ''validation-run'' t) (Host_ID host) = Some permitted \<and>
    Fingerprint (scrypto sv) key = Inr f \<and> Fingerprint (scrypto sv) permitted = Inr f \<and>
    (\<exists>d\<in>set (H_Delegations h). Del_KeyID d = Host_ID host \<and> Del_HostID d = Host_ID host)"
  using assms by (auto simp: verifyHostDelegation_def res_simps http_fail_def list_ex_iff split: option.splits if_splits)

end
