(* ===== verification/Builds.thy ===== *)
theory Builds
  imports Hosts
begin

text \<open>
  Evidence about builds (\<open>validateBuild\<close> of \<open>internal/platform/preparation.go\<close> and \<open>validateFixtureEvidence\<close> of
  \<open>internal/platform/assurance.go\<close>): what a signed build report must show before a challenge or a submission disk is
  accepted, and that its fixtures were really run, twice each, in separate signed attempts.

  The loops collect what they have seen: \<open>fixture_state\<close> holds the attempts accepted so far, from which the sets of job and
  receipt identifiers and the total of the source are read off.
\<close>

section \<open>Build reports\<close>

definition scan_ok :: "RunnerJob \<Rightarrow> BuildReport \<Rightarrow> VulnerabilityScan \<Rightarrow> go_time \<Rightarrow> bool" where
  "scan_ok job b scan now = (case BuildReport_SBOM b of None \<Rightarrow> False | Some sbom \<Rightarrow>
     Scan_Status scan = ''pass'' \<and>
     (Scan_PolicyVersion scan = ''offline-advisory-v1'' \<or>
       Manifest_APIVersion (Job_Manifest job) = ManifestV2 \<and> Validator_Profile (Manifest_Validator (Job_Manifest job)) = ''native-evaluator-v2''
       \<and> Scan_PolicyVersion scan = ''offline-advisory-domains-v2'') \<and>
     Scan_PackagesChecked scan \<ge> 1 \<and> Scan_AdvisorySnapshotDigest scan = Job_AdvisorySnapshotDigest job \<and>
     Scan_RuntimeInventoryDigest scan = Job_RuntimeInventoryDigest job \<and> Scan_SBOMDigest scan = Ref_Digest sbom \<and>
     ValidDigest (Scan_AdvisorySnapshotDigest scan) \<and> ValidDigest (Scan_RuntimeInventoryDigest scan) \<and>
     Scan_ScannedAt scan \<le> now + 5 * 60 * go_second \<and> Scan_ScannedAt scan \<ge> now - 7 * 24 * 3600 * go_second)"

definition separated_toolchain :: "Manifest \<Rightarrow> bool" where
  "separated_toolchain m = (case Manifest_Evaluation m of None \<Rightarrow> False
     | Some e \<Rightarrow> ''separated-toolchain'' \<in> set (Executor_Features (Evaluation_Executor e)))"

definition finding_check :: "VulnerabilityScan \<Rightarrow> bool \<Rightarrow> VulnerabilityFinding \<Rightarrow> unit res" where
  "finding_check scan separated f =
     (if Finding_Disposition f \<noteq> [] then
        (if Finding_Disposition f \<noteq> ''isolated-candidate-only'' \<or> Scan_PolicyVersion scan \<noteq> ''offline-advisory-domains-v2'' \<or> \<not> separated
         then http_fail ''vulnerability_domain_unbound'' else Inr ())
      else if Finding_Severity f \<in> {''high'', ''critical'', ''unknown''} then http_fail ''vulnerability_policy_failed''
      else Inr ())"

definition fixture_index :: "FixtureReport list \<Rightarrow> (string, FixtureReport) gomap res" where
  "fixture_index fs = res_fold (\<lambda>m f. if lookup m (FixtureReport_Name f) \<noteq> None then http_fail ''fixture_duplicate''
     else Inr (gomap_put (FixtureReport_Name f) f m)) [] fs"

definition fixture_check :: "(string, FixtureReport) gomap \<Rightarrow> Fixture \<Rightarrow> unit res" where
  "fixture_check fixtures f =
     (case lookup fixtures (Fixture_Name f) of None \<Rightarrow> http_fail ''fixture_failed'' | Some actual \<Rightarrow>
      if \<not> FixtureReport_Passed actual \<or> FixtureReport_ExpectedOutcome actual \<noteq> Fixture_ExpectedOutcome f
          \<or> FixtureReport_Outcome actual \<noteq> Fixture_ExpectedOutcome f then http_fail ''fixture_failed''
      else if Fixture_ExpectedTicks f \<noteq> [] \<and> FixtureReport_ScoreTicks actual \<noteq> Fixture_ExpectedTicks f
      then http_fail ''fixture_score_mismatch'' else Inr ())"

definition preflight_outputs :: "RunnerJob \<Rightarrow> BuildReport \<Rightarrow> bool" where
  "preflight_outputs job b =
     (case (BuildReport_ValidatorDisk b, BuildReport_ChallengeDisk b, BuildReport_SuiteDisk b) of
        (Some validator, Some _, Some suite) \<Rightarrow>
          let visibility = Suite_Visibility (Manifest_Suite (Job_Manifest job)) in
          Ref_Digest validator = BuildReport_ValidatorDiskDigest b \<and>
          \<not> (visibility = ''public'' \<and> Ref_Digest suite \<noteq> BuildReport_SuiteDigest b) \<and>
          \<not> (visibility = ''hidden'' \<and> BuildReport_SuiteDigest b \<noteq> Suite_Commitment (Manifest_Suite (Job_Manifest job))) \<and>
          BuildReport_ValidatorDiskDigest b = BuildReport_RebuiltValidatorDiskDigest b \<and> BuildReport_OfflineRebuild b \<and> BuildReport_HostileCorpusPassed b
      | _ \<Rightarrow> False)"

definition validate_preflight :: "RunnerJob \<Rightarrow> BuildReport \<Rightarrow> go_time \<Rightarrow> unit res" where
  "validate_preflight job b now =
     (if \<not> preflight_outputs job b then http_fail ''reproducibility_failed''
      else if BuildReport_ValidatorImageDigest b \<noteq> Validator_RuntimeImageDigest (Manifest_Validator (Job_Manifest job))
      then http_fail ''runtime_image_mismatch'' else
      case BuildReport_VulnerabilityScan b of None \<Rightarrow> http_fail ''vulnerability_scan_required'' | Some scan \<Rightarrow>
      if \<not> scan_ok job b scan now then http_fail ''vulnerability_scan_required'' else
      res_bind (res_each (finding_check scan (separated_toolchain (Job_Manifest job))) (Scan_Findings scan)) (\<lambda>_.
      res_bind (fixture_index (BuildReport_Fixtures b)) (\<lambda>fixtures.
      res_each (fixture_check fixtures) (Manifest_Fixtures (Job_Manifest job)))))"

definition validateBuild :: "'k service \<Rightarrow> go_time \<Rightarrow> RunnerJob \<Rightarrow> RunReceipt \<Rightarrow> unit res" where
  "validateBuild sv now job run =
     (case Run_BuildReport run of None \<Rightarrow> http_fail ''conformance_failed'' | Some b \<Rightarrow>
      if \<not> BuildReport_Passed b \<or> \<not> BuildReport_ScansPassed b then http_fail ''conformance_failed'' else
      res_bind (Digest sv (DocManifest (Job_Manifest job))) (\<lambda>md.
      case Job_SourceSnapshot job of None \<Rightarrow> http_fail ''build_bindings_invalid'' | Some source \<Rightarrow>
      if BuildReport_ManifestDigest b \<noteq> md \<or> BuildReport_SourceSnapshotDigest b \<noteq> Ref_Digest source
          \<or> BuildReport_ExecutionProfileDigest b \<noteq> Job_ExecutionProfileDigest job then http_fail ''build_bindings_invalid''
      else if Job_Purpose job = ''artifact_prepare'' then
        (case BuildReport_SubmissionDisk b of None \<Rightarrow> http_fail ''submission_disk_missing''
         | Some d \<Rightarrow> if Ref_Digest d = [] then http_fail ''submission_disk_missing'' else Inr ())
      else validate_preflight job b now))"

section \<open>Fixture attempts\<close>

text \<open>The attempts accepted so far, and the artifact and attempts of the current fixture.\<close>

record fixture_state =
  FS_runs :: "RunReceipt list"
  FS_artifact :: string
  FS_measured :: "RunReceipt list"

definition performance_job :: "RunnerJob \<Rightarrow> bool" where
  "performance_job job = (case Manifest_Evaluation (Job_Manifest job) of None \<Rightarrow> False | Some e \<Rightarrow> Evaluation_Mode e = ''performance'')"

definition attempt_distinct :: "RunnerJob \<Rightarrow> RunReceipt \<Rightarrow> RunReceipt list \<Rightarrow> RunReceipt \<Rightarrow> bool" where
  "attempt_distinct job parent seen run =
     (Run_APIVersion run = APIVersion \<and> Run_Kind run = ''ValidationRunReceipt'' \<and> Run_Official run \<and> Run_CleanupAttested run
      \<and> Run_ID run \<noteq> [] \<and> Run_JobID run \<noteq> [] \<and> Run_ID run \<noteq> Run_ID parent \<and> Run_JobID run \<noteq> Job_ID job
      \<and> Run_JobID run \<notin> Run_JobID ` set seen \<and> Run_ID run \<notin> Run_ID ` set seen)"

definition attempt_bound :: "RunnerJob \<Rightarrow> RunReceipt \<Rightarrow> BuildReport \<Rightarrow> runnerIdentity \<Rightarrow> string \<Rightarrow> RunReceipt \<Rightarrow> bool" where
  "attempt_bound job parent b host parentDigest run =
     (Run_ParentJobDigest run = parentDigest \<and> Run_HostID run = Host_ID host \<and> Run_HostGroup run = Host_Group host
      \<and> Run_VerificationPolicy run = Job_VerificationPolicy job \<and> Run_DeploymentMode run = Job_DeploymentMode job
      \<and> Run_OfficialAcceptance run = Job_OfficialAcceptance job \<and> Run_ExecutionProfileDigest run = Job_ExecutionProfileDigest job
      \<and> Run_RunnerEpoch run = Job_RunnerEpoch job \<and> Run_FencingToken run = Job_FencingToken job
      \<and> Run_ChallengeLockDigest run = Job_ChallengeLockDigest job \<and> Run_SuiteDigest run = BuildReport_SuiteDigest b
      \<and> Run_CreatedAt run \<ge> Job_CreatedAt job \<and> Run_CreatedAt run \<le> Run_CreatedAt parent
      \<and> ValidDigest (Run_JobDigest run) \<and> ValidDigest (Run_ArtifactDigest run))"

definition gates_pass :: "RunReceipt \<Rightarrow> string list \<Rightarrow> bool" where
  "gates_pass run gates = (len (Run_Gates run) = len gates \<and> list_all (\<lambda>g. lookup (Run_Gates run) g = Some True) gates)"

definition attempt_step ::
    "'k service \<Rightarrow> RunnerJob \<Rightarrow> RunReceipt \<Rightarrow> BuildReport \<Rightarrow> runnerIdentity \<Rightarrow> 'k \<Rightarrow> string \<Rightarrow> FixtureReport \<Rightarrow> fixture_state \<Rightarrow> Envelope \<Rightarrow> fixture_state res" where
  "attempt_step sv job parent b host key parentDigest fixture st envelope =
     res_bind (or_else (Verify (scrypto sv) envelope [(Host_ID host, key)]) (Errf ''fixture_signature_invalid'' [])) (\<lambda>payload.
     res_bind (SE_run sv payload) (\<lambda>run.
     if \<not> attempt_distinct job parent (FS_runs st) run then http_fail ''fixture_attempt_invalid''
     else if \<not> attempt_bound job parent b host parentDigest run then http_fail ''fixture_bindings_invalid''
     else if Run_Outcome run \<noteq> FixtureReport_Outcome fixture
         \<or> \<not> performance_job job \<and> Run_ScoreTicks run \<noteq> FixtureReport_ScoreTicks fixture
         \<or> FS_artifact st \<noteq> [] \<and> FS_artifact st \<noteq> Run_ArtifactDigest run then http_fail ''fixture_repeat_disagreement''
     else if Run_Outcome run = ''valid'' \<and> \<not> gates_pass run (Manifest_HardGates (Job_Manifest job)) then http_fail ''fixture_gates_invalid'' else
     res_bind (ValidateRunMeasurementEvidence (Env_NFC (SE_claims sv)) (Env_Marshal (SE_claims sv)) (Env_Decode (SE_claims sv)) run (Job_Manifest job)) (\<lambda>_.
     Inr \<lparr>FS_runs = FS_runs st @ [run], FS_artifact = Run_ArtifactDigest run, FS_measured = FS_measured st @ [run]\<rparr>)))"

text \<open>The fixtures declared under a name; the source keeps the last one.\<close>

definition declared_fixture :: "Manifest \<Rightarrow> string \<Rightarrow> Fixture option" where
  "declared_fixture m name = (case filter (\<lambda>f. Fixture_Name f = name) (Manifest_Fixtures m) of [] \<Rightarrow> None | fs \<Rightarrow> Some (last fs))"

definition measured_check :: "'k service \<Rightarrow> RunnerJob \<Rightarrow> FixtureReport \<Rightarrow> RunReceipt list \<Rightarrow> unit res" where
  "measured_check sv job fixture measured =
     (if \<not> performance_job job then Inr () else
      case (declared_fixture (Job_Manifest job) (FixtureReport_Name fixture), measured) of
        (Some declared, [a, b]) \<Rightarrow>
          res_bind (or_else (ValidateMeasuredFixture (Env_NFC (SE_claims sv)) (Env_Marshal (SE_claims sv)) (Env_Decode (SE_claims sv))
            a b (Job_Manifest job) declared) (Errf ''measured_fixture_invalid'' [])) (\<lambda>score.
          if score \<noteq> FixtureReport_ScoreTicks fixture then http_fail ''measured_fixture_invalid'' else Inr ())
      | _ \<Rightarrow> http_fail ''measured_fixture_missing'')"

definition parser_rejection :: "FixtureReport \<Rightarrow> bool" where
  "parser_rejection f = (FixtureReport_Stage f = ''artifact_parser'' \<and> FixtureReport_Name f \<noteq> ''baseline'' \<and> FixtureReport_Name f \<noteq> ''valid''
     \<and> FixtureReport_Outcome f = ''invalid_output'' \<and> FixtureReport_FreshVMRuns f = 0 \<and> len (FixtureReport_RunReceipts f) = 0)"

definition evidence_of ::
    "'k service \<Rightarrow> RunnerJob \<Rightarrow> RunReceipt \<Rightarrow> BuildReport \<Rightarrow> runnerIdentity \<Rightarrow> 'k \<Rightarrow> string \<Rightarrow> RunReceipt list \<Rightarrow> FixtureReport \<Rightarrow> RunReceipt list res" where
  "evidence_of sv job parent b host key parentDigest seen fixture =
     (if parser_rejection fixture then Inr seen
      else if FixtureReport_Stage fixture \<noteq> ''isolated_execution'' \<or> FixtureReport_FreshVMRuns fixture \<noteq> 2 \<or> len (FixtureReport_RunReceipts fixture) \<noteq> 2
      then http_fail ''fixture_repeat_evidence_required'' else
      res_bind (res_fold (attempt_step sv job parent b host key parentDigest fixture)
        \<lparr>FS_runs = seen, FS_artifact = [], FS_measured = []\<rparr> (FixtureReport_RunReceipts fixture)) (\<lambda>st.
      res_bind (measured_check sv job fixture (FS_measured st)) (\<lambda>_. Inr (FS_runs st))))"

definition fixture_evidence ::
    "'k service \<Rightarrow> RunnerJob \<Rightarrow> RunReceipt \<Rightarrow> runnerIdentity \<Rightarrow> RunReceipt list res" where
  "fixture_evidence sv job parent host =
     res_bind (parseRunnerKey sv (Host_PublicKey host)) (\<lambda>key.
     res_bind (Digest sv (DocJob job)) (\<lambda>parentDigest.
     res_bind (deref (Run_BuildReport parent)) (\<lambda>b.
     res_bind (res_fold (evidence_of sv job parent b host key parentDigest) [] (BuildReport_Fixtures b)) (\<lambda>runs.
     if len runs < 4 \<or> BuildReport_FreshVMRuns b \<noteq> len runs then http_fail ''fixture_repeat_count_invalid'' else Inr runs))))"

definition validateFixtureEvidence :: "'k service \<Rightarrow> RunnerJob \<Rightarrow> RunReceipt \<Rightarrow> runnerIdentity \<Rightarrow> unit res" where
  "validateFixtureEvidence sv job parent host = res_bind (fixture_evidence sv job parent host) (\<lambda>_. Inr ())"

section \<open>Properties\<close>

definition signed_attempt :: "'k service \<Rightarrow> runnerIdentity \<Rightarrow> 'k \<Rightarrow> FixtureReport \<Rightarrow> RunReceipt \<Rightarrow> bool" where
  "signed_attempt sv host key fixture run = (\<exists>envelope\<in>set (FixtureReport_RunReceipts fixture). \<exists>payload.
     Verify (scrypto sv) envelope [(Host_ID host, key)] = Inr payload \<and> SE_run sv payload = Inr run)"

definition attempt_ok ::
    "'k service \<Rightarrow> RunnerJob \<Rightarrow> RunReceipt \<Rightarrow> BuildReport \<Rightarrow> runnerIdentity \<Rightarrow> 'k \<Rightarrow> string \<Rightarrow> RunReceipt \<Rightarrow> bool" where
  "attempt_ok sv job parent b host key parentDigest run = (\<exists>fixture\<in>set (BuildReport_Fixtures b).
     signed_attempt sv host key fixture run \<and> attempt_bound job parent b host parentDigest run \<and> Run_Outcome run = FixtureReport_Outcome fixture \<and>
     Run_ID run \<noteq> Run_ID parent \<and> Run_JobID run \<noteq> Job_ID job \<and>
     (Run_Outcome run = ''valid'' \<longrightarrow> gates_pass run (Manifest_HardGates (Job_Manifest job))))"

definition attempts_ok ::
    "'k service \<Rightarrow> RunnerJob \<Rightarrow> RunReceipt \<Rightarrow> BuildReport \<Rightarrow> runnerIdentity \<Rightarrow> 'k \<Rightarrow> string \<Rightarrow> RunReceipt list \<Rightarrow> bool" where
  "attempts_ok sv job parent b host key parentDigest runs \<longleftrightarrow> distinct (map Run_JobID runs) \<and> distinct (map Run_ID runs) \<and>
     (\<forall>run\<in>set runs. attempt_ok sv job parent b host key parentDigest run)"

lemma attempt_step_ok:
  assumes "attempt_step sv job parent b host key parentDigest fixture st envelope = Inr st'"
    and "fixture \<in> set (BuildReport_Fixtures b)" "envelope \<in> set (FixtureReport_RunReceipts fixture)"
    and "attempts_ok sv job parent b host key parentDigest (FS_runs st)"
  shows "attempts_ok sv job parent b host key parentDigest (FS_runs st')"
proof -
  from assms(1) obtain payload run where
    p: "Verify (scrypto sv) envelope [(Host_ID host, key)] = Inr payload" "SE_run sv payload = Inr run" and
    c: "attempt_distinct job parent (FS_runs st) run" "attempt_bound job parent b host parentDigest run"
      "Run_Outcome run = FixtureReport_Outcome fixture" "Run_Outcome run = ''valid'' \<longrightarrow> gates_pass run (Manifest_HardGates (Job_Manifest job))" and
    st': "FS_runs st' = FS_runs st @ [run]"
    by (auto simp: attempt_step_def res_simps http_fail_def split: if_splits)
  have "signed_attempt sv host key fixture run" using p assms(3) by (auto simp: signed_attempt_def)
  then have "attempt_ok sv job parent b host key parentDigest run"
    using c assms(2) by (auto simp: attempt_ok_def attempt_distinct_def)
  then show ?thesis using assms(4) c(1) st' by (auto simp: attempts_ok_def attempt_distinct_def)
qed

lemma evidence_of_ok:
  assumes "evidence_of sv job parent b host key parentDigest seen fixture = Inr runs"
    and "fixture \<in> set (BuildReport_Fixtures b)" "attempts_ok sv job parent b host key parentDigest seen"
  shows "attempts_ok sv job parent b host key parentDigest runs"
proof (cases "parser_rejection fixture")
  case True
  then show ?thesis using assms by (simp add: evidence_of_def)
next
  case False
  from assms(1) False obtain st where st: "res_fold (attempt_step sv job parent b host key parentDigest fixture)
      \<lparr>FS_runs = seen, FS_artifact = [], FS_measured = []\<rparr> (FixtureReport_RunReceipts fixture) = Inr st" "runs = FS_runs st"
    by (auto simp: evidence_of_def res_simps http_fail_def split: if_splits)
  have "attempts_ok sv job parent b host key parentDigest (FS_runs st)"
    by (rule res_fold_inv [OF st(1), where P = "\<lambda>st. attempts_ok sv job parent b host key parentDigest (FS_runs st)"])
      (use assms(2,3) attempt_step_ok in auto)
  then show ?thesis using st(2) by simp
qed

text \<open>C24: Fixture evidence is made of real repeats.  When the evidence of a preflight is accepted there are at least four
  attempts, as many as the report claims, with pairwise different job and receipt identifiers, none of them the preflight itself;
  each is signed by the enrolled host, bound to this very preflight job, has the outcome the report states for its fixture, and
  passed every hard gate if it counts as valid.\<close>

theorem fixture_evidence_sound:
  assumes "validateFixtureEvidence sv job parent host = Inr ()"
  shows "\<exists>runs b key parentDigest. Run_BuildReport parent = Some b \<and> parseRunnerKey sv (Host_PublicKey host) = Inr key \<and>
    Digest sv (DocJob job) = Inr parentDigest \<and> 4 \<le> length runs \<and> BuildReport_FreshVMRuns b = len runs \<and>
    distinct (map Run_JobID runs) \<and> distinct (map Run_ID runs) \<and>
    (\<forall>run\<in>set runs. attempt_ok sv job parent b host key parentDigest run)"
proof -
  from assms obtain key parentDigest b runs where
    k: "parseRunnerKey sv (Host_PublicKey host) = Inr key" "Digest sv (DocJob job) = Inr parentDigest" "Run_BuildReport parent = Some b" and
    f: "res_fold (evidence_of sv job parent b host key parentDigest) [] (BuildReport_Fixtures b) = Inr runs" and
    n: "\<not> len runs < 4" "BuildReport_FreshVMRuns b = len runs"
    by (auto simp: validateFixtureEvidence_def fixture_evidence_def res_simps http_fail_def split: if_splits)
  have "attempts_ok sv job parent b host key parentDigest runs"
    by (rule res_fold_inv [OF f]) (auto intro: evidence_of_ok simp: attempts_ok_def [of _ _ _ _ _ _ _ "[]"])
  then show ?thesis using k n by (auto simp: attempts_ok_def len_def intro!: exI [of _ runs])
qed

section \<open>An example\<close>

text \<open>A preflight of one host with two executable fixtures and one that the parser rejects; the payload of an attempt's
  envelope is its identifier.\<close>

definition demo_host :: runnerIdentity where
  "demo_host = \<lparr>Host_ID = ''h1'', Host_Group = ''g1'', Host_PublicKey = ''pk'', Host_ExecutionProfile = ''p'', Host_EncryptionKey = [],
     Host_AdvisorySnapshotDigest = [], Host_RuntimeInventoryDigest = [], Host_Purposes = [''preflight''], Host_Capabilities = None\<rparr>"

definition demo_ref :: ObjectRef where
  "demo_ref = \<lparr>Ref_Digest = [], Ref_Size = 0, Ref_URL = []\<rparr>"

definition demo_job :: "string \<Rightarrow> string \<Rightarrow> RunnerJob" where
  "demo_job jid purpose = \<lparr>Job_ParentJobDigest = [], Job_VerificationPolicy = ''platform'', Job_AdvisorySnapshotDigest = [],
     Job_RuntimeInventoryDigest = [], Job_HiddenSuite = None, Job_AcceptanceReceiptDigest = [], Job_DeploymentMode = ''local'',
     Job_OfficialAcceptance = False, Job_APIVersion = APIVersion, Job_Kind = ''ValidationJob'', Job_ID = jid, Job_CreatedAt = 1,
     Job_Producer = ''science-ladder'', Job_ExpiresAt = 9, Job_Purpose = purpose, Job_SubmissionID = [], Job_ChallengeLockDigest = [],
     Job_ArtifactDigest = [], Job_SuiteDigest = [], Job_ExecutionProfileDigest = ''p'', Job_RunnerEpoch = ''1'', Job_FencingToken = 1,
     Job_RequiredHostGroup = [], Job_ExcludedHostIDs = [], Job_ValidatorDisk = demo_ref, Job_SubmissionDisk = demo_ref,
     Job_SuiteDisk = demo_ref, Job_ChallengeDisk = demo_ref,
     Job_Manifest = demo_manifest\<lparr>Manifest_Evaluation := None, Manifest_APIVersion := APIVersion\<rparr>, Job_SourceSnapshot = None\<rparr>"

definition demo_attempt :: "string \<Rightarrow> RunReceipt" where
  "demo_attempt i = (demo_run (''j'' @ i))\<lparr>Run_ValidatorResult := None, Run_ID := i, Run_APIVersion := APIVersion, Run_Kind := ''ValidationRunReceipt'',
     Run_ParentJobDigest := DigestBytes (Sha (scrypto demo_service)) ''pf'', Run_HostID := ''h1'', Run_HostGroup := ''g1'',
     Run_VerificationPolicy := ''platform'', Run_DeploymentMode := ''local'', Run_ExecutionProfileDigest := ''p'', Run_RunnerEpoch := ''1'',
     Run_FencingToken := 1, Run_CreatedAt := 3, Run_JobDigest := ''sha256:'' @ replicate 64 CHR ''0'',
     Run_ArtifactDigest := ''sha256:'' @ replicate 64 CHR ''1''\<rparr>"

definition demo_attempts :: "string service" where
  "demo_attempts = demo_service\<lparr>SE_run := \<lambda>x. Inr (demo_attempt x)\<rparr>"

definition demo_signed :: "string \<Rightarrow> Envelope" where
  "demo_signed i = \<lparr>Envelope_PayloadType = PayloadType, Envelope_Payload = b64_encode i,
     Envelope_Signatures = [\<lparr>Signature_KeyID = ''h1'', Signature_Sig = b64_encode (''pk'' @ demo_sha (pae PayloadType i))\<rparr>]\<rparr>"

definition demo_report :: "string \<Rightarrow> string list \<Rightarrow> FixtureReport" where
  "demo_report name attempts = \<lparr>FixtureReport_Stage = (if attempts = [] then ''artifact_parser'' else ''isolated_execution''),
     FixtureReport_FreshVMRuns = len attempts, FixtureReport_RunReceipts = map demo_signed attempts, FixtureReport_Name = name,
     FixtureReport_ExpectedOutcome = ''valid'', FixtureReport_Outcome = (if attempts = [] then ''invalid_output'' else ''valid''),
     FixtureReport_ScoreTicks = (if attempts = [] then [] else ''1201''), FixtureReport_Passed = True\<rparr>"

definition demo_build :: BuildReport where
  "demo_build = \<lparr>BuildReport_FreshVMRuns = 4, BuildReport_SBOM = None, BuildReport_VulnerabilityScan = None, BuildReport_ManifestDigest = [],
     BuildReport_SourceSnapshotDigest = [], BuildReport_ValidatorDiskDigest = [], BuildReport_RebuiltValidatorDiskDigest = [],
     BuildReport_ValidatorImageDigest = [], BuildReport_SuiteDigest = [], BuildReport_ExecutionProfileDigest = ''p'',
     BuildReport_OfflineRebuild = True,
     BuildReport_Fixtures = [demo_report ''baseline'' [''b1'', ''b2''], demo_report ''valid'' [''v1'', ''v2''], demo_report ''malformed'' []],
     BuildReport_HostileCorpusPassed = True, BuildReport_ScansPassed = True, BuildReport_Passed = True, BuildReport_Findings = [],
     BuildReport_ValidatorDisk = None, BuildReport_ChallengeDisk = None, BuildReport_SuiteDisk = None, BuildReport_SubmissionDisk = None\<rparr>"

definition demo_preflight :: RunReceipt where
  "demo_preflight = (demo_attempt ''pf'')\<lparr>Run_CreatedAt := 5, Run_BuildReport := Some demo_build\<rparr>"

lemma demo_preflight_evidence: "validateFixtureEvidence demo_attempts (demo_job ''pf'' ''preflight'') demo_preflight demo_host = Inr ()"
proof -
  have "is_ok (validateFixtureEvidence demo_attempts (demo_job ''pf'' ''preflight'') demo_preflight demo_host)" by code_simp
  then show ?thesis by (auto simp: is_ok_iff)
qed

theorem fixture_evidence_sound_witness:
  "\<exists>runs. 4 \<le> length runs \<and> distinct (map Run_JobID runs) \<and>
    (\<exists>parentDigest. \<forall>run\<in>set runs. attempt_ok demo_attempts (demo_job ''pf'' ''preflight'') demo_preflight demo_build demo_host ''pk'' parentDigest run)"
proof -
  have "parseRunnerKey demo_attempts (Host_PublicKey demo_host) = Inr ''pk''" "Run_BuildReport demo_preflight = Some demo_build"
    by (simp_all add: parseRunnerKey_def demo_attempts_def demo_service_def demo_platform_def demo_audit_def demo_crypto_def demo_host_def demo_preflight_def)
  then show ?thesis using fixture_evidence_sound [OF demo_preflight_evidence] by auto
qed

end
