(* ===== verification/Hidden.thy ===== *)
theory Hidden
  imports Checkpoint
begin

text \<open>
  Hidden suites (\<open>pkg/protocol/hidden.go\<close>): the commitment to a secret test suite, its authenticated encryption, and the
  capsule that hands the suite key to one host for one job.

  The primitives of Go's \<open>crypto\<close> packages, the JSON codec of the key material and the canonicaliser are the record
  \<open>hidden_env\<close>.  Random keys, salts, nonces and ephemeral keys are arguments.  Clearing buffers after use has no effect on
  what the functions return and is left out.
\<close>

record hidden_env =
  HE_Sha :: "string \<Rightarrow> string"
  HE_Hmac :: "string \<Rightarrow> string \<Rightarrow> string"
  HE_Seal :: "string \<Rightarrow> string \<Rightarrow> string \<Rightarrow> string \<Rightarrow> string"
  HE_Open :: "string \<Rightarrow> string \<Rightarrow> string \<Rightarrow> string \<Rightarrow> string option"
  HE_PublicKey :: "string \<Rightarrow> string res"
  HE_PrivateKey :: "string \<Rightarrow> string res"
  HE_PublicOf :: "string \<Rightarrow> string"
  HE_ECDH :: "string \<Rightarrow> string \<Rightarrow> string res"
  HE_Marshal :: "SuiteKeyMaterial \<Rightarrow> string res"
  HE_Decode :: "string \<Rightarrow> SuiteKeyMaterial res"
  HE_Document :: "string \<Rightarrow> unit res"
  HE_Transform :: "string \<Rightarrow> string res"

section \<open>Commitments\<close>

definition NUL :: string where
  "NUL = [CHR 0x00]"

definition HiddenSuiteContext :: "string \<Rightarrow> string \<Rightarrow> string" where
  "HiddenSuiteContext jobID commitment = ''science-ladder-hidden-job-v1'' @ NUL @ jobID @ NUL @ commitment"

definition commitment_input :: "string \<Rightarrow> string \<Rightarrow> string" where
  "commitment_input salt digest = ''science-ladder-hidden-suite-v1'' @ NUL @ salt @ digest"

definition SuiteCommitment :: "hidden_env \<Rightarrow> string \<Rightarrow> string \<Rightarrow> string res" where
  "SuiteCommitment env plaintextDigest salt =
     fail_if (\<not> ValidDigest plaintextDigest \<or> len salt \<noteq> 32) ''invalid private suite commitment material''
     (Inr (DigestBytes (HE_Sha env) (commitment_input salt (case hex_decode (drop 7 plaintextDigest) of None \<Rightarrow> [] | Some b \<Rightarrow> b))))"

definition validateSuiteMaterial :: "hidden_env \<Rightarrow> SuiteKeyMaterial \<Rightarrow> unit res" where
  "validateSuiteMaterial env material =
     fail_if (len (Material_Key material) \<noteq> 32 \<or> len (Material_Salt material) \<noteq> 32) ''invalid hidden-suite key material''
     (case SuiteCommitment env (Material_PlaintextDigest material) (Material_Salt material) of
        Inl _ \<Rightarrow> Inl (Err ''hidden-suite commitment mismatch'')
      | Inr commitment \<Rightarrow> fail_if (commitment \<noteq> Material_Commitment material) ''hidden-suite commitment mismatch'' (Inr ()))"

section \<open>Encryption\<close>

definition seal :: "hidden_env \<Rightarrow> string \<Rightarrow> string \<Rightarrow> string \<Rightarrow> string \<Rightarrow> string res" where
  "seal env key plaintext aad nonce =
     fail_if (len key \<noteq> 32 \<or> len nonce \<noteq> 12) ''AES-256 key and 12-byte nonce required''
     (Inr (''SLS1'' @ nonce @ HE_Seal env key nonce plaintext aad))"

definition SealSecret :: "hidden_env \<Rightarrow> string \<Rightarrow> string \<Rightarrow> string \<Rightarrow> string \<Rightarrow> string res" where
  "SealSecret env nonce key plaintext aad = seal env key plaintext aad nonce"

definition OpenSecret :: "hidden_env \<Rightarrow> string \<Rightarrow> string \<Rightarrow> string \<Rightarrow> string res" where
  "OpenSecret env key ciphertext aad =
     fail_if (len key \<noteq> 32 \<or> len ciphertext < 32 \<or> len ciphertext > 2 ^ 30 \<or> take 4 ciphertext \<noteq> ''SLS1'') ''invalid encrypted object''
     (case HE_Open env key (take 12 (drop 4 ciphertext)) (drop 16 ciphertext) aad of
        None \<Rightarrow> Inl (Err ''encrypted object authentication failed'') | Some plaintext \<Rightarrow> Inr plaintext)"

definition object_aad :: "string \<Rightarrow> string \<Rightarrow> string" where
  "object_aad role commitment = ''science-ladder-suite-object-v1'' @ NUL @ role @ NUL @ commitment"

definition object_nonce :: "hidden_env \<Rightarrow> SuiteKeyMaterial \<Rightarrow> string \<Rightarrow> string \<Rightarrow> string" where
  "object_nonce env material plaintext role =
     take 12 (HE_Hmac env (Material_Key material) (object_aad role (Material_Commitment material) @ HE_Sha env plaintext))"

definition EncryptSuiteObject :: "hidden_env \<Rightarrow> SuiteKeyMaterial \<Rightarrow> string \<Rightarrow> string \<Rightarrow> string res" where
  "EncryptSuiteObject env material plaintext role =
     res_bind (validateSuiteMaterial env material) (\<lambda>_.
     fail_if (role \<noteq> ''source'' \<and> role \<noteq> ''disk'') ''invalid suite object role''
     (fail_if (len plaintext > 2 ^ 30) ''suite object exceeds limit''
     (seal env (Material_Key material) plaintext (object_aad role (Material_Commitment material)) (object_nonce env material plaintext role))))"

definition DecryptSuiteObject :: "hidden_env \<Rightarrow> SuiteKeyMaterial \<Rightarrow> string \<Rightarrow> string \<Rightarrow> string res" where
  "DecryptSuiteObject env material ciphertext role =
     res_bind (validateSuiteMaterial env material) (\<lambda>_.
     fail_if (role \<noteq> ''source'' \<and> role \<noteq> ''disk'') ''invalid suite object role''
     (res_bind (OpenSecret env (Material_Key material) ciphertext (object_aad role (Material_Commitment material))) (\<lambda>plaintext.
      fail_if (role = ''source'' \<and> DigestBytes (HE_Sha env) plaintext \<noteq> Material_PlaintextDigest material)
        ''hidden source plaintext digest mismatch'' (Inr plaintext))))"

text \<open>\<open>key\<close> and \<open>salt\<close> are the 32 random bytes each that the source draws.\<close>

definition SealHiddenSuite :: "hidden_env \<Rightarrow> string \<Rightarrow> string \<Rightarrow> string \<Rightarrow> (string \<times> SuiteKeyMaterial) res" where
  "SealHiddenSuite env key salt plaintext =
     res_bind (HE_Document env plaintext) (\<lambda>_.
     res_bind (HE_Transform env plaintext) (\<lambda>canonical.
     res_bind (SuiteCommitment env (DigestBytes (HE_Sha env) canonical) salt) (\<lambda>commitment.
     let material = \<lparr>Material_Key = key, Material_Salt = salt, Material_PlaintextDigest = DigestBytes (HE_Sha env) canonical,
       Material_Commitment = commitment\<rparr>
     in res_bind (EncryptSuiteObject env material canonical ''source'') (\<lambda>ciphertext. Inr (ciphertext, material)))))"

section \<open>Capsules\<close>

definition suiteCapsuleAlgorithm :: string where
  "suiteCapsuleAlgorithm = ''X25519-HKDF-SHA256-AES256GCM''"

definition hkdfSuiteKey :: "hidden_env \<Rightarrow> string \<Rightarrow> string \<Rightarrow> string" where
  "hkdfSuiteKey env shared context =
     (let prk = HE_Hmac env (HE_Sha env context) shared
      in HE_Hmac env prk (''science-ladder-suite-key-wrap-v1'' @ NUL @ context @ [CHR 0x01]))"

definition WrapSuiteKey :: "hidden_env \<Rightarrow> string \<Rightarrow> string \<Rightarrow> string \<Rightarrow> SuiteKeyMaterial \<Rightarrow> string \<Rightarrow> KeyCapsule res" where
  "WrapSuiteKey env ephemeral nonce hostPublicKey material context =
     res_bind (validateSuiteMaterial env material) (\<lambda>_.
     fail_if (len context > 4096) ''key context too long''
     (res_bind (HE_PublicKey env hostPublicKey) (\<lambda>public.
      res_bind (HE_ECDH env ephemeral public) (\<lambda>shared.
      res_bind (HE_Marshal env material) (\<lambda>plaintext.
      res_bind (seal env (hkdfSuiteKey env shared context) plaintext context nonce) (\<lambda>encrypted.
      Inr \<lparr>Capsule_Algorithm = suiteCapsuleAlgorithm, Capsule_EphemeralPublicKey = HE_PublicOf env ephemeral, Capsule_Nonce = nonce,
           Capsule_Ciphertext = drop 16 encrypted, Capsule_ContextDigest = DigestBytes (HE_Sha env) context\<rparr>))))))"

definition UnwrapSuiteKey :: "hidden_env \<Rightarrow> string \<Rightarrow> KeyCapsule \<Rightarrow> string \<Rightarrow> SuiteKeyMaterial res" where
  "UnwrapSuiteKey env hostPrivateKey capsule context =
     fail_if (Capsule_Algorithm capsule \<noteq> suiteCapsuleAlgorithm \<or> Capsule_ContextDigest capsule \<noteq> DigestBytes (HE_Sha env) context
         \<or> len (Capsule_Nonce capsule) \<noteq> 12 \<or> len (Capsule_Ciphertext capsule) > 4096) ''hidden-suite capsule binding mismatch''
     (res_bind (HE_PrivateKey env hostPrivateKey) (\<lambda>private.
      res_bind (HE_PublicKey env (Capsule_EphemeralPublicKey capsule)) (\<lambda>public.
      res_bind (HE_ECDH env private public) (\<lambda>shared.
      res_bind (OpenSecret env (hkdfSuiteKey env shared context) (''SLS1'' @ Capsule_Nonce capsule @ Capsule_Ciphertext capsule) context) (\<lambda>plaintext.
      res_bind (HE_Decode env plaintext) (\<lambda>material.
      res_bind (validateSuiteMaterial env material) (\<lambda>_. Inr material)))))))"

section \<open>What the primitives promise\<close>

text \<open>AES-GCM opens what it sealed, and adds a tag of 16 bytes; HMAC-SHA256 and SHA-256 return 32 bytes.\<close>

definition aead_ok :: "hidden_env \<Rightarrow> bool" where
  "aead_ok env \<longleftrightarrow> sha_ok (HE_Sha env) \<and> (\<forall>k x. length (HE_Hmac env k x) = 32) \<and>
     (\<forall>k n p a. length (HE_Seal env k n p a) = length p + 16 \<and> (length k = 32 \<and> length n = 12 \<longrightarrow> HE_Open env k n (HE_Seal env k n p a) a = Some p))"

text \<open>X25519: both sides compute the same secret, and the public part of a private key is a public key.\<close>

definition ecdh_ok :: "hidden_env \<Rightarrow> string \<Rightarrow> string \<Rightarrow> string \<Rightarrow> bool" where
  "ecdh_ok env ephemeral hostPrivateKey hostPublicKey \<longleftrightarrow> (\<exists>private. HE_PrivateKey env hostPrivateKey = Inr private \<and>
     HE_PublicKey env hostPublicKey = Inr (HE_PublicOf env private) \<and>
     HE_PublicKey env (HE_PublicOf env ephemeral) = Inr (HE_PublicOf env ephemeral) \<and>
     HE_ECDH env private (HE_PublicOf env ephemeral) = HE_ECDH env ephemeral (HE_PublicOf env private))"

text \<open>The material is read back as it was written; its encoding (two 32-byte strings and two digests) is short.\<close>

definition material_codec :: "hidden_env \<Rightarrow> SuiteKeyMaterial \<Rightarrow> bool" where
  "material_codec env material \<longleftrightarrow> (\<forall>p. HE_Marshal env material = Inr p \<longrightarrow> HE_Decode env p = Inr material \<and> length p \<le> 4000)"

section \<open>Lemmas\<close>

lemma validate_material_iff:
  "validateSuiteMaterial env m = Inr () \<longleftrightarrow> length (Material_Key m) = 32 \<and> length (Material_Salt m) = 32 \<and>
    SuiteCommitment env (Material_PlaintextDigest m) (Material_Salt m) = Inr (Material_Commitment m)"
  by (auto simp: validateSuiteMaterial_def res_simps len_def split: sum.splits)

lemma commitment_iff:
  "SuiteCommitment env d salt = Inr c \<longleftrightarrow> (\<exists>b. length b = 32 \<and> d = ''sha256:'' @ hex_encode b \<and> length salt = 32 \<and>
    c = DigestBytes (HE_Sha env) (commitment_input salt b))"
  by (auto simp: SuiteCommitment_def res_simps ValidDigest_iff len_def)

lemma commitment_input_inj:
  "length s = length t \<Longrightarrow> commitment_input s d = commitment_input t e \<longleftrightarrow> s = t \<and> d = e"
  by (simp add: commitment_input_def)

lemma header_parts:
  "take 4 (''SLS1'' @ x) = ''SLS1''" "drop 4 (''SLS1'' @ x) = x" "length (''SLS1'' @ x) = length x + 4"
  by (simp_all add: eval_nat_numeral)

lemma header_drop: "length n = 12 \<Longrightarrow> drop 16 (''SLS1'' @ n @ y) = y"
  by (simp add: eval_nat_numeral)

lemma open_sealed:
  assumes "aead_ok env" "seal env key plaintext aad nonce = Inr c" "len plaintext \<le> 2 ^ 30 - 32"
  shows "OpenSecret env key c aad = Inr plaintext"
proof -
  have n: "length key = 32" "length nonce = 12" and c: "c = ''SLS1'' @ nonce @ HE_Seal env key nonce plaintext aad"
    using assms(2) by (auto simp: seal_def res_simps len_def)
  have "HE_Open env key nonce (HE_Seal env key nonce plaintext aad) aad = Some plaintext"
    "length (HE_Seal env key nonce plaintext aad) = length plaintext + 16"
    using assms(1) n by (auto simp: aead_ok_def)
  then show ?thesis using n assms(3) unfolding OpenSecret_def c
    by (simp only: header_parts header_drop [OF n(2)] len_def length_append) simp
qed

lemma sealed_layout:
  assumes "seal env key plaintext aad nonce = Inr c"
  shows "length nonce = 12" "c = ''SLS1'' @ nonce @ drop 16 c" "drop 16 c = HE_Seal env key nonce plaintext aad"
proof -
  have n: "length nonce = 12" and c: "c = ''SLS1'' @ nonce @ HE_Seal env key nonce plaintext aad"
    using assms by (auto simp: seal_def res_simps len_def)
  show "length nonce = 12" by (rule n)
  show d: "drop 16 c = HE_Seal env key nonce plaintext aad" unfolding c by (rule header_drop [OF n])
  show "c = ''SLS1'' @ nonce @ drop 16 c" unfolding d by (rule c)
qed

lemma context_inj:
  assumes "HiddenSuiteContext j c = HiddenSuiteContext j' c'" "ValidDigest c" "ValidDigest c'"
  shows "j = j' \<and> c = c'"
proof -
  have "length c = length c'" using assms(2,3) by (auto simp: ValidDigest_def len_def split: if_splits)
  then show ?thesis using assms(1) by (simp add: HiddenSuiteContext_def NUL_def)
qed

lemma decrypted_source:
  assumes "DecryptSuiteObject env m c ''source'' = Inr p"
  shows "Material_Commitment m = DigestBytes (HE_Sha env) (commitment_input (Material_Salt m) (HE_Sha env p))"
    "length (Material_Salt m) = 32"
proof -
  have v: "DigestBytes (HE_Sha env) p = Material_PlaintextDigest m" "validateSuiteMaterial env m = Inr ()"
    using assms by (auto simp: DecryptSuiteObject_def res_simps)
  from v(2) obtain b where b: "Material_PlaintextDigest m = ''sha256:'' @ hex_encode b" "length (Material_Salt m) = 32"
    "Material_Commitment m = DigestBytes (HE_Sha env) (commitment_input (Material_Salt m) b)"
    unfolding validate_material_iff commitment_iff by blast
  have "hex_encode (HE_Sha env p) = hex_encode b" using v(1) b(1) by (simp add: DigestBytes_def)
  then have "HE_Sha env p = b" by (metis hex_decode_encode option.inject)
  then show "Material_Commitment m = DigestBytes (HE_Sha env) (commitment_input (Material_Salt m) (HE_Sha env p))"
    "length (Material_Salt m) = 32" using b by simp_all
qed

lemma seal_decrypts:
  assumes "SealHiddenSuite env key salt plaintext = Inr (ciphertext, material)" "HE_Transform env plaintext = Inr canonical"
    and "aead_ok env" "len canonical \<le> 2 ^ 30 - 32"
  shows "DecryptSuiteObject env material ciphertext ''source'' = Inr canonical \<and> validateSuiteMaterial env material = Inr ()"
proof -
  from assms(1,2) have d: "Material_PlaintextDigest material = DigestBytes (HE_Sha env) canonical"
    and e: "EncryptSuiteObject env material canonical ''source'' = Inr ciphertext"
    unfolding SealHiddenSuite_def Let_def by (auto simp: res_simps)
  then have v: "validateSuiteMaterial env material = Inr ()"
    and s: "seal env (Material_Key material) canonical (object_aad ''source'' (Material_Commitment material))
      (object_nonce env material canonical ''source'') = Inr ciphertext"
    by (auto simp: EncryptSuiteObject_def res_simps)
  show ?thesis using open_sealed [OF assms(3) s assms(4)] v d by (simp add: DecryptSuiteObject_def)
qed

section \<open>Properties\<close>

text \<open>C25: A commitment fixes the hidden suite.  If two key materials carry the same commitment and each of them decrypts some
  stored object as the suite's source, both have the same salt and give the same bytes, unless two different inputs with the same SHA-256 are
  exhibited: the two sources, or the two inputs of the commitment.\<close>

theorem suite_commitment_binds:
  assumes "DecryptSuiteObject env m1 c1 ''source'' = Inr p1" "DecryptSuiteObject env m2 c2 ''source'' = Inr p2"
    and "Material_Commitment m1 = Material_Commitment m2"
  shows "p1 = p2 \<and> Material_Salt m1 = Material_Salt m2 \<or> collision_between (HE_Sha env) {p1, commitment_input (Material_Salt m1) (HE_Sha env p1)}
    {p2, commitment_input (Material_Salt m2) (HE_Sha env p2)}"
proof -
  let ?h = "HE_Sha env"
  have h: "?h (commitment_input (Material_Salt m1) (?h p1)) = ?h (commitment_input (Material_Salt m2) (?h p2))"
    using decrypted_source(1) [OF assms(1)] decrypted_source(1) [OF assms(2)] assms(3) by (simp add: DigestBytes_inj)
  have l: "length (Material_Salt m1) = length (Material_Salt m2)"
    using decrypted_source(2) [OF assms(1)] decrypted_source(2) [OF assms(2)] by simp
  show ?thesis
  proof (cases "?h p1 = ?h p2 \<and> Material_Salt m1 = Material_Salt m2")
    case True
    then show ?thesis by (auto simp: collision_between_def)
  next
    case False
    then have "commitment_input (Material_Salt m1) (?h p1) \<noteq> commitment_input (Material_Salt m2) (?h p2)"
      by (auto simp: commitment_input_inj [OF l])
    then show ?thesis using h by (auto simp: collision_between_def)
  qed
qed

text \<open>C18: A capsule opens for its host and its job.  What \<open>WrapSuiteKey\<close> produces for a host is opened by that host's private
  key with the same context, and gives back the key material; with the context of another job or another commitment it is
  refused, unless the two contexts collide under SHA-256.\<close>

theorem capsule_opens_for_its_job:
  assumes "WrapSuiteKey env ephemeral nonce hostPublicKey material (HiddenSuiteContext job (Material_Commitment material)) = Inr capsule"
    and "aead_ok env" "ecdh_ok env ephemeral hostPrivateKey hostPublicKey" "material_codec env material"
  shows "UnwrapSuiteKey env hostPrivateKey capsule (HiddenSuiteContext job (Material_Commitment material)) = Inr material \<and>
    (\<forall>job' commitment. ValidDigest commitment \<and> (job', commitment) \<noteq> (job, Material_Commitment material) \<longrightarrow>
      (\<exists>e. UnwrapSuiteKey env hostPrivateKey capsule (HiddenSuiteContext job' commitment) = Inl e) \<or>
      collision_between (HE_Sha env) {HiddenSuiteContext job (Material_Commitment material)} {HiddenSuiteContext job' commitment})"
proof -
  let ?ctx = "HiddenSuiteContext job (Material_Commitment material)"
  from assms(1) obtain public shared plaintext encrypted where
    v: "validateSuiteMaterial env material = Inr ()" and
    s: "HE_PublicKey env hostPublicKey = Inr public" "HE_ECDH env ephemeral public = Inr shared" and
    p: "HE_Marshal env material = Inr plaintext" "seal env (hkdfSuiteKey env shared ?ctx) plaintext ?ctx nonce = Inr encrypted" and
    c: "capsule = \<lparr>Capsule_Algorithm = suiteCapsuleAlgorithm, Capsule_EphemeralPublicKey = HE_PublicOf env ephemeral, Capsule_Nonce = nonce,
      Capsule_Ciphertext = drop 16 encrypted, Capsule_ContextDigest = DigestBytes (HE_Sha env) ?ctx\<rparr>"
    unfolding WrapSuiteKey_def by (auto simp: res_simps)
  from assms(3) s obtain priv where
    k: "HE_PrivateKey env hostPrivateKey = Inr priv" "HE_PublicKey env (HE_PublicOf env ephemeral) = Inr (HE_PublicOf env ephemeral)"
      "HE_ECDH env priv (HE_PublicOf env ephemeral) = Inr shared" by (auto simp: ecdh_ok_def)
  note layout = sealed_layout [OF p(2)]
  have d: "HE_Decode env plaintext = Inr material" "length plaintext \<le> 4000" using assms(4) p(1) by (auto simp: material_codec_def)
  have "length (drop 16 encrypted) = length plaintext + 16" unfolding layout(3) using assms(2) by (simp add: aead_ok_def)
  moreover have "OpenSecret env (hkdfSuiteKey env shared ?ctx) encrypted ?ctx = Inr plaintext"
    using open_sealed [OF assms(2) p(2)] d(2) by (simp add: len_def)
  ultimately have opens: "UnwrapSuiteKey env hostPrivateKey capsule ?ctx = Inr material"
    using k d v layout(1) layout(2) [symmetric] unfolding UnwrapSuiteKey_def c by (simp add: len_def del: append.simps)
  have other: "(\<exists>e. UnwrapSuiteKey env hostPrivateKey capsule (HiddenSuiteContext job' commitment) = Inl e) \<or>
      collision_between (HE_Sha env) {?ctx} {HiddenSuiteContext job' commitment}"
    if o: "ValidDigest commitment \<and> (job', commitment) \<noteq> (job, Material_Commitment material)" for job' commitment
  proof -
    have "ValidDigest (Material_Commitment material)"
      using v assms(2) by (auto simp: validate_material_iff commitment_iff aead_ok_def intro: DigestBytes_valid)
    then have "?ctx \<noteq> HiddenSuiteContext job' commitment" using o context_inj by blast
    then show ?thesis
      by (cases "HE_Sha env ?ctx = HE_Sha env (HiddenSuiteContext job' commitment)")
        (auto simp: collision_between_def UnwrapSuiteKey_def c DigestBytes_inj)
  qed
  show ?thesis using opens by (intro conjI allI impI) (assumption, rule other)
qed

text \<open>C19: A sealed suite can be read back.  What \<open>SealHiddenSuite\<close> stores decrypts, under the material it returns, to
  the canonical form of the uploaded document, and the material is consistent with its commitment.\<close>

theorem sealed_suite_reads_back:
  assumes "SealHiddenSuite env key salt plaintext = Inr (ciphertext, material)" "HE_Transform env plaintext = Inr canonical"
    and "aead_ok env" "len canonical \<le> 2 ^ 30 - 32"
  shows "DecryptSuiteObject env material ciphertext ''source'' = Inr canonical \<and> validateSuiteMaterial env material = Inr ()"
  by (rule seal_decrypts [OF assms])

text \<open>The bound of the two sides differs by the 32 bytes of overhead: an object in the last 32 bytes below the limit is
  encrypted but never decrypted again.\<close>

lemma oversized_object_not_decrypted:
  assumes "EncryptSuiteObject env material plaintext role = Inr c" "aead_ok env" "len plaintext > 2 ^ 30 - 32"
  shows "\<exists>e. DecryptSuiteObject env material c role = Inl e"
proof -
  let ?n = "object_nonce env material plaintext role" and ?a = "object_aad role (Material_Commitment material)"
  from assms(1) have s: "seal env (Material_Key material) plaintext ?a ?n = Inr c" "validateSuiteMaterial env material = Inr ()"
    by (auto simp: EncryptSuiteObject_def res_simps)
  have "c = ''SLS1'' @ ?n @ HE_Seal env (Material_Key material) ?n plaintext ?a" "length ?n = 12"
    using s(1) by (auto simp: seal_def res_simps len_def)
  moreover have "length (HE_Seal env (Material_Key material) ?n plaintext ?a) = length plaintext + 16"
    using assms(2) by (simp add: aead_ok_def)
  ultimately have "length c = length plaintext + 32" by (simp only: header_parts length_append) simp
  then have "len c > 2 ^ 30" using assms(3) by (simp add: len_def)
  then show ?thesis by (simp add: DecryptSuiteObject_def OpenSecret_def s(2) fail_if_def)
qed

section \<open>An example\<close>

definition demo_hidden :: hidden_env where
  "demo_hidden = \<lparr>HE_Sha = demo_sha, HE_Hmac = (\<lambda>k x. demo_sha (x @ k)), HE_Seal = (\<lambda>k n p a. p @ replicate 16 CHR ''T''),
     HE_Open = (\<lambda>k n c a. Some (take (length c - 16) c)), HE_PublicKey = Inr, HE_PrivateKey = Inr, HE_PublicOf = (\<lambda>k. k),
     HE_ECDH = (\<lambda>a b. Inr ''shared''), HE_Marshal = (\<lambda>m. Inr (Material_Key m @ Material_Salt m)),
     HE_Decode = (\<lambda>p. let d = DigestBytes demo_sha ''{}'' in Inr \<lparr>Material_Key = take 32 p, Material_Salt = drop 32 p, Material_PlaintextDigest = d,
       Material_Commitment = DigestBytes demo_sha (commitment_input (drop 32 p) (demo_sha ''{}''))\<rparr>),
     HE_Document = (\<lambda>_. Inr ()), HE_Transform = Inr\<rparr>"

definition demo_secret :: "char \<Rightarrow> SuiteKeyMaterial" where
  "demo_secret c = \<lparr>Material_Key = replicate 32 c, Material_Salt = replicate 32 CHR ''s'',
     Material_PlaintextDigest = DigestBytes demo_sha ''{}'',
     Material_Commitment = DigestBytes demo_sha (commitment_input (replicate 32 CHR ''s'') (demo_sha ''{}''))\<rparr>"

lemma demo_aead: "aead_ok demo_hidden"
  using demo_sha_ok by (simp add: aead_ok_def demo_hidden_def sha_ok_def)

lemma demo_suite_sealed:
  "case SealHiddenSuite demo_hidden (replicate 32 c) (replicate 32 CHR ''s'') ''{}'' of Inl _ \<Rightarrow> False
   | Inr (x, m) \<Rightarrow> m = demo_secret c \<and> x = ''SLS1'' @ object_nonce demo_hidden (demo_secret c) ''{}'' ''source'' @ ''{}'' @ replicate 16 CHR ''T''"
proof -
  have "length (object_nonce demo_hidden (demo_secret c) ''{}'' ''source'') = 12"
    by (simp add: object_nonce_def demo_hidden_def demo_sha_def)
  moreover have "SuiteCommitment demo_hidden (DigestBytes demo_sha ''{}'') (replicate 32 CHR ''s'') = Inr (Material_Commitment (demo_secret c))"
    using demo_sha_ok by (auto simp: commitment_iff demo_hidden_def demo_secret_def DigestBytes_def sha_ok_def intro!: exI [of _ "demo_sha ''{}''"])
  ultimately show ?thesis
    by (simp add: SealHiddenSuite_def EncryptSuiteObject_def validate_material_iff seal_def Let_def len_def)
      (simp add: demo_hidden_def demo_secret_def validateSuiteMaterial_def len_def)
qed

lemma demo_suite_opens:
  obtains x where "SealHiddenSuite demo_hidden (replicate 32 c) (replicate 32 CHR ''s'') ''{}'' = Inr (x, demo_secret c)"
    "DecryptSuiteObject demo_hidden (demo_secret c) x ''source'' = Inr ''{}''"
proof -
  from demo_suite_sealed [of c] obtain x where
    x: "SealHiddenSuite demo_hidden (replicate 32 c) (replicate 32 CHR ''s'') ''{}'' = Inr (x, demo_secret c)" by (auto split: sum.splits)
  have "HE_Transform demo_hidden ''{}'' = Inr ''{}''" "len ''{}'' \<le> 2 ^ 30 - 32" by (simp_all add: demo_hidden_def len_def)
  with seal_decrypts [OF x _ demo_aead] that x show ?thesis by blast
qed

theorem sealed_suite_reads_back_witness:
  "\<exists>x m. SealHiddenSuite demo_hidden (replicate 32 CHR ''k'') (replicate 32 CHR ''s'') ''{}'' = Inr (x, m) \<and>
    DecryptSuiteObject demo_hidden m x ''source'' = Inr ''{}''"
proof (rule demo_suite_opens [of "CHR ''k''"])
  fix x assume x: "SealHiddenSuite demo_hidden (replicate 32 CHR ''k'') (replicate 32 CHR ''s'') ''{}'' = Inr (x, demo_secret CHR ''k'')"
  have "HE_Transform demo_hidden ''{}'' = Inr ''{}''" "len ''{}'' \<le> 2 ^ 30 - 32" by (simp_all add: demo_hidden_def len_def)
  with sealed_suite_reads_back [OF x _ demo_aead] x show ?thesis by blast
qed

theorem suite_commitment_binds_witness:
  "\<exists>x y p q. DecryptSuiteObject demo_hidden (demo_secret CHR ''a'') x ''source'' = Inr p \<and>
    DecryptSuiteObject demo_hidden (demo_secret CHR ''b'') y ''source'' = Inr q \<and>
    (p = q \<and> Material_Salt (demo_secret CHR ''a'') = Material_Salt (demo_secret CHR ''b'') \<or> collision_between demo_sha {p, commitment_input (replicate 32 CHR ''s'') (demo_sha p)} {q, commitment_input (replicate 32 CHR ''s'') (demo_sha q)})"
proof (rule demo_suite_opens [of "CHR ''a''"], rule demo_suite_opens [of "CHR ''b''"])
  fix x y
  assume xy: "DecryptSuiteObject demo_hidden (demo_secret CHR ''a'') x ''source'' = Inr ''{}''"
    "DecryptSuiteObject demo_hidden (demo_secret CHR ''b'') y ''source'' = Inr ''{}''"
  have f: "Material_Commitment (demo_secret CHR ''a'') = Material_Commitment (demo_secret CHR ''b'')"
    "Material_Salt (demo_secret c) = replicate 32 CHR ''s''" "HE_Sha demo_hidden = demo_sha" for c
    by (simp_all add: demo_secret_def demo_hidden_def)
  show ?thesis using xy suite_commitment_binds [OF xy f(1)] unfolding f(2,3) by blast
qed

theorem capsule_opens_for_its_job_witness:
  "\<exists>capsule. WrapSuiteKey demo_hidden ''e'' (replicate 12 CHR ''n'') ''h'' (demo_secret CHR ''k'')
      (HiddenSuiteContext ''job'' (Material_Commitment (demo_secret CHR ''k''))) = Inr capsule \<and>
    UnwrapSuiteKey demo_hidden ''h'' capsule (HiddenSuiteContext ''job'' (Material_Commitment (demo_secret CHR ''k''))) = Inr (demo_secret CHR ''k'')"
proof -
  have "is_ok (WrapSuiteKey demo_hidden ''e'' (replicate 12 CHR ''n'') ''h'' (demo_secret CHR ''k'')
      (HiddenSuiteContext ''job'' (Material_Commitment (demo_secret CHR ''k''))))" by code_simp
  then obtain capsule where c: "WrapSuiteKey demo_hidden ''e'' (replicate 12 CHR ''n'') ''h'' (demo_secret CHR ''k'')
      (HiddenSuiteContext ''job'' (Material_Commitment (demo_secret CHR ''k''))) = Inr capsule" by (auto simp: is_ok_iff)
  have "ecdh_ok demo_hidden ''e'' ''h'' ''h''" "material_codec demo_hidden (demo_secret CHR ''k'')"
    by (simp_all add: ecdh_ok_def material_codec_def demo_hidden_def demo_secret_def Let_def)
  with capsule_opens_for_its_job [OF c demo_aead] c show ?thesis by blast
qed

end
