(* ===== verification/Adjudication.thy ===== *)
theory Adjudication
  imports Tables
begin

text \<open>
  Adjudication in acceptance order (\<open>adjudicate\<close> of \<open>internal/platform/adjudication.go\<close>): starting after the
  version's watermark, every consecutive validated submission is finalised; it may set a new verified best, claim
  milestones nobody has claimed yet, and advance the public frontier.

  The loop variables are the record \<open>adj_state\<close>.  \<open>draws\<close> supplies what the run draws from outside: the identifier
  and the time of the receipt for each position, and the identifier of the claim of each milestone.  The mapping rows
  are listed in the order of the milestone identifiers, the order the query asks for.
\<close>

record draws =
  Draw_receipt :: "int \<Rightarrow> string"
  Draw_time :: "int \<Rightarrow> go_time"
  Draw_claim :: "string \<Rightarrow> string"

record adj_state =
  AS_db :: platform_db
  AS_watermark :: int
  AS_best :: string
  AS_bestID :: "string option"
  AS_frontier :: string
  AS_frontierID :: "string option"

record verdict =
  VD_claims :: "string list"
  VD_record :: bool
  VD_advance :: bool
  VD_publish :: bool

section \<open>Definitions\<close>

definition results_for :: "string \<Rightarrow> string \<Rightarrow> platform_db \<Rightarrow> runner_result list" where
  "results_for purpose sid db =
     filter (\<lambda>rr. list_ex (\<lambda>j. RJ_ID j = RR_Job rr \<and> RJ_Submission j = Some sid \<and> RJ_Purpose j = purpose) (PD_jobs db))
       (PD_results db)"

text \<open>\<open>ORDER BY j.purpose\<close>: the confirmation first.\<close>

definition measurement_runs :: "string \<Rightarrow> platform_db \<Rightarrow> RunReceipt list" where
  "measurement_runs sid db = map RR_Result (results_for ''confirmation'' sid db @ results_for ''submission'' sid db)"

definition unclaimed :: "string \<Rightarrow> platform_db \<Rightarrow> milestone_mapping list" where
  "unclaimed version db = filter (\<lambda>mv. MM_Version mv = version \<and>
     \<not> list_ex (\<lambda>c. MC_Milestone c = MM_Milestone mv) (PD_claims db)) (PD_mappings db)"

definition milestone_eligible :: "'k service \<Rightarrow> Manifest \<Rightarrow> RunReceipt list \<Rightarrow> string \<Rightarrow> bool res" where
  "milestone_eligible sv m runs mid =
     (case Manifest_Evaluation m of None \<Rightarrow> Inr True | Some _ \<Rightarrow>
      let found = filter (\<lambda>milestone. Milestone_ID milestone = mid) (Manifest_Milestones m) in
      if found = [] then Inl (Err ''milestone mapping does not match locked evaluation'')
      else res_fold (\<lambda>_ milestone. ConfirmedAchievement (Env_NFC (SE_claims sv)) (Env_Marshal (SE_claims sv))
          (Env_Decode (SE_claims sv)) m milestone runs) True found)"

definition claim_milestones ::
    "'k service \<Rightarrow> Manifest \<Rightarrow> RunReceipt list \<Rightarrow> string \<Rightarrow> milestone_mapping list \<Rightarrow> string list res" where
  "claim_milestones sv m runs score rows =
     res_fold (\<lambda>claims row.
       res_bind (milestone_eligible sv m runs (MM_Milestone row)) (\<lambda>eligible.
       Inr (if eligible \<and> crosses score (MM_Threshold row) (Metric_Direction (Manifest_Metric m))
            then claims @ [MM_Milestone row] else claims))) [] rows"

definition judge :: "'k service \<Rightarrow> string \<Rightarrow> Manifest \<Rightarrow> adj_state \<Rightarrow> submission \<Rightarrow> verdict res" where
  "judge sv version m st s =
     (case (if Sub_Outcome s = ''valid'' then Sub_Score s else None) of
        None \<Rightarrow> Inr \<lparr>VD_claims = [], VD_record = False, VD_advance = False, VD_publish = Sub_PublishRequested s\<rparr>
      | Some score \<Rightarrow>
        let runs = (if Manifest_Evaluation m = None then [] else measurement_runs (Sub_ID s) (AS_db st)) in
        res_bind (claim_milestones sv m runs score (unclaimed version (AS_db st))) (\<lambda>claims.
        let publish = (Sub_PublishRequested s \<or> claims \<noteq> []) in
        Inr \<lparr>VD_claims = claims, VD_record = better score (AS_best st) (Metric_Direction (Manifest_Metric m)),
             VD_advance = publish \<and> meaningful score (AS_frontier st) (Manifest_Metric m), VD_publish = publish\<rparr>))"

definition score_json :: "string option \<Rightarrow> json" where
  "score_json score = (case score of None \<Rightarrow> JNull | Some t \<Rightarrow> JStr t)"

definition adjudication_receipt ::
    "draws \<Rightarrow> string \<Rightarrow> int \<Rightarrow> submission \<Rightarrow> string \<times> bool \<times> string \<Rightarrow> verdict \<Rightarrow> Receipt" where
  "adjudication_receipt dr version w s = (\<lambda>(mode, official, policy) v.
     \<lparr>Receipt_VerificationPolicy = policy, Receipt_VerificationStatus = verifiedStatus policy (Sub_Outcome s),
      Receipt_DeploymentMode = mode, Receipt_OfficialAcceptance = official, Receipt_APIVersion = APIVersion,
      Receipt_Kind = ''AdjudicationReceipt'', Receipt_ID = Draw_receipt dr w, Receipt_CreatedAt = Draw_time dr w,
      Receipt_Producer = ''science-ladder'', Receipt_SubjectDigest = Sub_Artifact s, Receipt_EconomicMode = ''none'',
      Receipt_Data = [(''versionId'', JStr version), (''submissionId'', JStr (Sub_ID s)), (''sequence'', JStr (show_int w)),
        (''outcome'', JStr (Sub_Outcome s)), (''scoreTicks'', score_json (Sub_Score s)),
        (''verifiedBestAdvanced'', JBool (VD_record v)), (''publicFrontierAdvanced'', JBool (VD_advance v)),
        (''milestoneIds'', JArr (map JStr (VD_claims v))),
        (''independentReplication'', JBool (policy = VerificationIndependent \<and> Sub_Outcome s = ''valid''))]\<rparr>)"

definition claim_step :: "draws \<Rightarrow> string \<Rightarrow> string \<Rightarrow> string \<Rightarrow> platform_db \<Rightarrow> string \<Rightarrow> platform_db res" where
  "claim_step dr version sid digest db mid =
     res_bind (insert_row (\<lambda>c. MC_ID c = Draw_claim dr mid \<or> MC_Milestone c = mid)
       \<lparr>MC_ID = Draw_claim dr mid, MC_Milestone = mid, MC_Submission = sid, MC_Receipt = digest\<rparr> (PD_claims db)) (\<lambda>claims.
     Inr (db\<lparr>PD_claims := claims, PD_outbox := PD_outbox db @ [(''milestone.claimed.v1'', Draw_claim dr mid,
       JObj [(''versionId'', JStr version), (''milestoneId'', JStr mid), (''submissionId'', JStr sid), (''economicMode'', JStr ''none'')])]\<rparr>))"

definition finalize_row :: "bool \<Rightarrow> string \<Rightarrow> submission \<Rightarrow> submission" where
  "finalize_row publish digest s = s\<lparr>Sub_Status := ''finalized'', Sub_Public := publish, Sub_Adjudication := Some digest\<rparr>"

definition publish_results :: "string \<Rightarrow> platform_db \<Rightarrow> platform_db" where
  "publish_results sid db = publish_receipts (\<lambda>d. list_ex (\<lambda>rr. RR_Digest rr = d \<and>
     list_ex (\<lambda>j. RJ_ID j = RR_Job rr \<and> RJ_Submission j = Some sid) (PD_jobs db)) (PD_results db)) db"

definition publish_submission :: "go_time \<Rightarrow> string \<Rightarrow> string \<Rightarrow> platform_db \<Rightarrow> platform_db" where
  "publish_submission now sid artifact db =
     publish_results sid
      (publish_receipts (\<lambda>d. list_ex (\<lambda>s. Sub_ID s = sid \<and> Sub_Receipt s = d) (PD_submissions db))
       (publish_artifacts now (\<lambda>d. d = artifact \<or> list_ex (\<lambda>s. Sub_ID s = sid \<and> Sub_Disk s = d) (PD_submissions db)) db))"

definition release_capacity :: "string \<Rightarrow> platform_db \<Rightarrow> platform_db res" where
  "release_capacity sid db =
     (let held = tally (\<lambda>r. r = (sid, False)) (PD_reservations db);
          db' = db\<lparr>PD_reservations := update_where (\<lambda>r. r = (sid, False)) (\<lambda>_. (sid, True)) (PD_reservations db)\<rparr>
      in if held \<noteq> 1 then Inr db'
         else if PD_reserved db - 2 < 0 then Inl (Err ''violates check constraint'')
         else Inr (db'\<lparr>PD_reserved := PD_reserved db - 2\<rparr>))"

definition adjudication_event :: "int \<Rightarrow> submission \<Rightarrow> verdict \<Rightarrow> string \<Rightarrow> (string \<times> json) list" where
  "adjudication_event w s v digest =
     [(''sequence'', JStr (show_int w)), (''outcome'', JStr (Sub_Outcome s)), (''commitment'', JStr (Sub_Commitment s))] @
     (if VD_publish v then [(''submissionId'', JStr (Sub_ID s)), (''scoreTicks'', score_json (Sub_Score s)),
        (''milestones'', JArr (map JStr (VD_claims v))), (''receiptDigest'', JStr digest)] else [])"

text \<open>What one submission writes: its receipt, claims, new status, publication, the release of its capacity and the
  audit event.\<close>

definition finalize ::
    "'k service \<Rightarrow> draws \<Rightarrow> go_time \<Rightarrow> string \<Rightarrow> int \<Rightarrow> submission \<Rightarrow> string \<times> bool \<times> string \<Rightarrow> verdict \<Rightarrow> platform_db \<Rightarrow> platform_db res" where
  "finalize sv dr now version w s accepted v db =
     (let doc = DocReceipt (adjudication_receipt dr version w s accepted v) in
      res_bind (Digest sv doc) (\<lambda>digest.
      res_bind (insert_row (\<lambda>r. RC_Digest r = digest) (new_receipt digest doc (Some (Sub_Owner s)) (VD_publish v))
          (PD_receipts db)) (\<lambda>receipts.
      res_bind (res_fold (claim_step dr version (Sub_ID s) digest)
          (enqueue ''sign_receipt'' digest (db\<lparr>PD_receipts := receipts\<rparr>)) (VD_claims v)) (\<lambda>db1.
      let db2 = db1\<lparr>PD_submissions := update_where (\<lambda>x. Sub_ID x = Sub_ID s) (finalize_row (VD_publish v) digest) (PD_submissions db1)\<rparr>;
          db3 = (if VD_publish v then publish_submission now (Sub_ID s) (Sub_Artifact s) db2 else db2)
      in res_bind (release_capacity (Sub_ID s) db3) (\<lambda>db4.
         audit_event sv ''submission.adjudicated'' (adjudication_event w s v digest) db4)))))"

definition adjudicate_one ::
    "'k service \<Rightarrow> draws \<Rightarrow> go_time \<Rightarrow> string \<Rightarrow> Manifest \<Rightarrow> adj_state \<Rightarrow> submission \<Rightarrow> string \<times> bool \<times> string \<Rightarrow> adj_state res" where
  "adjudicate_one sv dr now version m st s accepted =
     res_bind (judge sv version m st s) (\<lambda>v.
     let w = int64 (AS_watermark st + 1); score = (case Sub_Score s of None \<Rightarrow> [] | Some t \<Rightarrow> t) in
     res_bind (finalize sv dr now version w s accepted v (AS_db st)) (\<lambda>db.
     Inr \<lparr>AS_db = db, AS_watermark = w,
          AS_best = (if VD_record v then score else AS_best st), AS_bestID = (if VD_record v then Some (Sub_ID s) else AS_bestID st),
          AS_frontier = (if VD_advance v then score else AS_frontier st),
          AS_frontierID = (if VD_advance v then Some (Sub_ID s) else AS_frontierID st)\<rparr>))"

definition next_in_line :: "string \<Rightarrow> adj_state \<Rightarrow> (submission \<times> document) option" where
  "next_in_line version st =
     (case find (\<lambda>s. Sub_Version s = version \<and> Sub_Sequence s = int64 (AS_watermark st + 1)) (PD_submissions (AS_db st)) of
        None \<Rightarrow> None
      | Some s \<Rightarrow> (case find (\<lambda>r. RC_Digest r = Sub_Receipt s) (PD_receipts (AS_db st)) of
          None \<Rightarrow> None | Some r \<Rightarrow> Some (s, RC_Payload r)))"

definition pending :: "platform_db \<Rightarrow> nat" where
  "pending db = length (filter (\<lambda>s. Sub_Status s = ''validated'') (PD_submissions db))"

section \<open>What finalising leaves alone\<close>

lemma claim_step_fields:
  assumes "claim_step dr version sid digest db mid = Inr db'"
  shows "PD_intents db' = PD_intents db" and "PD_submissions db' = PD_submissions db" "PD_reserved db' = PD_reserved db" "PD_reservations db' = PD_reservations db"
    "PD_jobs db' = PD_jobs db" "PD_results db' = PD_results db" "PD_mappings db' = PD_mappings db" "PD_versions db' = PD_versions db"
    "PD_maximum db' = PD_maximum db" "PD_receipts db' = PD_receipts db"
    "\<forall>c\<in>set (PD_claims db). MC_ID c \<noteq> Draw_claim dr mid \<and> MC_Milestone c \<noteq> mid"
    "PD_claims db' = PD_claims db @ [\<lparr>MC_ID = Draw_claim dr mid, MC_Milestone = mid, MC_Submission = sid, MC_Receipt = digest\<rparr>]"
  using assms by (auto simp: claim_step_def res_simps list_ex_iff)

lemma enqueue_fields [simp]:
  "PD_submissions (enqueue k r db) = PD_submissions db" "PD_reserved (enqueue k r db) = PD_reserved db"
  "PD_reservations (enqueue k r db) = PD_reservations db" "PD_jobs (enqueue k r db) = PD_jobs db"
  "PD_results (enqueue k r db) = PD_results db" "PD_mappings (enqueue k r db) = PD_mappings db"
  "PD_claims (enqueue k r db) = PD_claims db" "PD_receipts (enqueue k r db) = PD_receipts db"
  "PD_versions (enqueue k r db) = PD_versions db" "PD_maximum (enqueue k r db) = PD_maximum db"
  "PD_intents (enqueue k r db) = PD_intents db" "PD_audit (enqueue k r db) = PD_audit db"
  by (simp_all add: enqueue_def)

lemma publish_submission_fields [simp]:
  "PD_submissions (publish_submission now sid a db) = PD_submissions db" "PD_reserved (publish_submission now sid a db) = PD_reserved db"
  "PD_reservations (publish_submission now sid a db) = PD_reservations db" "PD_jobs (publish_submission now sid a db) = PD_jobs db"
  "PD_results (publish_submission now sid a db) = PD_results db" "PD_mappings (publish_submission now sid a db) = PD_mappings db"
  "PD_claims (publish_submission now sid a db) = PD_claims db" "PD_versions (publish_submission now sid a db) = PD_versions db"
  "PD_maximum (publish_submission now sid a db) = PD_maximum db" "PD_intents (publish_submission now sid a db) = PD_intents db"
  "PD_audit (publish_submission now sid a db) = PD_audit db"
  by (simp_all add: publish_submission_def publish_results_def publish_receipts_def publish_artifacts_def)

definition same_payloads :: "receipt_record list \<Rightarrow> receipt_record list \<Rightarrow> bool" where
  "same_payloads rs rs' = (map (\<lambda>r. (RC_Digest r, RC_Payload r)) rs' = map (\<lambda>r. (RC_Digest r, RC_Payload r)) rs)"

lemma publish_receipts_payloads: "same_payloads (PD_receipts db) (PD_receipts (publish_receipts P db))"
  by (simp add: same_payloads_def publish_receipts_def map_update_where)

lemma audit_event_fields:
  assumes "audit_event sv kind payload db = Inr db'"
  shows "\<exists>rows. audit (scrypto sv) (SE_jsonb sv) kind (SE_marshal sv (JObj payload)) (AD_events (PD_audit db)) = Inr rows \<and>
    db' = db\<lparr>PD_audit := (PD_audit db)\<lparr>AD_events := rows\<rparr>\<rparr>"
  using assms by (auto simp: audit_event_def res_simps)

lemma release_capacity_fields:
  assumes "release_capacity sid db = Inr db'"
  shows "\<exists>reserved. db' = db\<lparr>PD_reserved := reserved,
      PD_reservations := update_where (\<lambda>r. r = (sid, False)) (\<lambda>_. (sid, True)) (PD_reservations db)\<rparr> \<and>
    (if tally (\<lambda>r. r = (sid, False)) (PD_reservations db) = 1 then reserved = PD_reserved db - 2 \<and> 0 \<le> reserved
     else reserved = PD_reserved db)"
  using assms by (auto simp: release_capacity_def Let_def split: if_splits intro!: exI)

text \<open>The claims a submission adds are exactly those of its verdict, none of them claimed before.\<close>

definition new_claim :: "draws \<Rightarrow> string \<Rightarrow> string \<Rightarrow> string \<Rightarrow> milestone_claim" where
  "new_claim dr sid digest mid = \<lparr>MC_ID = Draw_claim dr mid, MC_Milestone = mid, MC_Submission = sid, MC_Receipt = digest\<rparr>"

lemma claims_fold:
  assumes "res_fold (claim_step dr version sid digest) db mids = Inr db'"
  shows "PD_claims db' = PD_claims db @ map (new_claim dr sid digest) mids \<and>
    (distinct (map MC_Milestone (PD_claims db)) \<longrightarrow> distinct (map MC_Milestone (PD_claims db'))) \<and>
    (\<exists>out. db' = db\<lparr>PD_claims := PD_claims db', PD_outbox := out\<rparr>)"
  using assms
proof (induction mids arbitrary: db)
  case Nil
  then show ?case by (auto intro!: exI [of _ "PD_outbox db"])
next
  case (Cons mid mids)
  then obtain db1 where db1: "claim_step dr version sid digest db mid = Inr db1"
    "res_fold (claim_step dr version sid digest) db1 mids = Inr db'" by (auto simp: res_simps)
  note f = claim_step_fields [OF db1(1)]
  have c: "PD_claims db1 = PD_claims db @ [new_claim dr sid digest mid]" using f by (simp add: new_claim_def)
  have d: "distinct (map MC_Milestone (PD_claims db)) \<Longrightarrow> distinct (map MC_Milestone (PD_claims db1))"
    using f c by (auto simp: new_claim_def)
  obtain out where o: "db1 = db\<lparr>PD_claims := PD_claims db1, PD_outbox := out\<rparr>"
    using db1(1) by (auto simp: claim_step_def res_simps)
  note ih = Cons.IH [OF db1(2)]
  from ih obtain out' where o': "db' = db1\<lparr>PD_claims := PD_claims db', PD_outbox := out'\<rparr>" by blast
  have "db' = db\<lparr>PD_claims := PD_claims db', PD_outbox := out'\<rparr>"
    by (subst o', subst o) simp
  with ih c d show ?case by auto
qed

lemma publish_submission_payloads: "same_payloads (PD_receipts db) (PD_receipts (publish_submission now sid a db))"
proof -
  have "PD_receipts (publish_artifacts t P x) = PD_receipts x" for t P x by (simp add: publish_artifacts_def)
  then show ?thesis using publish_receipts_payloads unfolding publish_submission_def publish_results_def same_payloads_def by metis
qed

lemma finalize_effect:
  assumes "finalize sv dr now version w s accepted v db = Inr db'"
  obtains digest where
    "PD_submissions db' = update_where (\<lambda>x. Sub_ID x = Sub_ID s) (finalize_row (VD_publish v) digest) (PD_submissions db)"
    "PD_claims db' = PD_claims db @ map (new_claim dr (Sub_ID s) digest) (VD_claims v)"
    "distinct (map MC_Milestone (PD_claims db)) \<longrightarrow> distinct (map MC_Milestone (PD_claims db'))"
    "PD_jobs db' = PD_jobs db" "PD_results db' = PD_results db" "PD_mappings db' = PD_mappings db"
    "PD_versions db' = PD_versions db" "PD_maximum db' = PD_maximum db" "PD_intents db' = PD_intents db"
    "PD_reservations db' = update_where (\<lambda>r. r = (Sub_ID s, False)) (\<lambda>_. (Sub_ID s, True)) (PD_reservations db)"
    "PD_reserved db' = PD_reserved db - (if tally (\<lambda>r. r = (Sub_ID s, False)) (PD_reservations db) = 1 then 2 else 0)"
    "PD_reserved db' < PD_reserved db \<longrightarrow> 0 \<le> PD_reserved db'"
    "map (\<lambda>r. (RC_Digest r, RC_Payload r)) (PD_receipts db') =
      map (\<lambda>r. (RC_Digest r, RC_Payload r)) (PD_receipts db) @ [(digest, DocReceipt (adjudication_receipt dr version w s accepted v))]"
proof -
  let ?doc = "DocReceipt (adjudication_receipt dr version w s accepted v)"
  from assms obtain digest receipts db1 db4 where
    r: "receipts = PD_receipts db @ [new_receipt digest ?doc (Some (Sub_Owner s)) (VD_publish v)]" and
    c: "res_fold (claim_step dr version (Sub_ID s) digest) (enqueue ''sign_receipt'' digest (db\<lparr>PD_receipts := receipts\<rparr>)) (VD_claims v) = Inr db1" and
    rel: "release_capacity (Sub_ID s) (if VD_publish v then publish_submission now (Sub_ID s) (Sub_Artifact s)
         (db1\<lparr>PD_submissions := update_where (\<lambda>x. Sub_ID x = Sub_ID s) (finalize_row (VD_publish v) digest) (PD_submissions db1)\<rparr>)
       else db1\<lparr>PD_submissions := update_where (\<lambda>x. Sub_ID x = Sub_ID s) (finalize_row (VD_publish v) digest) (PD_submissions db1)\<rparr>) = Inr db4" and
    a: "audit_event sv ''submission.adjudicated'' (adjudication_event w s v digest) db4 = Inr db'"
    unfolding finalize_def Let_def res_bind_Inr_iff insert_row_Inr by blast
  let ?db2 = "db1\<lparr>PD_submissions := update_where (\<lambda>x. Sub_ID x = Sub_ID s) (finalize_row (VD_publish v) digest) (PD_submissions db1)\<rparr>"
  let ?db3 = "if VD_publish v then publish_submission now (Sub_ID s) (Sub_Artifact s) ?db2 else ?db2"
  note cf = claims_fold [OF c]
  from cf obtain out where
    d1: "db1 = (enqueue ''sign_receipt'' digest (db\<lparr>PD_receipts := receipts\<rparr>))\<lparr>PD_claims := PD_claims db1, PD_outbox := out\<rparr>" by blast
  have cl: "PD_claims db1 = PD_claims db @ map (new_claim dr (Sub_ID s) digest) (VD_claims v)" using cf [THEN conjunct1] by simp
  have cd: "distinct (map MC_Milestone (PD_claims db1))" if "distinct (map MC_Milestone (PD_claims db))"
    using cf [THEN conjunct2, THEN conjunct1] that by simp
  from release_capacity_fields [OF rel] obtain reserved where
    d4: "db4 = ?db3\<lparr>PD_reserved := reserved,
      PD_reservations := update_where (\<lambda>r. r = (Sub_ID s, False)) (\<lambda>_. (Sub_ID s, True)) (PD_reservations ?db3)\<rparr>" and
    rs: "if tally (\<lambda>r. r = (Sub_ID s, False)) (PD_reservations ?db3) = 1 then reserved = PD_reserved ?db3 - 2 \<and> 0 \<le> reserved
      else reserved = PD_reserved ?db3" by auto
  from audit_event_fields [OF a] obtain rows where d5: "db' = db4\<lparr>PD_audit := (PD_audit db4)\<lparr>AD_events := rows\<rparr>\<rparr>" by auto
  have f1: "PD_submissions db1 = PD_submissions db" "PD_jobs db1 = PD_jobs db" "PD_results db1 = PD_results db"
    "PD_mappings db1 = PD_mappings db" "PD_versions db1 = PD_versions db" "PD_maximum db1 = PD_maximum db" "PD_intents db1 = PD_intents db"
    "PD_reservations db1 = PD_reservations db" "PD_reserved db1 = PD_reserved db" "PD_receipts db1 = receipts"
    by (subst d1, simp)+
  have p: "same_payloads receipts (PD_receipts db')"
    using publish_submission_payloads [of ?db2] f1 by (cases "VD_publish v") (simp_all add: d5 d4 same_payloads_def)
  show ?thesis
  proof (rule that)
    show "map (\<lambda>r. (RC_Digest r, RC_Payload r)) (PD_receipts db') =
      map (\<lambda>r. (RC_Digest r, RC_Payload r)) (PD_receipts db) @ [(digest, ?doc)]"
      using p by (simp add: same_payloads_def r new_receipt_def)
  qed (use f1 cl cd rs in \<open>simp_all add: d5 d4 split: if_splits\<close>)
qed

section \<open>The loop\<close>

lemma next_in_line_row:
  assumes "next_in_line version st = Some (s, doc)"
  shows "s \<in> set (PD_submissions (AS_db st))" "Sub_Version s = version" "Sub_Sequence s = int64 (AS_watermark st + 1)"
  using assms by (auto simp: next_in_line_def find_Some_iff split: option.splits)

lemma adjudicate_one_finalize:
  assumes "adjudicate_one sv dr now version m st s accepted = Inr st'"
  obtains v where "judge sv version m st s = Inr v"
    "finalize sv dr now version (AS_watermark st') s accepted v (AS_db st) = Inr (AS_db st')"
    "AS_watermark st' = int64 (AS_watermark st + 1)"
    "AS_best st' = (if VD_record v then (case Sub_Score s of None \<Rightarrow> [] | Some t \<Rightarrow> t) else AS_best st)"
    "AS_bestID st' = (if VD_record v then Some (Sub_ID s) else AS_bestID st)"
    "AS_frontier st' = (if VD_advance v then (case Sub_Score s of None \<Rightarrow> [] | Some t \<Rightarrow> t) else AS_frontier st)"
    "AS_frontierID st' = (if VD_advance v then Some (Sub_ID s) else AS_frontierID st)"
  using assms unfolding adjudicate_one_def Let_def res_simps by (auto simp: res_simps)

lemma finalize_row_simps [simp]:
  "Sub_Status (finalize_row p digest s) = ''finalized''" "Sub_ID (finalize_row p digest s) = Sub_ID s"
  "Sub_Version (finalize_row p digest s) = Sub_Version s" "Sub_Sequence (finalize_row p digest s) = Sub_Sequence s"
  "Sub_Score (finalize_row p digest s) = Sub_Score s" "Sub_Outcome (finalize_row p digest s) = Sub_Outcome s"
  "Sub_Receipt (finalize_row p digest s) = Sub_Receipt s" "Sub_Owner (finalize_row p digest s) = Sub_Owner s"
  "Sub_Artifact (finalize_row p digest s) = Sub_Artifact s" "Sub_Intent (finalize_row p digest s) = Sub_Intent s"
  by (simp_all add: finalize_row_def)

lemma finalize_pending:
  assumes "s \<in> set (PD_submissions db)" "Sub_Status s = ''validated''"
    and "PD_submissions db' = update_where (\<lambda>x. Sub_ID x = Sub_ID s) (finalize_row p digest) (PD_submissions db)"
  shows "pending db' < pending db"
proof -
  have le: "length (filter (\<lambda>x. Sub_Status x = ''validated'') (update_where (\<lambda>x. Sub_ID x = Sub_ID s) (finalize_row p digest) xs))
      \<le> length (filter (\<lambda>x. Sub_Status x = ''validated'') xs)" for xs
    by (induction xs) (auto simp: update_where_def)
  have "s \<in> set xs \<Longrightarrow> length (filter (\<lambda>x. Sub_Status x = ''validated'') (update_where (\<lambda>x. Sub_ID x = Sub_ID s) (finalize_row p digest) xs))
      < length (filter (\<lambda>x. Sub_Status x = ''validated'') xs)" for xs
  proof (induction xs)
    case (Cons x xs)
    then show ?case using le [of xs] assms(2) by (auto simp: update_where_def)
  qed simp
  from this [OF assms(1)] show ?thesis by (simp add: pending_def assms(3))
qed

lemma adjudicate_one_pending:
  assumes "adjudicate_one sv dr now version m st s accepted = Inr st'" "next_in_line version st = Some (s, doc)"
    and "Sub_Status s = ''validated''"
  shows "pending (AS_db st') < pending (AS_db st)"
proof -
  from assms(1) obtain v where "finalize sv dr now version (AS_watermark st') s accepted v (AS_db st) = Inr (AS_db st')"
    by (rule adjudicate_one_finalize)
  then obtain digest where "PD_submissions (AS_db st') =
      update_where (\<lambda>x. Sub_ID x = Sub_ID s) (finalize_row (VD_publish v) digest) (PD_submissions (AS_db st))"
    by (rule finalize_effect)
  from finalize_pending [OF next_in_line_row(1) [OF assms(2)] assms(3) this] show ?thesis .
qed

function adjudicate_loop ::
    "'k service \<Rightarrow> draws \<Rightarrow> go_time \<Rightarrow> string \<Rightarrow> Manifest \<Rightarrow> adj_state \<Rightarrow> adj_state res" where
  "adjudicate_loop sv dr now version m st =
     (case next_in_line version st of None \<Rightarrow> Inr st | Some (s, doc) \<Rightarrow>
      case acceptance_of doc of Inl e \<Rightarrow> Inl e | Inr accepted \<Rightarrow>
      if \<not> ValidVerificationPolicy (snd (snd accepted)) then http_fail ''verification_policy_invalid''
      else if Sub_Status s \<noteq> ''validated'' then Inr st
      else (case adjudicate_one sv dr now version m st s accepted of Inl e \<Rightarrow> Inl e
        | Inr st' \<Rightarrow> adjudicate_loop sv dr now version m st'))"
  by pat_completeness auto
termination
  by (relation "measure (\<lambda>(sv, dr, now, version, m, st). pending (AS_db st))") (auto intro: adjudicate_one_pending)

declare adjudicate_loop.simps [simp del]

definition score_of :: "platform_db \<Rightarrow> string option \<Rightarrow> string \<Rightarrow> string res" where
  "score_of db row baseline = (case row of None \<Rightarrow> Inr baseline | Some sid \<Rightarrow>
     res_bind (select_row (\<lambda>s. Sub_ID s = sid) (PD_submissions db)) (\<lambda>s.
     case Sub_Score s of None \<Rightarrow> Inl (Err ''cannot scan NULL into *string'') | Some t \<Rightarrow> Inr t))"

definition adjudicate :: "'k service \<Rightarrow> draws \<Rightarrow> go_time \<Rightarrow> string \<Rightarrow> platform_db \<Rightarrow> platform_db res" where
  "adjudicate sv dr now version db =
     res_bind (select_row (\<lambda>v. CV_ID v = version) (PD_versions db)) (\<lambda>cv.
     res_bind (CV_Manifest cv) (\<lambda>m.
     res_bind (score_of db (CV_Best cv) (Metric_BaselineTicks (Manifest_Metric m))) (\<lambda>best.
     res_bind (score_of db (CV_Frontier cv) (Metric_BaselineTicks (Manifest_Metric m))) (\<lambda>frontier.
     res_bind (adjudicate_loop sv dr now version m \<lparr>AS_db = db, AS_watermark = CV_Watermark cv, AS_best = best,
         AS_bestID = CV_Best cv, AS_frontier = frontier, AS_frontierID = CV_Frontier cv\<rparr>) (\<lambda>st.
     if AS_watermark st > CV_NextSequence cv then Inl (Err ''violates check constraint'') else
     Inr ((AS_db st)\<lparr>PD_versions := update_where (\<lambda>v. CV_ID v = version)
       (\<lambda>v. v\<lparr>CV_Watermark := AS_watermark st, CV_Best := AS_bestID st, CV_Frontier := AS_frontierID st\<rparr>)
       (PD_versions (AS_db st))\<rparr>))))))"

section \<open>Traces of the loop\<close>

text \<open>The submissions a run of the loop finalised, each with its verdict.\<close>

inductive adjudicated ::
    "'k service \<Rightarrow> draws \<Rightarrow> go_time \<Rightarrow> string \<Rightarrow> Manifest \<Rightarrow> adj_state \<Rightarrow> (submission \<times> verdict) list \<Rightarrow> adj_state \<Rightarrow> bool"
  for sv dr now version m
where
  adjudicated_Nil: "adjudicated sv dr now version m st [] st"
| adjudicated_Cons: "next_in_line version st = Some (s, doc) \<Longrightarrow> Sub_Status s = ''validated'' \<Longrightarrow> judge sv version m st s = Inr v \<Longrightarrow>
    adjudicate_one sv dr now version m st s accepted = Inr st1 \<Longrightarrow> adjudicated sv dr now version m st1 ss st' \<Longrightarrow>
    adjudicated sv dr now version m st ((s, v) # ss) st'"

definition blocked :: "string \<Rightarrow> adj_state \<Rightarrow> bool" where
  "blocked version st = (case next_in_line version st of None \<Rightarrow> True | Some (s, _) \<Rightarrow> Sub_Status s \<noteq> ''validated'')"

lemma loop_adjudicated:
  assumes "adjudicate_loop sv dr now version m st = Inr st'"
  shows "\<exists>ss. adjudicated sv dr now version m st ss st' \<and> blocked version st'"
  using assms
proof (induction sv dr now version m st rule: adjudicate_loop.induct)
  case (1 sv dr now version m st)
  show ?case
  proof (cases "next_in_line version st")
    case None
    then show ?thesis using "1.prems"
      by (subst (asm) adjudicate_loop.simps) (auto simp: blocked_def intro: adjudicated_Nil)
  next
    case (Some p)
    obtain s doc where p: "p = (s, doc)" by (cases p)
    from "1.prems" obtain accepted where a: "acceptance_of doc = Inr accepted" "ValidVerificationPolicy (snd (snd accepted))"
      by (subst (asm) adjudicate_loop.simps) (auto simp: Some p http_fail_def split: sum.splits if_splits)
    show ?thesis
    proof (cases "Sub_Status s = ''validated''")
      case False
      then have "st' = st" using "1.prems" a by (subst (asm) adjudicate_loop.simps) (simp add: Some p)
      then show ?thesis using False by (auto simp: Some p blocked_def intro: adjudicated_Nil)
    next
      case True
      from "1.prems" obtain st1 where st1: "adjudicate_one sv dr now version m st s accepted = Inr st1"
        "adjudicate_loop sv dr now version m st1 = Inr st'"
        by (subst (asm) adjudicate_loop.simps) (auto simp: Some p a True split: sum.splits)
      from "1.IH" [OF Some p [symmetric] a(1) _ _ st1(1) st1(2)] a(2) True obtain ss where
        ss: "adjudicated sv dr now version m st1 ss st'" "blocked version st'" by auto
      from st1(1) obtain v where v: "judge sv version m st s = Inr v" by (rule adjudicate_one_finalize)
      from adjudicated_Cons [OF Some [unfolded p] True v st1(1) ss(1)] ss(2) show ?thesis by blast
    qed
  qed
qed

definition submissions_ok :: "submission list \<Rightarrow> bool" where
  "submissions_ok subs \<longleftrightarrow> distinct (map Sub_ID subs) \<and> (\<forall>s\<in>set subs. 1 \<le> Sub_Sequence s \<and> Sub_Sequence s < 2 ^ 63) \<and>
     distinct (map (\<lambda>s. (Sub_Version s, Sub_Sequence s)) subs)"

lemma submissions_okD:
  assumes "submissions_ok subs" "s \<in> set subs" "t \<in> set subs"
  shows "Sub_ID s = Sub_ID t \<Longrightarrow> s = t" "Sub_Version s = Sub_Version t \<Longrightarrow> Sub_Sequence s = Sub_Sequence t \<Longrightarrow> s = t"
    "1 \<le> Sub_Sequence s" "Sub_Sequence s < 2 ^ 63"
  using assms unfolding submissions_ok_def by (auto simp: distinct_map inj_on_def)

lemma submissions_ok_update:
  assumes "submissions_ok subs" "\<And>s. P s \<Longrightarrow> Sub_ID (f s) = Sub_ID s \<and> Sub_Version (f s) = Sub_Version s \<and> Sub_Sequence (f s) = Sub_Sequence s"
  shows "submissions_ok (update_where P f subs)"
proof -
  have "map Sub_ID (update_where P f subs) = map Sub_ID subs" using assms(2) by (intro map_update_where) simp
  moreover have "map (\<lambda>s. (Sub_Version s, Sub_Sequence s)) (update_where P f subs) = map (\<lambda>s. (Sub_Version s, Sub_Sequence s)) subs"
    using assms(2) by (intro map_update_where) simp
  moreover have "\<forall>s\<in>set (update_where P f subs). 1 \<le> Sub_Sequence s \<and> Sub_Sequence s < 2 ^ 63"
    using assms unfolding submissions_ok_def by (auto simp: set_update_where)
  ultimately show ?thesis using assms(1) unfolding submissions_ok_def by simp
qed

lemma int64_successor:
  assumes "0 \<le> w" "w < 2 ^ 63" "1 \<le> int64 (w + 1)"
  shows "int64 (w + 1) = w + 1"
proof (cases "w + 1 < 2 ^ 63")
  case True
  then show ?thesis using assms(1) by (simp add: int64_id)
next
  case False
  then have "w + 1 = 2 ^ 63" using assms(2) by simp
  then have "int64 (w + 1) = - (2 ^ 63)" by (simp add: int64_def signed_take_bit_eq_take_bit_shift)
  then show ?thesis using assms(3) by simp
qed

text \<open>A run finalises consecutive rows of the version, as they were when it started, and changes no other row.\<close>

lemma adjudicated_rows:
  assumes "adjudicated sv dr now version m st ss st'" "submissions_ok (PD_submissions (AS_db st))"
    and "0 \<le> AS_watermark st" "AS_watermark st < 2 ^ 63"
  shows "AS_watermark st' = AS_watermark st + len ss \<and> AS_watermark st' < 2 ^ 63 \<and>
    (\<forall>s\<in>fst ` set ss. s \<in> set (PD_submissions (AS_db st)) \<and> Sub_Version s = version \<and> Sub_Status s = ''validated'') \<and>
    map (\<lambda>p. Sub_Sequence (fst p)) ss = [AS_watermark st + 1 .. AS_watermark st'] \<and>
    submissions_ok (PD_submissions (AS_db st')) \<and>
    (\<exists>f. PD_submissions (AS_db st') = map f (PD_submissions (AS_db st)) \<and>
      (\<forall>s. f s = s \<and> Sub_ID s \<notin> Sub_ID ` fst ` set ss \<or>
        Sub_ID s \<in> Sub_ID ` fst ` set ss \<and> (\<exists>p digest. f s = finalize_row p digest s)))"
  using assms
proof (induction rule: adjudicated.induct)
  case (adjudicated_Nil st)
  then show ?case by (auto intro!: exI [of _ "\<lambda>s. s"])
next
  case (adjudicated_Cons st s doc v accepted st1 ss st')
  note row = next_in_line_row [OF adjudicated_Cons.hyps(1)]
  from adjudicated_Cons.hyps(4) obtain v' where
    fin: "finalize sv dr now version (AS_watermark st1) s accepted v' (AS_db st) = Inr (AS_db st1)" and
    w: "AS_watermark st1 = int64 (AS_watermark st + 1)" by (rule adjudicate_one_finalize)
  from fin obtain digest where subs: "PD_submissions (AS_db st1) =
      update_where (\<lambda>x. Sub_ID x = Sub_ID s) (finalize_row (VD_publish v') digest) (PD_submissions (AS_db st))"
    by (rule finalize_effect)
  have ok1: "submissions_ok (PD_submissions (AS_db st1))"
    unfolding subs by (rule submissions_ok_update [OF adjudicated_Cons.prems(1)]) simp
  have w1: "AS_watermark st1 = AS_watermark st + 1"
    using submissions_okD(3) [OF adjudicated_Cons.prems(1) row(1) row(1)] row(3) w adjudicated_Cons.prems(2,3)
    by (simp add: int64_successor)
  have b1: "AS_watermark st1 < 2 ^ 63" using int64_bounds [of "AS_watermark st + 1"] w by simp
  have "0 \<le> AS_watermark st1" using w1 adjudicated_Cons.prems(2) by simp
  note ih0 = adjudicated_Cons.IH [OF ok1 this b1]
  note c = conjunct2
  note ih = ih0 [THEN conjunct1] ih0 [THEN c, THEN conjunct1] ih0 [THEN c, THEN c, THEN conjunct1]
    ih0 [THEN c, THEN c, THEN c, THEN conjunct1] ih0 [THEN c, THEN c, THEN c, THEN c, THEN conjunct1]
    ih0 [THEN c, THEN c, THEN c, THEN c, THEN c]
  have unchanged: "x \<in> set (PD_submissions (AS_db st)) \<and> Sub_ID x \<noteq> Sub_ID s" if "x \<in> fst ` set ss" for x
    using ih(3) that unfolding subs set_update_where by fastforce
  from ih(6) obtain f where f: "PD_submissions (AS_db st') = map f (PD_submissions (AS_db st1))"
    "\<And>s. f s = s \<and> Sub_ID s \<notin> Sub_ID ` fst ` set ss \<or>
        Sub_ID s \<in> Sub_ID ` fst ` set ss \<and> (\<exists>p digest. f s = finalize_row p digest s)" by blast
  let ?g = "\<lambda>x. f (if Sub_ID x = Sub_ID s then finalize_row (VD_publish v') digest x else x)"
  have g: "PD_submissions (AS_db st') = map ?g (PD_submissions (AS_db st))"
    unfolding f(1) subs update_where_def by simp
  have notin: "Sub_ID s \<notin> Sub_ID ` fst ` set ss" using unchanged by fastforce
  have g2: "?g x = x \<and> Sub_ID x \<notin> Sub_ID ` fst ` set ((s, v) # ss) \<or>
      Sub_ID x \<in> Sub_ID ` fst ` set ((s, v) # ss) \<and> (\<exists>p digest. ?g x = finalize_row p digest x)" for x
    using f(2) [of x] f(2) [of "finalize_row (VD_publish v') digest x"] notin by (cases "Sub_ID x = Sub_ID s") auto
  have "[AS_watermark st + 1 .. AS_watermark st'] = (AS_watermark st + 1) # [AS_watermark st1 + 1 .. AS_watermark st']"
    using ih(1) w1 len_nonneg [of ss] by (subst upto.simps) auto
  then have seqs: "map (\<lambda>p. Sub_Sequence (fst p)) ((s, v) # ss) = [AS_watermark st + 1 .. AS_watermark st']"
    using ih(4) row(3) w w1 by simp
  show ?case
  proof (intro conjI)
    show "\<forall>x\<in>fst ` set ((s, v) # ss). x \<in> set (PD_submissions (AS_db st)) \<and> Sub_Version x = version \<and> Sub_Status x = ''validated''"
      using ih(3) row unchanged adjudicated_Cons.hyps(2) by simp
    show "\<exists>f. PD_submissions (AS_db st') = map f (PD_submissions (AS_db st)) \<and>
      (\<forall>x. f x = x \<and> Sub_ID x \<notin> Sub_ID ` fst ` set ((s, v) # ss) \<or>
        Sub_ID x \<in> Sub_ID ` fst ` set ((s, v) # ss) \<and> (\<exists>p digest. f x = finalize_row p digest x))"
      using g g2 by blast
  qed (use seqs ih(1,2,5) w1 in simp_all)
qed

lemma adjudicated_split:
  assumes "adjudicated sv dr now version m st ss st'" "(s, v) \<in> set ss"
  obtains a b sta where "ss = a @ (s, v) # b" "adjudicated sv dr now version m st a sta" "judge sv version m sta s = Inr v"
    "adjudicated sv dr now version m sta ((s, v) # b) st'"
  using assms
proof (induction arbitrary: thesis rule: adjudicated.induct)
  case (adjudicated_Cons st x doc w accepted st1 ss st')
  note whole = adjudicated.adjudicated_Cons [OF adjudicated_Cons.hyps]
  show ?case
  proof (cases "(s, v) = (x, w)")
    case True
    then show ?thesis using adjudicated_Cons.prems(1) [of "[]" ss st, OF _ adjudicated.adjudicated_Nil] adjudicated_Cons.hyps(3) whole by simp
  next
    case False
    then have "(s, v) \<in> set ss" using adjudicated_Cons.prems(2) by auto
    then obtain a b sta where "ss = a @ (s, v) # b" "adjudicated sv dr now version m st1 a sta" "judge sv version m sta s = Inr v"
      "adjudicated sv dr now version m sta ((s, v) # b) st'" using adjudicated_Cons.IH by blast
    then show ?thesis
      using adjudicated_Cons.prems(1) [of "(x, w) # a" b sta]
        adjudicated.adjudicated_Cons [OF adjudicated_Cons.hyps(1-4)] by auto
  qed
qed simp

lemma adjudicate_one_tables:
  assumes "adjudicate_one sv dr now version m st s accepted = Inr st1" "judge sv version m st s = Inr v"
  obtains digest where "PD_claims (AS_db st1) = PD_claims (AS_db st) @ map (new_claim dr (Sub_ID s) digest) (VD_claims v)"
    "distinct (map MC_Milestone (PD_claims (AS_db st))) \<longrightarrow> distinct (map MC_Milestone (PD_claims (AS_db st1)))"
    "PD_jobs (AS_db st1) = PD_jobs (AS_db st)" "PD_results (AS_db st1) = PD_results (AS_db st)"
    "PD_mappings (AS_db st1) = PD_mappings (AS_db st)" "PD_versions (AS_db st1) = PD_versions (AS_db st)"
proof -
  from assms(1) obtain v' where v': "judge sv version m st s = Inr v'"
    "finalize sv dr now version (AS_watermark st1) s accepted v' (AS_db st) = Inr (AS_db st1)" by (rule adjudicate_one_finalize)
  then have "v' = v" using assms(2) by simp
  from v'(2) [unfolded this] show ?thesis by (rule finalize_effect) (rule that)
qed

lemma adjudicated_tables:
  assumes "adjudicated sv dr now version m st ss st'"
  shows "PD_jobs (AS_db st') = PD_jobs (AS_db st) \<and> PD_results (AS_db st') = PD_results (AS_db st) \<and>
    PD_mappings (AS_db st') = PD_mappings (AS_db st) \<and> PD_versions (AS_db st') = PD_versions (AS_db st) \<and>
    set (PD_claims (AS_db st)) \<subseteq> set (PD_claims (AS_db st')) \<and>
    (distinct (map MC_Milestone (PD_claims (AS_db st))) \<longrightarrow> distinct (map MC_Milestone (PD_claims (AS_db st')))) \<and>
    (\<forall>(s, v)\<in>set ss. set (VD_claims v) \<subseteq> MC_Milestone ` set (PD_claims (AS_db st'))) \<and>
    (\<forall>c\<in>set (PD_claims (AS_db st')) - set (PD_claims (AS_db st)).
      \<exists>(s, v)\<in>set ss. MC_Submission c = Sub_ID s \<and> MC_Milestone c \<in> set (VD_claims v))"
  using assms
proof (induction rule: adjudicated.induct)
  case (adjudicated_Nil st)
  then show ?case by simp
next
  case (adjudicated_Cons st s doc v accepted st1 ss st')
  from adjudicated_Cons.hyps(4,3) obtain digest where step:
    "PD_claims (AS_db st1) = PD_claims (AS_db st) @ map (new_claim dr (Sub_ID s) digest) (VD_claims v)"
    "distinct (map MC_Milestone (PD_claims (AS_db st))) \<longrightarrow> distinct (map MC_Milestone (PD_claims (AS_db st1)))"
    "PD_jobs (AS_db st1) = PD_jobs (AS_db st)" "PD_results (AS_db st1) = PD_results (AS_db st)"
    "PD_mappings (AS_db st1) = PD_mappings (AS_db st)" "PD_versions (AS_db st1) = PD_versions (AS_db st)"
    by (rule adjudicate_one_tables)
  let ?new = "map (new_claim dr (Sub_ID s) digest) (VD_claims v)"
  note c = conjunct2
  note ih = adjudicated_Cons.IH
  have grow: "set (PD_claims (AS_db st1)) \<subseteq> set (PD_claims (AS_db st'))" using ih by simp
  note later = ih [THEN c, THEN c, THEN c, THEN c, THEN c, THEN c, THEN conjunct1]
  have old: "\<exists>(s, v)\<in>set ss. MC_Submission c = Sub_ID s \<and> MC_Milestone c \<in> set (VD_claims v)"
    if "c \<in> set (PD_claims (AS_db st')) - set (PD_claims (AS_db st1))" for c using ih that by blast
  have here: "MC_Submission c = Sub_ID s \<and> MC_Milestone c \<in> set (VD_claims v)" if "c \<in> set ?new" for c
    using that by (auto simp: new_claim_def)
  have mine: "set (VD_claims v) = MC_Milestone ` set ?new" by (auto simp: new_claim_def image_image)
  show ?case
  proof (intro conjI)
    show "\<forall>(s, v)\<in>set ((s, v) # ss). set (VD_claims v) \<subseteq> MC_Milestone ` set (PD_claims (AS_db st'))"
    proof -
      have "set (VD_claims v) \<subseteq> MC_Milestone ` set (PD_claims (AS_db st1))" unfolding mine step(1) by auto
      then have "set (VD_claims v) \<subseteq> MC_Milestone ` set (PD_claims (AS_db st'))" using image_mono [OF grow] by (rule subset_trans)
      then show ?thesis using later by simp
    qed
    show "\<forall>c\<in>set (PD_claims (AS_db st')) - set (PD_claims (AS_db st)).
      \<exists>(s, v)\<in>set ((s, v) # ss). MC_Submission c = Sub_ID s \<and> MC_Milestone c \<in> set (VD_claims v)"
    proof
      fix c assume c: "c \<in> set (PD_claims (AS_db st')) - set (PD_claims (AS_db st))"
      show "\<exists>(s, v)\<in>set ((s, v) # ss). MC_Submission c = Sub_ID s \<and> MC_Milestone c \<in> set (VD_claims v)"
      proof (cases "c \<in> set (PD_claims (AS_db st1))")
        case True
        then have "c \<in> set ?new" using c step(1) by auto
        from here [OF this] show ?thesis by auto
      next
        case False
        then show ?thesis using old [of c] c by auto
      qed
    qed
    show "set (PD_claims (AS_db st)) \<subseteq> set (PD_claims (AS_db st'))" using grow step(1) by auto
  qed (use ih step in simp_all)
qed

section \<open>Verdicts\<close>

lemma claim_milestones_filter:
  assumes "claim_milestones sv m runs score rows = Inr claims"
  shows "claims = map MM_Milestone (filter (\<lambda>row. milestone_eligible sv m runs (MM_Milestone row) = Inr True \<and>
    crosses score (MM_Threshold row) (Metric_Direction (Manifest_Metric m))) rows)"
proof -
  let ?f = "\<lambda>claims row. res_bind (milestone_eligible sv m runs (MM_Milestone row)) (\<lambda>eligible.
       Inr (if eligible \<and> crosses score (MM_Threshold row) (Metric_Direction (Manifest_Metric m))
            then claims @ [MM_Milestone row] else claims))"
  have "res_fold ?f acc rows = Inr cs \<Longrightarrow> cs = acc @ map MM_Milestone (filter (\<lambda>row. milestone_eligible sv m runs (MM_Milestone row) = Inr True \<and>
    crosses score (MM_Threshold row) (Metric_Direction (Manifest_Metric m))) rows)" for acc cs
  proof (induction rows arbitrary: acc)
    case (Cons row rows)
    from Cons.prems obtain e where e: "milestone_eligible sv m runs (MM_Milestone row) = Inr e"
      "res_fold ?f (if e \<and> crosses score (MM_Threshold row) (Metric_Direction (Manifest_Metric m)) then acc @ [MM_Milestone row] else acc) rows = Inr cs"
      by (auto simp: res_simps)
    from Cons.IH [OF e(2)] e(1) show ?case by auto
  qed simp
  from this [of "[]"] assms show ?thesis by (simp add: claim_milestones_def)
qed

definition runs_for :: "Manifest \<Rightarrow> string \<Rightarrow> platform_db \<Rightarrow> RunReceipt list" where
  "runs_for m sid db = (if Manifest_Evaluation m = None then [] else measurement_runs sid db)"

lemma judge_cases:
  assumes "judge sv version m st s = Inr v"
  shows "VD_claims v = [] \<and> \<not> VD_record v \<and> \<not> VD_advance v \<and> (Sub_Outcome s \<noteq> ''valid'' \<or> Sub_Score s = None) \<or>
    (\<exists>score. Sub_Outcome s = ''valid'' \<and> Sub_Score s = Some score \<and>
      VD_claims v = map MM_Milestone (filter (\<lambda>row. milestone_eligible sv m (runs_for m (Sub_ID s) (AS_db st)) (MM_Milestone row) = Inr True \<and>
        crosses score (MM_Threshold row) (Metric_Direction (Manifest_Metric m))) (unclaimed version (AS_db st))) \<and>
      VD_record v = better score (AS_best st) (Metric_Direction (Manifest_Metric m)) \<and>
      VD_advance v = (VD_publish v \<and> meaningful score (AS_frontier st) (Manifest_Metric m)))"
proof (cases "Sub_Outcome s = ''valid'' \<and> Sub_Score s \<noteq> None")
  case False
  then have "(if Sub_Outcome s = ''valid'' then Sub_Score s else None) = None" by auto
  then show ?thesis using assms False by (auto simp: judge_def)
next
  case True
  then obtain score where sc: "Sub_Outcome s = ''valid''" "Sub_Score s = Some score" by auto
  from assms obtain claims where c: "claim_milestones sv m (runs_for m (Sub_ID s) (AS_db st)) score (unclaimed version (AS_db st)) = Inr claims"
    and v: "v = \<lparr>VD_claims = claims, VD_record = better score (AS_best st) (Metric_Direction (Manifest_Metric m)),
      VD_advance = (Sub_PublishRequested s \<or> claims \<noteq> []) \<and> meaningful score (AS_frontier st) (Manifest_Metric m),
      VD_publish = Sub_PublishRequested s \<or> claims \<noteq> []\<rparr>"
    by (auto simp: judge_def Let_def sc res_simps runs_for_def)
  show ?thesis using sc claim_milestones_filter [OF c] by (simp add: v)
qed

lemma judge_claimed:
  assumes "judge sv version m st s = Inr v" "mid \<in> set (VD_claims v)"
  shows "\<exists>score row. Sub_Outcome s = ''valid'' \<and> Sub_Score s = Some score \<and> row \<in> set (unclaimed version (AS_db st)) \<and>
    mid = MM_Milestone row \<and> crosses score (MM_Threshold row) (Metric_Direction (Manifest_Metric m)) \<and>
    milestone_eligible sv m (runs_for m (Sub_ID s) (AS_db st)) (MM_Milestone row) = Inr True"
  using judge_cases [OF assms(1)] assms(2) by auto

lemma runs_for_tables:
  "PD_jobs db' = PD_jobs db \<Longrightarrow> PD_results db' = PD_results db \<Longrightarrow> runs_for m sid db' = runs_for m sid db"
  by (simp add: runs_for_def measurement_runs_def results_for_def)

section \<open>What a run achieves\<close>

lemma better_trans: "better a b d \<Longrightarrow> better b c d \<Longrightarrow> better a c d"
  by (auto simp: better_def split: option.splits if_splits)

lemma better_irrefl [simp]: "\<not> better a a d"
  by (simp add: better_def split: option.splits)

lemma not_better_trans: "\<not> better t b d \<Longrightarrow> b' = b \<or> better b' b d \<Longrightarrow> \<not> better t b' d"
  by (auto simp: better_def split: option.splits if_splits)

lemma judge_record:
  assumes "judge sv version m st s = Inr v" "VD_record v"
  shows "\<exists>t. Sub_Outcome s = ''valid'' \<and> Sub_Score s = Some t \<and> better t (AS_best st) (Metric_Direction (Manifest_Metric m))"
  using judge_cases [OF assms(1)] assms(2) by auto

lemma adjudicated_best:
  assumes "adjudicated sv dr now version m st ss st'"
  shows "(AS_best st' = AS_best st \<and> AS_bestID st' = AS_bestID st \<or>
      (\<exists>s\<in>fst ` set ss. AS_bestID st' = Some (Sub_ID s) \<and> Sub_Outcome s = ''valid'' \<and> Sub_Score s = Some (AS_best st') \<and>
        better (AS_best st') (AS_best st) (Metric_Direction (Manifest_Metric m)))) \<and>
    (\<forall>s\<in>fst ` set ss. \<forall>t. Sub_Outcome s = ''valid'' \<and> Sub_Score s = Some t \<longrightarrow>
      \<not> better t (AS_best st') (Metric_Direction (Manifest_Metric m)))"
  using assms
proof (induction rule: adjudicated.induct)
  case (adjudicated_Nil st)
  then show ?case by simp
next
  case (adjudicated_Cons st s doc v accepted st1 ss st')
  let ?d = "Metric_Direction (Manifest_Metric m)"
  from adjudicated_Cons.hyps(4) obtain v' where v': "judge sv version m st s = Inr v'"
    and b: "AS_best st1 = (if VD_record v' then (case Sub_Score s of None \<Rightarrow> [] | Some t \<Rightarrow> t) else AS_best st)"
      "AS_bestID st1 = (if VD_record v' then Some (Sub_ID s) else AS_bestID st)" by (rule adjudicate_one_finalize)
  have step: "AS_best st1 = AS_best st \<and> AS_bestID st1 = AS_bestID st \<or> AS_bestID st1 = Some (Sub_ID s) \<and>
      Sub_Outcome s = ''valid'' \<and> Sub_Score s = Some (AS_best st1) \<and> better (AS_best st1) (AS_best st) ?d"
    using judge_record [OF v'] b by auto
  have now: "\<not> better t (AS_best st1) ?d" if "Sub_Outcome s = ''valid''" "Sub_Score s = Some t" for t
    using judge_cases [OF v'] b that by auto
  note ih = adjudicated_Cons.IH
  have up: "AS_best st' = AS_best st1 \<or> better (AS_best st') (AS_best st1) ?d" using ih by blast
  have "\<not> better t (AS_best st') ?d" if "Sub_Outcome s = ''valid''" "Sub_Score s = Some t" for t
    using not_better_trans [OF now [OF that] up] .
  moreover have "AS_best st' = AS_best st \<and> AS_bestID st' = AS_bestID st \<or>
      (\<exists>s\<in>fst ` set ((s, v) # ss). AS_bestID st' = Some (Sub_ID s) \<and> Sub_Outcome s = ''valid'' \<and> Sub_Score s = Some (AS_best st') \<and>
        better (AS_best st') (AS_best st) ?d)"
  proof (rule disjE [OF ih [THEN conjunct1]])
    assume "AS_best st' = AS_best st1 \<and> AS_bestID st' = AS_bestID st1"
    then show ?thesis using step by auto
  next
    assume "\<exists>s\<in>fst ` set ss. AS_bestID st' = Some (Sub_ID s) \<and> Sub_Outcome s = ''valid'' \<and> Sub_Score s = Some (AS_best st') \<and>
        better (AS_best st') (AS_best st1) ?d"
    moreover have "better (AS_best st') (AS_best st) ?d" if "better (AS_best st') (AS_best st1) ?d"
      using step that better_trans [OF that] by auto
    ultimately show ?thesis by auto
  qed
  ultimately show ?case using ih [THEN conjunct2] by simp
qed

lemma adjudicated_pending:
  assumes "adjudicated sv dr now version m st ss st'"
  shows "length ss + pending (AS_db st') \<le> pending (AS_db st)"
  using assms
proof (induction rule: adjudicated.induct)
  case (adjudicated_Cons st s doc v accepted st1 ss st')
  from adjudicate_one_pending [OF adjudicated_Cons.hyps(4,1,2)] adjudicated_Cons.IH show ?case by simp
qed simp

lemma adjudicate_run:
  assumes "adjudicate sv dr now version db = Inr db'"
  obtains cv m best frontier ss st where "find (\<lambda>v. CV_ID v = version) (PD_versions db) = Some cv" "CV_Manifest cv = Inr m"
    "score_of db (CV_Best cv) (Metric_BaselineTicks (Manifest_Metric m)) = Inr best"
    "score_of db (CV_Frontier cv) (Metric_BaselineTicks (Manifest_Metric m)) = Inr frontier"
    "adjudicated sv dr now version m \<lparr>AS_db = db, AS_watermark = CV_Watermark cv, AS_best = best,
         AS_bestID = CV_Best cv, AS_frontier = frontier, AS_frontierID = CV_Frontier cv\<rparr> ss st"
    "blocked version st" "AS_watermark st \<le> CV_NextSequence cv"
    "db' = (AS_db st)\<lparr>PD_versions := update_where (\<lambda>v. CV_ID v = version)
       (\<lambda>v. v\<lparr>CV_Watermark := AS_watermark st, CV_Best := AS_bestID st, CV_Frontier := AS_frontierID st\<rparr>) (PD_versions db)\<rparr>"
proof -
  from assms obtain cv m best frontier st where
    a: "find (\<lambda>v. CV_ID v = version) (PD_versions db) = Some cv" "CV_Manifest cv = Inr m"
    "score_of db (CV_Best cv) (Metric_BaselineTicks (Manifest_Metric m)) = Inr best"
    "score_of db (CV_Frontier cv) (Metric_BaselineTicks (Manifest_Metric m)) = Inr frontier" and
    l: "adjudicate_loop sv dr now version m \<lparr>AS_db = db, AS_watermark = CV_Watermark cv, AS_best = best,
         AS_bestID = CV_Best cv, AS_frontier = frontier, AS_frontierID = CV_Frontier cv\<rparr> = Inr st" and
    w: "AS_watermark st \<le> CV_NextSequence cv" and
    d: "db' = (AS_db st)\<lparr>PD_versions := update_where (\<lambda>v. CV_ID v = version)
       (\<lambda>v. v\<lparr>CV_Watermark := AS_watermark st, CV_Best := AS_bestID st, CV_Frontier := AS_frontierID st\<rparr>) (PD_versions (AS_db st))\<rparr>"
    unfolding adjudicate_def res_bind_Inr_iff select_row_Inr if_Inr not_less by blast
  from loop_adjudicated [OF l] obtain ss where ss: "adjudicated sv dr now version m \<lparr>AS_db = db, AS_watermark = CV_Watermark cv,
      AS_best = best, AS_bestID = CV_Best cv, AS_frontier = frontier, AS_frontierID = CV_Frontier cv\<rparr> ss st" "blocked version st"
    by blast
  have "PD_versions (AS_db st) = PD_versions db" using adjudicated_tables [OF ss(1)] by simp
  with d have "db' = (AS_db st)\<lparr>PD_versions := update_where (\<lambda>v. CV_ID v = version)
       (\<lambda>v. v\<lparr>CV_Watermark := AS_watermark st, CV_Best := AS_bestID st, CV_Frontier := AS_frontierID st\<rparr>) (PD_versions db)\<rparr>" by simp
  from that [OF a ss w this] show ?thesis .
qed

section \<open>Properties\<close>

definition version_state :: "string \<Rightarrow> platform_db \<Rightarrow> challenge_version \<Rightarrow> Manifest \<Rightarrow> bool" where
  "version_state version db cv m \<longleftrightarrow> find (\<lambda>v. CV_ID v = version) (PD_versions db) = Some cv \<and> CV_Manifest cv = Inr m \<and>
     0 \<le> CV_Watermark cv \<and> CV_Watermark cv < 2 ^ 63 \<and> submissions_ok (PD_submissions db)"

lemma trace_position:
  assumes "map (\<lambda>p. Sub_Sequence (fst p)) ss = [l .. u]" "l \<le> n" "n \<le> u"
  shows "\<exists>p\<in>set ss. Sub_Sequence (fst p) = n"
proof -
  have "n \<in> set [l .. u]" using assms(2,3) by simp
  then have "n \<in> (\<lambda>p. Sub_Sequence (fst p)) ` set ss" unfolding assms(1) [symmetric] by simp
  then show ?thesis by auto
qed

text \<open>Once a milestone is still open after a run, no submission of the run could have claimed it.\<close>

lemma open_milestone_unearned:
  assumes t: "adjudicated sv dr now version m st a sta" and r: "row \<in> set (unclaimed version (AS_db sta))"
    and s': "s' \<in> fst ` set a" "Sub_Outcome s' = ''valid''" "Sub_Score s' = Some score'"
      "crosses score' (MM_Threshold row) (Metric_Direction (Manifest_Metric m))"
  shows "milestone_eligible sv m (runs_for m (Sub_ID s') (AS_db st)) (MM_Milestone row) \<noteq> Inr True"
proof
  assume e: "milestone_eligible sv m (runs_for m (Sub_ID s') (AS_db st)) (MM_Milestone row) = Inr True"
  from s'(1) obtain v' where "(s', v') \<in> set a" by auto
  with t obtain a1 b1 st1 where st1: "a = a1 @ (s', v') # b1" "adjudicated sv dr now version m st a1 st1"
    "judge sv version m st1 s' = Inr v'" "adjudicated sv dr now version m st1 ((s', v') # b1) sta" by (rule adjudicated_split)
  note t1 = adjudicated_tables [OF st1(2)] and t2 = adjudicated_tables [OF st1(4)]
  have r1: "row \<in> set (unclaimed version (AS_db st1))"
    using r t2 by (auto simp: unclaimed_def list_ex_iff)
  have "runs_for m (Sub_ID s') (AS_db st1) = runs_for m (Sub_ID s') (AS_db st)" using t1 by (intro runs_for_tables) simp_all
  with judge_cases [OF st1(3)] s' e r1 have "MM_Milestone row \<in> set (VD_claims v')" by auto
  then have "MM_Milestone row \<in> MC_Milestone ` set (PD_claims (AS_db sta))" using t2 by auto
  then show False using r by (auto simp: unclaimed_def list_ex_iff)
qed

lemma unclaimed_earlier:
  assumes "adjudicated sv dr now version m st a sta" "row \<in> set (unclaimed version (AS_db sta))"
  shows "row \<in> set (unclaimed version (AS_db st))"
  using assms(2) adjudicated_tables [OF assms(1)] by (auto simp: unclaimed_def list_ex_iff)

text \<open>The next submission of a run carries the number after the watermark.\<close>

lemma trace_next:
  assumes "adjudicated sv dr now version m st (a @ (s, v) # b) st'" "adjudicated sv dr now version m st a sta"
    and ok: "submissions_ok (PD_submissions (AS_db st))" "0 \<le> AS_watermark st" "AS_watermark st < 2 ^ 63"
  shows "Sub_Sequence s = AS_watermark sta + 1"
proof -
  note rows = adjudicated_rows [OF assms(1) ok] and ra = adjudicated_rows [OF assms(2) ok]
  have "map (\<lambda>p. Sub_Sequence (fst p)) (a @ (s, v) # b) ! length a = Sub_Sequence s" by (simp add: nth_append)
  then have "[AS_watermark st + 1 .. AS_watermark st'] ! length a = Sub_Sequence s" using rows by simp
  moreover have "[AS_watermark st + 1 .. AS_watermark st'] ! length a = AS_watermark st + 1 + int (length a)"
    using rows by (intro nth_upto) (simp add: len_def)
  ultimately show ?thesis using ra by (simp add: len_def)
qed

lemma find_update_where:
  assumes "find P rows = Some r" "\<And>x. P x \<Longrightarrow> P (f x)"
  shows "find P (update_where P f rows) = Some (f r)"
  using assms(1) by (induction rows) (auto simp: update_where_def assms(2) split: if_splits)

lemma find_map_same:
  assumes "\<And>x. P (f x) = P x"
  shows "find P (map f xs) = map_option f (find P xs)"
  using assms by (induction xs) auto

lemma score_of_same:
  assumes "PD_submissions db' = map f (PD_submissions db)" "\<And>s. Sub_ID (f s) = Sub_ID s \<and> Sub_Score (f s) = Sub_Score s"
  shows "score_of db' row b = score_of db row b"
proof -
  have "find (\<lambda>s. Sub_ID s = sid) (map f (PD_submissions db)) = map_option f (find (\<lambda>s. Sub_ID s = sid) (PD_submissions db))" for sid
    by (rule find_map_same) (simp add: assms(2))
  then show ?thesis
    by (cases row; cases "find (\<lambda>s. Sub_ID s = the row) (PD_submissions db)") (simp_all add: score_of_def select_row_def assms)
qed

lemma score_of_row:
  assumes "submissions_ok (PD_submissions db)" "s \<in> set (PD_submissions db)" "Sub_Score s = Some t"
  shows "score_of db (Some (Sub_ID s)) b = Inr t"
proof -
  have "find (\<lambda>x. Sub_ID x = Sub_ID s) (PD_submissions db) = Some s"
  proof (cases "find (\<lambda>x. Sub_ID x = Sub_ID s) (PD_submissions db)")
    case None
    then show ?thesis using assms(2) by (auto simp: find_None_iff)
  next
    case (Some x)
    then show ?thesis using find_set [OF Some] submissions_okD(1) [OF assms(1), of x s] assms(2) by auto
  qed
  then show ?thesis using assms(3) by (simp add: score_of_def select_row_def)
qed

abbreviation (input) started :: "challenge_version \<Rightarrow> string \<Rightarrow> string \<Rightarrow> platform_db \<Rightarrow> adj_state" where
  "started cv best frontier db \<equiv> \<lparr>AS_db = db, AS_watermark = CV_Watermark cv, AS_best = best,
     AS_bestID = CV_Best cv, AS_frontier = frontier, AS_frontierID = CV_Frontier cv\<rparr>"

lemma adjudicate_trace:
  assumes "adjudicate sv dr now version db = Inr db'" "version_state version db cv m"
  obtains best frontier ss st g where
    "score_of db (CV_Best cv) (Metric_BaselineTicks (Manifest_Metric m)) = Inr best"
    "adjudicated sv dr now version m (started cv best frontier db) ss st"
    "blocked version st" "AS_watermark st \<le> CV_NextSequence cv" "AS_watermark st = CV_Watermark cv + len ss" "AS_watermark st < 2 ^ 63"
    "find (\<lambda>v. CV_ID v = version) (PD_versions db') =
      Some (cv\<lparr>CV_Watermark := AS_watermark st, CV_Best := AS_bestID st, CV_Frontier := AS_frontierID st\<rparr>)"
    "PD_claims db' = PD_claims (AS_db st)" "PD_submissions db' = PD_submissions (AS_db st)" "PD_receipts db' = PD_receipts (AS_db st)"
    "PD_submissions (AS_db st) = map g (PD_submissions db)"
    "\<forall>s. g s = s \<and> Sub_ID s \<notin> Sub_ID ` fst ` set ss \<or>
        Sub_ID s \<in> Sub_ID ` fst ` set ss \<and> (\<exists>p digest. g s = finalize_row p digest s)"
    "\<forall>s\<in>fst ` set ss. s \<in> set (PD_submissions db) \<and> Sub_Version s = version \<and> Sub_Status s = ''validated''"
    "map (\<lambda>p. Sub_Sequence (fst p)) ss = [CV_Watermark cv + 1 .. AS_watermark st]"
    "submissions_ok (PD_submissions (AS_db st))"
    "db' = (AS_db st)\<lparr>PD_versions := update_where (\<lambda>v. CV_ID v = version)
       (\<lambda>v. v\<lparr>CV_Watermark := AS_watermark st, CV_Best := AS_bestID st, CV_Frontier := AS_frontierID st\<rparr>) (PD_versions db)\<rparr>"
proof -
  from assms(1) obtain cv0 m0 best frontier ss st where
    f: "find (\<lambda>v. CV_ID v = version) (PD_versions db) = Some cv0" "CV_Manifest cv0 = Inr m0" and
    b: "score_of db (CV_Best cv0) (Metric_BaselineTicks (Manifest_Metric m0)) = Inr best" and
    t: "adjudicated sv dr now version m0 (started cv0 best frontier db) ss st" and
    e: "blocked version st" "AS_watermark st \<le> CV_NextSequence cv0" and
    d: "db' = (AS_db st)\<lparr>PD_versions := update_where (\<lambda>v. CV_ID v = version)
       (\<lambda>v. v\<lparr>CV_Watermark := AS_watermark st, CV_Best := AS_bestID st, CV_Frontier := AS_frontierID st\<rparr>) (PD_versions db)\<rparr>"
    by (rule adjudicate_run)
  have cv: "cv0 = cv" "m0 = m" using f assms(2) by (auto simp: version_state_def)
  have ok: "submissions_ok (PD_submissions (AS_db (started cv best frontier db)))" "0 \<le> AS_watermark (started cv best frontier db)"
    "AS_watermark (started cv best frontier db) < 2 ^ 63"
    using assms(2) by (auto simp: version_state_def)
  note r = adjudicated_rows [OF t [unfolded cv] ok, simplified adj_state.select_convs]
  note c = conjunct2
  from r [THEN c, THEN c, THEN c, THEN c, THEN c] obtain g where g: "PD_submissions (AS_db st) = map g (PD_submissions db)"
    "\<forall>s. g s = s \<and> Sub_ID s \<notin> Sub_ID ` fst ` set ss \<or>
        Sub_ID s \<in> Sub_ID ` fst ` set ss \<and> (\<exists>p digest. g s = finalize_row p digest s)" by blast
  have fc: "find (\<lambda>v. CV_ID v = version) (PD_versions db') =
      Some (cv\<lparr>CV_Watermark := AS_watermark st, CV_Best := AS_bestID st, CV_Frontier := AS_frontierID st\<rparr>)"
    using find_update_where [OF f(1) [unfolded cv], of "\<lambda>v. v\<lparr>CV_Watermark := AS_watermark st, CV_Best := AS_bestID st, CV_Frontier := AS_frontierID st\<rparr>"]
    by (simp add: d)
  show ?thesis
    by (rule that [OF b [unfolded cv] t [unfolded cv] e(1) e(2) [unfolded cv] r [THEN conjunct1] r [THEN c, THEN conjunct1] fc _ _ _ g
      r [THEN c, THEN c, THEN conjunct1] r [THEN c, THEN c, THEN c, THEN conjunct1] r [THEN c, THEN c, THEN c, THEN c, THEN conjunct1] d])
      (simp_all add: d)
qed

text \<open>A submission earns a milestone when its valid score reaches the mapped threshold and its runs confirm what the milestone requires of the measurements.\<close>

definition earns :: "'k service \<Rightarrow> Manifest \<Rightarrow> platform_db \<Rightarrow> submission \<Rightarrow> milestone_mapping \<Rightarrow> bool" where
  "earns sv m db s row \<longleftrightarrow> Sub_Outcome s = ''valid'' \<and>
     (\<exists>score. Sub_Score s = Some score \<and> crosses score (MM_Threshold row) (Metric_Direction (Manifest_Metric m))) \<and>
     milestone_eligible sv m (runs_for m (Sub_ID s) db) (MM_Milestone row) = Inr True"

lemma open_milestone_not_earned:
  assumes "adjudicated sv dr now version m st a sta" "row \<in> set (unclaimed version (AS_db sta))" "s' \<in> fst ` set a"
  shows "\<not> earns sv m (AS_db st) s' row"
  using open_milestone_unearned [OF assms] by (auto simp: earns_def)

text \<open>The submissions of a run between the old watermark and a later one.\<close>

lemma trace_between:
  assumes "adjudicated sv dr now version m st a sta" "submissions_ok (PD_submissions (AS_db st))" "0 \<le> AS_watermark st" "AS_watermark st < 2 ^ 63"
    and "s' \<in> set (PD_submissions (AS_db st))" "Sub_Version s' = version" "AS_watermark st < Sub_Sequence s'" "Sub_Sequence s' \<le> AS_watermark sta"
  shows "s' \<in> fst ` set a"
proof -
  note ra = adjudicated_rows [OF assms(1-4)]
  have "\<exists>p\<in>set a. Sub_Sequence (fst p) = Sub_Sequence s'"
    using ra assms(7,8) by (intro trace_position [of a "AS_watermark st + 1" "AS_watermark sta"]) simp_all
  then obtain x where x: "x \<in> fst ` set a" "Sub_Sequence x = Sub_Sequence s'" by auto
  then have "x = s'" using ra assms(2,5,6) submissions_okD(2) [of "PD_submissions (AS_db st)" x s'] by auto
  with x(1) show ?thesis by simp
qed

lemma claim_earned:
  assumes t: "adjudicated sv dr now version m st ss st'" and ok: "submissions_ok (PD_submissions (AS_db st))" "0 \<le> AS_watermark st" "AS_watermark st < 2 ^ 63"
    and c: "c \<in> set (PD_claims (AS_db st')) - set (PD_claims (AS_db st))"
  shows "\<exists>s\<in>fst ` set ss. \<exists>row\<in>set (unclaimed version (AS_db st)). MC_Submission c = Sub_ID s \<and> MC_Milestone c = MM_Milestone row \<and> earns sv m (AS_db st) s row \<and>
    (\<forall>s'\<in>set (PD_submissions (AS_db st)). Sub_Version s' = version \<and> AS_watermark st < Sub_Sequence s' \<and> Sub_Sequence s' < Sub_Sequence s \<longrightarrow>
      \<not> earns sv m (AS_db st) s' row)"
proof -
  from adjudicated_tables [OF t] c have "\<exists>(s, v)\<in>set ss. MC_Submission c = Sub_ID s \<and> MC_Milestone c \<in> set (VD_claims v)" by simp
  then obtain s v where sv: "(s, v) \<in> set ss" "MC_Submission c = Sub_ID s" "MC_Milestone c \<in> set (VD_claims v)" by auto
  from t sv(1) obtain a b sta where sta: "ss = a @ (s, v) # b" "adjudicated sv dr now version m st a sta" "judge sv version m sta s = Inr v"
    by (rule adjudicated_split)
  from judge_claimed [OF sta(3) sv(3)] obtain row where row: "row \<in> set (unclaimed version (AS_db sta))" "MC_Milestone c = MM_Milestone row" and
    e: "earns sv m (AS_db sta) s row" by (auto simp: earns_def)
  have "runs_for m (Sub_ID s) (AS_db sta) = runs_for m (Sub_ID s) (AS_db st)" using adjudicated_tables [OF sta(2)] by (intro runs_for_tables) simp_all
  with e have "earns sv m (AS_db st) s row" by (simp add: earns_def)
  moreover have "\<not> earns sv m (AS_db st) s' row"
    if "s' \<in> set (PD_submissions (AS_db st))" "Sub_Version s' = version" "AS_watermark st < Sub_Sequence s'" "Sub_Sequence s' < Sub_Sequence s" for s'
  proof (rule open_milestone_not_earned [OF sta(2) row(1)], rule trace_between [OF sta(2) ok that(1-3)])
    show "Sub_Sequence s' \<le> AS_watermark sta" using that(4) trace_next [OF t [unfolded sta(1)] sta(2) ok] by simp
  qed
  moreover have "s \<in> fst ` set ss" using sv(1) by force
  ultimately show ?thesis using unclaimed_earlier [OF sta(2) row(1)] row(2) sv(2) by blast
qed

text \<open>C21: Milestones go to the first submission of a run that earns them.  Every claim a run of the adjudicator adds is for a milestone of the version that had
  no claim; it belongs to a validated submission beyond the old watermark that earns the milestone, and no submission between the old watermark and that one
  earns it.  A milestone that is still unclaimed after the run was earned by none of the submissions the run finalised.  No milestone is ever claimed twice.\<close>

theorem adjudicate_first_come:
  assumes "adjudicate sv dr now version db = Inr db'" "version_state version db cv m"
    and "distinct (map MC_Milestone (PD_claims db))"
  shows "distinct (map MC_Milestone (PD_claims db')) \<and>
    (\<forall>c\<in>set (PD_claims db') - set (PD_claims db). \<exists>s\<in>set (PD_submissions db). \<exists>row\<in>set (unclaimed version db).
      MC_Submission c = Sub_ID s \<and> MC_Milestone c = MM_Milestone row \<and> Sub_Version s = version \<and> Sub_Status s = ''validated'' \<and>
      CV_Watermark cv < Sub_Sequence s \<and> earns sv m db s row \<and>
      (\<forall>s'\<in>set (PD_submissions db). Sub_Version s' = version \<and> CV_Watermark cv < Sub_Sequence s' \<and> Sub_Sequence s' < Sub_Sequence s \<longrightarrow>
        \<not> earns sv m db s' row)) \<and>
    (\<exists>cv'. find (\<lambda>v. CV_ID v = version) (PD_versions db') = Some cv' \<and>
      (\<forall>row\<in>set (unclaimed version db'). \<forall>s\<in>set (PD_submissions db). Sub_Version s = version \<and> CV_Watermark cv < Sub_Sequence s \<and>
        Sub_Sequence s \<le> CV_Watermark cv' \<longrightarrow> \<not> earns sv m db s row))"
proof -
  from assms(1,2) obtain best frontier ss st where
    t: "adjudicated sv dr now version m (started cv best frontier db) ss st" and d: "PD_claims db' = PD_claims (AS_db st)" and
    fc: "find (\<lambda>v. CV_ID v = version) (PD_versions db') =
      Some (cv\<lparr>CV_Watermark := AS_watermark st, CV_Best := AS_bestID st, CV_Frontier := AS_frontierID st\<rparr>)" and
    rows: "\<forall>s\<in>fst ` set ss. s \<in> set (PD_submissions db) \<and> Sub_Version s = version \<and> Sub_Status s = ''validated''"
      "map (\<lambda>p. Sub_Sequence (fst p)) ss = [CV_Watermark cv + 1 .. AS_watermark st]" and
    db': "db' = (AS_db st)\<lparr>PD_versions := update_where (\<lambda>v. CV_ID v = version)
       (\<lambda>v. v\<lparr>CV_Watermark := AS_watermark st, CV_Best := AS_bestID st, CV_Frontier := AS_frontierID st\<rparr>) (PD_versions db)\<rparr>" by (rule adjudicate_trace)
  have ok: "submissions_ok (PD_submissions (AS_db (started cv best frontier db)))" "0 \<le> AS_watermark (started cv best frontier db)"
    "AS_watermark (started cv best frontier db) < 2 ^ 63"
    using assms(2) by (auto simp: version_state_def)
  have seq: "CV_Watermark cv < Sub_Sequence s" if "s \<in> fst ` set ss" for s
  proof -
    from that have "Sub_Sequence s \<in> set (map (\<lambda>p. Sub_Sequence (fst p)) ss)" by force
    then show ?thesis unfolding rows(2) by simp
  qed
  have open_rows: "unclaimed version db' = unclaimed version (AS_db st)" by (simp add: unclaimed_def db')
  have left: "\<not> earns sv m db s row" if "row \<in> set (unclaimed version db')" "s \<in> set (PD_submissions db)" "Sub_Version s = version" "CV_Watermark cv < Sub_Sequence s"
    "Sub_Sequence s \<le> AS_watermark st" for row s
    using open_milestone_not_earned [OF t, of row s] trace_between [OF t ok, of s] that open_rows by simp
  show ?thesis
  proof (intro conjI ballI)
    show "distinct (map MC_Milestone (PD_claims db'))" using adjudicated_tables [OF t] assms(3) d by simp
    fix c assume "c \<in> set (PD_claims db') - set (PD_claims db)"
    then show "\<exists>s\<in>set (PD_submissions db). \<exists>row\<in>set (unclaimed version db).
      MC_Submission c = Sub_ID s \<and> MC_Milestone c = MM_Milestone row \<and> Sub_Version s = version \<and> Sub_Status s = ''validated'' \<and>
      CV_Watermark cv < Sub_Sequence s \<and> earns sv m db s row \<and>
      (\<forall>s'\<in>set (PD_submissions db). Sub_Version s' = version \<and> CV_Watermark cv < Sub_Sequence s' \<and> Sub_Sequence s' < Sub_Sequence s \<longrightarrow>
        \<not> earns sv m db s' row)"
      using claim_earned [OF t ok, of c, unfolded adj_state.select_convs] rows(1) seq unfolding d by blast
  qed (use fc left in simp)
qed

text \<open>C22: The verified best never gets worse.  After a run the recorded best score is the old one or strictly better, a score that the old one was not worse
  than is no better than the new one, and no valid score finalised in the run is better than it.\<close>

theorem adjudicate_best:
  assumes "adjudicate sv dr now version db = Inr db'" "version_state version db cv m"
  shows "\<exists>cv' best best'. find (\<lambda>v. CV_ID v = version) (PD_versions db') = Some cv' \<and>
    score_of db (CV_Best cv) (Metric_BaselineTicks (Manifest_Metric m)) = Inr best \<and>
    score_of db' (CV_Best cv') (Metric_BaselineTicks (Manifest_Metric m)) = Inr best' \<and>
    (best' = best \<or> better best' best (Metric_Direction (Manifest_Metric m))) \<and>
    (\<forall>t. \<not> better t best (Metric_Direction (Manifest_Metric m)) \<longrightarrow> \<not> better t best' (Metric_Direction (Manifest_Metric m))) \<and>
    (\<forall>s\<in>set (PD_submissions db). \<forall>t. Sub_Version s = version \<and> CV_Watermark cv < Sub_Sequence s \<and> Sub_Sequence s \<le> CV_Watermark cv' \<and>
      Sub_Outcome s = ''valid'' \<and> Sub_Score s = Some t \<longrightarrow> \<not> better t best' (Metric_Direction (Manifest_Metric m)))"
proof -
  let ?b = "Metric_BaselineTicks (Manifest_Metric m)" and ?d = "Metric_Direction (Manifest_Metric m)"
  from assms obtain best frontier ss st g where
    b: "score_of db (CV_Best cv) ?b = Inr best" and t: "adjudicated sv dr now version m (started cv best frontier db) ss st" and
    fc: "find (\<lambda>v. CV_ID v = version) (PD_versions db') =
      Some (cv\<lparr>CV_Watermark := AS_watermark st, CV_Best := AS_bestID st, CV_Frontier := AS_frontierID st\<rparr>)" and
    d: "PD_submissions db' = PD_submissions (AS_db st)" and g: "PD_submissions (AS_db st) = map g (PD_submissions db)"
    "\<forall>s. g s = s \<and> Sub_ID s \<notin> Sub_ID ` fst ` set ss \<or>
        Sub_ID s \<in> Sub_ID ` fst ` set ss \<and> (\<exists>p digest. g s = finalize_row p digest s)" and
    rows: "\<forall>s\<in>fst ` set ss. s \<in> set (PD_submissions db) \<and> Sub_Version s = version \<and> Sub_Status s = ''validated''"
      "map (\<lambda>p. Sub_Sequence (fst p)) ss = [CV_Watermark cv + 1 .. AS_watermark st]" by (rule adjudicate_trace)
  let ?cv = "cv\<lparr>CV_Watermark := AS_watermark st, CV_Best := AS_bestID st, CV_Frontier := AS_frontierID st\<rparr>"
  have ok: "submissions_ok (PD_submissions db)" using assms(2) by (simp add: version_state_def)
  have same: "Sub_ID (g s) = Sub_ID s \<and> Sub_Score (g s) = Sub_Score s" for s
    using g(2) [rule_format, of s] by auto
  have sub: "score_of db' row ?b = score_of db row ?b" for row
    by (rule score_of_same [where f = g]) (simp_all add: d g(1) same)
  note best = adjudicated_best [OF t, simplified adj_state.select_convs]
  have sc: "score_of db' (CV_Best ?cv) ?b = Inr (AS_best st)"
  proof (rule disjE [OF best [THEN conjunct1]])
    assume "AS_best st = best \<and> AS_bestID st = CV_Best cv"
    then show ?thesis unfolding sub using b by simp
  next
    assume "\<exists>s\<in>fst ` set ss. AS_bestID st = Some (Sub_ID s) \<and> Sub_Outcome s = ''valid'' \<and> Sub_Score s = Some (AS_best st) \<and>
      better (AS_best st) best ?d"
    then show ?thesis unfolding sub using rows(1) score_of_row [OF ok] by auto
  qed
  have up: "AS_best st = best \<or> better (AS_best st) best ?d" using best [THEN conjunct1] by auto
  have "\<not> better x (AS_best st) ?d" if s: "s \<in> set (PD_submissions db)" "Sub_Version s = version" "CV_Watermark cv < Sub_Sequence s"
    "Sub_Sequence s \<le> AS_watermark st" "Sub_Outcome s = ''valid''" "Sub_Score s = Some x" for s x
  proof -
    from trace_position [OF rows(2), of "Sub_Sequence s"] s obtain y where y: "y \<in> fst ` set ss" "Sub_Sequence y = Sub_Sequence s" by auto
    then have "y = s" using rows(1) y(1) s(1,2) submissions_okD(2) [OF ok, of y s] by auto
    with best [THEN conjunct2] y(1) s(5,6) show ?thesis by auto
  qed
  with fc sc up not_better_trans [OF _ up] b show ?thesis by (intro exI [of _ ?cv] exI [of _ best] exI [of _ "AS_best st"]) simp
qed

text \<open>C23: The loop of the adjudicator ends and does all it can: a run takes at most one round per validated submission, it
  finalises every submission up to the new watermark, never passes the last accepted number, and stops only at a number whose
  submission is not validated yet.\<close>

theorem adjudicate_progress:
  assumes "adjudicate sv dr now version db = Inr db'" "version_state version db cv m"
  shows "\<exists>cv'. find (\<lambda>v. CV_ID v = version) (PD_versions db') = Some cv' \<and> CV_Watermark cv \<le> CV_Watermark cv' \<and>
    CV_Watermark cv' - CV_Watermark cv \<le> int (pending db) \<and> CV_Watermark cv' \<le> CV_NextSequence cv \<and>
    (\<forall>s\<in>set (PD_submissions db'). Sub_Version s = version \<and> CV_Watermark cv < Sub_Sequence s \<and> Sub_Sequence s \<le> CV_Watermark cv' \<longrightarrow>
      Sub_Status s = ''finalized'') \<and>
    (\<forall>s\<in>set (PD_submissions db'). Sub_Version s = version \<and> Sub_Sequence s = CV_Watermark cv' + 1 \<and>
      (\<exists>r\<in>set (PD_receipts db'). RC_Digest r = Sub_Receipt s) \<longrightarrow> Sub_Status s \<noteq> ''validated'')"
proof -
  from assms obtain best frontier ss st g where
    t: "adjudicated sv dr now version m (started cv best frontier db) ss st" and
    e: "blocked version st" "AS_watermark st \<le> CV_NextSequence cv" "AS_watermark st = CV_Watermark cv + len ss" "AS_watermark st < 2 ^ 63" and
    fc: "find (\<lambda>v. CV_ID v = version) (PD_versions db') =
      Some (cv\<lparr>CV_Watermark := AS_watermark st, CV_Best := AS_bestID st, CV_Frontier := AS_frontierID st\<rparr>)" and
    d: "PD_submissions db' = PD_submissions (AS_db st)" "PD_receipts db' = PD_receipts (AS_db st)" and
    g: "PD_submissions (AS_db st) = map g (PD_submissions db)"
    "\<forall>s. g s = s \<and> Sub_ID s \<notin> Sub_ID ` fst ` set ss \<or>
        Sub_ID s \<in> Sub_ID ` fst ` set ss \<and> (\<exists>p digest. g s = finalize_row p digest s)" and
    rows: "\<forall>s\<in>fst ` set ss. s \<in> set (PD_submissions db) \<and> Sub_Version s = version \<and> Sub_Status s = ''validated''"
      "map (\<lambda>p. Sub_Sequence (fst p)) ss = [CV_Watermark cv + 1 .. AS_watermark st]" and ok': "submissions_ok (PD_submissions (AS_db st))"
    by (rule adjudicate_trace)
  have ok: "submissions_ok (PD_submissions db)" "0 \<le> CV_Watermark cv" using assms(2) by (simp_all add: version_state_def)
  have fin: "Sub_Status s = ''finalized''" if s: "s \<in> set (PD_submissions (AS_db st))" "Sub_Version s = version" "CV_Watermark cv < Sub_Sequence s"
    "Sub_Sequence s \<le> AS_watermark st" for s
  proof -
    from s(1) g(1) obtain x where x: "x \<in> set (PD_submissions db)" "s = g x" by auto
    have gx: "Sub_Version x = version" "Sub_Sequence x = Sub_Sequence s" using g(2) [rule_format, of x] s(2) x(2) by auto
    from trace_position [OF rows(2), of "Sub_Sequence s"] s obtain y where y: "y \<in> fst ` set ss" "Sub_Sequence y = Sub_Sequence s" by auto
    then have "y = x" using rows(1) x(1) gx submissions_okD(2) [OF ok(1), of y x] by auto
    with y(1) g(2) [rule_format, of x] x(2) show ?thesis by auto
  qed
  have stop: "Sub_Status s \<noteq> ''validated''" if s: "s \<in> set (PD_submissions (AS_db st))" "Sub_Version s = version"
    "Sub_Sequence s = AS_watermark st + 1" and r: "\<exists>r\<in>set (PD_receipts (AS_db st)). RC_Digest r = Sub_Receipt s" for s
  proof -
    have i: "int64 (AS_watermark st + 1) = AS_watermark st + 1"
      using submissions_okD(4) [OF ok' s(1) s(1)] s(3) ok(2) e(3) by (intro int64_id) (simp_all add: len_def)
    obtain x where x: "find (\<lambda>s. Sub_Version s = version \<and> Sub_Sequence s = AS_watermark st + 1) (PD_submissions (AS_db st)) = Some x"
      using s by (cases "find (\<lambda>s. Sub_Version s = version \<and> Sub_Sequence s = AS_watermark st + 1) (PD_submissions (AS_db st))")
        (auto simp: find_None_iff)
    then have "x = s" using find_set [OF x] submissions_okD(2) [OF ok', of x s] s by auto
    moreover obtain q where "find (\<lambda>r. RC_Digest r = Sub_Receipt s) (PD_receipts (AS_db st)) = Some q"
      using r by (cases "find (\<lambda>r. RC_Digest r = Sub_Receipt s) (PD_receipts (AS_db st))") (auto simp: find_None_iff)
    ultimately show ?thesis using e(1) x by (simp add: blocked_def next_in_line_def i)
  qed
  have "int (length ss) \<le> int (pending db)" using adjudicated_pending [OF t] by simp
  then show ?thesis using fin stop e(2,3) by (auto simp: fc d len_def)
qed

section \<open>An example\<close>

text \<open>A version with two open milestones and two validated submissions.\<close>

definition demo_submission :: "string \<Rightarrow> int \<Rightarrow> string \<Rightarrow> submission" where
  "demo_submission sid n score = \<lparr>Sub_ID = sid, Sub_Version = ''v'', Sub_Owner = ''u'', Sub_Intent = sid, Sub_Artifact = sid, Sub_Disk = sid,
     Sub_Sequence = n, Sub_Status = ''validated'', Sub_Outcome = ''valid'', Sub_Score = Some score, Sub_Public = False,
     Sub_PublishRequested = False, Sub_Attribution = [], Sub_Receipt = ''r'' @ sid, Sub_Adjudication = None, Sub_Commitment = [],
     Sub_Salt = [], Sub_Grant = sid, Sub_Created = 1\<rparr>"

definition demo_acceptance :: "string \<Rightarrow> receipt_record" where
  "demo_acceptance digest = new_receipt digest (DocReceipt \<lparr>Receipt_VerificationPolicy = ''platform'', Receipt_VerificationStatus = [],
     Receipt_DeploymentMode = ''local'', Receipt_OfficialAcceptance = False, Receipt_APIVersion = APIVersion,
     Receipt_Kind = ''SubmissionAcceptanceReceipt'', Receipt_ID = digest, Receipt_CreatedAt = 1, Receipt_Producer = ''science-ladder'',
     Receipt_SubjectDigest = [], Receipt_EconomicMode = ''none'', Receipt_Data = []\<rparr>) None False"

definition demo_version :: challenge_version where
  "demo_version = \<lparr>CV_ID = ''v'', CV_Challenge = ''ch'', CV_Owner = ''c'', CV_Repository = [], CV_Commit = [], CV_Manifest = Inr (demo_manifest\<lparr>Manifest_Evaluation := None\<rparr>), CV_SourceDigest = [],
     CV_Status = ''published'', CV_Review = ''automated_pass'', CV_Intake = ''open'', CV_Badges = [], CV_LockDigest = None, CV_Deadline = 9, CV_NextSequence = 2, CV_Watermark = 0,
     CV_Best = None, CV_Frontier = None, CV_Predecessor = None, CV_Transition = ''season'', CV_PriorFrontier = None,
     CV_Migration = None, CV_Created = 0\<rparr>"

definition demo_board :: platform_db where
  "demo_board = \<lparr>PD_candidates = [], PD_challenges = [], PD_versions = [demo_version], PD_intents = [], PD_submissions = [demo_submission ''s2'' 2 ''1250'', demo_submission ''s1'' 1 ''1150''],
     PD_jobs = [], PD_results = [], PD_receipts = [demo_acceptance ''rs1'', demo_acceptance ''rs2''], PD_grants = [], PD_maximum = 6,
     PD_reserved = 4, PD_reservations = [(''s1'', False), (''s2'', False)],
     PD_tiers = [], PD_mappings = [\<lparr>MM_Milestone = ''a'', MM_Version = ''v'', MM_Threshold = ''1100''\<rparr>, \<lparr>MM_Milestone = ''b'', MM_Version = ''v'', MM_Threshold = ''1200''\<rparr>],
     PD_claims = [], PD_queue = [], PD_outbox = [], PD_artifacts = [], PD_uploads = [], PD_preflights = [], PD_reviews = [], PD_decisions = [], PD_suites = [], PD_locks = [], PD_hosts = [],
     PD_profiles = [], PD_enrollments = [], PD_tickets = [], PD_budgets = [], PD_audit = demo_log0\<rparr>"

definition demo_draws :: draws where
  "demo_draws = \<lparr>Draw_receipt = (\<lambda>n. ''adjudication'' @ show_int n), Draw_time = (\<lambda>n. n), Draw_claim = (\<lambda>m. ''claim'' @ m)\<rparr>"

lemma demo_adjudicated:
  "case adjudicate demo_service demo_draws 5 ''v'' demo_board of Inl _ \<Rightarrow> False
   | Inr db \<Rightarrow> map (\<lambda>c. (MC_Milestone c, MC_Submission c)) (PD_claims db) = [(''a'', ''s1''), (''b'', ''s2'')] \<and> PD_reserved db = 0"
  by code_simp

lemma demo_version_state: "version_state ''v'' demo_board demo_version (demo_manifest\<lparr>Manifest_Evaluation := None\<rparr>)"
  by code_simp

lemma demo_board_claims: "PD_claims demo_board = []"
  by (simp add: demo_board_def)

lemma demo_run_adjudicated:
  obtains db where "adjudicate demo_service demo_draws 5 ''v'' demo_board = Inr db"
    "map (\<lambda>c. (MC_Milestone c, MC_Submission c)) (PD_claims db) = [(''a'', ''s1''), (''b'', ''s2'')]"
  using demo_adjudicated by (auto split: sum.splits)

theorem adjudicate_first_come_witness:
  "\<exists>db. adjudicate demo_service demo_draws 5 ''v'' demo_board = Inr db \<and> distinct (map MC_Milestone (PD_claims db)) \<and>
    (\<exists>c\<in>set (PD_claims db). \<exists>s\<in>set (PD_submissions demo_board). \<exists>row\<in>set (unclaimed ''v'' demo_board).
      MC_Submission c = Sub_ID s \<and> earns demo_service (demo_manifest\<lparr>Manifest_Evaluation := None\<rparr>) demo_board s row)"
proof (rule demo_run_adjudicated)
  fix db assume run: "adjudicate demo_service demo_draws 5 ''v'' demo_board = Inr db"
    and c: "map (\<lambda>c. (MC_Milestone c, MC_Submission c)) (PD_claims db) = [(''a'', ''s1''), (''b'', ''s2'')]"
  have "distinct (map MC_Milestone (PD_claims demo_board))" by (simp add: demo_board_claims)
  note t = adjudicate_first_come [OF run demo_version_state this]
  from c obtain x where x: "x \<in> set (PD_claims db)" by (cases "PD_claims db") auto
  then have "x \<in> set (PD_claims db) - set (PD_claims demo_board)" by (simp add: demo_board_claims)
  from bspec [OF conjunct1 [OF conjunct2 [OF t]] this] have "\<exists>s\<in>set (PD_submissions demo_board). \<exists>row\<in>set (unclaimed ''v'' demo_board).
      MC_Submission x = Sub_ID s \<and> earns demo_service (demo_manifest\<lparr>Manifest_Evaluation := None\<rparr>) demo_board s row" by blast
  with run conjunct1 [OF t] x show ?thesis by blast
qed

theorem adjudicate_best_witness:
  "\<exists>db cv best. adjudicate demo_service demo_draws 5 ''v'' demo_board = Inr db \<and>
    find (\<lambda>v. CV_ID v = ''v'') (PD_versions db) = Some cv \<and> score_of db (CV_Best cv) ''1000'' = Inr best"
proof (rule demo_run_adjudicated)
  fix db assume run: "adjudicate demo_service demo_draws 5 ''v'' demo_board = Inr db"
  have "Metric_BaselineTicks (Manifest_Metric (demo_manifest\<lparr>Manifest_Evaluation := None\<rparr>)) = ''1000''" by code_simp
  with adjudicate_best [OF run demo_version_state] run show ?thesis by auto
qed

theorem adjudicate_progress_witness:
  "\<exists>db cv. adjudicate demo_service demo_draws 5 ''v'' demo_board = Inr db \<and>
    find (\<lambda>v. CV_ID v = ''v'') (PD_versions db) = Some cv \<and> CV_Watermark cv \<le> 2"
proof (rule demo_run_adjudicated)
  fix db assume run: "adjudicate demo_service demo_draws 5 ''v'' demo_board = Inr db"
  have "CV_NextSequence demo_version = 2" by (simp add: demo_version_def)
  with adjudicate_progress [OF run demo_version_state] run show ?thesis by auto
qed

end
