(* ===== verification/Jobs.thy ===== *)
theory Jobs
  imports Builds Hidden Adjudication
begin

text \<open>
  Runner jobs (\<open>queueSubmission\<close>, \<open>recoverRunnerLeases\<close> and \<open>claimRunnerJob\<close> of \<open>internal/platform/runners.go\<close>,
  \<open>suiteMaterial\<close> and \<open>grantHiddenSuite\<close> of \<open>suites.go\<close>, \<open>queuePreparation\<close>, \<open>runnerObject\<close> and \<open>verifyBuildObjects\<close> of
  \<open>preparation.go\<close>): how a job gets into the queue, who may lease it, and which objects its holder may upload.

  A claim reads the queue in one transaction, signs outside of it and takes the job with a compare-and-set on its fence; the
  two halves are \<open>prepare_claim\<close> and \<open>commit_claim\<close>, and \<open>claimRunnerJob\<close> runs them on two states of the tables, between which
  anything may have happened.  The record \<open>runner_env\<close> holds what is outside the repository: object storage, the signing key
  and the key custody of hidden suites.  Times written to the database keep their full precision in the model.
\<close>

record runner_env =
  RE_store :: bool
  RE_sign :: "string \<Rightarrow> string res"
  RE_job :: "RunnerJob \<Rightarrow> string res"
  RE_report :: "BuildReport \<Rightarrow> json"
  RE_read :: "string \<Rightarrow> string res"
  RE_write :: "string \<Rightarrow> int \<Rightarrow> string res"
  RE_verify :: "string \<Rightarrow> int \<Rightarrow> unit res"
  RE_open :: "(string \<Rightarrow> string \<Rightarrow> string res) option"
  RE_hidden :: hidden_env

section \<open>Queueing\<close>

definition new_job ::
    "RunnerJob \<Rightarrow> string \<Rightarrow> string \<Rightarrow> string option \<Rightarrow> string option \<Rightarrow> string option \<Rightarrow> string option \<Rightarrow> go_time \<Rightarrow> runner_job" where
  "new_job job purpose version sub preflight intent excluded now = \<lparr>RJ_ID = Job_ID job, RJ_Purpose = purpose, RJ_Version = version,
     RJ_Submission = sub, RJ_Preflight = preflight, RJ_Intent = intent, RJ_Payload = job, RJ_Envelope = None, RJ_Status = ''queued'',
     RJ_Host = None, RJ_ExcludedGroup = excluded, RJ_Token = None, RJ_Fence = 1, RJ_Lease = None, RJ_Attempts = 0, RJ_Created = now\<rparr>"

definition insert_job :: "runner_job \<Rightarrow> platform_db \<Rightarrow> platform_db res" where
  "insert_job row db = res_bind (insert_row (\<lambda>j. RJ_ID j = RJ_ID row) row (PD_jobs db)) (\<lambda>jobs. Inr (db\<lparr>PD_jobs := jobs\<rparr>))"

definition ref_of :: "string \<Rightarrow> ObjectRef" where
  "ref_of digest = \<lparr>Ref_Digest = digest, Ref_Size = 0, Ref_URL = []\<rparr>"

definition submission_job :: "string \<Rightarrow> go_time \<Rightarrow> submission \<Rightarrow> Lock \<Rightarrow> string \<Rightarrow> string \<Rightarrow> bool \<Rightarrow> RunnerJob" where
  "submission_job jid created s lock lockDigest mode official =
     \<lparr>Job_ParentJobDigest = [], Job_VerificationPolicy = LockVerificationPolicy lock, Job_AdvisorySnapshotDigest = [],
      Job_RuntimeInventoryDigest = [], Job_HiddenSuite = None, Job_AcceptanceReceiptDigest = Sub_Receipt s, Job_DeploymentMode = mode,
      Job_OfficialAcceptance = official, Job_APIVersion = APIVersion, Job_Kind = ''ValidationJob'', Job_ID = jid, Job_CreatedAt = created,
      Job_Producer = ''science-ladder'', Job_ExpiresAt = 0, Job_Purpose = ''submission'', Job_SubmissionID = Sub_ID s,
      Job_ChallengeLockDigest = lockDigest, Job_ArtifactDigest = Sub_Artifact s, Job_SuiteDigest = Lock_SuiteDigest lock,
      Job_ExecutionProfileDigest = Lock_ExecutionProfileDigest lock, Job_RunnerEpoch = ''1'', Job_FencingToken = 1,
      Job_RequiredHostGroup = [], Job_ExcludedHostIDs = [], Job_ValidatorDisk = ref_of (Lock_ValidatorDiskDigest lock),
      Job_SubmissionDisk = ref_of (Sub_Disk s), Job_SuiteDisk = ref_of (Lock_SuiteDiskDigest lock),
      Job_ChallengeDisk = ref_of (Lock_ValidatorDiskDigest lock), Job_Manifest = Lock_Manifest lock, Job_SourceSnapshot = None\<rparr>"

definition accepted_contract :: "platform_db \<Rightarrow> string \<Rightarrow> (submission \<times> (string \<times> bool \<times> string) \<times> lock_row) res" where
  "accepted_contract db sid =
     res_bind (select_row (\<lambda>s. Sub_ID s = sid) (PD_submissions db)) (\<lambda>s.
     res_bind (select_row (\<lambda>r. RC_Digest r = Sub_Receipt s) (PD_receipts db)) (\<lambda>r.
     res_bind (acceptance_of (RC_Payload r)) (\<lambda>accepted.
     res_bind (select_row (\<lambda>v. CV_ID v = Sub_Version s) (PD_versions db)) (\<lambda>v.
     res_bind (select_row (\<lambda>l. CV_LockDigest v = Some (LK_Digest l)) (PD_locks db)) (\<lambda>l. Inr (s, accepted, l))))))"

text \<open>The transaction: a submission that already has its primary job is left alone.\<close>

definition queue_primary :: "RunnerJob \<Rightarrow> go_time \<Rightarrow> submission \<Rightarrow> platform_db \<Rightarrow> platform_db res" where
  "queue_primary job now s db =
     (if list_ex (\<lambda>j. RJ_Submission j = Some (Sub_ID s) \<and> RJ_Purpose j = ''submission'') (PD_jobs db) then Inr db else
      res_bind (insert_job (new_job job ''submission'' (Sub_Version s) (Some (Sub_ID s)) None None None now) db) (\<lambda>db1.
      Inr (db1\<lparr>PD_grants := update_where (\<lambda>g. VG_ID g = Sub_Grant s \<and> VG_Status g = ''reserved'') (\<lambda>g. g\<lparr>VG_Status := ''consumed''\<rparr>) (PD_grants db1),
               PD_submissions := update_where (\<lambda>x. Sub_ID x = Sub_ID s) (\<lambda>x. x\<lparr>Sub_Status := ''queued''\<rparr>) (PD_submissions db1)\<rparr>)))"

definition queueSubmission :: "'k service \<Rightarrow> string \<Rightarrow> go_time \<Rightarrow> go_time \<Rightarrow> string \<Rightarrow> platform_db \<Rightarrow> platform_db res" where
  "queueSubmission sv jid created now sid db =
     res_bind (accepted_contract db sid) (\<lambda>(s, (mode, official, policy), l).
     res_bind (Digest sv (DocLock (LK_Document l))) (\<lambda>lockDigest.
     if lockDigest \<noteq> LK_Digest l \<or> \<not> ValidVerificationPolicy policy \<or> policy \<noteq> LockVerificationPolicy (LK_Document l)
     then http_fail ''acceptance_lock_mismatch''
     else queue_primary (submission_job jid created s (LK_Document l) lockDigest mode official) now s db))"

definition preparation_job :: "'k service \<Rightarrow> string \<Rightarrow> go_time \<Rightarrow> string \<Rightarrow> string \<Rightarrow> string \<Rightarrow> Manifest \<Rightarrow> RunnerJob" where
  "preparation_job sv jid created purpose source artifact m =
     \<lparr>Job_ParentJobDigest = [], Job_VerificationPolicy = ManifestVerificationPolicy m, Job_AdvisorySnapshotDigest = [],
      Job_RuntimeInventoryDigest = [], Job_HiddenSuite = None, Job_AcceptanceReceiptDigest = [], Job_DeploymentMode = deployment sv,
      Job_OfficialAcceptance = False, Job_APIVersion = APIVersion, Job_Kind = ''ValidationJob'', Job_ID = jid, Job_CreatedAt = created,
      Job_Producer = ''science-ladder'', Job_ExpiresAt = 0, Job_Purpose = purpose, Job_SubmissionID = [],
      Job_ChallengeLockDigest = [], Job_ArtifactDigest = artifact, Job_SuiteDigest = [],
      Job_ExecutionProfileDigest = [], Job_RunnerEpoch = ''1'', Job_FencingToken = 1, Job_RequiredHostGroup = [], Job_ExcludedHostIDs = [],
      Job_ValidatorDisk = ref_of [], Job_SubmissionDisk = ref_of [], Job_SuiteDisk = ref_of [], Job_ChallengeDisk = ref_of [],
      Job_Manifest = m, Job_SourceSnapshot = Some (ref_of source)\<rparr>"

definition queuePreparation ::
    "'k service \<Rightarrow> string \<Rightarrow> go_time \<Rightarrow> go_time \<Rightarrow> string \<Rightarrow> string \<Rightarrow> string \<Rightarrow> string \<Rightarrow> string \<Rightarrow> Manifest \<Rightarrow> platform_db \<Rightarrow> platform_db res" where
  "queuePreparation sv jid created now purpose pid version source artifact m db =
     (let job = preparation_job sv jid created purpose source artifact m in
      if purpose = ''preflight'' then
        (if list_ex (\<lambda>j. RJ_Preflight j = Some pid) (PD_jobs db) then Inr db
         else insert_job (new_job job ''preflight'' version None (Some pid) None None now) db)
      else if list_ex (\<lambda>j. RJ_Intent j = Some pid) (PD_jobs db) then Inr db
      else insert_job (new_job job ''artifact_prepare'' version None None (Some pid) None now) db)"

section \<open>Leases\<close>

text \<open>The list of excluded hosts is written as \<open>null\<close> when it is empty; appending to it with \<open>||\<close> in the database then yields
  an array that starts with \<open>null\<close>, which is read back as an empty identifier.\<close>

definition exclude_host :: "string \<Rightarrow> RunnerJob \<Rightarrow> RunnerJob" where
  "exclude_host h job = job\<lparr>Job_ExcludedHostIDs := (if Job_ExcludedHostIDs job = [] then [[]] else Job_ExcludedHostIDs job) @ [h]\<rparr>"

definition has_result :: "platform_db \<Rightarrow> runner_job \<Rightarrow> bool" where
  "has_result db j = list_ex (\<lambda>r. RR_Job r = RJ_ID j) (PD_results db)"

definition recover_row :: "runner_job \<Rightarrow> runner_job" where
  "recover_row j = j\<lparr>RJ_Status := (if RJ_Attempts j \<ge> 8 then ''attention_required'' else ''queued''), RJ_Fence := RJ_Fence j + 1,
     RJ_Payload := (if Job_VerificationPolicy (RJ_Payload j) = ''platform'' then RJ_Payload j
       else case RJ_Host j of None \<Rightarrow> RJ_Payload j | Some h \<Rightarrow> exclude_host h (RJ_Payload j)),
     RJ_Host := None, RJ_Lease := None, RJ_Token := None\<rparr>"

definition lease_expired :: "go_time \<Rightarrow> platform_db \<Rightarrow> runner_job \<Rightarrow> bool" where
  "lease_expired now db j = (RJ_Status j = ''running'' \<and> (case RJ_Lease j of None \<Rightarrow> False | Some t \<Rightarrow> t < now) \<and> \<not> has_result db j)"

definition recoverRunnerLeases :: "go_time \<Rightarrow> platform_db \<Rightarrow> platform_db" where
  "recoverRunnerLeases now db = db\<lparr>PD_jobs := update_where (lease_expired now db) recover_row (PD_jobs db)\<rparr>"

section \<open>Claims\<close>

text \<open>Containment of JSON objects: an asset without a domain is contained in one that has a domain.\<close>

definition asset_contained :: "EvaluationAsset \<Rightarrow> EvaluationAsset \<Rightarrow> bool" where
  "asset_contained a b = ((Asset_Domain a = [] \<or> Asset_Domain a = Asset_Domain b) \<and> b\<lparr>Asset_Domain := Asset_Domain a\<rparr> = a)"

text \<open>The duration the query computes, in seconds.  The numbers of an accepted manifest are far below the range of a 32-bit
  integer.\<close>

definition query_seconds :: "runner_job \<Rightarrow> int" where
  "query_seconds j = (let m = Job_Manifest (RJ_Payload j); timeout = Resources_TimeoutSeconds (Manifest_Resources m) in
     max 900 (if RJ_Purpose j = ''artifact_prepare'' then 900
       else if RJ_Purpose j = ''preflight'' then 600 + 2 * len (Manifest_Fixtures m) * (timeout + 60)
       else 660 + timeout))"

definition executor_query :: "ExecutorCapabilities option \<Rightarrow> runner_job \<Rightarrow> bool" where
  "executor_query capabilities j = (let m = Job_Manifest (RJ_Payload j) in
     case (capabilities, Manifest_Evaluation m) of
       (None, e) \<Rightarrow> e = None
     | (Some c, None) \<Rightarrow> False
     | (Some c, Some e) \<Rightarrow>
       let r = Evaluation_Executor e; res = Manifest_Resources m in
       Validator_RuntimeImageDigest (Manifest_Validator m) = Capabilities_RuntimeImageDigest c \<and>
       Executor_OS r = Capabilities_OS c \<and> Executor_Architecture r = Capabilities_Architecture c \<and>
       Executor_Accelerator r = Capabilities_Accelerator c \<and>
       (Executor_HardwareClass r = [] \<or> Executor_HardwareClass r = Capabilities_HardwareClass c) \<and>
       set (Executor_Features r) \<subseteq> set (Capabilities_Features c) \<and>
       list_all (\<lambda>a. list_ex (asset_contained a) (Capabilities_Assets c)) (Evaluation_Assets e) \<and>
       Resources_VCPU res \<le> Capabilities_MaxVCPU c \<and> Resources_MemoryMB res \<le> Capabilities_MaxMemoryMB c \<and>
       Resources_TimeoutSeconds res \<le> Capabilities_MaxSessionSeconds c \<and>
       query_seconds j \<le> (if Capabilities_MaxJobSeconds c = 0 then 900 else Capabilities_MaxJobSeconds c))"

definition preparation :: "string \<Rightarrow> bool" where
  "preparation purpose = (purpose = ''preflight'' \<or> purpose = ''artifact_prepare'')"

definition claimable :: "runnerIdentity \<Rightarrow> string list \<Rightarrow> runner_job \<Rightarrow> bool" where
  "claimable host purposes j = (RJ_Status j = ''queued'' \<and> RJ_Purpose j \<in> set purposes \<and>
     (preparation (RJ_Purpose j) \<or> Job_ExecutionProfileDigest (RJ_Payload j) = Host_ExecutionProfile host) \<and>
     executor_query (Host_Capabilities host) j \<and> Host_ID host \<notin> set (Job_ExcludedHostIDs (RJ_Payload j)) \<and>
     (case RJ_ExcludedGroup j of None \<Rightarrow> True | Some g \<Rightarrow> g \<noteq> Host_Group host))"

text \<open>\<open>FOR UPDATE SKIP LOCKED\<close>: \<open>locked\<close> lists the rows other transactions hold.  Rows created at the same instant are taken in
  table order.\<close>

definition oldest :: "runner_job list \<Rightarrow> runner_job option" where
  "oldest rows = find (\<lambda>j. list_all (\<lambda>x. RJ_Created j \<le> RJ_Created x) rows) rows"

definition pick_job :: "runnerIdentity \<Rightarrow> string list \<Rightarrow> string list \<Rightarrow> platform_db \<Rightarrow> runner_job option" where
  "pick_job host purposes locked db = oldest (filter (\<lambda>j. claimable host purposes j \<and> RJ_ID j \<notin> set locked) (PD_jobs db))"

text \<open>The references a claim fills in: the source of a preparation, the four disks of a run.\<close>

definition map_refs :: "(ObjectRef \<Rightarrow> ObjectRef res) \<Rightarrow> RunnerJob \<Rightarrow> RunnerJob res" where
  "map_refs f job =
     (if preparation (Job_Purpose job) then
        res_bind (deref (Job_SourceSnapshot job)) (\<lambda>source. res_bind (f source) (\<lambda>r. Inr (job\<lparr>Job_SourceSnapshot := Some r\<rparr>)))
      else
        res_bind (f (Job_ValidatorDisk job)) (\<lambda>v. res_bind (f (Job_SubmissionDisk job)) (\<lambda>s.
        res_bind (f (Job_SuiteDisk job)) (\<lambda>u. res_bind (f (Job_ChallengeDisk job)) (\<lambda>c.
        Inr (job\<lparr>Job_ValidatorDisk := v, Job_SubmissionDisk := s, Job_SuiteDisk := u, Job_ChallengeDisk := c\<rparr>))))))"

definition sized_ref :: "platform_db \<Rightarrow> ObjectRef \<Rightarrow> ObjectRef res" where
  "sized_ref db r = (case find (\<lambda>a. AF_Digest a = Ref_Digest r) (PD_artifacts db) of None \<Rightarrow> http_fail ''disk_missing''
     | Some a \<Rightarrow> if AF_Blob a \<noteq> Ref_Digest r then http_fail ''disk_not_canonical'' else Inr (r\<lparr>Ref_Size := AF_Size a\<rparr>))"

definition readable_ref :: "runner_env \<Rightarrow> ObjectRef \<Rightarrow> ObjectRef res" where
  "readable_ref env r = res_bind (RE_read env (Ref_Digest r)) (\<lambda>url. Inr (r\<lparr>Ref_URL := url\<rparr>))"

definition scan_policy :: "runnerIdentity \<Rightarrow> RunnerJob \<Rightarrow> RunnerJob res" where
  "scan_policy host job =
     (if Job_Purpose job \<noteq> ''preflight'' then Inr job
      else if \<not> ValidDigest (Host_AdvisorySnapshotDigest host) \<or> \<not> ValidDigest (Host_RuntimeInventoryDigest host)
      then http_fail ''scan_policy_unconfigured''
      else if Job_AdvisorySnapshotDigest job \<noteq> [] \<and> (Job_AdvisorySnapshotDigest job \<noteq> Host_AdvisorySnapshotDigest host
          \<or> Job_RuntimeInventoryDigest job \<noteq> Host_RuntimeInventoryDigest host) then http_fail ''independent_scan_policy_mismatch''
      else Inr (job\<lparr>Job_AdvisorySnapshotDigest := Host_AdvisorySnapshotDigest host, Job_RuntimeInventoryDigest := Host_RuntimeInventoryDigest host\<rparr>))"

definition executor_matches :: "runnerIdentity \<Rightarrow> RunnerJob \<Rightarrow> bool" where
  "executor_matches host job = (case Manifest_Evaluation (Job_Manifest job) of None \<Rightarrow> True | Some e \<Rightarrow>
     (case Host_Capabilities host of None \<Rightarrow> False | Some c \<Rightarrow>
        is_ok (MatchExecutor e (Manifest_Resources (Job_Manifest job)) (Validator_RuntimeImageDigest (Manifest_Validator (Job_Manifest job))) c)))"

definition lease_fits :: "runnerIdentity \<Rightarrow> RunnerJob \<Rightarrow> bool" where
  "lease_fits host job = (case Host_Capabilities host of None \<Rightarrow> True | Some c \<Rightarrow> MatchJobLease (Job_Manifest job) (Job_Purpose job) c)"

definition set_profile :: "runnerIdentity \<Rightarrow> RunnerJob \<Rightarrow> RunnerJob res" where
  "set_profile host job =
     (if \<not> preparation (Job_Purpose job) then Inr job
      else if Job_SourceSnapshot job = None then http_fail ''source_missing''
      else if Host_ExecutionProfile host = [] then http_fail ''profile_unconfigured''
      else Inr (job\<lparr>Job_ExecutionProfileDigest := Host_ExecutionProfile host\<rparr>))"

definition prepare_claim :: "runnerIdentity \<Rightarrow> go_time \<Rightarrow> platform_db \<Rightarrow> runner_job \<Rightarrow> RunnerJob res" where
  "prepare_claim host now db row =
     (let job = RJ_Payload row in
      if \<not> executor_matches host job then http_fail ''executor_mismatch'' else
      res_bind (scan_policy host job) (\<lambda>job.
      if \<not> ValidVerificationPolicy (JobVerificationPolicy job) then http_fail ''verification_policy_invalid''
      else if \<not> lease_fits host job then http_fail ''executor_lease_mismatch'' else
      res_bind (set_profile host (job\<lparr>Job_RequiredHostGroup := Host_Group host, Job_FencingToken := RJ_Fence row,
        Job_ExpiresAt := now + JobLeaseDuration (Job_Manifest job) (Job_Purpose job)\<rparr>)) (map_refs (sized_ref db))))"

definition suiteAAD :: "string \<Rightarrow> string" where
  "suiteAAD sid = ''science-ladder-suite-material-v1'' @ NUL @ sid"

definition suiteMaterial :: "runner_env \<Rightarrow> platform_db \<Rightarrow> string \<Rightarrow> (SuiteKeyMaterial \<times> string) res" where
  "suiteMaterial env db commitment =
     (case RE_open env of None \<Rightarrow> Inl (Err ''hidden suite envelope encryption unavailable'') | Some open_box \<Rightarrow>
      res_bind (select_row (\<lambda>h. HS_Commitment h = commitment) (PD_suites db)) (\<lambda>h.
      res_bind (open_box (HS_Material h) (suiteAAD (HS_ID h))) (\<lambda>plain.
      res_bind (HE_Decode (RE_hidden env) plain) (\<lambda>material.
      if Material_Commitment material \<noteq> commitment then Inl (Err ''hidden suite commitment and encrypted material mismatch'')
      else Inr (material, HS_Ciphertext h)))))"

definition b64_strict :: "string \<Rightarrow> string option" where
  "b64_strict s = (case b64_decode s of None \<Rightarrow> None
     | Some b \<Rightarrow> if b64_encode b = filter (\<lambda>c. c \<noteq> CHR 0x0A \<and> c \<noteq> CHR 0x0D) s then Some b else None)"

record claim_draws =
  CD_token :: string
  CD_ephemeral :: string
  CD_nonce :: string

definition grantHiddenSuite :: "runner_env \<Rightarrow> claim_draws \<Rightarrow> runnerIdentity \<Rightarrow> platform_db \<Rightarrow> RunnerJob \<Rightarrow> RunnerJob res" where
  "grantHiddenSuite env dr host db job =
     (let suite = Manifest_Suite (Job_Manifest job) in
      if Suite_Visibility suite \<noteq> ''hidden'' \<or> Job_Purpose job = ''artifact_prepare'' then Inr job else
      case b64_strict (Host_EncryptionKey host) of None \<Rightarrow> http_fail ''host_encryption_key_missing'' | Some public \<Rightarrow>
      if len public \<noteq> 32 then http_fail ''host_encryption_key_missing'' else
      res_bind (suiteMaterial env db (Suite_Commitment suite)) (\<lambda>(material, digest).
      res_bind (WrapSuiteKey (RE_hidden env) (CD_ephemeral dr) (CD_nonce dr) public material
          (HiddenSuiteContext (Job_ID job) (Material_Commitment material))) (\<lambda>capsule.
      res_bind (select_row (\<lambda>a. AF_Digest a = digest) (PD_artifacts db)) (\<lambda>a.
      res_bind (RE_read env digest) (\<lambda>url.
      Inr (job\<lparr>Job_HiddenSuite := Some \<lparr>Grant_Source = \<lparr>Ref_Digest = digest, Ref_Size = AF_Size a, Ref_URL = url\<rparr>,
          Grant_Commitment = Material_Commitment material, Grant_KeyCapsule = capsule\<rparr>,
        Job_SuiteDigest := Material_Commitment material\<rparr>))))))"

definition claim_row :: "'k service \<Rightarrow> runnerIdentity \<Rightarrow> RunnerJob \<Rightarrow> Envelope \<Rightarrow> string \<Rightarrow> runner_job \<Rightarrow> runner_job" where
  "claim_row sv host job envelope token j = j\<lparr>RJ_Status := ''running'', RJ_Host := Some (Host_ID host), RJ_Payload := job,
     RJ_Envelope := Some envelope, RJ_Token := Some (hash_hex sv token), RJ_Lease := Some (Job_ExpiresAt job), RJ_Attempts := RJ_Attempts j + 1\<rparr>"

definition commit_claim ::
    "'k service \<Rightarrow> runnerIdentity \<Rightarrow> string \<Rightarrow> int \<Rightarrow> RunnerJob \<Rightarrow> Envelope \<Rightarrow> string \<Rightarrow> platform_db \<Rightarrow> platform_db res" where
  "commit_claim sv host jid fence job envelope token db =
     (let mine = (\<lambda>j. RJ_ID j = jid \<and> RJ_Status j = ''queued'' \<and> RJ_Fence j = fence) in
      if \<not> list_ex mine (PD_jobs db) then http_fail ''job_claimed''
      else Inr (db\<lparr>PD_jobs := update_where mine (claim_row sv host job envelope token) (PD_jobs db)\<rparr>))"

definition sign_job :: "'k service \<Rightarrow> runner_env \<Rightarrow> 'k \<Rightarrow> RunnerJob \<Rightarrow> Envelope res" where
  "sign_job sv env key job = Sign (scrypto sv) (S_ReceiptKeyID (SE_server sv)) key (RE_sign env) (RE_job env job)"

text \<open>\<open>purposes\<close> are those \<open>requestedRunnerPurposes\<close> returned; \<open>db\<close> is the state the queue is read in and \<open>db2\<close> the one the claim is
  committed in.  The last-seen column of the host is not read by any handler and is left out.\<close>

definition claimRunnerJob ::
    "'k service \<Rightarrow> runner_env \<Rightarrow> claim_draws \<Rightarrow> go_time \<Rightarrow> runnerIdentity \<Rightarrow> string list \<Rightarrow> string list \<Rightarrow> platform_db \<Rightarrow> platform_db
      \<Rightarrow> ((Envelope \<times> string) option \<times> platform_db) res" where
  "claimRunnerJob sv env dr now host purposes locked db db2 =
     (if purposes = [] then Inr (None, db2)
      else if \<not> RE_store env then http_fail ''storage_unavailable'' else
      res_bind (verifyHostDelegation sv host now) (\<lambda>_.
      case S_ReceiptSigner (SE_server sv) of None \<Rightarrow> http_fail ''signing_unavailable'' | Some key \<Rightarrow>
      case pick_job host purposes locked db of None \<Rightarrow> Inr (None, db2) | Some row \<Rightarrow>
      res_bind (prepare_claim host now db row) (\<lambda>job.
      res_bind (map_refs (readable_ref env) job) (\<lambda>job.
      res_bind (grantHiddenSuite env dr host db2 job) (\<lambda>job.
      res_bind (sign_job sv env key job) (\<lambda>envelope.
      res_bind (commit_claim sv host (RJ_ID row) (RJ_Fence row) job envelope (CD_token dr) db2) (\<lambda>db3.
      Inr (Some (envelope, CD_token dr), db3))))))))"

section \<open>Uploads\<close>

definition object_roles :: "string list" where
  "object_roles = [''validatorDisk'', ''challengeDisk'', ''suiteDisk'', ''submissionDisk'', ''sbom'']"

text \<open>\<open>ON CONFLICT (job_id, role) DO UPDATE \<dots> WHERE\<close> the digest and the size are the same: an existing row is kept, and a
  different one affects no row.\<close>

definition put_upload :: "string \<Rightarrow> string \<Rightarrow> string \<Rightarrow> int \<Rightarrow> platform_db \<Rightarrow> platform_db res" where
  "put_upload jid role digest bytes db =
     (case find (\<lambda>u. UP_Job u = jid \<and> UP_Role u = role) (PD_uploads db) of
        None \<Rightarrow> Inr (db\<lparr>PD_uploads := PD_uploads db @ [\<lparr>UP_Job = jid, UP_Role = role, UP_Digest = digest, UP_Size = bytes, UP_Verified = False\<rparr>]\<rparr>)
      | Some u \<Rightarrow> if UP_Digest u = digest \<and> UP_Size u = bytes then Inr db else http_fail ''object_conflict'')"

definition runnerObject ::
    "'k service \<Rightarrow> runner_env \<Rightarrow> go_time \<Rightarrow> runnerIdentity \<Rightarrow> string \<Rightarrow> string \<Rightarrow> string \<Rightarrow> int \<Rightarrow> string \<Rightarrow> platform_db \<Rightarrow> (string \<times> platform_db) res" where
  "runnerObject sv env now host jid role digest bytes token db =
     (if \<not> RE_store env then http_fail ''storage_unavailable''
      else if role \<notin> set object_roles then http_fail ''object_role_invalid''
      else if bytes \<le> 0 \<or> bytes > 2 ^ 30 then http_fail ''object_size_invalid'' else
      res_bind (select_row (\<lambda>j. RJ_ID j = jid \<and> RJ_Host j = Some (Host_ID host) \<and> RJ_Status j = ''running'' \<and>
        (case RJ_Lease j of None \<Rightarrow> False | Some t \<Rightarrow> t > now)) (PD_jobs db)) (\<lambda>j.
      res_bind (case RJ_Token j of None \<Rightarrow> Inl (Err ''cannot scan NULL into *string'') | Some h \<Rightarrow> Inr h) (\<lambda>expected.
      if hash_hex sv token \<noteq> expected then http_fail ''result_capability_invalid''
      else if \<not> preparation (RJ_Purpose j) then http_fail ''object_upload_forbidden''
      else if RJ_Purpose j = ''artifact_prepare'' \<and> role \<noteq> ''submissionDisk'' then http_fail ''object_role_forbidden'' else
      res_bind (RE_write env digest bytes) (\<lambda>url.
      res_bind (put_upload jid role digest bytes db) (\<lambda>db'. Inr (url, db'))))))"

definition build_ref :: "BuildReport \<Rightarrow> string \<Rightarrow> ObjectRef option" where
  "build_ref b role =
     (if role = ''validatorDisk'' then BuildReport_ValidatorDisk b else if role = ''challengeDisk'' then BuildReport_ChallengeDisk b
      else if role = ''suiteDisk'' then BuildReport_SuiteDisk b else if role = ''submissionDisk'' then BuildReport_SubmissionDisk b
      else if role = ''sbom'' then BuildReport_SBOM b else None)"

definition mark_verified :: "string \<Rightarrow> string \<Rightarrow> platform_db \<Rightarrow> platform_db" where
  "mark_verified jid role db = db\<lparr>PD_uploads := update_where (\<lambda>u. UP_Job u = jid \<and> UP_Role u = role) (\<lambda>u. u\<lparr>UP_Verified := True\<rparr>) (PD_uploads db)\<rparr>"

definition verify_object :: "runner_env \<Rightarrow> string \<Rightarrow> BuildReport \<Rightarrow> platform_db \<Rightarrow> string \<Rightarrow> unit res" where
  "verify_object env jid b db role =
     (case build_ref b role of None \<Rightarrow> Inr () | Some r \<Rightarrow>
      res_bind (select_row (\<lambda>u. UP_Job u = jid \<and> UP_Role u = role) (PD_uploads db)) (\<lambda>u.
      if Ref_Digest r \<noteq> UP_Digest u \<or> Ref_Size r \<noteq> UP_Size u then http_fail ''uploaded_object_mismatch''
      else RE_verify env (UP_Digest u) (UP_Size u)))"

text \<open>The loop ranges over a map, so its order is not determined: \<open>order\<close> is the order taken.  Each statement commits on its
  own, so the roles checked before a failure stay verified.\<close>

fun verifyBuildObjects :: "runner_env \<Rightarrow> string \<Rightarrow> BuildReport \<Rightarrow> string list \<Rightarrow> platform_db \<Rightarrow> unit res \<times> platform_db" where
  "verifyBuildObjects env jid b [] db = (Inr (), db)"
| "verifyBuildObjects env jid b (role # order) db =
     (case verify_object env jid b db role of Inl e \<Rightarrow> (Inl e, db)
      | Inr _ \<Rightarrow> verifyBuildObjects env jid b order (if build_ref b role = None then db else mark_verified jid role db))"

end
