(* ===== verification/Runs.thy ===== *)
theory Runs
  imports Jobs
begin

text \<open>
  Results of runner jobs (\<open>runnerResult\<close> of \<open>internal/platform/runners.go\<close> and \<open>commitBuild\<close> of \<open>preparation.go\<close>).  A host
  posts a signed receipt for the job it holds; the handler checks the signature and the bindings, stores the result exactly
  once, and moves the submission, the intent or the preflight on: a valid primary run creates a confirmation job, a
  confirmation is compared with the primary, and only then the submission is validated.

  \<open>receive_run\<close> is what happens before the transaction and \<open>commit_run\<close> the transaction.
\<close>

datatype run_reply =
    Duplicate
  | Retrying
  | Accepted bool
  | Incident

record run_draws =
  RD_job :: string
  RD_receipt :: string
  RD_created :: go_time

section \<open>Receiving\<close>

definition run_identity :: "go_time \<Rightarrow> runnerIdentity \<Rightarrow> string \<Rightarrow> RunReceipt \<Rightarrow> bool" where
  "run_identity now host jid run =
     (Run_APIVersion run = APIVersion \<and> Run_Kind run = ''ValidationRunReceipt'' \<and> Run_CreatedAt run \<le> now + 60 * go_second \<and>
      Run_HostID run = Host_ID host \<and> Run_HostGroup run = Host_Group host \<and> Run_Official run \<and> Run_CleanupAttested run \<and> Run_JobID run = jid)"

definition receive_run ::
    "'k service \<Rightarrow> go_time \<Rightarrow> runnerIdentity \<Rightarrow> string \<Rightarrow> Envelope \<Rightarrow> (RunReceipt \<times> string) res" where
  "receive_run sv now host jid envelope =
     res_bind (parseRunnerKey sv (Host_PublicKey host)) (\<lambda>key.
     res_bind (or_else (Verify (scrypto sv) envelope [(Host_ID host, key)]) (Errf ''run_signature_invalid'' [])) (\<lambda>payload.
     res_bind (or_else (SE_run sv payload) (Errf ''run_invalid'' [])) (\<lambda>run.
     if \<not> run_identity now host jid run then http_fail ''run_identity_mismatch'' else
     res_bind (verifyHostDelegation sv host (Run_CreatedAt run)) (\<lambda>_.
     res_bind (Digest sv (DocRun run)) (\<lambda>digest. Inr (run, digest))))))"

section \<open>Guards\<close>

definition lease_held :: "go_time \<Rightarrow> runnerIdentity \<Rightarrow> RunReceipt \<Rightarrow> runner_job \<Rightarrow> bool" where
  "lease_held now host run j =
     (RJ_Status j = ''running'' \<and> RJ_Host j = Some (Host_ID host) \<and> (case RJ_Lease j of None \<Rightarrow> False | Some t \<Rightarrow> now \<le> t) \<and>
      RJ_Fence j = Run_FencingToken run)"

definition run_bound :: "RunnerJob \<Rightarrow> string \<Rightarrow> RunReceipt \<Rightarrow> bool" where
  "run_bound job jobDigest run =
     (ValidVerificationPolicy (JobVerificationPolicy job) \<and> Run_ParentJobDigest run = Job_ParentJobDigest job \<and>
      Run_VerificationPolicy run = Job_VerificationPolicy job \<and> Run_JobDigest run = jobDigest \<and>
      Run_AcceptanceReceiptDigest run = Job_AcceptanceReceiptDigest job \<and> Run_ChallengeLockDigest run = Job_ChallengeLockDigest job \<and>
      Run_ArtifactDigest run = Job_ArtifactDigest job \<and> Run_SuiteDigest run = Job_SuiteDigest job \<and>
      Run_ExecutionProfileDigest run = Job_ExecutionProfileDigest job \<and> Run_RunnerEpoch run = Job_RunnerEpoch job \<and>
      Run_DeploymentMode run = Job_DeploymentMode job \<and> Run_OfficialAcceptance run = Job_OfficialAcceptance job)"

definition terminal_outcomes :: "string list" where
  "terminal_outcomes = [''valid'', ''hard_gate_failed'', ''invalid_output'', ''resource_limit'', ''declared_timeout'', ''nondeterministic'',
     ''malicious'', ''challenge_fault'', ''measurement_inconclusive'']"

definition score_check :: "Manifest \<Rightarrow> RunReceipt \<Rightarrow> unit res" where
  "score_check m run =
     (let metric = Manifest_Metric m in
      if \<not> gates_pass run (Manifest_HardGates m) then http_fail ''gates_invalid''
      else if \<not> is_ok (CompareTicks (Run_ScoreTicks run) (Run_ScoreTicks run)) then http_fail ''score_invalid''
      else if Metric_DomainMinTicks metric \<noteq> [] \<and> \<not> crosses (Run_ScoreTicks run) (Metric_DomainMinTicks metric) ''maximize''
      then http_fail ''score_domain''
      else if Metric_DomainMaxTicks metric \<noteq> [] \<and> \<not> crosses (Run_ScoreTicks run) (Metric_DomainMaxTicks metric) ''minimize''
      then http_fail ''score_domain'' else Inr ())"

definition evidence_check :: "'k service \<Rightarrow> RunnerJob \<Rightarrow> RunReceipt \<Rightarrow> unit res" where
  "evidence_check sv job run = or_else (ValidateRunMeasurementEvidence (Env_NFC (SE_claims sv)) (Env_Marshal (SE_claims sv)) (Env_Decode (SE_claims sv))
     run (Job_Manifest job)) (Errf ''measurement_evidence_invalid'' [])"

definition check_outcome :: "'k service \<Rightarrow> go_time \<Rightarrow> runnerIdentity \<Rightarrow> RunnerJob \<Rightarrow> RunReceipt \<Rightarrow> unit res" where
  "check_outcome sv now host job run =
     (let isBuild = preparation (Job_Purpose job) in
      res_bind (if isBuild \<and> Run_Outcome run = ''valid'' then validateBuild sv now job run else Inr ()) (\<lambda>_.
      res_bind (if isBuild \<and> Run_Outcome run = ''valid'' \<and> Job_Purpose job = ''preflight'' then validateFixtureEvidence sv job run host else Inr ()) (\<lambda>_.
      if Run_Outcome run \<notin> set terminal_outcomes then http_fail ''run_outcome_invalid'' else
      res_bind (if isBuild then Inr () else evidence_check sv job run) (\<lambda>_.
      if Run_Outcome run = ''valid'' \<and> \<not> isBuild then score_check (Job_Manifest job) run else Inr ()))))"

section \<open>Builds\<close>

definition build_failed :: "string \<Rightarrow> string \<Rightarrow> RunnerJob \<Rightarrow> BuildReport \<Rightarrow> platform_db \<Rightarrow> platform_db" where
  "build_failed version jid job b db =
     (let findings = map (\<lambda>f. (''preflight_failed'', f, ''error'', [])) (BuildReport_Findings b);
          row = find (\<lambda>j. RJ_ID j = jid) (PD_jobs db) in
      if Job_Purpose job = ''artifact_prepare'' then
        db\<lparr>PD_intents := update_where (\<lambda>i. Option.bind row RJ_Intent = Some (SI_ID i))
          (\<lambda>i. i\<lparr>SI_Status := ''failed'', SI_Findings := findings\<rparr>) (PD_intents db)\<rparr>
      else
        db\<lparr>PD_preflights := update_where (\<lambda>p. Option.bind row RJ_Preflight = Some (PF_ID p))
             (\<lambda>p. p\<lparr>PF_Status := ''fail_with_actionable_findings'', PF_Findings := findings, PF_Report := Some b\<rparr>) (PD_preflights db),
           PD_versions := update_where (\<lambda>v. CV_ID v = version \<and> CV_LockDigest v = None) (\<lambda>v. v\<lparr>CV_Status := ''changes_required''\<rparr>) (PD_versions db)\<rparr>)"

definition add_artifact :: "string \<Rightarrow> string \<Rightarrow> int \<Rightarrow> string \<Rightarrow> string \<Rightarrow> platform_db \<Rightarrow> platform_db" where
  "add_artifact digest blob bytes media owner db =
     (if list_ex (\<lambda>a. AF_Digest a = digest) (PD_artifacts db) then db
      else db\<lparr>PD_artifacts := PD_artifacts db @ [\<lparr>AF_Digest = digest, AF_Blob = blob, AF_Size = bytes, AF_MediaType = media, AF_Owner = owner, AF_Public = None\<rparr>]\<rparr>)"

text \<open>\<open>LIMIT 1\<close> without an order: the first row stands for the one the database returns.\<close>

definition store_output :: "string \<Rightarrow> string \<Rightarrow> platform_db \<Rightarrow> ObjectRef option \<times> string \<Rightarrow> platform_db res" where
  "store_output jid owner db = (\<lambda>(ref, media).
     case ref of None \<Rightarrow> Inr db | Some r \<Rightarrow>
     res_bind (select_row (\<lambda>u. UP_Job u = jid \<and> UP_Digest u = Ref_Digest r \<and> UP_Size u = Ref_Size r) (PD_uploads db)) (\<lambda>u.
     if \<not> UP_Verified u then http_fail ''object_verification_pending''
     else Inr (add_artifact (Ref_Digest r) (Ref_Digest r) (Ref_Size r) media owner db)))"

definition build_outputs :: "BuildReport \<Rightarrow> (ObjectRef option \<times> string) list" where
  "build_outputs b = (let disk = ''application/vnd.squashfs'' in
     [(BuildReport_ValidatorDisk b, disk), (BuildReport_ChallengeDisk b, disk), (BuildReport_SuiteDisk b, disk),
      (BuildReport_SubmissionDisk b, disk), (BuildReport_SBOM b, ''application/spdx+json'')])"

definition previous_build :: "string \<Rightarrow> string \<Rightarrow> platform_db \<Rightarrow> runner_result option" where
  "previous_build preflight jid db = find (\<lambda>r. RR_Job r \<noteq> jid \<and>
     list_ex (\<lambda>j. RJ_ID j = RR_Job r \<and> RJ_Preflight j = Some preflight) (PD_jobs db)) (PD_results db)"

definition builds_agree :: "RunReceipt \<Rightarrow> RunReceipt \<Rightarrow> BuildReport \<Rightarrow> bool" where
  "builds_agree first run b =
     (Run_VerificationPolicy first = Run_VerificationPolicy run \<and> Run_Outcome first = ''valid'' \<and> Run_HostGroup first \<noteq> Run_HostGroup run \<and>
      Run_HostID first \<noteq> Run_HostID run \<and> Run_ExecutionProfileDigest first = Run_ExecutionProfileDigest run \<and>
      (case Run_BuildReport first of None \<Rightarrow> False | Some fb \<Rightarrow>
        BuildReport_ValidatorDiskDigest fb = BuildReport_ValidatorDiskDigest b \<and> BuildReport_SuiteDigest fb = BuildReport_SuiteDigest b \<and>
        (case (BuildReport_SuiteDisk fb, BuildReport_SuiteDisk b) of (Some x, Some y) \<Rightarrow> Ref_Digest x = Ref_Digest y | _ \<Rightarrow> False)))"

definition conformance_receipt ::
    "'k service \<Rightarrow> runner_env \<Rightarrow> run_draws \<Rightarrow> string \<Rightarrow> string \<Rightarrow> string \<Rightarrow> string \<Rightarrow> BuildReport \<Rightarrow> string list \<Rightarrow> string list \<Rightarrow> Receipt" where
  "conformance_receipt sv env dr version source policy status b digests groups =
     \<lparr>Receipt_VerificationPolicy = policy, Receipt_VerificationStatus = status, Receipt_DeploymentMode = deployment sv,
      Receipt_OfficialAcceptance = False, Receipt_APIVersion = APIVersion, Receipt_Kind = ''MachineConformanceReceipt'',
      Receipt_ID = RD_receipt dr, Receipt_CreatedAt = RD_created dr, Receipt_Producer = ''science-ladder'', Receipt_SubjectDigest = source,
      Receipt_EconomicMode = ''none'',
      Receipt_Data = [(''versionId'', JStr version), (''buildReport'', RE_report env b), (''runDigests'', JArr (map JStr digests)),
        (''hostGroups'', JArr (map JStr groups)), (''independentReplication'', JBool (policy = VerificationIndependent))]\<rparr>"

definition pass_preflight ::
    "'k service \<Rightarrow> runner_env \<Rightarrow> run_draws \<Rightarrow> string \<Rightarrow> string \<Rightarrow> RunnerJob \<Rightarrow> BuildReport \<Rightarrow> string \<Rightarrow> string \<Rightarrow> string list \<Rightarrow> string list \<Rightarrow> platform_db \<Rightarrow> platform_db res" where
  "pass_preflight sv env dr version owner job b preflight status digests groups db =
     res_bind (deref (Job_SourceSnapshot job)) (\<lambda>source.
     let doc = DocReceipt (conformance_receipt sv env dr version (Ref_Digest source) (JobVerificationPolicy job) status b digests groups) in
     res_bind (Digest sv doc) (\<lambda>digest.
     res_bind (insert_row (\<lambda>r. RC_Digest r = digest) (new_receipt digest doc (Some owner) False) (PD_receipts db)) (\<lambda>receipts.
     Inr (enqueue ''scientific_review'' version (enqueue ''sign_receipt'' digest (db\<lparr>PD_receipts := receipts,
       PD_preflights := update_where (\<lambda>p. PF_ID p = preflight)
         (\<lambda>p. p\<lparr>PF_Status := ''pass'', PF_Findings := [], PF_Report := Some b, PF_Receipt := Some digest\<rparr>) (PD_preflights db),
       PD_versions := update_where (\<lambda>v. CV_ID v = version \<and> CV_LockDigest v = None) (\<lambda>v. v\<lparr>CV_Status := ''review_ready''\<rparr>) (PD_versions db)\<rparr>))))))"

definition second_build :: "run_draws \<Rightarrow> RunnerJob \<Rightarrow> RunReceipt \<Rightarrow> RunnerJob" where
  "second_build dr job run = job\<lparr>Job_ID := RD_job dr, Job_CreatedAt := RD_created dr, Job_RequiredHostGroup := [],
     Job_ExcludedHostIDs := [Run_HostID run], Job_FencingToken := 1\<rparr>"

definition commit_preflight ::
    "'k service \<Rightarrow> runner_env \<Rightarrow> run_draws \<Rightarrow> go_time \<Rightarrow> RunnerJob \<Rightarrow> RunReceipt \<Rightarrow> BuildReport \<Rightarrow> string \<Rightarrow> string \<Rightarrow> string \<Rightarrow> string \<Rightarrow> platform_db \<Rightarrow> platform_db res" where
  "commit_preflight sv env dr now job run b digest version owner preflight db =
     (let policy = JobVerificationPolicy job in
      if \<not> ValidVerificationPolicy policy then http_fail ''verification_policy_invalid''
      else if policy \<noteq> VerificationIndependent then
        pass_preflight sv env dr version owner job b preflight ''platform_verified'' [digest] [Run_HostGroup run] db
      else case previous_build preflight (Job_ID job) db of
        None \<Rightarrow>
          res_bind (insert_job (new_job (second_build dr job run) ''preflight'' version None (Some preflight) None (Some (Run_HostGroup run)) now) db) (\<lambda>db1.
          Inr (db1\<lparr>PD_preflights := update_where (\<lambda>p. PF_ID p = preflight)
            (\<lambda>p. p\<lparr>PF_Status := ''independent_confirmation'', PF_Report := Some b\<rparr>) (PD_preflights db1)\<rparr>))
      | Some previous \<Rightarrow>
          if \<not> builds_agree (RR_Result previous) run b then http_fail ''independent_build_disagreement''
          else pass_preflight sv env dr version owner job b preflight ''independently_replicated'' [RR_Digest previous, digest]
            [Run_HostGroup (RR_Result previous), Run_HostGroup run] db)"

definition commitBuild ::
    "'k service \<Rightarrow> runner_env \<Rightarrow> run_draws \<Rightarrow> go_time \<Rightarrow> RunnerJob \<Rightarrow> RunReceipt \<Rightarrow> string \<Rightarrow> string \<Rightarrow> platform_db \<Rightarrow> platform_db res" where
  "commitBuild sv env dr now job run digest version db =
     (case Run_BuildReport run of None \<Rightarrow> http_fail ''build_report_required'' | Some b \<Rightarrow>
      if \<not> BuildReport_Passed b \<or> Run_Outcome run \<noteq> ''valid'' then Inr (build_failed version (Job_ID job) job b db) else
      res_bind (validateBuild sv now job run) (\<lambda>_.
      res_bind (select_row (\<lambda>j. RJ_ID j = Job_ID job) (PD_jobs db)) (\<lambda>row.
      res_bind (select_row (\<lambda>v. CV_ID v = RJ_Version row) (PD_versions db)) (\<lambda>v.
      res_bind (case RJ_Intent row of None \<Rightarrow> Inr (CV_Owner v)
        | Some i \<Rightarrow> res_bind (select_row (\<lambda>x. SI_ID x = i) (PD_intents db)) (\<lambda>x. Inr (SI_Owner x))) (\<lambda>owner.
      res_bind (res_fold (store_output (Job_ID job) owner) db (build_outputs b)) (\<lambda>db1.
      if Job_Purpose job = ''artifact_prepare'' then
        (case RJ_Intent row of None \<Rightarrow> Inl (Err ''preparation intent missing'') | Some i \<Rightarrow>
         res_bind (deref (BuildReport_SubmissionDisk b)) (\<lambda>disk.
         Inr (db1\<lparr>PD_intents := update_where (\<lambda>x. SI_ID x = i \<and> SI_Status x = ''quarantine_pending'')
           (\<lambda>x. x\<lparr>SI_Disk := Some (Ref_Digest disk), SI_Status := ''ready'', SI_Findings := []\<rparr>) (PD_intents db1)\<rparr>)))
      else
        (case RJ_Preflight row of None \<Rightarrow> Inl (Err ''preflight id missing'') | Some p \<Rightarrow>
         commit_preflight sv env dr now job run b digest version owner p db1)))))))"

section \<open>Submissions\<close>

definition disagreement :: "RunnerJob \<Rightarrow> string" where
  "disagreement job = (if performance_job job then ''measurement_inconclusive'' else ''nondeterministic'')"

definition confirmed_score :: "'k service \<Rightarrow> RunnerJob \<Rightarrow> RunReceipt \<Rightarrow> RunReceipt \<Rightarrow> string res" where
  "confirmed_score sv job first run =
     (if performance_job job then ConfirmMeasuredRuns (Env_NFC (SE_claims sv)) (Env_Marshal (SE_claims sv)) (Env_Decode (SE_claims sv)) first run (Job_Manifest job)
      else ConfirmedScore (Run_ScoreTicks first) (Run_ScoreTicks run) (Manifest_Metric (Job_Manifest job)))"

text \<open>Outcome and score of a submission from its primary and its confirmation run.\<close>

definition compare_runs :: "'k service \<Rightarrow> RunnerJob \<Rightarrow> RunReceipt \<Rightarrow> RunReceipt \<Rightarrow> string \<times> string" where
  "compare_runs sv job first run =
     (if Run_Outcome run \<noteq> Run_Outcome first then (disagreement job, [])
      else if Run_Outcome run = ''valid'' then
        (case confirmed_score sv job first run of Inl _ \<Rightarrow> (disagreement job, []) | Inr score \<Rightarrow> (''valid'', score))
      else (Run_Outcome run, Run_ScoreTicks run))"

definition confirm :: "'k service \<Rightarrow> runnerIdentity \<Rightarrow> RunnerJob \<Rightarrow> RunReceipt \<Rightarrow> platform_db \<Rightarrow> (string \<times> string) res" where
  "confirm sv host job run db =
     (case results_for ''submission'' (Job_SubmissionID job) db of [] \<Rightarrow> Inl (Err ''no rows in result set'') | primary # _ \<Rightarrow>
      let first = RR_Result primary in
      if JobVerificationPolicy job = VerificationIndependent \<and> Run_HostGroup first = Host_Group host then http_fail ''confirmation_not_independent''
      else if Run_JobID first = Run_JobID run \<or> Run_ID first = Run_ID run \<or> Run_CreatedAt first > Run_CreatedAt run
      then http_fail ''confirmation_not_fresh''
      else Inr (compare_runs sv job first run))"

definition settle_row :: "string \<Rightarrow> string option \<Rightarrow> submission \<Rightarrow> submission" where
  "settle_row outcome score s = s\<lparr>Sub_Status := ''validated'', Sub_Outcome := outcome, Sub_Score := score\<rparr>"

definition pause_intake :: "string \<Rightarrow> platform_db \<Rightarrow> platform_db" where
  "pause_intake version db = db\<lparr>PD_versions := update_where (\<lambda>v. CV_ID v = version) (\<lambda>v. v\<lparr>CV_Intake := ''paused''\<rparr>) (PD_versions db)\<rparr>"

definition settle :: "string \<Rightarrow> string \<Rightarrow> string \<times> string \<Rightarrow> platform_db \<Rightarrow> platform_db res" where
  "settle version sid = (\<lambda>(outcome, score) db.
     res_bind (if score \<noteq> [] \<and> outcome = ''valid'' then res_bind (numeric_column score) (\<lambda>t. Inr (Some t)) else Inr None) (\<lambda>tick.
     let db1 = db\<lparr>PD_submissions := update_where (\<lambda>s. Sub_ID s = sid) (settle_row outcome tick) (PD_submissions db)\<rparr>;
         db2 = (if outcome = ''nondeterministic'' then pause_intake version db1 else db1)
     in Inr (enqueue ''adjudicate'' sid db2)))"

definition confirmation_job :: "run_draws \<Rightarrow> runnerIdentity \<Rightarrow> RunnerJob \<Rightarrow> RunnerJob" where
  "confirmation_job dr host job = job\<lparr>Job_ID := RD_job dr, Job_CreatedAt := RD_created dr, Job_Purpose := ''confirmation'',
     Job_RequiredHostGroup := [], Job_ExcludedHostIDs := (if JobVerificationPolicy job = VerificationIndependent then [Host_ID host] else []),
     Job_FencingToken := 1\<rparr>"

definition start_confirmation :: "run_draws \<Rightarrow> go_time \<Rightarrow> runnerIdentity \<Rightarrow> RunnerJob \<Rightarrow> string \<Rightarrow> platform_db \<Rightarrow> platform_db res" where
  "start_confirmation dr now host job version db =
     res_bind (insert_job (new_job (confirmation_job dr host job) ''confirmation'' version (Some (Job_SubmissionID job)) None None
       (if JobVerificationPolicy job = VerificationIndependent then Some (Host_Group host) else None) now) db) (\<lambda>db1.
     Inr (db1\<lparr>PD_submissions := update_where (\<lambda>s. Sub_ID s = Job_SubmissionID job) (\<lambda>s. s\<lparr>Sub_Status := ''confirmation_running''\<rparr>) (PD_submissions db1)\<rparr>))"

definition record_fault :: "'k service \<Rightarrow> string \<Rightarrow> string \<Rightarrow> platform_db \<Rightarrow> platform_db res" where
  "record_fault sv version sid db =
     audit_event sv ''challenge.incident'' [(''versionId'', JStr version),
         (''reason'', JStr ''A locked checker fault requires version-wide resolution; receipt ordering remains blocked.'')]
       (pause_intake version (db\<lparr>PD_submissions := update_where (\<lambda>s. Sub_ID s = sid)
         (\<lambda>s. s\<lparr>Sub_Status := ''challenge_fault'', Sub_Outcome := ''pending''\<rparr>) (PD_submissions db)\<rparr>))"

definition advance_submission ::
    "'k service \<Rightarrow> run_draws \<Rightarrow> go_time \<Rightarrow> runnerIdentity \<Rightarrow> RunnerJob \<Rightarrow> RunReceipt \<Rightarrow> string \<Rightarrow> platform_db \<Rightarrow> (run_reply \<times> platform_db) res" where
  "advance_submission sv dr now host job run version db =
     (let sid = Job_SubmissionID job in
      if Run_Outcome run = ''challenge_fault'' then res_bind (record_fault sv version sid db) (\<lambda>db'. Inr (Incident, db'))
      else if Run_Outcome run = ''valid'' \<and> Job_Purpose job = ''submission'' then
        res_bind (start_confirmation dr now host job version db) (\<lambda>db'. Inr (Accepted False, db'))
      else
        res_bind (if Job_Purpose job = ''confirmation'' then confirm sv host job run db else Inr (Run_Outcome run, Run_ScoreTicks run)) (\<lambda>verdict.
        res_bind (settle version sid verdict db) (\<lambda>db'. Inr (Accepted True, db'))))"

section \<open>The transaction\<close>

definition receipt_owner :: "platform_db \<Rightarrow> RunnerJob \<Rightarrow> string \<Rightarrow> string res" where
  "receipt_owner db job version =
     (if Job_Purpose job = ''artifact_prepare'' then
        res_bind (select_row (\<lambda>j. RJ_ID j = Job_ID job) (PD_jobs db)) (\<lambda>j.
        res_bind (select_row (\<lambda>i. RJ_Intent j = Some (SI_ID i)) (PD_intents db)) (\<lambda>i. Inr (SI_Owner i)))
      else if Job_SubmissionID job \<noteq> [] then
        res_bind (select_row (\<lambda>s. Sub_ID s = Job_SubmissionID job) (PD_submissions db)) (\<lambda>s. Inr (Sub_Owner s))
      else res_bind (select_row (\<lambda>v. CV_ID v = version) (PD_versions db)) (\<lambda>v. Inr (CV_Owner v)))"

definition retry_row :: "runnerIdentity \<Rightarrow> runner_job \<Rightarrow> runner_job" where
  "retry_row host j = j\<lparr>RJ_Status := ''queued'', RJ_Fence := RJ_Fence j + 1, RJ_Host := None, RJ_Lease := None,
     RJ_Payload := exclude_host (Host_ID host) (RJ_Payload j)\<rparr>"

definition complete_row :: "runner_job \<Rightarrow> runner_job" where
  "complete_row j = j\<lparr>RJ_Status := ''complete'', RJ_Lease := None\<rparr>"

definition store_result ::
    "runnerIdentity \<Rightarrow> RunnerJob \<Rightarrow> Envelope \<Rightarrow> RunReceipt \<Rightarrow> string \<Rightarrow> string \<Rightarrow> platform_db \<Rightarrow> platform_db res" where
  "store_result host job envelope run digest version db =
     res_bind (insert_row (\<lambda>r. RR_Job r = Job_ID job \<or> RR_Digest r = digest)
       \<lparr>RR_Job = Job_ID job, RR_Host = Host_ID host, RR_Digest = digest, RR_Envelope = envelope, RR_Result = run\<rparr> (PD_results db)) (\<lambda>results.
     res_bind (receipt_owner db job version) (\<lambda>owner.
     let db1 = saveReceipt digest (DocRun run) owner False (db\<lparr>PD_results := results\<rparr>)
     in Inr (db1\<lparr>PD_jobs := update_where (\<lambda>j. RJ_ID j = Job_ID job) complete_row (PD_jobs db1)\<rparr>)))"

definition accept_run ::
    "'k service \<Rightarrow> runner_env \<Rightarrow> run_draws \<Rightarrow> go_time \<Rightarrow> runnerIdentity \<Rightarrow> Envelope \<Rightarrow> RunReceipt \<Rightarrow> string \<Rightarrow> runner_job \<Rightarrow> platform_db \<Rightarrow> (run_reply \<times> platform_db) res" where
  "accept_run sv env dr now host envelope run digest row db =
     (let job = RJ_Payload row; version = RJ_Version row in
      res_bind (check_outcome sv now host job run) (\<lambda>_.
      res_bind (store_result host job envelope run digest version db) (\<lambda>db1.
      if preparation (Job_Purpose job) then
        res_bind (commitBuild sv env dr now job run digest version db1) (\<lambda>db2. Inr (Accepted True, db2))
      else advance_submission sv dr now host job run version db1)))"

definition duplicate_run :: "string \<Rightarrow> RunReceipt \<Rightarrow> platform_db \<Rightarrow> (run_reply \<times> platform_db) res" where
  "duplicate_run digest run db =
     res_bind (select_row (\<lambda>r. RR_Job r = Run_JobID run) (PD_results db)) (\<lambda>r.
     if RR_Digest r \<noteq> digest then http_fail ''result_conflict'' else Inr (Duplicate, db))"

definition commit_run ::
    "'k service \<Rightarrow> runner_env \<Rightarrow> run_draws \<Rightarrow> go_time \<Rightarrow> runnerIdentity \<Rightarrow> Envelope \<Rightarrow> string \<Rightarrow> RunReceipt \<Rightarrow> string \<Rightarrow> platform_db \<Rightarrow> (run_reply \<times> platform_db) res" where
  "commit_run sv env dr now host envelope token run digest db =
     res_bind (select_row (\<lambda>j. RJ_ID j = Run_JobID run) (PD_jobs db)) (\<lambda>row.
     res_bind (case RJ_Token row of None \<Rightarrow> Inl (Err ''cannot scan NULL into *string'') | Some h \<Rightarrow> Inr h) (\<lambda>expected.
     if hash_hex sv token \<noteq> expected then http_fail ''result_capability_invalid''
     else if RJ_Status row = ''complete'' then duplicate_run digest run db
     else if \<not> lease_held now host run row then http_fail ''stale_runner_lease'' else
     res_bind (Digest sv (DocJob (RJ_Payload row))) (\<lambda>jobDigest.
     if \<not> run_bound (RJ_Payload row) jobDigest run then http_fail ''run_bindings_mismatch''
     else if Run_Outcome run = ''infrastructure_fault'' then
       Inr (Retrying, db\<lparr>PD_jobs := update_where (\<lambda>j. RJ_ID j = Run_JobID run) (retry_row host) (PD_jobs db)\<rparr>)
     else accept_run sv env dr now host envelope run digest row db)))"

text \<open>\<open>order\<close> is the order in which the objects of a build are verified.  What that verification wrote stays written when the
  transaction fails.\<close>

definition runnerResult ::
    "'k service \<Rightarrow> runner_env \<Rightarrow> run_draws \<Rightarrow> go_time \<Rightarrow> runnerIdentity \<Rightarrow> string \<Rightarrow> Envelope \<Rightarrow> string \<Rightarrow> string list \<Rightarrow> platform_db \<Rightarrow> run_reply res \<times> platform_db" where
  "runnerResult sv env dr now host jid envelope token order db =
     (case receive_run sv now host jid envelope of Inl e \<Rightarrow> (Inl e, db) | Inr (run, digest) \<Rightarrow>
      case (case Run_BuildReport run of None \<Rightarrow> (Inr (), db) | Some b \<Rightarrow> verifyBuildObjects env (Run_JobID run) b order db) of
        (Inl e, db1) \<Rightarrow> (Inl e, db1)
      | (Inr _, db1) \<Rightarrow>
        (case commit_run sv env dr now host envelope token run digest db1 of Inl e \<Rightarrow> (Inl e, db1) | Inr (reply, db2) \<Rightarrow> (Inr reply, db2)))"

end
