(* ===== verification/Intake.thy ===== *)
theory Intake
  imports Hosts Adjudication
begin

text \<open>
  Intents, acceptance and publication (\<open>internal/platform/submissions.go\<close>).  Each definition is the business function a
  handler passes to \<open>mutate\<close>, which runs it in one transaction; it returns the status code and the identifier in the
  response with the new tables.
\<close>

section \<open>Intents\<close>

text \<open>The tables in the form the admission tickets were modelled on.\<close>

definition admission_view :: "platform_db \<Rightarrow> admission_db" where
  "admission_view db = \<lparr>DB_Versions = map (\<lambda>v. \<lparr>Version_ID = CV_ID v, Version_Manifest = CV_Manifest v,
       Version_LockDigest = (case CV_LockDigest v of None \<Rightarrow> [] | Some d \<Rightarrow> d),
       Version_Public = (case Option.bind (CV_Frontier v) (\<lambda>sid. find (\<lambda>s. Sub_ID s = sid) (PD_submissions db)) of
         None \<Rightarrow> [] | Some s \<Rightarrow> (case Sub_Score s of None \<Rightarrow> [] | Some t \<Rightarrow> t)),
       Version_IntakeStatus = CV_Intake v, Version_Deadline = CV_Deadline v, Version_Status = CV_Status v\<rparr>) (PD_versions db),
     DB_Submissions = map (\<lambda>s. (Sub_Version s, Sub_Artifact s)) (PD_submissions db), DB_Tickets = PD_tickets db\<rparr>"

definition attribution_ok :: "(string, json) gomap \<Rightarrow> bool" where
  "attribution_ok m = list_all (\<lambda>(k, v).
     if k = ''model'' \<or> k = ''harness'' \<or> k = ''disclosure'' then (case v of JStr text \<Rightarrow> len text \<le> 2000 | _ \<Rightarrow> False)
     else if k = ''platformSeeded'' then (case v of JBool _ \<Rightarrow> True | _ \<Rightarrow> False)
     else False) m"

text \<open>Remote preparations of an owner that are under way; \<open>elsewhere\<close> counts candidates and review requests.\<close>

definition active_preparations :: "platform_db \<Rightarrow> string \<Rightarrow> int \<Rightarrow> int" where
  "active_preparations db owner elsewhere =
     tally (\<lambda>i. SI_Owner i = owner \<and> SI_Status i \<in> {''github_fetch'', ''quarantine_pending'', ''ready''}) (PD_intents db)
     + tally (\<lambda>p. PF_Status p \<in> {''queued'', ''waiting_for_quarantine'', ''independent_confirmation''} \<and>
         list_ex (\<lambda>v. CV_ID v = PF_Version p \<and> CV_Owner v = owner) (PD_versions db)) (PD_preflights db)
     + elsewhere"

definition new_intent :: "string \<Rightarrow> string \<Rightarrow> IntentRequest \<Rightarrow> submission_intent" where
  "new_intent iid owner r = \<lparr>SI_ID = iid, SI_Version = Intent_VersionID r, SI_Owner = owner, SI_Repository = Intent_Repository r,
     SI_Ref = Intent_Ref r, SI_Artifact = None, SI_Disk = None, SI_Status = ''github_fetch'',
     SI_Request = r\<lparr>Intent_Attribution := Some (case Intent_Attribution r of None \<Rightarrow> [] | Some a \<Rightarrow> a)\<rparr>, SI_Findings = [], SI_Submission = None\<rparr>"

definition same_snapshot :: "string \<Rightarrow> IntentRequest \<Rightarrow> submission_intent \<Rightarrow> bool" where
  "same_snapshot owner r i = (SI_Owner i = owner \<and> SI_Version i = Intent_VersionID r \<and> SI_Repository i = Intent_Repository r \<and> SI_Ref i = Intent_Ref r)"

definition createIntent ::
    "'k service \<Rightarrow> go_time \<Rightarrow> int \<Rightarrow> string \<Rightarrow> string \<Rightarrow> string \<Rightarrow> int \<Rightarrow> IntentRequest \<Rightarrow> platform_db \<Rightarrow> (int \<times> string \<times> platform_db) res" where
  "createIntent sv now day iid owner role elsewhere r db =
     (if \<not> repoRE (Intent_Repository r) \<or> \<not> commitRE (Intent_Ref r) then http_fail ''exact_commit_required'' else
      res_bind (select_row (\<lambda>v. CV_ID v = Intent_VersionID r \<and> CV_Status v = ''published'') (PD_versions db)) (\<lambda>v.
      if \<not> (CV_Intake v = ''open'' \<and> CV_Deadline v > now) then http_fail ''intake_closed'' else
      res_bind (CV_Manifest v) (\<lambda>m.
      res_bind (requireExecutor sv now db m []) (\<lambda>_.
      if Intent_License r \<noteq> Submission_License (Manifest_Submission m) then http_fail ''license_mismatch''
      else if \<not> attribution_ok (case Intent_Attribution r of None \<Rightarrow> [] | Some a \<Rightarrow> a) then http_fail ''attribution_invalid'' else
      case find (same_snapshot owner r) (PD_intents db) of
        Some i \<Rightarrow> Inr (200, SI_ID i, db)
      | None \<Rightarrow>
        if Intent_AdmissionTicket r = [] then http_fail ''frontier_claim_required'' else
        res_bind (reservePreparation (SE_operatorLimit sv) day owner role (active_preparations db owner elsewhere) (PD_budgets db)) (\<lambda>budgets.
        res_bind (insert_row (\<lambda>i. SI_ID i = iid \<or> same_snapshot owner r i) (new_intent iid owner r) (PD_intents db)) (\<lambda>intents.
        res_bind (consumeFrontierTicket (SE_claims sv) now owner r iid (admission_view db)) (\<lambda>view.
        Inr (202, iid, enqueue ''fetch_submission'' iid
          (db\<lparr>PD_budgets := budgets, PD_intents := intents, PD_tickets := DB_Tickets view\<rparr>)))))))))"

section \<open>Acceptance\<close>

text \<open>The groups of enabled hosts for the locked profile that may run and confirm submissions.\<close>

definition eligible_hosts :: "'k service \<Rightarrow> go_time \<Rightarrow> platform_db \<Rightarrow> string \<Rightarrow> bool \<Rightarrow> runner_host list" where
  "eligible_hosts sv now db profile open_suite = filter (\<lambda>h. HR_Enabled h \<and>
     (HR_Profile h = profile \<or> list_ex (\<lambda>p. RP_Host p = HR_ID h \<and> RP_Profile p = profile \<and> RP_Enabled p \<and> enrollment_of db p \<noteq> None) (PD_profiles db)) \<and>
     ''submission'' \<in> set (HR_Purposes h) \<and> ''confirmation'' \<in> set (HR_Purposes h) \<and> (open_suite \<or> HR_EncryptionKey h \<noteq> []) \<and>
     is_ok (verifyHostDelegation sv (identity_of h) now)) (PD_hosts db)"

definition independent_groups :: "runner_host list \<Rightarrow> int" where
  "independent_groups hosts = len (remdups (map HR_Group hosts))"

definition admission_data ::
    "'k service \<Rightarrow> platform_db \<Rightarrow> string \<Rightarrow> string \<Rightarrow> string \<Rightarrow> IntentRequest \<Rightarrow> (string \<times> json) list res" where
  "admission_data sv db iid owner artifact r =
     (if Intent_AdmissionTicket r = [] then Inr [] else
      case find (\<lambda>t. Ticket_ID t = Intent_AdmissionTicket r \<and> Ticket_Intent t = Some iid \<and> Ticket_Owner t = owner
          \<and> Ticket_Artifact t = artifact \<and> Ticket_Consumed t \<noteq> None) (PD_tickets db) of
        None \<Rightarrow> http_fail ''admission_binding_mismatch''
      | Some t \<Rightarrow> res_bind (Digest sv (DocClaim (Ticket_Claim t))) (\<lambda>d.
          Inr [(''admission'', JObj [(''ticketId'', JStr (Intent_AdmissionTicket r)), (''claimDigest'', JStr d),
            (''mode'', JStr (Claim_Mode (Ticket_Claim t))), (''frontierTicks'', JStr (Ticket_Frontier t)), (''claimVerified'', JBool False)])]))"

record acceptance_draws =
  Acc_grant :: string
  Acc_submission :: string
  Acc_receipt :: string
  Acc_salt :: string
  Acc_created :: go_time

definition acceptance_receipt ::
    "'k service \<Rightarrow> acceptance_draws \<Rightarrow> string \<Rightarrow> string \<Rightarrow> string \<Rightarrow> submission_intent \<Rightarrow> string \<Rightarrow> string \<Rightarrow> int \<Rightarrow> Manifest \<Rightarrow> (string \<times> json) list \<Rightarrow> Receipt" where
  "acceptance_receipt sv dr policy commitment lock i artifact disk n m extra =
     \<lparr>Receipt_VerificationPolicy = policy, Receipt_VerificationStatus = [], Receipt_DeploymentMode = deployment sv,
      Receipt_OfficialAcceptance = (deployment sv = ''production''), Receipt_APIVersion = APIVersion,
      Receipt_Kind = ''SubmissionAcceptanceReceipt'', Receipt_ID = Acc_receipt dr, Receipt_CreatedAt = Acc_created dr,
      Receipt_Producer = ''science-ladder'', Receipt_SubjectDigest = artifact, Receipt_EconomicMode = ''none'',
      Receipt_Data = [(''submissionId'', JStr (Acc_submission dr)), (''versionId'', JStr (SI_Version i)), (''challengeLockDigest'', JStr lock),
        (''sequence'', JStr (show_int n)), (''grantId'', JStr (Acc_grant dr)), (''artifactDigest'', JStr artifact),
        (''commitment'', JStr commitment), (''commitmentSalt'', JStr (Acc_salt dr)), (''submissionDiskDigest'', JStr disk),
        (''resourceClass'', JStr (Resources_Class (Manifest_Resources m))),
        (''parentFrontierDigest'', JStr (Intent_ParentFrontierDigest (SI_Request i))),
        (''attribution'', (case Intent_Attribution (SI_Request i) of None \<Rightarrow> JNull | Some a \<Rightarrow> JObj a))] @ extra\<rparr>"

definition new_submission ::
    "acceptance_draws \<Rightarrow> submission_intent \<Rightarrow> string \<Rightarrow> string \<Rightarrow> int \<Rightarrow> string \<Rightarrow> string \<Rightarrow> submission" where
  "new_submission dr i artifact disk n digest commitment =
     \<lparr>Sub_ID = Acc_submission dr, Sub_Version = SI_Version i, Sub_Owner = SI_Owner i, Sub_Intent = SI_ID i, Sub_Artifact = artifact,
      Sub_Disk = disk, Sub_Sequence = n, Sub_Status = ''accepted'', Sub_Outcome = ''pending'', Sub_Score = None, Sub_Public = False,
      Sub_PublishRequested = Intent_Publish (SI_Request i),
      Sub_Attribution = (case Intent_Attribution (SI_Request i) of None \<Rightarrow> [] | Some a \<Rightarrow> a), Sub_Receipt = digest,
      Sub_Adjudication = None, Sub_Commitment = commitment, Sub_Salt = Acc_salt dr, Sub_Grant = Acc_grant dr, Sub_Created = Acc_created dr\<rparr>"

text \<open>The writes of an acceptance.  The unique keys are those of the tables; \<open>watermark \<le> next_sequence\<close> cannot be violated by
  raising the sequence.\<close>

definition record_acceptance ::
    "'k service \<Rightarrow> acceptance_draws \<Rightarrow> submission_intent \<Rightarrow> string \<Rightarrow> string \<Rightarrow> string \<Rightarrow> string \<Rightarrow> Manifest \<Rightarrow> int \<Rightarrow> platform_db \<Rightarrow> platform_db res" where
  "record_acceptance sv dr i artifact disk policy lock m n db =
     (let commitment = hash_hex sv (Acc_salt dr @ [CHR 0x00] @ artifact) in
      res_bind (admission_data sv db (SI_ID i) (SI_Owner i) artifact (SI_Request i)) (\<lambda>extra.
      let doc = DocReceipt (acceptance_receipt sv dr policy commitment lock i artifact disk n m extra) in
      res_bind (Digest sv doc) (\<lambda>digest.
      res_bind (insert_row (\<lambda>g. VG_ID g = Acc_grant dr \<or> VG_Owner g = SI_Owner i \<and> VG_Version g = SI_Version i \<and> VG_Artifact g = artifact)
        \<lparr>VG_ID = Acc_grant dr, VG_Owner = SI_Owner i, VG_Version = SI_Version i, VG_Artifact = artifact, VG_Status = ''reserved''\<rparr>
        (PD_grants db)) (\<lambda>grants.
      res_bind (insert_row (\<lambda>s. Sub_ID s = Acc_submission dr \<or> Sub_Intent s = SI_ID i \<or> Sub_Receipt s = digest \<or> Sub_Grant s = Acc_grant dr
          \<or> Sub_Version s = SI_Version i \<and> (Sub_Sequence s = n \<or> Sub_Artifact s = artifact))
        (new_submission dr i artifact disk n digest commitment) (PD_submissions db)) (\<lambda>subs.
      res_bind (insert_row (\<lambda>r. fst r = Acc_submission dr) (Acc_submission dr, False) (PD_reservations db)) (\<lambda>reservations.
      audit_event sv ''submission.accepted''
          [(''sequence'', JStr (show_int n)), (''commitment'', JStr commitment), (''economicMode'', JStr ''none'')]
        (enqueue ''validate_submission'' (Acc_submission dr) (saveReceipt digest doc (SI_Owner i) False
          (db\<lparr>PD_grants := grants, PD_submissions := subs, PD_reservations := reservations,
              PD_versions := update_where (\<lambda>v. CV_ID v = SI_Version i) (\<lambda>v. v\<lparr>CV_NextSequence := n\<rparr>) (PD_versions db),
              PD_intents := update_where (\<lambda>x. SI_ID x = SI_ID i)
                (\<lambda>x. x\<lparr>SI_Status := ''accepted'', SI_Submission := Some (Acc_submission dr)\<rparr>) (PD_intents db)\<rparr>)))))))))"

text \<open>The checks between reading the intent and reserving capacity.\<close>

definition check_groups :: "'k service \<Rightarrow> go_time \<Rightarrow> platform_db \<Rightarrow> Manifest \<Rightarrow> string \<Rightarrow> string \<Rightarrow> unit res" where
  "check_groups sv now db m profile policy =
     (let groups = independent_groups (eligible_hosts sv now db profile (Suite_Visibility (Manifest_Suite m) \<noteq> ''hidden'')) in
      if \<not> ValidVerificationPolicy policy then http_fail ''verification_policy_invalid''
      else if policy = VerificationIndependent \<and> groups < 2 then http_fail ''independent_runners_unavailable''
      else if groups < 1 then http_fail ''platform_runner_unavailable'' else Inr ())"

definition accept_ready ::
    "'k service \<Rightarrow> acceptance_draws \<Rightarrow> go_time \<Rightarrow> submission_intent \<Rightarrow> string \<Rightarrow> string \<Rightarrow> platform_db \<Rightarrow> (int \<times> string \<times> platform_db) res" where
  "accept_ready sv dr now i artifact disk db =
     res_bind (select_row (\<lambda>v. CV_ID v = SI_Version i) (PD_versions db)) (\<lambda>v.
     res_bind (case CV_LockDigest v of None \<Rightarrow> Inl (Err ''cannot scan NULL into *string'') | Some d \<Rightarrow> Inr d) (\<lambda>lockDigest.
     if CV_Intake v \<noteq> ''open'' \<or> CV_Deadline v \<le> now then http_fail ''intake_closed''
     else if tally (\<lambda>s. Sub_Owner s = SI_Owner i \<and> Sub_Status s \<noteq> ''finalized'') (PD_submissions db) \<ge> SE_activeLimit sv
     then http_fail ''active_limit'' else
     res_bind (CV_Manifest v) (\<lambda>m.
     case find (\<lambda>l. LK_Digest l = lockDigest) (PD_locks db) of None \<Rightarrow> http_fail ''execution_profile_unavailable'' | Some l \<Rightarrow>
     let profile = Lock_ExecutionProfileDigest (LK_Document l); policy = LockVerificationPolicy (LK_Document l) in
     res_bind (requireExecutor sv now db m profile) (\<lambda>_.
     res_bind (check_groups sv now db m profile policy) (\<lambda>_.
     case find (\<lambda>s. Sub_Version s = SI_Version i \<and> Sub_Artifact s = artifact) (PD_submissions db) of
       Some s \<Rightarrow> if Sub_Owner s = SI_Owner i then Inr (200, Sub_ID s, db) else http_fail ''artifact_duplicate''
     | None \<Rightarrow>
       if PD_reserved db + 2 > PD_maximum db then http_fail ''capacity_unavailable'' else
       res_bind (record_acceptance sv dr i artifact disk policy lockDigest m (int64 (CV_NextSequence v + 1))
           (db\<lparr>PD_reserved := PD_reserved db + 2\<rparr>)) (\<lambda>db'.
       Inr (201, Acc_submission dr, db')))))))"

text \<open>\<open>now1\<close> to \<open>now3\<close> are the times at which the production gate reads the clock.\<close>

definition acceptIntent ::
    "'k service \<Rightarrow> acceptance_draws \<Rightarrow> go_time \<times> go_time \<times> go_time \<Rightarrow> go_time \<Rightarrow> string \<Rightarrow> string \<Rightarrow> platform_db \<Rightarrow> (int \<times> string \<times> platform_db) res" where
  "acceptIntent sv dr clock now iid owner db =
     (case clock of (now1, now2, now3) \<Rightarrow>
      res_bind (checkProductionAdmission (SE_platform sv) (SE_server sv) now1 now2 now3 (PD_audit db)) (\<lambda>_.
      res_bind (select_row (\<lambda>i. SI_ID i = iid \<and> SI_Owner i = owner) (PD_intents db)) (\<lambda>i.
      case SI_Submission i of Some sid \<Rightarrow> Inr (200, sid, db) | None \<Rightarrow>
      (case (SI_Artifact i, SI_Disk i) of
         (Some artifact, Some disk) \<Rightarrow>
           if SI_Status i \<noteq> ''ready'' \<or> artifact = [] \<or> disk = [] then http_fail ''artifact_not_ready''
           else accept_ready sv dr now i artifact disk db
       | _ \<Rightarrow> http_fail ''artifact_not_ready''))))"

section \<open>Publication\<close>

definition publication_receipt ::
    "string \<Rightarrow> go_time \<Rightarrow> string \<Rightarrow> submission \<Rightarrow> string \<Rightarrow> bool \<Rightarrow> string \<times> bool \<times> string \<Rightarrow> Receipt" where
  "publication_receipt rid created version s score advance = (\<lambda>(mode, official, policy).
     \<lparr>Receipt_VerificationPolicy = policy, Receipt_VerificationStatus = verifiedStatus policy ''valid'',
      Receipt_DeploymentMode = mode, Receipt_OfficialAcceptance = official, Receipt_APIVersion = APIVersion,
      Receipt_Kind = ''SolutionPublicationReceipt'', Receipt_ID = rid, Receipt_CreatedAt = created,
      Receipt_Producer = ''science-ladder'', Receipt_SubjectDigest = Sub_Artifact s, Receipt_EconomicMode = ''none'',
      Receipt_Data = [(''versionId'', JStr version), (''submissionId'', JStr (Sub_ID s)), (''scoreTicks'', JStr score),
        (''publicFrontierAdvanced'', JBool advance)]\<rparr>)"

definition publish_rows :: "go_time \<Rightarrow> string \<Rightarrow> platform_db \<Rightarrow> platform_db" where
  "publish_rows now sid db =
     publish_results sid
      (publish_receipts (\<lambda>d. list_ex (\<lambda>s. Sub_ID s = sid \<and> (Sub_Receipt s = d \<or> Sub_Adjudication s = Some d)) (PD_submissions db))
       (publish_artifacts now (\<lambda>d. list_ex (\<lambda>s. Sub_ID s = sid \<and> (Sub_Artifact s = d \<or> Sub_Disk s = d)) (PD_submissions db))
         (db\<lparr>PD_submissions := update_where (\<lambda>s. Sub_ID s = sid) (\<lambda>s. s\<lparr>Sub_Public := True, Sub_PublishRequested := True\<rparr>) (PD_submissions db)\<rparr>)))"

definition publishSubmission ::
    "'k service \<Rightarrow> string \<Rightarrow> go_time \<Rightarrow> go_time \<Rightarrow> string \<Rightarrow> string \<Rightarrow> platform_db \<Rightarrow> (int \<times> string \<times> platform_db) res" where
  "publishSubmission sv rid created now sid owner db =
     res_bind (select_row (\<lambda>s. Sub_ID s = sid \<and> Sub_Owner s = owner) (PD_submissions db)) (\<lambda>s.
     res_bind (select_row (\<lambda>v. CV_ID v = Sub_Version s) (PD_versions db)) (\<lambda>v.
     if Sub_Status s \<noteq> ''finalized'' \<or> Sub_Outcome s \<noteq> ''valid'' then http_fail ''publication_not_ready''
     else if Sub_Public s then Inr (200, sid, db) else
     res_bind (CV_Manifest v) (\<lambda>m.
     res_bind (score_of db (CV_Frontier v) (Metric_BaselineTicks (Manifest_Metric m))) (\<lambda>frontier.
     let score = (case Sub_Score s of None \<Rightarrow> [] | Some t \<Rightarrow> t); advance = meaningful score frontier (Manifest_Metric m);
         db1 = (if advance then db\<lparr>PD_versions := update_where (\<lambda>x. CV_ID x = CV_ID v) (\<lambda>x. x\<lparr>CV_Frontier := Some sid\<rparr>) (PD_versions db)\<rparr> else db) in
     res_bind (select_row (\<lambda>r. RC_Digest r = Sub_Receipt s) (PD_receipts db1)) (\<lambda>r.
     res_bind (acceptance_of (RC_Payload r)) (\<lambda>accepted.
     let doc = DocReceipt (publication_receipt rid created (CV_ID v) s score advance accepted) in
     res_bind (Digest sv doc) (\<lambda>digest.
     res_bind (audit_event sv ''solution.published''
         [(''submissionId'', JStr sid), (''receiptDigest'', JStr digest), (''publicFrontierAdvanced'', JBool advance)]
         (publish_rows now sid (saveReceipt digest doc owner True db1))) (\<lambda>db2.
     Inr (200, sid, db2)))))))))"

end
