(* ===== verification/Versions.thy ===== *)
theory Versions
  imports Runs Intake
begin

text \<open>
  The life of a challenge version (\<open>internal/platform/creation.go\<close>, \<open>versions.go\<close>, \<open>editorial.go\<close>, \<open>metric_review.go\<close> and the suite
  checks of \<open>suites.go\<close>): adoption, preflight, lock, publication, successor versions and security migrations, and the
  decisions of editors.

  Fetching a repository, object storage and the decoder of manifests are the record \<open>source_env\<close>.  Two unique indexes guard the
  table of versions, one open version per challenge and one pending security migration per predecessor; \<open>update_versions\<close> fails
  when an update would violate them.
\<close>

record User =
  U_ID :: string
  U_Login :: string
  U_Role :: string

record Snapshot =
  Snap_RepositoryID :: int
  Snap_Commit :: string
  Snap_Private :: bool
  Snap_Files :: "(string, string) gomap"

record source_env =
  SV_store :: bool
  SV_put :: "string \<Rightarrow> string res"
  SV_nfc :: "string \<Rightarrow> bool"
  SV_url :: url_parser
  SV_cfold :: "string \<Rightarrow> string"
  SV_lower :: "int \<Rightarrow> int"
  SV_canon :: "ArtifactTree \<Rightarrow> string res"
  SV_manifest :: "string \<Rightarrow> Manifest res"
  SV_candidate :: "string \<Rightarrow> Candidate res"

section \<open>The table of versions\<close>

definition settled_statuses :: "string list" where
  "settled_statuses = [''published'', ''closed'', ''superseded'', ''compromised'', ''rejected'']"

definition pending_migration :: "challenge_version \<Rightarrow> bool" where
  "pending_migration v = (CV_Transition v = ''security_migration'' \<and> CV_Status v \<notin> set settled_statuses)"

definition version_keys_ok :: "challenge_version list \<Rightarrow> bool" where
  "version_keys_ok vs = (distinct (map CV_ID vs) \<and> distinct (map CV_Challenge (filter (\<lambda>v. CV_Intake v = ''open'') vs)) \<and>
     distinct (map CV_Predecessor (filter (\<lambda>v. pending_migration v \<and> CV_Predecessor v \<noteq> None) vs)))"

definition put_versions :: "challenge_version list \<Rightarrow> platform_db \<Rightarrow> platform_db res" where
  "put_versions vs db = (if version_keys_ok vs then Inr (db\<lparr>PD_versions := vs\<rparr>) else Inl (Err ''duplicate key value''))"

definition update_versions :: "(challenge_version \<Rightarrow> bool) \<Rightarrow> (challenge_version \<Rightarrow> challenge_version) \<Rightarrow> platform_db \<Rightarrow> platform_db res" where
  "update_versions P f db = put_versions (update_where P f (PD_versions db)) db"

definition new_version ::
    "string \<Rightarrow> string \<Rightarrow> string \<Rightarrow> string \<Rightarrow> string \<Rightarrow> string \<Rightarrow> Manifest \<Rightarrow> string option \<Rightarrow> string \<Rightarrow> string option \<Rightarrow> go_time \<Rightarrow> challenge_version" where
  "new_version vid challenge owner repository commit source m prior transition priorFrontier now =
     \<lparr>CV_ID = vid, CV_Challenge = challenge, CV_Owner = owner, CV_Repository = repository, CV_Commit = commit, CV_Manifest = Inr m,
      CV_SourceDigest = source, CV_Status = ''draft'', CV_Review = ''pending'', CV_Intake = ''unavailable'', CV_Badges = [], CV_LockDigest = None,
      CV_Deadline = Manifest_Deadline m, CV_NextSequence = 0, CV_Watermark = 0, CV_Best = None, CV_Frontier = None, CV_Predecessor = prior,
      CV_Transition = transition, CV_PriorFrontier = priorFrontier, CV_Migration = None, CV_Created = now\<rparr>"

text \<open>A new tier also gets the mapping of its version, by a trigger.\<close>

definition insert_tier :: "string \<Rightarrow> platform_db \<Rightarrow> Milestone \<Rightarrow> platform_db res" where
  "insert_tier version db m =
     res_bind (numeric_column (Milestone_ThresholdTicks m)) (\<lambda>threshold.
     res_bind (insert_row (\<lambda>t. MT_ID t = Milestone_ID m)
       \<lparr>MT_ID = Milestone_ID m, MT_Version = version, MT_Title = Milestone_Title m, MT_Threshold = threshold\<rparr> (PD_tiers db)) (\<lambda>tiers.
     res_bind (insert_row (\<lambda>x. MM_Milestone x = Milestone_ID m \<and> MM_Version x = version)
       \<lparr>MM_Milestone = Milestone_ID m, MM_Version = version, MM_Threshold = threshold\<rparr> (PD_mappings db)) (\<lambda>mappings.
     Inr (db\<lparr>PD_tiers := tiers, PD_mappings := mappings\<rparr>))))"

section \<open>Fetching\<close>

definition ParseManifest :: "source_env \<Rightarrow> string \<Rightarrow> Manifest res" where
  "ParseManifest src bytes = res_bind (SV_manifest src bytes) (\<lambda>m. res_bind (ValidateManifest (SV_nfc src) (SV_url src) m) (\<lambda>_. Inr m))"

definition ParseCandidate :: "source_env \<Rightarrow> string \<Rightarrow> Candidate res" where
  "ParseCandidate src bytes = res_bind (SV_candidate src bytes) (\<lambda>c. res_bind (ValidateCandidate (SV_nfc src) (SV_url src) c) (\<lambda>_. Inr c))"

definition snapshotBytes :: "'k service \<Rightarrow> Snapshot \<Rightarrow> string" where
  "snapshotBytes sv sn = SE_marshal sv (JObj [(''repositoryId'', JInt (Snap_RepositoryID sn)), (''sourceCommit'', JStr (Snap_Commit sn)),
     (''files'', JObj (map (\<lambda>(p, b). (p, JStr (b64_encode b))) (Snap_Files sn)))])"

text \<open>Completed requests are answered before a budget is spent again.  A row whose response is still missing cannot be read.\<close>

definition replayBeforeFetch ::
    "(string \<Rightarrow> string) \<Rightarrow> string \<Rightarrow> string \<Rightarrow> string \<Rightarrow> string \<Rightarrow> string \<Rightarrow> 'b idem_db \<Rightarrow> (int \<times> string) option res" where
  "replayBeforeFetch hash user key verb path body db =
     (if \<not> idemRE key then http_fail ''idempotency_required'' else
      case lookup (Idem_Rows db) (user, key) of None \<Rightarrow> Inr None
      | Some (previous, response) \<Rightarrow>
        (case response of None \<Rightarrow> Inl (Err ''cannot scan NULL into *int'') | Some resp \<Rightarrow>
         if previous \<noteq> request_hash hash verb path body then http_fail ''idempotency_conflict'' else Inr (Some resp)))"

definition reserveFetch :: "'k service \<Rightarrow> int \<Rightarrow> User \<Rightarrow> int \<Rightarrow> platform_db \<Rightarrow> platform_db res" where
  "reserveFetch sv day u elsewhere db =
     res_bind (reservePreparation (SE_operatorLimit sv) day (U_ID u) (U_Role u) (active_preparations db (U_ID u) elsewhere) (PD_budgets db))
       (\<lambda>b. Inr (db\<lparr>PD_budgets := b\<rparr>))"

definition open_suite :: "Manifest \<Rightarrow> User \<Rightarrow> suite_row \<Rightarrow> bool" where
  "open_suite m u h = (HS_Commitment h = Suite_Commitment (Manifest_Suite m) \<and> HS_Owner h = U_ID u \<and> HS_Revealed h = None)"

definition requireSuiteOwner :: "runner_env \<Rightarrow> platform_db \<Rightarrow> Manifest \<Rightarrow> User \<Rightarrow> unit res" where
  "requireSuiteOwner env db m u =
     (if Suite_Visibility (Manifest_Suite m) \<noteq> ''hidden'' then Inr ()
      else if RE_open env = None then http_fail ''hidden_suite_storage_unconfigured''
      else if \<not> list_ex (open_suite m u) (PD_suites db) then http_fail ''suite_commitment_unknown'' else Inr ())"

definition lockSuiteOwner :: "platform_db \<Rightarrow> Manifest \<Rightarrow> User \<Rightarrow> unit res" where
  "lockSuiteOwner db m u =
     (if Suite_Visibility (Manifest_Suite m) \<noteq> ''hidden'' then Inr ()
      else if \<not> list_ex (open_suite m u) (PD_suites db) then http_fail ''suite_not_available'' else Inr ())"

section \<open>Adoption\<close>

definition importCandidate ::
    "'k service \<Rightarrow> source_env \<Rightarrow> int \<Rightarrow> User \<Rightarrow> int \<Rightarrow> string \<Rightarrow> string \<Rightarrow> platform_db \<Rightarrow> (int \<times> string \<times> platform_db) res" where
  "importCandidate sv src day u elsewhere cid text db =
     res_bind (or_else (ParseCandidate src text) (Errf ''candidate_invalid'' [])) (\<lambda>c.
     res_bind (Digest sv (DocCandidate c)) (\<lambda>digest.
     case find (\<lambda>x. CA_Owner x = U_ID u \<and> CA_Digest x = digest) (PD_candidates db) of Some x \<Rightarrow> Inr (200, CA_ID x, db) | None \<Rightarrow>
     res_bind (reserveFetch sv day u elsewhere db) (\<lambda>db1.
     res_bind (insert_row (\<lambda>x. CA_ID x = cid) \<lparr>CA_ID = cid, CA_Owner = U_ID u, CA_Digest = digest, CA_Document = c, CA_Status = ''resolving_sources'',
       CA_Findings = []\<rparr> (PD_candidates db1)) (\<lambda>candidates.
     Inr (202, cid, enqueue ''resolve_candidate'' cid (db1\<lparr>PD_candidates := candidates\<rparr>))))))"

definition adopt_challenge ::
    "'k service \<Rightarrow> go_time \<Rightarrow> string \<Rightarrow> string \<Rightarrow> User \<Rightarrow> string \<Rightarrow> string \<Rightarrow> string \<Rightarrow> string \<Rightarrow> string \<Rightarrow> int \<Rightarrow> Manifest \<Rightarrow> platform_db \<Rightarrow> (int \<times> string \<times> platform_db) res" where
  "adopt_challenge sv now cid vid u candidate repository commit statement source bytes m db =
     res_bind (lockSuiteOwner db m u) (\<lambda>_.
     let db1 = add_artifact source source bytes ''application/json'' (U_ID u) db in
     res_bind (insert_row (\<lambda>c. CH_ID c = cid \<or> CH_Slug c = Manifest_Slug m)
       \<lparr>CH_ID = cid, CH_Slug = Manifest_Slug m, CH_Owner = U_ID u, CH_Candidate = candidate, CH_Adoption = statement\<rparr> (PD_challenges db1)) (\<lambda>challenges.
     res_bind (put_versions (PD_versions db1 @ [new_version vid cid (U_ID u) repository commit source m None ''season'' None now])
       (db1\<lparr>PD_challenges := challenges\<rparr>)) (\<lambda>db2.
     res_bind (res_fold (insert_tier vid) db2 (Manifest_Milestones m)) (\<lambda>db3.
     res_bind (audit_event sv ''challenge.adopted'' [(''versionId'', JStr vid), (''creator'', JStr (U_Login u))] db3) (\<lambda>db4.
     Inr (201, vid, db4))))))"

text \<open>\<open>fetched\<close> is the snapshot of the repository and \<open>replayed\<close> what \<open>replayBeforeFetch\<close> found.  The budget is spent in a
  transaction of its own, before the fetch.\<close>

definition createChallenge ::
    "'k service \<Rightarrow> runner_env \<Rightarrow> source_env \<Rightarrow> int \<Rightarrow> go_time \<Rightarrow> string \<Rightarrow> string \<Rightarrow> User \<Rightarrow> int \<Rightarrow> string \<Rightarrow> string \<Rightarrow> string \<Rightarrow> string
      \<Rightarrow> (int \<times> string) option res \<Rightarrow> Snapshot res \<Rightarrow> platform_db \<Rightarrow> (int \<times> string) res \<times> platform_db" where
  "createChallenge sv env src day now cid vid u elsewhere candidate repository ref statement replayed fetched db =
     (if len (trim_space statement) < 20 then (http_fail ''adoption_required'', db)
      else if \<not> SV_store src then (http_fail ''storage_unavailable'', db)
      else case find (\<lambda>c. CA_ID c = candidate \<and> CA_Owner c = U_ID u) (PD_candidates db) of
        None \<Rightarrow> (Inl (Err ''no rows in result set''), db) | Some c \<Rightarrow>
      if CA_Status c \<noteq> ''ready'' \<and> CA_Status c \<noteq> ''human_review_required'' then (http_fail ''candidate_not_ready'', db)
      else case replayed of Inl e \<Rightarrow> (Inl e, db) | Inr (Some resp) \<Rightarrow> (Inr resp, db) | Inr None \<Rightarrow>
      case reserveFetch sv day u elsewhere db of Inl e \<Rightarrow> (Inl e, db) | Inr db1 \<Rightarrow>
      case res_bind fetched (\<lambda>sn.
          if Snap_Private sn then http_fail ''public_repository_required'' else
          res_bind (case lookup (Snap_Files sn) ''science-ladder.yaml'' of None \<Rightarrow> http_fail ''manifest_missing'' | Some b \<Rightarrow> Inr b) (\<lambda>b.
          res_bind (or_else (ParseManifest src b) (Errf ''manifest_invalid'' [])) (\<lambda>m.
          res_bind (requireSuiteOwner env db1 m u) (\<lambda>_.
          if Manifest_Deadline m \<le> now then http_fail ''deadline_passed'' else
          res_bind (SV_put src (snapshotBytes sv sn)) (\<lambda>source.
          adopt_challenge sv now cid vid u candidate repository ref statement source (len (snapshotBytes sv sn)) m db1))))) of
        Inl e \<Rightarrow> (Inl e, db1) | Inr (status, response, db2) \<Rightarrow> (Inr (status, response), db2))"

definition ownedVersion :: "User \<Rightarrow> string \<Rightarrow> platform_db \<Rightarrow> (challenge_version \<times> Manifest) res" where
  "ownedVersion u vid db =
     res_bind (select_row (\<lambda>v. CV_ID v = vid \<and> CV_Owner v = U_ID u) (PD_versions db)) (\<lambda>v.
     res_bind (CV_Manifest v) (\<lambda>m. Inr (v, m)))"

definition startPreflight ::
    "'k service \<Rightarrow> int \<Rightarrow> go_time \<Rightarrow> User \<Rightarrow> int \<Rightarrow> string \<Rightarrow> string \<Rightarrow> platform_db \<Rightarrow> (int \<times> string \<times> platform_db) res" where
  "startPreflight sv day now u elsewhere pid vid db =
     res_bind (reserveFetch sv day u elsewhere db) (\<lambda>db1.
     res_bind (ownedVersion u vid db1) (\<lambda>(v, m).
     res_bind (requireExecutor sv now db1 m []) (\<lambda>_.
     if CV_Status v \<noteq> ''draft'' \<and> CV_Status v \<noteq> ''changes_required'' then http_fail ''preflight_state_invalid'' else
     res_bind (insert_row (\<lambda>p. PF_ID p = pid) \<lparr>PF_ID = pid, PF_Version = vid, PF_Status = ''queued'', PF_Findings = [], PF_Report = None,
       PF_Receipt = None, PF_Created = now\<rparr> (PD_preflights db1)) (\<lambda>preflights.
     res_bind (update_versions (\<lambda>x. CV_ID x = vid) (\<lambda>x. x\<lparr>CV_Status := ''machine_preflight''\<rparr>) (db1\<lparr>PD_preflights := preflights\<rparr>)) (\<lambda>db2.
     Inr (202, pid, enqueue ''preflight'' pid db2))))))"

section \<open>Locking\<close>

definition json_field :: "string \<Rightarrow> json \<Rightarrow> json option" where
  "json_field k j = (case j of JObj xs \<Rightarrow> lookup xs k | _ \<Rightarrow> None)"

definition json_text :: "string list \<Rightarrow> json \<Rightarrow> string option" where
  "json_text path j = (case fold (\<lambda>k o'. Option.bind o' (json_field k)) path (Some j) of Some (JStr s) \<Rightarrow> Some s | _ \<Rightarrow> None)"

definition latest_review :: "review_run list \<Rightarrow> review_run option" where
  "latest_review rows = find (\<lambda>r. list_all (\<lambda>x. RV_Created x < RV_Created r \<or> RV_Created x = RV_Created r \<and> RV_ID x \<le> RV_ID r) rows) rows"

definition metricReviewAccepted :: "platform_db \<Rightarrow> string \<Rightarrow> string \<Rightarrow> bool" where
  "metricReviewAccepted db vid manifestDigest =
     (let latest = latest_review (filter (\<lambda>r. RV_Version r = vid \<and> RV_Kind r = ''scientific-legibility'') (PD_reviews db)) in
      (case latest of None \<Rightarrow> False | Some r \<Rightarrow> json_text [''manifestDigest''] (RV_Report r) = Some manifestDigest \<and>
         json_text [''review'', ''metricAssessment'', ''decision''] (RV_Report r) = Some ''accepted'') \<or>
      list_ex (\<lambda>r. RV_Version r = vid \<and> RV_Kind r = ''scientific-metric'' \<and> RV_Status r = ''accepted'' \<and>
        json_text [''manifestDigest''] (RV_Report r) = Some manifestDigest \<and>
        (case latest of None \<Rightarrow> True | Some l \<Rightarrow> RV_Created r \<ge> RV_Created l)) (PD_reviews db))"

definition latest_pass :: "string \<Rightarrow> platform_db \<Rightarrow> preflight_row option" where
  "latest_pass vid db = (let rows = filter (\<lambda>p. PF_Version p = vid \<and> PF_Status p = ''pass'') (PD_preflights db) in
     find (\<lambda>p. list_all (\<lambda>x. PF_Created x \<le> PF_Created p) rows) rows)"

text \<open>The policy and status of the conformance receipt, which must be signed.\<close>

definition signed_conformance :: "string \<Rightarrow> platform_db \<Rightarrow> (string \<times> string) res" where
  "signed_conformance digest db =
     (case find (\<lambda>r. RC_Digest r = digest \<and> RC_Envelope r \<noteq> None) (PD_receipts db) of None \<Rightarrow> http_fail ''signed_conformance_required''
      | Some r \<Rightarrow> (case RC_Payload r of
          DocReceipt x \<Rightarrow> Inr (if Receipt_VerificationPolicy x = [] then VerificationIndependent else Receipt_VerificationPolicy x,
            if Receipt_VerificationStatus x = [] then ''independently_replicated'' else Receipt_VerificationStatus x)
        | DocRun x \<Rightarrow> Inr (if Run_VerificationPolicy x = [] then VerificationIndependent else Run_VerificationPolicy x, ''independently_replicated'')
        | _ \<Rightarrow> Inr (VerificationIndependent, ''independently_replicated'')))"

definition new_lock ::
    "'k service \<Rightarrow> string \<Rightarrow> go_time \<Rightarrow> challenge_version \<Rightarrow> Manifest \<Rightarrow> string \<Rightarrow> BuildReport \<Rightarrow> string list \<Rightarrow> Lock" where
  "new_lock sv lid created v m manifestDigest b reviews =
     \<lparr>Lock_VerificationPolicy = ManifestVerificationPolicy m,
      Lock_SuiteDiskDigest = (case BuildReport_SuiteDisk b of None \<Rightarrow> [] | Some r \<Rightarrow> Ref_Digest r),
      Lock_DeploymentMode = deployment sv, Lock_OfficialAcceptance = False, Lock_APIVersion = APIVersion, Lock_Kind = ''ChallengeLockReceipt'',
      Lock_ID = lid, Lock_CreatedAt = created, Lock_Producer = ''science-ladder'', Lock_ManifestDigest = manifestDigest,
      Lock_SourceSnapshotDigest = CV_SourceDigest v, Lock_ValidatorImageDigest = Validator_RuntimeImageDigest (Manifest_Validator m),
      Lock_ValidatorDiskDigest = BuildReport_ValidatorDiskDigest b, Lock_SuiteDigest = BuildReport_SuiteDigest b,
      Lock_ExecutionProfileDigest = BuildReport_ExecutionProfileDigest b, Lock_ReviewDigests = reviews, Lock_EconomicMode = ''none'', Lock_Manifest = m\<rparr>"

definition lockChallenge ::
    "'k service \<Rightarrow> string \<Rightarrow> go_time \<Rightarrow> User \<Rightarrow> string \<Rightarrow> platform_db \<Rightarrow> (int \<times> string \<times> platform_db) res" where
  "lockChallenge sv lid created u vid db =
     res_bind (ownedVersion u vid db) (\<lambda>(v, m).
     if CV_Status v \<noteq> ''review_ready'' then http_fail ''preflight_incomplete''
     else if CV_Review v \<noteq> ''automated_pass'' \<and> CV_Review v \<noteq> ''human_approved'' then http_fail ''review_required'' else
     case latest_pass vid db of None \<Rightarrow> http_fail ''machine_conformance_required'' | Some p \<Rightarrow>
     case PF_Receipt p of None \<Rightarrow> http_fail ''machine_conformance_required'' | Some machine \<Rightarrow>
     res_bind (signed_conformance machine db) (\<lambda>(machinePolicy, machineStatus).
     let policy = ManifestVerificationPolicy m in
     if \<not> ValidVerificationPolicy policy \<or> machinePolicy \<noteq> policy \<or> machineStatus \<noteq> verifiedStatus policy ''valid''
     then http_fail ''conformance_policy_mismatch'' else
     res_bind (Digest sv (DocManifest m)) (\<lambda>manifestDigest.
     if Manifest_APIVersion m = ManifestV2 \<and> \<not> metricReviewAccepted db vid manifestDigest then http_fail ''scientific_metric_review_required'' else
     res_bind (case PF_Report p of None \<Rightarrow> Inl (Err ''cannot unmarshal array into Go value'') | Some b \<Rightarrow> Inr b) (\<lambda>b.
     let lock = new_lock sv lid created v m manifestDigest b
           (machine # map RV_Digest (filter (\<lambda>r. RV_Version r = vid) (PD_reviews db))) in
     if Lock_ValidatorDiskDigest lock = [] \<or> Lock_SuiteDigest lock = [] \<or> Lock_SuiteDiskDigest lock = [] \<or> Lock_ExecutionProfileDigest lock = []
     then http_fail ''conformance_bindings_missing'' else
     res_bind (Digest sv (DocLock lock)) (\<lambda>digest.
     res_bind (insert_row (\<lambda>l. LK_Digest l = digest \<or> LK_Version l = vid) \<lparr>LK_Digest = digest, LK_Version = vid, LK_Document = lock\<rparr> (PD_locks db)) (\<lambda>locks.
     res_bind (update_versions (\<lambda>x. CV_ID x = vid) (\<lambda>x. x\<lparr>CV_Status := ''locked'', CV_LockDigest := Some digest\<rparr>)
       (saveReceipt digest (DocLock lock) (U_ID u) False (db\<lparr>PD_locks := locks\<rparr>))) (\<lambda>db1.
     Inr (200, digest, db1))))))))"

section \<open>Publication\<close>

definition publish_sources :: "go_time \<Rightarrow> challenge_version \<Rightarrow> Manifest \<Rightarrow> platform_db \<Rightarrow> platform_db" where
  "publish_sources now v m db =
     (let jobs = filter (\<lambda>j. RJ_Version j = CV_ID v \<and> RJ_Purpose j = ''preflight'') (PD_jobs db);
          db1 = db\<lparr>PD_artifacts := update_where (\<lambda>a. AF_Digest a = CV_SourceDigest v) (\<lambda>a. a\<lparr>AF_Public := Some now\<rparr>) (PD_artifacts db)\<rparr>;
          db2 = publish_receipts (\<lambda>d. CV_LockDigest v = Some d) db1;
          db3 = publish_receipts (\<lambda>d. list_ex (\<lambda>p. PF_Version p = CV_ID v \<and> PF_Receipt p = Some d) (PD_preflights db) \<or>
            list_ex (\<lambda>r. RR_Digest r = d \<and> list_ex (\<lambda>j. RJ_ID j = RR_Job r) jobs) (PD_results db)) db2
      in publish_artifacts now (\<lambda>d. list_ex (\<lambda>u. UP_Digest u = d \<and> UP_Verified u \<and> list_ex (\<lambda>j. RJ_ID j = UP_Job u) jobs \<and>
           (UP_Role u \<noteq> ''suiteDisk'' \<or> Suite_Visibility (Manifest_Suite m) = ''public'')) (PD_uploads db)) db3)"

definition publishVersion :: "'k service \<Rightarrow> go_time \<Rightarrow> string \<Rightarrow> Manifest \<Rightarrow> platform_db \<Rightarrow> platform_db res" where
  "publishVersion sv now vid m db =
     (if Manifest_Deadline m \<le> now then http_fail ''deadline_passed'' else
      res_bind (update_versions (\<lambda>v. CV_ID v = vid) (\<lambda>v. v\<lparr>CV_Status := ''published'', CV_Intake := ''open''\<rparr>) db) (\<lambda>db1.
      let db2 = (case find (\<lambda>v. CV_ID v = vid) (PD_versions db1) of None \<Rightarrow> db1 | Some v \<Rightarrow> publish_sources now v m db1) in
      audit_event sv ''challenge.published'' [(''versionId'', JStr vid), (''economicMode'', JStr ''none'')] db2))"

definition frontier_artifact :: "platform_db \<Rightarrow> challenge_version \<Rightarrow> string" where
  "frontier_artifact db v = (case Option.bind (CV_Frontier v) (\<lambda>sid. find (\<lambda>s. Sub_ID s = sid) (PD_submissions db)) of
     None \<Rightarrow> [] | Some s \<Rightarrow> Sub_Artifact s)"

definition migration_receipt ::
    "'k service \<Rightarrow> string \<Rightarrow> go_time \<Rightarrow> string \<Rightarrow> string \<Rightarrow> string \<Rightarrow> int \<Rightarrow> string \<Rightarrow> string \<Rightarrow> json \<Rightarrow> Receipt" where
  "migration_receipt sv rid created vid lock prior watermark frontier conformance milestones =
     \<lparr>Receipt_VerificationPolicy = [], Receipt_VerificationStatus = [], Receipt_DeploymentMode = deployment sv, Receipt_OfficialAcceptance = False,
      Receipt_APIVersion = APIVersion, Receipt_Kind = ''ChallengeMigrationReceipt'', Receipt_ID = rid, Receipt_CreatedAt = created,
      Receipt_Producer = ''science-ladder'', Receipt_SubjectDigest = lock, Receipt_EconomicMode = ''none'',
      Receipt_Data = [(''versionId'', JStr vid), (''previousVersionId'', JStr prior), (''oldFinalWatermark'', JStr (show_int watermark)),
        (''priorFrontierDigest'', JStr frontier), (''conformanceReceiptDigest'', JStr conformance), (''milestones'', milestones),
        (''policy'', JStr ''pause-drain-reproduce-lock-transfer-v1'')]\<rparr>"

definition drained :: "platform_db \<Rightarrow> challenge_version \<Rightarrow> string \<Rightarrow> bool" where
  "drained db v frontier = (CV_NextSequence v = CV_Watermark v \<and> (CV_Intake v = ''paused'' \<or> CV_Intake v = ''closed'') \<and> frontier = frontier_artifact db v)"

definition prior_digest :: "challenge_version \<Rightarrow> string" where
  "prior_digest v = (case CV_PriorFrontier v of None \<Rightarrow> [] | Some d \<Rightarrow> d)"

definition text_column :: "string option \<Rightarrow> string res" where
  "text_column c = (case c of None \<Rightarrow> Inl (Err ''cannot scan NULL into *string'') | Some s \<Rightarrow> Inr s)"

text \<open>\<open>milestones\<close> is the JSON form of the manifest's milestones.\<close>

definition stageMigration ::
    "'k service \<Rightarrow> string \<Rightarrow> go_time \<Rightarrow> User \<Rightarrow> json \<Rightarrow> string \<Rightarrow> platform_db \<Rightarrow> (string \<times> platform_db) res" where
  "stageMigration sv rid created u milestones vid db =
     res_bind (select_row (\<lambda>v. CV_ID v = vid) (PD_versions db)) (\<lambda>v.
     res_bind (text_column (CV_Predecessor v)) (\<lambda>prior.
     res_bind (text_column (CV_LockDigest v)) (\<lambda>lock.
     res_bind (select_row (\<lambda>x. CV_ID x = prior) (PD_versions db)) (\<lambda>p.
     if \<not> drained db p (prior_digest v) then http_fail ''migration_predecessor_changed'' else
     res_bind (case latest_pass vid db of None \<Rightarrow> Inl (Err ''no rows in result set'') | Some x \<Rightarrow> text_column (PF_Receipt x)) (\<lambda>conformance.
     let doc = DocReceipt (migration_receipt sv rid created vid lock prior (CV_Watermark p) (prior_digest v) conformance milestones) in
     res_bind (Digest sv doc) (\<lambda>digest.
     res_bind (update_versions (\<lambda>x. CV_ID x = vid) (\<lambda>x. x\<lparr>CV_Status := ''migration_signing'', CV_Migration := Some digest\<rparr>)
       (saveReceipt digest doc (U_ID u) False db)) (\<lambda>db1.
     Inr (digest, enqueue ''complete_migration'' vid db1))))))))"

definition publishChallenge ::
    "'k service \<Rightarrow> string \<Rightarrow> go_time \<Rightarrow> go_time \<Rightarrow> User \<Rightarrow> json \<Rightarrow> string \<Rightarrow> platform_db \<Rightarrow> (int \<times> string \<times> platform_db) res" where
  "publishChallenge sv rid created now u milestones vid db =
     res_bind (ownedVersion u vid db) (\<lambda>(v, m).
     if CV_Status v \<noteq> ''locked'' then http_fail ''lock_required'' else
     res_bind (select_row (\<lambda>r. CV_LockDigest v = Some (RC_Digest r)) (PD_receipts db)) (\<lambda>r.
     if RC_Envelope r = None then http_fail ''signature_pending''
     else if CV_Transition v = ''security_migration'' then
       res_bind (stageMigration sv rid created u milestones vid db) (\<lambda>(digest, db1). Inr (202, digest, db1))
     else res_bind (publishVersion sv now vid m db) (\<lambda>db1. Inr (200, vid, db1))))"

section \<open>Migration\<close>

definition migration_evidence :: "document \<Rightarrow> int \<Rightarrow> string \<Rightarrow> string \<Rightarrow> string \<Rightarrow> bool" where
  "migration_evidence d watermark predecessor vid frontier = (case d of
     DocReceipt r \<Rightarrow> (let text = (\<lambda>k. case lookup (Receipt_Data r) k of Some (JStr s) \<Rightarrow> Some s | _ \<Rightarrow> None) in
       text ''oldFinalWatermark'' = Some (show_int watermark) \<and> text ''previousVersionId'' = Some predecessor \<and>
       text ''versionId'' = Some vid \<and> text ''priorFrontierDigest'' = Some frontier)
   | _ \<Rightarrow> False)"

definition transfer_milestone :: "string \<Rightarrow> string \<Rightarrow> platform_db \<Rightarrow> Milestone \<Rightarrow> platform_db res" where
  "transfer_milestone vid predecessor db m =
     res_bind (select_row (\<lambda>t. MT_ID t = Milestone_ID m) (PD_tiers db)) (\<lambda>t.
     if list_ex (\<lambda>c. MC_Milestone c = Milestone_ID m) (PD_claims db) then http_fail ''milestone_already_claimed''
     else if MT_Version t = vid then Inr db
     else if \<not> list_ex (\<lambda>x. MM_Milestone x = Milestone_ID m \<and> MM_Version x = predecessor) (PD_mappings db)
     then http_fail ''milestone_predecessor_mismatch'' else
     res_bind (numeric_column (Milestone_ThresholdTicks m)) (\<lambda>threshold.
     res_bind (insert_row (\<lambda>x. MM_Milestone x = Milestone_ID m \<and> MM_Version x = vid)
       \<lparr>MM_Milestone = Milestone_ID m, MM_Version = vid, MM_Threshold = threshold\<rparr> (PD_mappings db)) (\<lambda>mappings.
     Inr (db\<lparr>PD_mappings := mappings\<rparr>))))"

definition completeMigration :: "'k service \<Rightarrow> go_time \<Rightarrow> string \<Rightarrow> platform_db \<Rightarrow> platform_db res" where
  "completeMigration sv now vid db =
     res_bind (select_row (\<lambda>v. CV_ID v = vid) (PD_versions db)) (\<lambda>v.
     res_bind (text_column (CV_Predecessor v)) (\<lambda>predecessor.
     res_bind (select_row (\<lambda>x. CV_ID x = predecessor) (PD_versions db)) (\<lambda>p.
     res_bind (text_column (CV_Migration v)) (\<lambda>receipt.
     if CV_Status v = ''published'' then Inr db
     else if CV_Status v \<noteq> ''migration_signing'' then http_fail ''migration_state_invalid''
     else if \<not> drained db p (prior_digest v) then http_fail ''migration_predecessor_changed'' else
     res_bind (select_row (\<lambda>r. RC_Digest r = receipt) (PD_receipts db)) (\<lambda>r.
     if RC_Envelope r = None then http_fail ''migration_signature_pending''
     else if \<not> migration_evidence (RC_Payload r) (CV_Watermark p) predecessor vid (prior_digest v) then http_fail ''migration_evidence_changed'' else
     res_bind (CV_Manifest v) (\<lambda>m.
     res_bind (res_fold (transfer_milestone vid predecessor) db (Manifest_Milestones m)) (\<lambda>db1.
     res_bind (update_versions (\<lambda>x. CV_ID x = predecessor) (\<lambda>x. x\<lparr>CV_Status := ''superseded'', CV_Intake := ''closed''\<rparr>) db1) (\<lambda>db2.
     res_bind (publishVersion sv now vid m (publish_receipts (\<lambda>d. d = receipt) db2)) (\<lambda>db3.
     audit_event sv ''challenge.migrated'' [(''versionId'', JStr vid), (''previousVersionId'', JStr predecessor),
       (''migrationReceiptDigest'', JStr receipt), (''previousWatermark'', JStr (show_int (CV_Watermark p)))] db3)))))))))"

section \<open>Successors\<close>

definition verifyFrontierFixture :: "'k service \<Rightarrow> source_env \<Rightarrow> (string, string) gomap \<Rightarrow> Manifest \<Rightarrow> string \<Rightarrow> unit res" where
  "verifyFrontierFixture sv src files m expected =
     (case declared_fixture m ''previous_frontier'' of None \<Rightarrow> http_fail ''frontier_fixture_required'' | Some f \<Rightarrow>
      if Fixture_ExpectedOutcome f \<noteq> ''valid'' \<or> Fixture_ExpectedTicks f = [] then http_fail ''frontier_fixture_required'' else
      let pre = trim_suffix (Fixture_Path f) ''/'' @ ''/'';
          selected = map (\<lambda>(p, b). (drop (length pre) p, b)) (filter (\<lambda>(p, _). prefix pre p) files) in
      case ArtifactFromFiles (SV_nfc src) (SV_cfold src) (SV_lower src) (Sha (scrypto sv)) (SV_canon src) selected (Manifest_Submission m) of
        Inl _ \<Rightarrow> http_fail ''frontier_fixture_mismatch''
      | Inr (_, digest) \<Rightarrow> if digest \<noteq> expected then http_fail ''frontier_fixture_mismatch'' else Inr ())"

definition latest_version :: "string \<Rightarrow> platform_db \<Rightarrow> challenge_version option" where
  "latest_version challenge db = (let rows = filter (\<lambda>v. CV_Challenge v = challenge) (PD_versions db) in
     find (\<lambda>v. list_all (\<lambda>x. CV_Created x \<le> CV_Created v) rows) rows)"

definition carry_milestone :: "string \<Rightarrow> string \<Rightarrow> string \<Rightarrow> string \<Rightarrow> platform_db \<Rightarrow> Milestone \<Rightarrow> platform_db res" where
  "carry_milestone challenge vid prior transition db m =
     (case Option.bind (find (\<lambda>t. MT_ID t = Milestone_ID m) (PD_tiers db)) (\<lambda>t. find (\<lambda>v. CV_ID v = MT_Version t) (PD_versions db)) of
        None \<Rightarrow> insert_tier vid db m
      | Some old \<Rightarrow>
        if transition \<noteq> ''security_migration'' then http_fail ''new_milestone_ids_required''
        else if CV_Challenge old \<noteq> challenge \<or> list_ex (\<lambda>c. MC_Milestone c = Milestone_ID m) (PD_claims db) then http_fail ''milestone_not_transferable''
        else if \<not> list_ex (\<lambda>x. MM_Milestone x = Milestone_ID m \<and> MM_Version x = prior) (PD_mappings db) then http_fail ''milestone_predecessor_mismatch''
        else Inr db)"

definition add_version ::
    "'k service \<Rightarrow> go_time \<Rightarrow> string \<Rightarrow> User \<Rightarrow> string \<Rightarrow> string \<Rightarrow> string \<Rightarrow> string \<Rightarrow> string \<Rightarrow> string \<Rightarrow> string \<Rightarrow> string \<Rightarrow> int \<Rightarrow> Manifest \<Rightarrow> platform_db
      \<Rightarrow> (int \<times> string \<times> platform_db) res" where
  "add_version sv now vid u challenge priorID priorFrontier transition repository commit statement source bytes m db =
     res_bind (lockSuiteOwner db m u) (\<lambda>_.
     res_bind (select_row (\<lambda>c. CH_ID c = challenge \<and> CH_Owner c = U_ID u) (PD_challenges db)) (\<lambda>_.
     res_bind (case latest_version challenge db of None \<Rightarrow> Inl (Err ''no rows in result set'') | Some p \<Rightarrow> Inr p) (\<lambda>p.
     if CV_ID p \<noteq> priorID \<or> frontier_artifact db p \<noteq> priorFrontier then http_fail ''predecessor_changed''
     else if transition = ''security_migration'' \<and> CV_Intake p \<noteq> ''paused'' \<and> CV_Intake p \<noteq> ''closed'' then http_fail ''migration_pause_required''
     else if CV_NextSequence p \<noteq> CV_Watermark p then http_fail ''prior_receipts_unresolved''
     else if CV_Status p = ''machine_preflight'' then http_fail ''preflight_running'' else
     res_bind (put_versions (PD_versions db @ [new_version vid challenge (U_ID u) repository commit source m (Some priorID) transition (Some priorFrontier) now])
       (add_artifact source source bytes ''application/json'' (U_ID u) db)) (\<lambda>db1.
     res_bind (res_fold (carry_milestone challenge vid priorID transition) db1 (Manifest_Milestones m)) (\<lambda>db2.
     res_bind (if transition = ''season'' then
         update_versions (\<lambda>v. CV_ID v = priorID) (\<lambda>v. v\<lparr>CV_Status := ''superseded'', CV_Intake := ''closed''\<rparr>) db2 else Inr db2) (\<lambda>db3.
     res_bind (audit_event sv ''challenge.version_created'' [(''versionId'', JStr vid), (''previousVersionId'', JStr priorID),
         (''previousWatermark'', JInt (CV_Watermark p)), (''economicMode'', JStr ''none'')]
       (db3\<lparr>PD_challenges := update_where (\<lambda>c. CH_ID c = challenge) (\<lambda>c. c\<lparr>CH_Adoption := statement\<rparr>) (PD_challenges db3)\<rparr>)) (\<lambda>db4.
     Inr (201, vid, db4))))))))"

text \<open>\<open>db1\<close> is the state in which the fetched source is committed; between the checks and it the predecessor may have changed.\<close>

definition check_successor :: "'k service \<Rightarrow> runner_env \<Rightarrow> source_env \<Rightarrow> go_time \<Rightarrow> User \<Rightarrow> string \<Rightarrow> string \<Rightarrow> string \<Rightarrow> Snapshot \<Rightarrow> platform_db \<Rightarrow> Manifest res" where
  "check_successor sv env src now u slug transition priorFrontier sn db =
     (if Snap_Private sn then http_fail ''public_repository_required'' else
      res_bind (or_else (ParseManifest src (case lookup (Snap_Files sn) ''science-ladder.yaml'' of None \<Rightarrow> [] | Some b \<Rightarrow> b)) (Errf ''manifest_invalid'' [])) (\<lambda>m.
      res_bind (requireSuiteOwner env db m u) (\<lambda>_.
      if Manifest_Slug m \<noteq> slug then http_fail ''slug_mismatch''
      else if Manifest_Deadline m \<le> now then http_fail ''deadline_passed'' else
      res_bind (if transition = ''security_migration'' \<and> priorFrontier \<noteq> [] then verifyFrontierFixture sv src (Snap_Files sn) m priorFrontier else Inr ()) (\<lambda>_.
      Inr m))))"

definition createVersion ::
    "'k service \<Rightarrow> runner_env \<Rightarrow> source_env \<Rightarrow> int \<Rightarrow> go_time \<Rightarrow> string \<Rightarrow> User \<Rightarrow> int \<Rightarrow> string \<Rightarrow> string \<Rightarrow> string \<Rightarrow> string \<Rightarrow> string
      \<Rightarrow> (int \<times> string) option res \<Rightarrow> Snapshot res \<Rightarrow> platform_db \<Rightarrow> (int \<times> string) res \<times> platform_db" where
  "createVersion sv env src day now vid u elsewhere challenge repository ref statement kind replayed fetched db =
     (let transition = (if kind = [] then ''season'' else kind) in
      if transition \<noteq> ''season'' \<and> transition \<noteq> ''security_migration'' then (http_fail ''transition_invalid'', db) else
      case find (\<lambda>c. CH_ID c = challenge \<and> CH_Owner c = U_ID u) (PD_challenges db) of None \<Rightarrow> (Inl (Err ''no rows in result set''), db) | Some c \<Rightarrow>
      case latest_version challenge db of None \<Rightarrow> (Inl (Err ''no rows in result set''), db) | Some p \<Rightarrow>
      if CV_NextSequence p \<noteq> CV_Watermark p then (http_fail ''prior_receipts_unresolved'', db)
      else if transition = ''security_migration'' \<and> CV_Intake p \<noteq> ''paused'' \<and> CV_Intake p \<noteq> ''closed'' then (http_fail ''migration_pause_required'', db)
      else if \<not> SV_store src then (http_fail ''storage_unavailable'', db)
      else if len statement < 20 then (http_fail ''adoption_required'', db)
      else case replayed of Inl e \<Rightarrow> (Inl e, db) | Inr (Some resp) \<Rightarrow> (Inr resp, db) | Inr None \<Rightarrow>
      case reserveFetch sv day u elsewhere db of Inl e \<Rightarrow> (Inl e, db) | Inr db1 \<Rightarrow>
      case res_bind fetched (\<lambda>sn.
          res_bind (check_successor sv env src now u (CH_Slug c) transition (frontier_artifact db p) sn db1) (\<lambda>m.
          res_bind (SV_put src (snapshotBytes sv sn)) (\<lambda>source.
          add_version sv now vid u challenge (CV_ID p) (frontier_artifact db p) transition repository ref statement source (len (snapshotBytes sv sn)) m db1))) of
        Inl e \<Rightarrow> (Inl e, db1) | Inr (status, response, db2) \<Rightarrow> (Inr (status, response), db2))"

section \<open>Editors\<close>

record MetricAssessment =
  MA_Decision :: string
  MA_ScientificConnection :: string
  MA_PreservedConditions :: string
  MA_ShortcutAnalysis :: string
  MA_ClaimScope :: string

definition validateMetricAssessment :: "MetricAssessment option \<Rightarrow> unit res" where
  "validateMetricAssessment a = (case a of None \<Rightarrow> Inl (Err ''an explicit scientific metric assessment is required'') | Some a \<Rightarrow>
     fail_if (MA_Decision a \<noteq> ''accepted'' \<and> MA_Decision a \<noteq> ''needs_work'' \<and> MA_Decision a \<noteq> ''unsupported'') ''unknown metric assessment decision''
     (res_each (\<lambda>s. fail_if (len (trim_space s) < 20 \<or> len s > 8192)
        ''metric assessment must address scientific connection, preserved conditions, a concrete shortcut and claim scope'' (Inr ()))
      [MA_ScientificConnection a, MA_PreservedConditions a, MA_ShortcutAnalysis a, MA_ClaimScope a]))"

definition editor :: "User option \<Rightarrow> bool" where
  "editor u = (case u of None \<Rightarrow> False | Some u \<Rightarrow> U_Role u = ''editor'' \<or> U_Role u = ''operator'')"

definition set_badge :: "string \<Rightarrow> string list \<Rightarrow> string list" where
  "set_badge b badges = filter (\<lambda>x. x \<noteq> b) badges @ [b]"

text \<open>The guard and the effect of the statement of each action; \<open>None\<close> for an unknown one.\<close>

definition editor_update :: "go_time \<Rightarrow> string \<Rightarrow> ((challenge_version \<Rightarrow> bool) \<times> (challenge_version \<Rightarrow> challenge_version)) option" where
  "editor_update now action =
     (if action = ''approve_review'' then Some (\<lambda>v. CV_Review v = ''human_review_required'', \<lambda>v. v\<lparr>CV_Review := ''human_approved''\<rparr>)
      else if action = ''changes_required'' then
        Some (\<lambda>v. CV_LockDigest v = None, \<lambda>v. v\<lparr>CV_Review := ''changes_required'', CV_Status := ''changes_required''\<rparr>)
      else if action = ''withdraw'' then
        Some (\<lambda>v. CV_Status v \<in> {''published'', ''closed'', ''superseded''}, \<lambda>v. v\<lparr>CV_Status := ''withdrawn'', CV_Intake := ''closed'', CV_Badges := []\<rparr>)
      else if action = ''reject'' then Some (\<lambda>_. True, \<lambda>v. v\<lparr>CV_Review := ''rejected'', CV_Intake := ''closed''\<rparr>)
      else if action = ''feature'' then Some (\<lambda>_. True, \<lambda>v. v\<lparr>CV_Badges := set_badge ''Featured'' (CV_Badges v)\<rparr>)
      else if action = ''unfeature'' then Some (\<lambda>_. True, \<lambda>v. v\<lparr>CV_Badges := filter (\<lambda>x. x \<noteq> ''Featured'') (CV_Badges v)\<rparr>)
      else if action = ''human_reviewed'' then
        Some (\<lambda>v. CV_Review v \<in> {''automated_pass'', ''human_approved''}, \<lambda>v. v\<lparr>CV_Badges := set_badge ''Human-reviewed'' (CV_Badges v)\<rparr>)
      else if action = ''pause'' then Some (\<lambda>v. CV_Status v = ''published'', \<lambda>v. v\<lparr>CV_Intake := ''paused''\<rparr>)
      else if action = ''resume'' then
        Some (\<lambda>v. CV_Status v = ''published'' \<and> CV_Intake v = ''paused'' \<and> CV_Deadline v > now, \<lambda>v. v\<lparr>CV_Intake := ''open''\<rparr>)
      else if action = ''resolve_unscorable'' \<or> action = ''compromise'' then
        Some (\<lambda>_. True, \<lambda>v. v\<lparr>CV_Status := ''compromised'', CV_Intake := ''closed''\<rparr>)
      else None)"

definition check_action :: "string \<Rightarrow> string \<Rightarrow> platform_db \<Rightarrow> unit res" where
  "check_action action vid db =
     (if action = ''resume'' \<and> list_ex (\<lambda>v. CV_Predecessor v = Some vid \<and> pending_migration v) (PD_versions db) then http_fail ''migration_pending''
      else if action = ''resolve_unscorable'' \<and> \<not> list_ex (\<lambda>s. Sub_Version s = vid \<and> Sub_Status s = ''challenge_fault'') (PD_submissions db)
      then http_fail ''checker_fault_required'' else Inr ())"

definition check_assessment :: "string \<Rightarrow> Manifest \<Rightarrow> MetricAssessment option \<Rightarrow> unit res" where
  "check_assessment action m a =
     (if action = ''approve_review'' \<and> Manifest_APIVersion m = ManifestV2 then
        res_bind (or_else (validateMetricAssessment a) (Errf ''metric_assessment_required'' [])) (\<lambda>_.
        res_bind (deref a) (\<lambda>a. if MA_Decision a \<noteq> ''accepted'' then http_fail ''metric_not_accepted'' else Inr ()))
      else if a \<noteq> None then http_fail ''metric_assessment_not_applicable'' else Inr ())"

definition assessment_json :: "MetricAssessment \<Rightarrow> json" where
  "assessment_json a = JObj [(''decision'', JStr (MA_Decision a)), (''scientificConnection'', JStr (MA_ScientificConnection a)),
     (''preservedConditions'', JStr (MA_PreservedConditions a)), (''shortcutAnalysis'', JStr (MA_ShortcutAnalysis a)), (''claimScope'', JStr (MA_ClaimScope a))]"

record decision_draws =
  DD_decision :: string
  DD_review :: string
  DD_receipt :: string
  DD_created :: go_time

definition record_assessment ::
    "'k service \<Rightarrow> decision_draws \<Rightarrow> go_time \<Rightarrow> User \<Rightarrow> string \<Rightarrow> Manifest \<Rightarrow> MetricAssessment option \<Rightarrow> platform_db \<Rightarrow> platform_db res" where
  "record_assessment sv dr now u vid m a db = (case a of None \<Rightarrow> Inr db | Some a \<Rightarrow>
     res_bind (Digest sv (DocManifest m)) (\<lambda>manifestDigest.
     let report = JObj [(''manifestDigest'', JStr manifestDigest), (''metricAssessment'', assessment_json a), (''editorDecisionId'', JStr (DD_decision dr)),
       (''editor'', JStr (U_Login u))] in
     res_bind (Digest sv (DocReport report)) (\<lambda>digest.
     res_bind (insert_row (\<lambda>r. RV_ID r = DD_review dr) \<lparr>RV_ID = DD_review dr, RV_Version = vid, RV_Kind = ''scientific-metric'', RV_Status = ''accepted'',
       RV_Report = report, RV_Digest = digest, RV_Created = now\<rparr> (PD_reviews db)) (\<lambda>reviews.
     Inr (db\<lparr>PD_reviews := reviews\<rparr>)))))"

definition unscorable_row :: "submission \<Rightarrow> submission" where
  "unscorable_row s = s\<lparr>Sub_Status := ''validated'', Sub_Outcome := ''challenge_unscorable'', Sub_Score := None\<rparr>"

definition cancel_row :: "runner_job \<Rightarrow> runner_job" where
  "cancel_row j = j\<lparr>RJ_Status := ''cancelled'', RJ_Fence := RJ_Fence j + 1, RJ_Lease := None\<rparr>"

definition resolution_receipt :: "'k service \<Rightarrow> decision_draws \<Rightarrow> User \<Rightarrow> string \<Rightarrow> string \<Rightarrow> Receipt" where
  "resolution_receipt sv dr u vid reason =
     \<lparr>Receipt_VerificationPolicy = [], Receipt_VerificationStatus = [], Receipt_DeploymentMode = deployment sv, Receipt_OfficialAcceptance = False,
      Receipt_APIVersion = APIVersion, Receipt_Kind = ''ChallengeResolutionReceipt'', Receipt_ID = DD_receipt dr, Receipt_CreatedAt = DD_created dr,
      Receipt_Producer = ''science-ladder'', Receipt_SubjectDigest = [], Receipt_EconomicMode = ''none'',
      Receipt_Data = [(''versionId'', JStr vid), (''decisionId'', JStr (DD_decision dr)), (''resolution'', JStr ''challenge_unscorable''),
        (''reason'', JStr reason), (''editor'', JStr (U_Login u))]\<rparr>"

definition resolve_unscorable :: "'k service \<Rightarrow> decision_draws \<Rightarrow> User \<Rightarrow> string \<Rightarrow> string \<Rightarrow> platform_db \<Rightarrow> platform_db res" where
  "resolve_unscorable sv dr u vid reason db =
     (let opened = (\<lambda>s. Sub_Version s = vid \<and> Sub_Status s \<noteq> ''finalized'');
          ids = map Sub_ID (filter opened (PD_submissions db));
          db1 = db\<lparr>PD_submissions := update_where opened unscorable_row (PD_submissions db),
            PD_jobs := update_where (\<lambda>j. RJ_Version j = vid \<and> RJ_Status j \<in> {''queued'', ''running'', ''attention_required''}) cancel_row (PD_jobs db)\<rparr>;
          doc = DocReceipt (resolution_receipt sv dr u vid reason)
      in res_bind (Digest sv doc) (\<lambda>digest. Inr (saveReceipt digest doc (U_ID u) True (fold (enqueue ''adjudicate'') ids db1))))"

definition editorDecision ::
    "'k service \<Rightarrow> decision_draws \<Rightarrow> go_time \<Rightarrow> User \<Rightarrow> string \<Rightarrow> string \<Rightarrow> string \<Rightarrow> MetricAssessment option \<Rightarrow> platform_db \<Rightarrow> (int \<times> string \<times> platform_db) res" where
  "editorDecision sv dr now u vid action reason a db =
     (if \<not> editor (Some u) then http_fail ''editor_required''
      else if len (trim_space reason) < 20 then http_fail ''reason_required'' else
      res_bind (select_row (\<lambda>v. CV_ID v = vid) (PD_versions db)) (\<lambda>v.
      res_bind (CV_Manifest v) (\<lambda>m.
      res_bind (check_assessment action m a) (\<lambda>_.
      res_bind (check_action action vid db) (\<lambda>_.
      case editor_update now action of None \<Rightarrow> http_fail ''action_invalid'' | Some (guard, effect) \<Rightarrow>
      if \<not> guard v then http_fail ''action_not_applicable'' else
      res_bind (update_versions (\<lambda>x. CV_ID x = vid) effect db) (\<lambda>db1.
      res_bind (insert_row (\<lambda>d. ED_ID d = DD_decision dr)
        \<lparr>ED_ID = DD_decision dr, ED_Version = vid, ED_Editor = U_ID u, ED_Action = action, ED_Reason = reason\<rparr> (PD_decisions db1)) (\<lambda>decisions.
      res_bind (record_assessment sv dr now u vid m a (db1\<lparr>PD_decisions := decisions\<rparr>)) (\<lambda>db2.
      res_bind (if action = ''resolve_unscorable'' then resolve_unscorable sv dr u vid reason db2 else Inr db2) (\<lambda>db3.
      res_bind (audit_event sv (''editorial.'' @ action) [(''decisionId'', JStr (DD_decision dr)), (''editor'', JStr (U_Login u)), (''reason'', JStr reason)] db3) (\<lambda>db4.
      Inr (201, DD_decision dr, db4)))))))))))"

end
