(* ===== verification/Effects.thy ===== *)
theory Effects
  imports Versions
begin

text \<open>
  What each handler does to the tables that carry the outcome of submissions.  \<open>core\<close> collects submissions, jobs, results, claims
  and reserved capacity; \<open>numbers\<close> the identifier and the sequence numbers of each version.  Most handlers leave both
  alone; the others are described by one lemma each, on which the invariants of the platform rest.
\<close>

definition core ::
    "platform_db \<Rightarrow> submission list \<times> runner_job list \<times> runner_result list \<times> milestone_claim list \<times> int \<times> (string \<times> bool) list \<times> int" where
  "core db = (PD_submissions db, PD_jobs db, PD_results db, PD_claims db, PD_reserved db, PD_reservations db, PD_maximum db)"

definition number :: "challenge_version \<Rightarrow> string \<times> int \<times> int" where
  "number v = (CV_ID v, CV_NextSequence v, CV_Watermark v)"

definition numbers :: "platform_db \<Rightarrow> (string \<times> int \<times> int) list" where
  "numbers db = map number (PD_versions db)"

definition quiet :: "platform_db \<Rightarrow> platform_db \<Rightarrow> bool" where
  "quiet db db' \<longleftrightarrow> core db' = core db \<and> numbers db' = numbers db"

lemma quiet_refl [simp]: "quiet db db"
  by (simp add: quiet_def)

lemma quiet_trans [trans]: "quiet a b \<Longrightarrow> quiet b c \<Longrightarrow> quiet a c"
  by (simp add: quiet_def)

lemma quiet_fields:
  assumes "quiet db db'"
  shows "PD_submissions db' = PD_submissions db" "PD_jobs db' = PD_jobs db" "PD_results db' = PD_results db" "PD_claims db' = PD_claims db"
    "PD_reserved db' = PD_reserved db" "PD_reservations db' = PD_reservations db" "PD_maximum db' = PD_maximum db" "numbers db' = numbers db"
  using assms by (simp_all add: quiet_def core_def)

text \<open>What the accounts of the platform are about: which submission got which number, whether it was adjudicated, and the capacity
  it holds.\<close>

definition entry :: "submission \<Rightarrow> string \<times> string \<times> int \<times> bool" where
  "entry s = (Sub_ID s, Sub_Version s, Sub_Sequence s, Sub_Adjudication s \<noteq> None)"

definition ledger :: "platform_db \<Rightarrow> (string \<times> string \<times> int \<times> bool) list \<times> (string \<times> bool) list \<times> int \<times> int \<times> (string \<times> int \<times> int) list" where
  "ledger db = (map entry (PD_submissions db), PD_reservations db, PD_reserved db, PD_maximum db, numbers db)"

lemma quiet_ledger: "quiet db db' \<Longrightarrow> ledger db' = ledger db"
  by (simp add: ledger_def quiet_fields)

lemma map_entry_update [simp]: "(\<And>s. entry (f s) = entry s) \<Longrightarrow> map entry (update_where P f subs) = map entry subs"
  by (rule map_update_where) simp

section \<open>Shared statements\<close>

lemma numbers_update [simp]:
  assumes "\<And>v. number (f v) = number v"
  shows "map number (update_where P f vs) = map number vs"
  by (rule map_update_where) (simp add: assms)

lemma number_updates [simp]:
  "number (v\<lparr>CV_Status := a\<rparr>) = number v" "number (v\<lparr>CV_Review := b\<rparr>) = number v" "number (v\<lparr>CV_Intake := c\<rparr>) = number v"
  "number (v\<lparr>CV_Badges := d\<rparr>) = number v" "number (v\<lparr>CV_LockDigest := e\<rparr>) = number v" "number (v\<lparr>CV_Migration := g\<rparr>) = number v"
  "number (v\<lparr>CV_Frontier := h\<rparr>) = number v" "number (v\<lparr>CV_Best := i\<rparr>) = number v"
  by (simp_all add: number_def)

lemma core_updates [simp]:
  "core (db\<lparr>PD_budgets := x1\<rparr>) = core db" "core (db\<lparr>PD_intents := x2\<rparr>) = core db" "core (db\<lparr>PD_tickets := x3\<rparr>) = core db"
  "core (db\<lparr>PD_versions := x4\<rparr>) = core db" "core (db\<lparr>PD_preflights := x5\<rparr>) = core db" "core (db\<lparr>PD_receipts := x6\<rparr>) = core db"
  "core (db\<lparr>PD_audit := x7\<rparr>) = core db" "core (db\<lparr>PD_uploads := x8\<rparr>) = core db" "core (db\<lparr>PD_candidates := x9\<rparr>) = core db"
  "core (db\<lparr>PD_challenges := x10\<rparr>) = core db" "core (db\<lparr>PD_tiers := x11\<rparr>) = core db" "core (db\<lparr>PD_mappings := x12\<rparr>) = core db"
  "core (db\<lparr>PD_locks := x13\<rparr>) = core db" "core (db\<lparr>PD_decisions := x14\<rparr>) = core db" "core (db\<lparr>PD_reviews := x15\<rparr>) = core db"
  "core (db\<lparr>PD_artifacts := x16\<rparr>) = core db" "core (db\<lparr>PD_queue := x17\<rparr>) = core db" "core (db\<lparr>PD_grants := x18\<rparr>) = core db"
  by (simp_all add: core_def)

lemma numbers_updates [simp]:
  "numbers (db\<lparr>PD_budgets := x1\<rparr>) = numbers db" "numbers (db\<lparr>PD_intents := x2\<rparr>) = numbers db" "numbers (db\<lparr>PD_tickets := x3\<rparr>) = numbers db"
  "numbers (db\<lparr>PD_preflights := x5\<rparr>) = numbers db" "numbers (db\<lparr>PD_receipts := x6\<rparr>) = numbers db"
  "numbers (db\<lparr>PD_audit := x7\<rparr>) = numbers db" "numbers (db\<lparr>PD_uploads := x8\<rparr>) = numbers db" "numbers (db\<lparr>PD_candidates := x9\<rparr>) = numbers db"
  "numbers (db\<lparr>PD_challenges := x10\<rparr>) = numbers db" "numbers (db\<lparr>PD_tiers := x11\<rparr>) = numbers db" "numbers (db\<lparr>PD_mappings := x12\<rparr>) = numbers db"
  "numbers (db\<lparr>PD_locks := x13\<rparr>) = numbers db" "numbers (db\<lparr>PD_decisions := x14\<rparr>) = numbers db" "numbers (db\<lparr>PD_reviews := x15\<rparr>) = numbers db"
  "numbers (db\<lparr>PD_artifacts := x16\<rparr>) = numbers db" "numbers (db\<lparr>PD_queue := x17\<rparr>) = numbers db" "numbers (db\<lparr>PD_grants := x18\<rparr>) = numbers db"
  "numbers (db\<lparr>PD_submissions := x19\<rparr>) = numbers db" "numbers (db\<lparr>PD_jobs := x20\<rparr>) = numbers db" "numbers (db\<lparr>PD_results := x21\<rparr>) = numbers db"
  "numbers (db\<lparr>PD_versions := vs\<rparr>) = map number vs"
  by (simp_all add: numbers_def)

lemma quiet_statements [simp]:
  "quiet db (enqueue k r db)" "quiet db (saveReceipt d doc owner pub db)" "quiet db (publish_receipts P db)" "quiet db (publish_artifacts now Q db)"
  "quiet db (publish_results sid db)" "quiet db (add_artifact a b n media owner db)" "quiet db (pause_intake vid db)" "quiet db (mark_verified jid role db)"
  by (simp_all add: quiet_def enqueue_def saveReceipt_def publish_receipts_def publish_artifacts_def publish_results_def
    add_artifact_def pause_intake_def mark_verified_def numbers_def [symmetric])

lemma quiet_updates [simp]:
  "quiet db (db\<lparr>PD_budgets := x1\<rparr>)" "quiet db (db\<lparr>PD_intents := x2\<rparr>)" "quiet db (db\<lparr>PD_tickets := x3\<rparr>)"
  "quiet db (db\<lparr>PD_preflights := x5\<rparr>)" "quiet db (db\<lparr>PD_receipts := x6\<rparr>)" "quiet db (db\<lparr>PD_audit := x7\<rparr>)" "quiet db (db\<lparr>PD_uploads := x8\<rparr>)"
  "quiet db (db\<lparr>PD_candidates := x9\<rparr>)" "quiet db (db\<lparr>PD_challenges := x10\<rparr>)" "quiet db (db\<lparr>PD_tiers := x11\<rparr>)" "quiet db (db\<lparr>PD_mappings := x12\<rparr>)"
  "quiet db (db\<lparr>PD_locks := x13\<rparr>)" "quiet db (db\<lparr>PD_decisions := x14\<rparr>)" "quiet db (db\<lparr>PD_reviews := x15\<rparr>)" "quiet db (db\<lparr>PD_artifacts := x16\<rparr>)"
  by (simp_all add: quiet_def)

lemma audit_event_quiet: "audit_event sv k p db = Inr db' \<Longrightarrow> quiet db db'"
  by (auto simp: audit_event_def res_simps)

lemma update_versions_quiet:
  assumes "update_versions P f db = Inr db'" and "\<And>v. number (f v) = number v"
  shows "quiet db db'"
  using assms(1) by (auto simp: update_versions_def put_versions_def quiet_def numbers_def numbers_update [OF assms(2)] split: if_splits)

lemma reserveFetch_quiet: "reserveFetch sv day u n db = Inr db' \<Longrightarrow> quiet db db'"
  by (auto simp: reserveFetch_def res_simps)

lemma res_fold_quiet:
  assumes "res_fold f db xs = Inr db'" "\<And>db x db'. f db x = Inr db' \<Longrightarrow> quiet db db'"
  shows "quiet db db'"
  by (rule res_fold_inv [OF assms(1), where P = "quiet db"]) (auto intro: quiet_trans assms(2))

section \<open>Quiet handlers\<close>

lemma if_fail: "(if c then http_fail e else r) = Inr y \<longleftrightarrow> \<not> c \<and> r = Inr y"
  by (simp add: http_fail_def)

lemma if_Inl: "(if c then Inl e else r) = Inr y \<longleftrightarrow> \<not> c \<and> r = Inr y"
  by simp

lemma option_fail:
  "(case o' of None \<Rightarrow> http_fail e | Some x \<Rightarrow> f x) = Inr y \<longleftrightarrow> (\<exists>x. o' = Some x \<and> f x = Inr y)"
  "(case o' of None \<Rightarrow> Inl e' | Some x \<Rightarrow> f x) = Inr y \<longleftrightarrow> (\<exists>x. o' = Some x \<and> f x = Inr y)"
  by (simp_all add: http_fail_def split: option.split)

lemma res_bind_E:
  assumes "res_bind r f = Inr y"
  obtains x where "r = Inr x" "f x = Inr y"
  using assms by (auto simp: res_bind_Inr_iff)

lemmas handler_simps = res_bind_Inr_iff if_fail if_Inl option_fail insert_row_Inr select_row_Inr case_prod_beta Let_def

lemma createIntent_quiet:
  assumes "createIntent sv now day iid owner role n r db = Inr (st, i, db')"
  shows "quiet db db'"
proof -
  have "quiet db (enqueue ''fetch_submission'' iid (db\<lparr>PD_budgets := b, PD_intents := ins, PD_tickets := t\<rparr>))" for b ins t
    by (rule quiet_trans [OF _ quiet_statements(1)]) (simp add: quiet_def)
  then show ?thesis using assms unfolding createIntent_def handler_simps by (auto split: option.splits simp: handler_simps)
qed

lemma runnerObject_quiet:
  assumes "runnerObject sv env now host jid role digest n token db = Inr (url, db')"
  shows "quiet db db'"
  using assms unfolding runnerObject_def handler_simps put_upload_def by (auto simp: http_fail_def split: option.splits if_splits)

lemma verifyBuildObjects_quiet: "verifyBuildObjects env jid b order db = (r, db') \<Longrightarrow> quiet db db'"
proof (induction order arbitrary: db)
  case (Cons role order)
  then show ?case
    by (cases "verify_object env jid b db role") (auto split: if_splits intro: quiet_trans quiet_statements(8))
qed auto

lemma insert_tier_quiet: "insert_tier v db m = Inr db' \<Longrightarrow> quiet db db'"
  unfolding insert_tier_def handler_simps by (auto simp: quiet_def)

lemma importCandidate_quiet:
  assumes "importCandidate sv src day u n cid text db = Inr (st, i, db')"
  shows "quiet db db'"
proof -
  have q: "quiet db (enqueue ''resolve_candidate'' cid (db1\<lparr>PD_candidates := cs\<rparr>))" if "reserveFetch sv day u n db = Inr db1" for db1 cs
    using reserveFetch_quiet [OF that] by (rule quiet_trans) (rule quiet_trans [OF quiet_updates(8) quiet_statements(1)])
  from assms consider "db' = db" | db1 cs where "reserveFetch sv day u n db = Inr db1" "db' = enqueue ''resolve_candidate'' cid (db1\<lparr>PD_candidates := cs\<rparr>)"
    unfolding importCandidate_def handler_simps by (auto split: option.splits simp: handler_simps)
  then show ?thesis using q by cases auto
qed

lemma startPreflight_quiet:
  assumes "startPreflight sv day now u n pid vid db = Inr (st, i, db')"
  shows "quiet db db'"
proof -
  from assms obtain db1 ps db2 where "reserveFetch sv day u n db = Inr db1" and
    u: "update_versions (\<lambda>x. CV_ID x = vid) (\<lambda>x. x\<lparr>CV_Status := ''machine_preflight''\<rparr>) (db1\<lparr>PD_preflights := ps\<rparr>) = Inr db2" and
    e: "db' = enqueue ''preflight'' pid db2"
    unfolding startPreflight_def handler_simps by blast
  then have "quiet db db1" by (intro reserveFetch_quiet)
  also have "quiet db1 (db1\<lparr>PD_preflights := ps\<rparr>)" by simp
  also have "quiet (db1\<lparr>PD_preflights := ps\<rparr>) db2" using u by (rule update_versions_quiet) simp
  also have "quiet db2 db'" by (simp add: e)
  finally show ?thesis .
qed

lemma lockChallenge_quiet:
  assumes "lockChallenge sv lid created u vid db = Inr (st, d, db')"
  shows "quiet db db'"
proof -
  from assms obtain doc locks where
    v: "update_versions (\<lambda>x. CV_ID x = vid) (\<lambda>x. x\<lparr>CV_Status := ''locked'', CV_LockDigest := Some d\<rparr>)
      (saveReceipt d doc (U_ID u) False (db\<lparr>PD_locks := locks\<rparr>)) = Inr db'"
    unfolding lockChallenge_def handler_simps by blast
  have "quiet db (db\<lparr>PD_locks := locks\<rparr>)" by simp
  also have "quiet (db\<lparr>PD_locks := locks\<rparr>) (saveReceipt d doc (U_ID u) False (db\<lparr>PD_locks := locks\<rparr>))" by simp
  also have "quiet (saveReceipt d doc (U_ID u) False (db\<lparr>PD_locks := locks\<rparr>)) db'" using v by (rule update_versions_quiet) simp
  finally show ?thesis .
qed

lemma publish_sources_quiet [simp]: "quiet db (publish_sources now v m db)"
  unfolding publish_sources_def Let_def
  by (rule quiet_trans [OF _ quiet_statements(4)], rule quiet_trans [OF _ quiet_statements(3)], rule quiet_trans [OF _ quiet_statements(3)],
      rule quiet_updates)

lemma publishVersion_quiet:
  assumes "publishVersion sv now vid m db = Inr db'"
  shows "quiet db db'"
proof -
  from assms obtain db1 where
    u: "update_versions (\<lambda>v. CV_ID v = vid) (\<lambda>v. v\<lparr>CV_Status := ''published'', CV_Intake := ''open''\<rparr>) db = Inr db1" and
    e: "audit_event sv ''challenge.published'' [(''versionId'', JStr vid), (''economicMode'', JStr ''none'')]
      (case find (\<lambda>v. CV_ID v = vid) (PD_versions db1) of None \<Rightarrow> db1 | Some v \<Rightarrow> publish_sources now v m db1) = Inr db'"
    unfolding publishVersion_def handler_simps by blast
  have "quiet db db1" using u by (rule update_versions_quiet) simp
  also have "quiet db1 (case find (\<lambda>v. CV_ID v = vid) (PD_versions db1) of None \<Rightarrow> db1 | Some v \<Rightarrow> publish_sources now v m db1)"
    by (simp split: option.split)
  also note audit_event_quiet [OF e]
  finally show ?thesis .
qed

lemma stageMigration_quiet:
  assumes "stageMigration sv rid created u ms vid db = Inr (d, db')"
  shows "quiet db db'"
proof -
  from assms obtain doc db1 where
    v: "update_versions (\<lambda>x. CV_ID x = vid) (\<lambda>x. x\<lparr>CV_Status := ''migration_signing'', CV_Migration := Some d\<rparr>) (saveReceipt d doc (U_ID u) False db) = Inr db1"
    and e: "db' = enqueue ''complete_migration'' vid db1"
    unfolding stageMigration_def handler_simps by blast
  have "quiet db (saveReceipt d doc (U_ID u) False db)" by simp
  also have "quiet (saveReceipt d doc (U_ID u) False db) db1" using v by (rule update_versions_quiet) simp
  also have "quiet db1 db'" by (simp add: e)
  finally show ?thesis .
qed

lemma publishChallenge_quiet:
  assumes "publishChallenge sv rid created now u ms vid db = Inr (st, d, db')"
  shows "quiet db db'"
proof -
  from assms consider d' where "stageMigration sv rid created u ms vid db = Inr (d', db')" | m where "publishVersion sv now vid m db = Inr db'"
    unfolding publishChallenge_def handler_simps by (auto split: if_splits simp: handler_simps)
  then show ?thesis using stageMigration_quiet publishVersion_quiet by cases blast+
qed

lemma transfer_milestone_quiet:
  assumes "transfer_milestone vid p db m = Inr db'"
  shows "quiet db db'"
proof -
  from assms have "db' = db \<or> (\<exists>ms. db' = db\<lparr>PD_mappings := ms\<rparr>)"
    unfolding transfer_milestone_def res_bind_Inr_iff if_fail by (auto split: if_splits simp: if_fail res_bind_Inr_iff http_fail_def)
  then show ?thesis by auto
qed

lemma completeMigration_quiet:
  assumes "completeMigration sv now vid db = Inr db'"
  shows "quiet db db'"
proof -
  from assms consider "db' = db" | m p receipt db1 db2 db3 payload where
    "res_fold (transfer_milestone vid p) db (Manifest_Milestones m) = Inr db1"
    "update_versions (\<lambda>x. CV_ID x = p) (\<lambda>x. x\<lparr>CV_Status := ''superseded'', CV_Intake := ''closed''\<rparr>) db1 = Inr db2"
    "publishVersion sv now vid m (publish_receipts (\<lambda>d. d = receipt) db2) = Inr db3" "audit_event sv ''challenge.migrated'' payload db3 = Inr db'"
    unfolding completeMigration_def handler_simps by (auto split: if_splits simp: handler_simps)
  then show ?thesis
  proof cases
    case 2
    have "quiet db db1" using 2(1) by (rule res_fold_quiet) (rule transfer_milestone_quiet)
    also have "quiet db1 db2" using 2(2) by (rule update_versions_quiet) simp
    also have "quiet db2 (publish_receipts (\<lambda>d. d = receipt) db2)" by simp
    also note publishVersion_quiet [OF 2(3)]
    also note audit_event_quiet [OF 2(4)]
    finally show ?thesis .
  qed simp
qed

section \<open>New versions\<close>

text \<open>A new version starts with no submission accepted and none adjudicated.\<close>

definition grown :: "platform_db \<Rightarrow> platform_db \<Rightarrow> bool" where
  "grown db db' \<longleftrightarrow> core db' = core db \<and>
     (numbers db' = numbers db \<or> (\<exists>vid. numbers db' = numbers db @ [(vid, 0, 0)] \<and> distinct (map fst (numbers db'))))"

lemma quiet_grown: "quiet db db' \<Longrightarrow> grown db db'"
  by (simp add: quiet_def grown_def)

lemma quiet_grown_trans: "quiet a b \<Longrightarrow> grown b c \<Longrightarrow> grown a c"
  by (auto simp: quiet_def grown_def)

lemma grown_quiet_trans: "grown a b \<Longrightarrow> quiet b c \<Longrightarrow> grown a c"
  by (auto simp: quiet_def grown_def)

lemma put_new_version:
  assumes "put_versions (PD_versions db @ [new_version vid c owner rep commit source m prior transition frontier now]) db = Inr db'"
  shows "grown db db'"
proof -
  from assms have "distinct (map CV_ID (PD_versions db'))" "core db' = core db"
    "numbers db' = numbers db @ [(vid, 0, 0)]"
    by (auto simp: put_versions_def version_keys_ok_def numbers_def number_def new_version_def split: if_splits)
  moreover have "map fst (numbers db') = map CV_ID (PD_versions db')" by (simp add: numbers_def number_def)
  ultimately show ?thesis by (simp add: grown_def)
qed

lemma carry_milestone_quiet:
  assumes "carry_milestone c vid prior transition db m = Inr db'"
  shows "quiet db db'"
  using assms unfolding carry_milestone_def by (auto simp: if_fail intro: insert_tier_quiet split: option.splits)

lemma adopt_challenge_grown:
  assumes "adopt_challenge sv now cid vid u candidate rep commit statement source n m db = Inr (st, i, db')"
  shows "grown db db'"
proof -
  define db0 where "db0 = add_artifact source source n ''application/json'' (U_ID u) db"
  from assms obtain cs db2 db3 where
    p: "put_versions (PD_versions db0 @ [new_version vid cid (U_ID u) rep commit source m None ''season'' None now]) (db0\<lparr>PD_challenges := cs\<rparr>) = Inr db2" and
    t: "res_fold (insert_tier vid) db2 (Manifest_Milestones m) = Inr db3" and
    a: "audit_event sv ''challenge.adopted'' [(''versionId'', JStr vid), (''creator'', JStr (U_Login u))] db3 = Inr db'"
    unfolding adopt_challenge_def handler_simps db0_def by blast
  have "quiet db db0" by (simp add: db0_def)
  also have "quiet db0 (db0\<lparr>PD_challenges := cs\<rparr>)" by simp
  finally have "grown db db2" using put_new_version [of "db0\<lparr>PD_challenges := cs\<rparr>"] p by (auto intro: quiet_grown_trans)
  moreover have "quiet db2 db3" using t by (rule res_fold_quiet) (rule insert_tier_quiet)
  ultimately show ?thesis using audit_event_quiet [OF a] by (blast intro: grown_quiet_trans)
qed

lemma createChallenge_grown:
  assumes "createChallenge sv env src day now cid vid u n candidate rep commit statement replayed fetched db = (r, db')"
  shows "grown db db'"
proof -
  from assms consider "db' = db" | "reserveFetch sv day u n db = Inr db'"
    | db1 st i source k m where "reserveFetch sv day u n db = Inr db1"
      "adopt_challenge sv now cid vid u candidate rep commit statement source k m db1 = Inr (st, i, db')"
    unfolding createChallenge_def by (auto simp: handler_simps split: if_splits option.splits sum.splits)
  then show ?thesis
    by cases (auto intro: quiet_grown reserveFetch_quiet quiet_grown_trans adopt_challenge_grown)
qed

lemma add_version_grown:
  assumes "add_version sv now vid u c prior frontier transition rep commit statement source n m db = Inr (st, i, db')"
  shows "grown db db'"
proof -
  define db0 where "db0 = add_artifact source source n ''application/json'' (U_ID u) db"
  from assms obtain db1 db2 db3 payload where
    p: "put_versions (PD_versions db @ [new_version vid c (U_ID u) rep commit source m (Some prior) transition (Some frontier) now]) db0 = Inr db1" and
    t: "res_fold (carry_milestone c vid prior transition) db1 (Manifest_Milestones m) = Inr db2" and
    s: "(if transition = ''season'' then update_versions (\<lambda>v. CV_ID v = prior) (\<lambda>v. v\<lparr>CV_Status := ''superseded'', CV_Intake := ''closed''\<rparr>) db2
      else Inr db2) = Inr db3" and
    a: "audit_event sv ''challenge.version_created'' payload
      (db3\<lparr>PD_challenges := update_where (\<lambda>x. CH_ID x = c) (\<lambda>x. x\<lparr>CH_Adoption := statement\<rparr>) (PD_challenges db3)\<rparr>) = Inr db'"
    unfolding add_version_def handler_simps db0_def by blast
  have v: "PD_versions db = PD_versions db0" by (simp add: db0_def add_artifact_def)
  have "grown db db1" using put_new_version [OF p [unfolded v]] by (rule quiet_grown_trans [rotated]) (simp add: db0_def)
  moreover have "quiet db1 db2" using t by (rule res_fold_quiet) (rule carry_milestone_quiet)
  moreover have "quiet db2 db3" using s by (auto split: if_splits intro: update_versions_quiet)
  moreover have "quiet db3 (db3\<lparr>PD_challenges := update_where (\<lambda>x. CH_ID x = c) (\<lambda>x. x\<lparr>CH_Adoption := statement\<rparr>) (PD_challenges db3)\<rparr>)" by simp
  ultimately show ?thesis using audit_event_quiet [OF a] by (blast intro: grown_quiet_trans)
qed

lemma createVersion_grown:
  assumes "createVersion sv env src day now vid u n c rep commit statement kind replayed fetched db = (r, db')"
  shows "grown db db'"
  using assms unfolding createVersion_def Let_def
  by (auto simp: handler_simps dest!: reserveFetch_quiet add_version_grown intro: quiet_grown quiet_grown_trans
    split: if_splits option.splits sum.splits)

section \<open>Decisions of editors\<close>

definition open_submission :: "string \<Rightarrow> submission \<Rightarrow> bool" where
  "open_submission vid s \<longleftrightarrow> Sub_Version s = vid \<and> Sub_Status s \<noteq> ''finalized''"

definition open_job :: "string \<Rightarrow> runner_job \<Rightarrow> bool" where
  "open_job vid j \<longleftrightarrow> RJ_Version j = vid \<and> RJ_Status j \<in> {''queued'', ''running'', ''attention_required''}"

definition resolved :: "string \<Rightarrow> platform_db \<Rightarrow> platform_db" where
  "resolved vid db = db\<lparr>PD_submissions := update_where (open_submission vid) unscorable_row (PD_submissions db),
     PD_jobs := update_where (open_job vid) cancel_row (PD_jobs db)\<rparr>"

lemma fold_enqueue_quiet: "quiet db (fold (enqueue k) ids db)"
  by (induction ids arbitrary: db) (auto intro: quiet_trans [OF quiet_statements(1)])

lemma editor_update_number:
  assumes "editor_update now action = Some (guard, effect)"
  shows "number (effect v) = number v"
proof -
  have step: "(if c then Some (g, e) else r) = Some (guard, effect) \<longleftrightarrow> c \<and> guard = g \<and> effect = e \<or> \<not> c \<and> r = Some (guard, effect)"
    for c r and g :: "challenge_version \<Rightarrow> bool" and e by auto
  from assms show ?thesis unfolding editor_update_def step by (elim disjE conjE) simp_all
qed

lemma resolve_unscorable_effect:
  assumes "resolve_unscorable sv dr u vid reason db = Inr db'"
  shows "quiet (resolved vid db) db'"
proof -
  have e: "(\<lambda>s. Sub_Version s = vid \<and> Sub_Status s \<noteq> ''finalized'') = open_submission vid"
    "(\<lambda>j. RJ_Version j = vid \<and> RJ_Status j \<in> {''queued'', ''running'', ''attention_required''}) = open_job vid"
    by (auto simp: open_submission_def open_job_def)
  from assms obtain d doc ids where "db' = saveReceipt d doc (U_ID u) True (fold (enqueue ''adjudicate'') ids (resolved vid db))"
    unfolding resolve_unscorable_def handler_simps e resolved_def by blast
  then show ?thesis using quiet_trans [OF fold_enqueue_quiet quiet_statements(2)] by blast
qed

lemma editorDecision_effect:
  assumes "editorDecision sv dr now u vid action reason a db = Inr (st, i, db')"
  shows "quiet db db' \<or> (\<exists>db1. quiet db db1 \<and> quiet (resolved vid db1) db')"
proof -
  from assms obtain guard effect db1 ds db2 db3 m payload where
    e: "editor_update now action = Some (guard, effect)" "update_versions (\<lambda>x. CV_ID x = vid) effect db = Inr db1" and
    r: "record_assessment sv dr now u vid m a (db1\<lparr>PD_decisions := ds\<rparr>) = Inr db2" and
    x: "(if action = ''resolve_unscorable'' then resolve_unscorable sv dr u vid reason db2 else Inr db2) = Inr db3" and
    p: "audit_event sv (''editorial.'' @ action) payload db3 = Inr db'"
    unfolding editorDecision_def by (auto simp: handler_simps)
  have "quiet db db1" using e(2) by (rule update_versions_quiet) (rule editor_update_number [OF e(1)])
  also have "quiet db1 (db1\<lparr>PD_decisions := ds\<rparr>)" by simp
  also have "quiet (db1\<lparr>PD_decisions := ds\<rparr>) db2"
    using r unfolding record_assessment_def by (auto simp: handler_simps split: option.splits)
  finally have q: "quiet db db2" .
  show ?thesis
  proof (cases "action = ''resolve_unscorable''")
    case True
    with x have "quiet (resolved vid db2) db3" by (auto intro: resolve_unscorable_effect)
    with q show ?thesis using audit_event_quiet [OF p] quiet_trans by blast
  next
    case False
    with x q show ?thesis using audit_event_quiet [OF p] quiet_trans by auto
  qed
qed

section \<open>Builds\<close>

lemma store_output_quiet: "store_output jid owner db x = Inr db' \<Longrightarrow> quiet db db'"
  unfolding store_output_def by (cases x) (auto simp: handler_simps split: option.splits)

lemma build_failed_quiet: "quiet db (build_failed version jid job b db)"
  by (simp add: build_failed_def Let_def quiet_def numbers_def [symmetric])

lemma pass_preflight_quiet:
  assumes "pass_preflight sv env dr version owner job b pre status digests groups db = Inr db'"
  shows "quiet db db'"
proof -
  from assms obtain doc d rs where i: "db' = enqueue ''scientific_review'' version (enqueue ''sign_receipt'' d (db\<lparr>PD_receipts := rs,
       PD_preflights := update_where (\<lambda>p. PF_ID p = pre)
         (\<lambda>p. p\<lparr>PF_Status := ''pass'', PF_Findings := [], PF_Report := Some b, PF_Receipt := Some d\<rparr>) (PD_preflights db),
       PD_versions := update_where (\<lambda>v. CV_ID v = version \<and> CV_LockDigest v = None) (\<lambda>v. v\<lparr>CV_Status := ''review_ready''\<rparr>) (PD_versions db)\<rparr>))"
    unfolding pass_preflight_def handler_simps by blast
  show ?thesis unfolding i
    by (rule quiet_trans [OF _ quiet_statements(1)], rule quiet_trans [OF _ quiet_statements(1)]) (simp add: quiet_def numbers_def [symmetric])
qed

text \<open>A build that passes under the independent policy may create the job of its confirmation.\<close>

definition rebuilt :: "run_draws \<Rightarrow> go_time \<Rightarrow> RunnerJob \<Rightarrow> RunReceipt \<Rightarrow> string \<Rightarrow> platform_db \<Rightarrow> platform_db \<Rightarrow> bool" where
  "rebuilt dr now job run version db db' \<longleftrightarrow> (\<exists>pre group db1 db2. quiet db db1 \<and>
     insert_job (new_job (second_build dr job run) ''preflight'' version None (Some pre) None group now) db1 = Inr db2 \<and> quiet db2 db')"

lemma commit_preflight_effect:
  assumes "commit_preflight sv env dr now job run b digest version owner pre db = Inr db'"
  shows "quiet db db' \<or> rebuilt dr now job run version db db'"
proof -
  from assms consider status digests groups where "pass_preflight sv env dr version owner job b pre status digests groups db = Inr db'"
    | group db1 where "insert_job (new_job (second_build dr job run) ''preflight'' version None (Some pre) None group now) db = Inr db1" "quiet db1 db'"
    unfolding commit_preflight_def Let_def by (auto simp: if_fail res_bind_Inr_iff split: if_splits option.splits)
  then show ?thesis by cases (blast intro: pass_preflight_quiet, auto simp: rebuilt_def intro: quiet_refl)
qed

lemma rebuilt_quiet: "quiet db db1 \<Longrightarrow> rebuilt dr now job run version db1 db' \<Longrightarrow> rebuilt dr now job run version db db'"
  unfolding rebuilt_def by (blast intro: quiet_trans)

lemma commitBuild_effect:
  assumes "commitBuild sv env dr now job run digest version db = Inr db'"
  shows "quiet db db' \<or> Job_Purpose job \<noteq> ''artifact_prepare'' \<and> rebuilt dr now job run version db db'"
proof -
  from assms consider b where "db' = build_failed version (Job_ID job) job b db"
    | owner b db1 where "res_fold (store_output (Job_ID job) owner) db (build_outputs b) = Inr db1" "Job_Purpose job = ''artifact_prepare''" "quiet db1 db'"
    | owner b db1 pre where "res_fold (store_output (Job_ID job) owner) db (build_outputs b) = Inr db1" "Job_Purpose job \<noteq> ''artifact_prepare''"
      "commit_preflight sv env dr now job run b digest version owner pre db1 = Inr db'"
  proof (cases "Job_Purpose job = ''artifact_prepare''")
    case True
    from assms show ?thesis unfolding commitBuild_def if_P [OF True] by (auto simp: handler_simps True split: if_splits intro: that(1,2))
  next
    case False
    from assms show ?thesis unfolding commitBuild_def if_not_P [OF False] by (auto simp: handler_simps False split: if_splits intro: that(1,3))
  qed
  then show ?thesis
  proof cases
    case 1
    then show ?thesis by (simp add: build_failed_quiet)
  next
    case 2
    have "quiet db db1" using 2(1) by (rule res_fold_quiet) (rule store_output_quiet)
    with 2(3) show ?thesis by (blast intro: quiet_trans)
  next
    case 3
    have "quiet db db1" using 3(1) by (rule res_fold_quiet) (rule store_output_quiet)
    with 3(2) commit_preflight_effect [OF 3(3)] show ?thesis by (blast intro: quiet_trans rebuilt_quiet)
  qed
qed

section \<open>Acceptance\<close>

definition renumber :: "string \<Rightarrow> int \<Rightarrow> string \<times> int \<times> int \<Rightarrow> string \<times> int \<times> int" where
  "renumber vid n = (\<lambda>(x, nx, w). if x = vid then (x, n, w) else (x, nx, w))"

lemma numbers_renumber:
  "map number (update_where (\<lambda>v. CV_ID v = vid) (\<lambda>v. v\<lparr>CV_NextSequence := n\<rparr>) vs) = map (renumber vid n) (map number vs)"
  by (simp add: update_where_def number_def renumber_def)

lemma record_acceptance_effect:
  assumes "record_acceptance sv dr i artifact disk policy lock m n db = Inr db'"
  obtains s where "Sub_ID s = Acc_submission dr" "Sub_Version s = SI_Version i" "Sub_Sequence s = n" "Sub_Outcome s = ''pending''" "Sub_Adjudication s = None"
    "\<forall>x\<in>set (PD_submissions db). Sub_ID x \<noteq> Sub_ID s \<and> (Sub_Version x = Sub_Version s \<longrightarrow> Sub_Sequence x \<noteq> Sub_Sequence s)"
    "\<forall>r\<in>set (PD_reservations db). fst r \<noteq> Sub_ID s"
    "core db' = (PD_submissions db @ [s], PD_jobs db, PD_results db, PD_claims db, PD_reserved db, PD_reservations db @ [(Sub_ID s, False)], PD_maximum db)"
    "numbers db' = map (renumber (SI_Version i) n) (numbers db)"
proof -
  let ?new = "\<lambda>digest commitment. new_submission dr i artifact disk n digest commitment"
  from assms obtain extra digest commitment doc grants subs reservations intents where
    s: "\<not> list_ex (\<lambda>s. Sub_ID s = Acc_submission dr \<or> Sub_Intent s = SI_ID i \<or> Sub_Receipt s = digest \<or> Sub_Grant s = Acc_grant dr
          \<or> Sub_Version s = SI_Version i \<and> (Sub_Sequence s = n \<or> Sub_Artifact s = artifact)) (PD_submissions db)"
      "subs = PD_submissions db @ [?new digest commitment]" and
    r: "\<not> list_ex (\<lambda>r. fst r = Acc_submission dr) (PD_reservations db)" "reservations = PD_reservations db @ [(Acc_submission dr, False)]" and
    a: "audit_event sv ''submission.accepted'' extra (enqueue ''validate_submission'' (Acc_submission dr) (saveReceipt digest doc (SI_Owner i) False
          (db\<lparr>PD_grants := grants, PD_submissions := subs, PD_reservations := reservations,
              PD_versions := update_where (\<lambda>v. CV_ID v = SI_Version i) (\<lambda>v. v\<lparr>CV_NextSequence := n\<rparr>) (PD_versions db), PD_intents := intents\<rparr>))) = Inr db'"
    unfolding record_acceptance_def handler_simps by blast
  let ?db = "db\<lparr>PD_grants := grants, PD_submissions := subs, PD_reservations := reservations,
              PD_versions := update_where (\<lambda>v. CV_ID v = SI_Version i) (\<lambda>v. v\<lparr>CV_NextSequence := n\<rparr>) (PD_versions db), PD_intents := intents\<rparr>"
  have q: "quiet ?db db'" by (rule quiet_trans [OF quiet_statements(2)], rule quiet_trans [OF quiet_statements(1)], rule audit_event_quiet [OF a])
  let ?s = "?new digest commitment"
  show ?thesis
  proof (rule that [of ?s])
    show "core db' = (PD_submissions db @ [?s], PD_jobs db, PD_results db, PD_claims db, PD_reserved db, PD_reservations db @ [(Sub_ID ?s, False)], PD_maximum db)"
      using q by (simp add: quiet_def core_def s(2) r(2) new_submission_def)
    have "numbers ?db = map (renumber (SI_Version i) n) (numbers db)" unfolding numbers_def by (simp add: numbers_renumber)
    then show "numbers db' = map (renumber (SI_Version i) n) (numbers db)" using q unfolding quiet_def by simp
  qed (use s(1) r(1) in \<open>auto simp: new_submission_def list_ex_iff\<close>)
qed

lemma acceptIntent_effect:
  assumes "acceptIntent sv dr clock now iid owner db = Inr (st, sid, db')"
  obtains (Same) "db' = db"
    | (New) s v where "find (\<lambda>v. CV_ID v = Sub_Version s) (PD_versions db) = Some v" "Sub_Sequence s = int64 (CV_NextSequence v + 1)"
        "Sub_Outcome s = ''pending''" "Sub_Adjudication s = None" "PD_reserved db + 2 \<le> PD_maximum db"
        "\<forall>x\<in>set (PD_submissions db). Sub_ID x \<noteq> Sub_ID s \<and> (Sub_Version x = Sub_Version s \<longrightarrow> Sub_Sequence x \<noteq> Sub_Sequence s)"
        "\<forall>r\<in>set (PD_reservations db). fst r \<noteq> Sub_ID s"
        "core db' = (PD_submissions db @ [s], PD_jobs db, PD_results db, PD_claims db, PD_reserved db + 2, PD_reservations db @ [(Sub_ID s, False)], PD_maximum db)"
        "numbers db' = map (renumber (Sub_Version s) (Sub_Sequence s)) (numbers db)"
proof -
  from assms consider "db' = db" | i artifact disk where "accept_ready sv dr now i artifact disk db = Inr (st, sid, db')"
    unfolding acceptIntent_def by (auto simp: if_fail http_fail_def elim!: res_bind_E split: prod.splits option.splits if_splits)
  then show ?thesis
  proof cases
    case (2 i artifact disk)
    then obtain v policy lock m where f: "find (\<lambda>v. CV_ID v = SI_Version i) (PD_versions db) = Some v" and
      c: "(case find (\<lambda>s. Sub_Version s = SI_Version i \<and> Sub_Artifact s = artifact) (PD_submissions db) of
       Some s \<Rightarrow> if Sub_Owner s = SI_Owner i then Inr (200, Sub_ID s, db) else http_fail ''artifact_duplicate''
     | None \<Rightarrow>
       if PD_reserved db + 2 > PD_maximum db then http_fail ''capacity_unavailable'' else
       res_bind (record_acceptance sv dr i artifact disk policy lock m (int64 (CV_NextSequence v + 1))
           (db\<lparr>PD_reserved := PD_reserved db + 2\<rparr>)) (\<lambda>db'.
       Inr (201, Acc_submission dr, db'))) = Inr (st, sid, db')"
      unfolding accept_ready_def handler_simps by blast
    show ?thesis
    proof (cases "find (\<lambda>s. Sub_Version s = SI_Version i \<and> Sub_Artifact s = artifact) (PD_submissions db)")
      case None
      with c have cap: "PD_reserved db + 2 \<le> PD_maximum db" and
        r: "record_acceptance sv dr i artifact disk policy lock m (int64 (CV_NextSequence v + 1)) (db\<lparr>PD_reserved := PD_reserved db + 2\<rparr>) = Inr db'"
        by (auto simp: if_fail res_bind_Inr_iff)
      from r show ?thesis
      proof (rule record_acceptance_effect)
        fix s assume s: "Sub_Version s = SI_Version i" "Sub_Sequence s = int64 (CV_NextSequence v + 1)" "Sub_Outcome s = ''pending''" "Sub_Adjudication s = None"
          "\<forall>x\<in>set (PD_submissions (db\<lparr>PD_reserved := PD_reserved db + 2\<rparr>)). Sub_ID x \<noteq> Sub_ID s \<and> (Sub_Version x = Sub_Version s \<longrightarrow> Sub_Sequence x \<noteq> Sub_Sequence s)"
          "\<forall>r\<in>set (PD_reservations (db\<lparr>PD_reserved := PD_reserved db + 2\<rparr>)). fst r \<noteq> Sub_ID s"
          "core db' = (PD_submissions (db\<lparr>PD_reserved := PD_reserved db + 2\<rparr>) @ [s], PD_jobs (db\<lparr>PD_reserved := PD_reserved db + 2\<rparr>),
            PD_results (db\<lparr>PD_reserved := PD_reserved db + 2\<rparr>), PD_claims (db\<lparr>PD_reserved := PD_reserved db + 2\<rparr>),
            PD_reserved (db\<lparr>PD_reserved := PD_reserved db + 2\<rparr>), PD_reservations (db\<lparr>PD_reserved := PD_reserved db + 2\<rparr>) @ [(Sub_ID s, False)],
            PD_maximum (db\<lparr>PD_reserved := PD_reserved db + 2\<rparr>))"
          "numbers db' = map (renumber (SI_Version i) (int64 (CV_NextSequence v + 1))) (numbers (db\<lparr>PD_reserved := PD_reserved db + 2\<rparr>))"
        show ?thesis by (rule New [of s v]) (use s f cap in \<open>simp_all add: numbers_def\<close>)
      qed
    next
      case (Some s)
      with c show ?thesis by (intro Same) (auto simp: http_fail_def split: if_split_asm)
    qed
  qed (rule Same)
qed

end
