(* ===== verification/Confirmed.thy ===== *)
theory Confirmed
  imports Effects
begin

text \<open>
  Why a valid outcome can be trusted.  The invariant of this theory ties the tables of jobs, results and submissions together: a
  job keeps its identity and never changes once it is complete, a result belongs to a complete job, was signed by its host and
  bound to the signed job, and a submission is valid only when a primary and a later confirmation run agreed on its score.
\<close>

section \<open>The invariant\<close>

definition payload_ok :: "runner_job \<Rightarrow> bool" where
  "payload_ok j \<longleftrightarrow> Job_ID (RJ_Payload j) = RJ_ID j \<and> Job_Purpose (RJ_Payload j) = RJ_Purpose j \<and> RJ_Purpose j \<in> set runner_purposes \<and>
     (\<not> preparation (RJ_Purpose j) \<longrightarrow> RJ_Submission j = Some (Job_SubmissionID (RJ_Payload j)))"

definition jobs_inv :: "runner_job list \<Rightarrow> bool" where
  "jobs_inv jobs \<longleftrightarrow> distinct (map RJ_ID jobs) \<and> (\<forall>j\<in>set jobs. payload_ok j) \<and>
     (\<forall>j\<in>set jobs. \<forall>j'\<in>set jobs. \<not> preparation (RJ_Purpose j) \<and> RJ_Purpose j' = RJ_Purpose j \<and> RJ_Submission j' = RJ_Submission j \<longrightarrow> j' = j) \<and>
     (\<forall>j\<in>set jobs. RJ_Purpose j = ''confirmation'' \<longrightarrow>
       (\<exists>p\<in>set jobs. RJ_Purpose p = ''submission'' \<and> RJ_Submission p = RJ_Submission j \<and> RJ_Status p = ''complete''))"

text \<open>What is known of a stored result and the job it completed.\<close>

definition recorded :: "'k service \<Rightarrow> runner_job \<Rightarrow> runner_result \<Rightarrow> bool" where
  "recorded sv j r \<longleftrightarrow> RR_Job r = RJ_ID j \<and> RJ_Status j = ''complete'' \<and>
     Run_HostID (RR_Result r) = RR_Host r \<and> Run_JobID (RR_Result r) = RJ_ID j \<and>
     (\<exists>key payload. Verify (scrypto sv) (RR_Envelope r) [(RR_Host r, key)] = Inr payload \<and> SE_run sv payload = Inr (RR_Result r)) \<and>
     (\<exists>d. Digest sv (DocJob (RJ_Payload j)) = Inr d \<and> run_bound (RJ_Payload j) d (RR_Result r)) \<and>
     (\<exists>now host. check_outcome sv now host (RJ_Payload j) (RR_Result r) = Inr ())"

definition results_inv :: "'k service \<Rightarrow> runner_job list \<Rightarrow> runner_result list \<Rightarrow> bool" where
  "results_inv sv jobs results \<longleftrightarrow> (\<forall>r\<in>set results. \<exists>j\<in>set jobs. recorded sv j r)"

text \<open>A primary run and a later, separate confirmation of it, in another host group where the policy is independent, which together
  give the score of the submission.\<close>

definition confirmed :: "'k service \<Rightarrow> runner_job list \<Rightarrow> runner_result list \<Rightarrow> submission \<Rightarrow> bool" where
  "confirmed sv jobs results s \<longleftrightarrow> (\<exists>p\<in>set results. \<exists>c\<in>set results. \<exists>jp\<in>set jobs. \<exists>jc\<in>set jobs.
     recorded sv jp p \<and> recorded sv jc c \<and>
     RJ_Purpose jp = ''submission'' \<and> RJ_Submission jp = Some (Sub_ID s) \<and> RJ_Purpose jc = ''confirmation'' \<and> RJ_Submission jc = Some (Sub_ID s) \<and>
     Run_Outcome (RR_Result p) = ''valid'' \<and> Run_Outcome (RR_Result c) = ''valid'' \<and> Run_ID (RR_Result p) \<noteq> Run_ID (RR_Result c) \<and>
     Run_CreatedAt (RR_Result p) \<le> Run_CreatedAt (RR_Result c) \<and>
     (JobVerificationPolicy (RJ_Payload jc) = VerificationIndependent \<longrightarrow> Run_HostGroup (RR_Result p) \<noteq> Run_HostGroup (RR_Result c)) \<and>
     (\<exists>score. confirmed_score sv (RJ_Payload jc) (RR_Result p) (RR_Result c) = Inr score \<and> Sub_Score s = Some score))"

definition subs_inv :: "'k service \<Rightarrow> runner_job list \<Rightarrow> runner_result list \<Rightarrow> submission list \<Rightarrow> bool" where
  "subs_inv sv jobs results subs \<longleftrightarrow> (\<forall>s\<in>set subs. Sub_Outcome s = ''valid'' \<longrightarrow>
     (Sub_Status s = ''validated'' \<or> Sub_Status s = ''finalized'') \<and> confirmed sv jobs results s)"

definition claims_inv :: "submission list \<Rightarrow> milestone_claim list \<Rightarrow> bool" where
  "claims_inv subs claims \<longleftrightarrow> (\<forall>c\<in>set claims. \<exists>s\<in>set subs.
     Sub_ID s = MC_Submission c \<and> Sub_Outcome s = ''valid'' \<and> Sub_Status s = ''finalized'')"

definition runs_inv :: "'k service \<Rightarrow> platform_db \<Rightarrow> bool" where
  "runs_inv sv db \<longleftrightarrow> jobs_inv (PD_jobs db) \<and> results_inv sv (PD_jobs db) (PD_results db) \<and>
     subs_inv sv (PD_jobs db) (PD_results db) (PD_submissions db) \<and> claims_inv (PD_submissions db) (PD_claims db)"

section \<open>How jobs evolve\<close>

text \<open>The fence of a job only grows, and a job leaves the queue at most once per fence.\<close>

definition same_row :: "runner_job \<Rightarrow> runner_job \<Rightarrow> bool" where
  "same_row j j' \<longleftrightarrow> RJ_ID j' = RJ_ID j \<and> RJ_Purpose j' = RJ_Purpose j \<and> RJ_Submission j' = RJ_Submission j \<and> (RJ_Status j = ''complete'' \<longrightarrow> j' = j) \<and>
     RJ_Fence j \<le> RJ_Fence j' \<and> (RJ_Fence j' = RJ_Fence j \<and> RJ_Status j \<noteq> ''queued'' \<longrightarrow> RJ_Status j' \<noteq> ''queued'')"

definition evolves :: "runner_job list \<Rightarrow> runner_job list \<Rightarrow> bool" where
  "evolves jobs jobs' \<longleftrightarrow> (\<forall>j\<in>set jobs. \<exists>j'\<in>set jobs'. same_row j j')"

lemma same_row_refl [simp]: "same_row j j"
  by (simp add: same_row_def)

lemma same_row_trans: "same_row a b \<Longrightarrow> same_row b c \<Longrightarrow> same_row a c"
  by (auto simp: same_row_def)

lemma evolves_refl [simp]: "evolves jobs jobs"
  unfolding evolves_def using same_row_refl by blast

lemma evolves_trans: "evolves a b \<Longrightarrow> evolves b c \<Longrightarrow> evolves a c"
  unfolding evolves_def by (blast intro: same_row_trans)

lemma evolves_append [simp]: "evolves jobs (jobs @ new)"
  unfolding evolves_def set_append using same_row_refl by blast

lemma evolves_complete: "evolves jobs jobs' \<Longrightarrow> j \<in> set jobs \<Longrightarrow> RJ_Status j = ''complete'' \<Longrightarrow> j \<in> set jobs'"
  by (auto simp: evolves_def same_row_def)

lemma jobs_invD:
  assumes "jobs_inv jobs" "j \<in> set jobs"
  shows "payload_ok j" "j' \<in> set jobs \<Longrightarrow> RJ_ID j' = RJ_ID j \<Longrightarrow> j' = j"
    "j' \<in> set jobs \<Longrightarrow> \<not> preparation (RJ_Purpose j) \<Longrightarrow> RJ_Purpose j' = RJ_Purpose j \<Longrightarrow> RJ_Submission j' = RJ_Submission j \<Longrightarrow> j' = j"
  using assms unfolding jobs_inv_def by (auto simp: distinct_map inj_on_def)

text \<open>An update of rows that are not complete.\<close>

definition moves :: "(runner_job \<Rightarrow> bool) \<Rightarrow> (runner_job \<Rightarrow> runner_job) \<Rightarrow> runner_job list \<Rightarrow> bool" where
  "moves P f jobs \<longleftrightarrow> (\<forall>j\<in>set jobs. P j \<longrightarrow> RJ_Status j \<noteq> ''complete'' \<and> same_row j (f j) \<and> payload_ok (f j))"

lemma moves_evolves:
  assumes "moves P f jobs"
  shows "evolves jobs (update_where P f jobs)"
proof -
  have "same_row j (if P j then f j else j)" if "j \<in> set jobs" for j
    using assms that by (simp add: moves_def)
  then show ?thesis unfolding evolves_def set_update_where by blast
qed

lemma moves_ids:
  assumes "moves P f jobs"
  shows "map RJ_ID (update_where P f jobs) = map RJ_ID jobs"
  using assms by (auto simp: moves_def update_where_def same_row_def)

lemma moves_jobs_inv:
  assumes "moves P f jobs" "jobs_inv jobs"
  shows "jobs_inv (update_where P f jobs)"
proof -
  let ?g = "\<lambda>j. if P j then f j else j"
  have row: "same_row j (?g j) \<and> payload_ok (?g j)" if "j \<in> set jobs" for j
    using that assms by (auto simp: moves_def jobs_inv_def)
  have cols: "RJ_Purpose (?g j) = RJ_Purpose j \<and> RJ_Submission (?g j) = RJ_Submission j" if "j \<in> set jobs" for j
    using row [OF that] unfolding same_row_def by blast
  have "distinct (map RJ_ID (update_where P f jobs))" unfolding moves_ids [OF assms(1)] using assms(2) by (simp add: jobs_inv_def)
  moreover have "\<forall>j\<in>set (update_where P f jobs). payload_ok j" unfolding set_update_where using row by blast
  moreover have "?g j' = ?g j" if "j \<in> set jobs" "j' \<in> set jobs" "\<not> preparation (RJ_Purpose (?g j))" "RJ_Purpose (?g j') = RJ_Purpose (?g j)"
    "RJ_Submission (?g j') = RJ_Submission (?g j)" for j j'
    using jobs_invD(3) [OF assms(2), of j j'] that cols by metis
  moreover have "\<exists>p\<in>set (update_where P f jobs). RJ_Purpose p = ''submission'' \<and> RJ_Submission p = RJ_Submission (?g j) \<and> RJ_Status p = ''complete''"
    if j: "j \<in> set jobs" "RJ_Purpose (?g j) = ''confirmation''" for j
  proof -
    obtain p where p: "p \<in> set jobs" "RJ_Purpose p = ''submission''" "RJ_Submission p = RJ_Submission j" "RJ_Status p = ''complete''"
      using assms(2) j cols [OF j(1)] unfolding jobs_inv_def by metis
    then have "p \<in> set (update_where P f jobs)" by (intro evolves_complete [OF moves_evolves [OF assms(1)]])
    with p cols [OF j(1)] show ?thesis by metis
  qed
  ultimately show ?thesis unfolding jobs_inv_def set_update_where by blast
qed

lemma recorded_complete: "recorded sv j r \<Longrightarrow> RJ_Status j = ''complete''"
  by (simp add: recorded_def)

lemma results_inv_evolves:
  assumes "results_inv sv jobs results" "evolves jobs jobs'"
  shows "results_inv sv jobs' results"
  using assms evolves_complete [OF assms(2)] recorded_complete unfolding results_inv_def by blast

lemma confirmed_evolves:
  assumes "confirmed sv jobs results s" "evolves jobs jobs'" "set results \<subseteq> set results'"
  shows "confirmed sv jobs' results' s"
proof -
  have "j \<in> set jobs'" if "recorded sv j r" "j \<in> set jobs" for j r
    using evolves_complete [OF assms(2) that(2)] recorded_complete [OF that(1)] .
  with assms(1,3) show ?thesis unfolding confirmed_def by (meson subsetD)
qed

lemma confirmed_same: "confirmed sv jobs results s \<Longrightarrow> Sub_ID s' = Sub_ID s \<Longrightarrow> Sub_Score s' = Sub_Score s \<Longrightarrow> confirmed sv jobs results s'"
  unfolding confirmed_def by simp

lemma subs_inv_evolves:
  assumes "subs_inv sv jobs results subs" "evolves jobs jobs'" "set results \<subseteq> set results'"
  shows "subs_inv sv jobs' results' subs"
  using assms(1) confirmed_evolves [OF _ assms(2,3)] unfolding subs_inv_def by blast

section \<open>How submissions evolve\<close>

text \<open>An update that keeps the identity of every row, and keeps the verdict of a row or leaves it not valid.\<close>

definition keeps_verdict :: "submission \<Rightarrow> submission \<Rightarrow> bool" where
  "keeps_verdict s s' \<longleftrightarrow> Sub_ID s' = Sub_ID s \<and>
     (Sub_Outcome s' = ''valid'' \<longrightarrow> Sub_Outcome s = ''valid'' \<and> Sub_Score s' = Sub_Score s \<and> (Sub_Status s' = Sub_Status s \<or> Sub_Status s' = ''finalized'')) \<and>
     (Sub_Outcome s = ''valid'' \<and> Sub_Status s = ''finalized'' \<longrightarrow> Sub_Outcome s' = ''valid'' \<and> Sub_Status s' = ''finalized'')"

lemma keeps_verdict_refl [simp]: "keeps_verdict s s"
  by (simp add: keeps_verdict_def)

lemma subs_inv_map:
  assumes "subs_inv sv jobs results subs" "\<And>s. s \<in> set subs \<Longrightarrow> keeps_verdict s (g s)"
  shows "subs_inv sv jobs results (map g subs)"
  unfolding subs_inv_def
proof (intro ballI impI)
  fix s' assume s': "s' \<in> set (map g subs)" "Sub_Outcome s' = ''valid''"
  then obtain s where s: "s \<in> set subs" "s' = g s" by auto
  note k = assms(2) [OF s(1), unfolded keeps_verdict_def]
  with s' s have v: "Sub_Outcome s = ''valid''" "Sub_Score s' = Sub_Score s" "Sub_ID s' = Sub_ID s" "Sub_Status s' = Sub_Status s \<or> Sub_Status s' = ''finalized''"
    by auto
  have "confirmed sv jobs results s" "Sub_Status s = ''validated'' \<or> Sub_Status s = ''finalized''"
    using assms(1) s(1) v(1) unfolding subs_inv_def by blast+
  then show "(Sub_Status s' = ''validated'' \<or> Sub_Status s' = ''finalized'') \<and> confirmed sv jobs results s'"
    using confirmed_same [of sv jobs results s s'] v by auto
qed

lemma claims_inv_map:
  assumes "claims_inv subs claims" "\<And>s. s \<in> set subs \<Longrightarrow> Sub_ID (g s) = Sub_ID s"
    "\<And>s. s \<in> set subs \<Longrightarrow> Sub_Outcome s = ''valid'' \<Longrightarrow> Sub_Status s = ''finalized'' \<Longrightarrow> Sub_Outcome (g s) = ''valid'' \<and> Sub_Status (g s) = ''finalized''"
  shows "claims_inv (map g subs) claims"
  unfolding claims_inv_def
proof
  fix c assume "c \<in> set claims"
  with assms(1) obtain s where s: "s \<in> set subs" "Sub_ID s = MC_Submission c" "Sub_Outcome s = ''valid''" "Sub_Status s = ''finalized''"
    unfolding claims_inv_def by blast
  with assms(2,3) [OF s(1)] have "Sub_ID (g s) = MC_Submission c \<and> Sub_Outcome (g s) = ''valid'' \<and> Sub_Status (g s) = ''finalized''" by simp
  with s(1) show "\<exists>s\<in>set (map g subs). Sub_ID s = MC_Submission c \<and> Sub_Outcome s = ''valid'' \<and> Sub_Status s = ''finalized''" by auto
qed

lemma claims_inv_keeps:
  assumes "claims_inv subs claims" "\<And>s. s \<in> set subs \<Longrightarrow> keeps_verdict s (g s)"
  shows "claims_inv (map g subs) claims"
  using assms(1) by (rule claims_inv_map) (use assms(2) in \<open>auto simp: keeps_verdict_def\<close>)

text \<open>A submission with an unfinished run is not valid yet.\<close>

lemma unfinished_not_valid:
  assumes "runs_inv sv db" "s \<in> set (PD_submissions db)" "j \<in> set (PD_jobs db)" "RJ_Submission j = Some (Sub_ID s)" "\<not> preparation (RJ_Purpose j)"
    "RJ_Status j \<noteq> ''complete''"
  shows "Sub_Outcome s \<noteq> ''valid''"
proof
  assume "Sub_Outcome s = ''valid''"
  with assms(1,2) have "confirmed sv (PD_jobs db) (PD_results db) s" unfolding runs_inv_def subs_inv_def by blast
  then obtain jp jc p c where q: "jp \<in> set (PD_jobs db)" "jc \<in> set (PD_jobs db)" "recorded sv jp p" "recorded sv jc c"
    "RJ_Purpose jp = ''submission''" "RJ_Submission jp = Some (Sub_ID s)" "RJ_Purpose jc = ''confirmation''" "RJ_Submission jc = Some (Sub_ID s)"
    unfolding confirmed_def by blast
  have inv: "jobs_inv (PD_jobs db)" using assms(1) by (simp add: runs_inv_def)
  have "RJ_Purpose j = ''submission'' \<or> RJ_Purpose j = ''confirmation''"
    using jobs_invD(1) [OF inv assms(3)] assms(5) by (auto simp: payload_ok_def runner_purposes_def preparation_def)
  then have "j = jp \<or> j = jc"
    using jobs_invD(3) [OF inv assms(3) q(1)] jobs_invD(3) [OF inv assms(3) q(2)] assms(4,5) q(5-8) by auto
  with q(3,4) assms(6) recorded_complete show False by blast
qed

lemma unqueued_not_valid:
  assumes "runs_inv sv db" "s \<in> set (PD_submissions db)" "\<not> list_ex (\<lambda>j. RJ_Submission j = Some (Sub_ID s) \<and> RJ_Purpose j = ''submission'') (PD_jobs db)"
  shows "Sub_Outcome s \<noteq> ''valid''"
  using assms unfolding runs_inv_def subs_inv_def confirmed_def list_ex_iff by blast

section \<open>Statements that keep it\<close>

lemma runs_inv_quiet: "quiet db db' \<Longrightarrow> runs_inv sv db \<Longrightarrow> runs_inv sv db'"
  by (simp add: runs_inv_def quiet_fields)

lemma runs_inv_core: "core db' = core db \<Longrightarrow> runs_inv sv db \<Longrightarrow> runs_inv sv db'"
  by (simp add: runs_inv_def core_def)

lemma runs_inv_fields:
  assumes "runs_inv sv db" "PD_jobs db' = PD_jobs db" "PD_results db' = PD_results db" "PD_claims db' = PD_claims db"
    "PD_submissions db' = map g (PD_submissions db)" "\<And>s. s \<in> set (PD_submissions db) \<Longrightarrow> keeps_verdict s (g s)"
  shows "runs_inv sv db'"
  using assms by (simp add: runs_inv_def subs_inv_map claims_inv_keeps)

lemma runs_inv_moves:
  assumes "runs_inv sv db" "moves P f (PD_jobs db)" "PD_jobs db' = update_where P f (PD_jobs db)" "PD_results db' = PD_results db"
    "PD_claims db' = PD_claims db" "PD_submissions db' = PD_submissions db"
  shows "runs_inv sv db'"
  using assms moves_evolves [OF assms(2)] unfolding runs_inv_def
  by (auto intro: moves_jobs_inv results_inv_evolves subs_inv_evolves)

lemma jobs_inv_append:
  assumes "jobs_inv jobs" "payload_ok row" "\<not> list_ex (\<lambda>j. RJ_ID j = RJ_ID row) jobs"
    and "\<not> preparation (RJ_Purpose row) \<Longrightarrow> \<forall>j\<in>set jobs. RJ_Purpose j = RJ_Purpose row \<longrightarrow> RJ_Submission j \<noteq> RJ_Submission row"
    and "RJ_Purpose row = ''confirmation'' \<Longrightarrow>
      \<exists>p\<in>set jobs. RJ_Purpose p = ''submission'' \<and> RJ_Submission p = RJ_Submission row \<and> RJ_Status p = ''complete''"
  shows "jobs_inv (jobs @ [row])"
proof -
  have "distinct (map RJ_ID (jobs @ [row]))" using assms(1,3) by (auto simp: jobs_inv_def list_ex_iff)
  moreover have "\<forall>j\<in>set (jobs @ [row]). payload_ok j" using assms(1,2) by (auto simp: jobs_inv_def)
  moreover have "j' = j" if "j \<in> set (jobs @ [row])" "j' \<in> set (jobs @ [row])" "\<not> preparation (RJ_Purpose j)" "RJ_Purpose j' = RJ_Purpose j"
    "RJ_Submission j' = RJ_Submission j" for j j'
    using that assms(4) jobs_invD(3) [OF assms(1), of j j'] by auto
  moreover have "\<exists>p\<in>set (jobs @ [row]). RJ_Purpose p = ''submission'' \<and> RJ_Submission p = RJ_Submission j \<and> RJ_Status p = ''complete''"
    if "j \<in> set (jobs @ [row])" "RJ_Purpose j = ''confirmation''" for j
    using that assms(1,5) unfolding jobs_inv_def by auto
  ultimately show ?thesis unfolding jobs_inv_def by blast
qed

lemma runs_inv_append:
  assumes "runs_inv sv db" "jobs_inv (PD_jobs db @ [row])" "PD_jobs db' = PD_jobs db @ [row]" "PD_results db' = PD_results db"
    "PD_claims db' = PD_claims db" "PD_submissions db' = map g (PD_submissions db)" "\<And>s. s \<in> set (PD_submissions db) \<Longrightarrow> keeps_verdict s (g s)"
  shows "runs_inv sv db'"
proof -
  have e: "evolves (PD_jobs db) (PD_jobs db')" by (simp add: assms(3))
  have "subs_inv sv (PD_jobs db') (PD_results db) (PD_submissions db)"
    by (rule subs_inv_evolves [OF _ e order_refl]) (use assms(1) in \<open>simp add: runs_inv_def\<close>)
  from subs_inv_map [OF this assms(7)] show ?thesis
    using assms results_inv_evolves [of sv, OF _ e] by (simp add: runs_inv_def claims_inv_keeps)
qed

section \<open>Queueing and leases\<close>

lemma insert_job_fields:
  assumes "insert_job row db = Inr db'"
  shows "db' = db\<lparr>PD_jobs := PD_jobs db @ [row]\<rparr>" "\<not> list_ex (\<lambda>j. RJ_ID j = RJ_ID row) (PD_jobs db)"
  using assms by (auto simp: insert_job_def res_simps)

lemma new_job_simps [simp]:
  "RJ_ID (new_job job purpose version sub preflight intent excluded now) = Job_ID job"
  "RJ_Purpose (new_job job purpose version sub preflight intent excluded now) = purpose"
  "RJ_Submission (new_job job purpose version sub preflight intent excluded now) = sub"
  "RJ_Payload (new_job job purpose version sub preflight intent excluded now) = job"
  "RJ_Status (new_job job purpose version sub preflight intent excluded now) = ''queued''"
  by (simp_all add: new_job_def)

lemma queueSubmission_effect:
  assumes "queueSubmission sv jid created now sid db = Inr db'"
  obtains job s where "Job_Purpose job = ''submission''" "Job_SubmissionID job = Sub_ID s" "queue_primary job now s db = Inr db'"
proof -
  from assms obtain s mode official lock d where q: "queue_primary (submission_job jid created s lock d mode official) now s db = Inr db'"
    unfolding queueSubmission_def handler_simps by blast
  show ?thesis by (rule that [OF _ _ q]) (simp_all add: submission_job_def)
qed

lemma queue_primary_runs:
  assumes "runs_inv sv db" "queue_primary job now s db = Inr db'" "Job_Purpose job = ''submission''" "Job_SubmissionID job = Sub_ID s"
  shows "runs_inv sv db'"
proof (cases "list_ex (\<lambda>j. RJ_Submission j = Some (Sub_ID s) \<and> RJ_Purpose j = ''submission'') (PD_jobs db)")
  case True
  with assms(1,2) show ?thesis by (simp add: queue_primary_def)
next
  case n: False
  let ?row = "new_job job ''submission'' (Sub_Version s) (Some (Sub_ID s)) None None None now"
  from n assms(2) obtain db1 grants where i: "insert_job ?row db = Inr db1" and
    d: "db' = db1\<lparr>PD_grants := grants, PD_submissions := update_where (\<lambda>x. Sub_ID x = Sub_ID s) (\<lambda>x. x\<lparr>Sub_Status := ''queued''\<rparr>) (PD_submissions db1)\<rparr>"
    by (auto simp: queue_primary_def res_bind_Inr_iff)
  have "jobs_inv (PD_jobs db @ [?row])"
  proof (rule jobs_inv_append)
    show "payload_ok ?row" using assms(3,4) by (simp add: payload_ok_def runner_purposes_def)
    show "\<forall>j\<in>set (PD_jobs db). RJ_Purpose j = RJ_Purpose ?row \<longrightarrow> RJ_Submission j \<noteq> RJ_Submission ?row"
      using n by (auto simp: list_ex_iff)
  qed (use assms(1) insert_job_fields(2) [OF i] in \<open>simp_all add: runs_inv_def\<close>)
  from assms(1) this show ?thesis
  proof (rule runs_inv_append)
    fix x assume x: "x \<in> set (PD_submissions db)"
    show "keeps_verdict x (if Sub_ID x = Sub_ID s then x\<lparr>Sub_Status := ''queued''\<rparr> else x)"
      using unqueued_not_valid [OF assms(1) x] n by (auto simp: keeps_verdict_def)
  qed (simp_all add: d insert_job_fields(1) [OF i] update_where_def)
qed

lemma queueSubmission_runs:
  assumes "runs_inv sv db" "queueSubmission sv jid created now sid db = Inr db'"
  shows "runs_inv sv db'"
  using assms(2) by (rule queueSubmission_effect) (rule queue_primary_runs [OF assms(1)])

lemma queuePreparation_runs:
  assumes "runs_inv sv db" "queuePreparation sv jid created now purpose pid version source artifact m db = Inr db'"
    "purpose = ''preflight'' \<or> purpose = ''artifact_prepare''"
  shows "runs_inv sv db'"
proof -
  let ?job = "preparation_job sv jid created purpose source artifact m"
  have "db' = db \<or> (\<exists>pre intent. insert_job (new_job ?job purpose version None pre intent None now) db = Inr db')"
  proof (cases "purpose = ''preflight''")
    case True
    with assms(2) show ?thesis unfolding queuePreparation_def Let_def by (simp split: if_split_asm) blast
  next
    case False
    with assms(2,3) show ?thesis unfolding queuePreparation_def Let_def by (simp split: if_split_asm) blast
  qed
  then consider "db' = db" | pre intent where "insert_job (new_job ?job purpose version None pre intent None now) db = Inr db'" by blast
  then show ?thesis
  proof cases
    case (2 pre intent)
    let ?row = "new_job ?job purpose version None pre intent None now"
    have p: "preparation purpose" using assms(3) by (auto simp: preparation_def)
    have ok: "payload_ok ?row" using p assms(3) by (auto simp: payload_ok_def preparation_job_def runner_purposes_def)
    have "jobs_inv (PD_jobs db @ [?row])"
      by (rule jobs_inv_append) (use assms(1,3) p ok insert_job_fields(2) [OF 2] in \<open>auto simp: runs_inv_def\<close>)
    with assms(1) show ?thesis by (rule runs_inv_append [where g = "\<lambda>s. s"]) (simp_all add: insert_job_fields(1) [OF 2])
  qed (use assms(1) in simp)
qed

lemma exclude_host_simps [simp]:
  "Job_ID (exclude_host h job) = Job_ID job" "Job_Purpose (exclude_host h job) = Job_Purpose job"
  "Job_SubmissionID (exclude_host h job) = Job_SubmissionID job"
  by (simp_all add: exclude_host_def)

lemma recover_moves:
  assumes "runs_inv sv db"
  shows "moves (lease_expired now db) recover_row (PD_jobs db)"
  unfolding moves_def
proof (intro ballI impI)
  fix j assume j: "j \<in> set (PD_jobs db)" "lease_expired now db j"
  then have "payload_ok j" using assms by (simp add: runs_inv_def jobs_inv_def)
  with j(2) show "RJ_Status j \<noteq> ''complete'' \<and> same_row j (recover_row j) \<and> payload_ok (recover_row j)"
    by (auto simp: lease_expired_def same_row_def recover_row_def payload_ok_def split: option.split)
qed

lemma recoverRunnerLeases_runs:
  assumes "runs_inv sv db"
  shows "runs_inv sv (recoverRunnerLeases now db)"
  by (rule runs_inv_moves [OF assms recover_moves [OF assms]]) (simp_all add: recoverRunnerLeases_def)

section \<open>Claims\<close>

definition same_identity :: "RunnerJob \<Rightarrow> RunnerJob \<Rightarrow> bool" where
  "same_identity job job' \<longleftrightarrow> Job_ID job' = Job_ID job \<and> Job_Purpose job' = Job_Purpose job \<and> Job_SubmissionID job' = Job_SubmissionID job \<and>
     Job_VerificationPolicy job' = Job_VerificationPolicy job"

lemma same_identity_trans: "same_identity a b \<Longrightarrow> same_identity b c \<Longrightarrow> same_identity a c"
  by (simp add: same_identity_def)

lemma map_refs_identity: "map_refs f job = Inr job' \<Longrightarrow> same_identity job job'"
  unfolding map_refs_def by (auto simp: res_simps same_identity_def split: if_splits)

lemma scan_policy_identity: "scan_policy host job = Inr job' \<Longrightarrow> same_identity job job'"
  unfolding scan_policy_def by (auto simp: if_fail same_identity_def split: if_splits)

lemma set_profile_identity: "set_profile host job = Inr job' \<Longrightarrow> same_identity job job'"
  unfolding set_profile_def by (auto simp: if_fail same_identity_def split: if_splits)

lemma prepare_claim_identity:
  assumes "prepare_claim host now db row = Inr job"
  shows "same_identity (RJ_Payload row) job"
proof -
  from assms obtain j1 j2 where s: "scan_policy host (RJ_Payload row) = Inr j1" and
    p: "set_profile host (j1\<lparr>Job_RequiredHostGroup := Host_Group host, Job_FencingToken := RJ_Fence row,
      Job_ExpiresAt := now + JobLeaseDuration (Job_Manifest j1) (Job_Purpose j1)\<rparr>) = Inr j2" and
    r: "map_refs (sized_ref db) j2 = Inr job"
    unfolding prepare_claim_def handler_simps by blast
  have "same_identity j1 (j1\<lparr>Job_RequiredHostGroup := Host_Group host, Job_FencingToken := RJ_Fence row,
      Job_ExpiresAt := now + JobLeaseDuration (Job_Manifest j1) (Job_Purpose j1)\<rparr>)" by (simp add: same_identity_def)
  then show ?thesis
    using scan_policy_identity [OF s] set_profile_identity [OF p] map_refs_identity [OF r] same_identity_trans by blast
qed

lemma grantHiddenSuite_identity: "grantHiddenSuite env dr host db job = Inr job' \<Longrightarrow> same_identity job job'"
  unfolding grantHiddenSuite_def handler_simps by (auto simp: same_identity_def handler_simps split: if_splits)

lemma pick_job_in: "pick_job host purposes locked db = Some row \<Longrightarrow> row \<in> set (PD_jobs db)"
  by (auto simp: pick_job_def oldest_def dest: find_set)

lemma claimRunnerJob_effect:
  assumes "claimRunnerJob sv env dr now host purposes locked db0 db = Inr (r, db')"
  shows "db' = db \<or> (\<exists>row\<in>set (PD_jobs db0). \<exists>job envelope. same_identity (RJ_Payload row) job \<and>
    commit_claim sv host (RJ_ID row) (RJ_Fence row) job envelope (CD_token dr) db = Inr db')"
proof -
  from assms consider "db' = db" | row j1 j2 j3 envelope where "pick_job host purposes locked db0 = Some row"
    "prepare_claim host now db0 row = Inr j1" "map_refs (readable_ref env) j1 = Inr j2" "grantHiddenSuite env dr host db j2 = Inr j3"
    "commit_claim sv host (RJ_ID row) (RJ_Fence row) j3 envelope (CD_token dr) db = Inr db'"
    unfolding claimRunnerJob_def by (auto simp: handler_simps split: if_splits option.splits)
  then show ?thesis
  proof cases
    case 2
    then have "same_identity (RJ_Payload row) j3"
      using prepare_claim_identity map_refs_identity grantHiddenSuite_identity same_identity_trans by meson
    with 2 pick_job_in show ?thesis by blast
  qed simp
qed

lemma commit_claim_moves:
  assumes "jobs_inv (PD_jobs db)" "evolves jobs0 (PD_jobs db)" "row \<in> set jobs0" "payload_ok row" "same_identity (RJ_Payload row) job"
  shows "moves (\<lambda>j. RJ_ID j = RJ_ID row \<and> RJ_Status j = ''queued'' \<and> RJ_Fence j = RJ_Fence row) (claim_row sv host job envelope token) (PD_jobs db)"
  unfolding moves_def
proof (intro ballI impI)
  fix j assume j: "j \<in> set (PD_jobs db)" "RJ_ID j = RJ_ID row \<and> RJ_Status j = ''queued'' \<and> RJ_Fence j = RJ_Fence row"
  from assms(2,3) obtain j' where j': "j' \<in> set (PD_jobs db)" "same_row row j'" unfolding evolves_def by blast
  then have "j' = j" using jobs_invD(2) [OF assms(1) j(1) j'(1)] j(2) by (simp add: same_row_def)
  with j' have "RJ_Purpose j = RJ_Purpose row" "RJ_Submission j = RJ_Submission row" by (auto simp: same_row_def)
  with j assms(4,5) show "RJ_Status j \<noteq> ''complete'' \<and> same_row j (claim_row sv host job envelope token j) \<and> payload_ok (claim_row sv host job envelope token j)"
    by (auto simp: same_row_def claim_row_def payload_ok_def same_identity_def)
qed

lemma claimRunnerJob_runs:
  assumes "runs_inv sv db" "evolves (PD_jobs db0) (PD_jobs db)" "\<forall>j\<in>set (PD_jobs db0). payload_ok j"
    "claimRunnerJob sv env dr now host purposes locked db0 db = Inr (r, db')"
  shows "runs_inv sv db' \<and> evolves (PD_jobs db) (PD_jobs db') \<and> set (PD_results db) \<subseteq> set (PD_results db')"
  using claimRunnerJob_effect [OF assms(4)]
proof (elim disjE bexE exE conjE)
  fix row job envelope
  assume row: "row \<in> set (PD_jobs db0)" "same_identity (RJ_Payload row) job"
    and c: "commit_claim sv host (RJ_ID row) (RJ_Fence row) job envelope (CD_token dr) db = Inr db'"
  have "jobs_inv (PD_jobs db)" using assms(1) by (simp add: runs_inv_def)
  note m = commit_claim_moves [OF this assms(2) row(1) _ row(2)]
  from c have d: "db' = db\<lparr>PD_jobs := update_where (\<lambda>j. RJ_ID j = RJ_ID row \<and> RJ_Status j = ''queued'' \<and> RJ_Fence j = RJ_Fence row)
      (claim_row sv host job envelope (CD_token dr)) (PD_jobs db)\<rparr>"
    unfolding commit_claim_def Let_def if_fail by simp
  have "payload_ok row" using assms(3) row(1) by blast
  with runs_inv_moves [OF assms(1) m, of db' sv host envelope "CD_token dr"] moves_evolves [OF m] d show ?thesis by simp
qed (use assms(1) in simp)

section \<open>Results\<close>

lemma receive_run_facts:
  assumes "receive_run sv now host jid envelope = Inr (run, digest)"
  obtains key payload where "parseRunnerKey sv (Host_PublicKey host) = Inr key" "Verify (scrypto sv) envelope [(Host_ID host, key)] = Inr payload"
    "SE_run sv payload = Inr run" "run_identity now host jid run"
  using assms unfolding receive_run_def handler_simps or_else_Inr_iff by auto

lemma commit_run_cases:
  assumes "commit_run sv env dr now host envelope token run digest db = Inr (reply, db')"
  obtains (Same) "db' = db"
    | (Retry) row where "row \<in> set (PD_jobs db)" "RJ_ID row = Run_JobID run" "lease_held now host run row"
        "db' = db\<lparr>PD_jobs := update_where (\<lambda>j. RJ_ID j = Run_JobID run) (retry_row host) (PD_jobs db)\<rparr>"
    | (Accept) row d where "row \<in> set (PD_jobs db)" "RJ_ID row = Run_JobID run" "lease_held now host run row"
        "Digest sv (DocJob (RJ_Payload row)) = Inr d" "run_bound (RJ_Payload row) d run"
        "accept_run sv env dr now host envelope run digest row db = Inr (reply, db')" "RJ_Token row = Some (hash_hex sv token)"
proof -
  from assms obtain row where f: "find (\<lambda>j. RJ_ID j = Run_JobID run) (PD_jobs db) = Some row" and
    r: "(if RJ_Status row = ''complete'' then duplicate_run digest run db
     else if \<not> lease_held now host run row then http_fail ''stale_runner_lease'' else
     res_bind (Digest sv (DocJob (RJ_Payload row))) (\<lambda>jobDigest.
     if \<not> run_bound (RJ_Payload row) jobDigest run then http_fail ''run_bindings_mismatch''
     else if Run_Outcome run = ''infrastructure_fault'' then
       Inr (Retrying, db\<lparr>PD_jobs := update_where (\<lambda>j. RJ_ID j = Run_JobID run) (retry_row host) (PD_jobs db)\<rparr>)
     else accept_run sv env dr now host envelope run digest row db)) = Inr (reply, db')"
    and k: "RJ_Token row = Some (hash_hex sv token)"
    unfolding commit_run_def handler_simps by blast
  note row = find_set [OF f]
  show ?thesis
  proof (cases "RJ_Status row = ''complete''")
    case True
    with r have "duplicate_run digest run db = Inr (reply, db')" by simp
    then show ?thesis by (intro Same) (auto simp: duplicate_run_def handler_simps)
  next
    case False
    with r obtain d where l: "lease_held now host run row" and d: "Digest sv (DocJob (RJ_Payload row)) = Inr d" "run_bound (RJ_Payload row) d run" and
      c: "(if Run_Outcome run = ''infrastructure_fault'' then
       Inr (Retrying, db\<lparr>PD_jobs := update_where (\<lambda>j. RJ_ID j = Run_JobID run) (retry_row host) (PD_jobs db)\<rparr>)
       else accept_run sv env dr now host envelope run digest row db) = Inr (reply, db')"
      by (simp only: if_False if_fail res_bind_Inr_iff not_not) blast
    show ?thesis
    proof (cases "Run_Outcome run = ''infrastructure_fault''")
      case True
      with c show ?thesis by (intro Retry [of row]) (use row l in simp_all)
    next
      case False
      with c show ?thesis by (intro Accept [of row d]) (use row l d k in simp_all)
    qed
  qed
qed

lemma store_result_effect:
  assumes "store_result host job envelope run digest version db = Inr db1"
  shows "PD_results db1 = PD_results db @ [\<lparr>RR_Job = Job_ID job, RR_Host = Host_ID host, RR_Digest = digest, RR_Envelope = envelope, RR_Result = run\<rparr>]"
    "PD_jobs db1 = update_where (\<lambda>j. RJ_ID j = Job_ID job) complete_row (PD_jobs db)" "PD_submissions db1 = PD_submissions db"
    "PD_claims db1 = PD_claims db" "PD_reserved db1 = PD_reserved db" "PD_reservations db1 = PD_reservations db" "PD_maximum db1 = PD_maximum db"
    "numbers db1 = numbers db" "\<forall>r\<in>set (PD_results db). RR_Job r \<noteq> Job_ID job"
proof -
  let ?r = "\<lparr>RR_Job = Job_ID job, RR_Host = Host_ID host, RR_Digest = digest, RR_Envelope = envelope, RR_Result = run\<rparr>"
  from assms obtain owner where c: "\<not> list_ex (\<lambda>r. RR_Job r = Job_ID job \<or> RR_Digest r = digest) (PD_results db)" and
    d: "db1 = (saveReceipt digest (DocRun run) owner False (db\<lparr>PD_results := PD_results db @ [?r]\<rparr>))\<lparr>PD_jobs :=
      update_where (\<lambda>j. RJ_ID j = Job_ID job) complete_row (PD_jobs (saveReceipt digest (DocRun run) owner False (db\<lparr>PD_results := PD_results db @ [?r]\<rparr>)))\<rparr>"
    unfolding store_result_def handler_simps by blast
  note q = quiet_fields [OF quiet_statements(2) [of "db\<lparr>PD_results := PD_results db @ [?r]\<rparr>" digest "DocRun run" owner False]]
  show "PD_results db1 = PD_results db @ [?r]" "PD_jobs db1 = update_where (\<lambda>j. RJ_ID j = Job_ID job) complete_row (PD_jobs db)"
    "PD_submissions db1 = PD_submissions db" "PD_claims db1 = PD_claims db" "PD_reserved db1 = PD_reserved db"
    "PD_reservations db1 = PD_reservations db" "PD_maximum db1 = PD_maximum db" "numbers db1 = numbers db"
    using q by (simp_all add: d)
  show "\<forall>r\<in>set (PD_results db). RR_Job r \<noteq> Job_ID job" using c by (auto simp: list_ex_iff)
qed

lemma complete_moves:
  assumes "jobs_inv jobs" "row \<in> set jobs" "RJ_Status row = ''running''"
  shows "moves (\<lambda>j. RJ_ID j = RJ_ID row) complete_row jobs" "moves (\<lambda>j. RJ_ID j = RJ_ID row) (retry_row host) jobs"
proof -
  have only: "moves (\<lambda>j. RJ_ID j = RJ_ID row) f jobs" if "same_row row (f row)" "payload_ok (f row)" for f
    unfolding moves_def
  proof (intro ballI impI)
    fix j assume "j \<in> set jobs" "RJ_ID j = RJ_ID row"
    then have "j = row" by (rule jobs_invD(2) [OF assms(1,2)])
    then show "RJ_Status j \<noteq> ''complete'' \<and> same_row j (f j) \<and> payload_ok (f j)" using that assms(3) by simp
  qed
  have "payload_ok row" using jobs_invD(1) [OF assms(1,2)] .
  then show "moves (\<lambda>j. RJ_ID j = RJ_ID row) complete_row jobs" "moves (\<lambda>j. RJ_ID j = RJ_ID row) (retry_row host) jobs"
    using assms(3) by (auto intro!: only simp: same_row_def complete_row_def retry_row_def payload_ok_def)
qed

lemma complete_row_recorded:
  assumes "payload_ok row" "RJ_ID row = Run_JobID run" "Run_HostID run = Host_ID host"
    "Digest sv (DocJob (RJ_Payload row)) = Inr d" "run_bound (RJ_Payload row) d run" "check_outcome sv now host (RJ_Payload row) run = Inr ()"
    "Verify (scrypto sv) envelope [(Host_ID host, key)] = Inr payload" "SE_run sv payload = Inr run"
  shows "recorded sv (complete_row row)
    \<lparr>RR_Job = Job_ID (RJ_Payload row), RR_Host = Host_ID host, RR_Digest = digest, RR_Envelope = envelope, RR_Result = run\<rparr>"
  using assms unfolding recorded_def complete_row_def payload_ok_def by auto

lemma store_result_runs:
  assumes "runs_inv sv db" "row \<in> set (PD_jobs db)" "RJ_Status row = ''running''"
    "store_result host (RJ_Payload row) envelope run digest version db = Inr db1"
    "recorded sv (complete_row row) \<lparr>RR_Job = Job_ID (RJ_Payload row), RR_Host = Host_ID host, RR_Digest = digest, RR_Envelope = envelope, RR_Result = run\<rparr>"
  shows "runs_inv sv db1" "complete_row row \<in> set (PD_jobs db1)" "evolves (PD_jobs db) (PD_jobs db1)"
proof -
  note e = store_result_effect [OF assms(4)]
  have j: "jobs_inv (PD_jobs db)" using assms(1) by (simp add: runs_inv_def)
  have jid: "Job_ID (RJ_Payload row) = RJ_ID row" using jobs_invD(1) [OF j assms(2)] by (simp add: payload_ok_def)
  note m = complete_moves(1) [OF j assms(2,3)]
  show ev: "evolves (PD_jobs db) (PD_jobs db1)" using moves_evolves [OF m] e(2) by (simp add: jid)
  show row: "complete_row row \<in> set (PD_jobs db1)" using assms(2) by (auto simp: e(2) jid set_update_where)
  have "jobs_inv (PD_jobs db1)" using moves_jobs_inv [OF m j] by (simp add: e(2) jid)
  moreover have "results_inv sv (PD_jobs db1) (PD_results db1)"
    using results_inv_evolves [OF _ ev, of sv "PD_results db"] assms(1,5) row unfolding e(1) runs_inv_def by (auto simp: results_inv_def)
  moreover have "subs_inv sv (PD_jobs db1) (PD_results db1) (PD_submissions db)"
    by (rule subs_inv_evolves [OF _ ev]) (use assms(1) e(1) in \<open>auto simp: runs_inv_def\<close>)
  ultimately show "runs_inv sv db1" using assms(1) e(3,4) by (simp add: runs_inv_def)
qed

section \<open>Scores\<close>

lemma checked_score:
  assumes "check_outcome sv now host job run = Inr ()" "\<not> preparation (Job_Purpose job)" "Run_Outcome run = ''valid''"
  obtains n where "ParseTicks (Run_ScoreTicks run) = Inr n"
proof -
  from assms have "score_check (Job_Manifest job) run = Inr ()"
    unfolding check_outcome_def Let_def by (auto simp: if_fail res_bind_Inr_iff split: if_splits)
  then have "is_ok (CompareTicks (Run_ScoreTicks run) (Run_ScoreTicks run))"
    unfolding score_check_def Let_def if_fail by blast
  then show ?thesis using that by (auto simp: is_ok_iff CompareTicks_Inr_iff)
qed

lemma confirmed_score_ticks:
  assumes "confirmed_score sv job first run = Inr score"
  shows "score = Run_ScoreTicks first \<or> score = Run_ScoreTicks run"
  using assms unfolding confirmed_score_def ConfirmMeasuredRuns_def ConfirmedScore_def Let_def
  by (auto simp: res_bind_Inr_iff fail_if_Inr_iff split: if_splits option.splits)

lemma compare_runs_valid:
  assumes "compare_runs sv job first run = (''valid'', score)"
  shows "Run_Outcome first = ''valid''" "Run_Outcome run = ''valid''" "confirmed_score sv job first run = Inr score"
  using assms unfolding compare_runs_def disagreement_def by (auto split: if_splits sum.splits)

lemma settle_effect:
  assumes "settle version sid (outcome, score) db = Inr db'"
  obtains tick where "(if score \<noteq> [] \<and> outcome = ''valid'' then res_bind (numeric_column score) (\<lambda>t. Inr (Some t)) else Inr None) = Inr tick"
    "quiet (db\<lparr>PD_submissions := update_where (\<lambda>s. Sub_ID s = sid) (settle_row outcome tick) (PD_submissions db)\<rparr>) db'"
proof -
  from assms obtain tick where t: "(if score \<noteq> [] \<and> outcome = ''valid'' then res_bind (numeric_column score) (\<lambda>t. Inr (Some t)) else Inr None) = Inr tick" and
    d: "db' = enqueue ''adjudicate'' sid (if outcome = ''nondeterministic''
      then pause_intake version (db\<lparr>PD_submissions := update_where (\<lambda>s. Sub_ID s = sid) (settle_row outcome tick) (PD_submissions db)\<rparr>)
      else db\<lparr>PD_submissions := update_where (\<lambda>s. Sub_ID s = sid) (settle_row outcome tick) (PD_submissions db)\<rparr>)"
    unfolding settle_def prod.case Let_def by (auto elim!: res_bind_E simp del: if_split)
  show ?thesis by (rule that [OF t]) (auto simp: d intro: quiet_trans [OF _ quiet_statements(1)])
qed

section \<open>Settling a submission\<close>

text \<open>The rows of a submission, none of them valid, get a verdict; it is valid only with two agreeing runs.\<close>

lemma runs_inv_settle:
  assumes "runs_inv sv db" "\<And>s. s \<in> set (PD_submissions db) \<Longrightarrow> Sub_ID s = sid \<Longrightarrow> Sub_Outcome s \<noteq> ''valid''"
    and "\<And>s. outcome = ''valid'' \<Longrightarrow> Sub_ID s = sid \<Longrightarrow> confirmed sv (PD_jobs db) (PD_results db) (settle_row outcome tick s)"
  shows "runs_inv sv (db\<lparr>PD_submissions := update_where (\<lambda>s. Sub_ID s = sid) (settle_row outcome tick) (PD_submissions db)\<rparr>)"
proof -
  let ?g = "\<lambda>s. if Sub_ID s = sid then settle_row outcome tick s else s"
  have "subs_inv sv (PD_jobs db) (PD_results db) (map ?g (PD_submissions db))"
    unfolding subs_inv_def
  proof (intro ballI impI)
    fix s' assume s': "s' \<in> set (map ?g (PD_submissions db))" "Sub_Outcome s' = ''valid''"
    then obtain s where s: "s \<in> set (PD_submissions db)" "s' = ?g s" by auto
    show "(Sub_Status s' = ''validated'' \<or> Sub_Status s' = ''finalized'') \<and> confirmed sv (PD_jobs db) (PD_results db) s'"
    proof (cases "Sub_ID s = sid")
      case True
      with s s' have "outcome = ''valid''" "s' = settle_row outcome tick s" by (auto simp: settle_row_def)
      with assms(3) [of s] True show ?thesis by (simp add: settle_row_def)
    next
      case False
      with s s' assms(1) show ?thesis by (auto simp: runs_inv_def subs_inv_def)
    qed
  qed
  moreover have "claims_inv (map ?g (PD_submissions db)) (PD_claims db)"
    by (rule claims_inv_map) (use assms(1,2) in \<open>auto simp: runs_inv_def settle_row_def\<close>)
  ultimately show ?thesis using assms(1) by (simp add: runs_inv_def update_where_def)
qed

lemma results_for_in:
  assumes "results_for purpose sid db = r # rs"
  obtains j where "r \<in> set (PD_results db)" "j \<in> set (PD_jobs db)" "RJ_ID j = RR_Job r" "RJ_Submission j = Some sid" "RJ_Purpose j = purpose"
proof -
  have "r \<in> set (results_for purpose sid db)" using assms by simp
  then show ?thesis using that unfolding results_for_def by (auto simp: list_ex_iff)
qed

text \<open>What a confirmation that ends in a valid verdict leaves behind.\<close>

lemma confirm_valid:
  assumes "runs_inv sv db" "confirm sv host job run db = Inr (''valid'', score)" "Run_HostGroup run = Host_Group host"
    "jc \<in> set (PD_jobs db)" "c \<in> set (PD_results db)" "recorded sv jc c" "RR_Result c = run" "RJ_Payload jc = job" "RJ_Purpose jc = ''confirmation''"
  shows "score \<noteq> []" "numeric_column score = Inr score"
    "Sub_ID s = Job_SubmissionID job \<Longrightarrow> confirmed sv (PD_jobs db) (PD_results db) (settle_row ''valid'' (Some score) s)"
proof -
  have inv: "jobs_inv (PD_jobs db)" using assms(1) by (simp add: runs_inv_def)
  from assms(2) obtain p rs where rf: "results_for ''submission'' (Job_SubmissionID job) db = p # rs"
    by (auto simp: confirm_def split: list.splits)
  then obtain jp where p: "p \<in> set (PD_results db)" "jp \<in> set (PD_jobs db)" "RJ_ID jp = RR_Job p" "RJ_Submission jp = Some (Job_SubmissionID job)"
    "RJ_Purpose jp = ''submission''" by (rule results_for_in)
  from assms(2) rf have g: "\<not> (JobVerificationPolicy job = VerificationIndependent \<and> Run_HostGroup (RR_Result p) = Host_Group host)"
    "Run_ID (RR_Result p) \<noteq> Run_ID run" "Run_CreatedAt (RR_Result p) \<le> Run_CreatedAt run" and
    v: "compare_runs sv job (RR_Result p) run = (''valid'', score)"
    by (simp_all add: confirm_def Let_def if_fail not_less)
  note v = compare_runs_valid [OF v]
  obtain jp' where jp': "jp' \<in> set (PD_jobs db)" "recorded sv jp' p" using assms(1) p(1) unfolding runs_inv_def results_inv_def by blast
  then have r: "recorded sv jp p" using jobs_invD(2) [OF inv p(2), of jp'] p(3) by (simp add: recorded_def)
  have np: "Job_Purpose (RJ_Payload jp) = ''submission''" "Job_Purpose job = ''confirmation''" "RJ_Submission jc = Some (Job_SubmissionID job)"
    using jobs_invD(1) [OF inv p(2)] jobs_invD(1) [OF inv assms(4)] p(5) assms(8,9) by (auto simp: payload_ok_def preparation_def)
  obtain now1 host1 where c1: "check_outcome sv now1 host1 (RJ_Payload jp) (RR_Result p) = Inr ()" using r unfolding recorded_def by blast
  obtain now2 host2 where c2: "check_outcome sv now2 host2 job run = Inr ()" using assms(6,7,8) unfolding recorded_def by blast
  obtain n1 where n1: "ParseTicks (Run_ScoreTicks (RR_Result p)) = Inr n1" by (rule checked_score [OF c1]) (simp_all add: np v preparation_def)
  obtain n2 where n2: "ParseTicks (Run_ScoreTicks run) = Inr n2" by (rule checked_score [OF c2]) (simp_all add: np v preparation_def)
  obtain n where n: "ParseTicks score = Inr n" using confirmed_score_ticks [OF v(3)] n1 n2 by blast
  then show "numeric_column score = Inr score" by (rule numeric_column_ticks)
  show "score \<noteq> []" using n by (auto simp: ParseTicks_def ticks_pattern_def fail_if_Inr_iff split: if_splits)
  assume "Sub_ID s = Job_SubmissionID job"
  then show "confirmed sv (PD_jobs db) (PD_results db) (settle_row ''valid'' (Some score) s)"
    unfolding confirmed_def
    by (intro bexI [OF _ p(1)] bexI [OF _ assms(5)] bexI [OF _ p(2)] bexI [OF _ assms(4)])
      (use r assms p np v g in \<open>simp add: settle_row_def\<close>)
qed

section \<open>Advancing a submission\<close>

lemma record_fault_runs:
  assumes "runs_inv sv db" "record_fault sv version sid db = Inr db'"
    "\<And>s. s \<in> set (PD_submissions db) \<Longrightarrow> Sub_ID s = sid \<Longrightarrow> Sub_Outcome s \<noteq> ''valid''"
  shows "runs_inv sv db'"
proof -
  let ?f = "\<lambda>s. s\<lparr>Sub_Status := ''challenge_fault'', Sub_Outcome := ''pending''\<rparr>"
  let ?db = "db\<lparr>PD_submissions := update_where (\<lambda>s. Sub_ID s = sid) ?f (PD_submissions db)\<rparr>"
  have "runs_inv sv ?db"
    using assms(1) by (rule runs_inv_fields [where g = "\<lambda>s. if Sub_ID s = sid then ?f s else s"])
      (use assms(3) in \<open>auto simp: update_where_def keeps_verdict_def\<close>)
  then have "runs_inv sv (pause_intake version ?db)" by (rule runs_inv_quiet [rotated]) simp
  then show ?thesis using assms(2) unfolding record_fault_def by (rule runs_inv_quiet [OF audit_event_quiet, rotated])
qed

lemma start_confirmation_runs:
  assumes "runs_inv sv db" "start_confirmation dr now host job version db = Inr db'"
    "\<And>s. s \<in> set (PD_submissions db) \<Longrightarrow> Sub_ID s = Job_SubmissionID job \<Longrightarrow> Sub_Outcome s \<noteq> ''valid''"
    "\<forall>j\<in>set (PD_jobs db). RJ_Purpose j = ''confirmation'' \<longrightarrow> RJ_Submission j \<noteq> Some (Job_SubmissionID job)"
    "p \<in> set (PD_jobs db)" "RJ_Purpose p = ''submission''" "RJ_Submission p = Some (Job_SubmissionID job)" "RJ_Status p = ''complete''"
  shows "runs_inv sv db'"
proof -
  let ?sid = "Job_SubmissionID job" and ?f = "\<lambda>s. s\<lparr>Sub_Status := ''confirmation_running''\<rparr>"
  from assms(2) obtain group db1 where i: "insert_job (new_job (confirmation_job dr host job) ''confirmation'' version (Some ?sid) None None group now) db = Inr db1" and
    d: "db' = db1\<lparr>PD_submissions := update_where (\<lambda>s. Sub_ID s = ?sid) ?f (PD_submissions db1)\<rparr>"
    unfolding start_confirmation_def by (auto elim!: res_bind_E simp del: if_split)
  let ?row = "new_job (confirmation_job dr host job) ''confirmation'' version (Some ?sid) None None group now"
  have ok: "payload_ok ?row" by (simp add: payload_ok_def confirmation_job_def runner_purposes_def)
  have "jobs_inv (PD_jobs db @ [?row])"
    by (rule jobs_inv_append) (use assms ok insert_job_fields(2) [OF i] in \<open>auto simp: runs_inv_def\<close>)
  from assms(1) this show ?thesis
    by (rule runs_inv_append [where g = "\<lambda>s. if Sub_ID s = ?sid then ?f s else s"])
      (use assms(3) in \<open>auto simp: d insert_job_fields(1) [OF i] update_where_def keeps_verdict_def\<close>)
qed

lemma advance_cases:
  assumes "advance_submission sv dr now host job run version db = Inr (reply, db')"
  obtains (fault) "record_fault sv version (Job_SubmissionID job) db = Inr db'"
    | (start) "Job_Purpose job = ''submission''" "Run_Outcome run = ''valid''" "start_confirmation dr now host job version db = Inr db'"
    | (settle) outcome score where "(if Job_Purpose job = ''confirmation'' then confirm sv host job run db else Inr (Run_Outcome run, Run_ScoreTicks run)) = Inr (outcome, score)"
        "settle version (Job_SubmissionID job) (outcome, score) db = Inr db'" "\<not> (Run_Outcome run = ''valid'' \<and> Job_Purpose job = ''submission'')"
  using assms unfolding advance_submission_def Let_def
  by (auto elim!: res_bind_E split: if_split_asm simp del: if_split)

lemma advance_effect:
  assumes "advance_submission sv dr now host job run version db = Inr (reply, db')"
  obtains new f where "\<And>s. entry (f s) = entry s"
    "quiet (db\<lparr>PD_jobs := PD_jobs db @ new, PD_submissions := update_where (\<lambda>s. Sub_ID s = Job_SubmissionID job) f (PD_submissions db)\<rparr>) db'"
  using assms
proof (cases rule: advance_cases)
  case fault
  show ?thesis
    by (rule that [of "\<lambda>s. s\<lparr>Sub_Status := ''challenge_fault'', Sub_Outcome := ''pending''\<rparr>" "[]"])
      (use fault in \<open>simp_all add: entry_def record_fault_def quiet_trans [OF quiet_statements(7) audit_event_quiet]\<close>)
next
  case start
  from start(3) obtain row db1 where i: "insert_job row db = Inr db1" and
    d: "db' = db1\<lparr>PD_submissions := update_where (\<lambda>s. Sub_ID s = Job_SubmissionID job) (\<lambda>s. s\<lparr>Sub_Status := ''confirmation_running''\<rparr>) (PD_submissions db1)\<rparr>"
    unfolding start_confirmation_def by (auto elim!: res_bind_E simp del: if_split)
  show ?thesis
    by (rule that [of "\<lambda>s. s\<lparr>Sub_Status := ''confirmation_running''\<rparr>" "[row]"]) (simp_all add: entry_def d insert_job_fields(1) [OF i])
next
  case (settle outcome score)
  from settle(2) obtain tick where
    "quiet (db\<lparr>PD_submissions := update_where (\<lambda>s. Sub_ID s = Job_SubmissionID job) (settle_row outcome tick) (PD_submissions db)\<rparr>) db'"
    by (rule settle_effect)
  then show ?thesis by (intro that [of "settle_row outcome tick" "[]"]) (simp_all add: entry_def settle_row_def)
qed

lemma advance_tables:
  assumes "advance_submission sv dr now host job run version db = Inr (reply, db')"
  shows "evolves (PD_jobs db) (PD_jobs db') \<and> PD_results db' = PD_results db \<and> ledger db' = ledger db"
  using assms
proof (rule advance_effect)
  fix new f
  assume e: "\<And>s. entry (f s) = entry s" and
    q: "quiet (db\<lparr>PD_jobs := PD_jobs db @ new, PD_submissions := update_where (\<lambda>s. Sub_ID s = Job_SubmissionID job) f (PD_submissions db)\<rparr>) db'"
  from quiet_fields [OF q] show ?thesis by (simp add: ledger_def map_entry_update [OF e])
qed

lemma advance_submission_runs:
  assumes "runs_inv sv db" "advance_submission sv dr now host job run version db = Inr (reply, db')"
    "\<And>s. s \<in> set (PD_submissions db) \<Longrightarrow> Sub_ID s = Job_SubmissionID job \<Longrightarrow> Sub_Outcome s \<noteq> ''valid''"
    "Job_Purpose job = ''submission'' \<Longrightarrow> \<forall>j\<in>set (PD_jobs db). RJ_Purpose j = ''confirmation'' \<longrightarrow> RJ_Submission j \<noteq> Some (Job_SubmissionID job)"
    "jr \<in> set (PD_jobs db)" "r \<in> set (PD_results db)" "recorded sv jr r" "RR_Result r = run" "RJ_Payload jr = job"
    "Run_HostGroup run = Host_Group host" "\<not> preparation (Job_Purpose job)"
  shows "runs_inv sv db'"
proof -
  have jr: "payload_ok jr" using assms(1,5) by (simp add: runs_inv_def jobs_inv_def)
  then have pj: "RJ_Purpose jr = Job_Purpose job" "RJ_Submission jr = Some (Job_SubmissionID job)" using assms(9,11) by (auto simp: payload_ok_def)
  from assms(2) show ?thesis
  proof (cases rule: advance_cases)
    case fault
    with assms(1) show ?thesis by (rule record_fault_runs) (rule assms(3))
  next
    case start
    show ?thesis
      by (rule start_confirmation_runs [OF assms(1) start(3) assms(3) assms(4) [OF start(1)] assms(5)])
        (use pj start(1) recorded_complete [OF assms(7)] in simp_all)
  next
    case (settle outcome score)
    from settle(2) obtain tick where t: "(if score \<noteq> [] \<and> outcome = ''valid'' then res_bind (numeric_column score) (\<lambda>t. Inr (Some t)) else Inr None) = Inr tick" and
      q: "quiet (db\<lparr>PD_submissions := update_where (\<lambda>s. Sub_ID s = Job_SubmissionID job) (settle_row outcome tick) (PD_submissions db)\<rparr>) db'"
      by (rule settle_effect)
    have "confirmed sv (PD_jobs db) (PD_results db) (settle_row outcome tick s)" if o: "outcome = ''valid''" and s: "Sub_ID s = Job_SubmissionID job" for s
    proof -
      have pc: "Job_Purpose job = ''confirmation''"
        using o settle(1,3) jr assms(9,11) pj(1) by (auto simp: payload_ok_def runner_purposes_def preparation_def split: if_split_asm)
      with settle(1) o have "confirm sv host job run db = Inr (''valid'', score)" by simp
      note c = confirm_valid [OF assms(1) this assms(10,5,6,7,8,9)]
      have "RJ_Purpose jr = ''confirmation''" using pj(1) pc by simp
      note c = c [OF this]
      from t c(1,2) o have "tick = Some score" by simp
      with c(3) [OF s] o show ?thesis by simp
    qed
    from runs_inv_settle [OF assms(1) assms(3) this] show ?thesis by (rule runs_inv_quiet [OF q])
  qed
qed

lemma accept_run_steps:
  assumes "accept_run sv env dr now host envelope run digest row db = Inr (reply, db')"
  obtains (Build) db1 where "check_outcome sv now host (RJ_Payload row) run = Inr ()"
      "store_result host (RJ_Payload row) envelope run digest (RJ_Version row) db = Inr db1" "preparation (Job_Purpose (RJ_Payload row))"
      "commitBuild sv env dr now (RJ_Payload row) run digest (RJ_Version row) db1 = Inr db'"
    | (Submission) db1 where "check_outcome sv now host (RJ_Payload row) run = Inr ()"
      "store_result host (RJ_Payload row) envelope run digest (RJ_Version row) db = Inr db1" "\<not> preparation (Job_Purpose (RJ_Payload row))"
      "advance_submission sv dr now host (RJ_Payload row) run (RJ_Version row) db1 = Inr (reply, db')"
  using assms unfolding accept_run_def Let_def by (auto elim!: res_bind_E split: if_split_asm simp del: if_split)

lemma rebuilt_runs:
  assumes "runs_inv sv db" "rebuilt dr now job run version db db'" "Job_Purpose job = ''preflight''"
  shows "runs_inv sv db'" "evolves (PD_jobs db) (PD_jobs db')" "PD_results db' = PD_results db"
proof -
  from assms(2) obtain pre group db2 db3 where q: "quiet db db2" "quiet db3 db'" and
    i: "insert_job (new_job (second_build dr job run) ''preflight'' version None (Some pre) None group now) db2 = Inr db3"
    unfolding rebuilt_def by blast
  let ?row = "new_job (second_build dr job run) ''preflight'' version None (Some pre) None group now"
  note inv2 = runs_inv_quiet [OF q(1) assms(1)]
  have ok: "payload_ok ?row" using assms(3) by (simp add: payload_ok_def second_build_def preparation_def runner_purposes_def)
  have "jobs_inv (PD_jobs db2 @ [?row])"
    by (rule jobs_inv_append) (use inv2 ok insert_job_fields(2) [OF i] in \<open>auto simp: runs_inv_def preparation_def\<close>)
  with inv2 have "runs_inv sv db3" by (rule runs_inv_append [where g = "\<lambda>s. s"]) (simp_all add: insert_job_fields(1) [OF i])
  then show "runs_inv sv db'" by (rule runs_inv_quiet [OF q(2)])
  show "evolves (PD_jobs db) (PD_jobs db')" "PD_results db' = PD_results db"
    using quiet_fields [OF q(1)] quiet_fields [OF q(2)] insert_job_fields(1) [OF i] by simp_all
qed

lemma primary_unconfirmed:
  assumes "jobs_inv jobs" "row \<in> set jobs" "RJ_Purpose row = ''submission''" "RJ_Status row \<noteq> ''complete''" "x \<in> set jobs" "RJ_Purpose x = ''confirmation''"
  shows "RJ_Submission x \<noteq> RJ_Submission row"
proof
  assume "RJ_Submission x = RJ_Submission row"
  with assms(1,5,6) obtain q where q: "q \<in> set jobs" "RJ_Purpose q = ''submission''" "RJ_Submission q = RJ_Submission row" "RJ_Status q = ''complete''"
    unfolding jobs_inv_def by metis
  then have "q = row" using jobs_invD(3) [OF assms(1,2) q(1)] assms(3) by (simp add: preparation_def)
  with q(4) assms(4) show False by simp
qed

lemma accept_run_runs:
  assumes "runs_inv sv db" "row \<in> set (PD_jobs db)" "RJ_ID row = Run_JobID run" "RJ_Status row = ''running''"
    "Digest sv (DocJob (RJ_Payload row)) = Inr d" "run_bound (RJ_Payload row) d run"
    "Verify (scrypto sv) envelope [(Host_ID host, key)] = Inr payload" "SE_run sv payload = Inr run"
    "Run_HostID run = Host_ID host" "Run_HostGroup run = Host_Group host"
    "accept_run sv env dr now host envelope run digest row db = Inr (reply, db')"
  shows "runs_inv sv db' \<and> evolves (PD_jobs db) (PD_jobs db') \<and> set (PD_results db) \<subseteq> set (PD_results db')"
proof -
  let ?job = "RJ_Payload row"
  let ?r = "\<lparr>RR_Job = Job_ID ?job, RR_Host = Host_ID host, RR_Digest = digest, RR_Envelope = envelope, RR_Result = run\<rparr>"
  have j: "jobs_inv (PD_jobs db)" using assms(1) by (simp add: runs_inv_def)
  note ok = jobs_invD(1) [OF j assms(2)]
  have kept: "?r \<in> set (PD_results db1)" "set (PD_results db) \<subseteq> set (PD_results db1)" "PD_submissions db1 = PD_submissions db"
    if "store_result host ?job envelope run digest (RJ_Version row) db = Inr db1" for db1
    using store_result_effect [OF that] by auto
  from assms(11) show ?thesis
  proof (cases rule: accept_run_steps)
    case (Build db1)
    note s = store_result_runs [OF assms(1,2,4) Build(2) complete_row_recorded [OF ok assms(3,9,5,6) Build(1) assms(7,8), of digest]]
    from commitBuild_effect [OF Build(4)] show ?thesis
    proof (elim disjE conjE)
      assume "quiet db1 db'"
      with s kept [OF Build(2)] show ?thesis using runs_inv_quiet by (simp add: quiet_fields)
    next
      assume p: "Job_Purpose ?job \<noteq> ''artifact_prepare''" and b: "rebuilt dr now ?job run (RJ_Version row) db1 db'"
      have "Job_Purpose ?job = ''preflight''" using Build(3) p by (simp add: preparation_def)
      from rebuilt_runs [OF s(1) b this] kept [OF Build(2)] show ?thesis using evolves_trans [OF s(3)] by simp
    qed
  next
    case (Submission db1)
    note rec = complete_row_recorded [OF ok assms(3,9,5,6) Submission(1) assms(7,8), of digest]
    note s = store_result_runs [OF assms(1,2,4) Submission(2) rec]
    have sub: "RJ_Submission row = Some (Job_SubmissionID ?job)" "RJ_Purpose row = Job_Purpose ?job" using ok Submission(3) by (auto simp: payload_ok_def)
    have nv: "Sub_Outcome x \<noteq> ''valid''" if "x \<in> set (PD_submissions db1)" "Sub_ID x = Job_SubmissionID ?job" for x
      using unfinished_not_valid [OF assms(1) _ assms(2), of x] that sub assms(4) Submission(3) kept(3) [OF Submission(2)] by simp
    have nc: "\<forall>x\<in>set (PD_jobs db1). RJ_Purpose x = ''confirmation'' \<longrightarrow> RJ_Submission x \<noteq> Some (Job_SubmissionID ?job)"
      if "Job_Purpose ?job = ''submission''"
      using primary_unconfirmed [OF j assms(2)] that sub assms(4)
      unfolding store_result_effect(2) [OF Submission(2)] set_update_where by (auto simp: complete_row_def split: if_splits)
    have "RJ_Payload (complete_row row) = ?job" by (simp add: complete_row_def)
    from advance_submission_runs [OF s(1) Submission(4) nv nc s(2) kept(1) [OF Submission(2)] rec _ this assms(10) Submission(3)]
    have "runs_inv sv db'" by simp
    with s(3) kept(2) [OF Submission(2)] advance_tables [OF Submission(4)] show ?thesis by (auto intro: evolves_trans)
  qed
qed

lemma commit_run_runs:
  assumes "runs_inv sv db" "receive_run sv now host jid envelope = Inr (run, digest)"
    "commit_run sv env dr now' host envelope token run digest db = Inr (reply, db')"
  shows "runs_inv sv db' \<and> evolves (PD_jobs db) (PD_jobs db') \<and> set (PD_results db) \<subseteq> set (PD_results db')"
  using assms(3)
proof (cases rule: commit_run_cases)
  case Same
  with assms(1) show ?thesis by simp
next
  case (Retry row)
  have "jobs_inv (PD_jobs db)" "RJ_Status row = ''running''" using assms(1) Retry(3) by (simp_all add: runs_inv_def lease_held_def)
  from complete_moves(2) [OF this(1) Retry(1) this(2)] have m: "moves (\<lambda>j. RJ_ID j = Run_JobID run) (retry_row host) (PD_jobs db)"
    by (simp add: Retry(2))
  show ?thesis using runs_inv_moves [OF assms(1) m, of db'] moves_evolves [OF m] by (simp add: Retry(4))
next
  case (Accept row d)
  obtain key payload where k: "Verify (scrypto sv) envelope [(Host_ID host, key)] = Inr payload" "SE_run sv payload = Inr run" "run_identity now host jid run"
    using assms(2) by (blast elim: receive_run_facts)
  show ?thesis
    by (rule accept_run_runs [OF assms(1) Accept(1,2) _ Accept(4,5) k(1,2) _ _ Accept(6)])
      (use Accept(3) k(3) in \<open>simp_all add: lease_held_def run_identity_def\<close>)
qed

lemma runnerResult_commit:
  assumes "runnerResult sv env dr now host jid envelope token order db = (r, db')"
  obtains (Refused) e where "r = Inl e" "quiet db db'"
    | (Committed) run digest db1 reply where "receive_run sv now host jid envelope = Inr (run, digest)" "quiet db db1" "r = Inr reply"
        "commit_run sv env dr now host envelope token run digest db1 = Inr (reply, db')"
proof (cases "receive_run sv now host jid envelope")
  case (Inl e)
  with assms show ?thesis by (intro Refused [of e]) (simp_all add: runnerResult_def)
next
  case (Inr p)
  obtain run digest where p: "p = (run, digest)" by (cases p)
  obtain v db1 where v: "(case Run_BuildReport run of None \<Rightarrow> (Inr (), db) | Some b \<Rightarrow> verifyBuildObjects env (Run_JobID run) b order db) = (v, db1)"
    by (cases "case Run_BuildReport run of None \<Rightarrow> (Inr (), db) | Some b \<Rightarrow> verifyBuildObjects env (Run_JobID run) b order db")
  then have "quiet db db1" by (auto split: option.splits dest: verifyBuildObjects_quiet)
  with assms Inr p v show ?thesis
    unfolding runnerResult_def by (auto split: sum.splits intro: Refused Committed)
qed

lemma runnerResult_runs:
  assumes "runs_inv sv db" "runnerResult sv env dr now host jid envelope token order db = (r, db')"
  shows "runs_inv sv db'"
  using assms(2)
proof (cases rule: runnerResult_commit)
  case (Refused e)
  with assms(1) show ?thesis by (simp add: runs_inv_quiet)
next
  case (Committed run digest db1 reply)
  from commit_run_runs [OF runs_inv_quiet [OF Committed(2) assms(1)] Committed(1,4)] show ?thesis by simp
qed

section \<open>The other handlers\<close>

lemma cancel_moves:
  assumes "runs_inv sv db"
  shows "moves (open_job vid) cancel_row (PD_jobs db)"
proof -
  have "payload_ok j" if "j \<in> set (PD_jobs db)" for j using assms that by (simp add: runs_inv_def jobs_inv_def)
  then show ?thesis unfolding moves_def by (auto simp: open_job_def same_row_def cancel_row_def payload_ok_def)
qed

lemma resolved_runs:
  assumes "runs_inv sv db"
  shows "runs_inv sv (resolved vid db)"
proof -
  have "runs_inv sv (db\<lparr>PD_jobs := update_where (open_job vid) cancel_row (PD_jobs db)\<rparr>)"
    by (rule runs_inv_moves [OF assms cancel_moves [OF assms]]) simp_all
  then show ?thesis
    by (rule runs_inv_fields [where g = "\<lambda>s. if open_submission vid s then unscorable_row s else s"])
      (simp_all add: resolved_def update_where_def keeps_verdict_def open_submission_def unscorable_row_def)
qed

lemma editorDecision_runs:
  assumes "runs_inv sv db" "editorDecision sv dr now u vid action reason a db = Inr (st, i, db')"
  shows "runs_inv sv db'"
  using editorDecision_effect [OF assms(2)] assms(1) by (blast intro: runs_inv_quiet resolved_runs)

lemma publish_rows_effect:
  "quiet (db\<lparr>PD_submissions := update_where (\<lambda>s. Sub_ID s = sid) (\<lambda>s. s\<lparr>Sub_Public := True, Sub_PublishRequested := True\<rparr>) (PD_submissions db)\<rparr>)
    (publish_rows now sid db)"
  unfolding publish_rows_def
  by (rule quiet_trans [OF _ quiet_statements(5)], rule quiet_trans [OF _ quiet_statements(3)], rule quiet_statements(4))

lemma publishSubmission_effect:
  assumes "publishSubmission sv rid created now sid owner db = Inr (st, i, db')"
  shows "quiet db db' \<or> (\<exists>db1. quiet db db1 \<and>
    quiet (db1\<lparr>PD_submissions := update_where (\<lambda>s. Sub_ID s = sid) (\<lambda>s. s\<lparr>Sub_Public := True, Sub_PublishRequested := True\<rparr>) (PD_submissions db1)\<rparr>) db')"
proof -
  have adv: "quiet db (db\<lparr>PD_versions := update_where P (\<lambda>x. x\<lparr>CV_Frontier := Some sid\<rparr>) (PD_versions db)\<rparr>)" for P
    by (simp add: quiet_def numbers_def [symmetric])
  from assms consider "db' = db" | adv v d doc payload where
    "audit_event sv ''solution.published'' payload (publish_rows now sid (saveReceipt d doc owner True
      (if adv then db\<lparr>PD_versions := update_where (\<lambda>x. CV_ID x = v) (\<lambda>x. x\<lparr>CV_Frontier := Some sid\<rparr>) (PD_versions db)\<rparr> else db))) = Inr db'"
  proof -
    have early: "(if c then Inr a else r) = Inr y \<longleftrightarrow> c \<and> y = a \<or> \<not> c \<and> r = Inr y" for c :: bool and r y and a :: "int \<times> string \<times> platform_db"
      by auto
    from assms show ?thesis unfolding publishSubmission_def handler_simps early prod.inject sum.inject using that by blast
  qed
  then show ?thesis
  proof cases
    case (2 adv v d doc payload)
    let ?db1 = "saveReceipt d doc owner True (if adv then db\<lparr>PD_versions := update_where (\<lambda>x. CV_ID x = v) (\<lambda>x. x\<lparr>CV_Frontier := Some sid\<rparr>) (PD_versions db)\<rparr> else db)"
    have "quiet db ?db1" by (rule quiet_trans [OF _ quiet_statements(2)]) (simp add: adv)
    then show ?thesis using quiet_trans [OF publish_rows_effect audit_event_quiet [OF 2]] by blast
  qed simp
qed

lemma publishSubmission_runs:
  assumes "runs_inv sv db" "publishSubmission sv rid created now sid owner db = Inr (st, i, db')"
  shows "runs_inv sv db'"
proof -
  let ?f = "\<lambda>s. s\<lparr>Sub_Public := True, Sub_PublishRequested := True\<rparr>"
  have "runs_inv sv (x\<lparr>PD_submissions := update_where (\<lambda>s. Sub_ID s = sid) ?f (PD_submissions x)\<rparr>)" if "runs_inv sv x" for x
    using that by (rule runs_inv_fields [where g = "\<lambda>s. if Sub_ID s = sid then ?f s else s"]) (auto simp: update_where_def keeps_verdict_def)
  with publishSubmission_effect [OF assms(2)] assms(1) show ?thesis by (blast intro: runs_inv_quiet)
qed

lemma acceptIntent_runs:
  assumes "runs_inv sv db" "acceptIntent sv dr clock now iid owner db = Inr (st, sid, db')"
  shows "runs_inv sv db'"
  using assms(2)
proof (cases rule: acceptIntent_effect)
  case Same
  with assms(1) show ?thesis by simp
next
  case (New s v)
  then have "subs_inv sv (PD_jobs db) (PD_results db) (PD_submissions db @ [s])" "claims_inv (PD_submissions db @ [s]) (PD_claims db)"
    using assms(1) by (auto simp: runs_inv_def subs_inv_def claims_inv_def)
  with New(8) assms(1) show ?thesis by (simp add: runs_inv_def core_def)
qed

lemma adjudicate_one_runs:
  assumes "runs_inv sv (AS_db st)" "s \<in> set (PD_submissions (AS_db st))" "judge sv version m st s = Inr v"
    "adjudicate_one sv dr now version m st s accepted = Inr st1"
  shows "runs_inv sv (AS_db st1)"
proof -
  from assms(4) obtain v' where v': "judge sv version m st s = Inr v'"
    "finalize sv dr now version (AS_watermark st1) s accepted v' (AS_db st) = Inr (AS_db st1)" by (rule adjudicate_one_finalize)
  with assms(3) have v: "v' = v" by simp
  from v'(2) [unfolded v] obtain digest where
    e: "PD_submissions (AS_db st1) = update_where (\<lambda>x. Sub_ID x = Sub_ID s) (finalize_row (VD_publish v) digest) (PD_submissions (AS_db st))"
    "PD_claims (AS_db st1) = PD_claims (AS_db st) @ map (new_claim dr (Sub_ID s) digest) (VD_claims v)"
    "PD_jobs (AS_db st1) = PD_jobs (AS_db st)" "PD_results (AS_db st1) = PD_results (AS_db st)" by (rule finalize_effect)
  let ?g = "\<lambda>x. if Sub_ID x = Sub_ID s then finalize_row (VD_publish v) digest x else x"
  have "keeps_verdict x (?g x)" for x by (simp add: keeps_verdict_def)
  then have "subs_inv sv (PD_jobs (AS_db st)) (PD_results (AS_db st)) (map ?g (PD_submissions (AS_db st)))"
    "claims_inv (map ?g (PD_submissions (AS_db st))) (PD_claims (AS_db st))"
    using assms(1) by (auto simp: runs_inv_def intro: subs_inv_map claims_inv_keeps)
  moreover have "\<exists>x\<in>set (map ?g (PD_submissions (AS_db st))). Sub_ID x = Sub_ID s \<and> Sub_Outcome x = ''valid'' \<and> Sub_Status x = ''finalized''"
    if "VD_claims v \<noteq> []"
  proof -
    have "Sub_Outcome s = ''valid''" using judge_cases [OF assms(3)] that by auto
    with assms(2) show ?thesis by (intro bexI [of _ "finalize_row (VD_publish v) digest s"]) auto
  qed
  then have "\<forall>c\<in>set (map (new_claim dr (Sub_ID s) digest) (VD_claims v)). \<exists>x\<in>set (map ?g (PD_submissions (AS_db st))).
      Sub_ID x = MC_Submission c \<and> Sub_Outcome x = ''valid'' \<and> Sub_Status x = ''finalized''"
    by (cases "VD_claims v") (simp_all add: new_claim_def)
  ultimately show ?thesis using assms(1) e by (simp add: runs_inv_def claims_inv_def update_where_def ball_Un)
qed

lemma adjudicated_runs: "adjudicated sv dr now version m st ss st' \<Longrightarrow> runs_inv sv (AS_db st) \<Longrightarrow> runs_inv sv (AS_db st')"
proof (induction rule: adjudicated.induct)
  case (adjudicated_Cons st s doc v accepted st1 ss st')
  have "s \<in> set (PD_submissions (AS_db st))" using next_in_line_row(1) [OF adjudicated_Cons.hyps(1)] .
  from adjudicate_one_runs [OF adjudicated_Cons.prems this adjudicated_Cons.hyps(3,4)] show ?case by (rule adjudicated_Cons.IH)
qed

lemma adjudicate_runs:
  assumes "runs_inv sv db" "adjudicate sv dr now version db = Inr db'"
  shows "runs_inv sv db'"
  using assms(2)
proof (rule adjudicate_run)
  fix cv m best frontier ss st
  assume t: "adjudicated sv dr now version m \<lparr>AS_db = db, AS_watermark = CV_Watermark cv, AS_best = best,
      AS_bestID = CV_Best cv, AS_frontier = frontier, AS_frontierID = CV_Frontier cv\<rparr> ss st" and
    d: "db' = (AS_db st)\<lparr>PD_versions := update_where (\<lambda>v. CV_ID v = version)
      (\<lambda>v. v\<lparr>CV_Watermark := AS_watermark st, CV_Best := AS_bestID st, CV_Frontier := AS_frontierID st\<rparr>) (PD_versions db)\<rparr>"
  from adjudicated_runs [OF t] assms(1) have "runs_inv sv (AS_db st)" by simp
  then show ?thesis by (simp add: d runs_inv_def)
qed

lemma adjudicate_jobs:
  assumes "adjudicate sv dr now version db = Inr db'"
  shows "PD_jobs db' = PD_jobs db" "PD_results db' = PD_results db"
proof -
  from assms have "PD_jobs db' = PD_jobs db \<and> PD_results db' = PD_results db"
    by (rule adjudicate_run) (use adjudicated_tables in \<open>fastforce\<close>)
  then show "PD_jobs db' = PD_jobs db" "PD_results db' = PD_results db" by simp_all
qed

section \<open>Fencing\<close>

lemma claimRunnerJob_queued:
  assumes "claimRunnerJob sv env dr now host purposes locked db0 db = Inr (Some c, db')"
  obtains row j where "pick_job host purposes locked db0 = Some row" "j \<in> set (PD_jobs db)" "RJ_ID j = RJ_ID row" "RJ_Status j = ''queued''" "RJ_Fence j = RJ_Fence row"
proof -
  from assms obtain row job envelope where p: "pick_job host purposes locked db0 = Some row" and
    c: "commit_claim sv host (RJ_ID row) (RJ_Fence row) job envelope (CD_token dr) db = Inr db'"
    unfolding claimRunnerJob_def by (auto simp: handler_simps split: if_splits option.splits)
  from c have "list_ex (\<lambda>j. RJ_ID j = RJ_ID row \<and> RJ_Status j = ''queued'' \<and> RJ_Fence j = RJ_Fence row) (PD_jobs db)"
    unfolding commit_claim_def Let_def if_fail by simp
  with p that show ?thesis by (auto simp: list_ex_iff)
qed

lemma store_result_once:
  assumes "accept_run sv env dr now host envelope run digest row db = Inr (reply, db')" "payload_ok row"
  shows "PD_results db' = PD_results db @ [\<lparr>RR_Job = RJ_ID row, RR_Host = Host_ID host, RR_Digest = digest, RR_Envelope = envelope, RR_Result = run\<rparr>]"
    "\<forall>r\<in>set (PD_results db). RR_Job r \<noteq> RJ_ID row"
proof -
  have i: "Job_ID (RJ_Payload row) = RJ_ID row" using assms(2) by (simp add: payload_ok_def)
  from assms(1) obtain db1 where st: "store_result host (RJ_Payload row) envelope run digest (RJ_Version row) db = Inr db1" and "PD_results db' = PD_results db1"
  proof (cases rule: accept_run_steps)
    case (Build db1)
    then show ?thesis using that commitBuild_effect [OF Build(4)] insert_job_fields(1) by (fastforce simp: rebuilt_def quiet_fields)
  next
    case (Submission db1)
    then show ?thesis using that advance_tables by blast
  qed
  with store_result_effect(1,9) [OF st] i show
    "PD_results db' = PD_results db @ [\<lparr>RR_Job = RJ_ID row, RR_Host = Host_ID host, RR_Digest = digest, RR_Envelope = envelope, RR_Result = run\<rparr>]"
    "\<forall>r\<in>set (PD_results db). RR_Job r \<noteq> RJ_ID row" by simp_all
qed

end
