(* ===== verification/Accounts.thy ===== *)
theory Accounts
  imports Confirmed
begin

text \<open>
  The accounts of the platform.  Every version numbers its submissions 1, 2, 3, \<dots> without a gap, the submissions adjudicated are
  exactly those up to its watermark, and the reserved capacity is two units for every submission that is accepted and not
  adjudicated yet, never more than the maximum.
\<close>

abbreviation entry_id :: "string \<times> string \<times> int \<times> bool \<Rightarrow> string" where
  "entry_id e \<equiv> fst e"

abbreviation entry_version :: "string \<times> string \<times> int \<times> bool \<Rightarrow> string" where
  "entry_version e \<equiv> fst (snd e)"

abbreviation entry_sequence :: "string \<times> string \<times> int \<times> bool \<Rightarrow> int" where
  "entry_sequence e \<equiv> fst (snd (snd e))"

abbreviation entry_done :: "string \<times> string \<times> int \<times> bool \<Rightarrow> bool" where
  "entry_done e \<equiv> snd (snd (snd e))"

section \<open>The invariant\<close>

definition capacity_ok :: "(string \<times> string \<times> int \<times> bool) list \<Rightarrow> (string \<times> bool) list \<Rightarrow> int \<Rightarrow> int \<Rightarrow> bool" where
  "capacity_ok es reservations reserved maximum \<longleftrightarrow> distinct (map entry_id es) \<and> reservations = map (\<lambda>e. (entry_id e, entry_done e)) es \<and>
     reserved = 2 * tally (\<lambda>e. \<not> entry_done e) es \<and> reserved \<le> maximum"

definition sequence_ok :: "(string \<times> string \<times> int \<times> bool) list \<Rightarrow> string \<times> int \<times> int \<Rightarrow> bool" where
  "sequence_ok es = (\<lambda>(vid, nx, w). 0 \<le> w \<and> w \<le> nx \<and> map entry_sequence (filter (\<lambda>e. entry_version e = vid) es) = [1 .. nx] \<and>
     (\<forall>e\<in>set es. entry_version e = vid \<longrightarrow> entry_done e = (entry_sequence e \<le> w)))"

definition accounts_ok ::
    "(string \<times> string \<times> int \<times> bool) list \<times> (string \<times> bool) list \<times> int \<times> int \<times> (string \<times> int \<times> int) list \<Rightarrow> bool" where
  "accounts_ok = (\<lambda>(es, reservations, reserved, maximum, ns). capacity_ok es reservations reserved maximum \<and> distinct (map fst ns) \<and>
     (\<forall>n\<in>set ns. sequence_ok es n) \<and> (\<forall>e\<in>set es. entry_version e \<in> fst ` set ns))"

text \<open>The numbers are of type \<open>bigint\<close>: the accounts are kept as long as there are fewer than \<open>2 ^ 63\<close> submissions.\<close>

definition books :: "platform_db \<Rightarrow> bool" where
  "books db \<longleftrightarrow> (len (PD_submissions db) < 2 ^ 63 \<longrightarrow> accounts_ok (ledger db))"

lemma books_ledger: "ledger db' = ledger db \<Longrightarrow> books db \<Longrightarrow> books db'"
  unfolding books_def by (metis (no_types, lifting) ledger_def Pair_inject length_map len_def)

lemma books_quiet: "quiet db db' \<Longrightarrow> books db \<Longrightarrow> books db'"
  by (rule books_ledger [OF quiet_ledger])

section \<open>New versions and new submissions\<close>

lemma books_grown:
  assumes "grown db db'" "books db"
  shows "books db'"
proof -
  have c: "core db' = core db" using assms(1) by (simp add: grown_def)
  then have same: "PD_submissions db' = PD_submissions db" by (simp add: core_def)
  let ?es = "map entry (PD_submissions db)"
  have l: "ledger db' = (?es, PD_reservations db, PD_reserved db, PD_maximum db, numbers db')" using c by (simp add: ledger_def core_def)
  consider "numbers db' = numbers db" | vid where "numbers db' = numbers db @ [(vid, 0, 0)]" "distinct (map fst (numbers db'))"
    using assms(1) unfolding grown_def by blast
  then show ?thesis
  proof cases
    case 1
    then have "ledger db' = ledger db" unfolding l by (simp add: ledger_def)
    then show ?thesis using assms(2) by (rule books_ledger)
  next
    case (2 vid)
    have "accounts_ok (ledger db')" if "accounts_ok (ledger db)"
    proof -
      have a: "capacity_ok ?es (PD_reservations db) (PD_reserved db) (PD_maximum db)" "\<forall>n\<in>set (numbers db). sequence_ok ?es n"
        "\<forall>e\<in>set ?es. entry_version e \<in> fst ` set (numbers db)" using that by (simp_all add: accounts_ok_def ledger_def)
      have "vid \<notin> fst ` set (numbers db)" using 2 by auto
      then have "\<forall>e\<in>set ?es. entry_version e \<noteq> vid" using a(3) by blast
      then have "sequence_ok ?es (vid, 0, 0)" by (auto simp: sequence_ok_def filter_empty_conv)
      with a 2 show ?thesis by (auto simp: accounts_ok_def l)
    qed
    then show ?thesis using assms(2) by (simp add: books_def same)
  qed
qed

lemma sequence_ok_length:
  assumes "sequence_ok es (vid, nx, w)"
  shows "0 \<le> nx" "nx \<le> len es"
proof -
  have "int (length (map entry_sequence (filter (\<lambda>e. entry_version e = vid) es))) = nx"
    using assms by (auto simp: sequence_ok_def)
  moreover have "length (map entry_sequence (filter (\<lambda>e. entry_version e = vid) es)) \<le> length es" by simp
  ultimately show "0 \<le> nx" "nx \<le> len es" by (auto simp: len_def)
qed

lemma sequence_ok_append:
  assumes "sequence_ok es (vid, nx, w)"
  shows "sequence_ok (es @ [(sid, vid, nx + 1, False)]) (vid, nx + 1, w)"
proof -
  have "[1 .. nx + 1] = [1 .. nx] @ [nx + 1]" using sequence_ok_length(1) [OF assms] by (simp add: upto_rec2)
  then show ?thesis using assms by (auto simp: sequence_ok_def)
qed

lemma sequence_ok_other:
  assumes "sequence_ok es (x, nx, w)" "x \<noteq> vid"
  shows "sequence_ok (es @ [(sid, vid, n, False)]) (x, nx, w)"
  using assms by (auto simp: sequence_ok_def)

lemma capacity_ok_append:
  assumes "capacity_ok es reservations reserved maximum" "reserved + 2 \<le> maximum" "sid \<notin> entry_id ` set es"
  shows "capacity_ok (es @ [(sid, vid, n, False)]) (reservations @ [(sid, False)]) (reserved + 2) maximum"
  using assms by (auto simp: capacity_ok_def tally_def)

lemma acceptIntent_books:
  assumes "books db" "acceptIntent sv dr clock now iid owner db = Inr (st, sid, db')"
  shows "books db'"
  using assms(2)
proof (cases rule: acceptIntent_effect)
  case Same
  with assms(1) show ?thesis by simp
next
  case (New s v)
  let ?es = "map entry (PD_submissions db)" and ?vid = "Sub_Version s"
  have c: "PD_submissions db' = PD_submissions db @ [s]" "PD_reserved db' = PD_reserved db + 2" "PD_reservations db' = PD_reservations db @ [(Sub_ID s, False)]"
    "PD_maximum db' = PD_maximum db" using New(8) by (simp_all add: core_def)
  have "accounts_ok (ledger db')" if len: "len (PD_submissions db') < 2 ^ 63"
  proof -
    have "len (PD_submissions db) < 2 ^ 63" using len by (simp add: c)
    then have a: "capacity_ok ?es (PD_reservations db) (PD_reserved db) (PD_maximum db)" "distinct (map fst (numbers db))"
      "\<forall>n\<in>set (numbers db). sequence_ok ?es n" "\<forall>e\<in>set ?es. entry_version e \<in> fst ` set (numbers db)"
      using assms(1) by (simp_all add: books_def accounts_ok_def ledger_def)
    have v: "(?vid, CV_NextSequence v, CV_Watermark v) \<in> set (numbers db)"
      using find_set [OF New(1)] by (force simp: numbers_def number_def)
    note sv = a(3) [rule_format, OF v]
    have n: "Sub_Sequence s = CV_NextSequence v + 1"
      using New(2) sequence_ok_length [OF sv] len by (simp add: c int64_id len_def)
    have e: "entry s = (Sub_ID s, ?vid, CV_NextSequence v + 1, False)" using New(4) n by (simp add: entry_def)
    have seq: "sequence_ok (?es @ [entry s]) (renumber ?vid (Sub_Sequence s) x)" if x: "x \<in> set (numbers db)" for x
    proof -
      obtain y nx w where y: "x = (y, nx, w)" by (cases x)
      show ?thesis
      proof (cases "y = ?vid")
        case True
        then have "x = (?vid, CV_NextSequence v, CV_Watermark v)"
          using eq_key_imp_eq_value [OF a(2), of y "(nx, w)" "(CV_NextSequence v, CV_Watermark v)"] x v y by simp
        then show ?thesis using sequence_ok_append [OF sv, of "Sub_ID s"] by (simp add: renumber_def e n)
      next
        case False
        then show ?thesis using sequence_ok_other [OF a(3) [rule_format, OF x, unfolded y] False, of "Sub_ID s" "CV_NextSequence v + 1"]
          by (simp add: renumber_def y e)
      qed
    qed
    have keys: "map fst (numbers db') = map fst (numbers db)" unfolding New(9) by (simp add: renumber_def case_prod_beta)
    have "Sub_ID s \<notin> entry_id ` set ?es" using New(6) by (auto simp: entry_def)
    then have "capacity_ok (?es @ [entry s]) (PD_reservations db') (PD_reserved db') (PD_maximum db')"
      unfolding e c using capacity_ok_append [OF a(1)] New(5) by simp
    moreover have "\<forall>n\<in>set (numbers db'). sequence_ok (?es @ [entry s]) n" unfolding New(9) using seq by auto
    moreover have "fst ` set (numbers db') = fst ` set (numbers db)" by (metis keys set_map)
    then have "\<forall>x\<in>set (?es @ [entry s]). entry_version x \<in> fst ` set (numbers db')" using a(4) v by (auto simp: e intro: rev_image_eqI)
    ultimately show ?thesis using a(2) by (simp add: accounts_ok_def ledger_def c keys)
  qed
  then show ?thesis by (simp add: books_def)
qed

section \<open>Adjudication\<close>

definition capacity :: "platform_db \<Rightarrow> bool" where
  "capacity db \<longleftrightarrow> capacity_ok (map entry (PD_submissions db)) (PD_reservations db) (PD_reserved db) (PD_maximum db)"

text \<open>Marking the entries of one submission releases the units it holds, if any.\<close>

lemma capacity_ok_finish:
  assumes "capacity_ok es reservations reserved maximum"
  shows "capacity_ok (map (\<lambda>e. if entry_id e = sid then (entry_id e, entry_version e, entry_sequence e, True) else e) es)
    (update_where (\<lambda>r. r = (sid, False)) (\<lambda>_. (sid, True)) reservations)
    (reserved - (if tally (\<lambda>r. r = (sid, False)) reservations = 1 then 2 else 0)) maximum"
proof -
  let ?f = "\<lambda>e :: string \<times> string \<times> int \<times> bool. if entry_id e = sid then (entry_id e, entry_version e, entry_sequence e, True) else e"
  have a: "distinct (map entry_id es)" "reservations = map (\<lambda>e. (entry_id e, entry_done e)) es" "reserved = 2 * tally (\<lambda>e. \<not> entry_done e) es" "reserved \<le> maximum"
    using assms by (simp_all add: capacity_ok_def)
  have ids: "map entry_id (map ?f xs) = map entry_id xs" for xs by simp
  have res: "update_where (\<lambda>r. r = (sid, False)) (\<lambda>_. (sid, True)) (map (\<lambda>e. (entry_id e, entry_done e)) xs) = map (\<lambda>e. (entry_id e, entry_done e)) (map ?f xs)" for xs
    by (auto simp: update_where_def)
  have sum: "tally (\<lambda>e. \<not> entry_done e) xs = tally (\<lambda>e. \<not> entry_done e) (map ?f xs) + tally (\<lambda>e. entry_id e = sid \<and> \<not> entry_done e) xs" for xs
    by (induction xs) (auto simp: tally_def len_def)
  have one: "tally (\<lambda>e. entry_id e = sid \<and> \<not> entry_done e) xs = 0 \<or> tally (\<lambda>e. entry_id e = sid \<and> \<not> entry_done e) xs = 1"
    if "distinct (map entry_id xs)" for xs :: "(string \<times> string \<times> int \<times> bool) list"
    using that
  proof (induction xs)
    case (Cons x xs)
    have "filter (\<lambda>e. entry_id e = sid \<and> \<not> entry_done e) xs = []" if "entry_id x = sid"
    proof -
      have "entry_id e \<noteq> sid" if "e \<in> set xs" for e
        using imageI [OF that, of entry_id] \<open>entry_id x = sid\<close> Cons.prems by (metis distinct.simps(2) list.simps(9) set_map)
      then show ?thesis by (simp add: filter_empty_conv)
    qed
    then show ?case using Cons by (auto simp: tally_def len_def)
  qed (simp add: tally_def len_def)
  have t: "tally (\<lambda>r. r = (sid, False)) reservations = tally (\<lambda>e. entry_id e = sid \<and> \<not> entry_done e) es"
    unfolding a(2) tally_map by (simp add: tally_def)
  show ?thesis
    unfolding capacity_ok_def ids using a sum [of es] one [OF a(1)] res [of es] t by auto
qed

lemma finalize_capacity:
  assumes "capacity (AS_db st)" "adjudicate_one sv dr now version m st s accepted = Inr st1"
  shows "capacity (AS_db st1)"
proof -
  let ?f = "\<lambda>e :: string \<times> string \<times> int \<times> bool. if entry_id e = Sub_ID s then (entry_id e, entry_version e, entry_sequence e, True) else e"
  from assms(2) obtain v where "finalize sv dr now version (AS_watermark st1) s accepted v (AS_db st) = Inr (AS_db st1)" by (rule adjudicate_one_finalize)
  then obtain digest where
    e: "PD_submissions (AS_db st1) = update_where (\<lambda>x. Sub_ID x = Sub_ID s) (finalize_row (VD_publish v) digest) (PD_submissions (AS_db st))"
    "PD_maximum (AS_db st1) = PD_maximum (AS_db st)"
    "PD_reservations (AS_db st1) = update_where (\<lambda>r. r = (Sub_ID s, False)) (\<lambda>_. (Sub_ID s, True)) (PD_reservations (AS_db st))"
    "PD_reserved (AS_db st1) = PD_reserved (AS_db st) - (if tally (\<lambda>r. r = (Sub_ID s, False)) (PD_reservations (AS_db st)) = 1 then 2 else 0)"
    by (rule finalize_effect)
  have "map entry (PD_submissions (AS_db st1)) = map ?f (map entry (PD_submissions (AS_db st)))"
    unfolding e(1) update_where_def by (auto simp: entry_def finalize_row_def)
  then show ?thesis using capacity_ok_finish [OF assms(1) [unfolded capacity_def], of "Sub_ID s"] by (simp add: capacity_def e)
qed

lemma adjudicated_capacity: "adjudicated sv dr now version m st ss st' \<Longrightarrow> capacity (AS_db st) \<Longrightarrow> capacity (AS_db st')"
  by (induction rule: adjudicated.induct) (auto intro: finalize_capacity)

lemma accounts_numbers:
  assumes "accounts_ok (ledger db)" "len (PD_submissions db) < 2 ^ 63" "s \<in> set (PD_submissions db)"
  obtains nx w where "(Sub_Version s, nx, w) \<in> set (numbers db)" "1 \<le> Sub_Sequence s" "Sub_Sequence s \<le> nx" "nx < 2 ^ 63"
proof -
  let ?es = "map entry (PD_submissions db)"
  have a: "\<forall>n\<in>set (numbers db). sequence_ok ?es n" "\<forall>e\<in>set ?es. entry_version e \<in> fst ` set (numbers db)"
    using assms(1) by (simp_all add: accounts_ok_def ledger_def)
  have e: "entry s \<in> set ?es" "entry_version (entry s) = Sub_Version s" "entry_sequence (entry s) = Sub_Sequence s" using assms(3) by (auto simp: entry_def)
  with a(2) obtain nx w where n: "(Sub_Version s, nx, w) \<in> set (numbers db)" by force
  note q = a(1) [rule_format, OF n]
  have "Sub_Sequence s \<in> set (map entry_sequence (filter (\<lambda>e. entry_version e = Sub_Version s) ?es))" using e by force
  moreover have "map entry_sequence (filter (\<lambda>e. entry_version e = Sub_Version s) ?es) = [1 .. nx]" using q unfolding sequence_ok_def by simp
  ultimately have "Sub_Sequence s \<in> set [1 .. nx]" by (simp only:)
  then have "1 \<le> Sub_Sequence s" "Sub_Sequence s \<le> nx" by simp_all
  moreover have "nx < 2 ^ 63" using sequence_ok_length(2) [OF q] assms(2) by (simp add: len_def)
  ultimately show ?thesis using n that by blast
qed

lemma accounts_submissions_ok:
  assumes "accounts_ok (ledger db)" "len (PD_submissions db) < 2 ^ 63"
  shows "submissions_ok (PD_submissions db)"
proof -
  let ?es = "map entry (PD_submissions db)"
  have a: "capacity_ok ?es (PD_reservations db) (PD_reserved db) (PD_maximum db)" "\<forall>n\<in>set (numbers db). sequence_ok ?es n"
    using assms(1) by (simp_all add: accounts_ok_def ledger_def)
  have ids: "distinct (map Sub_ID (PD_submissions db))" using a(1) by (simp add: capacity_ok_def comp_def entry_def)
  have "s = t" if s: "s \<in> set (PD_submissions db)" "t \<in> set (PD_submissions db)" "Sub_Version s = Sub_Version t" "Sub_Sequence s = Sub_Sequence t" for s t
  proof -
    obtain nx w where n: "(Sub_Version s, nx, w) \<in> set (numbers db)" by (rule accounts_numbers [OF assms s(1)])
    have "distinct (map Sub_Sequence (filter (\<lambda>x. Sub_Version x = Sub_Version s) (PD_submissions db)))"
      using a(2) [rule_format, OF n] by (simp add: sequence_ok_def filter_map comp_def entry_def)
    then show ?thesis using s by (auto simp: distinct_map inj_on_def)
  qed
  then have "inj_on (\<lambda>s. (Sub_Version s, Sub_Sequence s)) (set (PD_submissions db))" by (auto simp: inj_on_def)
  moreover have "distinct (PD_submissions db)" using ids by (simp add: distinct_map)
  moreover have "\<forall>s\<in>set (PD_submissions db). 1 \<le> Sub_Sequence s \<and> Sub_Sequence s < 2 ^ 63"
  proof
    fix s assume "s \<in> set (PD_submissions db)"
    then show "1 \<le> Sub_Sequence s \<and> Sub_Sequence s < 2 ^ 63" by (rule accounts_numbers [OF assms]) simp
  qed
  ultimately show ?thesis using ids by (simp add: submissions_ok_def distinct_map)
qed

text \<open>The watermark moves over the submissions a run finalised.\<close>

lemma sequence_ok_finish:
  assumes "sequence_ok es (vid, nx, w)" "w \<le> w'" "w' \<le> nx"
    "map (\<lambda>e. (entry_version e, entry_sequence e)) es' = map (\<lambda>e. (entry_version e, entry_sequence e)) es"
    "\<forall>e\<in>set es'. entry_version e = vid \<longrightarrow> entry_done e = (entry_sequence e \<le> w')"
  shows "sequence_ok es' (vid, nx, w')"
proof -
  have eq: "map entry_sequence (filter (\<lambda>e. entry_version e = vid) xs) = map snd (filter (\<lambda>p. fst p = vid) (map (\<lambda>e. (entry_version e, entry_sequence e)) xs))"
    for xs :: "(string \<times> string \<times> int \<times> bool) list" by (simp add: filter_map comp_def)
  have "map entry_sequence (filter (\<lambda>e. entry_version e = vid) es') = map entry_sequence (filter (\<lambda>e. entry_version e = vid) es)"
    unfolding eq assms(4) ..
  with assms show ?thesis by (simp add: sequence_ok_def)
qed

definition remark :: "string \<Rightarrow> int \<Rightarrow> string \<times> int \<times> int \<Rightarrow> string \<times> int \<times> int" where
  "remark vid w' = (\<lambda>(x, nx, w). if x = vid then (x, nx, w') else (x, nx, w))"

lemma adjudicate_marks:
  assumes ok: "submissions_ok (PD_submissions db)" and
    g: "\<forall>s. g s = s \<and> Sub_ID s \<notin> Sub_ID ` fst ` set ss \<or> Sub_ID s \<in> Sub_ID ` fst ` set ss \<and> (\<exists>p digest. g s = finalize_row p digest s)" and
    rows: "\<forall>s\<in>fst ` set ss. s \<in> set (PD_submissions db) \<and> Sub_Version s = version \<and> Sub_Status s = ''validated''"
      "map (\<lambda>p. Sub_Sequence (fst p)) ss = [w + 1 .. w']" and s: "s \<in> set (PD_submissions db)"
  shows "entry (g s) = (Sub_ID s, Sub_Version s, Sub_Sequence s, Sub_Adjudication s \<noteq> None \<or> Sub_Version s = version \<and> w < Sub_Sequence s \<and> Sub_Sequence s \<le> w')"
proof -
  have hit: "Sub_ID s \<in> Sub_ID ` fst ` set ss \<longleftrightarrow> Sub_Version s = version \<and> w < Sub_Sequence s \<and> Sub_Sequence s \<le> w'"
  proof
    assume "Sub_ID s \<in> Sub_ID ` fst ` set ss"
    then obtain y where y: "y \<in> set ss" "Sub_ID s = Sub_ID (fst y)" by auto
    then have "fst y = s" using rows(1) submissions_okD(1) [OF ok s, of "fst y"] by auto
    moreover have "Sub_Sequence (fst y) \<in> set [w + 1 .. w']" unfolding rows(2) [symmetric] using y(1) by simp
    ultimately show "Sub_Version s = version \<and> w < Sub_Sequence s \<and> Sub_Sequence s \<le> w'" using rows(1) y(1) by auto
  next
    assume a: "Sub_Version s = version \<and> w < Sub_Sequence s \<and> Sub_Sequence s \<le> w'"
    with trace_position [OF rows(2), of "Sub_Sequence s"] obtain y where y: "y \<in> set ss" "Sub_Sequence (fst y) = Sub_Sequence s" by auto
    then have "fst y = s" using a rows(1) submissions_okD(2) [OF ok _ s, of "fst y"] by auto
    with y(1) show "Sub_ID s \<in> Sub_ID ` fst ` set ss" by auto
  qed
  from g [rule_format, of s] show ?thesis
  proof (elim disjE conjE exE)
    assume "g s = s" "Sub_ID s \<notin> Sub_ID ` fst ` set ss"
    moreover from this hit have "\<not> (Sub_Version s = version \<and> w < Sub_Sequence s \<and> Sub_Sequence s \<le> w')" by blast
    ultimately show ?thesis by (auto simp: entry_def)
  next
    fix p digest assume "Sub_ID s \<in> Sub_ID ` fst ` set ss" "g s = finalize_row p digest s"
    with hit show ?thesis by (simp add: entry_def) (simp add: finalize_row_def)
  qed
qed

lemma adjudicate_accounts:
  assumes "accounts_ok (ledger db)" "len (PD_submissions db) < 2 ^ 63" "adjudicate sv dr now version db = Inr db'"
  shows "accounts_ok (ledger db')"
proof -
  let ?es = "map entry (PD_submissions db)" and ?es' = "map entry (PD_submissions db')"
  have a: "capacity_ok ?es (PD_reservations db) (PD_reserved db) (PD_maximum db)" "distinct (map fst (numbers db))"
    "\<forall>n\<in>set (numbers db). sequence_ok ?es n" "\<forall>e\<in>set ?es. entry_version e \<in> fst ` set (numbers db)"
    using assms(1) by (simp_all add: accounts_ok_def ledger_def)
  have ok: "submissions_ok (PD_submissions db)" by (rule accounts_submissions_ok [OF assms(1,2)])
  from assms(3) obtain cv m where f: "find (\<lambda>v. CV_ID v = version) (PD_versions db) = Some cv" "CV_Manifest cv = Inr m"
    by (rule adjudicate_run)
  have v: "(version, CV_NextSequence cv, CV_Watermark cv) \<in> set (numbers db)" using find_set [OF f(1)] by (force simp: numbers_def number_def)
  note q = a(3) [rule_format, OF v]
  have w: "0 \<le> CV_Watermark cv" "CV_Watermark cv < 2 ^ 63"
    using q sequence_ok_length(2) [OF q] assms(2) by (auto simp: sequence_ok_def len_def)
  then have vs: "version_state version db cv m" using f ok by (simp add: version_state_def)
  from assms(3) vs obtain best frontier ss st g where t: "adjudicated sv dr now version m (started cv best frontier db) ss st" and
    e: "AS_watermark st \<le> CV_NextSequence cv" "AS_watermark st = CV_Watermark cv + len ss" and
    g: "PD_submissions (AS_db st) = map g (PD_submissions db)"
    "\<forall>s. g s = s \<and> Sub_ID s \<notin> Sub_ID ` fst ` set ss \<or> Sub_ID s \<in> Sub_ID ` fst ` set ss \<and> (\<exists>p digest. g s = finalize_row p digest s)" and
    rows: "\<forall>s\<in>fst ` set ss. s \<in> set (PD_submissions db) \<and> Sub_Version s = version \<and> Sub_Status s = ''validated''"
      "map (\<lambda>p. Sub_Sequence (fst p)) ss = [CV_Watermark cv + 1 .. AS_watermark st]" and
    d: "db' = (AS_db st)\<lparr>PD_versions := update_where (\<lambda>v. CV_ID v = version)
       (\<lambda>v. v\<lparr>CV_Watermark := AS_watermark st, CV_Best := AS_bestID st, CV_Frontier := AS_frontierID st\<rparr>) (PD_versions db)\<rparr>"
    by (rule adjudicate_trace)
  let ?w = "CV_Watermark cv" and ?w' = "AS_watermark st"
  note mark = adjudicate_marks [OF ok g(2) rows]
  have "capacity (AS_db st)" by (rule adjudicated_capacity [OF t]) (use a(1) in \<open>simp add: capacity_def\<close>)
  then have cap: "capacity_ok ?es' (PD_reservations db') (PD_reserved db') (PD_maximum db')" by (simp add: capacity_def d)
  have es': "?es' = map (entry \<circ> g) (PD_submissions db)" by (simp add: d g(1))
  have pairs: "map (\<lambda>e. (entry_version e, entry_sequence e)) ?es' = map (\<lambda>e. (entry_version e, entry_sequence e)) ?es"
    unfolding es' using mark by (simp add: entry_def)
  have ns: "numbers db' = map (remark version ?w') (numbers db)"
    by (simp add: d numbers_def update_where_def remark_def number_def)
  have keys: "map fst (numbers db') = map fst (numbers db)" unfolding ns by (simp add: remark_def case_prod_beta)
  have fin: "Sub_Adjudication s \<noteq> None \<longleftrightarrow> Sub_Sequence s \<le> x" if "s \<in> set (PD_submissions db)" "(Sub_Version s, n, x) \<in> set (numbers db)" for s n x
    using a(3) [rule_format, OF that(2)] that(1) by (auto simp: sequence_ok_def entry_def)
  have seq: "sequence_ok ?es' (remark version ?w' x)" if x: "x \<in> set (numbers db)" for x
  proof -
    obtain y nx wx where y: "x = (y, nx, wx)" by (cases x)
    note qx = a(3) [rule_format, OF x, unfolded y]
    show ?thesis
    proof (cases "y = version")
      case True
      then have eq: "nx = CV_NextSequence cv" "wx = ?w"
        using eq_key_imp_eq_value [OF a(2), of y "(nx, wx)" "(CV_NextSequence cv, ?w)"] x v y by simp_all
      have "\<forall>z\<in>set ?es'. entry_version z = version \<longrightarrow> entry_done z = (entry_sequence z \<le> ?w')"
        unfolding es' using mark fin v e(2) by (auto simp: len_def)
      then have "sequence_ok ?es' (version, nx, ?w')"
        by (intro sequence_ok_finish [OF qx [unfolded True] _ _ pairs]) (use eq e in \<open>simp_all add: len_def\<close>)
      then show ?thesis by (simp add: remark_def y True)
    next
      case False
      have "\<forall>z\<in>set ?es'. entry_version z = y \<longrightarrow> entry_done z = (entry_sequence z \<le> wx)"
        unfolding es' using mark fin x y False by auto
      then have "sequence_ok ?es' (y, nx, wx)"
        by (intro sequence_ok_finish [OF qx _ _ pairs]) (use qx in \<open>simp_all add: sequence_ok_def\<close>)
      then show ?thesis using False by (simp add: remark_def y)
    qed
  qed
  have "fst ` set (numbers db') = fst ` set (numbers db)" by (metis keys set_map)
  moreover have "entry_version ` set ?es' = entry_version ` set ?es"
    using arg_cong [OF pairs, of "\<lambda>l. fst ` set l"] by (simp add: image_image)
  ultimately have "\<forall>e\<in>set ?es'. entry_version e \<in> fst ` set (numbers db')" using a(4) by (metis (no_types, lifting) imageE imageI)
  moreover have "distinct (map fst (numbers db'))" using a(2) by (simp only: keys)
  moreover have "\<forall>n\<in>set (numbers db'). sequence_ok ?es' n" using seq by (simp add: ns)
  ultimately show ?thesis using cap by (simp add: accounts_ok_def ledger_def)
qed

lemma adjudicate_books:
  assumes "books db" "adjudicate sv dr now version db = Inr db'"
  shows "books db'"
proof -
  have "length (PD_submissions (AS_db st')) = length (PD_submissions (AS_db st))" if "adjudicated sv dr now version m st ss st'" for m st ss st'
    using that
  proof (induction rule: adjudicated.induct)
    case (adjudicated_Cons st s doc v accepted st1 ss st')
    from adjudicated_Cons.hyps(4) obtain v' where "finalize sv dr now version (AS_watermark st1) s accepted v' (AS_db st) = Inr (AS_db st1)"
      by (rule adjudicate_one_finalize)
    then have "length (PD_submissions (AS_db st1)) = length (PD_submissions (AS_db st))" by (rule finalize_effect) simp
    with adjudicated_Cons.IH show ?case by simp
  qed simp
  with assms(2) have "length (PD_submissions db') = length (PD_submissions db)" by (rule_tac adjudicate_run) fastforce+
  then show ?thesis using assms adjudicate_accounts by (auto simp: books_def len_def)
qed


section \<open>The handlers that leave the accounts alone\<close>

lemma insert_job_ledger: "insert_job row db = Inr db' \<Longrightarrow> ledger db' = ledger db"
  by (drule insert_job_fields(1)) (simp add: ledger_def)

lemma queueSubmission_ledger:
  assumes "queueSubmission sv jid created now sid db = Inr db'"
  shows "ledger db' = ledger db"
proof -
  from assms obtain job s where q: "queue_primary job now s db = Inr db'" by (rule queueSubmission_effect)
  have "entry (x\<lparr>Sub_Status := st\<rparr>) = entry x" for x st by (simp add: entry_def)
  with q show ?thesis by (auto simp: queue_primary_def res_bind_Inr_iff insert_job_def ledger_def split: if_splits)
qed

lemma queuePreparation_ledger:
  assumes "queuePreparation sv jid created now purpose pid version source artifact m db = Inr db'"
  shows "ledger db' = ledger db"
  using assms unfolding queuePreparation_def Let_def by (auto split: if_split_asm dest: insert_job_ledger)

lemma recoverRunnerLeases_ledger: "ledger (recoverRunnerLeases now db) = ledger db"
  by (simp add: recoverRunnerLeases_def ledger_def)

lemma claimRunnerJob_ledger:
  assumes "claimRunnerJob sv env dr now host purposes locked db0 db = Inr (r, db')"
  shows "ledger db' = ledger db"
  using claimRunnerJob_effect [OF assms] by (auto simp: commit_claim_def Let_def if_fail ledger_def)

lemma store_result_ledger:
  assumes "store_result host job envelope run digest version db = Inr db1"
  shows "ledger db1 = ledger db"
  using store_result_effect [OF assms] by (simp add: ledger_def)

lemma commitBuild_ledger:
  assumes "commitBuild sv env dr now job run digest version db = Inr db'"
  shows "ledger db' = ledger db"
  using commitBuild_effect [OF assms] by (auto simp: rebuilt_def dest!: quiet_ledger insert_job_ledger)

lemma accept_run_ledger:
  assumes "accept_run sv env dr now host envelope run digest row db = Inr (reply, db')"
  shows "ledger db' = ledger db"
  using assms
proof (cases rule: accept_run_steps)
  case (Build db1)
  then show ?thesis by (simp add: commitBuild_ledger store_result_ledger)
next
  case (Submission db1)
  then show ?thesis using advance_tables store_result_ledger by metis
qed

lemma commit_run_ledger:
  assumes "commit_run sv env dr now host envelope token run digest db = Inr (reply, db')"
  shows "ledger db' = ledger db"
  using assms
proof (cases rule: commit_run_cases)
  case (Accept row d)
  then show ?thesis by (simp add: accept_run_ledger)
qed (simp_all add: ledger_def)

lemma runnerResult_ledger:
  assumes "runnerResult sv env dr now host jid envelope token order db = (r, db')"
  shows "ledger db' = ledger db"
  using assms unfolding runnerResult_def
  by (auto split: sum.splits prod.splits option.splits dest!: verifyBuildObjects_quiet [THEN quiet_ledger] commit_run_ledger)

lemma editorDecision_ledger:
  assumes "editorDecision sv dr now u vid action reason a db = Inr (st, i, db')"
  shows "ledger db' = ledger db"
proof -
  have "entry (unscorable_row s) = entry s" for s by (simp add: entry_def unscorable_row_def)
  then have "ledger (resolved vid x) = ledger x" for x by (simp add: resolved_def ledger_def)
  with editorDecision_effect [OF assms] show ?thesis by (auto dest!: quiet_ledger)
qed

lemma publishSubmission_ledger:
  assumes "publishSubmission sv rid created now sid owner db = Inr (st, i, db')"
  shows "ledger db' = ledger db"
proof -
  have "entry (s\<lparr>Sub_Public := True, Sub_PublishRequested := True\<rparr>) = entry s" for s by (simp add: entry_def)
  then have "ledger (x\<lparr>PD_submissions := update_where P (\<lambda>s. s\<lparr>Sub_Public := True, Sub_PublishRequested := True\<rparr>) (PD_submissions x)\<rparr>) = ledger x" for x P
    by (simp add: ledger_def)
  with publishSubmission_effect [OF assms] show ?thesis by (auto dest!: quiet_ledger)
qed

lemmas ledger_kept = queueSubmission_ledger queuePreparation_ledger claimRunnerJob_ledger runnerResult_ledger editorDecision_ledger publishSubmission_ledger

end
