(* ===== verification/Suites.thy ===== *)
theory Suites
  imports Effects
begin

text \<open>
  The handlers of hidden suites (\<open>createSuite\<close> and \<open>revealSuite\<close> of \<open>internal/platform/suites.go\<close>): a creator uploads a secret
  suite, which is stored encrypted under a key that only the key custody can open, and reveals it after every season that
  uses it is over.

  Key custody, object storage and the decoder of the uploaded document are the record \<open>suite_env\<close>.  A reveal checks its
  conditions twice, before and inside its transaction, so \<open>revealSuite\<close> takes the two states it reads.  The columns
  \<open>provenance\<close> and \<open>license\<close> are written and never read, and are left out.
\<close>

record suite_env =
  SU_store :: bool
  SU_seal :: "(string \<Rightarrow> string \<Rightarrow> string res) option"
  SU_put :: "string \<Rightarrow> string res"
  SU_get :: "string \<Rightarrow> int \<Rightarrow> string res"
  SU_files :: "string \<Rightarrow> (string, string) gomap res"

section \<open>Uploads\<close>

definition suite_contract :: SubmissionContract where
  "suite_contract = \<lparr>Submission_Format = [], Submission_AllowedPaths = [''*''],
     Submission_AllowedExtensions = [''.json'', ''.txt'', ''.csv'', ''.tsv'', ''.dat'', ''.bin'', ''.npy''], Submission_MaxBytes = 2 ^ 20,
     Submission_MaxFiles = 1000, Submission_License = ''MIT''\<rparr>"

text \<open>The loop ranges over a map; every file that is not canonical base64 gives the same error.\<close>

definition validateSuiteDocument :: "'k service \<Rightarrow> source_env \<Rightarrow> suite_env \<Rightarrow> string \<Rightarrow> unit res" where
  "validateSuiteDocument sv src su document =
     res_bind (SU_files su document) (\<lambda>files.
     if list_ex (\<lambda>(name, encoded). b64_strict encoded = None) files then Inl (Err ''hidden file content must be canonical base64'') else
     res_bind (ArtifactFromFiles (SV_nfc src) (SV_cfold src) (SV_lower src) (Sha (scrypto sv)) (SV_canon src)
       (map (\<lambda>(name, encoded). (name, case b64_strict encoded of None \<Rightarrow> [] | Some b \<Rightarrow> b)) files) suite_contract) (\<lambda>_. Inr ()))"

definition encrypted_suite :: string where
  "encrypted_suite = ''application/vnd.science-ladder.encrypted-suite''"

definition store_suite ::
    "runner_env \<Rightarrow> suite_env \<Rightarrow> (string \<Rightarrow> string \<Rightarrow> string res) \<Rightarrow> string \<Rightarrow> string \<Rightarrow> string \<Rightarrow> User \<Rightarrow> string \<Rightarrow> platform_db \<Rightarrow> platform_db res" where
  "store_suite env su seal_box sid key salt u document db =
     res_bind (SealHiddenSuite (RE_hidden env) key salt document) (\<lambda>(ciphertext, material).
     res_bind (HE_Marshal (RE_hidden env) material) (\<lambda>plain.
     res_bind (seal_box plain (suiteAAD sid)) (\<lambda>sealed.
     res_bind (SU_put su ciphertext) (\<lambda>digest.
     let db1 = add_artifact digest digest (len ciphertext) encrypted_suite (U_ID u) db in
     res_bind (insert_row (\<lambda>h. HS_ID h = sid \<or> HS_Commitment h = Material_Commitment material)
       \<lparr>HS_ID = sid, HS_Owner = U_ID u, HS_Commitment = Material_Commitment material, HS_Ciphertext = digest, HS_Material = sealed,
         HS_Revealed = None, HS_Receipt = None\<rparr> (PD_suites db1)) (\<lambda>suites.
     Inr (db1\<lparr>PD_suites := suites\<rparr>))))))"

text \<open>\<open>key\<close> and \<open>salt\<close> are drawn at random and \<open>replayed\<close> is what \<open>replayBeforeFetch\<close> found.  The budget is spent in a transaction of
  its own, before the suite is sealed.\<close>

definition createSuite ::
    "'k service \<Rightarrow> runner_env \<Rightarrow> source_env \<Rightarrow> suite_env \<Rightarrow> int \<Rightarrow> string \<Rightarrow> string \<Rightarrow> string \<Rightarrow> User \<Rightarrow> int \<Rightarrow> string \<Rightarrow> string \<Rightarrow> string
      \<Rightarrow> (int \<times> string) option res \<Rightarrow> platform_db \<Rightarrow> (int \<times> string) res \<times> platform_db" where
  "createSuite sv env src su day sid key salt u elsewhere document license provenance replayed db =
     (case (if SU_store su then SU_seal su else None) of None \<Rightarrow> (http_fail ''hidden_suite_storage_unconfigured'', db) | Some seal_box \<Rightarrow>
      if len license < 2 \<or> len provenance < 20 then (http_fail ''suite_rights_required'', db)
      else if \<not> is_ok (validateSuiteDocument sv src su document) then (http_fail ''suite_document_invalid'', db)
      else case replayed of Inl e \<Rightarrow> (Inl e, db) | Inr (Some resp) \<Rightarrow> (Inr resp, db) | Inr None \<Rightarrow>
      case reserveFetch sv day u elsewhere db of Inl e \<Rightarrow> (Inl e, db) | Inr db1 \<Rightarrow>
      case store_suite env su seal_box sid key salt u document db1 of Inl e \<Rightarrow> (Inl e, db1) | Inr db2 \<Rightarrow> (Inr (201, sid), db2))"

section \<open>Reveals\<close>

text \<open>A manifest that does not decode names no suite: the handlers that write the column store decoded manifests.\<close>

definition bound_version :: "string \<Rightarrow> challenge_version \<Rightarrow> bool" where
  "bound_version commitment v = (case CV_Manifest v of Inl _ \<Rightarrow> False | Inr m \<Rightarrow> Suite_Commitment (Manifest_Suite m) = commitment)"

definition season_over :: "go_time \<Rightarrow> challenge_version \<Rightarrow> bool" where
  "season_over now v = ((CV_Intake v = ''closed'' \<or> CV_Deadline v < now) \<and>
     (case CV_Manifest v of Inl _ \<Rightarrow> False | Inr m \<Rightarrow> (case Suite_RevealAt (Manifest_Suite m) of None \<Rightarrow> False | Some t \<Rightarrow> t \<le> now)))"

definition reveal_due :: "go_time \<Rightarrow> platform_db \<Rightarrow> string \<Rightarrow> bool" where
  "reveal_due now db commitment = (let vs = filter (bound_version commitment) (PD_versions db) in vs \<noteq> [] \<and> list_all (season_over now) vs)"

definition suite_disk :: "platform_db \<Rightarrow> string \<Rightarrow> string \<Rightarrow> bool" where
  "suite_disk db commitment d = list_ex (\<lambda>up. UP_Digest up = d \<and> UP_Role up = ''suiteDisk'' \<and> UP_Verified up \<and>
     list_ex (\<lambda>j. RJ_ID j = UP_Job up \<and> list_ex (\<lambda>v. CV_ID v = RJ_Version j \<and> bound_version commitment v) (PD_versions db)) (PD_jobs db)) (PD_uploads db)"

definition reveal_receipt :: "'k service \<Rightarrow> string \<Rightarrow> go_time \<Rightarrow> string \<Rightarrow> SuiteKeyMaterial \<Rightarrow> string \<Rightarrow> string \<Rightarrow> Receipt" where
  "reveal_receipt sv rid created sid material digest commitment =
     \<lparr>Receipt_VerificationPolicy = [], Receipt_VerificationStatus = [], Receipt_DeploymentMode = deployment sv, Receipt_OfficialAcceptance = False,
      Receipt_APIVersion = APIVersion, Receipt_Kind = ''SuiteRevealReceipt'', Receipt_ID = rid, Receipt_CreatedAt = created,
      Receipt_Producer = ''science-ladder'', Receipt_SubjectDigest = commitment, Receipt_EconomicMode = ''none'',
      Receipt_Data = [(''suiteId'', JStr sid), (''commitment'', JStr commitment), (''plaintextDigest'', JStr (Material_PlaintextDigest material)),
        (''sourceDigest'', JStr digest), (''sourceFormat'', JStr ''encrypted-suite-object-v1''), (''encryptionRole'', JStr ''source''),
        (''salt'', JStr (b64_encode (Material_Salt material))), (''suiteKey'', JStr (b64_encode (Material_Key material)))]\<rparr>"

text \<open>The transaction.\<close>

definition commit_reveal ::
    "'k service \<Rightarrow> string \<Rightarrow> go_time \<Rightarrow> go_time \<Rightarrow> User \<Rightarrow> string \<Rightarrow> string \<Rightarrow> SuiteKeyMaterial \<Rightarrow> string \<Rightarrow> platform_db \<Rightarrow> (int \<times> platform_db) res" where
  "commit_reveal sv rid created now u sid commitment material digest db =
     res_bind (select_row (\<lambda>h. HS_ID h = sid \<and> HS_Owner h = U_ID u) (PD_suites db)) (\<lambda>h.
     if \<not> reveal_due now db commitment then http_fail ''suite_reveal_not_due''
     else if HS_Revealed h \<noteq> None then Inr (200, db) else
     let doc = DocReceipt (reveal_receipt sv rid created sid material digest commitment) in
     res_bind (Digest sv doc) (\<lambda>rd.
     let db1 = saveReceipt rd doc (U_ID u) True (publish_artifacts now (\<lambda>d. d = digest \<or> suite_disk db commitment d) db) in
     Inr (200, db1\<lparr>PD_suites := update_where (\<lambda>h. HS_ID h = sid) (\<lambda>h. h\<lparr>HS_Revealed := Some now, HS_Receipt := Some rd\<rparr>) (PD_suites db1)\<rparr>)))"

definition revealSuite ::
    "'k service \<Rightarrow> runner_env \<Rightarrow> suite_env \<Rightarrow> string \<Rightarrow> go_time \<Rightarrow> go_time \<Rightarrow> go_time \<Rightarrow> User \<Rightarrow> string \<Rightarrow> platform_db \<Rightarrow> platform_db \<Rightarrow> (int \<times> platform_db) res" where
  "revealSuite sv env su rid created earlier now u sid db0 db =
     res_bind (select_row (\<lambda>h. HS_ID h = sid \<and> HS_Owner h = U_ID u) (PD_suites db0)) (\<lambda>h.
     let commitment = HS_Commitment h in
     if \<not> reveal_due earlier db0 commitment then http_fail ''suite_reveal_not_due'' else
     res_bind (suiteMaterial env db0 commitment) (\<lambda>(material, digest).
     res_bind (SU_get su digest (3 * 2 ^ 20)) (\<lambda>ciphertext.
     res_bind (DecryptSuiteObject (RE_hidden env) material ciphertext ''source'') (\<lambda>_.
     commit_reveal sv rid created now u sid commitment material digest db))))"

section \<open>Properties\<close>

lemma reveal_dueD:
  assumes "reveal_due now db commitment" "v \<in> set (PD_versions db)" "CV_Manifest v = Inr m" "Suite_Commitment (Manifest_Suite m) = commitment"
  shows "(CV_Intake v = ''closed'' \<or> CV_Deadline v < now) \<and> (\<exists>t. Suite_RevealAt (Manifest_Suite m) = Some t \<and> t \<le> now)"
  using assms by (fastforce simp: reveal_due_def Let_def list_all_iff season_over_def bound_version_def split: option.splits)

lemma suiteMaterial_commitment:
  assumes "suiteMaterial env db commitment = Inr (material, digest)"
  shows "Material_Commitment material = commitment" "\<exists>h\<in>set (PD_suites db). HS_Commitment h = commitment \<and> HS_Ciphertext h = digest"
proof -
  from assms obtain h open_box plain where "find (\<lambda>h. HS_Commitment h = commitment) (PD_suites db) = Some h" "HS_Ciphertext h = digest"
    "Material_Commitment material = commitment"
    unfolding suiteMaterial_def by (auto simp: res_bind_Inr_iff select_row_Inr split: option.splits if_splits)
  then show "Material_Commitment material = commitment" "\<exists>h\<in>set (PD_suites db). HS_Commitment h = commitment \<and> HS_Ciphertext h = digest"
    using find_set by fastforce+
qed

lemma commit_reveal_effect:
  assumes "commit_reveal sv rid created now u sid commitment material digest db = Inr (st, db')"
  obtains (Known) "db' = db"
    | (Reveal) rd where "reveal_due now db commitment" "Digest sv (DocReceipt (reveal_receipt sv rid created sid material digest commitment)) = Inr rd"
      "PD_suites db' = update_where (\<lambda>h. HS_ID h = sid) (\<lambda>h. h\<lparr>HS_Revealed := Some now, HS_Receipt := Some rd\<rparr>) (PD_suites db)"
      "PD_artifacts db' = PD_artifacts (publish_artifacts now (\<lambda>d. d = digest \<or> suite_disk db commitment d) db)"
      "rd \<in> RC_Digest ` set (PD_receipts db')"
proof -
  let ?doc = "DocReceipt (reveal_receipt sv rid created sid material digest commitment)"
  let ?pub = "publish_artifacts now (\<lambda>d. d = digest \<or> suite_disk db commitment d) db"
  from assms consider "db' = db" | rd where "reveal_due now db commitment" "Digest sv ?doc = Inr rd"
    "db' = (saveReceipt rd ?doc (U_ID u) True ?pub)\<lparr>PD_suites := update_where (\<lambda>h. HS_ID h = sid)
      (\<lambda>h. h\<lparr>HS_Revealed := Some now, HS_Receipt := Some rd\<rparr>) (PD_suites (saveReceipt rd ?doc (U_ID u) True ?pub))\<rparr>"
    unfolding commit_reveal_def Let_def by (auto simp: handler_simps split: if_splits)
  then show ?thesis
  proof cases
    case (2 rd)
    then show ?thesis
      by (intro Reveal [of rd]) (auto simp: saveReceipt_def enqueue_def publish_artifacts_def new_receipt_def list_ex_iff)
  qed (rule Known)
qed

text \<open>C14: a hidden suite is revealed only when every season that uses it is over and its reveal time has passed.  The key material that
  the receipt makes public is the one the suite is committed to, and it decrypts the stored suite; beside it, nothing becomes
  public but the encrypted suite and verified suite disks of those seasons.\<close>

theorem suite_revealed_when_due:
  assumes "revealSuite sv env su rid created earlier now u sid db0 db = Inr (st, db')" "PD_suites db' \<noteq> PD_suites db"
  shows "\<exists>h material digest ciphertext plaintext. h \<in> set (PD_suites db0) \<and> HS_ID h = sid \<and> HS_Owner h = U_ID u \<and>
    (\<forall>v\<in>set (PD_versions db). \<forall>m. CV_Manifest v = Inr m \<and> Suite_Commitment (Manifest_Suite m) = HS_Commitment h \<longrightarrow>
      (CV_Intake v = ''closed'' \<or> CV_Deadline v < now) \<and> (\<exists>t. Suite_RevealAt (Manifest_Suite m) = Some t \<and> t \<le> now)) \<and>
    validateSuiteMaterial (RE_hidden env) material = Inr () \<and> Material_Commitment material = HS_Commitment h \<and>
    SU_get su digest (3 * 2 ^ 20) = Inr ciphertext \<and> DecryptSuiteObject (RE_hidden env) material ciphertext ''source'' = Inr plaintext \<and>
    (\<exists>rd. Digest sv (DocReceipt (reveal_receipt sv rid created sid material digest (HS_Commitment h))) = Inr rd \<and> rd \<in> RC_Digest ` set (PD_receipts db')) \<and>
    (\<forall>a'\<in>set (PD_artifacts db'). AF_Public a' \<noteq> None \<longrightarrow> (\<exists>a\<in>set (PD_artifacts db). AF_Digest a = AF_Digest a' \<and>
      (AF_Public a \<noteq> None \<or> AF_Digest a = digest \<or> suite_disk db (HS_Commitment h) (AF_Digest a))))"
proof -
  from assms(1) obtain h material digest ciphertext plaintext where
    h: "find (\<lambda>h. HS_ID h = sid \<and> HS_Owner h = U_ID u) (PD_suites db0) = Some h" and m: "suiteMaterial env db0 (HS_Commitment h) = Inr (material, digest)" and
    g: "SU_get su digest (3 * 2 ^ 20) = Inr ciphertext" "DecryptSuiteObject (RE_hidden env) material ciphertext ''source'' = Inr plaintext" and
    c: "commit_reveal sv rid created now u sid (HS_Commitment h) material digest db = Inr (st, db')"
    unfolding revealSuite_def by (auto simp: handler_simps)
  have v: "validateSuiteMaterial (RE_hidden env) material = Inr ()" using g(2) unfolding DecryptSuiteObject_def by (simp add: res_bind_Inr_iff)
  from c show ?thesis
  proof (cases rule: commit_reveal_effect)
    case Known
    with assms(2) show ?thesis by simp
  next
    case (Reveal rd)
    have "\<forall>a'\<in>set (PD_artifacts db'). AF_Public a' \<noteq> None \<longrightarrow> (\<exists>a\<in>set (PD_artifacts db). AF_Digest a = AF_Digest a' \<and>
      (AF_Public a \<noteq> None \<or> AF_Digest a = digest \<or> suite_disk db (HS_Commitment h) (AF_Digest a)))"
      unfolding Reveal(4) publish_artifacts_def by (auto simp: set_update_where split: if_splits)
    moreover have "\<forall>v\<in>set (PD_versions db). \<forall>m. CV_Manifest v = Inr m \<and> Suite_Commitment (Manifest_Suite m) = HS_Commitment h \<longrightarrow>
      (CV_Intake v = ''closed'' \<or> CV_Deadline v < now) \<and> (\<exists>t. Suite_RevealAt (Manifest_Suite m) = Some t \<and> t \<le> now)"
      using reveal_dueD [OF Reveal(1)] by blast
    ultimately show ?thesis
      using find_set [OF h] v suiteMaterial_commitment(1) [OF m] g Reveal(2,5)
      by (intro exI [of _ h] exI [of _ material] exI [of _ digest] exI [of _ ciphertext] exI [of _ plaintext]) blast
  qed
qed

section \<open>What the handlers leave alone\<close>

lemma suite_columns [simp]: "quiet db (db\<lparr>PD_suites := x\<rparr>)"
  by (simp add: quiet_def core_def numbers_def)

lemma createSuite_quiet:
  assumes "createSuite sv env src su day sid key salt u n document license provenance replayed db = (r, db')"
  shows "quiet db db'"
proof -
  have store: "quiet db1 db2" if "store_suite env su box sid key salt u document db1 = Inr db2" for box db1 db2
  proof -
    from that obtain digest k suites where "db2 = (add_artifact digest digest k encrypted_suite (U_ID u) db1)\<lparr>PD_suites := suites\<rparr>"
      unfolding store_suite_def by (auto simp: handler_simps)
    then show ?thesis by (simp add: quiet_trans [OF quiet_statements(6) suite_columns])
  qed
  from assms consider "db' = db" | db1 where "reserveFetch sv day u n db = Inr db1" "db' = db1"
    | db1 box where "reserveFetch sv day u n db = Inr db1" "store_suite env su box sid key salt u document db1 = Inr db'"
    unfolding createSuite_def by (auto split: option.splits if_splits sum.splits)
  then show ?thesis by cases (auto intro: reserveFetch_quiet quiet_trans store)
qed

lemma revealSuite_quiet:
  assumes "revealSuite sv env su rid created earlier now u sid db0 db = Inr (st, db')"
  shows "quiet db db'"
proof -
  from assms obtain commitment material digest where "commit_reveal sv rid created now u sid commitment material digest db = Inr (st, db')"
    unfolding revealSuite_def by (auto simp: handler_simps)
  then consider "db' = db" | rd doc P suites where "db' = (saveReceipt rd doc (U_ID u) True (publish_artifacts now P db))\<lparr>PD_suites := suites\<rparr>"
    unfolding commit_reveal_def Let_def by (auto simp: handler_simps split: if_splits)
  then show ?thesis
  proof cases
    case (2 rd doc P suites)
    show ?thesis unfolding 2 by (rule quiet_trans [OF _ suite_columns], rule quiet_trans [OF _ quiet_statements(2)], rule quiet_statements(4))
  qed simp
qed

end
