(* ===== verification/GoURL.thy ===== *)
theory GoURL
  imports Manifest
begin

text \<open>
  The methods \<open>Hostname\<close> and \<open>Port\<close> of a parsed URL (\<open>net/url\<close>), computed from its host.  Parsing itself is the argument of
  type \<open>url_parser\<close>.
\<close>

definition split_port :: "string \<Rightarrow> string \<times> string" where
  "split_port host =
     (let back = takeWhile (\<lambda>c. c \<noteq> CHR '':'') (rev host);
          (h, p) = (if CHR '':'' \<in> set host \<and> list_all is_digit back then (take (length host - length back - 1) host, rev back) else (host, []))
      in (if prefix ''['' h \<and> suffix '']'' h then butlast (tl h) else h, p))"

end
