(* ===== verification/Sources.thy ===== *)
theory Sources
  imports Effects GoURL "HOL-Library.Word"
begin

text \<open>
  Retrieval of the literature that a candidate or a challenge cites (\<open>internal/platform/review.go\<close>): which addresses the client may
  connect to, what text of a page counts as evidence, and the status \<open>resolveSources\<close> gives.

  The HTTP client is the argument \<open>SO_do\<close>, a function of the two policies the source gives it (\<open>DialContext\<close> and \<open>CheckRedirect\<close>).
  The parser of \<open>golang.org/x/net/html\<close> is \<open>SO_html\<close>, and \<open>time.Parse\<close> with a layout is \<open>SO_date\<close>, which gives the instant together
  with its date in the form \<open>2006-01-02\<close>.  \<open>SO_fiveYears\<close> is \<open>time.Now().AddDate(-5, 0, 0)\<close>.  A URL that \<open>url.Parse\<close> accepts
  makes \<open>http.NewRequestWithContext\<close> succeed, so the branch that returns its error is left out.
\<close>

section \<open>Addresses\<close>

datatype ip_addr = V4 "32 word" | V6 "128 word"

definition be_val :: "string \<Rightarrow> int" where
  "be_val bs = foldl (\<lambda>n c. 256 * n + code c) 0 bs"

definition AddrFromSlice :: "string \<Rightarrow> ip_addr option" where
  "AddrFromSlice bs = (if length bs = 4 then Some (V4 (word_of_int (be_val bs)))
     else if length bs = 16 then Some (V6 (word_of_int (be_val bs))) else None)"

fun Unmap :: "ip_addr \<Rightarrow> ip_addr" where
  "Unmap (V4 w) = V4 w"
| "Unmap (V6 w) = (if drop_bit 32 w = 0xffff then V4 (ucast w) else V6 w)"

fun prefix_contains :: "ip_addr \<times> nat \<Rightarrow> ip_addr \<Rightarrow> bool" where
  "prefix_contains (V4 p, n) (V4 a) = (drop_bit (32 - n) a = drop_bit (32 - n) p)"
| "prefix_contains (V6 p, n) (V6 a) = (drop_bit (128 - n) a = drop_bit (128 - n) p)"
| "prefix_contains _ _ = False"

definition net4 :: "int \<Rightarrow> int \<Rightarrow> int \<Rightarrow> int \<Rightarrow> nat \<Rightarrow> ip_addr \<times> nat" where
  "net4 a b c d n = (V4 (word_of_int (((a * 256 + b) * 256 + c) * 256 + d)), n)"

text \<open>A network of version 6 by its first three groups.\<close>

definition net6 :: "int \<Rightarrow> int \<Rightarrow> int \<Rightarrow> nat \<Rightarrow> ip_addr \<times> nat" where
  "net6 a b c n = (V6 (word_of_int (((a * 65536 + b) * 65536 + c) * 2 ^ 80)), n)"

definition IsLoopback :: "ip_addr \<Rightarrow> bool" where
  "IsLoopback a = (prefix_contains (net4 127 0 0 0 8) a \<or> a = V6 1)"

definition IsMulticast :: "ip_addr \<Rightarrow> bool" where
  "IsMulticast a = (prefix_contains (net4 224 0 0 0 4) a \<or> prefix_contains (net6 0xff00 0 0 8) a)"

definition IsLinkLocalUnicast :: "ip_addr \<Rightarrow> bool" where
  "IsLinkLocalUnicast a = (prefix_contains (net4 169 254 0 0 16) a \<or> prefix_contains (net6 0xfe80 0 0 10) a)"

definition IsPrivate :: "ip_addr \<Rightarrow> bool" where
  "IsPrivate a = (prefix_contains (net4 10 0 0 0 8) a \<or> prefix_contains (net4 172 16 0 0 12) a \<or> prefix_contains (net4 192 168 0 0 16) a \<or>
     prefix_contains (net6 0xfc00 0 0 7) a)"

definition IsGlobalUnicast :: "ip_addr \<Rightarrow> bool" where
  "IsGlobalUnicast a = (a \<noteq> V4 0 \<and> a \<noteq> V4 0xffffffff \<and> a \<noteq> V6 0 \<and> \<not> IsLoopback a \<and> \<not> IsMulticast a \<and> \<not> IsLinkLocalUnicast a)"

definition special_networks :: "(ip_addr \<times> nat) list" where
  "special_networks = [net4 0 0 0 0 8, net4 100 64 0 0 10, net4 192 0 0 0 24, net4 192 0 2 0 24, net4 198 18 0 0 15, net4 198 51 100 0 24,
     net4 203 0 113 0 24, net4 240 0 0 0 4, net6 0x2001 0xdb8 0 32, net6 0x64 0xff9b 0 96, net6 0x64 0xff9b 1 48, net6 0x2002 0 0 16,
     net6 0x2001 0 0 32, net6 0 0 0 96]"

definition public_addr :: "ip_addr \<Rightarrow> bool" where
  "public_addr a = (if \<not> IsGlobalUnicast a \<or> IsPrivate a \<or> IsLoopback a \<or> IsLinkLocalUnicast a then False
     else \<not> list_ex (\<lambda>net. prefix_contains net a) special_networks)"

definition publicIP :: "string \<Rightarrow> bool" where
  "publicIP ip = (case AddrFromSlice ip of None \<Rightarrow> False | Some a \<Rightarrow> public_addr (Unmap a))"

section \<open>The client\<close>

record page =
  PG_Status :: int
  PG_Type :: string
  PG_Body :: "string res"

record source_client =
  SC_dial :: "string \<Rightarrow> string res"
  SC_redirect :: "nat \<Rightarrow> (string \<times> string \<times> bool) \<Rightarrow> unit res"

datatype html_kind = TextNode | ElementNode | OtherNode

datatype html = Html (H_Type: html_kind) (H_Data: string) (H_Attr: "(string \<times> string) list") (H_Children: "html list")

record sources_env =
  SO_url :: url_parser
  SO_lower :: "int \<Rightarrow> int"
  SO_lookup :: "string \<Rightarrow> string list res"
  SO_do :: "source_client \<Rightarrow> string \<Rightarrow> page res"
  SO_html :: "string \<Rightarrow> html option"
  SO_date :: "string \<Rightarrow> string \<Rightarrow> (go_time \<times> string) option"
  SO_fiveYears :: go_time

text \<open>The address that is dialled.\<close>

definition source_dial :: "(string \<Rightarrow> string list res) \<Rightarrow> string \<Rightarrow> string res" where
  "source_dial lookup_ip host = res_bind (lookup_ip host) (\<lambda>ips.
     case ips of [] \<Rightarrow> Inl (Err ''source DNS returned no address'') | ip # _ \<Rightarrow>
     if list_ex (\<lambda>i. \<not> publicIP i) ips then Inl (Err ''source resolves to a non-public network'') else Inr ip)"

definition check_redirect :: "nat \<Rightarrow> (string \<times> string \<times> bool) \<Rightarrow> unit res" where
  "check_redirect via u = (case u of (scheme, host, user) \<Rightarrow>
     if via \<ge> 5 then Inl (Err ''too many redirects'')
     else if scheme \<noteq> ''https'' \<or> user \<or> snd (split_port host) \<notin> {[], ''443''} then Inl (Err ''unsafe source redirect'') else Inr ())"

definition sourceClient :: "sources_env \<Rightarrow> source_client" where
  "sourceClient env = \<lparr>SC_dial = source_dial (SO_lookup env), SC_redirect = check_redirect\<rparr>"

section \<open>Pages\<close>

text \<open>The class \<open>\s\<close> of a regular expression, and \<open>ReplaceAllString\<close> of \<open>\s+\<close>.\<close>

definition is_ws :: "char \<Rightarrow> bool" where
  "is_ws c = (c \<in> {CHR 0x09, CHR 0x0A, CHR 0x0C, CHR 0x0D, CHR '' ''})"

function replace_ws :: "string \<Rightarrow> string \<Rightarrow> string" where
  "replace_ws by' [] = []"
| "replace_ws by' (c # s) = (if is_ws c then by' @ replace_ws by' (dropWhile is_ws s) else c # replace_ws by' s)"
  by pat_completeness auto
termination
  by (relation "measure (\<lambda>(by', s). length s)") (auto simp: less_Suc_eq_le intro: length_dropWhile_le)

definition contains :: "string \<Rightarrow> string \<Rightarrow> bool" where
  "contains s sub = sublist sub s"

definition hidden_attr :: "(int \<Rightarrow> int) \<Rightarrow> string \<times> string \<Rightarrow> bool" where
  "hidden_attr lower a = (case a of (key, v) \<Rightarrow>
     key = ''hidden'' \<or> key = ''inert'' \<or> key = ''aria-hidden'' \<and> map ascii_lower v = ''true'' \<or>
     key = ''style'' \<and> (let style = to_lower lower (replace_ws [] v) in contains style ''display:none'' \<or> contains style ''visibility:hidden''))"

definition skipped :: "(int \<Rightarrow> int) \<Rightarrow> html \<Rightarrow> bool" where
  "skipped lower n = (H_Type n = ElementNode \<and>
     (H_Data n \<in> {''script'', ''style'', ''template'', ''noscript'', ''head''} \<or> list_ex (hidden_attr lower) (H_Attr n)))"

text \<open>The loop over the stack \<open>pending\<close>, whose top is the head.  The children are pushed from the last to the first.\<close>

function visible_loop :: "(int \<Rightarrow> int) \<Rightarrow> html list \<Rightarrow> string \<Rightarrow> string" where
  "visible_loop lower [] sofar = sofar"
| "visible_loop lower (n # stack) sofar =
     (if skipped lower n then visible_loop lower stack sofar
      else visible_loop lower (H_Children n @ stack) (if H_Type n = TextNode then sofar @ H_Data n @ '' '' else sofar))"
  by pat_completeness auto
termination
proof (relation "measure (\<lambda>(lower, stack, sofar). size_list size stack)")
  fix lower :: "int \<Rightarrow> int" and n stack sofar
  show "((lower, H_Children n @ stack, if H_Type n = TextNode then sofar @ H_Data n @ '' '' else sofar), (lower, n # stack, sofar)) \<in>
    measure (\<lambda>(lower, stack, sofar). size_list size stack)"
    by (cases n) simp
qed simp_all

definition visibleSourceText :: "sources_env \<Rightarrow> string \<Rightarrow> string \<Rightarrow> string" where
  "visibleSourceText env document contentType =
     (if prefix ''text/plain'' (to_lower (SO_lower env) contentType) then document
      else if \<not> contains (to_lower (SO_lower env) contentType) ''html'' then []
      else case SO_html env document of None \<Rightarrow> [] | Some page_root \<Rightarrow> visible_loop (SO_lower env) [page_root] [])"

text \<open>A later attribute replaces an earlier one of the same key; an absent one reads as the empty string.\<close>

definition attr_field :: "(int \<Rightarrow> int) \<Rightarrow> string \<Rightarrow> html \<Rightarrow> string" where
  "attr_field lower key n = (case lookup (rev (map (\<lambda>(k, v). (to_lower lower k, v)) (H_Attr n))) key of None \<Rightarrow> [] | Some v \<Rightarrow> v)"

definition date_layouts :: "string list" where
  "date_layouts = [''2006-01-02'', ''2006/01/02'', ''2006-01-02T15:04:05Z07:00'']"

fun first_some :: "('a \<Rightarrow> 'b option) \<Rightarrow> 'a list \<Rightarrow> 'b option" where
  "first_some f [] = None"
| "first_some f (x # xs) = (case f x of None \<Rightarrow> first_some f xs | Some y \<Rightarrow> Some y)"

definition meta_date :: "sources_env \<Rightarrow> html \<Rightarrow> (go_time \<times> string) option" where
  "meta_date env n =
     (if H_Type n = ElementNode \<and> H_Data n = ''meta'' \<and> to_lower (SO_lower env) (attr_field (SO_lower env) ''name'' n) \<in>
         {''citation_publication_date'', ''citation_date'', ''dc.date.issued''}
      then first_some (\<lambda>layout. SO_date env layout (attr_field (SO_lower env) ''content'' n)) date_layouts
      else None)"

function date_loop :: "sources_env \<Rightarrow> html list \<Rightarrow> (go_time \<times> string) option" where
  "date_loop env [] = None"
| "date_loop env (n # stack) = (case meta_date env n of Some d \<Rightarrow> Some d | None \<Rightarrow> date_loop env (H_Children n @ stack))"
  by pat_completeness auto
termination
proof (relation "measure (\<lambda>(env, stack). size_list size stack)")
  fix env :: sources_env and n stack
  show "((env, H_Children n @ stack), (env, n # stack)) \<in> measure (\<lambda>(env, stack). size_list size stack)"
    by (cases n) simp
qed simp_all

definition publicationDate :: "sources_env \<Rightarrow> string \<Rightarrow> (go_time \<times> string) option" where
  "publicationDate env document = (case SO_html env document of None \<Rightarrow> None | Some page_root \<Rightarrow> date_loop env [page_root])"

section \<open>Resolution\<close>

definition source_url_ok :: "sources_env \<Rightarrow> string \<Rightarrow> bool" where
  "source_url_ok env s = (case SO_url env s of None \<Rightarrow> False | Some (scheme, host, user) \<Rightarrow>
     scheme = ''https'' \<and> fst (split_port host) \<noteq> [] \<and> \<not> user \<and> snd (split_port host) \<in> {[], ''443''})"

text \<open>The page of a source: its bytes, at most five megabytes, with the content type.  \<open>Inl\<close> holds the message of the finding.\<close>

definition source_page :: "sources_env \<Rightarrow> string \<Rightarrow> string + (string \<times> string)" where
  "source_page env s = (case SO_do env (sourceClient env) s of Inl _ \<Rightarrow> Inl ''The source could not be independently retrieved'' | Inr pg \<Rightarrow>
     (case PG_Body pg of Inl _ \<Rightarrow> Inl ''The source returned an unsuccessful response'' | Inr body \<Rightarrow>
      if PG_Status pg < 200 \<or> PG_Status pg \<ge> 300 \<or> len body > 5 * 2 ^ 20 then Inl ''The source returned an unsuccessful response''
      else Inr (body, PG_Type pg)))"

definition evidence_found :: "sources_env \<Rightarrow> Source \<Rightarrow> string \<Rightarrow> string \<Rightarrow> bool" where
  "evidence_found env source body contentType = (\<not> contains contentType ''pdf'' \<and>
     contains (replace_ws '' '' (visibleSourceText env body contentType)) (replace_ws '' '' (Source_Evidence source)))"

record resolution =
  RES_status :: string
  RES_findings :: "finding list"
  RES_recent :: bool

definition add_finding :: "string \<Rightarrow> string \<Rightarrow> string \<Rightarrow> string \<Rightarrow> resolution \<Rightarrow> resolution" where
  "add_finding kind message severity at' r = r\<lparr>RES_findings := RES_findings r @ [(kind, message, severity, at')]\<rparr>"

definition set_failed :: "resolution \<Rightarrow> resolution" where
  "set_failed r = r\<lparr>RES_status := ''failed''\<rparr>"

definition needs_human :: "resolution \<Rightarrow> resolution" where
  "needs_human r = (if RES_status r \<noteq> ''failed'' then r\<lparr>RES_status := ''human_review_required''\<rparr> else r)"

definition resolve_date :: "sources_env \<Rightarrow> go_time \<Rightarrow> Source \<Rightarrow> string \<Rightarrow> resolution \<Rightarrow> resolution" where
  "resolve_date env now source body r = (case publicationDate env body of None \<Rightarrow> r | Some (t, date) \<Rightarrow>
     let r1 = add_finding ''publication_metadata_resolved'' (''Source publication metadata reports '' @ date) ''info'' (Source_URL source) r;
         r2 = (if t \<le> now + 24 * 3600 * go_second \<and> SO_fiveYears env < t then r1\<lparr>RES_recent := True\<rparr> else r1)
     in if Source_PublicationDate source \<noteq> [] \<and> Source_PublicationDate source \<noteq> date
        then needs_human (add_finding ''publication_date_mismatch'' ''Creator-supplied publication date differs from retrieved citation metadata''
          ''review'' (Source_URL source) r2)
        else r2)"

definition resolve_source :: "'k service \<Rightarrow> sources_env \<Rightarrow> go_time \<Rightarrow> resolution \<Rightarrow> Source \<Rightarrow> resolution" where
  "resolve_source sv env now r source =
     (if \<not> source_url_ok env (Source_URL source) then
        set_failed (add_finding ''source_url_invalid'' ''Source must be a public HTTPS URL without credentials or a custom port'' ''error'' (Source_URL source) r)
      else case source_page env (Source_URL source) of
        Inl message \<Rightarrow> set_failed (add_finding ''source_unresolved'' message ''error'' (Source_URL source) r)
      | Inr (body, contentType) \<Rightarrow>
        let r1 = resolve_date env now source body r in
        if \<not> evidence_found env source body contentType
        then needs_human (add_finding ''evidence_requires_review''
          ''The source resolves, but the quoted evidence location needs human verification; accessibility alone is not citation validation''
          ''review'' (Source_URL source) r1)
        else add_finding ''source_evidence_resolved'' (''Source was retrieved and the quoted evidence text was found; response digest sha256:'' @ hash_hex sv body)
          ''info'' (Source_URL source) r1)"

definition resolveSources :: "'k service \<Rightarrow> sources_env \<Rightarrow> go_time \<Rightarrow> Source list \<Rightarrow> string \<times> finding list" where
  "resolveSources sv env now sources =
     (let r = foldl (resolve_source sv env now) \<lparr>RES_status = ''ready'', RES_findings = [], RES_recent = False\<rparr> sources;
          r' = (if RES_recent r then r else needs_human (add_finding ''paper_recency_requires_review''
            ''No primary-paper publication date within five years was independently resolved; an editor must verify recency or record a foundational-question exception''
            ''review'' [] r))
      in (RES_status r', RES_findings r'))"

definition resolveCandidate :: "'k service \<Rightarrow> sources_env \<Rightarrow> go_time \<Rightarrow> string \<Rightarrow> platform_db \<Rightarrow> platform_db res" where
  "resolveCandidate sv env now cid db =
     res_bind (select_row (\<lambda>c. CA_ID c = cid) (PD_candidates db)) (\<lambda>c.
     let (status, findings) = resolveSources sv env now (Candidate_Sources (CA_Document c));
         viable = (Candidate_Disposition (CA_Document c) = ''viable'');
         status' = (if viable then status else ''changes_required'');
         findings' = (if viable then findings else findings @ [(''candidate_not_viable'',
           ''The Scout did not classify this candidate as ready for adoption'', ''review'', [])])
     in Inr (db\<lparr>PD_candidates := update_where (\<lambda>c. CA_ID c = cid) (\<lambda>c. c\<lparr>CA_Status := status', CA_Findings := findings'\<rparr>) (PD_candidates db)\<rparr>))"

section \<open>Which addresses are public\<close>

text \<open>The same networks as ranges of numbers.\<close>

definition reserved4 :: "(int \<times> int) list" where
  "reserved4 = [(0x00000000, 0x00ffffff), (0x0a000000, 0x0affffff), (0x64400000, 0x647fffff), (0x7f000000, 0x7fffffff), (0xa9fe0000, 0xa9feffff),
     (0xac100000, 0xac1fffff), (0xc0000000, 0xc00000ff), (0xc0000200, 0xc00002ff), (0xc0a80000, 0xc0a8ffff), (0xc6120000, 0xc613ffff),
     (0xc6336400, 0xc63364ff), (0xcb007100, 0xcb0071ff), (0xe0000000, 0xffffffff)]"

definition reserved6 :: "(int \<times> int) list" where
  "reserved6 = [(0, 2 ^ 32 - 1), (0x64ff9b * 2 ^ 96, 0x64ff9b * 2 ^ 96 + 2 ^ 32 - 1), (0x64ff9b0001 * 2 ^ 80, 0x64ff9b0002 * 2 ^ 80 - 1),
     (0x20010000 * 2 ^ 96, 0x20010001 * 2 ^ 96 - 1), (0x20010db8 * 2 ^ 96, 0x20010db9 * 2 ^ 96 - 1), (0x2002 * 2 ^ 112, 0x2003 * 2 ^ 112 - 1),
     (0xfc * 2 ^ 120, 0xfe * 2 ^ 120 - 1), (0xfe80 * 2 ^ 112, 0xfec0 * 2 ^ 112 - 1), (0xff * 2 ^ 120, 2 ^ 128 - 1)]"

definition inside :: "int \<times> int \<Rightarrow> int \<Rightarrow> bool" where
  "inside r n = (fst r \<le> n \<and> n \<le> snd r)"

definition outside :: "(int \<times> int) list \<Rightarrow> int \<Rightarrow> bool" where
  "outside ranges n = list_all (\<lambda>r. \<not> inside r n) ranges"

lemma be_val_bound: "0 \<le> be_val bs \<and> be_val bs < 256 ^ length bs"
proof (induction bs rule: rev_induct)
  case (snoc c bs)
  have "256 * x + code c < 256 * y" if "x < y" for x y :: int
  proof -
    have "code c < 256" by simp
    with that show ?thesis by linarith
  qed
  then show ?case using snoc by (simp add: be_val_def)
qed (simp add: be_val_def)

lemma div_eq_range:
  fixes x d q :: int
  assumes "0 < d"
  shows "x div d = q \<longleftrightarrow> q * d \<le> x \<and> x < q * d + d"
proof
  assume "x div d = q"
  then have "x = q * d + x mod d" using div_mult_mod_eq [of x d] by simp
  with pos_mod_bound [OF assms, of x] pos_mod_sign [OF assms, of x] show "q * d \<le> x \<and> x < q * d + d" by linarith
next
  assume "q * d \<le> x \<and> x < q * d + d"
  then show "x div d = q" by (intro int_div_pos_eq [of x d q "x - q * d"]) (simp_all add: mult.commute)
qed

lemma uint_drop: "uint (drop_bit k w) = uint w div 2 ^ k"
  unfolding unsigned_drop_bit_eq take_bit_int_eq_self [OF uint_ge_0 uint_lt2p] by (rule drop_bit_eq_div)

lemma drop_bit_inside:
  fixes w p :: "'a::len word"
  shows "drop_bit k w = drop_bit k p \<longleftrightarrow> inside (uint p div 2 ^ k * 2 ^ k, uint p div 2 ^ k * 2 ^ k + 2 ^ k - 1) (uint w)"
  unfolding word_uint_eq_iff uint_drop by (auto simp: div_eq_range inside_def)

lemma in_net4: "prefix_contains (net4 a b c d n) (V4 w) \<longleftrightarrow>
    (let lo = (((a * 256 + b) * 256 + c) * 256 + d) mod 2 ^ 32 div 2 ^ (32 - n) * 2 ^ (32 - n) in inside (lo, lo + 2 ^ (32 - n) - 1) (uint w))"
  unfolding net4_def prefix_contains.simps drop_bit_inside uint_word_of_int Let_def by simp

lemma in_net6: "prefix_contains (net6 a b c n) (V6 w) \<longleftrightarrow>
    (let lo = ((a * 65536 + b) * 65536 + c) * 2 ^ 80 mod 2 ^ 128 div 2 ^ (128 - n) * 2 ^ (128 - n) in inside (lo, lo + 2 ^ (128 - n) - 1) (uint w))"
  unfolding net6_def prefix_contains.simps drop_bit_inside uint_word_of_int Let_def by simp

lemma other_net: "\<not> prefix_contains (net4 a b c d n) (V6 v)" "\<not> prefix_contains (net6 a b c n) (V4 w)"
  by (simp_all add: net4_def net6_def)

lemmas addr_tests = public_addr_def IsGlobalUnicast_def IsPrivate_def IsLoopback_def IsLinkLocalUnicast_def IsMulticast_def special_networks_def

lemma public_addr_V4: "public_addr (V4 w) \<longleftrightarrow> outside reserved4 (uint w)"
proof -
  have z: "w = 0 \<longleftrightarrow> uint w = 0" "w = 0xffffffff \<longleftrightarrow> uint w = 0xffffffff" by (simp_all add: word_uint_eq_iff)
  have m: "inside (0xe0000000, 0xffffffff) n \<longleftrightarrow> inside (0xe0000000, 0xefffffff) n \<or> inside (0xf0000000, 0xffffffff) n"
    "inside (0, 0xffffff) 0" "inside (0xf0000000, 0xffffffff) 0xffffffff" for n by (auto simp: inside_def)
  show ?thesis using m by (simp add: addr_tests in_net4 other_net outside_def reserved4_def z)
qed

lemma public_addr_V6: "public_addr (V6 w) \<longleftrightarrow> outside reserved6 (uint w)"
proof -
  have z: "w = 0 \<longleftrightarrow> uint w = 0" "w = 1 \<longleftrightarrow> uint w = 1" by (simp_all add: word_uint_eq_iff)
  have m: "inside (0, 2 ^ 32 - 1) 0" "inside (0, 2 ^ 32 - 1) 1" by (auto simp: inside_def)
  show ?thesis using m by (simp add: addr_tests in_net6 other_net outside_def reserved6_def z) metis
qed

text \<open>C13: the client connects only to public addresses.  An address passes exactly when it is four bytes long and lies outside the reserved ranges
  of version 4, or sixteen bytes long and outside those of version 6, where an address of version 4 written in version 6 is judged as what it is.\<close>

theorem public_ip_ranges:
  "publicIP ip \<longleftrightarrow> length ip = 4 \<and> outside reserved4 (be_val ip) \<or>
     length ip = 16 \<and> (if be_val ip div 2 ^ 32 = 0xffff then outside reserved4 (be_val ip mod 2 ^ 32) else outside reserved6 (be_val ip))"
proof -
  note b = be_val_bound [of ip]
  have "publicIP ip = outside reserved4 (be_val ip)" if "length ip = 4"
    using b by (simp add: that publicIP_def AddrFromSlice_def public_addr_V4 uint_word_of_int)
  moreover have "publicIP ip = (if be_val ip div 2 ^ 32 = 0xffff then outside reserved4 (be_val ip mod 2 ^ 32) else outside reserved6 (be_val ip))"
    if l: "length ip = 16"
  proof -
    define w :: "128 word" where "w = word_of_int (be_val ip)"
    have u: "uint w = be_val ip" using b by (simp add: w_def l uint_word_of_int)
    have "drop_bit 32 w = 0xffff \<longleftrightarrow> be_val ip div 2 ^ 32 = 0xffff"
      unfolding word_uint_eq_iff uint_drop u by simp
    moreover have "uint (ucast w :: 32 word) = be_val ip mod 2 ^ 32" by (simp add: unsigned_ucast_eq u take_bit_eq_mod)
    ultimately show ?thesis by (simp add: publicIP_def AddrFromSlice_def l w_def [symmetric] public_addr_V4 public_addr_V6 u)
  qed
  moreover have "\<not> publicIP ip" if "length ip \<noteq> 4" "length ip \<noteq> 16"
    using that by (simp add: publicIP_def AddrFromSlice_def)
  ultimately show ?thesis by (cases "length ip = 4"; cases "length ip = 16") simp_all
qed

section \<open>What counts as text\<close>

primrec visible_text :: "(int \<Rightarrow> int) \<Rightarrow> html \<Rightarrow> string" where
  "visible_text lower (Html k d a cs) = (if skipped lower (Html k d a cs) then [] else
     (if k = TextNode then d @ '' '' else []) @ concat (map (visible_text lower) cs))"

lemma visible_loop_text: "visible_loop lower stack sofar = sofar @ concat (map (visible_text lower) stack)"
proof (induction lower stack sofar rule: visible_loop.induct)
  case (2 lower n stack sofar)
  obtain k d a cs where n: "n = Html k d a cs" by (cases n)
  from 2 show ?case unfolding n by (cases "k = TextNode") simp_all
qed simp

primrec html_nodes :: "html \<Rightarrow> html list" where
  "html_nodes (Html k d a cs) = Html k d a cs # concat (map html_nodes cs)"

lemma date_loop_nodes: "date_loop env stack = first_some (meta_date env) (concat (map html_nodes stack))"
proof (induction env stack rule: date_loop.induct)
  case (2 env n stack)
  then show ?case by (cases n) (simp split: option.splits)
qed simp

text \<open>The stack loop over a page yields its visible text: the text nodes in document order, without those below a script, style, template,
  noscript or head element or an element that is hidden by an attribute.\<close>

theorem visible_source_text:
  "visibleSourceText env document contentType =
     (if prefix ''text/plain'' (to_lower (SO_lower env) contentType) then document
      else if \<not> sublist ''html'' (to_lower (SO_lower env) contentType) then []
      else case SO_html env document of None \<Rightarrow> [] | Some page_root \<Rightarrow> visible_text (SO_lower env) page_root)"
  by (simp add: visibleSourceText_def contains_def visible_loop_text split: option.split)

section \<open>What a status says\<close>

definition resolved_date :: "sources_env \<Rightarrow> Source \<Rightarrow> string \<Rightarrow> bool" where
  "resolved_date env source body = (case publicationDate env body of None \<Rightarrow> True | Some (t, date) \<Rightarrow>
     Source_PublicationDate source = [] \<or> Source_PublicationDate source = date)"

definition recent_date :: "sources_env \<Rightarrow> go_time \<Rightarrow> string \<Rightarrow> bool" where
  "recent_date env now body = (case publicationDate env body of None \<Rightarrow> False | Some (t, date) \<Rightarrow>
     t \<le> now + 24 * 3600 * go_second \<and> SO_fiveYears env < t)"

definition retrieved :: "sources_env \<Rightarrow> Source \<Rightarrow> (string \<times> string) option" where
  "retrieved env source = (if source_url_ok env (Source_URL source) then
     (case source_page env (Source_URL source) of Inl _ \<Rightarrow> None | Inr pg \<Rightarrow> Some pg) else None)"

definition substantiated :: "sources_env \<Rightarrow> Source \<Rightarrow> bool" where
  "substantiated env source = (case retrieved env source of None \<Rightarrow> False | Some (body, contentType) \<Rightarrow>
     resolved_date env source body \<and> evidence_found env source body contentType)"

definition recent_source :: "sources_env \<Rightarrow> go_time \<Rightarrow> Source \<Rightarrow> bool" where
  "recent_source env now source = (case retrieved env source of None \<Rightarrow> False | Some (body, contentType) \<Rightarrow> recent_date env now body)"

lemma resolve_source_effect:
  "RES_recent (resolve_source sv env now r source) \<longleftrightarrow> RES_recent r \<or> recent_source env now source"
  "RES_status (resolve_source sv env now r source) =
     (if RES_status r = ''failed'' \<or> retrieved env source = None then ''failed''
      else if substantiated env source then RES_status r else ''human_review_required'')"
  by (auto simp: resolve_source_def recent_source_def retrieved_def recent_date_def resolved_date_def substantiated_def resolve_date_def
      set_failed_def needs_human_def add_finding_def Let_def split: sum.splits option.splits prod.splits)

lemma resolve_all:
  "RES_recent (foldl (resolve_source sv env now) r sources) \<longleftrightarrow> RES_recent r \<or> list_ex (recent_source env now) sources"
  "RES_status (foldl (resolve_source sv env now) r sources) =
     (if RES_status r = ''failed'' \<or> list_ex (\<lambda>s. retrieved env s = None) sources then ''failed''
      else if list_all (substantiated env) sources then RES_status r else ''human_review_required'')"
  by (induction sources arbitrary: r) (auto simp: resolve_source_effect)

lemma substantiated_retrieved: "substantiated env s \<Longrightarrow> retrieved env s \<noteq> None"
  by (auto simp: substantiated_def split: option.splits)

lemma resolved_status:
  "fst (resolveSources sv env now sources) =
     (if list_ex (\<lambda>s. retrieved env s = None) sources then ''failed''
      else if list_all (substantiated env) sources \<and> list_ex (recent_source env now) sources then ''ready'' else ''human_review_required'')"
  by (auto simp: resolveSources_def Let_def resolve_all needs_human_def add_finding_def)

text \<open>The same in terms of the page: which nodes a reader sees, and which dates it declares.\<close>

definition concealed :: "(int \<Rightarrow> int) \<Rightarrow> html \<Rightarrow> bool" where
  "concealed lower n \<longleftrightarrow> H_Type n = ElementNode \<and> (H_Data n = ''script'' \<or> H_Data n = ''style'' \<or> H_Data n = ''template'' \<or> H_Data n = ''noscript'' \<or> H_Data n = ''head'' \<or>
     (\<exists>(k, v)\<in>set (H_Attr n). k = ''hidden'' \<or> k = ''inert'' \<or> k = ''aria-hidden'' \<and> map ascii_lower v = ''true'' \<or>
       k = ''style'' \<and> (sublist ''display:none'' (to_lower lower (replace_ws [] v)) \<or> sublist ''visibility:hidden'' (to_lower lower (replace_ws [] v)))))"

primrec seen_text :: "(int \<Rightarrow> int) \<Rightarrow> html \<Rightarrow> string" where
  "seen_text lower (Html k d a cs) = (if concealed lower (Html k d a cs) then [] else if k = TextNode then d @ '' '' @ concat (map (seen_text lower) cs)
     else concat (map (seen_text lower) cs))"

definition page_text :: "sources_env \<Rightarrow> string \<Rightarrow> string \<Rightarrow> string" where
  "page_text env body contentType =
     (if prefix ''text/plain'' (to_lower (SO_lower env) contentType) then body
      else case SO_html env body of Some page_root \<Rightarrow> if sublist ''html'' (to_lower (SO_lower env) contentType) then seen_text (SO_lower env) page_root else [] | None \<Rightarrow> [])"

definition declared_dates :: "sources_env \<Rightarrow> string \<Rightarrow> (go_time \<times> string) list" where
  "declared_dates env body = (case SO_html env body of None \<Rightarrow> [] | Some page_root \<Rightarrow>
     [d. n \<leftarrow> html_nodes page_root, H_Type n = ElementNode, H_Data n = ''meta'',
       to_lower (SO_lower env) (attr_field (SO_lower env) ''name'' n) \<in> {''citation_publication_date'', ''citation_date'', ''dc.date.issued''},
       layout \<leftarrow> date_layouts, Some d \<leftarrow> [SO_date env layout (attr_field (SO_lower env) ''content'' n)]])"

definition source_shown :: "sources_env \<Rightarrow> Source \<Rightarrow> bool" where
  "source_shown env source \<longleftrightarrow> (\<exists>body contentType. retrieved env source = Some (body, contentType) \<and> \<not> sublist ''pdf'' contentType \<and>
     sublist (replace_ws '' '' (Source_Evidence source)) (replace_ws '' '' (page_text env body contentType)) \<and>
     (\<forall>d ds. declared_dates env body = d # ds \<and> Source_PublicationDate source \<noteq> [] \<longrightarrow> Source_PublicationDate source = snd d))"

definition source_recent :: "sources_env \<Rightarrow> go_time \<Rightarrow> Source \<Rightarrow> bool" where
  "source_recent env now source \<longleftrightarrow> (\<exists>body contentType d ds. retrieved env source = Some (body, contentType) \<and> declared_dates env body = d # ds \<and>
     SO_fiveYears env < fst d \<and> fst d \<le> now + 24 * 3600 * go_second)"

lemma skipped_concealed: "skipped lower n \<longleftrightarrow> concealed lower n"
  by (auto simp: skipped_def concealed_def hidden_attr_def list_ex_iff contains_def Let_def)

lemma visible_seen: "visible_text lower n = seen_text lower n"
proof (induction n)
  case (Html k d a cs)
  then have "concat (map (visible_text lower) cs) = concat (map (seen_text lower) cs)" by (simp cong: map_cong)
  then show ?case by (simp add: skipped_concealed)
qed

lemma first_some_hd: "first_some f xs = (case [d. x \<leftarrow> xs, Some d \<leftarrow> [f x]] of [] \<Rightarrow> None | d # _ \<Rightarrow> Some d)"
  by (induction xs) (simp_all split: option.split)

lemma first_some_concat: "first_some f xs = (case concat (map g xs) of [] \<Rightarrow> None | d # _ \<Rightarrow> Some d)"
  if "\<And>x. f x = (case g x of [] \<Rightarrow> None | d # _ \<Rightarrow> Some d)"
proof (induction xs)
  case (Cons x xs)
  then show ?case by (cases "g x") (simp_all add: that)
qed simp

lemma publicationDate_declared: "publicationDate env body = (case declared_dates env body of [] \<Rightarrow> None | d # _ \<Rightarrow> Some d)"
proof (cases "SO_html env body")
  case (Some page_root)
  have "meta_date env n = (case (if H_Type n = ElementNode then if H_Data n = ''meta'' then
      if to_lower (SO_lower env) (attr_field (SO_lower env) ''name'' n) \<in> {''citation_publication_date'', ''citation_date'', ''dc.date.issued''}
      then [d. layout \<leftarrow> date_layouts, Some d \<leftarrow> [SO_date env layout (attr_field (SO_lower env) ''content'' n)]] else [] else [] else [])
    of [] \<Rightarrow> None | d # _ \<Rightarrow> Some d)" for n
    by (simp add: meta_date_def first_some_hd)
  from first_some_concat [OF this] Some show ?thesis
    by (simp add: publicationDate_def date_loop_nodes declared_dates_def)
qed (simp add: publicationDate_def declared_dates_def)

lemma evidence_shown:
  "evidence_found env source body contentType \<longleftrightarrow>
     \<not> sublist ''pdf'' contentType \<and> sublist (replace_ws '' '' (Source_Evidence source)) (replace_ws '' '' (page_text env body contentType))"
  unfolding evidence_found_def visibleSourceText_def page_text_def contains_def
  by (auto simp: visible_loop_text visible_seen contains_def split: option.split)

lemma source_shown_iff: "substantiated env s \<longleftrightarrow> source_shown env s" "recent_source env now s \<longleftrightarrow> source_recent env now s"
  by (auto simp: substantiated_def source_shown_def resolved_date_def evidence_shown recent_source_def source_recent_def recent_date_def publicationDate_declared
      split: option.splits list.splits)

text \<open>C12: sources are ready exactly when every one was retrieved and shows the quoted evidence in its text, when those that claim a publication date and whose
  page declares one claim the first date the page declares, and when some page declares a date of the last five years first; they have failed exactly when one
  could not be retrieved.  Everything else is left to a human.  The text of a page are its text nodes in document order, without those below a script, style,
  template, noscript or head element or below an element that an attribute hides.\<close>

theorem sources_status:
  "fst (resolveSources sv env now sources) =
     (if list_ex (\<lambda>s. retrieved env s = None) sources then ''failed''
      else if list_all (source_shown env) sources \<and> list_ex (source_recent env now) sources then ''ready'' else ''human_review_required'')"
  unfolding resolved_status list_ex_iff list_all_iff source_shown_iff by (rule refl)

section \<open>What the worker leaves alone\<close>

lemma resolveCandidate_quiet: "resolveCandidate sv env now cid db = Inr db' \<Longrightarrow> quiet db db'"
  by (auto simp: resolveCandidate_def handler_simps)

end
