(* ===== verification/Review.thy ===== *)
theory Review
  imports Sources
begin

text \<open>
  The automated scientific review of a challenge version (\<open>internal/platform/review.go\<close>, \<open>review_evidence.go\<close>, \<open>metric_review.go\<close>): which files
  of the pinned repository are shown to the reviewing model, how its answer becomes an outcome, how the report is stored, and
  how a creator asks for another review.

  The model behind the provider's interface, object storage and the JSON encodings are the record \<open>review_env\<close>.  The column
  \<open>repository_id\<close>, which nothing else reads, is \<open>SR_repository\<close>.  The fixed notices that accompany the evidence and
  the fixed instructions of the request are left out.
\<close>

section \<open>Findings and outcomes\<close>

record ReviewFinding =
  RF_Severity :: string
  RF_Area :: string
  RF_Message :: string
  RF_Suggested :: string

record ScienceReview =
  SCR_Metric :: "MetricAssessment option"
  SCR_Outcome :: string
  SCR_Summary :: string
  SCR_Evidence :: string
  SCR_Validity :: string
  SCR_Impact :: string
  SCR_Safety :: string
  SCR_Findings :: "ReviewFinding list"
  SCR_Limitations :: "string list"

definition conclude :: "string \<Rightarrow> string \<Rightarrow> string \<Rightarrow> string \<Rightarrow> string \<Rightarrow> ScienceReview \<Rightarrow> ScienceReview" where
  "conclude outcome severity area message suggested r = r\<lparr>SCR_Outcome := outcome,
     SCR_Findings := SCR_Findings r @ [\<lparr>RF_Severity = severity, RF_Area = area, RF_Message = message, RF_Suggested = suggested\<rparr>]\<rparr>"

definition err_text :: "go_error \<Rightarrow> string" where
  "err_text e = (case e of Err s \<Rightarrow> s | Errf s _ \<Rightarrow> s | _ \<Rightarrow> [])"

definition applyMetricAssessment :: "ScienceReview \<Rightarrow> Manifest \<Rightarrow> ScienceReview" where
  "applyMetricAssessment r m =
     (if Manifest_APIVersion m \<noteq> ManifestV2 then r else
      let reject = (\<lambda>message. conclude ''changes_required'' ''error'' ''scientific_metric'' message
        ''Explain the connection to scientific progress, preserved conditions, shortcut defenses and bounded claim; obtain an explicit metric decision'' r) in
      case validateMetricAssessment (SCR_Metric r) of Inl e \<Rightarrow> reject (err_text e)
      | Inr _ \<Rightarrow> if map_option MA_Decision (SCR_Metric r) = Some ''accepted'' then r
          else reject ''The ranked metric does not yet have an accepted scientific rationale'')"

definition weigh_finding :: "string \<Rightarrow> ReviewFinding \<Rightarrow> string res" where
  "weigh_finding outcome f =
     (if RF_Severity f \<notin> {''error'', ''review'', ''info''} then Inl (Err ''scientific review finding severity is invalid'') else
      let o1 = (if RF_Severity f = ''review'' \<and> outcome = ''automated_pass'' then ''human_review_required'' else outcome)
      in Inr (if RF_Severity f = ''error'' then ''changes_required'' else o1))"

text \<open>From the answer of the model to the outcome that is stored: what the contract demands, the findings, the sources.\<close>

definition check_contract :: "Manifest \<Rightarrow> Candidate \<Rightarrow> ScienceReview \<Rightarrow> ScienceReview" where
  "check_contract m c r0 =
     (let r1 = (if Manifest_SafetyClassification m = ''review-required'' \<and> SCR_Outcome r0 = ''automated_pass''
            then conclude ''human_review_required'' ''review'' ''safety'' ''The manifest requires human safety review'' ''Record a human safety decision before publication'' r0
            else r0);
          r2 = applyMetricAssessment r1 m
      in case ValidateEducation (Candidate_Education c) of Inr _ \<Rightarrow> r2 | Inl e \<Rightarrow>
        conclude ''changes_required'' ''error'' ''education'' (err_text e) ''Add source-supported frontier and significance sections to the candidate before publication'' r2)"

definition check_sources :: "string \<Rightarrow> ScienceReview \<Rightarrow> ScienceReview" where
  "check_sources status r0 =
     (let r1 = (if status = ''failed'' then conclude ''changes_required'' ''error'' ''sources'' ''The final manifest contains source evidence that could not be safely retrieved''
            ''Correct or replace unresolved primary sources before publication'' r0 else r0)
      in if status \<noteq> ''ready'' \<and> SCR_Outcome r1 = ''automated_pass'' then conclude ''human_review_required'' ''review'' ''sources''
            ''Source evidence requires human verification'' ''Verify exact locations before approval'' r1 else r1)"

definition judge_review :: "Manifest \<Rightarrow> Candidate \<Rightarrow> string \<Rightarrow> ScienceReview \<Rightarrow> ScienceReview res" where
  "judge_review m c status r0 =
     (if SCR_Outcome r0 \<notin> {''automated_pass'', ''human_review_required'', ''changes_required''}
      then Inl (Err ''scientific review outcome is outside the contract'') else
      let r = check_contract m c r0 in
      res_bind (res_fold weigh_finding (SCR_Outcome r) (SCR_Findings r)) (\<lambda>outcome.
      Inr (check_sources status (r\<lparr>SCR_Outcome := outcome\<rparr>))))"

section \<open>Secrets\<close>

text \<open>The regular expression \<open>reviewSecretMarker\<close> on the runes of a text.  Every repetition in it is over a class of runes.  Letters compare
  without case; outside ASCII the long s and the Kelvin sign fold to letters.\<close>

datatype rx = Cls "int \<Rightarrow> bool" | Cat rx rx | Alt rx rx | Many nat "int \<Rightarrow> bool" | Exactly nat "int \<Rightarrow> bool" | Opt rx | Boundary

definition fold_rune :: "int \<Rightarrow> int" where
  "fold_rune r = (if r = 0x17F then 115 else if r = 0x212A then 107 else if 65 \<le> r \<and> r \<le> 90 then r + 32 else r)"

definition word_rune :: "int list \<Rightarrow> nat \<Rightarrow> bool" where
  "word_rune t i = (i < length t \<and> (let r = t ! i in 48 \<le> r \<and> r \<le> 57 \<or> 65 \<le> r \<and> r \<le> 90 \<or> r = 95 \<or> 97 \<le> r \<and> r \<le> 122))"

text \<open>Where a match that starts at \<open>i\<close> can end.\<close>

fun rx_ends :: "rx \<Rightarrow> int list \<Rightarrow> nat \<Rightarrow> nat list" where
  "rx_ends (Cls P) t i = (if i < length t \<and> P (t ! i) then [i + 1] else [])"
| "rx_ends (Cat a b) t i = concat (map (rx_ends b t) (rx_ends a t i))"
| "rx_ends (Alt a b) t i = rx_ends a t i @ rx_ends b t i"
| "rx_ends (Many n P) t i = (let k = length (takeWhile P (drop i t)) in if n \<le> k then [i + n ..< i + k + 1] else [])"
| "rx_ends (Exactly n P) t i = (if n \<le> length (takeWhile P (drop i t)) then [i + n] else [])"
| "rx_ends (Opt a) t i = i # rx_ends a t i"
| "rx_ends Boundary t i = (if (0 < i \<and> word_rune t (i - 1)) \<noteq> word_rune t i then [i] else [])"

definition rx_found :: "rx \<Rightarrow> int list \<Rightarrow> bool" where
  "rx_found r t = list_ex (\<lambda>i. rx_ends r t i \<noteq> []) [0 ..< length t + 1]"

fun rx_word :: "string \<Rightarrow> rx" where
  "rx_word [] = Exactly 0 (\<lambda>_. True)"
| "rx_word (c # s) = Cat (Cls (\<lambda>r. fold_rune r = fold_rune (code c))) (rx_word s)"

definition letter_rune :: "int \<Rightarrow> bool" where
  "letter_rune r = (97 \<le> fold_rune r \<and> fold_rune r \<le> 122)"

definition digit_rune :: "int \<Rightarrow> bool" where
  "digit_rune r = (48 \<le> r \<and> r \<le> 57)"

definition rx_space :: "int \<Rightarrow> bool" where
  "rx_space r = (r \<in> {9, 10, 12, 13, 32})"

definition secret_rx :: rx where
  "secret_rx =
     Alt (Cat (rx_word ''-----BEGIN '') (Cat (Many 0 (\<lambda>r. letter_rune r \<or> r = 32)) (rx_word ''PRIVATE KEY-----'')))
    (Alt (Cat Boundary (Cat (rx_word ''sk-'') (Cat (Opt (Alt (rx_word ''proj-'') (rx_word ''svcacct-''))) (Many 16 (\<lambda>r. letter_rune r \<or> digit_rune r \<or> r = 95 \<or> r = 45)))))
    (Alt (Cat Boundary (Cat (Alt (rx_word ''ghp_'') (Alt (rx_word ''gho_'') (rx_word ''github_pat_''))) (Many 16 (\<lambda>r. letter_rune r \<or> digit_rune r \<or> r = 95))))
    (Alt (Cat Boundary (Cat (rx_word ''AKIA'') (Cat (Exactly 16 (\<lambda>r. letter_rune r \<or> digit_rune r)) Boundary)))
      (Cat (Alt (rx_word ''password'')
           (Alt (Cat (rx_word ''api'') (Cat (Opt (Cls (\<lambda>r. r = 95 \<or> r = 45))) (rx_word ''key'')))
           (Alt (Cat (rx_word ''access'') (Cat (Opt (Cls (\<lambda>r. r = 95 \<or> r = 45))) (rx_word ''token'')))
                (Cat (rx_word ''client'') (Cat (Opt (Cls (\<lambda>r. r = 95 \<or> r = 45))) (rx_word ''secret''))))))
       (Cat (Many 0 rx_space) (Cat (Cls (\<lambda>r. r = 61 \<or> r = 58)) (Cat (Many 0 rx_space) (Cat (Opt (Cls (\<lambda>r. r = 34 \<or> r = 39)))
         (Many 8 (\<lambda>r. \<not> rx_space r \<and> r \<notin> {34, 39, 60, 62}))))))))))"

definition reviewSecretMarker :: "string \<Rightarrow> bool" where
  "reviewSecretMarker data = rx_found secret_rx (map fst (runes data))"

section \<open>Evidence\<close>

definition path_join2 :: "string \<Rightarrow> string \<Rightarrow> string" where
  "path_join2 a b = (if a = [] \<and> b = [] then [] else path_clean (if a = [] then b else if b = [] then a else a @ ''/'' @ b))"

text \<open>\<open>path.Base\<close> of a path that has no slash at its end.\<close>

definition path_base :: "string \<Rightarrow> string" where
  "path_base s = last (split_on CHR ''/'' s)"

definition trim_prefix :: "string \<Rightarrow> string \<Rightarrow> string" where
  "trim_prefix s p = (if prefix p s then drop (length p) s else s)"

definition below :: "string \<Rightarrow> string \<Rightarrow> bool" where
  "below dir name = prefix (dir @ ''/'') name"

definition private_component :: "string \<Rightarrow> bool" where
  "private_component p = (prefix ''.'' p \<or> p \<in> {''private'', ''secrets'', ''credentials'', ''agents.md'', ''skill.md''})"

definition safeReviewPath :: "source_env \<Rightarrow> string \<Rightarrow> Manifest \<Rightarrow> bool" where
  "safeReviewPath src name m =
     (if \<not> is_ok (ValidatePath (SV_nfc src) name) then False
      else if list_ex private_component (split_on CHR ''/'' (to_lower (SV_lower src) name)) then False
      else if Suite_Visibility (Manifest_Suite m) = ''hidden'' \<and> (name = Suite_Path (Manifest_Suite m) \<or> below (Suite_Path (Manifest_Suite m)) name) then False
      else let ext = to_lower (SV_lower src) (path_ext name) in
        if ext \<in> {''.md'', ''.txt'', ''.json'', ''.py'', ''.rs'', ''.c'', ''.h'', ''.cpp'', ''.hpp'', ''.lean'', ''.lock''} then True
        else if ext = [] then path_base name = ''LICENSE'' else False)"

record reviewEvidenceFile =
  EF_Path :: string
  EF_Digest :: string
  EF_Text :: string

record reviewSourceEvidence =
  EV_Commit :: string
  EV_Source :: string
  EV_Manifest :: string
  EV_Files :: "reviewEvidenceFile list"
  EV_Omitted :: int

text \<open>The machine evidence and the earlier reviews are rows as JSON text.\<close>

record review_evidence =
  EB_source :: reviewSourceEvidence
  EB_machine :: "string list"
  EB_previous :: "string list"

record review_input =
  RI_Manifest :: Manifest
  RI_Candidate :: Candidate
  RI_Status :: string
  RI_Findings :: "finding list"
  RI_Evidence :: review_evidence
  RI_Reason :: string

record provider_response =
  PV_ID :: string
  PV_Status :: string
  PV_Output :: "(string \<times> string) list list"

record review_env =
  SR_key :: bool
  SR_store :: bool
  SR_source :: source_env
  SR_sources :: sources_env
  SR_get :: "string \<Rightarrow> int \<Rightarrow> string res"
  SR_repository :: "string \<Rightarrow> int"
  SR_snapshot :: "string \<Rightarrow> (int \<times> string \<times> (string, string) gomap) res"
  SR_size :: "reviewSourceEvidence \<Rightarrow> int"
  SR_machine :: "preflight_row \<Rightarrow> string"
  SR_previous :: "review_run \<Rightarrow> string"
  SR_evidenceDigest :: "review_evidence \<Rightarrow> string res"
  SR_evidenceJSON :: "reviewSourceEvidence \<Rightarrow> json"
  SR_ask :: "review_input \<Rightarrow> (int \<times> provider_response res) res"
  SR_decode :: "string \<Rightarrow> ScienceReview res"
  SR_model :: string

definition fixed_evidence :: "string list" where
  "fixed_evidence = [''visualization/visual.json'', ''visualization/README.md'', ''visualization/reference.json'', ''visualization/context.schema.json'',
     ''visualization/checks.md'', ''docs/science.md'', ''docs/method.md'', ''docs/numerical-validation.json'', ''challenge-brief.md'', ''THIRD_PARTY_NOTICES.md'',
     ''LICENSE'', ''DATA_LICENSE.md'', ''literature/reference.json'', ''docs/source-evidence.json'', ''tests/test_checker.py'', ''tools/reproduce.py'']"

definition selected_evidence :: "Manifest \<Rightarrow> (string, string) gomap \<Rightarrow> string list" where
  "selected_evidence m files =
     (let names = map fst files; suite = Manifest_Suite m; open_suite = (Suite_Visibility suite = ''public'') in
      Validator_DependencyLock (Manifest_Validator m) # fixed_evidence
      @ map (\<lambda>arg. trim_prefix arg ''/sl/challenge/'') (filter (prefix ''/sl/challenge/'') (Validator_Entrypoint (Manifest_Validator m)))
      @ (if open_suite then [path_join2 (Suite_Path suite) ''contract.json''] else [])
      @ concat (map (\<lambda>f. if Fixture_Name f = ''baseline'' then filter (below (Fixture_Path f)) names else []) (Manifest_Fixtures m))
      @ (if Manifest_APIVersion m = ManifestV2
         then filter (\<lambda>n. prefix ''validator/'' n \<or> prefix ''tests/'' n \<or> open_suite \<and> below (Suite_Path suite) n) names else []))"

definition admissible_text :: "source_env \<Rightarrow> Manifest \<Rightarrow> string \<Rightarrow> string \<Rightarrow> bool" where
  "admissible_text src m name data = (safeReviewPath src name m \<and> len data \<le> 32 * 2 ^ 10 \<and> utf8_valid data \<and> CHR 0x00 \<notin> set data \<and> \<not> reviewSecretMarker data)"

definition add_evidence ::
    "'k service \<Rightarrow> review_env \<Rightarrow> Manifest \<Rightarrow> (string, string) gomap \<Rightarrow> reviewSourceEvidence \<Rightarrow> string \<Rightarrow> reviewSourceEvidence" where
  "add_evidence sv env m files ev name =
     (case lookup files name of None \<Rightarrow> ev | Some data \<Rightarrow>
      let skip = ev\<lparr>EV_Omitted := EV_Omitted ev + 1\<rparr> in
      if \<not> admissible_text (SR_source env) m name data \<or> length (EV_Files ev) \<ge> 24 then skip else
      let ev' = ev\<lparr>EV_Files := EV_Files ev @ [\<lparr>EF_Path = name, EF_Digest = DigestBytes (Sha (scrypto sv)) data, EF_Text = data\<rparr>]\<rparr>
      in if SR_size env ev' > 192 * 2 ^ 10 then skip else ev')"

text \<open>The loop over the sorted names with its set \<open>seen\<close>.\<close>

fun evidence_loop ::
    "'k service \<Rightarrow> review_env \<Rightarrow> Manifest \<Rightarrow> (string, string) gomap \<Rightarrow> string list \<Rightarrow> string list \<Rightarrow> reviewSourceEvidence \<Rightarrow> reviewSourceEvidence" where
  "evidence_loop sv env m files seen [] ev = ev"
| "evidence_loop sv env m files seen (name # names) ev =
     (if name \<in> set seen then evidence_loop sv env m files seen names ev
      else evidence_loop sv env m files (name # seen) names (add_evidence sv env m files ev name))"

definition selectReviewEvidence ::
    "'k service \<Rightarrow> review_env \<Rightarrow> string \<Rightarrow> string \<Rightarrow> string \<Rightarrow> int \<Rightarrow> Manifest \<Rightarrow> reviewSourceEvidence res" where
  "selectReviewEvidence sv env document sourceDigest commit repositoryID m =
     (if len document > 64 * 2 ^ 20 \<or> DigestBytes (Sha (scrypto sv)) document \<noteq> sourceDigest then Inl (Err ''scientific evidence snapshot digest mismatch'') else
      case SR_snapshot env document of Inl _ \<Rightarrow> Inl (Err ''scientific evidence snapshot is invalid'') | Inr (repo, sourceCommit, files) \<Rightarrow>
      if sourceCommit \<noteq> commit \<or> repo \<noteq> repositoryID then Inl (Err ''scientific evidence source binding mismatch'') else
      res_bind (or_else (ParseManifest (SR_source env) (case lookup files ''science-ladder.yaml'' of None \<Rightarrow> [] | Some b \<Rightarrow> b))
        (Err ''scientific evidence manifest is invalid'')) (\<lambda>sourceManifest.
      res_bind (Digest sv (DocManifest m)) (\<lambda>expected.
      if Digest sv (DocManifest sourceManifest) \<noteq> Inr expected then Inl (Err ''scientific evidence manifest binding mismatch'') else
      Inr (evidence_loop sv env m files [] (sort (selected_evidence m files))
        \<lparr>EV_Commit = commit, EV_Source = sourceDigest, EV_Manifest = expected, EV_Files = [], EV_Omitted = 0\<rparr>))))"

fun bounded_items :: "int \<Rightarrow> int \<Rightarrow> int \<Rightarrow> string list \<Rightarrow> string list" where
  "bounded_items single whole used [] = []"
| "bounded_items single whole used (item # items) =
     (if len item \<le> single \<and> used + len item \<le> whole then item # bounded_items single whole (used + len item) items
      else bounded_items single whole used items)"

text \<open>Rows of the same time come in any order; here in that of the table.\<close>

definition latest_rows :: "nat \<Rightarrow> ('a \<Rightarrow> go_time) \<Rightarrow> 'a list \<Rightarrow> 'a list" where
  "latest_rows n created rows = take n (sort_key (\<lambda>r. - created r) rows)"

definition legibility_reviews :: "string \<Rightarrow> platform_db \<Rightarrow> review_run list" where
  "legibility_reviews vid db = filter (\<lambda>r. RV_Version r = vid \<and> RV_Kind r = ''scientific-legibility'') (PD_reviews db)"

definition scientificEvidence :: "'k service \<Rightarrow> review_env \<Rightarrow> platform_db \<Rightarrow> string \<Rightarrow> Manifest \<Rightarrow> review_evidence res" where
  "scientificEvidence sv env db vid m =
     (if \<not> SR_store env then Inl (Err ''scientific evidence storage unavailable'') else
      res_bind (select_row (\<lambda>v. CV_ID v = vid) (PD_versions db)) (\<lambda>v.
      res_bind (or_else (SR_get env (CV_SourceDigest v) (64 * 2 ^ 20)) (Err ''pinned scientific evidence could not be loaded'')) (\<lambda>document.
      res_bind (selectReviewEvidence sv env document (CV_SourceDigest v) (CV_Commit v) (SR_repository env vid) m) (\<lambda>source.
      Inr \<lparr>EB_source = source,
        EB_machine = bounded_items (128 * 2 ^ 10) (192 * 2 ^ 10) 0
          (map (SR_machine env) (latest_rows 2 PF_Created (filter (\<lambda>p. PF_Version p = vid) (PD_preflights db)))),
        EB_previous = bounded_items (32 * 2 ^ 10) (64 * 2 ^ 10) 0 (map (SR_previous env) (latest_rows 3 RV_Created (legibility_reviews vid db)))\<rparr>))))"

section \<open>Reviews\<close>

record review_request =
  RQ_ID :: string
  RQ_Version :: string
  RQ_Owner :: string
  RQ_Reason :: string
  RQ_Status :: string
  RQ_Review :: "string option"

type_synonym review_db = "review_request list \<times> platform_db"

definition review_json :: "ScienceReview \<Rightarrow> json" where
  "review_json r = JObj ((case SCR_Metric r of None \<Rightarrow> [] | Some a \<Rightarrow> [(''metricAssessment'', assessment_json a)]) @
     [(''outcome'', JStr (SCR_Outcome r)), (''summary'', JStr (SCR_Summary r)), (''evidenceStrength'', JStr (SCR_Evidence r)),
      (''metricValidity'', JStr (SCR_Validity r)), (''potentialImpact'', JStr (SCR_Impact r)), (''safety'', JStr (SCR_Safety r)),
      (''findings'', JArr (map (\<lambda>f. JObj [(''severity'', JStr (RF_Severity f)), (''area'', JStr (RF_Area f)), (''message'', JStr (RF_Message f)),
        (''suggestedChange'', JStr (RF_Suggested f))]) (SCR_Findings r))),
      (''limitations'', JArr (map JStr (SCR_Limitations r)))])"

definition finding_json :: "finding \<Rightarrow> json" where
  "finding_json f = (case f of (kind, message, severity, at') \<Rightarrow>
     JObj ([(''code'', JStr kind), (''message'', JStr message), (''severity'', JStr severity)] @ (if at' = [] then [] else [(''source'', JStr at')])))"

text \<open>The answer of the model: the text parts of a completed response.\<close>

definition provider_review :: "review_env \<Rightarrow> review_input \<Rightarrow> (string \<times> ScienceReview) res" where
  "provider_review env input =
     res_bind (or_else (SR_ask env input) (Err ''scientific review provider did not respond'')) (\<lambda>(status, response).
     if status \<noteq> 200 then Inl (Errf ''scientific review provider returned HTTP %d'' [show_int status]) else
     res_bind response (\<lambda>response.
     if PV_Status response \<noteq> ''completed'' then Inl (Err ''scientific review did not complete'') else
     let answer = concat (map (\<lambda>(kind, part). if kind = ''output_text'' then part else []) (concat (PV_Output response))) in
     res_bind (or_else (SR_decode env answer) (Err ''scientific review returned an invalid structured report'')) (\<lambda>r.
     Inr (PV_ID response, r))))"

text \<open>What is reviewed, before the transaction: \<open>None\<close> when a first review exists already.\<close>

definition prepare_review ::
    "'k service \<Rightarrow> review_env \<Rightarrow> go_time \<Rightarrow> json \<Rightarrow> string \<Rightarrow> string \<Rightarrow> string \<Rightarrow> platform_db \<Rightarrow> (ScienceReview \<times> json) option res" where
  "prepare_review sv env now evaluatedAt vid requestID reason db =
     (if \<not> SR_key env then Inl (Err ''scientific review is waiting for OPENAI_API_KEY'') else
      res_bind (select_row (\<lambda>v. CV_ID v = vid) (PD_versions db)) (\<lambda>v.
      res_bind (select_row (\<lambda>c. CH_ID c = CV_Challenge v) (PD_challenges db)) (\<lambda>ch.
      res_bind (select_row (\<lambda>c. CA_ID c = CH_Candidate ch) (PD_candidates db)) (\<lambda>ca.
      if legibility_reviews vid db \<noteq> [] \<and> requestID = [] then Inr None else
      res_bind (CV_Manifest v) (\<lambda>m.
      let (status, findings) = resolveSources sv (SR_sources env) now (Manifest_Evidence m) in
      res_bind (scientificEvidence sv env db vid m) (\<lambda>evidence.
      res_bind (SR_evidenceDigest env evidence) (\<lambda>evidenceDigest.
      res_bind (provider_review env \<lparr>RI_Manifest = m, RI_Candidate = CA_Document ca, RI_Status = status, RI_Findings = findings, RI_Evidence = evidence,
        RI_Reason = reason\<rparr>) (\<lambda>(responseID, r0).
      res_bind (judge_review m (CA_Document ca) status r0) (\<lambda>r.
      res_bind (Digest sv (DocManifest m)) (\<lambda>manifestDigest.
      Inr (Some (r, JObj [(''manifestDigest'', JStr manifestDigest), (''review'', review_json r), (''model'', JStr (SR_model env)),
        (''providerResponseId'', JStr responseID), (''automatedReviewIsNotPeerReview'', JBool True), (''evaluatedAt'', evaluatedAt),
        (''sourceResolution'', JStr status), (''sourceFindings'', JArr (map finding_json findings)), (''evidencePolicy'', JStr ''pinned-text-evidence-v4''),
        (''evidenceDigest'', JStr evidenceDigest), (''sourceEvidence'', SR_evidenceJSON env (EB_source evidence)), (''rereviewRequestId'', JStr requestID)]))))))))))))"

text \<open>The transaction.\<close>

definition store_review ::
    "string \<Rightarrow> go_time \<Rightarrow> string \<Rightarrow> string \<Rightarrow> ScienceReview \<Rightarrow> json \<Rightarrow> string \<Rightarrow> review_db \<Rightarrow> review_db res" where
  "store_review rid now vid requestID r report digest = (\<lambda>(rq, db).
     res_bind (select_row (\<lambda>v. CV_ID v = vid) (PD_versions db)) (\<lambda>_.
     res_bind (if requestID = [] then Inr (legibility_reviews vid db \<noteq> [])
       else res_bind (select_row (\<lambda>q. RQ_ID q = requestID \<and> RQ_Version q = vid) rq) (\<lambda>q. Inr (RQ_Status q = ''completed''))) (\<lambda>stored.
     if stored then Inr (rq, db) else
     res_bind (insert_row (\<lambda>x. RV_ID x = rid) \<lparr>RV_ID = rid, RV_Version = vid, RV_Kind = ''scientific-legibility'', RV_Status = SCR_Outcome r,
       RV_Report = report, RV_Digest = digest, RV_Created = now\<rparr> (PD_reviews db)) (\<lambda>reviews.
     res_bind (update_versions (\<lambda>v. CV_ID v = vid \<and> CV_LockDigest v = None) (\<lambda>v. v\<lparr>CV_Review := SCR_Outcome r\<rparr>) (db\<lparr>PD_reviews := reviews\<rparr>)) (\<lambda>db1.
     Inr (if requestID = [] then rq
       else update_where (\<lambda>q. RQ_ID q = requestID) (\<lambda>q. q\<lparr>RQ_Status := ''completed'', RQ_Review := Some rid\<rparr>) rq, db1))))))"

text \<open>\<open>db0\<close> is what is read before the model is asked; the transaction runs on a later state.\<close>

definition scientificReviewAttempt ::
    "'k service \<Rightarrow> review_env \<Rightarrow> string \<Rightarrow> go_time \<Rightarrow> json \<Rightarrow> go_time \<Rightarrow> string \<Rightarrow> string \<Rightarrow> string \<Rightarrow> platform_db \<Rightarrow> review_db \<Rightarrow> review_db res" where
  "scientificReviewAttempt sv env rid earlier evaluatedAt now vid requestID reason db0 rdb =
     res_bind (prepare_review sv env earlier evaluatedAt vid requestID reason db0) (\<lambda>prepared.
     case prepared of None \<Rightarrow> Inr rdb | Some (r, report) \<Rightarrow>
     res_bind (Digest sv (DocReport report)) (\<lambda>digest.
     store_review rid now vid requestID r report digest rdb))"

definition scientificReview ::
    "'k service \<Rightarrow> review_env \<Rightarrow> string \<Rightarrow> go_time \<Rightarrow> json \<Rightarrow> go_time \<Rightarrow> string \<Rightarrow> platform_db \<Rightarrow> review_db \<Rightarrow> review_db res" where
  "scientificReview sv env rid earlier evaluatedAt now vid db0 rdb = scientificReviewAttempt sv env rid earlier evaluatedAt now vid [] [] db0 rdb"

definition scientificRereview ::
    "'k service \<Rightarrow> review_env \<Rightarrow> string \<Rightarrow> go_time \<Rightarrow> json \<Rightarrow> go_time \<Rightarrow> string \<Rightarrow> review_db \<Rightarrow> review_db \<Rightarrow> review_db res" where
  "scientificRereview sv env rid earlier evaluatedAt now requestID rdb0 rdb =
     res_bind (select_row (\<lambda>q. RQ_ID q = requestID) (fst rdb0)) (\<lambda>q.
     if RQ_Status q = ''completed'' then Inr rdb
     else scientificReviewAttempt sv env rid earlier evaluatedAt now (RQ_Version q) requestID (RQ_Reason q) (snd rdb0) rdb)"

text \<open>The table admits reasons of 20 to 2,000 characters and one queued request per version.\<close>

definition insert_request :: "review_request \<Rightarrow> review_request list \<Rightarrow> review_request list res" where
  "insert_request q rq =
     (if len (runes (RQ_Reason q)) < 20 \<or> len (runes (RQ_Reason q)) > 2000 then Inl (Err ''new row violates check constraint'')
      else insert_row (\<lambda>x. RQ_ID x = RQ_ID q \<or> RQ_Version x = RQ_Version q \<and> RQ_Status x = ''queued'') q rq)"

definition requestScientificReview ::
    "'k service \<Rightarrow> review_env \<Rightarrow> int \<Rightarrow> User \<Rightarrow> string \<Rightarrow> string \<Rightarrow> string \<Rightarrow> review_db \<Rightarrow> (int \<times> string \<times> review_db) res" where
  "requestScientificReview sv env day u qid vid reason0 = (\<lambda>(rq, db).
     let reason = trim_space reason0 in
     if len reason < 20 \<or> len reason > 2000 then http_fail ''review_reason_required''
     else if \<not> SR_key env \<or> \<not> SR_store env then http_fail ''scientific_review_unavailable'' else
     res_bind (select_row (\<lambda>v. CV_ID v = vid \<and> CV_Owner v = U_ID u) (PD_versions db)) (\<lambda>v.
     if CV_LockDigest v \<noteq> None then http_fail ''review_contract_locked''
     else if legibility_reviews vid db = [] then http_fail ''initial_review_required''
     else if list_ex (\<lambda>q. RQ_Version q = vid \<and> RQ_Status q = ''queued'') rq then http_fail ''review_already_pending'' else
     res_bind (reserveFetch sv day u (len (filter (\<lambda>q. RQ_Owner q = U_ID u \<and> RQ_Status q = ''queued'') rq)) db) (\<lambda>db1.
     res_bind (insert_request \<lparr>RQ_ID = qid, RQ_Version = vid, RQ_Owner = U_ID u, RQ_Reason = reason, RQ_Status = ''queued'', RQ_Review = None\<rparr> rq) (\<lambda>rq'.
     res_bind (update_versions (\<lambda>x. CV_ID x = vid) (\<lambda>x. x\<lparr>CV_Review := ''pending''\<rparr>) db1) (\<lambda>db2.
     Inr (202, qid, rq', enqueue ''scientific_rereview'' qid db2))))))"

section \<open>What a pass means\<close>







lemma store_review_effect:
  assumes "store_review rid now vid requestID r report digest (rq, db) = Inr (rq', db')"
  obtains (Known) "rq' = rq" "db' = db"
    | (Stored) row where "RV_Version row = vid" "RV_Kind row = ''scientific-legibility''" "RV_Status row = SCR_Outcome r" "RV_Report row = report"
      "quiet db db'" "PD_reviews db' = PD_reviews db @ [row]"
      "db' = db\<lparr>PD_reviews := PD_reviews db @ [row], PD_versions := update_where (\<lambda>v. CV_ID v = vid \<and> CV_LockDigest v = None) (\<lambda>v. v\<lparr>CV_Review := SCR_Outcome r\<rparr>) (PD_versions db)\<rparr>"
proof -
  let ?row = "\<lparr>RV_ID = rid, RV_Version = vid, RV_Kind = ''scientific-legibility'', RV_Status = SCR_Outcome r, RV_Report = report, RV_Digest = digest, RV_Created = now\<rparr>"
  let ?f = "\<lambda>v. v\<lparr>CV_Review := SCR_Outcome r\<rparr>"
  from assms consider "rq' = rq" "db' = db"
    | "update_versions (\<lambda>v. CV_ID v = vid \<and> CV_LockDigest v = None) ?f (db\<lparr>PD_reviews := PD_reviews db @ [?row]\<rparr>) = Inr db'"
    unfolding store_review_def by (auto simp: handler_simps split: if_splits)
  then show ?thesis
  proof cases
    case 2
    have q: "quiet db db'" by (rule quiet_trans [OF quiet_updates(14) update_versions_quiet [OF 2]]) (simp add: number_def)
    with 2 show ?thesis by (intro Stored [of ?row]) (auto simp: update_versions_def put_versions_def split: if_splits)
  qed (rule Known)
qed




text \<open>Reports are only appended, at most one per attempt, and an attempt changes nothing else than the review status of the version
  it reviewed, and that only while the version has no lock.\<close>

theorem review_appends:
  assumes "scientificReviewAttempt sv env rid earlier evaluatedAt now vid requestID reason db0 (rq, db) = Inr (rq', db')"
  shows "\<exists>rows. PD_reviews db' = PD_reviews db @ rows \<and> length rows \<le> 1 \<and> list_all (\<lambda>r. RV_Version r = vid) rows \<and>
    (\<exists>status. PD_versions db' = map (\<lambda>v. if rows \<noteq> [] \<and> CV_ID v = vid \<and> CV_LockDigest v = None then v\<lparr>CV_Review := status\<rparr> else v) (PD_versions db) \<and>
      list_all (\<lambda>r. RV_Status r = status) rows) \<and>
    db' = db\<lparr>PD_reviews := PD_reviews db', PD_versions := PD_versions db'\<rparr>"
proof -
  from assms consider "db' = db" | r report digest where "store_review rid now vid requestID r report digest (rq, db) = Inr (rq', db')"
    unfolding scientificReviewAttempt_def by (auto simp: handler_simps split: option.splits)
  then show ?thesis
  proof cases
    case 1
    then show ?thesis by (intro exI [of _ "[]"]) simp
  next
    case (2 r report digest)
    then show ?thesis
    proof (cases rule: store_review_effect)
      case Known
      then show ?thesis by (intro exI [of _ "[]"]) simp
    next
      case (Stored row)
      have v: "PD_versions db' = update_where (\<lambda>v. CV_ID v = vid \<and> CV_LockDigest v = None) (\<lambda>v. v\<lparr>CV_Review := SCR_Outcome r\<rparr>) (PD_versions db)"
        unfolding Stored(7) by simp
      have "db' = db\<lparr>PD_reviews := PD_reviews db', PD_versions := PD_versions db'\<rparr>" unfolding Stored(6) v by (rule Stored(7))
      with Stored(1,3,6) v show ?thesis by (intro exI [of _ "[row]"] conjI exI [of _ "SCR_Outcome r"]) (auto simp: update_where_def)
    qed
  qed
qed

section \<open>What reaches the model\<close>

definition evidence_ok :: "'k service \<Rightarrow> source_env \<Rightarrow> Manifest \<Rightarrow> (string, string) gomap \<Rightarrow> string list \<Rightarrow> reviewEvidenceFile list \<Rightarrow> bool" where
  "evidence_ok sv src m files seen fs \<longleftrightarrow> length fs \<le> 24 \<and> distinct (map EF_Path fs) \<and> EF_Path ` set fs \<subseteq> set seen \<and>
     (\<forall>f\<in>set fs. lookup files (EF_Path f) = Some (EF_Text f) \<and> EF_Digest f = DigestBytes (Sha (scrypto sv)) (EF_Text f) \<and>
       admissible_text src m (EF_Path f) (EF_Text f))"

lemma add_evidence_ok:
  assumes "evidence_ok sv (SR_source env) m files seen (EV_Files ev)" "name \<notin> set seen"
  shows "evidence_ok sv (SR_source env) m files (name # seen) (EV_Files (add_evidence sv env m files ev name))"
  using assms by (auto simp: evidence_ok_def add_evidence_def Let_def split: option.split)

lemma evidence_loop_ok:
  assumes "evidence_ok sv (SR_source env) m files seen (EV_Files ev)"
  shows "\<exists>seen'. set seen' \<subseteq> set seen \<union> set names \<and>
    evidence_ok sv (SR_source env) m files seen' (EV_Files (evidence_loop sv env m files seen names ev))"
  using assms
proof (induction names arbitrary: seen ev)
  case (Cons name names)
  show ?case
  proof (cases "name \<in> set seen")
    case True
    with Cons.IH [OF Cons.prems] show ?thesis by auto
  next
    case False
    from Cons.IH [OF add_evidence_ok [OF Cons.prems False]] False show ?thesis by auto
  qed
qed auto

lemma evidence_loop_binding:
  "EV_Commit (evidence_loop sv env m files seen names ev) = EV_Commit ev" "EV_Source (evidence_loop sv env m files seen names ev) = EV_Source ev"
  "EV_Manifest (evidence_loop sv env m files seen names ev) = EV_Manifest ev"
  by (induction names arbitrary: seen ev) (auto simp: add_evidence_def Let_def split: option.split)

lemma safe_path_outside:
  assumes "safeReviewPath src name m"
  shows "is_ok (ValidatePath (SV_nfc src) name)" "\<And>p. p \<in> set (split_on CHR ''/'' (to_lower (SV_lower src) name)) \<Longrightarrow> \<not> private_component p"
    "Suite_Visibility (Manifest_Suite m) = ''hidden'' \<Longrightarrow> name \<noteq> Suite_Path (Manifest_Suite m) \<and> \<not> below (Suite_Path (Manifest_Suite m)) name"
  using assms by (auto simp: safeReviewPath_def list_ex_iff split: if_splits)

text \<open>C11: the reviewing model sees at most 24 distinct files of the pinned snapshot, whole and bound by their digests, each a readable text of at
  most 32 KiB under a safe path and without a recognizable secret.  Nothing of a hidden suite and nothing from a private, dotted or
  instruction path is among them.  The snapshot is the one the version was adopted from and its manifest the reviewed one.\<close>

theorem review_evidence_bounded:
  assumes "selectReviewEvidence sv env document sourceDigest commit repositoryID m = Inr ev"
  shows "DigestBytes (Sha (scrypto sv)) document = sourceDigest \<and> EV_Source ev = sourceDigest \<and> EV_Commit ev = commit \<and>
    Digest sv (DocManifest m) = Inr (EV_Manifest ev) \<and>
    (\<exists>files source. SR_snapshot env document = Inr (repositoryID, commit, files) \<and>
      ParseManifest (SR_source env) (case lookup files ''science-ladder.yaml'' of None \<Rightarrow> [] | Some b \<Rightarrow> b) = Inr source \<and>
      Digest sv (DocManifest source) = Inr (EV_Manifest ev) \<and>
      length (EV_Files ev) \<le> 24 \<and> distinct (map EF_Path (EV_Files ev)) \<and>
      (\<forall>f\<in>set (EV_Files ev). EF_Path f \<in> set (selected_evidence m files) \<and> lookup files (EF_Path f) = Some (EF_Text f) \<and>
        EF_Digest f = DigestBytes (Sha (scrypto sv)) (EF_Text f) \<and> is_ok (ValidatePath (SV_nfc (SR_source env)) (EF_Path f)) \<and>
        len (EF_Text f) \<le> 32 * 2 ^ 10 \<and> utf8_valid (EF_Text f) \<and> \<not> reviewSecretMarker (EF_Text f) \<and>
        (\<forall>p\<in>set (split_on CHR ''/'' (to_lower (SV_lower (SR_source env)) (EF_Path f))). \<not> private_component p) \<and>
        (Suite_Visibility (Manifest_Suite m) = ''hidden'' \<longrightarrow>
          EF_Path f \<noteq> Suite_Path (Manifest_Suite m) \<and> \<not> prefix (Suite_Path (Manifest_Suite m) @ ''/'') (EF_Path f))))"
proof -
  from assms obtain files source expected where s: "DigestBytes (Sha (scrypto sv)) document = sourceDigest" "SR_snapshot env document = Inr (repositoryID, commit, files)"
    "ParseManifest (SR_source env) (case lookup files ''science-ladder.yaml'' of None \<Rightarrow> [] | Some b \<Rightarrow> b) = Inr source"
    "Digest sv (DocManifest m) = Inr expected" "Digest sv (DocManifest source) = Inr expected"
    and ev: "ev = evidence_loop sv env m files [] (sort (selected_evidence m files))
      \<lparr>EV_Commit = commit, EV_Source = sourceDigest, EV_Manifest = expected, EV_Files = [], EV_Omitted = 0\<rparr>"
    unfolding selectReviewEvidence_def by (auto simp: handler_simps or_else_Inr_iff split: sum.splits)
  have "evidence_ok sv (SR_source env) m files [] (EV_Files \<lparr>EV_Commit = commit, EV_Source = sourceDigest, EV_Manifest = expected, EV_Files = [], EV_Omitted = 0\<rparr>)"
    by (simp add: evidence_ok_def)
  from evidence_loop_ok [OF this, of "sort (selected_evidence m files)"] obtain seen where
    "set seen \<subseteq> set (selected_evidence m files)" "evidence_ok sv (SR_source env) m files seen (EV_Files ev)" by (auto simp: ev)
  then have ok: "evidence_ok sv (SR_source env) m files (selected_evidence m files) (EV_Files ev)" by (auto simp: evidence_ok_def)
  have b: "EV_Source ev = sourceDigest" "EV_Commit ev = commit" "EV_Manifest ev = expected" by (simp_all add: ev evidence_loop_binding)
  have "EF_Path f \<in> set (selected_evidence m files) \<and> lookup files (EF_Path f) = Some (EF_Text f) \<and>
        EF_Digest f = DigestBytes (Sha (scrypto sv)) (EF_Text f) \<and> is_ok (ValidatePath (SV_nfc (SR_source env)) (EF_Path f)) \<and>
        len (EF_Text f) \<le> 32 * 2 ^ 10 \<and> utf8_valid (EF_Text f) \<and> \<not> reviewSecretMarker (EF_Text f) \<and>
        (\<forall>p\<in>set (split_on CHR ''/'' (to_lower (SV_lower (SR_source env)) (EF_Path f))). \<not> private_component p) \<and>
        (Suite_Visibility (Manifest_Suite m) = ''hidden'' \<longrightarrow>
          EF_Path f \<noteq> Suite_Path (Manifest_Suite m) \<and> \<not> prefix (Suite_Path (Manifest_Suite m) @ ''/'') (EF_Path f))" if "f \<in> set (EV_Files ev)" for f
    using that ok safe_path_outside [of "SR_source env" "EF_Path f" m] by (auto simp: evidence_ok_def admissible_text_def below_def)
  with s b ok show ?thesis by (auto simp: evidence_ok_def)
qed

section \<open>What the handlers leave alone\<close>

lemma scientificReviewAttempt_quiet:
  assumes "scientificReviewAttempt sv env rid earlier evaluatedAt now vid requestID reason db0 (rq, db) = Inr (rq', db')"
  shows "quiet db db'"
proof -
  from assms consider "db' = db" | r report digest where "store_review rid now vid requestID r report digest (rq, db) = Inr (rq', db')"
    unfolding scientificReviewAttempt_def by (auto simp: handler_simps split: option.splits)
  then show ?thesis by cases (auto elim: store_review_effect)
qed

lemma requestScientificReview_quiet:
  assumes "requestScientificReview sv env day u qid vid reason (rq, db) = Inr (st, i, rq', db')"
  shows "quiet db db'"
proof -
  from assms obtain n db1 db2 where "reserveFetch sv day u n db = Inr db1"
    and u: "update_versions (\<lambda>x. CV_ID x = vid) (\<lambda>x. x\<lparr>CV_Review := ''pending''\<rparr>) db1 = Inr db2" and e: "db' = enqueue ''scientific_rereview'' qid db2"
    unfolding requestScientificReview_def by (auto simp: handler_simps)
  then have "quiet db db1" by (intro reserveFetch_quiet)
  also have "quiet db1 db2" using u by (rule update_versions_quiet) (simp add: number_def)
  also have "quiet db2 db'" by (simp add: e)
  finally show ?thesis .
qed

end
