(* ===== verification/Renewal.thy ===== *)
theory Renewal
  imports Effects
begin

text \<open>
  Renewal of a host's authorization (\<open>renewRunnerAuthorization\<close> of \<open>internal/platform/runner_authorization.go\<close>): an enrolled host that runs an
  unchanged, approved configuration receives the template its operator approved, signed for another 24 hours.

  Decoding and encoding of templates, the signature and the digest of an envelope are the record \<open>renewal_env\<close>.
\<close>

record HostAttestation =
  Att_Capabilities :: "ExecutorCapabilities option"
  Att_HostID :: string
  Att_PhysicalHostID :: string
  Att_HostGroup :: string
  Att_ExpiresAt :: go_time
  Att_ExclusivePhysicalHost :: bool
  Att_EgressPolicyVerified :: bool
  Att_ExecutionProfileDigest :: string
  Att_RunnerEpoch :: string
  Att_ConfigDigest :: string

record renewal_env =
  RN_decode :: "string \<Rightarrow> HostAttestation res"
  RN_marshal :: "HostAttestation \<Rightarrow> string res"
  RN_sign :: "string \<Rightarrow> string res"
  RN_digest :: "Envelope \<Rightarrow> string res"

record renewal_row =
  RA_ID :: string
  RA_Host :: string
  RA_Config :: string
  RA_Issued :: go_time
  RA_Expires :: go_time
  RA_Envelope :: Envelope
  RA_Digest :: string

definition runnerAuthorizationLifetime :: go_time where
  "runnerAuthorizationLifetime = 24 * 3600 * go_second"

text \<open>The row of the join: the template, the group of the host and the profile in force.\<close>

definition enrolled_template :: "platform_db \<Rightarrow> string \<Rightarrow> string \<Rightarrow> (string \<times> string \<times> string) option" where
  "enrolled_template db host config =
     (case (find (\<lambda>e. EN_Host e = host \<and> EN_Config e = config \<and> EN_Enabled e) (PD_enrollments db), find (\<lambda>h. HR_ID h = host \<and> HR_Enabled h) (PD_hosts db)) of
        (Some e, Some h) \<Rightarrow> Some (EN_Template e, HR_Group h,
          (case find (\<lambda>p. RP_Host p = host \<and> RP_Config p = config) (PD_profiles db) of None \<Rightarrow> HR_Profile h
           | Some p \<Rightarrow> if RP_Enabled p then RP_Profile p else HR_Profile h))
      | _ \<Rightarrow> None)"

definition attestation_matches :: "runnerIdentity \<Rightarrow> string \<Rightarrow> string \<Rightarrow> string \<Rightarrow> HostAttestation \<Rightarrow> bool" where
  "attestation_matches host grp profile config a = (Att_HostID a = Host_ID host \<and> Att_HostGroup a = grp \<and> Att_ExecutionProfileDigest a = profile \<and> ValidDigest profile \<and>
     Att_ConfigDigest a = config \<and> Att_RunnerEpoch a = ''1'' \<and> Att_PhysicalHostID a \<noteq> [] \<and> Att_ExclusivePhysicalHost a \<and> Att_EgressPolicyVerified a)"

text \<open>\<open>t\<close> is the time of the check of the delegation and \<open>issued\<close> the time of the signature; times are written into the event as \<open>stamp\<close> gives them.\<close>

definition renewRunnerAuthorization ::
    "'k service \<Rightarrow> renewal_env \<Rightarrow> (go_time \<Rightarrow> json) \<Rightarrow> string \<Rightarrow> go_time \<Rightarrow> go_time \<Rightarrow> runnerIdentity \<Rightarrow> string \<Rightarrow> renewal_row list \<Rightarrow> platform_db
      \<Rightarrow> (Envelope \<times> renewal_row list \<times> platform_db) res" where
  "renewRunnerAuthorization sv env stamp rid t issued host config rows db =
     (if \<not> ValidDigest config then http_fail ''invalid_config_digest'' else
      res_bind (verifyHostDelegation sv host t) (\<lambda>_.
      case S_ReceiptSigner (SE_server sv) of None \<Rightarrow> http_fail ''signing_unavailable'' | Some key \<Rightarrow>
      case enrolled_template db (Host_ID host) config of None \<Rightarrow> http_fail ''runner_authorization_unenrolled'' | Some (template, grp, profile) \<Rightarrow>
      res_bind (or_else (RN_decode env template) (Errf ''runner_authorization_mismatch'' [])) (\<lambda>a.
      if \<not> attestation_matches host grp profile config a then http_fail ''runner_authorization_mismatch'' else
      let a' = a\<lparr>Att_ExpiresAt := issued + runnerAuthorizationLifetime\<rparr> in
      res_bind (Sign (scrypto sv) (S_ReceiptKeyID (SE_server sv)) key (RN_sign env) (RN_marshal env a')) (\<lambda>envelope.
      res_bind (RN_digest env envelope) (\<lambda>digest.
      res_bind (insert_row (\<lambda>r. RA_ID r = rid \<or> RA_Digest r = digest) \<lparr>RA_ID = rid, RA_Host = Host_ID host, RA_Config = config, RA_Issued = issued,
        RA_Expires = Att_ExpiresAt a', RA_Envelope = envelope, RA_Digest = digest\<rparr> rows) (\<lambda>rows'.
      res_bind (audit_event sv ''runner.authorization_renewed'' [(''renewalId'', JStr rid), (''hostId'', JStr (Host_ID host)), (''configDigest'', JStr config),
        (''envelopeDigest'', JStr digest), (''issuedAt'', stamp issued), (''expiresAt'', stamp (Att_ExpiresAt a')),
        (''scope'', JStr ''unchanged enrolled host authorization; no new advisory or hardware assessment'')] db) (\<lambda>db'.
      Inr (envelope, rows', db'))))))))"

text \<open>A renewal needs an enabled enrollment of an enabled host, and what is signed is the template the operator approved for this host, group,
  profile and configuration; only its expiry is new, and it lies 24 hours after the signature.\<close>

lemma renewal_unchanged:
  assumes "renewRunnerAuthorization sv env stamp rid t issued host config rows db = Inr (envelope, rows', db')"
  shows "\<exists>e h a a' key. e \<in> set (PD_enrollments db) \<and> EN_Enabled e \<and> EN_Host e = Host_ID host \<and> EN_Config e = config \<and>
    h \<in> set (PD_hosts db) \<and> HR_Enabled h \<and> HR_ID h = Host_ID host \<and> RN_decode env (EN_Template e) = Inr a \<and>
    Att_HostID a = Host_ID host \<and> Att_HostGroup a = HR_Group h \<and> Att_ConfigDigest a = config \<and> a' = a\<lparr>Att_ExpiresAt := issued + runnerAuthorizationLifetime\<rparr> \<and>
    Sign (scrypto sv) (S_ReceiptKeyID (SE_server sv)) key (RN_sign env) (RN_marshal env a') = Inr envelope"
proof -
  from assms obtain key template grp profile a where t: "enrolled_template db (Host_ID host) config = Some (template, grp, profile)" and
    a: "RN_decode env template = Inr a" "attestation_matches host grp profile config a"
    "Sign (scrypto sv) (S_ReceiptKeyID (SE_server sv)) key (RN_sign env) (RN_marshal env (a\<lparr>Att_ExpiresAt := issued + runnerAuthorizationLifetime\<rparr>)) = Inr envelope"
    unfolding renewRunnerAuthorization_def by (auto simp: handler_simps or_else_Inr_iff http_fail_def split: option.splits)
  from t obtain e h where "find (\<lambda>e. EN_Host e = Host_ID host \<and> EN_Config e = config \<and> EN_Enabled e) (PD_enrollments db) = Some e"
    "find (\<lambda>h. HR_ID h = Host_ID host \<and> HR_Enabled h) (PD_hosts db) = Some h" "template = EN_Template e" "grp = HR_Group h"
    unfolding enrolled_template_def by (auto split: option.splits)
  with a show ?thesis by (auto simp: attestation_matches_def dest!: find_set)
qed

lemma renewRunnerAuthorization_quiet:
  assumes "renewRunnerAuthorization sv env stamp rid t issued host config rows db = Inr (envelope, rows', db')"
  shows "quiet db db'"
  using assms unfolding renewRunnerAuthorization_def by (auto simp: handler_simps http_fail_def split: option.splits intro: audit_event_quiet)

end
