(* ===== verification/Lifecycle.thy ===== *)
theory Lifecycle
  imports Accounts Suites Review Renewal
begin

text \<open>
  The platform as a whole.  Its state is the database with its past; a step is one request, worker run or transaction of it.  A
  claim of a job reads one state and writes a later one, so the step of a claim names the state it read; a request of a runner is
  authenticated against the inventory of hosts in some state it read.  Every reachable state satisfies the invariants of runs and
  accounts, every stored result bears the signature of its host, and what is recorded stays recorded.
\<close>

section \<open>What stays\<close>

text \<open>A job keeps its identity and is frozen when complete; results and claims are never removed; a finalized valid submission keeps
  its outcome, score and adjudication.\<close>

definition settled :: "submission \<Rightarrow> bool" where
  "settled s \<longleftrightarrow> Sub_Outcome s = ''valid'' \<and> Sub_Status s = ''finalized''"

definition stays :: "submission \<Rightarrow> submission \<Rightarrow> bool" where
  "stays s s' \<longleftrightarrow> Sub_ID s' = Sub_ID s \<and> (settled s \<longrightarrow> settled s' \<and> Sub_Score s' = Sub_Score s)"

definition keeps :: "platform_db \<Rightarrow> platform_db \<Rightarrow> bool" where
  "keeps db db' \<longleftrightarrow> evolves (PD_jobs db) (PD_jobs db') \<and> set (PD_results db) \<subseteq> set (PD_results db') \<and> set (PD_claims db) \<subseteq> set (PD_claims db') \<and>
     (\<forall>s\<in>set (PD_submissions db). \<exists>s'\<in>set (PD_submissions db'). stays s s')"

lemma stays_refl [simp]: "stays s s"
  by (simp add: stays_def)

lemma stays_trans: "stays a b \<Longrightarrow> stays b c \<Longrightarrow> stays a c"
  by (auto simp: stays_def)

lemma stays_in: "s \<in> S \<Longrightarrow> \<exists>x\<in>S. stays s x"
  by (rule bexI [of _ s]) simp_all

lemma keeps_core: "core db' = core db \<Longrightarrow> keeps db db'"
  by (auto simp: keeps_def core_def intro: stays_in)

lemma keeps_quiet: "quiet db db' \<Longrightarrow> keeps db db'"
  by (simp add: quiet_def keeps_core)

lemma keeps_refl [simp]: "keeps db db"
  by (simp add: keeps_core)

lemma keeps_trans [trans]: "keeps a b \<Longrightarrow> keeps b c \<Longrightarrow> keeps a c"
  unfolding keeps_def by (meson evolves_trans stays_trans subset_trans)

lemma keeps_update:
  assumes "evolves (PD_jobs db) (PD_jobs db')" "set (PD_results db) \<subseteq> set (PD_results db')" "set (PD_claims db) \<subseteq> set (PD_claims db')"
    "PD_submissions db' = update_where P f (PD_submissions db)" "\<And>s. s \<in> set (PD_submissions db) \<Longrightarrow> P s \<Longrightarrow> stays s (f s)"
  shows "keeps db db'"
proof -
  have "\<exists>s'\<in>set (PD_submissions db'). stays s s'" if "s \<in> set (PD_submissions db)" for s
    unfolding assms(4) update_where_def using that assms(5) [OF that]
    by (intro bexI [of _ "if P s then f s else s"]) auto
  with assms(1-3) show ?thesis by (simp add: keeps_def)
qed

lemma unsettled: "Sub_Outcome s \<noteq> ''valid'' \<Longrightarrow> stays s s' \<longleftrightarrow> Sub_ID s' = Sub_ID s"
  by (simp add: stays_def settled_def)

lemma insert_job_keeps: "insert_job row db = Inr db' \<Longrightarrow> keeps db db'"
  by (drule insert_job_fields(1)) (auto simp: keeps_def intro: stays_in)

lemma queueSubmission_keeps:
  assumes "runs_inv sv db" "queueSubmission sv jid created now sid db = Inr db'"
  shows "keeps db db'"
proof -
  from assms(2) obtain job s where q: "queue_primary job now s db = Inr db'" by (rule queueSubmission_effect)
  show ?thesis
  proof (cases "list_ex (\<lambda>j. RJ_Submission j = Some (Sub_ID s) \<and> RJ_Purpose j = ''submission'') (PD_jobs db)")
    case True
    with q show ?thesis by (simp add: queue_primary_def)
  next
    case n: False
    from n q obtain db1 grants row where i: "insert_job row db = Inr db1" and
      d: "db' = db1\<lparr>PD_grants := grants, PD_submissions := update_where (\<lambda>x. Sub_ID x = Sub_ID s) (\<lambda>x. x\<lparr>Sub_Status := ''queued''\<rparr>) (PD_submissions db1)\<rparr>"
      by (auto simp: queue_primary_def res_bind_Inr_iff)
    have "keeps db1 db'"
      by (rule keeps_update [where P = "\<lambda>x. Sub_ID x = Sub_ID s" and f = "\<lambda>x. x\<lparr>Sub_Status := ''queued''\<rparr>"])
        (use unqueued_not_valid [OF assms(1)] n in \<open>auto simp: d insert_job_fields(1) [OF i] unsettled\<close>)
    with insert_job_keeps [OF i] show ?thesis by (rule keeps_trans)
  qed
qed

lemma queuePreparation_keeps:
  assumes "queuePreparation sv jid created now purpose pid version source artifact m db = Inr db'"
  shows "keeps db db'"
  using assms unfolding queuePreparation_def Let_def by (auto split: if_split_asm dest: insert_job_keeps)

lemma keeps_moves:
  assumes "moves P f (PD_jobs db)"
  shows "keeps db (db\<lparr>PD_jobs := update_where P f (PD_jobs db)\<rparr>)"
  using moves_evolves [OF assms] by (auto simp: keeps_def intro: stays_in)

lemma recoverRunnerLeases_keeps:
  assumes "runs_inv sv db"
  shows "keeps db (recoverRunnerLeases now db)"
  unfolding recoverRunnerLeases_def by (rule keeps_moves [OF recover_moves [OF assms]])

lemma claimRunnerJob_keeps:
  assumes "runs_inv sv db" "evolves (PD_jobs db0) (PD_jobs db)" "\<forall>j\<in>set (PD_jobs db0). payload_ok j"
    "claimRunnerJob sv env dr now host purposes locked db0 db = Inr (r, db')"
  shows "keeps db db'"
proof -
  have "PD_submissions db' = PD_submissions db" "PD_claims db' = PD_claims db"
    using claimRunnerJob_effect [OF assms(4)] by (auto simp: commit_claim_def Let_def if_fail)
  with claimRunnerJob_runs [OF assms] show ?thesis by (auto simp: keeps_def intro: stays_in)
qed

lemma keeps_entries:
  assumes "quiet (db\<lparr>PD_jobs := PD_jobs db @ new, PD_submissions := update_where P f (PD_submissions db)\<rparr>) db'" "\<And>s. entry (f s) = entry s"
    "\<And>s. s \<in> set (PD_submissions db) \<Longrightarrow> P s \<Longrightarrow> Sub_Outcome s \<noteq> ''valid''"
  shows "keeps db db'"
proof -
  have "Sub_ID (f s) = Sub_ID s" for s using assms(2) [of s] by (simp add: entry_def)
  then have "keeps db (db\<lparr>PD_jobs := PD_jobs db @ new, PD_submissions := update_where P f (PD_submissions db)\<rparr>)"
    by (intro keeps_update [where P = P and f = f]) (use assms(3) in \<open>simp_all add: unsettled\<close>)
  with keeps_quiet [OF assms(1)] show ?thesis by (blast intro: keeps_trans)
qed

lemma store_result_keeps:
  assumes "jobs_inv (PD_jobs db)" "row \<in> set (PD_jobs db)" "RJ_Status row = ''running''" "Job_ID job = RJ_ID row"
    "store_result host job envelope run digest version db = Inr db1"
  shows "keeps db db1"
  using store_result_effect(1-4) [OF assms(5)] moves_evolves [OF complete_moves(1) [OF assms(1-3)]]
  by (auto simp: keeps_def assms(4) intro: stays_in)

lemma commitBuild_keeps:
  assumes "commitBuild sv env dr now job run digest version db = Inr db'"
  shows "keeps db db'"
  using commitBuild_effect [OF assms]
  by (auto simp: rebuilt_def dest!: keeps_quiet insert_job_keeps intro: keeps_trans)

lemma accept_run_keeps:
  assumes "runs_inv sv db" "row \<in> set (PD_jobs db)" "RJ_Status row = ''running''"
    "accept_run sv env dr now host envelope run digest row db = Inr (reply, db')"
  shows "keeps db db'"
proof -
  have j: "jobs_inv (PD_jobs db)" using assms(1) by (simp add: runs_inv_def)
  note ok = jobs_invD(1) [OF j assms(2), unfolded payload_ok_def]
  from assms(4) show ?thesis
  proof (cases rule: accept_run_steps)
    case (Build db1)
    then show ?thesis using store_result_keeps [OF j assms(2,3) _ Build(2)] commitBuild_keeps ok keeps_trans by blast
  next
    case (Submission db1)
    have "Sub_Outcome s \<noteq> ''valid''" if "s \<in> set (PD_submissions db1)" "Sub_ID s = Job_SubmissionID (RJ_Payload row)" for s
      using unfinished_not_valid [OF assms(1) _ assms(2), of s] that ok assms(3) Submission(3) store_result_effect(3) [OF Submission(2)] by simp
    with Submission(4) have "keeps db1 db'" by (elim advance_effect) (rule keeps_entries)
    with store_result_keeps [OF j assms(2,3) _ Submission(2)] ok show ?thesis by (blast intro: keeps_trans)
  qed
qed

lemma commit_run_keeps:
  assumes "runs_inv sv db" "commit_run sv env dr now host envelope token run digest db = Inr (reply, db')"
  shows "keeps db db'"
  using assms(2)
proof (cases rule: commit_run_cases)
  case (Retry row)
  have "jobs_inv (PD_jobs db)" "RJ_Status row = ''running''" using assms(1) Retry(3) by (simp_all add: runs_inv_def lease_held_def)
  from keeps_moves [OF complete_moves(2) [OF this(1) Retry(1) this(2)]] show ?thesis by (simp add: Retry)
next
  case (Accept row d)
  show ?thesis by (rule accept_run_keeps [OF assms(1) Accept(1) _ Accept(6)]) (use Accept(3) in \<open>simp add: lease_held_def\<close>)
qed simp

lemma runnerResult_keeps:
  assumes "runs_inv sv db" "runnerResult sv env dr now host jid envelope token order db = (r, db')"
  shows "keeps db db'"
  using assms(2)
proof (cases rule: runnerResult_commit)
  case (Refused e)
  then show ?thesis by (simp add: keeps_quiet)
next
  case (Committed run digest db1 reply)
  have "keeps db1 db'" by (rule commit_run_keeps [OF runs_inv_quiet [OF Committed(2) assms(1)] Committed(4)])
  with keeps_quiet [OF Committed(2)] show ?thesis by (rule keeps_trans)
qed

lemma editorDecision_keeps:
  assumes "runs_inv sv db" "editorDecision sv dr now u vid action reason a db = Inr (st, i, db')"
  shows "keeps db db'"
proof -
  have "keeps x (resolved vid x)" if "runs_inv sv x" for x
    by (rule keeps_update [where P = "open_submission vid" and f = unscorable_row])
      (use moves_evolves [OF cancel_moves [OF that]] in \<open>auto simp: resolved_def stays_def settled_def open_submission_def unscorable_row_def\<close>)
  with editorDecision_effect [OF assms(2)] assms(1) show ?thesis by (blast intro: keeps_quiet keeps_trans runs_inv_quiet)
qed

lemma publishSubmission_keeps:
  assumes "publishSubmission sv rid created now sid owner db = Inr (st, i, db')"
  shows "keeps db db'"
proof -
  have "keeps x (x\<lparr>PD_submissions := update_where P (\<lambda>s. s\<lparr>Sub_Public := True, Sub_PublishRequested := True\<rparr>) (PD_submissions x)\<rparr>)" for x P
    by (rule keeps_update [where P = P and f = "\<lambda>s. s\<lparr>Sub_Public := True, Sub_PublishRequested := True\<rparr>"]) (auto simp: stays_def settled_def)
  with publishSubmission_effect [OF assms] show ?thesis by (blast intro: keeps_quiet keeps_trans)
qed

lemma acceptIntent_keeps:
  assumes "acceptIntent sv dr clock now iid owner db = Inr (st, sid, db')"
  shows "keeps db db'"
  using assms
proof (cases rule: acceptIntent_effect)
  case (New s v)
  then show ?thesis by (auto simp: keeps_def core_def intro: stays_in)
qed simp

lemma adjudicated_keeps: "adjudicated sv dr now version m st ss st' \<Longrightarrow> keeps (AS_db st) (AS_db st')"
proof (induction rule: adjudicated.induct)
  case (adjudicated_Cons st s doc v accepted st1 ss st')
  from adjudicated_Cons.hyps(4) obtain v' where "finalize sv dr now version (AS_watermark st1) s accepted v' (AS_db st) = Inr (AS_db st1)"
    by (rule adjudicate_one_finalize)
  then obtain digest where "PD_submissions (AS_db st1) = update_where (\<lambda>x. Sub_ID x = Sub_ID s) (finalize_row (VD_publish v') digest) (PD_submissions (AS_db st))"
    "PD_claims (AS_db st1) = PD_claims (AS_db st) @ map (new_claim dr (Sub_ID s) digest) (VD_claims v')"
    "PD_jobs (AS_db st1) = PD_jobs (AS_db st)" "PD_results (AS_db st1) = PD_results (AS_db st)" by (rule finalize_effect)
  then have "keeps (AS_db st) (AS_db st1)"
    by (intro keeps_update [where P = "\<lambda>x. Sub_ID x = Sub_ID s" and f = "finalize_row (VD_publish v') digest"]) (auto simp: stays_def settled_def)
  then show ?case using adjudicated_Cons.IH by (rule keeps_trans)
qed simp

lemma adjudicate_keeps:
  assumes "adjudicate sv dr now version db = Inr db'"
  shows "keeps db db'"
  using assms
proof (rule adjudicate_run)
  fix cv m best frontier ss st
  assume "adjudicated sv dr now version m \<lparr>AS_db = db, AS_watermark = CV_Watermark cv, AS_best = best,
      AS_bestID = CV_Best cv, AS_frontier = frontier, AS_frontierID = CV_Frontier cv\<rparr> ss st" and
    d: "db' = (AS_db st)\<lparr>PD_versions := update_where (\<lambda>v. CV_ID v = version)
      (\<lambda>v. v\<lparr>CV_Watermark := AS_watermark st, CV_Best := AS_bestID st, CV_Frontier := AS_frontierID st\<rparr>) (PD_versions db)\<rparr>"
  then have "keeps db (AS_db st)" using adjudicated_keeps by fastforce
  also have "keeps (AS_db st) db'" by (simp add: d keeps_core)
  finally show ?thesis .
qed

section \<open>What a result needs\<close>

lemma runnerResult_stores:
  assumes "runs_inv sv db" "runnerResult sv env dr now host jid envelope token order db = (r, db')"
  shows "PD_results db' = PD_results db \<or> (\<exists>run digest key payload j t. parseRunnerKey sv (Host_PublicKey host) = Inr key \<and>
    Verify (scrypto sv) envelope [(Host_ID host, key)] = Inr payload \<and> SE_run sv payload = Inr run \<and>
    Run_HostID run = Host_ID host \<and> Run_JobID run = jid \<and> j \<in> set (PD_jobs db) \<and> RJ_ID j = jid \<and> RJ_Status j = ''running'' \<and>
    RJ_Host j = Some (Host_ID host) \<and> RJ_Lease j = Some t \<and> now \<le> t \<and> RJ_Fence j = Run_FencingToken run \<and>
    RJ_Token j = Some (hash_hex sv token) \<and> (\<forall>r\<in>set (PD_results db). RR_Job r \<noteq> jid) \<and>
    PD_results db' = PD_results db @ [\<lparr>RR_Job = jid, RR_Host = Host_ID host, RR_Digest = digest, RR_Envelope = envelope, RR_Result = run\<rparr>])"
  using assms(2)
proof (cases rule: runnerResult_commit)
  case (Refused e)
  then show ?thesis by (simp add: quiet_fields)
next
  case (Committed run digest db1 reply)
  have same: "PD_jobs db1 = PD_jobs db" "PD_results db1 = PD_results db" using quiet_fields [OF Committed(2)] by simp_all
  from Committed(1) obtain key payload where k: "parseRunnerKey sv (Host_PublicKey host) = Inr key"
    "Verify (scrypto sv) envelope [(Host_ID host, key)] = Inr payload" "SE_run sv payload = Inr run"
    "Run_HostID run = Host_ID host" "Run_JobID run = jid" by (elim receive_run_facts) (auto simp: run_identity_def)
  from Committed(4) show ?thesis
  proof (cases rule: commit_run_cases)
    case (Accept row d)
    obtain t where t: "RJ_Status row = ''running''" "RJ_Host row = Some (Host_ID host)" "RJ_Lease row = Some t" "now \<le> t" "RJ_Fence row = Run_FencingToken run"
      using Accept(3) by (auto simp: lease_held_def split: option.splits)
    have "payload_ok row" using assms(1) Accept(1) same(1) by (auto simp: runs_inv_def jobs_inv_def)
    note st = store_result_once [OF Accept(6) this]
    show ?thesis
      by (intro disjI2 exI [of _ run] exI [of _ digest] exI [of _ key] exI [of _ payload] exI [of _ row] exI [of _ t])
        (use k t Accept(1,2,7) st same in simp)
  qed (use same in simp_all)
qed

text \<open>A result bears the signature of its host when its envelope verifies with the public key that an enabled host of that name had in the inventory.\<close>

definition host_signed :: "'k service \<Rightarrow> platform_db list \<Rightarrow> runner_result \<Rightarrow> bool" where
  "host_signed sv dbs r \<longleftrightarrow> (\<exists>p\<in>set dbs. \<exists>h\<in>set (PD_hosts p). HR_Enabled h \<and> HR_ID h = RR_Host r \<and>
     (\<exists>key payload. parseRunnerKey sv (HR_PublicKey h) = Inr key \<and> Verify (scrypto sv) (RR_Envelope r) [(HR_ID h, key)] = Inr payload \<and>
       SE_run sv payload = Inr (RR_Result r)))"

lemma host_signed_mono: "host_signed sv dbs r \<Longrightarrow> set dbs \<subseteq> set dbs' \<Longrightarrow> host_signed sv dbs' r"
  unfolding host_signed_def by blast

text \<open>Who sends a request to \<open>RunnerHandler\<close>: the host whose certificate the connection presented, as the inventory had it.\<close>

definition known_runner :: "'k service \<Rightarrow> platform_db list \<Rightarrow> string option \<Rightarrow> runnerIdentity \<Rightarrow> bool" where
  "known_runner sv seen certificate host \<longleftrightarrow> (\<exists>p\<in>set seen. runner_identity sv certificate p = Inr host)"

lemma known_runner_row:
  assumes "known_runner sv seen certificate host"
  obtains p h where "p \<in> set seen" "h \<in> set (PD_hosts p)" "HR_Enabled h" "HR_ID h = Host_ID host" "HR_PublicKey h = Host_PublicKey host"
proof -
  from assms obtain p where p: "p \<in> set seen" "runner_identity sv certificate p = Inr host" by (auto simp: known_runner_def)
  then obtain c h where h: "find (\<lambda>h. HR_Certificate h = hash_hex sv c \<and> HR_Enabled h) (PD_hosts p) = Some h" "host = identity_of h"
    by (auto simp: runner_identity_def http_fail_def split: option.splits)
  from find_set [OF h(1)] have "h \<in> set (PD_hosts p)" "HR_Enabled h" by simp_all
  moreover have "HR_ID h = Host_ID host" "HR_PublicKey h = Host_PublicKey host" by (simp_all add: h(2) identity_of_def)
  ultimately show ?thesis using p(1) that by blast
qed

lemma result_signed:
  assumes "runs_inv sv db" "known_runner sv seen certificate host" "runnerResult sv env dr now host jid envelope token order db = (reply, db')"
  shows "\<forall>r\<in>set (PD_results db') - set (PD_results db). host_signed sv seen r"
proof -
  obtain p h where "p \<in> set seen" "h \<in> set (PD_hosts p)" "HR_Enabled h" "HR_ID h = Host_ID host" "HR_PublicKey h = Host_PublicKey host"
    using assms(2) by (rule known_runner_row)
  with runnerResult_stores [OF assms(1,3)] show ?thesis by (fastforce simp: host_signed_def)
qed

section \<open>The platform\<close>

text \<open>One rule per handler.  \<open>seen\<close> holds the present and past states of the database.  A refused request leaves the database as it
  was, except where the handler commits in parts; \<open>Other\<close> is any statement that writes none of the tables and numbers the
  invariants speak of.\<close>

inductive handles :: "'k service \<Rightarrow> platform_db list \<Rightarrow> platform_db \<Rightarrow> platform_db \<Rightarrow> bool" for sv :: "'k service" and seen :: "platform_db list" where
  Intent: "createIntent sv now day iid owner role n r db = Inr (st, i, db') \<Longrightarrow> handles sv seen db db'"
| Accept: "acceptIntent sv dr clock now iid owner db = Inr (st, sid, db') \<Longrightarrow> handles sv seen db db'"
| Publish: "publishSubmission sv rid created now sid owner db = Inr (st, i, db') \<Longrightarrow> handles sv seen db db'"
| Queue: "queueSubmission sv jid created now sid db = Inr db' \<Longrightarrow> handles sv seen db db'"
| Prepare: "queuePreparation sv jid created now purpose pid version source artifact m db = Inr db' \<Longrightarrow>
    purpose = ''preflight'' \<or> purpose = ''artifact_prepare'' \<Longrightarrow> handles sv seen db db'"
| Recover: "handles sv seen db (recoverRunnerLeases now db)"
| Claim: "claimRunnerJob sv env cd now host purposes locked db0 db = Inr (c, db') \<Longrightarrow> db0 \<in> set seen \<Longrightarrow>
    known_runner sv seen certificate runner \<Longrightarrow> q \<in> set seen \<Longrightarrow> selectRunnerProfile sv q runner profile = Inr host \<Longrightarrow> handles sv seen db db'"
| Upload: "runnerObject sv env now host jid role digest n token db = Inr (url, db') \<Longrightarrow> known_runner sv seen certificate host \<Longrightarrow> handles sv seen db db'"
| Result: "runnerResult sv env rd now host jid envelope token order db = (reply, db') \<Longrightarrow> known_runner sv seen certificate host \<Longrightarrow> handles sv seen db db'"
| Adjudicate: "adjudicate sv ad now version db = Inr db' \<Longrightarrow> handles sv seen db db'"
| Decide: "editorDecision sv dd now u vid action reason a db = Inr (st, i, db') \<Longrightarrow> handles sv seen db db'"
| Import: "importCandidate sv src day u n cid text db = Inr (st, i, db') \<Longrightarrow> handles sv seen db db'"
| Create: "createChallenge sv env src day now cid vid u n candidate rep commit statement replayed fetched db = (resp, db') \<Longrightarrow> handles sv seen db db'"
| Preflight: "startPreflight sv day now u n pid vid db = Inr (st, i, db') \<Longrightarrow> handles sv seen db db'"
| Lock: "lockChallenge sv lid created u vid db = Inr (st, d, db') \<Longrightarrow> handles sv seen db db'"
| Open: "publishChallenge sv rid created now u ms vid db = Inr (st, d, db') \<Longrightarrow> handles sv seen db db'"
| Migrate: "completeMigration sv now vid db = Inr db' \<Longrightarrow> handles sv seen db db'"
| Version: "createVersion sv env src day now vid u n challenge rep commit statement kind replayed fetched db = (resp, db') \<Longrightarrow> handles sv seen db db'"
| Seal: "createSuite sv env src su day sid key salt u n document license provenance replayed db = (resp, db') \<Longrightarrow> handles sv seen db db'"
| Reveal: "revealSuite sv env su rid created earlier now u sid db0 db = Inr (st, db') \<Longrightarrow> db0 \<in> set seen \<Longrightarrow> handles sv seen db db'"
| Renew: "renewRunnerAuthorization sv rn stamp rid t issued host config rows db = Inr (envelope, rows', db') \<Longrightarrow> known_runner sv seen certificate host \<Longrightarrow>
    handles sv seen db db'"
| Request: "requestScientificReview sv re day u qid vid reason (rq, db) = Inr (st, i, rq', db') \<Longrightarrow> handles sv seen db db'"
| Other: "quiet db db' \<Longrightarrow> handles sv seen db db'"

definition platform_step :: "'k service \<Rightarrow> platform_db list \<Rightarrow> platform_db list \<Rightarrow> bool" where
  "platform_step sv h h' \<longleftrightarrow> (\<exists>db past db'. h = db # past \<and> handles sv h db db' \<and> h' = db' # h)"

text \<open>A database in which no submission has been accepted yet.\<close>

definition fresh_db :: "platform_db \<Rightarrow> bool" where
  "fresh_db db \<longleftrightarrow> core db = ([], [], [], [], 0, [], PD_maximum db) \<and> 0 \<le> PD_maximum db \<and>
     distinct (map CV_ID (PD_versions db)) \<and> (\<forall>v\<in>set (PD_versions db). CV_NextSequence v = 0 \<and> CV_Watermark v = 0)"

definition platform_init :: "platform_db list \<Rightarrow> bool" where
  "platform_init h \<longleftrightarrow> (\<exists>db. h = [db] \<and> fresh_db db)"

definition platform_inv :: "'k service \<Rightarrow> platform_db list \<Rightarrow> bool" where
  "platform_inv sv h \<longleftrightarrow> (\<exists>db past. h = db # past \<and> books db \<and> (\<forall>p\<in>set h. runs_inv sv p \<and> evolves (PD_jobs p) (PD_jobs db)) \<and>
     (\<forall>r\<in>set (PD_results db). host_signed sv h r))"

lemmas quiet_handlers = createIntent_quiet runnerObject_quiet importCandidate_quiet startPreflight_quiet lockChallenge_quiet publishChallenge_quiet completeMigration_quiet
  createSuite_quiet revealSuite_quiet renewRunnerAuthorization_quiet requestScientificReview_quiet

lemmas grown_handlers = createChallenge_grown createVersion_grown

lemma grown_core: "grown db db' \<Longrightarrow> core db' = core db"
  by (simp add: grown_def)

lemma handles_books:
  assumes "handles sv seen db db'" "books db"
  shows "books db'"
  using assms
proof (induction rule: handles.induct)
  case (Recover db now)
  then show ?case by (rule books_ledger [OF recoverRunnerLeases_ledger])
qed (blast intro: books_quiet quiet_handlers books_grown grown_handlers books_ledger ledger_kept acceptIntent_books adjudicate_books)+

lemma handles_runs:
  assumes "handles sv seen db db'" "runs_inv sv db" "\<And>db0. db0 \<in> set seen \<Longrightarrow> runs_inv sv db0 \<and> evolves (PD_jobs db0) (PD_jobs db)"
  shows "runs_inv sv db' \<and> keeps db db'"
  using assms
proof (induction rule: handles.induct)
  case (Claim env cd now host purposes locked db0 db c db' certificate runner q profile)
  then have p: "evolves (PD_jobs db0) (PD_jobs db)" "\<forall>j\<in>set (PD_jobs db0). payload_ok j" by (auto simp: runs_inv_def jobs_inv_def)
  from claimRunnerJob_runs [OF Claim(6) p Claim(1)] claimRunnerJob_keeps [OF Claim(6) p Claim(1)] show ?case by simp
next
  case (Create env src day now cid vid u n candidate rep commit statement replayed fetched db resp db')
  from createChallenge_grown [OF Create(1)] Create(2) show ?case by (blast dest: grown_core intro: keeps_core runs_inv_core)
next
  case (Version env src day now vid u n challenge rep commit statement kind replayed fetched db resp db')
  from createVersion_grown [OF Version(1)] Version(2) show ?case by (blast dest: grown_core intro: keeps_core runs_inv_core)
qed (blast intro: runs_inv_quiet keeps_quiet quiet_handlers acceptIntent_runs acceptIntent_keeps publishSubmission_runs publishSubmission_keeps
  queueSubmission_runs queueSubmission_keeps queuePreparation_runs queuePreparation_keeps recoverRunnerLeases_runs recoverRunnerLeases_keeps
  runnerResult_runs runnerResult_keeps adjudicate_runs adjudicate_keeps editorDecision_runs editorDecision_keeps)+

text \<open>Only a result adds to the results.\<close>

lemma insert_job_results: "insert_job row db = Inr db' \<Longrightarrow> PD_results db' = PD_results db"
  by (drule insert_job_fields(1)) simp

lemma queue_results:
  "queueSubmission sv jid created now sid db = Inr db' \<Longrightarrow> PD_results db' = PD_results db"
  "queuePreparation sv jid created now purpose pid version source artifact m db = Inr db' \<Longrightarrow> PD_results db' = PD_results db"
  by (auto elim!: queueSubmission_effect simp: queue_primary_def res_bind_Inr_iff dest: insert_job_results split: if_split_asm)
    (auto simp: queuePreparation_def Let_def dest: insert_job_results split: if_split_asm)

lemma decide_results:
  assumes "editorDecision sv dr now u vid action reason a db = Inr (st, i, db')"
  shows "PD_results db' = PD_results db"
  using editorDecision_effect [OF assms] by (auto simp: resolved_def dest!: quiet_fields(3))

lemma published_results:
  assumes "publishSubmission sv rid created now sid owner db = Inr (st, i, db')"
  shows "PD_results db' = PD_results db"
  using publishSubmission_effect [OF assms] by (auto dest!: quiet_fields(3))

lemma accept_results:
  assumes "acceptIntent sv dr clock now iid owner db = Inr (st, sid, db')"
  shows "PD_results db' = PD_results db"
  using assms by (rule acceptIntent_effect) (simp_all add: core_def)

lemma claim_results:
  assumes "claimRunnerJob sv env dr now host purposes locked db0 db = Inr (c, db')"
  shows "PD_results db' = PD_results db"
  using claimRunnerJob_effect [OF assms] by (auto simp: commit_claim_def Let_def if_fail)

lemma adjudicate_results:
  assumes "adjudicate sv dr now version db = Inr db'"
  shows "PD_results db' = PD_results db"
  using assms by (rule adjudicate_run) (auto dest: adjudicated_tables)

lemma grown_results: "grown db db' \<Longrightarrow> PD_results db' = PD_results db"
  by (simp add: grown_def core_def)

lemmas quiet_results = quiet_handlers [THEN quiet_fields(3)]

lemmas grown_results_handlers = grown_handlers [THEN grown_results]

lemmas other_results = queue_results decide_results published_results accept_results claim_results adjudicate_results grown_results quiet_fields(3)

lemma handles_signed:
  assumes "handles sv seen db db'" "runs_inv sv db"
  shows "\<forall>r\<in>set (PD_results db') - set (PD_results db). host_signed sv seen r"
proof -
  from assms(1) have "PD_results db' = PD_results db \<or> (\<forall>r\<in>set (PD_results db') - set (PD_results db). host_signed sv seen r)"
  proof (cases rule: handles.cases)
    case (Recover now)
    then show ?thesis by (simp add: recoverRunnerLeases_def)
  next
    case (Result env rd now host jid envelope token order reply certificate)
    then show ?thesis using result_signed [OF assms(2)] by blast
  qed (simp_all add: other_results quiet_results grown_results_handlers)
  then show ?thesis by auto
qed

lemma fresh_inv:
  assumes "fresh_db db"
  shows "runs_inv sv db" "books db"
proof -
  have c: "PD_submissions db = []" "PD_jobs db = []" "PD_results db = []" "PD_claims db = []" "PD_reserved db = 0" "PD_reservations db = []" "0 \<le> PD_maximum db"
    using assms by (simp_all add: fresh_db_def core_def)
  then show "runs_inv sv db" by (simp add: runs_inv_def jobs_inv_def results_inv_def subs_inv_def claims_inv_def)
  have "distinct (map fst (numbers db))" "\<forall>n\<in>set (numbers db). sequence_ok [] n"
    using assms by (auto simp: fresh_db_def numbers_def number_def comp_def sequence_ok_def)
  with c show "books db" by (simp add: books_def accounts_ok_def ledger_def capacity_ok_def tally_def)
qed

interpretation platform: monotone_system platform_init "platform_step sv" "platform_inv sv" "\<lambda>h p. keeps p (hd h)" for sv :: "'k service"
proof unfold_locales
  fix h assume "platform_init h"
  then show "platform_inv sv h" by (auto simp: platform_init_def platform_inv_def fresh_inv fresh_db_def core_def)
next
  fix h h' assume i: "platform_inv sv h" and "platform_step sv h h'"
  then obtain db past db' where h: "h = db # past" "handles sv h db db'" "h' = db' # h" unfolding platform_step_def by blast
  have p: "books db" "runs_inv sv db" "\<And>p. p \<in> set h \<Longrightarrow> runs_inv sv p \<and> evolves (PD_jobs p) (PD_jobs db)"
    using i by (auto simp: platform_inv_def h(1))
  note r = handles_runs [OF h(2) p(2,3)]
  then have "evolves (PD_jobs db) (PD_jobs db')" by (simp add: keeps_def)
  moreover have "host_signed sv h' r" if "r \<in> set (PD_results db')" for r
    using handles_signed [OF h(2) p(2)] i that host_signed_mono [of sv h r h'] by (auto simp: platform_inv_def h(1,3))
  ultimately show "platform_inv sv h'" using r handles_books [OF h(2) p(1)] p(3)
    by (auto simp: platform_inv_def h(3) intro: evolves_trans)
next
  fix h h' f assume i: "platform_inv sv h" and "platform_step sv h h'" and k: "keeps f (hd h)"
  then obtain db past db' where h: "h = db # past" "handles sv h db db'" "h' = db' # h" unfolding platform_step_def by blast
  have p: "runs_inv sv db" "\<And>p. p \<in> set h \<Longrightarrow> runs_inv sv p \<and> evolves (PD_jobs p) (PD_jobs db)"
    using i by (auto simp: platform_inv_def h(1))
  from handles_runs [OF h(2) p] k show "keeps f (hd h')" by (simp add: h(1,3)) (blast intro: keeps_trans)
qed

lemma reachable_present:
  assumes "reachable platform_init (platform_step sv) (db # past)"
  shows "runs_inv sv db" "books db" "\<And>r. r \<in> set (PD_results db) \<Longrightarrow> host_signed sv (db # past) r"
  using platform.reachable_inv [OF assms] by (auto simp: platform_inv_def)

section \<open>What the platform guarantees\<close>

text \<open>C1: in every state the platform can reach, a submission with a valid outcome has two stored results: one of its primary run and
  one of a separate, later confirmation run, both valid and bound to the signed job; where the policy is independent they come from two
  host groups; the score is the one the two runs agree on.  Each stored result verifies with the public key under which the inventory
  listed its host as enabled.\<close>

theorem valid_outcome_confirmed:
  assumes "reachable platform_init (platform_step sv) (db # past)" "s \<in> set (PD_submissions db)" "Sub_Outcome s = ''valid''"
  shows "confirmed sv (PD_jobs db) (PD_results db) s \<and> (\<forall>r\<in>set (PD_results db). host_signed sv (db # past) r)"
  using reachable_present [OF assms(1)] assms(2,3) by (auto simp: runs_inv_def subs_inv_def)

text \<open>C2: in every state the platform can reach, a milestone claim names a finalized submission with a valid, confirmed outcome.\<close>

theorem milestone_claims_backed:
  assumes "reachable platform_init (platform_step sv) (db # past)" "c \<in> set (PD_claims db)"
  shows "\<exists>s\<in>set (PD_submissions db). Sub_ID s = MC_Submission c \<and> Sub_Status s = ''finalized'' \<and> Sub_Outcome s = ''valid'' \<and>
    confirmed sv (PD_jobs db) (PD_results db) s"
  using reachable_present(1) [OF assms(1)] assms(2) unfolding runs_inv_def subs_inv_def claims_inv_def by blast

text \<open>C3: in every state the platform can reach, as long as there are fewer than \<open>2 ^ 63\<close> submissions, the submissions of a version are
  numbered from 1 without a gap, in the order of acceptance; those adjudicated are exactly those up to the watermark; and the
  reserved capacity is two units for each submission not adjudicated yet, within the maximum.\<close>

theorem accounts_balanced:
  assumes "reachable platform_init (platform_step sv) (db # past)" "len (PD_submissions db) < 2 ^ 63" "v \<in> set (PD_versions db)"
  shows "map Sub_Sequence (filter (\<lambda>s. Sub_Version s = CV_ID v) (PD_submissions db)) = [1 .. CV_NextSequence v] \<and>
    (\<forall>s\<in>set (PD_submissions db). Sub_Version s = CV_ID v \<longrightarrow> (Sub_Adjudication s \<noteq> None \<longleftrightarrow> Sub_Sequence s \<le> CV_Watermark v)) \<and>
    PD_reserved db = 2 * tally (\<lambda>s. Sub_Adjudication s = None) (PD_submissions db) \<and> PD_reserved db \<le> PD_maximum db"
proof -
  let ?es = "map entry (PD_submissions db)"
  have "accounts_ok (ledger db)" using reachable_present(2) [OF assms(1)] assms(2) by (simp add: books_def)
  then have a: "capacity_ok ?es (PD_reservations db) (PD_reserved db) (PD_maximum db)" "\<forall>n\<in>set (numbers db). sequence_ok ?es n"
    by (simp_all add: accounts_ok_def ledger_def)
  have "number v \<in> set (numbers db)" using assms(3) by (simp add: numbers_def)
  with a(2) have "sequence_ok ?es (number v)" by blast
  moreover have "tally (\<lambda>e. \<not> entry_done e) ?es = tally (\<lambda>s. Sub_Adjudication s = None) (PD_submissions db)"
    by (simp add: tally_map entry_def)
  ultimately show ?thesis using a(1) by (simp add: sequence_ok_def capacity_ok_def number_def filter_map comp_def entry_def)
qed

text \<open>C4: what is recorded stays recorded, whatever the platform does next: every stored result and every milestone claim is
  still there, a complete job is unchanged, and a finalized submission with a valid outcome keeps its outcome and its score.\<close>

theorem records_permanent:
  assumes "reachable platform_init (platform_step sv) (db # past)" "steps (platform_step sv) (db # past) (db' # past')"
  shows "set (PD_results db) \<subseteq> set (PD_results db') \<and> set (PD_claims db) \<subseteq> set (PD_claims db') \<and>
    {j \<in> set (PD_jobs db). RJ_Status j = ''complete''} \<subseteq> set (PD_jobs db') \<and>
    (\<forall>s\<in>set (PD_submissions db). settled s \<longrightarrow> (\<exists>s'\<in>set (PD_submissions db'). Sub_ID s' = Sub_ID s \<and> settled s' \<and> Sub_Score s' = Sub_Score s))"
proof -
  have k: "keeps db db'" using platform.reachable_holds [OF assms, of db] by simp
  then have "j \<in> set (PD_jobs db')" if "j \<in> set (PD_jobs db)" "RJ_Status j = ''complete''" for j
    using evolves_complete that by (auto simp: keeps_def)
  with k show ?thesis unfolding keeps_def stays_def by blast
qed

text \<open>C5: fencing tokens.  Whenever a claim of a job succeeds, every earlier lease of that job, in whatever state the platform has ever
  been, had a strictly smaller fence.\<close>

theorem claim_fence_fresh:
  assumes "reachable platform_init (platform_step sv) (db # past)" "claimRunnerJob sv env dr now host purposes locked seen db = Inr (Some c, db')"
    and "pick_job host purposes locked seen = Some row"
    and "p \<in> set (db # past)" "j \<in> set (PD_jobs p)" "RJ_ID j = RJ_ID row" "RJ_Status j \<noteq> ''queued''"
  shows "RJ_Fence j < RJ_Fence row"
proof -
  from assms(2,3) obtain q where q: "q \<in> set (PD_jobs db)" "RJ_ID q = RJ_ID row" "RJ_Status q = ''queued''" "RJ_Fence q = RJ_Fence row"
    by (elim claimRunnerJob_queued) simp
  have inv: "jobs_inv (PD_jobs db)" "evolves (PD_jobs p) (PD_jobs db)"
    using platform.reachable_inv [OF assms(1)] assms(4) by (auto simp: platform_inv_def runs_inv_def)
  then obtain j' where j': "j' \<in> set (PD_jobs db)" "same_row j j'" using assms(5) unfolding evolves_def by blast
  then have "q = j'" using jobs_invD(2) [OF inv(1) j'(1) q(1)] q(2) assms(6) by (simp add: same_row_def)
  with j'(2) q(3,4) assms(7) show ?thesis by (force simp: same_row_def)
qed

text \<open>C6: a result is stored only for the host that holds the unexpired lease of the job: its receipt was signed with the public key of that host,
  carries the current fence, and came with the token of the lease.  It is the only result of that job, and nothing else is stored.\<close>

theorem result_fenced:
  assumes "reachable platform_init (platform_step sv) (db # past)"
    and "runnerResult sv env dr now host jid envelope token order db = (r, db')" "PD_results db' \<noteq> PD_results db"
  shows "\<exists>run digest key payload j t. parseRunnerKey sv (Host_PublicKey host) = Inr key \<and>
    Verify (scrypto sv) envelope [(Host_ID host, key)] = Inr payload \<and> SE_run sv payload = Inr run \<and>
    Run_HostID run = Host_ID host \<and> Run_JobID run = jid \<and> j \<in> set (PD_jobs db) \<and> RJ_ID j = jid \<and> RJ_Status j = ''running'' \<and>
    RJ_Host j = Some (Host_ID host) \<and> RJ_Lease j = Some t \<and> now \<le> t \<and> RJ_Fence j = Run_FencingToken run \<and>
    RJ_Token j = Some (hash_hex sv token) \<and> (\<forall>r\<in>set (PD_results db). RR_Job r \<noteq> jid) \<and>
    PD_results db' = PD_results db @ [\<lparr>RR_Job = jid, RR_Host = Host_ID host, RR_Digest = digest, RR_Envelope = envelope, RR_Result = run\<rparr>]"
  using runnerResult_stores [OF reachable_present(1) [OF assms(1)] assms(2)] assms(3) by blast

end
