(* ===== verification/Tour.thy ===== *)
theory Tour
  imports Lifecycle
begin

text \<open>A run of the platform, evaluated: one submission from its acceptance to its milestones, and the reveal of a hidden suite.  The
  states it passes through are the concrete inputs at which the properties of \<open>Lifecycle\<close> and \<open>Suites\<close> are applied.\<close>

section \<open>A run of the platform\<close>

text \<open>One submission from acceptance to its milestones: accepted, queued, run and confirmed by a host, adjudicated.\<close>

definition play :: "(platform_db \<Rightarrow> platform_db res) \<Rightarrow> platform_db list \<Rightarrow> platform_db list" where
  "play f h = (case f (hd h) of Inl _ \<Rightarrow> h | Inr db' \<Rightarrow> db' # h)"

definition only_db :: "('a \<times> platform_db) res \<Rightarrow> platform_db res" where
  "only_db r = res_bind r (\<lambda>(a, db). Inr db)"

lemma play_reachable:
  assumes "reachable platform_init (platform_step sv) h" "\<And>db'. f (hd h) = Inr db' \<Longrightarrow> handles sv h (hd h) db'"
  shows "reachable platform_init (platform_step sv) (play f h)"
proof (cases "f (hd h)")
  case (Inr db')
  obtain db past where h: "h = db # past" using platform.reachable_inv [OF assms(1)] by (auto simp: platform_inv_def)
  have "handles sv h db db'" using assms(2) [OF Inr] by (simp add: h)
  then have "platform_step sv h (db' # h)" unfolding platform_step_def h by blast
  with assms(1) show ?thesis by (auto simp: play_def Inr intro: reachable_step)
qed (use assms(1) in \<open>simp add: play_def\<close>)

definition tour_sha :: "string \<Rightarrow> string" where
  "tour_sha x = (if x = [] then [] else [char_of (length x), last x])"

definition tour_digest :: "string \<Rightarrow> string" where
  "tour_digest x = DigestBytes tour_sha x"

definition tour_manifest :: Manifest where
  "tour_manifest = \<lparr>Manifest_Evaluation = None, Manifest_VerificationPolicy = [], Manifest_APIVersion = [], Manifest_Kind = [], Manifest_ID = [],
     Manifest_CreatedAt = 1, Manifest_Producer = [], Manifest_Slug = [], Manifest_Title = [], Manifest_Summary = [], Manifest_ScientificQuestion = [],
     Manifest_Evidence = [], Manifest_Impact = [], Manifest_Limitations = [], Manifest_SafetyClassification = [], Manifest_EconomicMode = [],
     Manifest_Metric = \<lparr>Metric_Name = [], Metric_Direction = ''maximize'', Metric_Unit = [], Metric_Quantum = ''1'', Metric_BaselineTicks = ''10'',
       Metric_MinimumDeltaTicks = ''1'', Metric_ToleranceTicks = ''0'', Metric_DomainMinTicks = [], Metric_DomainMaxTicks = []\<rparr>,
     Manifest_HardGates = [''g''], Manifest_Milestones = [], Manifest_Deadline = 2,
     Manifest_Submission = \<lparr>Submission_Format = [], Submission_AllowedPaths = [], Submission_AllowedExtensions = [], Submission_MaxBytes = 9,
       Submission_MaxFiles = 9, Submission_License = []\<rparr>,
     Manifest_Validator = \<lparr>Validator_Profile = [], Validator_Entrypoint = [], Validator_DependencyLock = [], Validator_RuntimeImageDigest = []\<rparr>,
     Manifest_Suite = \<lparr>Suite_Visibility = [], Suite_Path = [], Suite_Commitment = [], Suite_RevealAt = None\<rparr>,
     Manifest_Resources = \<lparr>Resources_Class = [], Resources_VCPU = 2, Resources_MemoryMB = 9, Resources_TimeoutSeconds = 60, Resources_MaxOutputBytes = 9\<rparr>,
     Manifest_Fixtures = []\<rparr>"

definition tour_lock :: Lock where
  "tour_lock = \<lparr>Lock_VerificationPolicy = ''platform'', Lock_SuiteDiskDigest = ''s'', Lock_DeploymentMode = [],
     Lock_OfficialAcceptance = False, Lock_APIVersion = [], Lock_Kind = [], Lock_ID = ''L'', Lock_CreatedAt = 1,
     Lock_Producer = [], Lock_ManifestDigest = [], Lock_SourceSnapshotDigest = [], Lock_ValidatorImageDigest = [],
     Lock_ValidatorDiskDigest = ''c'', Lock_SuiteDigest = ''sd'', Lock_ExecutionProfileDigest = ''p'', Lock_ReviewDigests = [],
     Lock_EconomicMode = [], Lock_Manifest = tour_manifest\<rparr>"

definition tour_host :: runner_host where
  "tour_host = \<lparr>HR_ID = ''h1'', HR_Group = ''g1'', HR_PublicKey = ''pk'', HR_Certificate = [], HR_Enabled = True, HR_Profile = ''p'',
     HR_Purposes = [''submission'', ''confirmation''], HR_EncryptionKey = [], HR_Advisory = [], HR_Inventory = []\<rparr>"

definition tour_intent :: submission_intent where
  "tour_intent = \<lparr>SI_ID = ''i1'', SI_Version = ''v'', SI_Owner = ''u'', SI_Repository = [], SI_Ref = [], SI_Artifact = Some ''x'', SI_Disk = Some ''d'',
     SI_Status = ''ready'', SI_Request = \<lparr>Intent_AdmissionTicket = [], Intent_VersionID = ''v'', Intent_Repository = [], Intent_Ref = [], Intent_PreviewDigest = [],
       Intent_ParentFrontierDigest = [], Intent_License = [], Intent_Attribution = None, Intent_Publish = False\<rparr>, SI_Findings = [], SI_Submission = None\<rparr>"

definition tour_start :: platform_db where
  "tour_start = \<lparr>PD_candidates = [], PD_challenges = [],
     PD_versions = [\<lparr>CV_ID = ''v'', CV_Challenge = [], CV_Owner = [], CV_Repository = [], CV_Commit = [], CV_Manifest = Inr tour_manifest, CV_SourceDigest = [],
       CV_Status = ''published'', CV_Review = [], CV_Intake = ''open'', CV_Badges = [], CV_LockDigest = Some (tour_digest ''L''), CV_Deadline = 1000,
       CV_NextSequence = 0, CV_Watermark = 0, CV_Best = None, CV_Frontier = None, CV_Predecessor = None, CV_Transition = [], CV_PriorFrontier = None,
       CV_Migration = None, CV_Created = 0\<rparr>],
     PD_intents = [tour_intent], PD_submissions = [], PD_jobs = [], PD_results = [], PD_receipts = [], PD_grants = [], PD_maximum = 6, PD_reserved = 0,
     PD_reservations = [], PD_tiers = [], PD_mappings = [\<lparr>MM_Milestone = ''a'', MM_Version = ''v'', MM_Threshold = ''11''\<rparr>,
       \<lparr>MM_Milestone = ''b'', MM_Version = ''v'', MM_Threshold = ''12''\<rparr>],
     PD_claims = [], PD_queue = [], PD_outbox = [],
     PD_artifacts = map (\<lambda>d. \<lparr>AF_Digest = d, AF_Blob = d, AF_Size = 1, AF_MediaType = [], AF_Owner = [], AF_Public = None\<rparr>) [''c'', ''s'', ''d''],
     PD_uploads = [], PD_preflights = [], PD_reviews = [], PD_decisions = [], PD_suites = [],
     PD_locks = [\<lparr>LK_Digest = tour_digest ''L'', LK_Version = ''v'', LK_Document = tour_lock\<rparr>], PD_hosts = [tour_host], PD_profiles = [],
     PD_enrollments = [], PD_tickets = [], PD_budgets = [], PD_audit = \<lparr>AD_events = [], AD_checkpoints = [], AD_receipts = []\<rparr>\<rparr>"

definition tour_hidden :: hidden_env where
  "tour_hidden = \<lparr>HE_Sha = tour_sha, HE_Hmac = (\<lambda>k x. x), HE_Seal = (\<lambda>k n p a. p), HE_Open = (\<lambda>k n c a. None), HE_PublicKey = (\<lambda>_. Inl (Err [])),
     HE_PrivateKey = (\<lambda>_. Inl (Err [])), HE_PublicOf = (\<lambda>k. k), HE_ECDH = (\<lambda>a b. Inl (Err [])), HE_Marshal = (\<lambda>_. Inl (Err [])),
     HE_Decode = (\<lambda>_. Inl (Err [])), HE_Document = (\<lambda>_. Inl (Err [])), HE_Transform = (\<lambda>_. Inl (Err []))\<rparr>"

definition tour_env :: runner_env where
  "tour_env = \<lparr>RE_store = True, RE_sign = (\<lambda>h. Inr h), RE_job = (\<lambda>j. Inr (Job_ID j)), RE_report = (\<lambda>_. JNull), RE_read = (\<lambda>d. Inr d),
     RE_write = (\<lambda>d n. Inr d), RE_verify = (\<lambda>d n. Inr ()), RE_open = None, RE_hidden = tour_hidden\<rparr>"

text \<open>The first lease of job \<open>j1\<close> expires before \<open>tour_time\<close>, so that its run carries the second fence; \<open>j2\<close> is its confirmation; the payload of an envelope is the identifier.\<close>

definition tour_time :: go_time where
  "tour_time = 10 ^ 13"

definition tour_run :: "string \<Rightarrow> RunReceipt" where
  "tour_run i = \<lparr>Run_ValidatorResult = None, Run_ParentJobDigest = [], Run_VerificationPolicy = ''platform'',
     Run_AcceptanceReceiptDigest = tour_digest ''A'', Run_DeploymentMode = ''staging'', Run_OfficialAcceptance = False, Run_APIVersion = APIVersion,
     Run_Kind = ''ValidationRunReceipt'', Run_ID = i, Run_CreatedAt = tour_time + (if i = ''1'' then 20 else 30), Run_Producer = [], Run_JobID = ''j'' @ i,
     Run_JobDigest = tour_digest (''j'' @ i), Run_ChallengeLockDigest = tour_digest ''L'', Run_ArtifactDigest = ''x'', Run_SuiteDigest = ''sd'',
     Run_ExecutionProfileDigest = ''p'', Run_RunnerEpoch = ''1'', Run_FencingToken = (if i = ''1'' then 2 else 1), Run_HostID = ''h1'', Run_HostGroup = ''g1'', Run_Official = True,
     Run_Outcome = ''valid'', Run_ScoreTicks = ''12'', Run_Gates = [(''g'', True)], Run_DurationMillis = 1, Run_CleanupAttested = True,
     Run_BuildReport = None\<rparr>"

text \<open>External code in its smallest form: nothing that this run does not need can be decoded or signed.\<close>

definition tour_crypto :: "string crypto_env" where
  "tour_crypto = demo_crypto\<lparr>Sha := tour_sha\<rparr>"

definition tour_service :: "string service" where
  "tour_service = \<lparr>SE_platform = \<lparr>PE_audit = \<lparr>Crypto = tour_crypto, CheckpointJSON = (\<lambda>_. Inl (Err [])), DecodeCheckpoint = (\<lambda>_. Inl (Err []))\<rparr>,
       PE_history = \<lparr>HCrypto = tour_crypto, HistoryJSON = (\<lambda>_. Inl (Err [])), DecodeHistory = (\<lambda>_. Inl (Err [])), DelegationJSON = (\<lambda>_. Inl (Err []))\<rparr>,
       PE_marshal = (\<lambda>_. Inl (Err [])), PE_release = (\<lambda>_. Inl (Err [])), PE_url = (\<lambda>_. None)\<rparr>,
     SE_server = \<lparr>S_DeploymentMode = ''staging'', S_PublicOrigin = [], S_ReceiptKeyID = ''k'', S_ReceiptKMSKeyID = [], S_RootKeyID = [], S_SourceCommit = [],
       S_TrustHistory = None, S_TrustedRootKey = [], S_ReleaseEnvelope = None, S_ReceiptSigner = Some ''k''\<rparr>,
     SE_claims = \<lparr>Env_NFC = (\<lambda>_. True), Env_Marshal = (\<lambda>_. Inl (Err [])), Env_Decode = (\<lambda>_. Inl (Err []))\<rparr>,
     SE_canonical = (\<lambda>d. case d of DocReceipt r \<Rightarrow> Inr (Receipt_ID r) | DocRun r \<Rightarrow> Inr (Run_ID r) | DocJob j \<Rightarrow> Inr (Job_ID j)
       | DocLock l \<Rightarrow> Inr (Lock_ID l) | _ \<Rightarrow> Inr ''x''),
     SE_marshal = (\<lambda>_. []), SE_jsonb = (\<lambda>x. x), SE_run = (\<lambda>x. Inr (tour_run x)),
     SE_capabilities = (\<lambda>_. Inl (Err [])), SE_template = (\<lambda>_. Inl (Err [])), SE_activeLimit = 2, SE_operatorLimit = 50\<rparr>"

definition tour_signed :: "string \<Rightarrow> Envelope" where
  "tour_signed i = \<lparr>Envelope_PayloadType = PayloadType, Envelope_Payload = b64_encode i,
     Envelope_Signatures = [\<lparr>Signature_KeyID = ''h1'', Signature_Sig = b64_encode (''pk'' @ tour_sha (pae PayloadType i))\<rparr>]\<rparr>"

definition tour_claim :: "go_time \<Rightarrow> platform_db \<Rightarrow> platform_db res" where
  "tour_claim now db = only_db (claimRunnerJob tour_service tour_env \<lparr>CD_token = ''t'', CD_ephemeral = [], CD_nonce = []\<rparr> now
     (identity_of tour_host) [''submission'', ''confirmation''] [] db db)"

definition tour_result :: "go_time \<Rightarrow> string \<Rightarrow> platform_db \<Rightarrow> platform_db res" where
  "tour_result now i db = Inr (snd (runnerResult tour_service tour_env \<lparr>RD_job = ''j2'', RD_receipt = ''r'', RD_created = tour_time + 25\<rparr> now
     (identity_of tour_host) (''j'' @ i) (tour_signed i) ''t'' [] db))"

definition tour_accept :: "platform_db \<Rightarrow> platform_db res" where
  "tour_accept db = only_db (res_bind (acceptIntent tour_service \<lparr>Acc_grant = ''g'', Acc_submission = ''s1'', Acc_receipt = ''A'', Acc_salt = ''salt'',
     Acc_created = 5\<rparr> (5, 5, 5) 5 ''i1'' ''u'' db) (\<lambda>(st, x). Inr x))"

definition tour_leased :: "platform_db list" where
  "tour_leased = play (tour_claim 15) (play (queueSubmission tour_service ''j1'' 10 10 ''s1'') (play tour_accept [tour_start]))"

definition tour_expired :: "platform_db list" where
  "tour_expired = play (\<lambda>db. Inr (recoverRunnerLeases tour_time db)) tour_leased"

definition tour_confirming :: "platform_db list" where
  "tour_confirming = play (tour_claim (tour_time + 26)) (play (tour_result (tour_time + 21) ''1'') (play (tour_claim (tour_time + 1)) tour_expired))"

definition tour_confirmed :: "platform_db list" where
  "tour_confirmed = play (tour_result (tour_time + 31) ''2'') tour_confirming"

definition tour_end :: "platform_db list" where
  "tour_end = play (adjudicate tour_service \<lparr>Draw_receipt = \<lambda>_. ''Z'', Draw_time = \<lambda>_. 41, Draw_claim = \<lambda>m. m\<rparr> (tour_time + 40) ''v'') tour_confirmed"

abbreviation tour_reaches :: "platform_db list \<Rightarrow> bool" where
  "tour_reaches \<equiv> reachable platform_init (platform_step tour_service)"

lemma only_db_Inr: "only_db r = Inr db' \<Longrightarrow> \<exists>a. r = Inr (a, db')"
  by (auto simp: only_db_def res_bind_Inr_iff)

lemma play_past: "x \<in> set h \<Longrightarrow> x \<in> set (play f h)"
  by (simp add: play_def split: sum.split)

text \<open>The host of the run presents the certificate under which the first state lists it.\<close>

lemma tour_known:
  assumes "tour_start \<in> set h"
  shows "known_runner tour_service h (Some []) (identity_of tour_host)"
proof -
  have "runner_identity tour_service (Some []) tour_start = Inr (identity_of tour_host)"
    by (simp add: runner_identity_def tour_start_def tour_host_def hash_hex_def tour_service_def tour_crypto_def tour_sha_def)
  with assms show ?thesis unfolding known_runner_def by blast
qed

lemma tour_profile: "selectRunnerProfile tour_service q (identity_of tour_host) [] = Inr (identity_of tour_host)"
  by (simp add: selectRunnerProfile_def)

lemma tour_claim_reachable:
  assumes "tour_reaches h \<and> tour_start \<in> set h"
  shows "tour_reaches (play (tour_claim now) h) \<and> tour_start \<in> set (play (tour_claim now) h)"
proof (intro conjI play_reachable play_past)
  fix db' assume "tour_claim now (hd h) = Inr db'"
  then obtain c where c: "claimRunnerJob tour_service tour_env \<lparr>CD_token = ''t'', CD_ephemeral = [], CD_nonce = []\<rparr> now
     (identity_of tour_host) [''submission'', ''confirmation''] [] (hd h) (hd h) = Inr (c, db')"
    unfolding tour_claim_def by (blast dest!: only_db_Inr)
  have "hd h \<in> set h" using assms by (cases h) auto
  from handles.Claim [OF c this tour_known this tour_profile] assms show "handles tour_service h (hd h) db'" by simp
qed (use assms in simp_all)

lemma tour_result_reachable:
  assumes "tour_reaches h \<and> tour_start \<in> set h"
  shows "tour_reaches (play (tour_result now i) h) \<and> tour_start \<in> set (play (tour_result now i) h)"
proof (intro conjI play_reachable play_past)
  fix db' assume "tour_result now i (hd h) = Inr db'"
  with assms show "handles tour_service h (hd h) db'"
    by (auto simp: tour_result_def intro!: handles.Result [OF prod.collapse [symmetric] tour_known])
qed (use assms in simp_all)

lemma tour_expired_reachable: "tour_reaches tour_expired \<and> tour_start \<in> set tour_expired"
proof -
  have "platform_init [tour_start]"
    unfolding platform_init_def by (intro exI [of _ tour_start]) (simp add: fresh_db_def core_def tour_start_def)
  then have "tour_reaches [tour_start]" by (rule reachable_init)
  then have "tour_reaches (play tour_accept [tour_start])"
    by (rule play_reachable) (auto simp: tour_accept_def res_bind_Inr_iff dest!: only_db_Inr intro: handles.Accept)
  then have "tour_reaches (play (queueSubmission tour_service ''j1'' 10 10 ''s1'') (play tour_accept [tour_start]))"
    by (rule play_reachable) (rule handles.Queue)
  moreover have "tour_start \<in> set (play (queueSubmission tour_service ''j1'' 10 10 ''s1'') (play tour_accept [tour_start]))"
    by (intro play_past) simp
  ultimately have l: "tour_reaches tour_leased \<and> tour_start \<in> set tour_leased"
    unfolding tour_leased_def by (intro tour_claim_reachable) simp
  then have "tour_reaches tour_expired" unfolding tour_expired_def by (intro play_reachable) (auto intro: handles.Recover)
  with l show ?thesis unfolding tour_expired_def by (simp add: play_past)
qed

lemma tour_confirming_reachable: "tour_reaches tour_confirming \<and> tour_start \<in> set tour_confirming"
  unfolding tour_confirming_def by (intro tour_claim_reachable tour_result_reachable tour_expired_reachable)

lemma tour_end_reachable: "tour_reaches tour_end"
  unfolding tour_end_def
proof (rule play_reachable)
  show "tour_reaches tour_confirmed"
    unfolding tour_confirmed_def by (rule conjunct1 [OF tour_result_reachable [OF tour_confirming_reachable]])
qed (rule handles.Adjudicate)

definition tour_summary :: "platform_db \<Rightarrow> nat \<times> (string \<times> string) list" where
  "tour_summary db = (length (PD_results db), map (\<lambda>j. (RJ_ID j, RJ_Status j)) (PD_jobs db))"

lemma tour_outcome: "case tour_end of [] \<Rightarrow> False | db # past \<Rightarrow>
    map (\<lambda>s. (Sub_ID s, Sub_Version s, Sub_Outcome s, Sub_Status s, Sub_Score s)) (PD_submissions db) = [(''s1'', ''v'', ''valid'', ''finalized'', Some ''12'')] \<and>
    map MC_Submission (PD_claims db) = [''s1'', ''s1''] \<and> map CV_ID (PD_versions db) = [''v''] \<and>
    map tour_summary past = [(2, [(''j1'', ''complete''), (''j2'', ''complete'')]), (1, [(''j1'', ''complete''), (''j2'', ''running'')]),
      (1, [(''j1'', ''complete''), (''j2'', ''queued'')]), (0, [(''j1'', ''running'')]), (0, [(''j1'', ''queued'')]),
      (0, [(''j1'', ''running'')]), (0, [(''j1'', ''queued'')]), (0, []), (0, [])]"
  by code_simp

lemma tour_ends:
  obtains db past s where "tour_end = db # past" "tour_reaches (db # past)"
    "PD_submissions db = [s]" "Sub_ID s = ''s1''" "Sub_Version s = ''v''" "Sub_Outcome s = ''valid''" "Sub_Status s = ''finalized''" "Sub_Score s = Some ''12''"
    "map MC_Submission (PD_claims db) = [''s1'', ''s1'']" "map CV_ID (PD_versions db) = [''v'']"
  using tour_outcome tour_end_reachable that by (auto split: list.splits)

text \<open>All nine requests succeeded, so the states are those of the run, one after another.\<close>

lemma play_length: "length (play f h) \<le> Suc (length h)"
  by (simp add: play_def split: sum.splits)

lemma play_full: "length (play f h) = Suc (length h) \<Longrightarrow> \<exists>db. f (hd h) = Inr db \<and> play f h = db # h"
  by (auto simp: play_def split: sum.splits)

lemma tour_states:
  obtains end_db confirmed_db confirming_db result_db leased_db expired_db first_db past where
    "tour_end = end_db # tour_confirmed" "tour_confirmed = confirmed_db # tour_confirming" "tour_confirming = confirming_db # result_db # leased_db # tour_expired"
    "tour_expired = expired_db # first_db # past" "tour_claim (tour_time + 1) expired_db = Inr leased_db"
    "map tour_summary [confirmed_db, confirming_db] = [(2, [(''j1'', ''complete''), (''j2'', ''complete'')]), (1, [(''j1'', ''complete''), (''j2'', ''running'')])]"
    "map tour_summary [leased_db, expired_db, first_db] = [(0, [(''j1'', ''running'')]), (0, [(''j1'', ''queued'')]), (0, [(''j1'', ''running'')])]"
proof -
  let ?h1 = "play (tour_claim (tour_time + 1)) tour_expired"
  let ?h2 = "play (tour_result (tour_time + 21) ''1'') ?h1"
  obtain db past where e: "tour_end = db # past" and
    m: "map tour_summary past = [(2, [(''j1'', ''complete''), (''j2'', ''complete'')]), (1, [(''j1'', ''complete''), (''j2'', ''running'')]),
      (1, [(''j1'', ''complete''), (''j2'', ''queued'')]), (0, [(''j1'', ''running'')]), (0, [(''j1'', ''queued'')]),
      (0, [(''j1'', ''running'')]), (0, [(''j1'', ''queued'')]), (0, []), (0, [])]"
    using tour_outcome by (auto split: list.splits)
  have l: "length tour_end = 10" using arg_cong [OF m, of length] by (simp add: e)
  have le: "length tour_end \<le> Suc (length tour_confirmed)" "length tour_confirmed \<le> Suc (length tour_confirming)" "length tour_confirming \<le> Suc (length ?h2)"
    "length ?h2 \<le> Suc (length ?h1)" "length ?h1 \<le> Suc (length tour_expired)" "length tour_expired \<le> Suc (length tour_leased)" "length tour_leased \<le> 4"
    unfolding tour_end_def tour_confirmed_def tour_confirming_def tour_expired_def tour_leased_def
    using play_length order_trans [OF play_length] by (auto intro: order_trans [OF play_length])
  then have n: "length tour_end = Suc (length tour_confirmed)" "length tour_confirmed = Suc (length tour_confirming)" "length tour_confirming = Suc (length ?h2)"
    "length ?h2 = Suc (length ?h1)" "length ?h1 = Suc (length tour_expired)" "length tour_expired = Suc (length tour_leased)" "length tour_leased = 4" using l by linarith+
  note f = n(1) [unfolded tour_end_def, THEN play_full] n(2) [unfolded tour_confirmed_def, THEN play_full] n(3) [unfolded tour_confirming_def, THEN play_full]
    n(4) [THEN play_full] n(5) [THEN play_full] n(6) [unfolded tour_expired_def, THEN play_full]
  from f(1) obtain d1 where d1: "tour_end = d1 # tour_confirmed" unfolding tour_end_def by blast
  from f(2) obtain d2 where d2: "tour_confirmed = d2 # tour_confirming" unfolding tour_confirmed_def by blast
  from f(3) obtain d3 where d3: "tour_confirming = d3 # ?h2" unfolding tour_confirming_def by blast
  from f(4) obtain d4 where d4: "?h2 = d4 # ?h1" by blast
  from f(5) obtain d5 where d5: "tour_claim (tour_time + 1) (hd tour_expired) = Inr d5" "?h1 = d5 # tour_expired" by blast
  from f(6) obtain d6 where d6: "tour_expired = d6 # tour_leased" unfolding tour_expired_def by blast
  from n(7) obtain d7 rest where d7: "tour_leased = d7 # rest" by (cases tour_leased) auto
  have "past = d2 # d3 # d4 # d5 # d6 # d7 # rest" using trans [OF e [symmetric] d1] d2 d3 d4 d5(2) d6 d7 by simp
  note m = m [unfolded this]
  have x: "tour_confirming = d3 # d4 # d5 # tour_expired" "tour_expired = d6 # d7 # rest" using d3 d4 d5(2) d6 d7 by simp_all
  have c: "tour_claim (tour_time + 1) d6 = Inr d5" using d5(1) unfolding x(2) list.sel(1) .
  show ?thesis by (rule that [OF d1 d2 x c]) (use m in simp_all)
qed

theorem valid_outcome_confirmed_witness:
  "\<exists>db past s. tour_reaches (db # past) \<and> s \<in> set (PD_submissions db) \<and> Sub_Score s = Some ''12'' \<and>
    confirmed tour_service (PD_jobs db) (PD_results db) s \<and> list_all (host_signed tour_service (db # past)) (PD_results db)"
proof (rule tour_ends)
  fix db past s assume t: "tour_reaches (db # past)" "PD_submissions db = [s]" "Sub_Outcome s = ''valid''"
    "Sub_Score s = Some ''12''"
  have "confirmed tour_service (PD_jobs db) (PD_results db) s \<and> (\<forall>r\<in>set (PD_results db). host_signed tour_service (db # past) r)"
    by (rule valid_outcome_confirmed [OF t(1)]) (simp_all add: t)
  with t show ?thesis by (intro exI [of _ db] exI [of _ past] exI [of _ s]) (simp add: list_all_iff)
qed

theorem milestone_claims_backed_witness:
  "\<exists>db past. tour_reaches (db # past) \<and> length (PD_claims db) = 2 \<and>
    (\<exists>s\<in>set (PD_submissions db). Sub_ID s = ''s1'' \<and> confirmed tour_service (PD_jobs db) (PD_results db) s)"
proof (rule tour_ends)
  fix db past assume t: "tour_reaches (db # past)" "map MC_Submission (PD_claims db) = [''s1'', ''s1'']"
  from t(2) obtain c d where c: "PD_claims db = [c, d]" "MC_Submission c = ''s1''" by (auto simp: map_eq_Cons_conv)
  then have "c \<in> set (PD_claims db)" by simp
  from milestone_claims_backed [OF t(1) this] t(1) c show ?thesis by (intro exI [of _ db] exI [of _ past]) auto
qed

theorem accounts_balanced_witness:
  "\<exists>db past v. tour_reaches (db # past) \<and> v \<in> set (PD_versions db) \<and>
    [1 .. CV_NextSequence v] = map Sub_Sequence (PD_submissions db) \<and> length (PD_submissions db) = 1"
proof (rule tour_ends)
  fix db past s assume t: "tour_reaches (db # past)" "PD_submissions db = [s]" "map CV_ID (PD_versions db) = [''v'']" "Sub_Version s = ''v''"
  from t(3) obtain v where v: "v \<in> set (PD_versions db)" "CV_ID v = ''v''" by (auto simp: map_eq_Cons_conv)
  have "len (PD_submissions db) < 2 ^ 63" by (simp add: t(2) len_def)
  note b = accounts_balanced [OF t(1) this v(1)]
  with t v show ?thesis by (intro exI [of _ db] exI [of _ past] exI [of _ v]) simp
qed

theorem records_permanent_witness:
  "\<exists>db past s'. tour_reaches (db # past) \<and>
    steps (platform_step tour_service) (db # past) (recoverRunnerLeases 50 db # db # past) \<and>
    s' \<in> set (PD_submissions (recoverRunnerLeases 50 db)) \<and> settled s' \<and> Sub_Score s' = Some ''12''"
proof (rule tour_ends)
  fix db past s assume t: "tour_reaches (db # past)" "PD_submissions db = [s]" "Sub_Outcome s = ''valid''"
    "Sub_Status s = ''finalized''" "Sub_Score s = Some ''12''"
  let ?db = "recoverRunnerLeases 50 db"
  have "platform_step tour_service (db # past) (?db # db # past)" unfolding platform_step_def by (blast intro: handles.Recover)
  then have s: "steps (platform_step tour_service) (db # past) (?db # db # past)" by (rule steps_step [OF steps_refl])
  have "settled s" "s \<in> set (PD_submissions db)" using t by (simp_all add: settled_def)
  then obtain s' where "s' \<in> set (PD_submissions ?db)" "settled s'" "Sub_Score s' = Sub_Score s" using records_permanent [OF t(1) s] by blast
  with t s show ?thesis by (intro exI [of _ db] exI [of _ past] exI [of _ s']) simp
qed

theorem result_fenced_witness:
  "\<exists>db past db' j. tour_reaches (db # past) \<and> snd (runnerResult tour_service tour_env \<lparr>RD_job = ''j2'', RD_receipt = ''r'', RD_created = tour_time + 25\<rparr>
      (tour_time + 31) (identity_of tour_host) ''j2'' (tour_signed ''2'') ''t'' [] db) = db' \<and> PD_results db' \<noteq> PD_results db \<and>
    j \<in> set (PD_jobs db) \<and> RJ_ID j = ''j2'' \<and> RJ_Token j = Some (hash_hex tour_service ''t'')"
proof (rule tour_states)
  fix end_db confirmed_db confirming_db result_db leased_db
  assume t: "tour_confirmed = confirmed_db # tour_confirming" "tour_confirming = confirming_db # result_db # leased_db # tour_expired"
    "map tour_summary [confirmed_db, confirming_db] = [(2, [(''j1'', ''complete''), (''j2'', ''complete'')]), (1, [(''j1'', ''complete''), (''j2'', ''running'')])]"
  let ?r = "runnerResult tour_service tour_env \<lparr>RD_job = ''j2'', RD_receipt = ''r'', RD_created = tour_time + 25\<rparr>
      (tour_time + 31) (identity_of tour_host) ''j2'' (tour_signed ''2'') ''t'' [] confirming_db"
  have reach: "tour_reaches (confirming_db # result_db # leased_db # tour_expired)" using conjunct1 [OF tour_confirming_reachable] by (simp only: t(2))
  have "confirmed_db = snd ?r" using t(1) unfolding tour_confirmed_def play_def tour_result_def by (simp add: t(2))
  then have r: "?r = (fst ?r, confirmed_db)" by simp
  have d: "PD_results confirmed_db \<noteq> PD_results confirming_db" using t(3) by (auto simp: tour_summary_def)
  from result_fenced [OF reach r d] d r reach show ?thesis by (metis snd_conv)
qed

theorem claim_fence_fresh_witness:
  "\<exists>db past db' c row p j. tour_reaches (db # past) \<and> claimRunnerJob tour_service tour_env \<lparr>CD_token = ''t'', CD_ephemeral = [], CD_nonce = []\<rparr> (tour_time + 1)
      (identity_of tour_host) [''submission'', ''confirmation''] [] db db = Inr (Some c, db') \<and>
    pick_job (identity_of tour_host) [''submission'', ''confirmation''] [] db = Some row \<and>
    p \<in> set past \<and> j \<in> set (PD_jobs p) \<and> RJ_ID j = RJ_ID row \<and> RJ_Fence j < RJ_Fence row"
proof (rule tour_states)
  fix end_db confirmed_db confirming_db result_db leased_db expired_db first_db past
  assume t: "tour_expired = expired_db # first_db # past" "tour_claim (tour_time + 1) expired_db = Inr leased_db"
    "map tour_summary [leased_db, expired_db, first_db] = [(0, [(''j1'', ''running'')]), (0, [(''j1'', ''queued'')]), (0, [(''j1'', ''running'')])]"
  let ?host = "identity_of tour_host" and ?ps = "[''submission'', ''confirmation'']"
  have reach: "tour_reaches (expired_db # first_db # past)" using conjunct1 [OF tour_expired_reachable] by (simp only: t(1))
  from t(2) obtain found where c: "claimRunnerJob tour_service tour_env \<lparr>CD_token = ''t'', CD_ephemeral = [], CD_nonce = []\<rparr> (tour_time + 1) ?host ?ps [] expired_db expired_db
      = Inr (found, leased_db)" unfolding tour_claim_def by (blast dest!: only_db_Inr)
  have jobs: "PD_jobs leased_db \<noteq> PD_jobs expired_db" "map RJ_ID (PD_jobs expired_db) = [''j1'']" using t(3) by (auto simp: tour_summary_def map_eq_Cons_conv)
  from t(3) obtain j where j: "PD_jobs first_db = [j]" "RJ_ID j = ''j1''" "RJ_Status j = ''running''" by (auto simp: tour_summary_def map_eq_Cons_conv)
  from c jobs(1) obtain x where x: "found = Some x"
    unfolding claimRunnerJob_def by (cases found) (auto simp: handler_simps split: if_splits option.splits)
  note c = c [unfolded x]
  from c obtain row where p: "pick_job ?host ?ps [] expired_db = Some row" by (rule claimRunnerJob_queued)
  have "RJ_ID row = ''j1''" using pick_job_in [OF p] jobs(2) by (auto simp: map_eq_Cons_conv)
  with claim_fence_fresh [OF reach c p, of first_db j] j have "RJ_Fence j < RJ_Fence row" by simp
  with reach c p j \<open>RJ_ID row = ''j1''\<close> show ?thesis
    by (intro exI [of _ expired_db] exI [of _ "first_db # past"] exI [of _ leased_db] exI [of _ x] exI [of _ row] exI [of _ first_db] exI [of _ j]) simp
qed

section \<open>A season with a hidden suite\<close>

text \<open>The season is closed and its reveal time has passed; custody returns what it was given.\<close>

definition tour_season :: platform_db where
  "tour_season = tour_start\<lparr>PD_versions := map (\<lambda>v. v\<lparr>CV_Intake := ''closed'', CV_Manifest := Inr (tour_manifest\<lparr>Manifest_Suite :=
       \<lparr>Suite_Visibility = ''hidden'', Suite_Path = [], Suite_Commitment = Material_Commitment (demo_secret CHR ''k''), Suite_RevealAt = Some 1\<rparr>\<rparr>)\<rparr>)
       (PD_versions tour_start),
     PD_suites := [\<lparr>HS_ID = ''h'', HS_Owner = ''u'', HS_Commitment = Material_Commitment (demo_secret CHR ''k''), HS_Ciphertext = ''c'',
       HS_Material = replicate 32 CHR ''k'' @ replicate 32 CHR ''s'', HS_Revealed = None, HS_Receipt = None\<rparr>]\<rparr>"

definition tour_custody :: runner_env where
  "tour_custody = tour_env\<lparr>RE_open := Some (\<lambda>sealed aad. Inr sealed), RE_hidden := demo_hidden\<rparr>"

definition tour_vault :: suite_env where
  "tour_vault = \<lparr>SU_store = True, SU_seal = None, SU_put = (\<lambda>_. Inr ''c''),
     SU_get = (\<lambda>_ _. res_bind (SealHiddenSuite demo_hidden (replicate 32 CHR ''k'') (replicate 32 CHR ''s'') ''{}'') (\<lambda>(x, m). Inr x)), SU_files = (\<lambda>_. Inr [])\<rparr>"

definition tour_reveal :: "(int \<times> platform_db) res" where
  "tour_reveal = revealSuite tour_service tour_custody tour_vault ''R'' 5 5 5 \<lparr>U_ID = ''u'', U_Login = [], U_Role = []\<rparr> ''h'' tour_season tour_season"

lemma tour_reveals:
  obtains db' where "tour_reveal = Inr (200, db')" "PD_suites db' \<noteq> PD_suites tour_season"
proof (rule demo_suite_opens [of "CHR ''k''"])
  fix x assume x: "SealHiddenSuite demo_hidden (replicate 32 CHR ''k'') (replicate 32 CHR ''s'') ''{}'' = Inr (x, demo_secret CHR ''k'')"
    "DecryptSuiteObject demo_hidden (demo_secret CHR ''k'') x ''source'' = Inr ''{}''"
  have "HE_Decode demo_hidden (replicate 32 CHR ''k'' @ replicate 32 CHR ''s'') = Inr (demo_secret CHR ''k'')"
    by (simp add: demo_hidden_def demo_secret_def Let_def)
  then have m: "suiteMaterial tour_custody tour_season (Material_Commitment (demo_secret CHR ''k'')) = Inr (demo_secret CHR ''k'', ''c'')"
    by (simp add: suiteMaterial_def tour_custody_def tour_season_def select_row_def)
  have due: "reveal_due 5 tour_season (Material_Commitment (demo_secret CHR ''k''))"
    by (simp add: reveal_due_def tour_season_def tour_start_def bound_version_def season_over_def)
  have h: "select_row (\<lambda>h. HS_ID h = ''h'' \<and> HS_Owner h = ''u'') (PD_suites tour_season) = Inr \<lparr>HS_ID = ''h'', HS_Owner = ''u'',
      HS_Commitment = Material_Commitment (demo_secret CHR ''k''), HS_Ciphertext = ''c'',
      HS_Material = replicate 32 CHR ''k'' @ replicate 32 CHR ''s'', HS_Revealed = None, HS_Receipt = None\<rparr>"
    by (simp add: tour_season_def select_row_def)
  have g: "SU_get tour_vault ''c'' k = Inr x" for k by (simp add: tour_vault_def x)
  have e: "RE_hidden tour_custody = demo_hidden" by (simp add: tour_custody_def)
  obtain rd where rd: "Digest tour_service (DocReceipt (reveal_receipt tour_service ''R'' 5 ''h'' (demo_secret CHR ''k'') ''c''
      (Material_Commitment (demo_secret CHR ''k'')))) = Inr rd"
    by (simp add: Digest_def tour_service_def)
  have saved: "PD_suites (saveReceipt d doc o' b (publish_artifacts now P db)) = PD_suites db" for d doc o' b now P db
    by (simp add: saveReceipt_def enqueue_def publish_artifacts_def)
  have "\<exists>db'. tour_reveal = Inr (200, db') \<and> PD_suites db' \<noteq> PD_suites tour_season"
    unfolding tour_reveal_def revealSuite_def commit_reveal_def User.select_convs h
    by (simp add: m due g e x(2) rd Let_def saved) (simp add: tour_season_def update_where_def)
  then show ?thesis using that by blast
qed

theorem suite_revealed_when_due_witness:
  "\<exists>db' material digest rd. tour_reveal = Inr (200, db') \<and> validateSuiteMaterial demo_hidden material = Inr () \<and>
    Digest tour_service (DocReceipt (reveal_receipt tour_service ''R'' 5 ''h'' material digest (Material_Commitment material))) = Inr rd \<and>
    rd \<in> RC_Digest ` set (PD_receipts db')"
proof (rule tour_reveals)
  fix db' assume r: "tour_reveal = Inr (200, db')" "PD_suites db' \<noteq> PD_suites tour_season"
  have e: "RE_hidden tour_custody = demo_hidden" by (simp add: tour_custody_def)
  from suite_revealed_when_due [OF r(1) [unfolded tour_reveal_def] r(2), unfolded e] r(1) show ?thesis by metis
qed

end
