(* ===== verification/Queue.thy ===== *)
theory Queue
  imports Prelude Transition Types Admission
begin

text \<open>
  The work queue of the platform (table \<open>jobs\<close>; \<open>enqueue\<close> of \<open>internal/platform/server.go\<close>, the statements of \<open>workOne\<close> in
  \<open>internal/platform/worker.go\<close>): a row is a kind of work and the resource it concerns.  A worker picks a row that is due under a
  lease with a fresh token, runs the work, and writes the result only if the row still carries its token.

  The statements are the functions \<open>enqueue_row\<close>, \<open>pick_row\<close> and \<open>finish_row\<close>; \<open>queue_step\<close> is their interleaving by any number of
  workers.  Rows that another transaction has locked at the moment of a pick are skipped; the model picks among all rows, so a step
  picks the earliest row that is not skipped for some choice of the rows to skip.
\<close>

section \<open>Rows\<close>

record queue_row =
  QR_Kind :: string
  QR_Resource :: string
  QR_Status :: string
  QR_Attempts :: int
  QR_Available :: go_time
  QR_Lease :: "go_time option"
  QR_Token :: "string option"
  QR_Error :: "string option"

definition row_key :: "queue_row \<Rightarrow> string \<times> string" where
  "row_key r = (QR_Kind r, QR_Resource r)"

definition enqueue_row :: "go_time \<Rightarrow> string \<Rightarrow> string \<Rightarrow> queue_row list \<Rightarrow> queue_row list" where
  "enqueue_row now kind resource rows = (if (kind, resource) \<in> set (map row_key rows) then rows
     else rows @ [\<lparr>QR_Kind = kind, QR_Resource = resource, QR_Status = ''queued'', QR_Attempts = 0, QR_Available = now, QR_Lease = None,
       QR_Token = None, QR_Error = None\<rparr>])"

definition row_due :: "go_time \<Rightarrow> queue_row \<Rightarrow> bool" where
  "row_due now r = ((QR_Status r = ''queued'' \<or> QR_Status r = ''retry'') \<and> QR_Available r \<le> now \<or>
     QR_Status r = ''running'' \<and> (case QR_Lease r of None \<Rightarrow> False | Some t \<Rightarrow> t < now))"

definition lease_row :: "go_time \<Rightarrow> string \<Rightarrow> queue_row \<Rightarrow> queue_row" where
  "lease_row now token r = r\<lparr>QR_Status := ''running'', QR_Attempts := QR_Attempts r + 1, QR_Lease := Some (now + 10 * 60 * go_second), QR_Token := Some token\<rparr>"

text \<open>\<open>locked\<close> are the rows that are skipped.\<close>

definition pick_row :: "go_time \<Rightarrow> string \<Rightarrow> (string \<times> string) set \<Rightarrow> queue_row list \<Rightarrow> (queue_row \<times> queue_row list) option" where
  "pick_row now token locked rows =
     (case sort_key QR_Available (filter (\<lambda>r. row_due now r \<and> row_key r \<notin> locked) rows) of [] \<Rightarrow> None
      | r # _ \<Rightarrow> Some (lease_row now token r, map (\<lambda>x. if row_key x = row_key r then lease_row now token x else x) rows))"

definition retry_delay :: "int \<Rightarrow> int" where
  "retry_delay attempts = min (attempts * attempts) 300 * go_second"

text \<open>The message is cut to 1,000 bytes.  The column holds text: a message that the cut leaves with half a character, or that holds a zero byte, is refused
  by the database, and the row stays as it is until its lease ends.\<close>

definition storable :: "string \<Rightarrow> bool" where
  "storable message = (utf8_valid (take 1000 message) \<and> CHR 0x00 \<notin> set (take 1000 message))"

definition finished :: "go_time \<Rightarrow> int \<Rightarrow> string option \<Rightarrow> queue_row \<Rightarrow> queue_row" where
  "finished now attempts failure r = (case failure of None \<Rightarrow> r\<lparr>QR_Status := ''complete'', QR_Lease := None, QR_Error := None\<rparr>
     | Some message \<Rightarrow> r\<lparr>QR_Status := (if attempts \<ge> 8 then ''attention_required'' else ''retry''), QR_Error := Some (take 1000 message),
         QR_Available := now + retry_delay attempts, QR_Lease := None\<rparr>)"

definition finish_row :: "go_time \<Rightarrow> queue_row \<Rightarrow> string \<Rightarrow> string option \<Rightarrow> queue_row list \<Rightarrow> queue_row list" where
  "finish_row now job token failure rows = (if (case failure of None \<Rightarrow> False | Some message \<Rightarrow> \<not> storable message) then rows
     else map (\<lambda>r. if row_key r = row_key job \<and> QR_Token r = Some token then finished now (QR_Attempts job) failure r else r) rows)"

section \<open>Interleavings\<close>

text \<open>The state also holds the tokens drawn so far; \<open>secret()\<close> draws one that no one has.\<close>

record queue_state =
  QS_rows :: "queue_row list"
  QS_tokens :: "string set"
  QS_working :: "(queue_row \<times> string) set"

inductive queue_step :: "queue_state \<Rightarrow> queue_state \<Rightarrow> bool" where
  Enqueue: "queue_step s (s\<lparr>QS_rows := enqueue_row now kind resource (QS_rows s)\<rparr>)"
| Pick: "token \<notin> QS_tokens s \<Longrightarrow> pick_row now token locked (QS_rows s) = Some (job, rows) \<Longrightarrow>
    queue_step s (s\<lparr>QS_rows := rows, QS_tokens := insert token (QS_tokens s), QS_working := insert (job, token) (QS_working s)\<rparr>)"
| Finish: "(job, token) \<in> QS_working s \<Longrightarrow>
    queue_step s (s\<lparr>QS_rows := finish_row now job token failure (QS_rows s), QS_working := QS_working s - {(job, token)}\<rparr>)"

definition queue_init :: "queue_state \<Rightarrow> bool" where
  "queue_init s \<longleftrightarrow> QS_rows s = [] \<and> QS_tokens s = {} \<and> QS_working s = {}"

definition terminal :: "queue_row \<Rightarrow> bool" where
  "terminal r \<longleftrightarrow> QR_Status r = ''complete'' \<or> QR_Status r = ''attention_required''"

text \<open>Queued rows were never tried; a row waiting for another try has had fewer than eight; a running row has a lease and a token that some
  worker drew; a worker's copy of a row agrees with the row as long as the row carries the worker's token.\<close>

definition row_ok :: "queue_row \<Rightarrow> bool" where
  "row_ok r \<longleftrightarrow> (QR_Status r = ''queued'' \<longrightarrow> QR_Attempts r = 0 \<and> QR_Token r = None) \<and> (QR_Status r = ''retry'' \<longrightarrow> 1 \<le> QR_Attempts r \<and> QR_Attempts r < 8) \<and>
     (QR_Status r = ''running'' \<longrightarrow> 1 \<le> QR_Attempts r \<and> QR_Lease r \<noteq> None \<and> QR_Token r \<noteq> None) \<and>
     (QR_Status r = ''attention_required'' \<longrightarrow> 8 \<le> QR_Attempts r) \<and> QR_Status r \<in> {''queued'', ''retry'', ''running'', ''complete'', ''attention_required''}"

definition queue_inv :: "queue_state \<Rightarrow> bool" where
  "queue_inv s \<longleftrightarrow> distinct (map row_key (QS_rows s)) \<and> (\<forall>r\<in>set (QS_rows s). row_ok r) \<and>
     (\<forall>r\<in>set (QS_rows s). \<forall>t. QR_Token r = Some t \<longrightarrow> t \<in> QS_tokens s) \<and>
     (\<forall>(job, t)\<in>QS_working s. t \<in> QS_tokens s \<and> 1 \<le> QR_Attempts job \<and>
       (\<forall>r\<in>set (QS_rows s). row_key r = row_key job \<and> QR_Token r = Some t \<longrightarrow> QR_Status r = ''running'' \<and> QR_Attempts r = QR_Attempts job)) \<and>
     (\<forall>(job, t)\<in>QS_working s. \<forall>(job', t')\<in>QS_working s. t = t' \<longrightarrow> job = job')"

lemma row_key_update [simp]: "row_key (lease_row now token r) = row_key r" "row_key (finished now n f r) = row_key r"
  by (auto simp: row_key_def lease_row_def finished_def split: option.split)

lemma finished_token [simp]: "QR_Token (finished now n f r) = QR_Token r"
  by (simp add: finished_def split: option.split)

lemma pick_row_Some:
  assumes "pick_row now token locked rows = Some (job, rows')"
  obtains r where "r \<in> set rows" "row_due now r" "job = lease_row now token r"
    "rows' = map (\<lambda>x. if row_key x = row_key r then lease_row now token x else x) rows"
proof -
  let ?due = "filter (\<lambda>r. row_due now r \<and> row_key r \<notin> locked) rows"
  from assms obtain r rest where r: "sort_key QR_Available ?due = r # rest" "job = lease_row now token r"
    "rows' = map (\<lambda>x. if row_key x = row_key r then lease_row now token x else x) rows"
    by (auto simp: pick_row_def split: list.splits)
  have "r \<in> set (sort_key QR_Available ?due)" by (simp add: r(1))
  then have "r \<in> set rows" "row_due now r" by simp_all
  with r that show ?thesis by blast
qed

lemma due_unfinished: "row_due now r \<Longrightarrow> \<not> terminal r"
  by (auto simp: row_due_def terminal_def)

lemma same_row: "distinct (map row_key rows) \<Longrightarrow> r \<in> set rows \<Longrightarrow> x \<in> set rows \<Longrightarrow> row_key x = row_key r \<Longrightarrow> x = r"
  by (auto simp: distinct_map dest: inj_onD)

lemma lease_row_ok: "row_ok r \<Longrightarrow> row_due now r \<Longrightarrow> row_ok (lease_row now token r)"
  by (auto simp: row_ok_def lease_row_def row_due_def)

lemma finished_ok: "row_ok r \<Longrightarrow> QR_Status r = ''running'' \<Longrightarrow> QR_Attempts r = n \<Longrightarrow> row_ok (finished now n f r)"
  by (auto simp: row_ok_def finished_def split: option.split)

lemma map_row_keys: "(\<And>x. row_key (f x) = row_key x) \<Longrightarrow> map row_key (map (\<lambda>x. if P x then f x else x) rows) = map row_key rows"
  by simp

lemma queue_invD:
  assumes "queue_inv s"
  shows "distinct (map row_key (QS_rows s))" "\<And>r. r \<in> set (QS_rows s) \<Longrightarrow> row_ok r" "\<And>r t. r \<in> set (QS_rows s) \<Longrightarrow> QR_Token r = Some t \<Longrightarrow> t \<in> QS_tokens s"
    "\<And>job t. (job, t) \<in> QS_working s \<Longrightarrow> t \<in> QS_tokens s" "\<And>job t. (job, t) \<in> QS_working s \<Longrightarrow> 1 \<le> QR_Attempts job"
    "\<And>job t r. (job, t) \<in> QS_working s \<Longrightarrow> r \<in> set (QS_rows s) \<Longrightarrow> row_key r = row_key job \<Longrightarrow> QR_Token r = Some t \<Longrightarrow>
      QR_Status r = ''running'' \<and> QR_Attempts r = QR_Attempts job"
    "\<And>job job' t. (job, t) \<in> QS_working s \<Longrightarrow> (job', t) \<in> QS_working s \<Longrightarrow> job = job'"
  using assms unfolding queue_inv_def by blast+

lemma queue_invI:
  assumes "distinct (map row_key (QS_rows s))" "\<And>r. r \<in> set (QS_rows s) \<Longrightarrow> row_ok r \<and> (\<forall>t. QR_Token r = Some t \<longrightarrow> t \<in> QS_tokens s)"
    "\<And>job t. (job, t) \<in> QS_working s \<Longrightarrow> t \<in> QS_tokens s \<and> 1 \<le> QR_Attempts job \<and>
      (\<forall>r\<in>set (QS_rows s). row_key r = row_key job \<and> QR_Token r = Some t \<longrightarrow> QR_Status r = ''running'' \<and> QR_Attempts r = QR_Attempts job)"
    "\<And>job job' t. (job, t) \<in> QS_working s \<Longrightarrow> (job', t) \<in> QS_working s \<Longrightarrow> job = job'"
  shows "queue_inv s"
  using assms unfolding queue_inv_def by blast

lemma queue_step_inv:
  assumes "queue_inv s" "queue_step s t"
  shows "queue_inv t"
  using assms(2)
proof cases
  case (Enqueue now kind resource)
  let ?new = "\<lparr>QR_Kind = kind, QR_Resource = resource, QR_Status = ''queued'', QR_Attempts = 0, QR_Available = now, QR_Lease = None,
       QR_Token = None, QR_Error = None\<rparr>"
  have "row_ok ?new" "row_key ?new = (kind, resource)" "QR_Token ?new = None" by (simp_all add: row_ok_def row_key_def)
  with assms(1) show ?thesis unfolding Enqueue by (auto simp: queue_inv_def enqueue_row_def)
next
  case (Pick token now locked job rows)
  from Pick(3) obtain r where r: "r \<in> set (QS_rows s)" "row_due now r" "job = lease_row now token r"
    "rows = map (\<lambda>x. if row_key x = row_key r then lease_row now token x else x) (QS_rows s)" by (rule pick_row_Some)
  have d: "distinct (map row_key (QS_rows s))" and ok: "\<forall>r\<in>set (QS_rows s). row_ok r" using assms(1) by (auto simp: queue_inv_def)
  have rows: "set rows = (\<lambda>x. if x = r then job else x) ` set (QS_rows s)"
    unfolding r(3,4) using same_row [OF d r(1)] by (auto simp: image_iff)
  have j: "QR_Token job = Some token" "QR_Status job = ''running''" "row_key job = row_key r" "row_ok job" "1 \<le> QR_Attempts job"
    using lease_row_ok [OF _ r(2)] ok r(1) by (auto simp: r(3) lease_row_def row_ok_def row_key_def row_due_def)
  have a: "distinct (map row_key rows)" using d unfolding r(4) by (simp add: comp_def if_distrib cong: if_cong)
  have b: "\<forall>x\<in>set rows. row_ok x \<and> (\<forall>t. QR_Token x = Some t \<longrightarrow> t \<in> insert token (QS_tokens s))"
    using assms(1) j unfolding rows queue_inv_def by auto
  have c: "t \<in> insert token (QS_tokens s) \<and> 1 \<le> QR_Attempts w \<and>
      (\<forall>x\<in>set rows. row_key x = row_key w \<and> QR_Token x = Some t \<longrightarrow> QR_Status x = ''running'' \<and> QR_Attempts x = QR_Attempts w)"
    if w: "(w, t) \<in> insert (job, token) (QS_working s)" for w t
  proof (cases "(w, t) \<in> QS_working s")
    case True
    note w = queue_invD(4,5) [OF assms(1) True]
    then have "token \<noteq> t" using Pick(2) by blast
    with w j(1) queue_invD(6) [OF assms(1) True] show ?thesis unfolding rows by auto
  next
    case False
    with w have "w = job" "t = token" by auto
    moreover have "x = job" if "x \<in> set rows" "QR_Token x = Some token" for x
      using that Pick(2) queue_invD(3) [OF assms(1)] unfolding rows by (auto split: if_splits)
    ultimately show ?thesis using j by auto
  qed
  have e: "w = w'" if "(w, t) \<in> insert (job, token) (QS_working s)" "(w', t) \<in> insert (job, token) (QS_working s)" for w w' t
    using that Pick(2) queue_invD(4,7) [OF assms(1)] by auto
  show ?thesis
    unfolding Pick(1)
  proof (rule queue_invI, goal_cases)
    case 1
    show ?case using a by simp
  next
    case (2 x)
    then show ?case using b by simp
  next
    case (3 w t)
    then show ?case using c [of w t] by simp
  next
    case (4 w w' t)
    then show ?case using e [of w t w'] by simp
  qed
next
  case (Finish job token now failure)
  have d: "distinct (map row_key (QS_rows s))" and ok: "\<forall>r\<in>set (QS_rows s). row_ok r" using assms(1) by (auto simp: queue_inv_def)
  define f where "f = (\<lambda>r. if row_key r = row_key job \<and> QR_Token r = Some token then finished now (QR_Attempts job) failure r else r)"
  have f: "row_ok (f r) \<and> row_key (f r) = row_key r \<and> QR_Token (f r) = QR_Token r" if r: "r \<in> set (QS_rows s)" for r
  proof (cases "row_key r = row_key job \<and> QR_Token r = Some token")
    case True
    with queue_invD(6) [OF assms(1) Finish(2) r] have "QR_Status r = ''running''" "QR_Attempts r = QR_Attempts job" by simp_all
    with finished_ok ok r True show ?thesis by (simp add: f_def)
  next
    case False
    with ok r show ?thesis unfolding f_def by auto
  qed
  have g: "f r = r" if "(w, t) \<in> QS_working s - {(job, token)}" "QR_Token r = Some t" for r w t
  proof -
    have "t \<noteq> token" using that(1) queue_invD(7) [OF assms(1) Finish(2), of w] by auto
    with that(2) show ?thesis by (simp add: f_def)
  qed
  have k: "map row_key (map f (QS_rows s)) = map row_key (QS_rows s)" using f by simp
  have "queue_inv (s\<lparr>QS_rows := map f (QS_rows s), QS_working := QS_working s - {(job, token)}\<rparr>)"
  proof (rule queue_invI, goal_cases)
    case 1
    have "distinct (map row_key (map f (QS_rows s)))" unfolding k by (rule d)
    then show ?case by simp
  next
    case (2 r)
    then show ?case using f queue_invD(3) [OF assms(1)] by auto
  next
    case (3 w t)
    then have w: "(w, t) \<in> QS_working s - {(job, token)}" by simp
    then have "(w, t) \<in> QS_working s" by blast
    note q = queue_invD(4,5,6) [OF assms(1) this]
    have "QR_Status (f r) = ''running'' \<and> QR_Attempts (f r) = QR_Attempts w"
      if "r \<in> set (QS_rows s)" "row_key (f r) = row_key w" "QR_Token (f r) = Some t" for r
    proof -
      have "f r = r" using g [OF w] f [OF that(1)] that(3) by simp
      with q(3) [OF that(1)] that(2,3) show ?thesis by simp
    qed
    with q show ?case by auto
  next
    case 4
    then show ?case using queue_invD(7) [OF assms(1)] by auto
  qed
  moreover have "queue_inv (s\<lparr>QS_rows := QS_rows s, QS_working := QS_working s - {(job, token)}\<rparr>)"
    using assms(1) unfolding queue_inv_def by auto
  moreover have "finish_row now job token failure (QS_rows s) = QS_rows s \<or> finish_row now job token failure (QS_rows s) = map f (QS_rows s)"
    by (simp add: finish_row_def f_def)
  ultimately show ?thesis unfolding Finish(1) by auto
qed

lemma queue_step_terminal:
  assumes "queue_inv s" "queue_step s t" "r \<in> set (QS_rows s)" "terminal r"
  shows "r \<in> set (QS_rows t)"
  using assms(2)
proof cases
  case (Enqueue now kind resource)
  then show ?thesis using assms(3) by (simp add: enqueue_row_def)
next
  case (Pick token now locked job rows)
  from Pick(3) obtain x where x: "x \<in> set (QS_rows s)" "row_due now x"
    "rows = map (\<lambda>y. if row_key y = row_key x then lease_row now token y else y) (QS_rows s)" by (rule pick_row_Some)
  have "row_key r \<noteq> row_key x" using same_row [OF queue_invD(1) [OF assms(1)] x(1) assms(3)] due_unfinished [OF x(2)] assms(4) by auto
  then show ?thesis unfolding Pick(1) x(3) using assms(3) by (auto simp: image_iff intro!: bexI [of _ r])
next
  case (Finish job token now failure)
  have "\<not> (row_key r = row_key job \<and> QR_Token r = Some token)"
    using queue_invD(6) [OF assms(1) Finish(2) assms(3)] assms(4) by (auto simp: terminal_def)
  then show ?thesis unfolding Finish(1) finish_row_def using assms(3) by (auto simp: image_iff intro!: bexI [of _ r])
qed

interpretation work: monotone_system queue_init queue_step queue_inv "\<lambda>s r. r \<in> set (QS_rows s) \<and> terminal r"
proof unfold_locales
  fix s assume "queue_init s"
  then show "queue_inv s" by (simp add: queue_init_def queue_inv_def)
qed (auto intro: queue_step_inv queue_step_terminal)

text \<open>C8: work that is complete, or given up for an operator's attention, is never run again and its row never changes, however many
  workers share the queue and whatever a worker whose lease has run out still writes.\<close>

theorem completed_work_stays:
  assumes "reachable queue_init queue_step s" "steps queue_step s t" "r \<in> set (QS_rows s)" "QR_Status r = ''complete'' \<or> QR_Status r = ''attention_required''"
  shows "r \<in> set (QS_rows t)"
  using work.reachable_holds [OF assms(1,2), of r] assms(3,4) by (simp add: terminal_def)

section \<open>One worker drains the queue\<close>





























text \<open>Two workers share one row: the first is slow, the second takes the row over when the lease has run out and completes it, and then the first fails.\<close>

definition demo_row :: queue_row where
  "demo_row = \<lparr>QR_Kind = ''preflight'', QR_Resource = ''p'', QR_Status = ''queued'', QR_Attempts = 0, QR_Available = 1, QR_Lease = None, QR_Token = None, QR_Error = None\<rparr>"

definition demo_first :: queue_row where
  "demo_first = lease_row 1 ''a'' demo_row"

definition demo_taken :: queue_row where
  "demo_taken = lease_row (700 * go_second) ''b'' demo_first"

definition demo_complete :: queue_row where
  "demo_complete = finished (701 * go_second) 2 None demo_taken"

lemma pick_single: "row_due now r \<Longrightarrow> pick_row now token {} [r] = Some (lease_row now token r, [lease_row now token r])"
  by (simp add: pick_row_def)

lemma demo_complete_reachable:
  "reachable queue_init queue_step \<lparr>QS_rows = [demo_complete], QS_tokens = {''a'', ''b''}, QS_working = {(demo_first, ''a'')}\<rparr>"
proof -
  have "reachable queue_init queue_step \<lparr>QS_rows = [], QS_tokens = {}, QS_working = {}\<rparr>" by (rule reachable_init) (simp add: queue_init_def)
  then have "reachable queue_init queue_step \<lparr>QS_rows = [demo_row], QS_tokens = {}, QS_working = {}\<rparr>"
    by (rule reachable_step) (use queue_step.Enqueue [of "\<lparr>QS_rows = [], QS_tokens = {}, QS_working = {}\<rparr>" 1 "''preflight''" "''p''"]
      in \<open>simp add: enqueue_row_def demo_row_def\<close>)
  then have "reachable queue_init queue_step \<lparr>QS_rows = [demo_first], QS_tokens = {''a''}, QS_working = {(demo_first, ''a'')}\<rparr>"
    by (rule reachable_step) (use queue_step.Pick [of "''a''" "\<lparr>QS_rows = [demo_row], QS_tokens = {}, QS_working = {}\<rparr>" 1 "{}" demo_first "[demo_first]"]
      pick_single [of 1 demo_row "''a''"] in \<open>simp add: demo_first_def row_due_def demo_row_def\<close>)
  then have "reachable queue_init queue_step \<lparr>QS_rows = [demo_taken], QS_tokens = {''a'', ''b''}, QS_working = {(demo_taken, ''b''), (demo_first, ''a'')}\<rparr>"
    by (rule reachable_step) (use queue_step.Pick [of "''b''" "\<lparr>QS_rows = [demo_first], QS_tokens = {''a''}, QS_working = {(demo_first, ''a'')}\<rparr>"
      "700 * go_second" "{}" demo_taken "[demo_taken]"] pick_single [of "700 * go_second" demo_first "''b''"]
      in \<open>simp add: demo_taken_def row_due_def demo_first_def lease_row_def go_second_def insert_commute\<close>)
  then show ?thesis
  proof (rule reachable_step)
    have "finish_row (701 * go_second) demo_taken ''b'' None [demo_taken] = [demo_complete]"
      by (simp add: finish_row_def demo_complete_def demo_taken_def demo_first_def demo_row_def lease_row_def)
    moreover have "(demo_first, ''a'') \<noteq> (demo_taken, ''b'')" by simp
    ultimately show "queue_step \<lparr>QS_rows = [demo_taken], QS_tokens = {''a'', ''b''}, QS_working = {(demo_taken, ''b''), (demo_first, ''a'')}\<rparr>
        \<lparr>QS_rows = [demo_complete], QS_tokens = {''a'', ''b''}, QS_working = {(demo_first, ''a'')}\<rparr>"
      using queue_step.Finish [of demo_taken "''b''" "\<lparr>QS_rows = [demo_taken], QS_tokens = {''a'', ''b''}, QS_working = {(demo_taken, ''b''), (demo_first, ''a'')}\<rparr>"
        "701 * go_second" None] by (simp add: insert_Diff_if)
  qed
qed

theorem completed_work_stays_witness:
  "demo_complete \<in> set (finish_row (702 * go_second) demo_first ''a'' (Some ''timeout'') [demo_complete]) \<and> QR_Status demo_complete = ''complete''"
proof -
  let ?s = "\<lparr>QS_rows = [demo_complete], QS_tokens = {''a'', ''b''}, QS_working = {(demo_first, ''a'')}\<rparr>"
  have c: "QR_Status demo_complete = ''complete''" by (simp add: demo_complete_def finished_def)
  have "queue_step ?s (?s\<lparr>QS_rows := finish_row (702 * go_second) demo_first ''a'' (Some ''timeout'') (QS_rows ?s), QS_working := QS_working ?s - {(demo_first, ''a'')}\<rparr>)"
    by (rule queue_step.Finish) simp
  then have "steps queue_step ?s (?s\<lparr>QS_rows := finish_row (702 * go_second) demo_first ''a'' (Some ''timeout'') (QS_rows ?s), QS_working := QS_working ?s - {(demo_first, ''a'')}\<rparr>)"
    by (rule steps_step [OF steps_refl])
  from completed_work_stays [OF demo_complete_reachable this, of demo_complete] c show ?thesis by simp
qed

end
