(* ===== verification/Worker.thy ===== *)
theory Worker
  imports Lifecycle Review Queue
begin

text \<open>
  The background worker (\<open>internal/platform/worker.go\<close> and \<open>signReceipt\<close> of \<open>signing.go\<close>): it takes one row of the work queue at a time and runs the
  handler of its kind.  The handlers that have no theory of their own are here: signing a receipt, fetching a submission from
  its repository, starting a preflight.

  GitHub, object storage, the signing key and the JSON encodings are the record \<open>work_env\<close>.  What a run draws (identifiers, times) is
  \<open>work_draws\<close>.  The columns \<open>source_commit\<close> and \<open>repository_id\<close> of an intent, which nothing reads, are left out.
\<close>

record work_env =
  WE_sign :: "string \<Rightarrow> string res"
  WE_marshal :: "document \<Rightarrow> string res"
  WE_snapshot :: "string \<Rightarrow> string \<Rightarrow> SubmissionContract \<Rightarrow> (int \<times> Snapshot) res"
  WE_githubID :: "string \<Rightarrow> int res"
  WE_tree :: "ArtifactTree \<Rightarrow> json"
  WE_put :: "string \<Rightarrow> string res"
  WE_review :: review_env

record work_draws =
  WD_job :: string
  WD_created :: go_time
  WD_review :: string
  WD_evaluated :: json
  WD_adjudication :: draws

section \<open>Signing\<close>

text \<open>The payload is decoded and written again before it is signed; the canonical form of a document does not depend on that.\<close>

definition countersign :: "string \<Rightarrow> Envelope \<Rightarrow> Envelope \<Rightarrow> Envelope res" where
  "countersign keyID host envelope =
     (if Envelope_Payload host \<noteq> Envelope_Payload envelope \<or> Envelope_PayloadType host \<noteq> Envelope_PayloadType envelope
      then Inl (Err ''runner receipt countersignature payload mismatch'')
      else if list_ex (\<lambda>s. Signature_KeyID s = keyID) (Envelope_Signatures host) then Inl (Err ''runner and platform signing identities must be distinct'')
      else Inr (envelope\<lparr>Envelope_Signatures := Envelope_Signatures envelope @ Envelope_Signatures host\<rparr>))"

definition signReceipt :: "'k service \<Rightarrow> work_env \<Rightarrow> string \<Rightarrow> platform_db \<Rightarrow> platform_db res" where
  "signReceipt sv env digest db =
     (case S_ReceiptSigner (SE_server sv) of None \<Rightarrow> Inl (Err ''platform receipt signer is not configured'') | Some key \<Rightarrow>
      case find (\<lambda>r. RC_Digest r = digest \<and> RC_Envelope r = None) (PD_receipts db) of
        None \<Rightarrow> if list_ex (\<lambda>r. RC_Digest r = digest \<and> RC_Envelope r \<noteq> None) (PD_receipts db) then Inr db else Inl (Err ''no rows in result set'')
      | Some r \<Rightarrow>
        res_bind (Digest sv (RC_Payload r)) (\<lambda>actual.
        if actual \<noteq> digest then Inl (Err ''persisted receipt payload differs from its immutable digest'') else
        res_bind (Sign (scrypto sv) (S_ReceiptKeyID (SE_server sv)) key (WE_sign env) (WE_marshal env (RC_Payload r))) (\<lambda>envelope.
        res_bind (case find (\<lambda>x. RR_Digest x = digest) (PD_results db) of None \<Rightarrow> Inr envelope
          | Some x \<Rightarrow> countersign (S_ReceiptKeyID (SE_server sv)) (RR_Envelope x) envelope) (\<lambda>signed.
        Inr (db\<lparr>PD_receipts := update_where (\<lambda>r. RC_Digest r = digest \<and> RC_Envelope r = None) (\<lambda>r. r\<lparr>RC_Envelope := Some signed\<rparr>) (PD_receipts db)\<rparr>)))))"

section \<open>Submissions\<close>

definition failIntent :: "string \<Rightarrow> string \<Rightarrow> platform_db \<Rightarrow> platform_db" where
  "failIntent iid cause db = db\<lparr>PD_intents := update_where (\<lambda>i. SI_ID i = iid)
     (\<lambda>i. i\<lparr>SI_Status := ''failed'', SI_Findings := [(''artifact_rejected'', cause, ''error'', [])]\<rparr>) (PD_intents db)\<rparr>"

definition artifactBytes :: "'k service \<Rightarrow> work_env \<Rightarrow> Snapshot \<Rightarrow> SubmissionContract \<Rightarrow> (string \<times> string) res" where
  "artifactBytes sv env sn contract =
     (let src = SR_source (WE_review env) in
      res_bind (ArtifactFromFiles (SV_nfc src) (SV_cfold src) (SV_lower src) (Sha (scrypto sv)) (SV_canon src) (Snap_Files sn) contract) (\<lambda>(tree, digest).
      Inr (SE_marshal sv (JObj [(''files'', JObj (map (\<lambda>(p, b). (p, JStr (b64_encode b))) (Snap_Files sn))), (''tree'', WE_tree env tree)]), digest)))"

definition quarantine_intent :: "string \<Rightarrow> string \<Rightarrow> platform_db \<Rightarrow> platform_db" where
  "quarantine_intent iid digest db = db\<lparr>PD_intents := update_where (\<lambda>i. SI_ID i = iid \<and> SI_Status i = ''github_fetch'')
     (\<lambda>i. i\<lparr>SI_Artifact := Some digest, SI_Status := ''quarantine_pending'', SI_Findings := [(''quarantine_required'',
       ''Canonical GitHub artifact stored. Waiting for isolated safety scanning and deterministic read-only disk preparation.'', ''pending'', [])]\<rparr>) (PD_intents db)\<rparr>"

text \<open>What the snapshot gives: the bytes of the artifact and its digest, or the reason for which the intent fails.\<close>

definition fetched_artifact :: "'k service \<Rightarrow> work_env \<Rightarrow> submission_intent \<Rightarrow> Manifest \<Rightarrow> (string + string \<times> string) res" where
  "fetched_artifact sv env i m =
     (let request = SI_Request i in
      case WE_snapshot env (Intent_Repository request) (Intent_Ref request) (Manifest_Submission m) of Inl e \<Rightarrow> Inr (Inl (err_text e)) | Inr (ownerID, sn) \<Rightarrow>
      res_bind (if Snap_Private sn then res_bind (WE_githubID env (SI_Owner i)) (\<lambda>g. Inr (ownerID = g)) else Inr True) (\<lambda>own.
      if \<not> own then Inr (Inl ''private submissions currently require a repository owned by your authenticated GitHub account; organization access must be separately verified'') else
      case artifactBytes sv env sn (Manifest_Submission m) of Inl e \<Rightarrow> Inr (Inl (err_text e)) | Inr (b, digest) \<Rightarrow>
      if Intent_PreviewDigest request \<noteq> [] \<and> Intent_PreviewDigest request \<noteq> digest
      then Inr (Inl ''CLI preview digest differs from independently constructed GitHub artifact'') else Inr (Inr (b, digest))))"

definition store_fetched ::
    "'k service \<Rightarrow> work_env \<Rightarrow> work_draws \<Rightarrow> go_time \<Rightarrow> submission_intent \<Rightarrow> Manifest \<Rightarrow> string + string \<times> string \<Rightarrow> platform_db \<Rightarrow> platform_db res" where
  "store_fetched sv env dr now i m fetched db =
     (case fetched of Inl cause \<Rightarrow> Inr (failIntent (SI_ID i) cause db) | Inr (b, digest) \<Rightarrow>
      res_bind (WE_put env b) (\<lambda>blob.
      let db1 = add_artifact digest blob (len b) ''application/json'' (SI_Owner i) db;
          db2 = add_artifact blob blob (len b) ''application/json'' (SI_Owner i) db1;
          db3 = quarantine_intent (SI_ID i) digest db2
      in queuePreparation sv (WD_job dr) (WD_created dr) now ''artifact_prepare'' (SI_ID i) (Intent_VersionID (SI_Request i)) blob digest m db3))"

definition fetchSubmission :: "'k service \<Rightarrow> work_env \<Rightarrow> work_draws \<Rightarrow> go_time \<Rightarrow> string \<Rightarrow> platform_db \<Rightarrow> platform_db res" where
  "fetchSubmission sv env dr now iid db =
     (if \<not> SR_store (WE_review env) then Inl (Err ''immutable artifact storage unavailable'') else
      res_bind (select_row (\<lambda>i. SI_ID i = iid) (PD_intents db)) (\<lambda>i.
      res_bind (select_row (\<lambda>v. CV_ID v = SI_Version i) (PD_versions db)) (\<lambda>v.
      if SI_Status i \<noteq> ''github_fetch'' then Inr db else
      res_bind (CV_Manifest v) (\<lambda>m.
      res_bind (fetched_artifact sv env i m) (\<lambda>fetched. store_fetched sv env dr now i m fetched db)))))"

section \<open>Preflights\<close>

definition preflight :: "'k service \<Rightarrow> work_draws \<Rightarrow> go_time \<Rightarrow> string \<Rightarrow> platform_db \<Rightarrow> platform_db res" where
  "preflight sv dr now pid db =
     res_bind (select_row (\<lambda>p. PF_ID p = pid) (PD_preflights db)) (\<lambda>p.
     let db1 = db\<lparr>PD_preflights := update_where (\<lambda>p. PF_ID p = pid \<and> PF_Status p = ''queued'')
       (\<lambda>p. p\<lparr>PF_Status := ''waiting_for_quarantine'', PF_Findings := [(''isolated_preflight_required'',
         ''Awaiting trusted quarantine builders: independent reproducible builds, full fixture/corpus runs, baseline replication, and immutable disk descriptors. No official machine result has been produced.'',
         ''pending'', [])]\<rparr>) (PD_preflights db)\<rparr> in
     res_bind (select_row (\<lambda>v. CV_ID v = PF_Version p) (PD_versions db1)) (\<lambda>v.
     res_bind (CV_Manifest v) (\<lambda>m.
     queuePreparation sv (WD_job dr) (WD_created dr) now ''preflight'' pid (PF_Version p) (CV_SourceDigest v) (CV_SourceDigest v) m db1)))"

section \<open>One piece of work\<close>

definition on_db :: "review_request list \<Rightarrow> platform_db res \<Rightarrow> review_db res" where
  "on_db rq r = res_bind r (\<lambda>db. Inr (rq, db))"

definition perform :: "'k service \<Rightarrow> work_env \<Rightarrow> work_draws \<Rightarrow> go_time \<Rightarrow> string \<Rightarrow> string \<Rightarrow> review_db \<Rightarrow> review_db res" where
  "perform sv env dr now kind resource = (\<lambda>(rq, db).
     if kind = ''resolve_candidate'' then on_db rq (resolveCandidate sv (SR_sources (WE_review env)) now resource db)
     else if kind = ''fetch_submission'' then on_db rq (fetchSubmission sv env dr now resource db)
     else if kind = ''sign_receipt'' then on_db rq (signReceipt sv env resource db)
     else if kind = ''preflight'' then on_db rq (preflight sv dr now resource db)
     else if kind = ''complete_migration'' then on_db rq (completeMigration sv now resource db)
     else if kind = ''scientific_review'' then scientificReview sv (WE_review env) (WD_review dr) now (WD_evaluated dr) now resource db (rq, db)
     else if kind = ''scientific_rereview'' then scientificRereview sv (WE_review env) (WD_review dr) now (WD_evaluated dr) now resource (rq, db) (rq, db)
     else if kind = ''validate_submission'' then on_db rq (queueSubmission sv (WD_job dr) (WD_created dr) now resource db)
     else if kind = ''adjudicate'' then on_db rq (res_bind (select_row (\<lambda>s. Sub_ID s = resource) (PD_submissions db)) (\<lambda>s.
       adjudicate sv (WD_adjudication dr) now (Sub_Version s) db))
     else Inl (Errf ''unsupported persisted job kind: %s'' [kind]))"

record worker_state =
  WS_rows :: "queue_row list"
  WS_requests :: "review_request list"
  WS_db :: platform_db

text \<open>The rows of the queue hold what \<open>PD_queue\<close> records as enqueued; \<open>sync_rows\<close> adds the rows of new work.\<close>

definition sync_rows :: "go_time \<Rightarrow> platform_db \<Rightarrow> queue_row list \<Rightarrow> queue_row list" where
  "sync_rows now db rows = fold (\<lambda>(kind, resource). enqueue_row now kind resource) (PD_queue db) rows"

definition workOne :: "'k service \<Rightarrow> work_env \<Rightarrow> work_draws \<Rightarrow> go_time \<Rightarrow> string \<Rightarrow> worker_state \<Rightarrow> unit res \<times> worker_state" where
  "workOne sv env dr now token s =
     (case pick_row now token {} (WS_rows s) of None \<Rightarrow> (Inl (Err ''no rows in result set''), s) | Some (job, rows) \<Rightarrow>
      case perform sv env dr now (QR_Kind job) (QR_Resource job) (WS_requests s, WS_db s) of
        Inl e \<Rightarrow> (Inl e, s\<lparr>WS_rows := finish_row now job token (Some (err_text e)) rows\<rparr>)
      | Inr (rq, db) \<Rightarrow> (Inr (), \<lparr>WS_rows = finish_row now job token None (sync_rows now db rows), WS_requests = rq, WS_db = db\<rparr>))"

section \<open>The worker makes steps of the platform\<close>

text \<open>Statements that touch none of the tables the invariants speak of, and then at most one step of a handler.\<close>

definition works :: "'k service \<Rightarrow> platform_db \<Rightarrow> platform_db \<Rightarrow> bool" where
  "works sv db db' \<longleftrightarrow> (\<exists>db1. quiet db db1 \<and> (\<forall>seen. handles sv seen db1 db'))"

lemma works_quiet: "quiet db db' \<Longrightarrow> works sv db db'"
  unfolding works_def by (intro exI [of _ db']) (simp add: handles.Other)

lemma works_step: "(\<And>seen. handles sv seen db db') \<Longrightarrow> works sv db db'"
  unfolding works_def by (intro exI [of _ db]) simp

lemma works_prepare:
  assumes "quiet db db1" "queuePreparation sv jid created now purpose pid version source artifact m db1 = Inr db'"
    "purpose = ''preflight'' \<or> purpose = ''artifact_prepare''"
  shows "works sv db db'"
  unfolding works_def by (intro exI [of _ db1] conjI allI) (rule assms(1), rule handles.Prepare [OF assms(2,3)])

lemma signReceipt_effect:
  assumes "signReceipt sv env digest db = Inr db'"
  obtains (Signed) "db' = db"
    | (Sign) key r envelope signed where "S_ReceiptSigner (SE_server sv) = Some key" "r \<in> set (PD_receipts db)" "RC_Digest r = digest" "RC_Envelope r = None"
      "Digest sv (RC_Payload r) = Inr digest"
      "Sign (scrypto sv) (S_ReceiptKeyID (SE_server sv)) key (WE_sign env) (WE_marshal env (RC_Payload r)) = Inr envelope"
      "(case find (\<lambda>x. RR_Digest x = digest) (PD_results db) of None \<Rightarrow> Inr envelope
        | Some x \<Rightarrow> countersign (S_ReceiptKeyID (SE_server sv)) (RR_Envelope x) envelope) = Inr signed"
      "db' = db\<lparr>PD_receipts := update_where (\<lambda>r. RC_Digest r = digest \<and> RC_Envelope r = None) (\<lambda>r. r\<lparr>RC_Envelope := Some signed\<rparr>) (PD_receipts db)\<rparr>"
proof -
  from assms obtain key where k: "S_ReceiptSigner (SE_server sv) = Some key" by (auto simp: signReceipt_def split: option.splits)
  show ?thesis
  proof (cases "find (\<lambda>r. RC_Digest r = digest \<and> RC_Envelope r = None) (PD_receipts db)")
    case None
    then show ?thesis using assms Signed by (simp add: signReceipt_def k split: if_splits)
  next
    case (Some r)
    then obtain envelope signed where "Digest sv (RC_Payload r) = Inr digest"
      "Sign (scrypto sv) (S_ReceiptKeyID (SE_server sv)) key (WE_sign env) (WE_marshal env (RC_Payload r)) = Inr envelope"
      "(case find (\<lambda>x. RR_Digest x = digest) (PD_results db) of None \<Rightarrow> Inr envelope
        | Some x \<Rightarrow> countersign (S_ReceiptKeyID (SE_server sv)) (RR_Envelope x) envelope) = Inr signed"
      "db' = db\<lparr>PD_receipts := update_where (\<lambda>r. RC_Digest r = digest \<and> RC_Envelope r = None) (\<lambda>r. r\<lparr>RC_Envelope := Some signed\<rparr>) (PD_receipts db)\<rparr>"
      using assms by (auto simp: signReceipt_def k res_bind_Inr_iff if_fail if_Inl)
    with k find_set [OF Some] Sign show ?thesis by blast
  qed
qed

lemma signReceipt_quiet: "signReceipt sv env digest db = Inr db' \<Longrightarrow> quiet db db'"
  by (erule signReceipt_effect) simp_all

lemma store_fetched_works:
  assumes "store_fetched sv env dr now i m fetched db = Inr db'"
  shows "works sv db db'"
proof (cases fetched)
  case (Inl cause)
  with assms show ?thesis by (auto simp: store_fetched_def failIntent_def intro: works_quiet)
next
  case (Inr bd)
  obtain b digest where bd: "bd = (b, digest)" by (cases bd)
  let ?stored = "\<lambda>blob. quarantine_intent (SI_ID i) digest (add_artifact blob blob (len b) ''application/json'' (SI_Owner i)
    (add_artifact digest blob (len b) ''application/json'' (SI_Owner i) db))"
  from assms obtain blob where q: "queuePreparation sv (WD_job dr) (WD_created dr) now ''artifact_prepare'' (SI_ID i) (Intent_VersionID (SI_Request i)) blob digest m
      (?stored blob) = Inr db'" by (auto simp: store_fetched_def Inr bd res_bind_Inr_iff Let_def)
  have "quiet x (quarantine_intent (SI_ID i) digest x)" for x by (simp add: quarantine_intent_def)
  then have "quiet db (?stored blob)" by (blast intro: quiet_trans quiet_statements(6))
  then show ?thesis by (rule works_prepare [OF _ q]) simp
qed

lemma fetchSubmission_works:
  assumes "fetchSubmission sv env dr now iid db = Inr db'"
  shows "works sv db db'"
  using assms unfolding fetchSubmission_def by (auto simp: handler_simps intro: works_quiet store_fetched_works split: if_splits)

lemma preflight_works:
  assumes "preflight sv dr now pid db = Inr db'"
  shows "works sv db db'"
proof -
  from assms obtain ps version source artifact m where
    "queuePreparation sv (WD_job dr) (WD_created dr) now ''preflight'' pid version source artifact m (db\<lparr>PD_preflights := ps\<rparr>) = Inr db'"
    unfolding preflight_def by (auto simp: handler_simps)
  then show ?thesis by (rule works_prepare [OF quiet_updates(4)]) simp
qed

lemma scientificRereview_quiet:
  assumes "scientificRereview sv env rid earlier evaluatedAt now requestID rdb0 (rq, db) = Inr (rq', db')"
  shows "quiet db db'"
  using assms unfolding scientificRereview_def by (auto simp: handler_simps split: if_splits dest: scientificReviewAttempt_quiet)

lemma perform_works:
  assumes "perform sv env dr now kind resource (rq, db) = Inr (rq', db')"
  shows "works sv db db'"
proof -
  have "on_db rq r = Inr (rq', db') \<longleftrightarrow> r = Inr db' \<and> rq' = rq" for r by (auto simp: on_db_def res_bind_Inr_iff)
  with assms consider "resolveCandidate sv (SR_sources (WE_review env)) now resource db = Inr db'" | "fetchSubmission sv env dr now resource db = Inr db'"
    | "signReceipt sv env resource db = Inr db'" | "preflight sv dr now resource db = Inr db'" | "completeMigration sv now resource db = Inr db'"
    | "scientificReviewAttempt sv (WE_review env) (WD_review dr) now (WD_evaluated dr) now resource [] [] db (rq, db) = Inr (rq', db')"
    | "scientificRereview sv (WE_review env) (WD_review dr) now (WD_evaluated dr) now resource (rq, db) (rq, db) = Inr (rq', db')"
    | "queueSubmission sv (WD_job dr) (WD_created dr) now resource db = Inr db'" | version where "adjudicate sv (WD_adjudication dr) now version db = Inr db'"
    unfolding perform_def scientificReview_def by (auto simp: res_bind_Inr_iff split: if_splits)
  then show ?thesis
    by cases (blast intro: works_quiet works_step resolveCandidate_quiet fetchSubmission_works signReceipt_quiet preflight_works completeMigration_quiet
      scientificReviewAttempt_quiet scientificRereview_quiet handles.Queue handles.Adjudicate)+
qed

section \<open>Signed receipts\<close>

text \<open>C15: a receipt is signed once and for all.  Signing changes nothing but receipts that have no envelope and the given digest; the envelope holds the very
  document that digest names, with a valid signature of the platform's key, and for the receipt of a run also the signatures of
  the host on the same document.\<close>

theorem receipt_signed_once:
  assumes "signReceipt sv env digest db = Inr db'" "r' \<in> set (PD_receipts db')"
    and "\<And>d. SE_canonical sv d = res_bind (WE_marshal env d) (CanonJSON (scrypto sv))"
    and "\<And>key. S_ReceiptSigner (SE_server sv) = Some key \<Longrightarrow> key_scheme (scrypto sv) key (WE_sign env)"
  shows "r' \<in> set (PD_receipts db) \<or>
    (\<exists>r e data key sig. r \<in> set (PD_receipts db) \<and> RC_Digest r = digest \<and> RC_Envelope r = None \<and> r' = r\<lparr>RC_Envelope := Some e\<rparr> \<and>
      b64_decode (Envelope_Payload e) = Some data \<and> DigestBytes (Sha (scrypto sv)) data = digest \<and> S_ReceiptSigner (SE_server sv) = Some key \<and>
      \<lparr>Signature_KeyID = S_ReceiptKeyID (SE_server sv), Signature_Sig = sig\<rparr> \<in> set (Envelope_Signatures e) \<and> signature_valid (scrypto sv) PayloadType data key sig \<and>
      (case find (\<lambda>x. RR_Digest x = digest) (PD_results db) of None \<Rightarrow> True
       | Some x \<Rightarrow> Envelope_Payload (RR_Envelope x) = Envelope_Payload e \<and> set (Envelope_Signatures (RR_Envelope x)) \<subseteq> set (Envelope_Signatures e)))"
  using assms(1)
proof (cases rule: signReceipt_effect)
  case Signed
  with assms(2) show ?thesis by simp
next
  case (Sign key p envelope signed)
  show ?thesis
  proof (cases "r' \<in> set (PD_receipts db)")
    case False
    with assms(2) obtain r where r: "r \<in> set (PD_receipts db)" "RC_Digest r = digest" "RC_Envelope r = None" "r' = r\<lparr>RC_Envelope := Some signed\<rparr>"
      unfolding Sign(8) by (auto simp: set_update_where split: if_splits)
    from Sign(5) obtain bytes where b: "SE_canonical sv (RC_Payload p) = Inr bytes" "DigestBytes (Sha (scrypto sv)) bytes = digest"
      by (auto simp: Digest_def res_bind_Inr_iff)
    from Sign(6) b(1) obtain sig where e: "envelope = \<lparr>Envelope_PayloadType = PayloadType, Envelope_Payload = b64_encode bytes,
        Envelope_Signatures = [\<lparr>Signature_KeyID = S_ReceiptKeyID (SE_server sv), Signature_Sig = b64_encode sig\<rparr>]\<rparr>" and
      sig: "WE_sign env (Sha (scrypto sv) (pae PayloadType bytes)) = Inr sig" "IsP256 (scrypto sv) key"
      unfolding assms(3) by (auto simp: Signatures.Sign_def res_simps)
    have v: "signature_valid (scrypto sv) PayloadType bytes key (b64_encode sig)"
      using assms(4) [OF Sign(1)] sig by (simp add: signature_valid_def key_scheme_def)
    have h: "Envelope_Payload signed = b64_encode bytes \<and> \<lparr>Signature_KeyID = S_ReceiptKeyID (SE_server sv), Signature_Sig = b64_encode sig\<rparr> \<in> set (Envelope_Signatures signed) \<and>
      (case find (\<lambda>x. RR_Digest x = digest) (PD_results db) of None \<Rightarrow> True
       | Some x \<Rightarrow> Envelope_Payload (RR_Envelope x) = Envelope_Payload signed \<and> set (Envelope_Signatures (RR_Envelope x)) \<subseteq> set (Envelope_Signatures signed))"
      using Sign(7) e by (auto simp: countersign_def split: option.splits if_splits)
    show ?thesis
      by (rule disjI2, rule exI [of _ r], rule exI [of _ signed], rule exI [of _ bytes], rule exI [of _ key], rule exI [of _ "b64_encode sig"])
        (use r b(2) v h Sign(1) in simp)
  qed simp
qed

text \<open>C7: whatever the worker runs, the database moves by steps of the platform: every state it leaves behind is one the platform can reach, so all that
  holds of those holds of it; a failed piece of work leaves the database as it was.\<close>

theorem worker_runs_platform:
  assumes "reachable platform_init (platform_step sv) (WS_db s # past)" "workOne sv env dr now token s = (result, s')"
  shows "\<exists>mid. reachable platform_init (platform_step sv) (mid @ WS_db s # past) \<and> hd (mid @ WS_db s # past) = WS_db s' \<and>
    (\<not> is_ok result \<longrightarrow> WS_db s' = WS_db s)"
proof -
  from assms(2) consider "WS_db s' = WS_db s" | kind resource rq' where "perform sv env dr now kind resource (WS_requests s, WS_db s) = Inr (rq', WS_db s')" "result = Inr ()"
    unfolding workOne_def by (auto split: option.splits sum.splits)
  then show ?thesis
  proof cases
    case 1
    with assms(1) show ?thesis by (intro exI [of _ "[]"]) simp
  next
    case (2 kind resource rq')
    from perform_works [OF 2(1)] obtain db1 where q: "quiet (WS_db s) db1" "\<And>seen. handles sv seen db1 (WS_db s')" unfolding works_def by blast
    have "platform_step sv (WS_db s # past) (db1 # WS_db s # past)" unfolding platform_step_def using handles.Other [OF q(1)] by blast
    moreover have "platform_step sv (db1 # WS_db s # past) (WS_db s' # db1 # WS_db s # past)" unfolding platform_step_def using q(2) by blast
    ultimately have "reachable platform_init (platform_step sv) (WS_db s' # db1 # WS_db s # past)" using assms(1) reachable_step by metis
    then show ?thesis using 2(2) by (intro exI [of _ "[WS_db s', db1]"]) simp
  qed
qed

end
