(* ===== verification/Workday.thy ===== *)
theory Workday
  imports Tour Worker
begin

text \<open>
  Concrete runs of the scientific review and of the worker: the records service, sources, repository and model are small functions, the
  database is that of the tour.  Each theorem about them is applied at one of these runs.
\<close>

section \<open>A review that passes\<close>

text \<open>A page that quotes the evidence and names a recent date, a repository with one licence file, and a model that passes the challenge.\<close>

definition review_manifest :: Manifest where
  "review_manifest = demo_manifest\<lparr>Manifest_SafetyClassification := ''low-risk-computational''\<rparr>"

definition review_page :: html where
  "review_page = Html ElementNode ''html'' [] [Html ElementNode ''meta'' [(''name'', ''citation_date''), (''content'', ''d'')] [],
     Html ElementNode ''script'' [] [Html TextNode ''code'' [] []], Html TextNode (Source_Evidence demo_source) [] []]"

definition review_sources :: sources_env where
  "review_sources = \<lparr>SO_url = demo_url, SO_lower = (\<lambda>r. r), SO_lookup = (\<lambda>_. Inr []), SO_do = (\<lambda>c u. Inr \<lparr>PG_Status = 200, PG_Type = ''text/html'', PG_Body = Inr ''page''\<rparr>),
     SO_html = (\<lambda>_. Some review_page), SO_date = (\<lambda>layout text. Some (5, ''2026-01-01'')), SO_fiveYears = 0\<rparr>"

definition review_answer :: ScienceReview where
  "review_answer = \<lparr>SCR_Metric = Some \<lparr>MA_Decision = ''accepted'', MA_ScientificConnection = ''a faster exact method'', MA_PreservedConditions = ''the result stays exact'',
       MA_ShortcutAnalysis = ''inputs are drawn anew'', MA_ClaimScope = ''this family of inputs''\<rparr>, SCR_Outcome = ''automated_pass'', SCR_Summary = [], SCR_Evidence = [],
     SCR_Validity = [], SCR_Impact = [], SCR_Safety = [], SCR_Findings = [\<lparr>RF_Severity = ''info'', RF_Area = ''sources'', RF_Message = [], RF_Suggested = []\<rparr>],
     SCR_Limitations = []\<rparr>"

definition review_source :: source_env where
  "review_source = \<lparr>SV_store = True, SV_put = (\<lambda>_. Inr []), SV_nfc = (\<lambda>_. True), SV_url = demo_url, SV_cfold = (\<lambda>x. x), SV_lower = (\<lambda>r. r), SV_canon = (\<lambda>_. Inr []),
     SV_manifest = (\<lambda>_. Inr review_manifest), SV_candidate = (\<lambda>_. Inl (Err []))\<rparr>"

definition review_files :: "(string, string) gomap" where
  "review_files = [(''LICENSE'', ''MIT''), (''docs/method.md'', ''password = hunter2hunter2'')]"

definition review_world :: review_env where
  "review_world = \<lparr>SR_key = True, SR_store = True, SR_source = review_source, SR_sources = review_sources, SR_get = (\<lambda>_ _. Inr ''doc''), SR_repository = (\<lambda>_. 7),
     SR_snapshot = (\<lambda>_. Inr (7, ''c'', review_files)), SR_size = (\<lambda>_. 0), SR_machine = (\<lambda>_. []), SR_previous = (\<lambda>_. []),
     SR_evidenceDigest = (\<lambda>_. Inr []), SR_evidenceJSON = (\<lambda>_. JNull), SR_ask = (\<lambda>_. Inr (200, Inr \<lparr>PV_ID = [], PV_Status = ''completed'', PV_Output = []\<rparr>)),
     SR_decode = (\<lambda>_. Inr review_answer), SR_model = []\<rparr>"


lemma review_selected:
  "case selectReviewEvidence tour_service review_world ''doc'' (tour_digest ''doc'') ''c'' 7 review_manifest of Inl _ \<Rightarrow> False
   | Inr ev \<Rightarrow> map EF_Path (EV_Files ev) = [''LICENSE''] \<and> EV_Omitted ev = 1"
  by code_simp


theorem review_evidence_bounded_witness:
  "\<exists>ev. selectReviewEvidence tour_service review_world ''doc'' (tour_digest ''doc'') ''c'' 7 review_manifest = Inr ev \<and> map EF_Path (EV_Files ev) = [''LICENSE''] \<and>
    length (EV_Files ev) \<le> 24 \<and> EV_Source ev = tour_digest ''doc''"
proof -
  obtain ev where ev: "selectReviewEvidence tour_service review_world ''doc'' (tour_digest ''doc'') ''c'' 7 review_manifest = Inr ev" "map EF_Path (EV_Files ev) = [''LICENSE'']"
    using review_selected by (auto split: sum.splits)
  from review_evidence_bounded [OF ev(1)] ev show ?thesis by auto
qed


section \<open>A day of the worker\<close>

text \<open>Documents are written in canonical form and the signature of a hash is the hash with the key before it.\<close>

definition work_world :: work_env where
  "work_world = \<lparr>WE_sign = (\<lambda>h. Inr (''k'' @ h)), WE_marshal = SE_canonical tour_service, WE_snapshot = (\<lambda>_ _ _. Inl (Err ''not found'')), WE_githubID = (\<lambda>_. Inr 1),
     WE_tree = (\<lambda>_. JNull), WE_put = (\<lambda>_. Inr []), WE_review = review_world\<rparr>"

definition work_receipt :: receipt_record where
  "work_receipt = new_receipt (tour_digest ''R'') (DocReceipt (reveal_receipt tour_service ''R'' 5 ''h'' (demo_secret CHR ''k'') ''c'' [])) None True"

lemma work_signs: "case signReceipt tour_service work_world (tour_digest ''R'') (tour_start\<lparr>PD_receipts := [work_receipt]\<rparr>) of Inl _ \<Rightarrow> False
    | Inr db \<Rightarrow> list_all (\<lambda>r. RC_Envelope r \<noteq> None) (PD_receipts db) \<and> PD_receipts db \<noteq> [] \<and> RC_Envelope work_receipt = None"
  by code_simp

theorem receipt_signed_once_witness:
  "\<exists>db r e data. signReceipt tour_service work_world (tour_digest ''R'') (tour_start\<lparr>PD_receipts := [work_receipt]\<rparr>) = Inr db \<and> r \<in> set (PD_receipts db) \<and>
    RC_Envelope r = Some e \<and> b64_decode (Envelope_Payload e) = Some data \<and> DigestBytes tour_sha data = tour_digest ''R''"
proof -
  obtain db where s: "signReceipt tour_service work_world (tour_digest ''R'') (tour_start\<lparr>PD_receipts := [work_receipt]\<rparr>) = Inr db" and
    a: "list_all (\<lambda>r. RC_Envelope r \<noteq> None) (PD_receipts db)" "PD_receipts db \<noteq> []" "RC_Envelope work_receipt = None"
    using work_signs by (auto split: sum.splits)
  from a(1,2) obtain r where r: "r \<in> set (PD_receipts db)" "RC_Envelope r \<noteq> None" by (cases "PD_receipts db") auto
  have c: "Sha (scrypto tour_service) = tour_sha" "CanonJSON (scrypto tour_service) = (\<lambda>x. Inr x)" "VerifyASN1 (scrypto tour_service) = (\<lambda>key h sig. sig = key @ h)"
    "S_ReceiptSigner (SE_server tour_service) = Some ''k''"
    by (simp_all add: tour_service_def tour_crypto_def demo_crypto_def)
  have "SE_canonical tour_service d = res_bind (WE_marshal work_world d) (CanonJSON (scrypto tour_service))" for d
    unfolding c(2) by (cases "SE_canonical tour_service d") (simp_all add: work_world_def res_bind_def)
  moreover have "key_scheme (scrypto tour_service) key (WE_sign work_world)" if "S_ReceiptSigner (SE_server tour_service) = Some key" for key
    using that by (simp add: key_scheme_def c work_world_def)
  moreover have "r \<notin> set (PD_receipts (tour_start\<lparr>PD_receipts := [work_receipt]\<rparr>))" using r(2) a(3) by auto
  ultimately show ?thesis using receipt_signed_once [OF s r(1)] s r(1) unfolding c(1) by fastforce
qed

definition work_row :: queue_row where
  "work_row = \<lparr>QR_Kind = ''validate_submission'', QR_Resource = ''s1'', QR_Status = ''queued'', QR_Attempts = 0, QR_Available = 1, QR_Lease = None, QR_Token = None, QR_Error = None\<rparr>"

definition work_draw :: work_draws where
  "work_draw = \<lparr>WD_job = ''j1'', WD_created = 10, WD_review = [], WD_evaluated = JNull,
     WD_adjudication = \<lparr>Draw_receipt = \<lambda>_. ''Z'', Draw_time = \<lambda>_. 41, Draw_claim = \<lambda>m. m\<rparr>\<rparr>"

lemma tour_accepted_reachable: "tour_reaches (play tour_accept [tour_start])"
proof -
  have "platform_init [tour_start]"
    unfolding platform_init_def by (intro exI [of _ tour_start]) (simp add: fresh_db_def core_def tour_start_def)
  then have "tour_reaches [tour_start]" by (rule reachable_init)
  then show ?thesis by (rule play_reachable) (auto simp: tour_accept_def res_bind_Inr_iff dest!: only_db_Inr intro: handles.Accept)
qed

lemma tour_accepted_queued: "case play tour_accept [tour_start] of [] \<Rightarrow> False | db # past \<Rightarrow>
    (case queueSubmission tour_service ''j1'' 10 10 ''s1'' db of Inl _ \<Rightarrow> False | Inr db' \<Rightarrow> map RJ_ID (PD_jobs db') = [''j1''])"
  by code_simp

theorem worker_runs_platform_witness:
  "\<exists>s s' past mid. workOne tour_service work_world work_draw 10 ''t'' s = (Inr (), s') \<and> tour_reaches (mid @ WS_db s # past) \<and>
    hd (mid @ WS_db s # past) = WS_db s' \<and> map RJ_ID (PD_jobs (WS_db s')) = [''j1''] \<and> map QR_Status (WS_rows s) = [''queued'']"
proof -
  obtain db past db' where p: "play tour_accept [tour_start] = db # past" and q: "queueSubmission tour_service ''j1'' 10 10 ''s1'' db = Inr db'" "map RJ_ID (PD_jobs db') = [''j1'']"
    using tour_accepted_queued by (auto split: list.splits sum.splits)
  define s where "s = \<lparr>WS_rows = [work_row], WS_requests = [], WS_db = db\<rparr>"
  have "row_due 10 work_row" by (simp add: row_due_def work_row_def)
  moreover have k: "QR_Kind (lease_row 10 ''t'' work_row) = ''validate_submission''" "QR_Resource (lease_row 10 ''t'' work_row) = ''s1''"
    by (simp_all add: lease_row_def work_row_def)
  moreover have "perform tour_service work_world work_draw 10 ''validate_submission'' ''s1'' ([], db) = Inr ([], db')"
    by (simp add: perform_def on_db_def work_draw_def q(1))
  ultimately have w: "\<exists>rows. workOne tour_service work_world work_draw 10 ''t'' s = (Inr (), \<lparr>WS_rows = rows, WS_requests = [], WS_db = db'\<rparr>)"
    unfolding workOne_def s_def by (simp add: pick_single)
  then obtain rows where w: "workOne tour_service work_world work_draw 10 ''t'' s = (Inr (), \<lparr>WS_rows = rows, WS_requests = [], WS_db = db'\<rparr>)" by blast
  have "tour_reaches (WS_db s # past)" using tour_accepted_reachable unfolding p s_def by simp
  from worker_runs_platform [OF this w] obtain mid where "tour_reaches (mid @ WS_db s # past)" "hd (mid @ WS_db s # past) = db'" by auto
  with w q(2) show ?thesis
    by (intro exI [of _ s] exI [of _ "\<lparr>WS_rows = rows, WS_requests = [], WS_db = db'\<rparr>"] exI [of _ past] exI [of _ mid]) (simp add: s_def work_row_def)
qed

end
