(* ===== verification/Inventory.thy ===== *)
theory Inventory
  imports Results GoURL
begin

text \<open>
  The software inside a guest (\<open>internal/runner/scanner.go\<close>, \<open>assets.go\<close> and the wheel lock of \<open>builder.go\<close>): canonical package
  coordinates, the inventory of every runtime package and locked wheel, and the scan of that inventory against a signed snapshot of
  advisories.

  A wheel is a zip archive: the members of an archive, with what reading a member up to a limit gives, and the fields of a
  metadata file are the arguments \<open>zip\<close> and \<open>mime\<close> of the definitions that read wheels.
\<close>

section \<open>Data\<close>

record PackageCoordinate =
  Pkg_ExecutionDomain :: string
  Pkg_Ecosystem :: string
  Pkg_Name :: string
  Pkg_Version :: string
  Pkg_Digest :: string
  Pkg_SourceName :: string
  Pkg_SourceVersion :: string

record AssetInventoryBinding =
  Bind_Asset :: EvaluationAsset
  Bind_ComponentInventoryDigest :: string
  Bind_PackageKeys :: "string list"

record RuntimeInventory =
  Inv_Assets :: "AssetInventoryBinding list"
  Inv_APIVersion :: string
  Inv_RuntimeImageDigest :: string
  Inv_ComponentInventoryDigest :: string
  Inv_Packages :: "PackageCoordinate list"

record AdvisorySource =
  ASrc_URL :: string
  ASrc_FetchedAt :: go_time
  ASrc_ContentDigest :: string

record Advisory =
  Adv_ID :: string
  Adv_Severity :: string
  Adv_SourceURL :: string

record AdvisoryCoverage =
  Cover_Package :: PackageCoordinate
  Cover_Status :: string
  Cover_SourceURL :: string
  Cover_Advisories :: "Advisory list"

record AdvisorySnapshot =
  Snapshot_APIVersion :: string
  Snapshot_Kind :: string
  Snapshot_ID :: string
  Snapshot_GeneratedAt :: go_time
  Snapshot_ExpiresAt :: go_time
  Snapshot_Sources :: "AdvisorySource list"
  Snapshot_Coverage :: "AdvisoryCoverage list"

section \<open>Names and versions\<close>

definition name_pattern :: "(char \<Rightarrow> bool) \<Rightarrow> (char \<Rightarrow> bool) \<Rightarrow> string \<Rightarrow> bool" where
  "name_pattern first other s = (case s of [] \<Rightarrow> False | c # cs \<Rightarrow> first c \<and> list_all other cs)"

definition lower_alnum :: "char \<Rightarrow> bool" where
  "lower_alnum c = (is_digit c \<or> 97 \<le> code c \<and> code c \<le> 122)"

definition separator :: "char \<Rightarrow> bool" where
  "separator c = (c = CHR ''-'' \<or> c = CHR ''_'' \<or> c = CHR ''.'')"

text \<open>\<open>ReplaceAllString\<close> of \<open>[-_.]+\<close> by a dash.\<close>

function dashes :: "string \<Rightarrow> string" where
  "dashes [] = []"
| "dashes (c # s) = (if separator c then CHR ''-'' # dashes (dropWhile separator s) else c # dashes s)"
  by pat_completeness auto
termination
  by (relation "measure length") (auto simp: less_Suc_eq_le length_dropWhile_le)

definition normalizePythonName :: "string \<Rightarrow> string res" where
  "normalizePythonName name =
     fail_if (\<not> name_pattern alnum (\<lambda>c. alnum c \<or> separator c) name) ''invalid Python package name'' (Inr (dashes (map ascii_lower name)))"

text \<open>The pattern of versions ignores case.  It is read from left to right: no part can begin with what ends the part before it.  The
  letter s has a third case variant, the long s, written with two bytes.\<close>

fun fold_strip :: "string \<Rightarrow> string \<Rightarrow> string option" where
  "fold_strip [] s = Some s"
| "fold_strip (c # w) s = (case s of [] \<Rightarrow> None | x # r \<Rightarrow> if ascii_lower x = c then fold_strip w r
     else if c = CHR ''s'' \<and> take 2 s = [CHR 0xC5, CHR 0xBF] then fold_strip w (drop 2 s) else None)"

definition starts_digit :: "string \<Rightarrow> bool" where
  "starts_digit s = (case s of [] \<Rightarrow> False | c # _ \<Rightarrow> is_digit c)"

function release_parts :: "string \<Rightarrow> string list \<times> string" where
  "release_parts s =
     (let d = takeWhile is_digit s in
      case dropWhile is_digit s of [] \<Rightarrow> ([d], [])
      | c # t \<Rightarrow> if c = CHR ''.'' \<and> starts_digit t then (let (ps, r) = release_parts t in (d # ps, r)) else ([d], c # t))"
  by pat_completeness auto
termination
  by (relation "measure length") (auto, metis length_Cons length_dropWhile_le less_eq_Suc_le)

definition segment :: "string \<Rightarrow> string \<Rightarrow> string option \<times> string" where
  "segment tag s = (case fold_strip tag s of None \<Rightarrow> (None, s) | Some r \<Rightarrow>
     if starts_digit r then (Some (takeWhile is_digit r), dropWhile is_digit r) else (None, s))"

definition canonical_digits :: "string \<Rightarrow> string" where
  "canonical_digits s = (let t = dropWhile (\<lambda>c. c = CHR ''0'') s in if t = [] then ''0'' else t)"

definition tag_text :: "string \<Rightarrow> string option \<Rightarrow> string" where
  "tag_text tag n = (case n of None \<Rightarrow> [] | Some d \<Rightarrow> tag @ canonical_digits d)"

definition normalizePythonVersion :: "string \<Rightarrow> string res" where
  "normalizePythonVersion version =
     (let s0 = (case fold_strip ''v'' version of None \<Rightarrow> version | Some r \<Rightarrow> r) in
      if \<not> starts_digit s0 then Inl (Err ''dependency version is outside the canonical platform PEP 440 subset'') else
      let (parts, s1) = release_parts s0; (a, s2) = segment ''a'' s1;
          (b, s3) = (if a = None then segment ''b'' s2 else (None, s2));
          (rc, s4) = (if a = None \<and> b = None then segment ''rc'' s3 else (None, s3));
          (post, s5) = segment ''.post'' s4; (dev, s6) = segment ''.dev'' s5 in
      if s6 \<noteq> [] then Inl (Err ''dependency version is outside the canonical platform PEP 440 subset'')
      else Inr (join_with CHR ''.'' (map canonical_digits parts) @ tag_text ''a'' a @ tag_text ''b'' b @ tag_text ''rc'' rc
        @ tag_text ''.post'' post @ tag_text ''.dev'' dev))"

definition contains_any :: "string \<Rightarrow> string \<Rightarrow> bool" where
  "contains_any s chars = list_ex (\<lambda>c. c \<in> set chars) s"

definition blank_chars :: string where
  "blank_chars = [CHR 0x0A, CHR 0x0D, CHR 0x00, CHR '' '']"

definition git_part :: "string \<Rightarrow> bool" where
  "git_part s = (s \<noteq> [] \<and> list_all (\<lambda>c. alnum c \<or> separator c) s)"

definition git_repository :: "string \<Rightarrow> bool" where
  "git_repository s = (case split_on CHR ''/'' s of [host, owner, rep] \<Rightarrow> host = ''github.com'' \<and> git_part owner \<and> git_part rep | _ \<Rightarrow> False)"

definition commit_pattern :: "string \<Rightarrow> bool" where
  "commit_pattern s = (length s = 40 \<and> list_all (\<lambda>c. is_digit c \<or> 97 \<le> code c \<and> code c \<le> 102) s)"

definition normalizePackage :: "PackageCoordinate \<Rightarrow> PackageCoordinate res" where
  "normalizePackage p =
     fail_if (Pkg_ExecutionDomain p \<noteq> [] \<and> Pkg_ExecutionDomain p \<noteq> ''checker'' \<and> Pkg_ExecutionDomain p \<noteq> ''candidate-only'') ''invalid package execution domain''
     (fail_if (len (Pkg_Name p) > 256 \<or> len (Pkg_Version p) > 256 \<or> Pkg_Name p = [] \<or> Pkg_Version p = []) ''invalid package coordinate''
     (if Pkg_Ecosystem p = ''PyPI'' then
        res_bind (normalizePythonName (Pkg_Name p)) (\<lambda>name. res_bind (normalizePythonVersion (Pkg_Version p)) (\<lambda>version.
        Inr (p\<lparr>Pkg_Name := name, Pkg_Version := version\<rparr>)))
      else if Pkg_Ecosystem p = ''Debian'' then
        fail_if (contains_any (Pkg_Name p @ Pkg_Version p) blank_chars
          \<or> \<not> name_pattern lower_alnum (\<lambda>c. lower_alnum c \<or> c \<in> set ''+.-'') (Pkg_Name p)) ''invalid Debian package coordinate'' (Inr p)
      else if Pkg_Ecosystem p = ''Git'' then
        fail_if (\<not> git_repository (Pkg_Name p) \<or> \<not> commit_pattern (Pkg_Version p) \<or> \<not> ValidDigest (Pkg_Digest p))
          ''Git packages require exact repository, commit and component bytes'' (Inr p)
      else if Pkg_Ecosystem p = ''Generic'' then
        fail_if (\<not> name_pattern lower_alnum (\<lambda>c. lower_alnum c \<or> c \<in> set ''._+-'') (Pkg_Name p) \<or> contains_any (Pkg_Version p) blank_chars
          \<or> \<not> ValidDigest (Pkg_Digest p)) ''generic components require canonical names, exact versions and pinned bytes'' (Inr p)
      else if Pkg_Ecosystem p = ''CPython'' then
        fail_if (Pkg_Name p \<noteq> ''cpython'') ''invalid interpreter coordinate''
        (res_bind (normalizePythonVersion (Pkg_Version p)) (\<lambda>version. Inr (p\<lparr>Pkg_Version := version\<rparr>)))
      else Inl (Err ''unsupported advisory ecosystem'')))"

definition packageKey :: "PackageCoordinate \<Rightarrow> string" where
  "packageKey p = Pkg_Ecosystem p @ '':'' @ Pkg_Name p @ ''@'' @ Pkg_Version p"

section \<open>Assets\<close>

record PinnedFile =
  Pinned_Path :: string
  Pinned_Digest :: string

record AssetDisk =
  Disk_Asset :: EvaluationAsset
  Disk_File :: PinnedFile

definition package_table :: "PackageCoordinate list \<Rightarrow> (string, PackageCoordinate) gomap" where
  "package_table ps = fold (\<lambda>p. gomap_put (packageKey p) p) ps []"

definition asset_key_step :: "(string, PackageCoordinate) gomap \<Rightarrow> string \<Rightarrow> string set \<Rightarrow> string \<Rightarrow> string set res" where
  "asset_key_step packages area keys key =
     (case lookup packages key of None \<Rightarrow> Inl (Err ''asset package coverage is missing or repeated'') | Some p \<Rightarrow>
      fail_if (key \<in> keys) ''asset package coverage is missing or repeated''
      (fail_if (area \<noteq> ''candidate'' \<and> Pkg_ExecutionDomain p = ''candidate-only'') ''checker-visible asset was classified candidate-only''
      (Inr (insert key keys))))"

definition binding_step :: "AssetDisk list \<Rightarrow> (string, PackageCoordinate) gomap \<Rightarrow> string set \<Rightarrow> AssetInventoryBinding \<Rightarrow> string set res" where
  "binding_step disks packages seen b =
     fail_if (\<not> ValidDigest (Bind_ComponentInventoryDigest b) \<or> Asset_Name (Bind_Asset b) \<in> seen) ''invalid asset component inventory binding''
     (fail_if (\<not> list_ex (\<lambda>d. Disk_Asset d = Bind_Asset b) disks) ''asset inventory is for different immutable bytes or disclosure policy''
     (fail_if (Asset_Domain (Bind_Asset b) \<noteq> [] \<and> Bind_PackageKeys b = []) ''executable asset lacks package coverage''
     (res_bind (res_fold (asset_key_step packages (Asset_Domain (Bind_Asset b))) {} (Bind_PackageKeys b)) (\<lambda>_.
      Inr (insert (Asset_Name (Bind_Asset b)) seen)))))"

definition validateAssetInventory :: "AssetDisk list \<Rightarrow> RuntimeInventory \<Rightarrow> unit res" where
  "validateAssetInventory disks inventory =
     fail_if (len disks \<noteq> len (Inv_Assets inventory)) ''asset component inventory does not match configured disks''
     (res_bind (res_fold (binding_step disks (package_table (Inv_Packages inventory))) {} (Inv_Assets inventory)) (\<lambda>_. Inr ()))"

section \<open>Wheels\<close>

record zip_member =
  ZM_Name :: string
  ZM_IsDir :: bool
  ZM_Symlink :: bool
  ZM_Regular :: bool
  ZM_Compressed :: int
  ZM_Size :: int
  ZM_Open :: "(int \<Rightarrow> string res) res"

fun replace_continuation :: "string \<Rightarrow> string" where
  "replace_continuation (a # b # s) = (if a = CHR 0x5C \<and> b = CHR 0x0A then CHR '' '' # replace_continuation s else a # replace_continuation (b # s))"
| "replace_continuation s = s"

definition rx_blank :: "char \<Rightarrow> bool" where
  "rx_blank c = (c \<in> {CHR 0x09, CHR 0x0A, CHR 0x0C, CHR 0x0D, CHR '' ''})"

definition hex_digest :: "string \<Rightarrow> bool" where
  "hex_digest s = (length s = 64 \<and> list_all (\<lambda>c. is_digit c \<or> 97 \<le> code c \<and> code c \<le> 102) s)"

text \<open>A line of the lock: the name, the version and the hash.  Neither class of characters holds what follows it.\<close>

definition lock_line :: "string \<Rightarrow> (string \<times> string \<times> string) option" where
  "lock_line line =
     (let name = takeWhile (\<lambda>c. alnum c \<or> separator c) line; r = drop (length name) line in
      if name = [] \<or> \<not> prefix ''=='' r then None else
      let version = takeWhile (\<lambda>c. alnum c \<or> separator c \<or> c = CHR ''+'') (drop 2 r); r' = drop (length version) (drop 2 r); h = dropWhile rx_blank r' in
      if version = [] \<or> h = r' \<or> \<not> prefix ''--hash=sha256:'' h \<or> \<not> hex_digest (drop 14 h) then None else Some (name, version, drop 14 h))"

definition pin_name :: "string \<Rightarrow> string \<Rightarrow> string res" where
  "pin_name name version = res_bind (normalizePythonName name) (\<lambda>n. res_bind (normalizePythonVersion version) (\<lambda>v. Inr (n @ ''-'' @ v)))"

definition lock_step :: "(string, string) gomap \<Rightarrow> string \<Rightarrow> (string, string) gomap res" where
  "lock_step pins line0 =
     (let line = trim_space line0 in
      if line = [] \<or> prefix ''#'' line then Inr pins else
      case lock_line line of None \<Rightarrow> Inl (Err ''lock requires exact package==version and one SHA256 hash; no URLs or build options'')
      | Some (name, version, hash) \<Rightarrow>
        res_bind (pin_name name version) (\<lambda>pin.
        fail_if (lookup pins pin \<noteq> None) ''duplicate dependency pin'' (Inr (gomap_put pin hash pins))))"

definition native_extensions :: "string list" where
  "native_extensions = [''.so'', ''.dylib'', ''.dll'', ''.pyd'', ''.exe'', ''.o'', ''.a'']"

definition native_signatures :: "string list" where
  "native_signatures = [CHR 0x7F # ''ELF'', ''MZ'', map char_of [0xfe, 0xed, 0xfa, 0xce :: int], map char_of [0xfe, 0xed, 0xfa, 0xcf :: int],
     map char_of [0xce, 0xfa, 0xed, 0xfe :: int], map char_of [0xcf, 0xfa, 0xed, 0xfe :: int], map char_of [0xca, 0xfe, 0xba, 0xbe :: int], ''!<arch>'' @ [CHR 0x0A]]"

definition nativeSourcePayload :: "(int \<Rightarrow> int) \<Rightarrow> string \<Rightarrow> string \<Rightarrow> bool" where
  "nativeSourcePayload lower name data =
     (to_lower lower (path_ext name) \<in> set native_extensions \<or> list_ex (\<lambda>sig. prefix sig data) native_signatures)"

fun contains_text :: "string \<Rightarrow> string \<Rightarrow> bool" where
  "contains_text sub [] = (sub = [])"
| "contains_text sub (c # s) = (prefix sub (c # s) \<or> contains_text sub s)"

definition filepathBase :: "string \<Rightarrow> string" where
  "filepathBase name = last (split_on CHR ''/'' name)"

text \<open>One member of a wheel; the state is the files written so far and their total size.  Sizes are unsigned 64-bit numbers.\<close>

definition member_step ::
    "(string \<Rightarrow> bool) \<Rightarrow> (int \<Rightarrow> int) \<Rightarrow> (string, string) gomap \<times> int \<Rightarrow> zip_member \<Rightarrow> ((string, string) gomap \<times> int) res" where
  "member_step nfc lower st f = (case st of (out, size0) \<Rightarrow>
     if ZM_IsDir f then Inr (out, size0) else
     fail_if (ZM_Symlink f \<or> \<not> ZM_Regular f) ''wheel links/special files forbidden''
     (res_bind (ValidatePath nfc (ZM_Name f)) (\<lambda>_.
     fail_if (contains_text ''.data/'' (ZM_Name f)) ''wheel data installers are outside the initial profile''
     (fail_if (suffix ''.pth'' (to_lower lower (ZM_Name f)) \<or> nativeSourcePayload lower (ZM_Name f) [])
        ''wheel startup hooks/native code require a new platform profile''
     (fail_if (ZM_Size f > 32 * 2 ^ 20 \<or> ZM_Size f > (100 * max (ZM_Compressed f) 1) mod 2 ^ 64) ''wheel expansion limit exceeded''
     (let size' = size0 + ZM_Size f in
      fail_if (size' > 128 * 2 ^ 20) ''dependency tree exceeds limit''
     (res_bind (ZM_Open f) (\<lambda>read. case read (ZM_Size f + 1) of Inl _ \<Rightarrow> Inl (Err ''invalid wheel member length'') | Inr contents \<Rightarrow>
      fail_if (len contents \<noteq> ZM_Size f) ''invalid wheel member length''
     (fail_if (nativeSourcePayload lower (ZM_Name f) contents) ''disguised native wheel payload requires a new platform profile''
     (let target = ''site-packages/'' @ ZM_Name f in
      fail_if (lookup out target \<noteq> None) ''dependency paths collide'' (Inr (gomap_put target contents out, size'))))))))))))"

record wheel_state =
  WL_out :: "(string, string) gomap"
  WL_used :: "string set"
  WL_total :: int

record wheel_env =
  WV_nfc :: "string \<Rightarrow> bool"
  WV_lower :: "int \<Rightarrow> int"
  WV_sha :: "string \<Rightarrow> string"
  WV_zip :: "string \<Rightarrow> zip_member list res"
  WV_mime :: "string \<Rightarrow> (string, string list) gomap res"

definition wheel_step :: "wheel_env \<Rightarrow> (string, string) gomap \<Rightarrow> wheel_state \<Rightarrow> string \<times> string \<Rightarrow> wheel_state res" where
  "wheel_step env pins st file = (case file of (name, data) \<Rightarrow>
     if \<not> prefix ''wheels/'' name then Inr st else
     fail_if (\<not> suffix ''-py3-none-any.whl'' name) ''initial build profile supports pure Python py3-none-any wheels only''
     (let parts = split_on CHR ''-'' (to_lower (WV_lower env) (filepathBase name)) in
      fail_if (len parts \<noteq> 5) ''unsupported wheel filename''
     (res_bind (pin_name (parts ! 0) (parts ! 1)) (\<lambda>pin.
      case lookup pins pin of None \<Rightarrow> Inl (Err ''wheel is unpinned, duplicated or hash-mismatched'') | Some digest \<Rightarrow>
      fail_if (DigestBytes (WV_sha env) data \<noteq> ''sha256:'' @ digest \<or> pin \<in> WL_used st) ''wheel is unpinned, duplicated or hash-mismatched''
     (res_bind (WV_zip env data) (\<lambda>members.
      fail_if (len members > 4096) ''wheel entry count exceeds limit''
     (res_bind (res_fold (member_step (WV_nfc env) (WV_lower env)) (WL_out st, WL_total st) members) (\<lambda>(out, size0).
      Inr \<lparr>WL_out = out, WL_used = insert pin (WL_used st), WL_total = size0\<rparr>))))))))"

definition read_lock :: "(string, string) gomap \<Rightarrow> string \<Rightarrow> (string, string) gomap res" where
  "read_lock files lockPath =
     (case lookup files lockPath of None \<Rightarrow> Inl (Err ''dependency lock missing'') | Some lock \<Rightarrow>
      fail_if (len lock > 128 * 1024) ''dependency lock too large''
      (res_fold lock_step [] (split_on CHR 0x0A (replace_continuation lock))))"

definition lockedWheelFiles :: "wheel_env \<Rightarrow> (string, string) gomap \<Rightarrow> string \<Rightarrow> (string, string) gomap res" where
  "lockedWheelFiles env files lockPath =
     res_bind (read_lock files lockPath) (\<lambda>pins.
     res_bind (res_fold (wheel_step env pins) \<lparr>WL_out = [], WL_used = {}, WL_total = 0\<rparr> files) (\<lambda>st.
     fail_if (card (WL_used st) \<noteq> length pins) ''all pinned wheels must be vendored for offline build'' (Inr (WL_out st))))"

section \<open>The inventory\<close>

record inventory_state =
  IS_packages :: "(string, PackageCoordinate) gomap"
  IS_names :: "string set"
  IS_requirements :: "(string, string list) gomap"

definition runtime_step :: "inventory_state \<Rightarrow> PackageCoordinate \<Rightarrow> inventory_state res" where
  "runtime_step st p =
     res_bind (normalizePackage p) (\<lambda>n.
     fail_if (lookup (IS_packages st) (packageKey n) \<noteq> None) ''duplicate runtime inventory entry''
     (Inr (st\<lparr>IS_packages := gomap_put (packageKey n) n (IS_packages st),
        IS_names := (if Pkg_Ecosystem p = ''PyPI'' then insert (Pkg_Name n) (IS_names st) else IS_names st)\<rparr>)))"

definition metadata_step ::
    "wheel_env \<Rightarrow> int \<times> (string, string list) gomap \<Rightarrow> zip_member \<Rightarrow> (int \<times> (string, string list) gomap) res" where
  "metadata_step env st f = (case st of (found, metadata) \<Rightarrow>
     if \<not> suffix ''.dist-info/METADATA'' (ZM_Name f) then Inr (found, metadata) else
     fail_if (ZM_Size f > 128 * 2 ^ 10) ''wheel metadata exceeds limit''
     (res_bind (ZM_Open f) (\<lambda>read. res_bind (read (128 * 2 ^ 10)) (\<lambda>contents.
      res_bind (or_else (WV_mime env contents) (Err ''invalid wheel package metadata'')) (\<lambda>h. Inr (found + 1, h))))))"

definition header_get :: "(string, string list) gomap \<Rightarrow> string \<Rightarrow> string" where
  "header_get h k = (case lookup h k of Some (v # _) \<Rightarrow> v | _ \<Rightarrow> [])"

definition header_values :: "(string, string list) gomap \<Rightarrow> string \<Rightarrow> string list" where
  "header_values h k = (case lookup h k of None \<Rightarrow> [] | Some vs \<Rightarrow> vs)"

definition wheel_coordinate :: "wheel_env \<Rightarrow> (string, string list) gomap \<Rightarrow> string \<Rightarrow> PackageCoordinate" where
  "wheel_coordinate env h data = \<lparr>Pkg_ExecutionDomain = [], Pkg_Ecosystem = ''PyPI'', Pkg_Name = header_get h ''Name'', Pkg_Version = header_get h ''Version'',
     Pkg_Digest = DigestBytes (WV_sha env) data, Pkg_SourceName = [], Pkg_SourceVersion = []\<rparr>"

definition inventory_step :: "wheel_env \<Rightarrow> inventory_state \<Rightarrow> string \<times> string \<Rightarrow> inventory_state res" where
  "inventory_step env st file = (case file of (name, data) \<Rightarrow>
     if \<not> prefix ''wheels/'' name then Inr st else
     res_bind (WV_zip env data) (\<lambda>members.
     res_bind (res_fold (metadata_step env) (0, []) members) (\<lambda>(found, metadata).
     fail_if (found \<noteq> 1) ''wheel must have exactly one METADATA identity''
     (res_bind (normalizePackage (wheel_coordinate env metadata data)) (\<lambda>coordinate.
     let parts = split_on CHR ''-'' (filepathBase name) in
     res_bind (res_bind (index parts 0) normalizePythonName) (\<lambda>expectedName.
     res_bind (index parts 1) (\<lambda>part.
     case normalizePythonVersion part of Inl _ \<Rightarrow> Inl (Err ''wheel filename and metadata identity disagree'') | Inr expectedVersion \<Rightarrow>
     fail_if (Pkg_Name coordinate \<noteq> expectedName \<or> Pkg_Version coordinate \<noteq> expectedVersion) ''wheel filename and metadata identity disagree''
     (let key = packageKey coordinate in
      fail_if (case lookup (IS_packages st) key of None \<Rightarrow> False | Some e \<Rightarrow> Pkg_Digest e \<noteq> [] \<and> Pkg_Digest e \<noteq> Pkg_Digest coordinate)
        ''same dependency version has conflicting content hashes''
      (Inr \<lparr>IS_packages = gomap_put key coordinate (IS_packages st), IS_names = insert (Pkg_Name coordinate) (IS_names st),
         IS_requirements = gomap_put (Pkg_Name coordinate) (header_values metadata ''Requires-Dist'') (IS_requirements st)\<rparr>)))))))))"

text \<open>A requirement that only an extra asks for.\<close>

definition quote_char :: "char \<Rightarrow> bool" where
  "quote_char c = (c = CHR 0x27 \<or> c = CHR 0x22)"

definition optional_only :: "string \<Rightarrow> bool" where
  "optional_only s = (prefix ''extra'' s \<and> (let r = dropWhile rx_blank (drop 5 s) in prefix ''=='' r \<and>
     (case dropWhile rx_blank (drop 2 r) of [] \<Rightarrow> False | q # t \<Rightarrow> quote_char q \<and>
        (let n = takeWhile (\<lambda>c. alnum c \<or> separator c) t in n \<noteq> [] \<and> (case drop (length n) t of [q'] \<Rightarrow> quote_char q' | _ \<Rightarrow> False)))))"

definition required_name :: "string \<Rightarrow> string option" where
  "required_name s = (case s of [] \<Rightarrow> None | c # cs \<Rightarrow> if alnum c then Some (c # takeWhile (\<lambda>x. alnum x \<or> separator x) cs) else None)"

definition check_requirement :: "string set \<Rightarrow> string \<Rightarrow> string \<Rightarrow> unit res" where
  "check_requirement names owner requirement =
     (let first = takeWhile (\<lambda>c. c \<noteq> CHR '';'') requirement; rest = drop (length first) requirement in
      if rest \<noteq> [] \<and> optional_only (trim_space (tl rest)) then Inr () else
      case required_name (trim_space first) of None \<Rightarrow> Inl (Err ''unrecognized transitive dependency metadata'') | Some name \<Rightarrow>
      case normalizePythonName name of Inl _ \<Rightarrow> Inl (Errf ''unaccounted transitive dependency %s required by %s'' [name, owner])
      | Inr n \<Rightarrow> if n \<in> names then Inr () else Inl (Errf ''unaccounted transitive dependency %s required by %s'' [name, owner]))"

definition DependencyInventory :: "wheel_env \<Rightarrow> (string, string) gomap \<Rightarrow> string \<Rightarrow> RuntimeInventory \<Rightarrow> PackageCoordinate list res" where
  "DependencyInventory env files lockPath base =
     fail_if (Inv_APIVersion base \<noteq> ''science-ladder-runtime-inventory/v1'' \<or> \<not> ValidDigest (Inv_RuntimeImageDigest base) \<or> Inv_Packages base = [])
       ''complete platform runtime inventory required''
     (res_bind (lockedWheelFiles env files lockPath) (\<lambda>_.
      res_bind (res_fold runtime_step \<lparr>IS_packages = [], IS_names = {}, IS_requirements = []\<rparr> (Inv_Packages base)) (\<lambda>st0.
      res_bind (res_fold (inventory_step env) st0 files) (\<lambda>st.
      res_bind (res_each (\<lambda>(owner, required). res_each (check_requirement (IS_names st) owner) required) (IS_requirements st)) (\<lambda>_.
      Inr (sort_key packageKey (map snd (IS_packages st))))))))"

section \<open>The scan\<close>

definition snapshot_current :: "go_time \<Rightarrow> AdvisorySnapshot \<Rightarrow> bool" where
  "snapshot_current now s = (Snapshot_APIVersion s = ''science-ladder-advisories/v1'' \<and> Snapshot_Kind s = ''AdvisorySnapshot'' \<and> Snapshot_ID s \<noteq> [] \<and>
     Snapshot_ExpiresAt s > now \<and> Snapshot_GeneratedAt s \<le> now + 60 * go_second \<and> Snapshot_GeneratedAt s \<ge> now - 7 * 24 * 3600 * go_second \<and>
     Snapshot_ExpiresAt s - Snapshot_GeneratedAt s \<le> 7 * 24 * 3600 * go_second)"

definition approved_advisory_hosts :: "string list" where
  "approved_advisory_hosts = [''cveawg.mitre.org'', ''api.osv.dev'', ''osv.dev'', ''osv-vulnerabilities.storage.googleapis.com'', ''security-tracker.debian.org'',
     ''security-team.debian.org'', ''bugs.debian.org'', ''bugzilla.redhat.com'', ''api.github.com'', ''github.com'', ''raw.githubusercontent.com'',
     ''www.python.org'', ''pypi.org'']"

definition advisory_source_step :: "url_parser \<Rightarrow> go_time \<Rightarrow> go_time \<Rightarrow> string set \<Rightarrow> AdvisorySource \<Rightarrow> string set res" where
  "advisory_source_step parse_url now generated urls s =
     (case parse_url (ASrc_URL s) of None \<Rightarrow> Inl (Err ''unverifiable_advisory_provenance'') | Some (scheme, host, user) \<Rightarrow>
      fail_if (scheme \<noteq> ''https'' \<or> user \<or> \<not> ValidDigest (ASrc_ContentDigest s) \<or> ASrc_FetchedAt s > now + 60 * go_second
        \<or> ASrc_FetchedAt s < generated - 24 * 3600 * go_second) ''unverifiable_advisory_provenance''
      (fail_if (fst (split_port host) \<notin> set approved_advisory_hosts) ''unapproved_primary_advisory_source'' (Inr (insert (ASrc_URL s) urls))))"

definition coverage_step :: "(string, AdvisoryCoverage) gomap \<Rightarrow> AdvisoryCoverage \<Rightarrow> (string, AdvisoryCoverage) gomap res" where
  "coverage_step coverage e =
     (case normalizePackage (Cover_Package e) of Inl _ \<Rightarrow> Inl (Err ''invalid_advisory_coordinate'') | Inr n \<Rightarrow>
      fail_if (lookup coverage (packageKey n) \<noteq> None) ''duplicate_advisory_coverage'' (Inr (gomap_put (packageKey n) (e\<lparr>Cover_Package := n\<rparr>) coverage)))"

definition unknown_finding :: "string \<Rightarrow> VulnerabilityFinding" where
  "unknown_finding i = \<lparr>Finding_Disposition = [], Finding_Component = ''platform advisory policy'', Finding_ID = i, Finding_Severity = ''unknown'', Finding_SourceURL = []\<rparr>"

text \<open>One advisory of a covered package; the state is the findings and the status.\<close>

definition advisory_step ::
    "(int \<Rightarrow> int) \<Rightarrow> string set \<Rightarrow> bool \<Rightarrow> PackageCoordinate \<Rightarrow> Advisory \<Rightarrow> VulnerabilityFinding list \<times> string \<Rightarrow> VulnerabilityFinding list \<times> string" where
  "advisory_step lower sources separated p a st = (case st of (findings, status0) \<Rightarrow>
     let severity0 = to_lower lower (Adv_Severity a); candidateOnly = separated \<and> Pkg_ExecutionDomain p = ''candidate-only'';
         (severity1, status1) =
           (if severity0 \<in> {''none'', ''low'', ''moderate'', ''medium''} then (severity0, status0)
            else if severity0 \<in> {''high'', ''critical''} then (severity0, if \<not> candidateOnly \<and> status0 \<noteq> ''unknown'' then ''fail'' else status0)
            else (''unknown'', if \<not> candidateOnly then ''unknown'' else status0));
         (severity, status) = (if Adv_ID a = [] \<or> Adv_SourceURL a \<notin> sources then (''unknown'', ''unknown'') else (severity1, status1))
     in (findings @ [\<lparr>Finding_Disposition = (if candidateOnly then ''isolated-candidate-only'' else []), Finding_Component = packageKey p, Finding_ID = Adv_ID a,
           Finding_Severity = severity, Finding_SourceURL = Adv_SourceURL a\<rparr>], status))"

definition covered_by :: "string set \<Rightarrow> PackageCoordinate \<Rightarrow> AdvisoryCoverage \<Rightarrow> bool" where
  "covered_by sources p e = (Cover_Package e = p \<and> Cover_Status e = ''complete'' \<and> Cover_SourceURL e \<in> sources)"

definition package_step ::
    "(int \<Rightarrow> int) \<Rightarrow> string set \<Rightarrow> bool \<Rightarrow> (string, AdvisoryCoverage) gomap \<Rightarrow> PackageCoordinate \<Rightarrow> VulnerabilityFinding list \<times> string
      \<Rightarrow> VulnerabilityFinding list \<times> string" where
  "package_step lower sources separated coverage p st =
     (let missing = (\<lambda>url. (fst st @ [\<lparr>Finding_Disposition = [], Finding_Component = packageKey p, Finding_ID = ''coverage_missing_or_incomplete'',
            Finding_Severity = ''unknown'', Finding_SourceURL = url\<rparr>], ''unknown'')) in
      case lookup coverage (packageKey p) of None \<Rightarrow> missing []
      | Some e \<Rightarrow> if \<not> covered_by sources p e then missing (Cover_SourceURL e)
          else fold (advisory_step lower sources separated p) (Cover_Advisories e) st)"

definition ScanAdvisoriesForDomains ::
    "(int \<Rightarrow> int) \<Rightarrow> url_parser \<Rightarrow> PackageCoordinate list \<Rightarrow> AdvisorySnapshot \<Rightarrow> go_time \<Rightarrow> bool \<Rightarrow> VulnerabilityFinding list \<times> string" where
  "ScanAdvisoriesForDomains lower parse_url packages snapshot now separated =
     (if \<not> snapshot_current now snapshot then ([unknown_finding ''stale_or_invalid_advisory_snapshot''], ''unknown'') else
      case res_fold (advisory_source_step parse_url now (Snapshot_GeneratedAt snapshot)) {} (Snapshot_Sources snapshot) of
        Inl e \<Rightarrow> ([unknown_finding (case e of Err i \<Rightarrow> i | _ \<Rightarrow> [])], ''unknown'')
      | Inr sources \<Rightarrow> if sources = {} then ([unknown_finding ''missing_advisory_sources''], ''unknown'') else
      (case res_fold coverage_step [] (Snapshot_Coverage snapshot) of
        Inl e \<Rightarrow> ([unknown_finding (case e of Err i \<Rightarrow> i | _ \<Rightarrow> [])], ''unknown'')
      | Inr coverage \<Rightarrow> fold (package_step lower sources separated coverage) packages ([], ''pass'')))"

section \<open>What a lock and an inventory bind\<close>

text \<open>Every configured asset of an accepted inventory is bound once, to components of the inventory; none of those a checker sees is for the
  candidate only.\<close>

lemma validateAssetInventory_bound:
  assumes "validateAssetInventory disks inventory = Inr u" "b \<in> set (Inv_Assets inventory)"
  shows "distinct (map (Asset_Name \<circ> Bind_Asset) (Inv_Assets inventory)) \<and> Bind_Asset b \<in> Disk_Asset ` set disks \<and> distinct (Bind_PackageKeys b) \<and>
    (\<forall>k\<in>set (Bind_PackageKeys b). \<exists>p. lookup (package_table (Inv_Packages inventory)) k = Some p \<and>
      (Asset_Domain (Bind_Asset b) \<noteq> ''candidate'' \<longrightarrow> Pkg_ExecutionDomain p \<noteq> ''candidate-only''))"
proof -
  let ?table = "package_table (Inv_Packages inventory)"
  obtain seen where f: "res_fold (binding_step disks ?table) {} (Inv_Assets inventory) = Inr seen"
    using assms(1) by (auto simp: validateAssetInventory_def res_simps)
  have one: "(Asset_Name \<circ> Bind_Asset) x \<notin> S \<and> T = insert ((Asset_Name \<circ> Bind_Asset) x) S" if "binding_step disks ?table S x = Inr T" for S x T
    using that by (auto simp: binding_step_def res_simps)
  obtain S T where "binding_step disks ?table S b = Inr T" using res_fold_each_ok [OF f assms(2)] by blast
  then obtain ks where b: "Bind_Asset b \<in> Disk_Asset ` set disks" and
    k: "res_fold (asset_key_step ?table (Asset_Domain (Bind_Asset b))) {} (Bind_PackageKeys b) = Inr ks"
    unfolding image_iff by (auto simp: binding_step_def res_simps list_ex_iff) (metis+)
  have two: "x \<notin> S \<and> T = insert x S" if "asset_key_step ?table area S x = Inr T" for area S x T
    using that by (auto simp: asset_key_step_def res_simps split: option.split_asm)
  have "\<exists>p. lookup ?table x = Some p \<and> (Asset_Domain (Bind_Asset b) \<noteq> ''candidate'' \<longrightarrow> Pkg_ExecutionDomain p \<noteq> ''candidate-only'')"
    if "x \<in> set (Bind_PackageKeys b)" for x
    using res_fold_each_ok [OF k that] by (auto simp: asset_key_step_def res_simps split: option.split_asm)
  moreover have "distinct (map (Asset_Name \<circ> Bind_Asset) (Inv_Assets inventory))"
    by (rule conjunct1 [OF res_fold_seen [OF f]]) (rule one)
  moreover have "distinct (map (\<lambda>x. x) (Bind_PackageKeys b))" by (rule conjunct1 [OF res_fold_seen [OF k]]) (rule two)
  ultimately show ?thesis using b by simp
qed

text \<open>An accepted wheel has the bytes its pin names.\<close>

lemma wheel_pinned:
  assumes "lockedWheelFiles env files lockPath = Inr out" "(name, data) \<in> set files" "prefix ''wheels/'' name"
  shows "\<exists>pins pin digest. read_lock files lockPath = Inr pins \<and> lookup pins pin = Some digest \<and> DigestBytes (WV_sha env) data = ''sha256:'' @ digest"
proof -
  obtain pins st where p: "read_lock files lockPath = Inr pins" and f: "res_fold (wheel_step env pins) \<lparr>WL_out = [], WL_used = {}, WL_total = 0\<rparr> files = Inr st"
    using assms(1) by (auto simp: lockedWheelFiles_def res_simps)
  obtain s t where "wheel_step env pins s (name, data) = Inr t" using res_fold_each_ok [OF f assms(2)] by blast
  with assms(3) have "\<exists>pin digest. lookup pins pin = Some digest \<and> DigestBytes (WV_sha env) data = ''sha256:'' @ digest"
    by (auto simp: wheel_step_def Let_def res_simps split: option.split_asm)
  with p show ?thesis by blast
qed

section \<open>When a scan passes\<close>

text \<open>The status of a scan is the worst verdict over the advisories of all packages.\<close>

definition worse :: "string \<Rightarrow> string \<Rightarrow> string" where
  "worse s v = (if s = ''unknown'' \<or> v = ''unknown'' then ''unknown'' else if s = ''fail'' \<or> v = ''fail'' then ''fail'' else ''pass'')"

definition minor_severity :: "(int \<Rightarrow> int) \<Rightarrow> Advisory \<Rightarrow> bool" where
  "minor_severity lower a \<longleftrightarrow> to_lower lower (Adv_Severity a) \<in> {''none'', ''low'', ''moderate'', ''medium''}"

definition advisory_verdict :: "(int \<Rightarrow> int) \<Rightarrow> string set \<Rightarrow> bool \<Rightarrow> PackageCoordinate \<Rightarrow> Advisory \<Rightarrow> string" where
  "advisory_verdict lower sources separated p a =
     (if Adv_ID a = [] \<or> Adv_SourceURL a \<notin> sources then ''unknown''
      else if separated \<and> Pkg_ExecutionDomain p = ''candidate-only'' \<or> minor_severity lower a then ''pass''
      else if to_lower lower (Adv_Severity a) \<in> {''high'', ''critical''} then ''fail'' else ''unknown'')"

definition package_verdict :: "(int \<Rightarrow> int) \<Rightarrow> string set \<Rightarrow> bool \<Rightarrow> (string, AdvisoryCoverage) gomap \<Rightarrow> PackageCoordinate \<Rightarrow> string" where
  "package_verdict lower sources separated coverage p =
     (case lookup coverage (packageKey p) of None \<Rightarrow> ''unknown'' | Some e \<Rightarrow> if \<not> covered_by sources p e then ''unknown''
      else fold (\<lambda>a s. worse s (advisory_verdict lower sources separated p a)) (Cover_Advisories e) ''pass'')"

abbreviation scan_states :: "string set" where
  "scan_states \<equiv> {''pass'', ''fail'', ''unknown''}"

lemma worse_pass: "worse s v = ''pass'' \<longleftrightarrow> s \<notin> {''unknown'', ''fail''} \<and> v \<notin> {''unknown'', ''fail''}"
  by (simp add: worse_def)

lemma worse_simps [simp]:
  "worse s ''unknown'' = ''unknown''" "worse ''unknown'' v = ''unknown''" "s \<in> scan_states \<Longrightarrow> worse s ''pass'' = s" "v \<in> scan_states \<Longrightarrow> worse ''pass'' v = v"
  "worse s v \<in> scan_states" "worse (worse a b) c = worse a (worse b c)"
  by (auto simp: worse_def)

lemma advisory_step_status:
  assumes "snd st \<in> scan_states"
  shows "snd (advisory_step lower sources separated p a st) = worse (snd st) (advisory_verdict lower sources separated p a)"
  using assms by (cases st) (auto simp: advisory_step_def advisory_verdict_def minor_severity_def worse_def Let_def)

lemma fold_advisories_status:
  assumes "snd st \<in> scan_states"
  shows "snd (fold (advisory_step lower sources separated p) as st) = fold (\<lambda>a s. worse s (advisory_verdict lower sources separated p a)) as (snd st)"
  using assms
proof (induction as arbitrary: st)
  case (Cons a as)
  have s: "snd (advisory_step lower sources separated p a st) = worse (snd st) (advisory_verdict lower sources separated p a)"
    by (rule advisory_step_status [OF Cons.prems])
  have "snd (advisory_step lower sources separated p a st) \<in> scan_states" unfolding s by (rule worse_simps(5))
  from Cons.IH [OF this] show ?case by (simp add: s)
qed simp

lemma fold_worse:
  assumes "s \<in> scan_states"
  shows "fold (\<lambda>a s. worse s (f a)) as s = worse s (fold (\<lambda>a s. worse s (f a)) as ''pass'')"
  using assms
proof (induction as arbitrary: s)
  case (Cons a as)
  have "worse s (f a) \<in> scan_states" "worse ''pass'' (f a) \<in> scan_states" by (rule worse_simps(5))+
  from Cons.IH [OF this(1)] Cons.IH [OF this(2)] Cons.prems show ?case by (auto simp: worse_def)
qed auto

lemma fold_worse_pass: "fold (\<lambda>a s. worse s (f a)) as ''pass'' = ''pass'' \<longleftrightarrow> (\<forall>a\<in>set as. f a \<notin> {''unknown'', ''fail''})"
proof (induction as)
  case (Cons a as)
  have "worse ''pass'' (f a) \<in> scan_states" by (rule worse_simps(5))
  from fold_worse [OF this, of f as] have "fold (\<lambda>a s. worse s (f a)) (a # as) ''pass'' = worse (worse ''pass'' (f a)) (fold (\<lambda>a s. worse s (f a)) as ''pass'')" by simp
  moreover have "fold (\<lambda>a s. worse s (f a)) as ''pass'' \<in> scan_states"
    by (subst fold_worse) (simp, rule worse_simps(5))
  ultimately show ?case using Cons.IH by (auto simp: worse_def)
qed simp

lemma package_step_status:
  assumes "snd st \<in> scan_states"
  shows "snd (package_step lower sources separated coverage p st) = worse (snd st) (package_verdict lower sources separated coverage p)"
proof (cases "lookup coverage (packageKey p)")
  case (Some e)
  have "fold (\<lambda>a s. worse s (advisory_verdict lower sources separated p a)) as (snd st) =
    worse (snd st) (fold (\<lambda>a s. worse s (advisory_verdict lower sources separated p a)) as ''pass'')" for as
    by (rule fold_worse [OF assms])
  with Some show ?thesis by (simp add: package_step_def package_verdict_def Let_def fold_advisories_status [OF assms])
qed (simp add: package_step_def package_verdict_def Let_def)

lemma fold_packages_status:
  assumes "snd st \<in> scan_states"
  shows "snd (fold (package_step lower sources separated coverage) ps st) = fold (\<lambda>p s. worse s (package_verdict lower sources separated coverage p)) ps (snd st)"
  using assms
proof (induction ps arbitrary: st)
  case (Cons p ps)
  have s: "snd (package_step lower sources separated coverage p st) = worse (snd st) (package_verdict lower sources separated coverage p)"
    by (rule package_step_status [OF Cons.prems])
  have "snd (package_step lower sources separated coverage p st) \<in> scan_states" unfolding s by (rule worse_simps(5))
  from Cons.IH [OF this] show ?case by (simp add: s)
qed simp

text \<open>The table of coverage: one entry per key, normalised.\<close>

definition entry_key :: "AdvisoryCoverage \<Rightarrow> string option" where
  "entry_key e = (case normalizePackage (Cover_Package e) of Inl _ \<Rightarrow> None | Inr n \<Rightarrow> Some (packageKey n))"

lemma coverage_step_iff: "coverage_step cov e = Inr c \<longleftrightarrow> (\<exists>n. normalizePackage (Cover_Package e) = Inr n \<and> lookup cov (packageKey n) = None \<and>
    c = gomap_put (packageKey n) (e\<lparr>Cover_Package := n\<rparr>) cov)"
  by (auto simp: coverage_step_def res_simps split: sum.split)

lemma coverage_table:
  assumes "res_fold coverage_step cov es = Inr cov'"
  shows "lookup cov' k = (case find (\<lambda>e. entry_key e = Some k) es of None \<Rightarrow> lookup cov k
    | Some e \<Rightarrow> map_option (\<lambda>n. e\<lparr>Cover_Package := n\<rparr>) (case normalizePackage (Cover_Package e) of Inl _ \<Rightarrow> None | Inr n \<Rightarrow> Some n)) \<and>
    distinct (map entry_key es) \<and> (\<forall>e\<in>set es. entry_key e \<noteq> None \<and> lookup cov (the (entry_key e)) = None)"
  using assms
proof (induction es arbitrary: cov)
  case (Cons e es)
  then obtain n where n: "normalizePackage (Cover_Package e) = Inr n" "lookup cov (packageKey n) = None" and
    r: "res_fold coverage_step (gomap_put (packageKey n) (e\<lparr>Cover_Package := n\<rparr>) cov) es = Inr cov'"
    by (auto simp: res_simps coverage_step_iff)
  have key: "entry_key e = Some (packageKey n)" by (simp add: entry_key_def n)
  note IH = Cons.IH [OF r]
  have fresh: "entry_key x \<noteq> None \<and> entry_key x \<noteq> Some (packageKey n) \<and> lookup cov (the (entry_key x)) = None" if "x \<in> set es" for x
    using IH that by (auto split: if_split_asm)
  then have "find (\<lambda>e. entry_key e = Some (packageKey n)) es = None" by (auto simp: find_None_iff)
  moreover have "Some (packageKey n) \<notin> entry_key ` set es" using fresh by (metis imageE)
  ultimately show ?case using IH n key fresh by (auto split: option.split if_split_asm)
qed simp

lemma coverage_accepts:
  assumes "distinct (map entry_key es)" "\<And>e. e \<in> set es \<Longrightarrow> entry_key e \<noteq> None \<and> lookup cov (the (entry_key e)) = None"
  shows "is_ok (res_fold coverage_step cov es)"
  using assms
proof (induction es arbitrary: cov)
  case (Cons e es)
  from Cons.prems(2) [of e] obtain n where n: "normalizePackage (Cover_Package e) = Inr n" "lookup cov (packageKey n) = None"
    by (auto simp: entry_key_def split: sum.split_asm)
  have key: "entry_key e = Some (packageKey n)" by (simp add: entry_key_def n)
  have "entry_key x \<noteq> None \<and> lookup (gomap_put (packageKey n) (e\<lparr>Cover_Package := n\<rparr>) cov) (the (entry_key x)) = None" if "x \<in> set es" for x
  proof -
    have "entry_key x \<noteq> entry_key e" using Cons.prems(1) that by (auto simp: image_iff)
    with Cons.prems(2) [of x] that show ?thesis by (auto simp: key)
  qed
  with Cons.IH Cons.prems(1) n show ?case by (simp add: coverage_step_def res_simps)
qed simp

text \<open>Sources: HTTPS, approved hosts, a digest, fetched at most a day before the snapshot.\<close>

definition source_approved :: "url_parser \<Rightarrow> go_time \<Rightarrow> go_time \<Rightarrow> AdvisorySource \<Rightarrow> bool" where
  "source_approved parse_url now generated s \<longleftrightarrow> (\<exists>host. parse_url (ASrc_URL s) = Some (''https'', host, False) \<and> fst (split_port host) \<in> set approved_advisory_hosts) \<and>
     ValidDigest (ASrc_ContentDigest s) \<and> ASrc_FetchedAt s \<le> now + 60 * go_second \<and> generated - 24 * 3600 * go_second \<le> ASrc_FetchedAt s"

lemma advisory_sources:
  "res_fold (advisory_source_step parse_url now generated) urls ss = Inr urls' \<longleftrightarrow>
     (\<forall>s\<in>set ss. source_approved parse_url now generated s) \<and> urls' = urls \<union> ASrc_URL ` set ss"
proof (induction ss arbitrary: urls)
  case (Cons s ss)
  have "advisory_source_step parse_url now generated urls s = Inr u \<longleftrightarrow> source_approved parse_url now generated s \<and> u = insert (ASrc_URL s) urls" for u
    by (auto simp: advisory_source_step_def source_approved_def fail_if_def not_less split: option.split)
  with Cons.IH show ?case by (auto simp: res_simps)
qed auto

text \<open>A package is found in the table exactly through the entry that normalises to it.\<close>

lemma coverage_lookup:
  assumes "res_fold coverage_step [] es = Inr coverage"
  shows "(\<exists>e. lookup coverage (packageKey p) = Some e \<and> Cover_Package e = p \<and> Q (Cover_Status e) (Cover_SourceURL e) (Cover_Advisories e)) \<longleftrightarrow>
    (\<exists>e\<in>set es. normalizePackage (Cover_Package e) = Inr p \<and> Q (Cover_Status e) (Cover_SourceURL e) (Cover_Advisories e))"
proof -
  note table = coverage_table [OF assms, of "packageKey p"]
  show ?thesis
  proof (cases "find (\<lambda>e. entry_key e = Some (packageKey p)) es")
    case None
    then have "normalizePackage (Cover_Package e) \<noteq> Inr p" if "e \<in> set es" for e using that by (auto simp: find_None_iff entry_key_def)
    with table None show ?thesis by auto
  next
    case (Some e)
    then have e: "e \<in> set es" "entry_key e = Some (packageKey p)" by (auto simp: find_Some_iff)
    then obtain n where n: "normalizePackage (Cover_Package e) = Inr n" by (auto simp: entry_key_def split: sum.split_asm)
    have one: "x = e" if "x \<in> set es" "normalizePackage (Cover_Package x) = Inr p" for x
    proof -
      have "inj_on entry_key (set es)" using table by (simp add: distinct_map)
      moreover have "entry_key x = entry_key e" using e(2) that(2) by (simp add: entry_key_def)
      ultimately show ?thesis using that(1) e(1) by (rule inj_onD)
    qed
    have "lookup coverage (packageKey p) = Some (e\<lparr>Cover_Package := n\<rparr>)" using conjunct1 [OF table] by (simp add: Some n)
    moreover have "(\<exists>x\<in>set es. normalizePackage (Cover_Package x) = Inr p \<and> Q (Cover_Status x) (Cover_SourceURL x) (Cover_Advisories x)) \<longleftrightarrow>
      n = p \<and> Q (Cover_Status e) (Cover_SourceURL e) (Cover_Advisories e)"
      using one e(1) n by (metis sum.inject(2))
    ultimately show ?thesis by simp
  qed
qed

definition source_urls :: "AdvisorySnapshot \<Rightarrow> string set" where
  "source_urls snapshot = ASrc_URL ` set (Snapshot_Sources snapshot)"

definition advisory_harmless :: "(int \<Rightarrow> int) \<Rightarrow> string set \<Rightarrow> bool \<Rightarrow> PackageCoordinate \<Rightarrow> Advisory \<Rightarrow> bool" where
  "advisory_harmless lower urls separated p a \<longleftrightarrow> Adv_ID a \<noteq> [] \<and> Adv_SourceURL a \<in> urls \<and>
     (minor_severity lower a \<or> separated \<and> Pkg_ExecutionDomain p = ''candidate-only'')"

abbreviation acceptable :: "string \<Rightarrow> bool" where
  "acceptable v \<equiv> v \<notin> {''unknown'', ''fail''}"

lemma advisory_verdict_pass: "acceptable (advisory_verdict lower urls separated p a) \<longleftrightarrow> advisory_harmless lower urls separated p a"
  by (cases "Adv_ID a = [] \<or> Adv_SourceURL a \<notin> urls"; cases "minor_severity lower a \<or> separated \<and> Pkg_ExecutionDomain p = ''candidate-only''";
      cases "to_lower lower (Adv_Severity a) \<in> {''high'', ''critical''}")
    (unfold advisory_verdict_def advisory_harmless_def, auto)

lemma fold_worse_acceptable: "acceptable (fold (\<lambda>a s. worse s (f a)) as ''pass'') \<longleftrightarrow> (\<forall>a\<in>set as. acceptable (f a))"
proof -
  have "fold (\<lambda>a s. worse s (f a)) as ''pass'' \<in> scan_states" by (subst fold_worse) (simp, rule worse_simps(5))
  then have "acceptable (fold (\<lambda>a s. worse s (f a)) as ''pass'') \<longleftrightarrow> fold (\<lambda>a s. worse s (f a)) as ''pass'' = ''pass''" by auto
  then show ?thesis by (simp only: fold_worse_pass)
qed

lemma package_verdict_pass:
  "acceptable (package_verdict lower urls separated coverage p) \<longleftrightarrow>
     (\<exists>e. lookup coverage (packageKey p) = Some e \<and> covered_by urls p e \<and> (\<forall>a\<in>set (Cover_Advisories e). advisory_harmless lower urls separated p a))"
proof (cases "lookup coverage (packageKey p)")
  case (Some e)
  have "acceptable (fold (\<lambda>a s. worse s (advisory_verdict lower urls separated p a)) (Cover_Advisories e) ''pass'') \<longleftrightarrow>
      (\<forall>a\<in>set (Cover_Advisories e). advisory_harmless lower urls separated p a)"
    unfolding fold_worse_acceptable advisory_verdict_pass ..
  moreover have "\<not> acceptable ''unknown''" by simp
  ultimately show ?thesis unfolding package_verdict_def Some option.case option.inject if_not_P by (cases "covered_by urls p e") simp_all
qed (simp add: package_verdict_def)

lemma scan_status:
  assumes "snapshot_current now snapshot" "Snapshot_Sources snapshot \<noteq> []" "\<forall>s\<in>set (Snapshot_Sources snapshot). source_approved parse_url now (Snapshot_GeneratedAt snapshot) s"
    "res_fold coverage_step [] (Snapshot_Coverage snapshot) = Inr coverage"
  shows "snd (ScanAdvisoriesForDomains lower parse_url packages snapshot now separated) = ''pass'' \<longleftrightarrow>
    (\<forall>p\<in>set packages. package_verdict lower (ASrc_URL ` set (Snapshot_Sources snapshot)) separated coverage p \<notin> {''unknown'', ''fail''})"
proof -
  have "res_fold (advisory_source_step parse_url now (Snapshot_GeneratedAt snapshot)) {} (Snapshot_Sources snapshot) = Inr (ASrc_URL ` set (Snapshot_Sources snapshot))"
    using assms(3) by (simp add: advisory_sources)
  with assms(1,2,4) show ?thesis by (simp add: ScanAdvisoriesForDomains_def fold_packages_status fold_worse_pass)
qed

lemma scan_refused:
  assumes "\<not> (snapshot_current now snapshot \<and> Snapshot_Sources snapshot \<noteq> [] \<and>
    (\<forall>s\<in>set (Snapshot_Sources snapshot). source_approved parse_url now (Snapshot_GeneratedAt snapshot) s) \<and> is_ok (res_fold coverage_step [] (Snapshot_Coverage snapshot)))"
  shows "snd (ScanAdvisoriesForDomains lower parse_url packages snapshot now separated) \<noteq> ''pass''"
proof (cases "res_fold (advisory_source_step parse_url now (Snapshot_GeneratedAt snapshot)) {} (Snapshot_Sources snapshot)")
  case (Inr urls)
  with assms show ?thesis by (auto simp: ScanAdvisoriesForDomains_def advisory_sources is_ok_iff split: sum.split)
qed (simp add: ScanAdvisoriesForDomains_def)

text \<open>C29: a scan passes exactly when the snapshot is current and built from approved primary sources, no package is covered twice, and every package of the
  inventory has complete coverage whose advisories are all attributed to such a source and below high severity.  Only a package that runs in the candidate's own
  domain on a host with a separated toolchain may carry graver ones.\<close>

theorem scan_passes_iff:
  "snd (ScanAdvisoriesForDomains lower parse_url packages snapshot now separated) = ''pass'' \<longleftrightarrow>
    snapshot_current now snapshot \<and> Snapshot_Sources snapshot \<noteq> [] \<and>
    (\<forall>s\<in>set (Snapshot_Sources snapshot). source_approved parse_url now (Snapshot_GeneratedAt snapshot) s) \<and>
    distinct (map entry_key (Snapshot_Coverage snapshot)) \<and> (\<forall>e\<in>set (Snapshot_Coverage snapshot). entry_key e \<noteq> None) \<and>
    (\<forall>p\<in>set packages. \<exists>e\<in>set (Snapshot_Coverage snapshot). normalizePackage (Cover_Package e) = Inr p \<and> Cover_Status e = ''complete'' \<and>
      Cover_SourceURL e \<in> source_urls snapshot \<and> (\<forall>a\<in>set (Cover_Advisories e). advisory_harmless lower (source_urls snapshot) separated p a))"
  (is "?pass \<longleftrightarrow> ?current \<and> ?some \<and> ?approved \<and> ?once \<and> ?valid \<and> (\<forall>p\<in>_. ?covered p)")
proof (cases "?current \<and> ?some \<and> ?approved \<and> is_ok (res_fold coverage_step [] (Snapshot_Coverage snapshot))")
  case True
  then obtain coverage where c: "res_fold coverage_step [] (Snapshot_Coverage snapshot) = Inr coverage" by (auto simp: is_ok_iff)
  have once: "?once" "?valid" using coverage_table [OF c] by blast+
  let ?Q = "\<lambda>p status url as. status = ''complete'' \<and> url \<in> source_urls snapshot \<and> (\<forall>a\<in>set as. advisory_harmless lower (source_urls snapshot) separated p a)"
  have "acceptable (package_verdict lower (source_urls snapshot) separated coverage p) \<longleftrightarrow> ?covered p" for p
    unfolding package_verdict_pass coverage_lookup [OF c, of p "?Q p", symmetric] covered_by_def by blast
  moreover have "?pass \<longleftrightarrow> (\<forall>p\<in>set packages. acceptable (package_verdict lower (source_urls snapshot) separated coverage p))"
    using True c unfolding source_urls_def by (intro scan_status) blast+
  ultimately show ?thesis using True once by blast
next
  case False
  then have "\<not> ?pass" using scan_refused by blast
  moreover have "\<not> (?current \<and> ?some \<and> ?approved \<and> ?once \<and> ?valid)" using False coverage_accepts [of "Snapshot_Coverage snapshot" "[]"] by auto
  ultimately show ?thesis by blast
qed

definition demo_feed :: string where
  "demo_feed = ''https://api.osv.dev/v1''"

definition demo_package :: "string \<Rightarrow> PackageCoordinate" where
  "demo_package name = \<lparr>Pkg_ExecutionDomain = [], Pkg_Ecosystem = ''Debian'', Pkg_Name = name, Pkg_Version = ''1'', Pkg_Digest = [], Pkg_SourceName = [], Pkg_SourceVersion = []\<rparr>"

definition demo_snapshot :: AdvisorySnapshot where
  "demo_snapshot = \<lparr>Snapshot_APIVersion = ''science-ladder-advisories/v1'', Snapshot_Kind = ''AdvisorySnapshot'', Snapshot_ID = ''s'', Snapshot_GeneratedAt = 0,
     Snapshot_ExpiresAt = 9, Snapshot_Sources = [\<lparr>ASrc_URL = demo_feed, ASrc_FetchedAt = 0, ASrc_ContentDigest = ''sha256:'' @ hex_encode (replicate 32 CHR ''d'')\<rparr>],
     Snapshot_Coverage = [\<lparr>Cover_Package = demo_package ''curl'', Cover_Status = ''complete'', Cover_SourceURL = demo_feed,
         Cover_Advisories = [\<lparr>Adv_ID = ''1'', Adv_Severity = ''Low'', Adv_SourceURL = demo_feed\<rparr>]\<rparr>,
       \<lparr>Cover_Package = demo_package ''zlib'', Cover_Status = ''complete'', Cover_SourceURL = demo_feed,
         Cover_Advisories = [\<lparr>Adv_ID = ''2'', Adv_Severity = ''HIGH'', Adv_SourceURL = demo_feed\<rparr>]\<rparr>]\<rparr>"

definition demo_urls :: url_parser where
  "demo_urls u = Some (''https'', ''api.osv.dev'', False)"

lemma demo_feed_approved: "source_approved demo_urls 5 0 \<lparr>ASrc_URL = demo_feed, ASrc_FetchedAt = 0, ASrc_ContentDigest = ''sha256:'' @ hex_encode (replicate 32 CHR ''d'')\<rparr>"
proof -
  have "ValidDigest (''sha256:'' @ hex_encode (replicate 32 CHR ''d''))" unfolding ValidDigest_iff by (intro exI [of _ "replicate 32 CHR ''d''"]) simp
  moreover have "fst (split_port ''api.osv.dev'') = ''api.osv.dev''" by code_simp
  ultimately show ?thesis by (simp add: source_approved_def demo_urls_def approved_advisory_hosts_def go_second_def)
qed

lemma demo_entries: "normalizePackage (demo_package ''curl'') = Inr (demo_package ''curl'')" "normalizePackage (demo_package ''zlib'') = Inr (demo_package ''zlib'')"
  by code_simp+

theorem scan_passes_iff_witness:
  "snd (ScanAdvisoriesForDomains (\<lambda>r. r) demo_urls [demo_package ''curl''] demo_snapshot 5 False) = ''pass'' \<and>
   snd (ScanAdvisoriesForDomains (\<lambda>r. r) demo_urls [demo_package ''zlib''] demo_snapshot 5 False) \<noteq> ''pass''"
proof -
  have keys: "packageKey (demo_package ''curl'') \<noteq> packageKey (demo_package ''zlib'')" "demo_package ''curl'' \<noteq> demo_package ''zlib''" by code_simp+
  have harm: "minor_severity (\<lambda>r. r) \<lparr>Adv_ID = ''1'', Adv_Severity = ''Low'', Adv_SourceURL = demo_feed\<rparr>"
    "\<not> minor_severity (\<lambda>r. r) \<lparr>Adv_ID = ''2'', Adv_Severity = ''HIGH'', Adv_SourceURL = demo_feed\<rparr>" by code_simp+
  have now: "snapshot_current 5 demo_snapshot" by code_simp
  show ?thesis
    unfolding scan_passes_iff
    using keys harm now demo_feed_approved
    by (simp add: demo_snapshot_def entry_key_def demo_entries source_urls_def advisory_harmless_def)
qed

end
